(* ===== verification/Prelude.thy ===== *)
theory Prelude
  imports Main "HOL-Library.Multiset" "HOL-Library.AList"
begin

text \<open>
  Shared base of the development: Python exceptions as values, the result type of code that
  may raise, the fragments of Python's string, sequence and dictionary behaviour that the
  modelled code uses, and the generic lemmas and simp collections the component theories share.
\<close>

section \<open>Collections\<close>

named_theorems frame \<open>fields that an operation leaves unchanged\<close>
named_theorems res_simps \<open>rewriting of results that may be an exception\<close>

section \<open>Exceptions as values\<close>

text \<open>
  The exception classes that the modelled code raises or tells apart in an \<open>except\<close> clause.
  The message is kept where the source raises it with a literal one.  \<open>FatalError\<close> is the
  producer's \<open>RemoteFillFatalError\<close>; \<open>OtherError\<close> stands for every other exception that a
  library or a callback may raise.
\<close>

datatype exn =
    ValueError string
  | TypeError string
  | RuntimeError string
  | MemoryError string
  | TimeoutError string
  | KeyError
  | IndexError
  | AttributeError
  | AssertionError
  | OverflowError string
  | ReplyLostError
  | FatalError string
  | UnsafePageLifecycleError string
  | LayerPageAdmissionRollbackError
  | NativeExternalPageTransferUnknownError
  | CheckpointRestoreMiss int string
  | OtherError string

type_synonym 'a res = "exn + 'a"

text \<open>Sequencing two computations that may raise: the second runs on the first one's value.\<close>

definition bindR :: "'a res \<Rightarrow> ('a \<Rightarrow> 'b res) \<Rightarrow> 'b res" where
  "bindR r f = (case r of Inl e \<Rightarrow> Inl e | Inr x \<Rightarrow> f x)"

lemma bindR_simps [simp]:
  "bindR (Inl e) f = Inl e"
  "bindR (Inr x) f = f x"
  by (simp_all add: bindR_def)

lemma bindR_Inr_iff [res_simps]:
  "bindR r f = Inr y \<longleftrightarrow> (\<exists>x. r = Inr x \<and> f x = Inr y)"
  by (cases r) auto

text \<open>\<open>check c e\<close> is the guard \<open>if c: raise e\<close>.\<close>

definition check :: "bool \<Rightarrow> exn \<Rightarrow> unit res" where
  "check c e = (if c then Inl e else Inr ())"

lemma check_Inr_iff [res_simps]: "check c e = Inr u \<longleftrightarrow> \<not> c"
  by (simp add: check_def)

lemma check_simps [simp]:
  "check True e = Inl e"
  "check False e = Inr ()"
  by (simp_all add: check_def)

text \<open>
  \<open>mapR f xs\<close> is \<open>tuple(f(x) for x in xs)\<close>: the elements are computed from left to right
  and the first exception ends the comprehension.
\<close>

fun mapR :: "('a \<Rightarrow> 'b res) \<Rightarrow> 'a list \<Rightarrow> 'b list res" where
  "mapR f [] = Inr []"
| "mapR f (x # xs) =
     (case f x of
        Inl e \<Rightarrow> Inl e
      | Inr y \<Rightarrow> (case mapR f xs of Inl e \<Rightarrow> Inl e | Inr ys \<Rightarrow> Inr (y # ys)))"

lemma mapR_Inr_iff [res_simps]:
  "mapR f xs = Inr ys \<longleftrightarrow>
   length ys = length xs \<and> (\<forall>i < length xs. f (xs ! i) = Inr (ys ! i))"
proof (induction xs arbitrary: ys)
  case Nil
  then show ?case by auto
next
  case (Cons x xs)
  show ?case
  proof (cases ys)
    case Nil
    then show ?thesis by (auto split: sum.splits)
  next
    case (Cons y ys')
    have "mapR f (x # xs) = Inr ys \<longleftrightarrow> f x = Inr y \<and> mapR f xs = Inr ys'"
      using Cons by (auto split: sum.splits)
    also have "\<dots> \<longleftrightarrow> f x = Inr y \<and> length ys' = length xs \<and>
        (\<forall>i < length xs. f (xs ! i) = Inr (ys' ! i))"
      using Cons.IH by simp
    finally show ?thesis
      using Cons by (auto simp: nth_Cons less_Suc_eq_0_disj split: nat.split)
  qed
qed

lemma mapR_length: "mapR f xs = Inr ys \<Longrightarrow> length ys = length xs"
  by (simp add: res_simps)

lemma mapR_map: "(\<And>x. x \<in> set xs \<Longrightarrow> f x = Inr (g x)) \<Longrightarrow> mapR f xs = Inr (map g xs)"
  by (induction xs) auto

lemma mapR_in_set: "mapR f xs = Inr ys \<Longrightarrow> y \<in> set ys \<Longrightarrow> \<exists>x \<in> set xs. f x = Inr y"
  by (auto simp: res_simps in_set_conv_nth) (metis nth_mem)

lemma mapR_all: "mapR f xs = Inr ys \<Longrightarrow> x \<in> set xs \<Longrightarrow> \<exists>y. f x = Inr y"
  by (induction xs arbitrary: ys) (auto split: sum.splits)

section \<open>Python values\<close>

text \<open>
  A dynamically typed value, for the code that inspects the types of what it is given
  (request configurations, counts).  \<open>PBool\<close> and \<open>PInt\<close> are separate constructors: the code
  that must tell \<open>bool\<close> from \<open>int\<close> does so with \<open>isinstance\<close> or \<open>type\<close>.
\<close>

datatype pyval =
    PNone
  | PBool bool
  | PInt int
  | PStr string
  | PMapping "(string \<times> pyval) list"
  | POther

text \<open>\<open>d.get(k)\<close>: a missing key reads as \<open>None\<close>.\<close>

definition py_get :: "(string \<times> pyval) list \<Rightarrow> string \<Rightarrow> pyval" where
  "py_get d k = (case map_of d k of None \<Rightarrow> PNone | Some v \<Rightarrow> v)"

section \<open>Dictionaries built from sequences\<close>

text \<open>\<open>{k: v for k, v in kvs}\<close>: the last entry of a key wins.\<close>

definition py_dict :: "('k \<times> 'v) list \<Rightarrow> 'k \<rightharpoonup> 'v" where
  "py_dict kvs = map_of (rev kvs)"

lemma py_dict_distinct: "distinct (map fst kvs) \<Longrightarrow> py_dict kvs = map_of kvs"
  by (simp add: py_dict_def map_of_inject_set rev_map [symmetric])

lemma py_dict_SomeD: "py_dict kvs k = Some v \<Longrightarrow> (k, v) \<in> set kvs"
  by (auto simp: py_dict_def dest: map_of_SomeD)

lemma py_dict_Some_iff:
  "distinct (map fst kvs) \<Longrightarrow> py_dict kvs k = Some v \<longleftrightarrow> (k, v) \<in> set kvs"
  by (simp add: py_dict_distinct)

text \<open>\<open>sorted(set(xs))\<close>\<close>

definition py_sorted_set :: "'a::linorder list \<Rightarrow> 'a list" where
  "py_sorted_set xs = sort (remdups xs)"

lemma set_py_sorted_set [simp]: "set (py_sorted_set xs) = set xs"
  by (simp add: py_sorted_set_def)

lemma py_sorted_set_empty [simp]: "py_sorted_set xs = [] \<longleftrightarrow> xs = []"
  by (metis set_empty set_py_sorted_set)

text \<open>\<open>d.update(zip(ks, vs))\<close> on new keys appends the entries in order.\<close>

text \<open>The keys of \<open>{x: _ for x in xs}\<close>, in insertion order.\<close>

definition py_unique :: "'a list \<Rightarrow> 'a list" where
  "py_unique xs = fold (\<lambda>x ys. if x \<in> set ys then ys else ys @ [x]) xs []"

lemma py_unique_props: "distinct (py_unique xs) \<and> set (py_unique xs) = set xs"
proof -
  have "distinct (fold (\<lambda>x ys. if x \<in> set ys then ys else ys @ [x]) xs ys) \<and>
      set (fold (\<lambda>x ys. if x \<in> set ys then ys else ys @ [x]) xs ys) = set ys \<union> set xs"
    if "distinct ys" for ys :: "'a list"
    using that by (induction xs arbitrary: ys) auto
  from this [of "[]"] show ?thesis by (simp add: py_unique_def)
qed

lemma distinct_py_unique [simp]: "distinct (py_unique xs)"
  by (simp add: py_unique_props)

lemma set_py_unique [simp]: "set (py_unique xs) = set xs"
  by (simp add: py_unique_props)

lemma alist_update_new: "k \<notin> fst ` set al \<Longrightarrow> AList.update k v al = al @ [(k, v)]"
  by (induction al) auto

lemma alist_updates_new:
  assumes "distinct ks" "length vs = length ks" "set ks \<inter> fst ` set al = {}"
  shows "AList.updates ks vs al = al @ zip ks vs"
  using assms
proof (induction ks arbitrary: vs al)
  case Nil
  then show ?case by simp
next
  case (Cons k ks)
  then obtain v vs' where vs: "vs = v # vs'" by (cases vs) auto
  have "AList.updates ks vs' (AList.update k v al) = (al @ [(k, v)]) @ zip ks vs'"
    using Cons vs by (subst Cons.IH) (auto simp: alist_update_new)
  with vs show ?case by simp
qed

section \<open>Strings\<close>

text \<open>\<open>str.isspace\<close> on the characters of an ASCII string.\<close>

definition py_space :: "char \<Rightarrow> bool" where
  "py_space c \<longleftrightarrow> of_char c \<in> {9, 10, 11, 12, 13, 28, 29, 30, 31, 32 :: nat}"

definition py_strip :: "string \<Rightarrow> string" where
  "py_strip s = rev (dropWhile py_space (rev (dropWhile py_space s)))"

lemma py_strip_Nil [simp]: "py_strip [] = []"
  by (simp add: py_strip_def)

lemma py_strip_idem [simp]: "py_strip (py_strip s) = py_strip s"
proof -
  define t where "t = dropWhile py_space s"
  define u where "u = rev (dropWhile py_space (rev t))"
  have "rev t = takeWhile py_space (rev t) @ dropWhile py_space (rev t)" by simp
  then have t: "t = u @ rev (takeWhile py_space (rev t))"
    unfolding u_def by (metis rev_append rev_rev_ident)
  have head: "u \<noteq> [] \<Longrightarrow> \<not> py_space (hd u)"
  proof -
    assume "u \<noteq> []"
    then have "t \<noteq> []" "hd u = hd t" using t by (metis Nil_is_append_conv, metis hd_append2)
    then show ?thesis using hd_dropWhile [of py_space s] by (simp add: t_def)
  qed
  have "u \<noteq> [] \<Longrightarrow> \<not> py_space (last u)"
    using hd_dropWhile [of py_space "rev t"] by (simp add: u_def last_rev)
  with head have "dropWhile py_space u = u" and "dropWhile py_space (rev u) = rev u"
    by (auto simp: dropWhile_eq_self_iff hd_rev)
  then show ?thesis by (simp add: py_strip_def u_def t_def)
qed

text \<open>\<open>s.startswith(p)\<close> and \<open>s.endswith(p)\<close>.\<close>

definition py_startswith :: "string \<Rightarrow> string \<Rightarrow> bool" where
  "py_startswith s p \<longleftrightarrow> take (length p) s = p"

definition py_endswith :: "string \<Rightarrow> string \<Rightarrow> bool" where
  "py_endswith s p \<longleftrightarrow> py_startswith (rev s) (rev p)"

text \<open>\<open>s[1:-1]\<close>.\<close>

definition py_inner :: "string \<Rightarrow> string" where
  "py_inner s = butlast (tl s)"

text \<open>\<open>s.split(sep)\<close> for a separator of one character.\<close>

fun py_split :: "char \<Rightarrow> string \<Rightarrow> string list" where
  "py_split sep [] = [[]]"
| "py_split sep (c # cs) =
     (if c = sep then [] # py_split sep cs
      else (case py_split sep cs of [] \<Rightarrow> [[c]] | w # ws \<Rightarrow> (c # w) # ws))"

lemma py_split_nonempty [simp]: "py_split sep s \<noteq> []"
  by (induction s) (auto split: list.splits)

text \<open>Decimal rendering of the numbers that the code formats into strings.\<close>

definition digit_char :: "nat \<Rightarrow> char" where
  "digit_char d = char_of (48 + d)"

fun show_nat :: "nat \<Rightarrow> string" where
  "show_nat n =
     (if n < 10 then [digit_char n] else show_nat (n div 10) @ [digit_char (n mod 10)])"

declare show_nat.simps [simp del]

definition show_int :: "int \<Rightarrow> string" where
  "show_int i = (if i < 0 then CHR ''-'' # show_nat (nat (- i)) else show_nat (nat i))"

definition is_digit :: "char \<Rightarrow> bool" where
  "is_digit c \<longleftrightarrow> 48 \<le> (of_char c :: nat) \<and> (of_char c :: nat) \<le> 57"

definition digit_val :: "char \<Rightarrow> nat" where
  "digit_val c = of_char c - 48"

fun read_nat :: "string \<Rightarrow> nat" where
  "read_nat s = foldl (\<lambda>a c. 10 * a + digit_val c) 0 s"

declare read_nat.simps [simp del]

lemma of_char_digit_char: "d < 10 \<Longrightarrow> (of_char (digit_char d) :: nat) = 48 + d"
  by (simp add: digit_char_def)

lemma is_digit_digit_char: "d < 10 \<Longrightarrow> is_digit (digit_char d)"
  by (simp add: is_digit_def of_char_digit_char)

lemma digit_val_digit_char: "d < 10 \<Longrightarrow> digit_val (digit_char d) = d"
  by (simp add: digit_val_def of_char_digit_char)

lemma show_nat_nonempty [simp]: "show_nat n \<noteq> []"
  by (subst show_nat.simps) simp

lemma show_nat_digits: "list_all is_digit (show_nat n)"
proof (induction n rule: show_nat.induct)
  case (1 n)
  then show ?case
    by (cases "n < 10") (simp_all add: show_nat.simps [of n] is_digit_digit_char)
qed

lemma read_nat_snoc: "read_nat (s @ [c]) = 10 * read_nat s + digit_val c"
  by (simp add: read_nat.simps)

lemma read_show_nat: "read_nat (show_nat n) = n"
proof (induction n rule: show_nat.induct)
  case (1 n)
  show ?case
  proof (cases "n < 10")
    case True
    then show ?thesis
      by (simp add: show_nat.simps [of n] read_nat.simps digit_val_digit_char)
  next
    case False
    with 1 show ?thesis
      by (simp add: show_nat.simps [of n] read_nat_snoc digit_val_digit_char)
  qed
qed

lemma show_nat_inj: "show_nat m = show_nat n \<longleftrightarrow> m = n"
  by (metis read_show_nat)

lemma show_int_digits: "0 \<le> i \<Longrightarrow> list_all is_digit (show_int i)"
  by (simp add: show_int_def show_nat_digits)

lemma show_int_inj: "0 \<le> i \<Longrightarrow> 0 \<le> j \<Longrightarrow> show_int i = show_int j \<longleftrightarrow> i = j"
  by (auto simp: show_int_def show_nat_inj)

section \<open>Arithmetic\<close>

text \<open>\<open>(n + c - 1) // c\<close>: Python's rounding-up division.\<close>

definition ceil_div :: "int \<Rightarrow> int \<Rightarrow> int" where
  "ceil_div n c = (n + c - 1) div c"

lemma ceil_div_pos: "0 < c \<Longrightarrow> 0 < n \<Longrightarrow> 0 < ceil_div n c"
  by (simp add: ceil_div_def pos_imp_zdiv_pos_iff)

lemma ceil_div_bounds:
  assumes "0 < c"
  shows "n \<le> ceil_div n c * c" and "ceil_div n c * c < n + c"
proof -
  have "(n + c - 1) div c * c = n + c - 1 - (n + c - 1) mod c"
    by (simp add: minus_mod_eq_div_mult)
  moreover have "0 \<le> (n + c - 1) mod c" "(n + c - 1) mod c < c"
    using assms by simp_all
  ultimately show "n \<le> ceil_div n c * c" and "ceil_div n c * c < n + c"
    unfolding ceil_div_def by linarith+
qed

section \<open>Sums over a dict\<close>

text \<open>The sum of a measure over the values of a dict.\<close>

definition dict_total :: "('v \<Rightarrow> int) \<Rightarrow> ('k \<times> 'v) list \<Rightarrow> int" where
  "dict_total f d = (\<Sum>k \<in> fst ` set d. f (the (map_of d k)))"

lemma dict_total_Nil [simp]: "dict_total f [] = 0"
  by (simp add: dict_total_def)

lemma dict_total_without:
  "(\<Sum>j \<in> fst ` set d - {k}. f (the (map_of d j))) = dict_total f d - (case map_of d k of None \<Rightarrow> 0 | Some u \<Rightarrow> f u)"
proof (cases "map_of d k")
  case None
  then have "k \<notin> fst ` set d" by (simp add: map_of_eq_None_iff)
  then show ?thesis using None by (simp add: dict_total_def)
next
  case (Some u)
  then have "k \<in> fst ` set d" by (force dest: map_of_SomeD)
  then show ?thesis using Some by (simp add: dict_total_def sum_diff1)
qed

lemma dict_total_update:
  "dict_total f (AList.update k v d) = dict_total f d + f v - (case map_of d k of None \<Rightarrow> 0 | Some u \<Rightarrow> f u)"
proof -
  have off: "(\<Sum>j \<in> fst ` set d - {k}. f (the (if j = k then Some v else map_of d j))) =
      (\<Sum>j \<in> fst ` set d - {k}. f (the (map_of d j)))"
    by (rule sum.cong) auto
  have "dict_total f (AList.update k v d) = f v + (\<Sum>j \<in> fst ` set d - {k}. f (the (map_of d j)))"
    unfolding dict_total_def dom_update update_conv' by (simp add: sum.insert_remove off fun_upd_def)
  also have "(\<Sum>j \<in> fst ` set d - {k}. f (the (map_of d j))) =
      dict_total f d - (case map_of d k of None \<Rightarrow> 0 | Some u \<Rightarrow> f u)"
    by (rule dict_total_without)
  finally show ?thesis by simp
qed

lemma dict_total_delete:
  "dict_total f (AList.delete k d) = dict_total f d - (case map_of d k of None \<Rightarrow> 0 | Some u \<Rightarrow> f u)"
proof -
  have "dict_total f (AList.delete k d) = (\<Sum>j \<in> fst ` set d - {k}. f (the (map_of d j)))"
    unfolding dict_total_def
  proof (rule sum.cong)
    have "map fst (AList.delete k d) = filter (\<lambda>j. j \<noteq> k) (map fst d)" by (induction d) auto
    then show "fst ` set (AList.delete k d) = fst ` set d - {k}" by (auto simp flip: set_map)
  qed (auto simp: delete_conv')
  also have "\<dots> = dict_total f d - (case map_of d k of None \<Rightarrow> 0 | Some u \<Rightarrow> f u)"
    by (rule dict_total_without)
  finally show ?thesis .
qed

end
