(* ===== verification/RemoteFillIdentity.thy ===== *)
theory RemoteFillIdentity
  imports Prelude
begin

text \<open>
  The identities of the remote-fill protocol (\<open>lmcache_ascend/v1/remote_fill.py\<close>): the
  cross-process name of a token hash, the decoder's advertised control host, and the descriptor
  verification capability.  Also the part of Python's \<open>ipaddress\<close> module that the host
  functions use.
\<close>

section \<open>Token hash identity\<close>

text \<open>The Python type object given as \<open>chunk_hash_type\<close>.\<close>

datatype hash_type = HashInt | HashBytes | HashOtherType

definition remote_fill_token_hash_identity ::
  "string \<Rightarrow> hash_type \<Rightarrow> int option \<Rightarrow> string res" where
  "remote_fill_token_hash_identity hash_algorithm chunk_hash_type chunk_hash_bytes =
     (let algorithm = py_strip hash_algorithm in
      if algorithm = [] then
        Inl (ValueError ''remote-fill token hash algorithm must not be empty'')
      else if chunk_hash_type = HashInt then
        (if chunk_hash_bytes \<noteq> None then
           Inl (ValueError ''integer chunk hashes must not declare a digest width'')
         else Inr (if algorithm = ''builtin'' then algorithm else algorithm @ '':int''))
      else if chunk_hash_type = HashBytes then
        (case chunk_hash_bytes of
           None \<Rightarrow> Inl (ValueError ''byte chunk hashes require a positive digest width'')
         | Some n \<Rightarrow>
             if n \<le> 0 then
               Inl (ValueError ''byte chunk hashes require a positive digest width'')
             else if algorithm = ''builtin'' then
               Inl (ValueError ''builtin token hashing must produce integers'')
             else Inr (algorithm @ '':bytes:'' @ show_int n))
      else Inl (TypeError ''chunk_hash_type must be int or bytes''))"

text \<open>The three shapes an identity can have.\<close>

lemma token_hash_identity_cases [consumes 1, case_names int bytes]:
  assumes "remote_fill_token_hash_identity a t w = Inr i"
  obtains (int) "t = HashInt" "w = None"
      "py_strip a = ''builtin'' \<and> i = ''builtin'' \<or> i = py_strip a @ '':int''"
  | (bytes) n where "0 < n" "t = HashBytes" "w = Some n"
      "i = (py_strip a @ '':bytes:'') @ show_int n"
  using assms
  by (auto simp: remote_fill_token_hash_identity_def Let_def split: if_splits option.splits)

text \<open>
  A suffix of digits after a character that is no digit is determined by the whole string, and
  so is what stands before it.
\<close>

lemma digits_suffix_unique:
  assumes "list_all is_digit xs" "list_all is_digit ys" "\<not> is_digit c" "\<not> is_digit d"
    and "(us @ [c]) @ xs = (vs @ [d]) @ ys"
  shows "us @ [c] = vs @ [d] \<and> xs = ys"
proof -
  have suffix: "takeWhile is_digit (rev (ws @ [e] @ zs)) = rev zs"
    if "list_all is_digit zs" "\<not> is_digit e" for ws e zs
    using that by (simp, subst takeWhile_append2) (auto simp: list_all_iff)
  have "takeWhile is_digit (rev (us @ [c] @ xs)) = takeWhile is_digit (rev (vs @ [d] @ ys))"
    using assms(5) by simp
  then have "rev xs = rev ys"
    by (simp only: suffix [OF assms(1,3)] suffix [OF assms(2,4)])
  with assms(5) show ?thesis by simp
qed

lemma int_suffix_not_digits:
  assumes "list_all is_digit xs" "xs \<noteq> []"
  shows "us @ '':int'' \<noteq> vs @ xs"
proof
  assume eq: "us @ '':int'' = vs @ xs"
  have "last (us @ '':int'') = CHR ''t''" by simp
  moreover have "is_digit (last (vs @ xs))"
    using assms by (simp add: list_all_iff)
  ultimately have "is_digit (CHR ''t'')" using eq by simp
  then show False by (simp add: is_digit_def)
qed

lemma builtin_not_digits: "list_all is_digit xs \<Longrightarrow> xs \<noteq> [] \<Longrightarrow> ''builtin'' \<noteq> vs @ xs"
proof
  assume a: "list_all is_digit xs" "xs \<noteq> []" "''builtin'' = vs @ xs"
  then have "is_digit (last ''builtin'')"
    by (simp add: list_all_iff)
  then show False by (simp add: is_digit_def)
qed

lemma builtin_not_int: "''builtin'' \<noteq> us @ '':int''"
proof
  assume "''builtin'' = us @ '':int''"
  then have "rev ''builtin'' = rev (us @ '':int'')" by simp
  then show False by simp
qed

lemma bytes_identity_inj:
  assumes "0 < m" "0 < n" and "(a @ '':bytes:'') @ show_int m = (b @ '':bytes:'') @ show_int n"
  shows "a = b \<and> m = n"
proof -
  have sep: "\<not> is_digit (CHR '':'')" by (simp add: is_digit_def)
  have "((a @ '':bytes'') @ [CHR '':'']) @ show_int m = ((b @ '':bytes'') @ [CHR '':'']) @ show_int n"
    using assms(3) by simp
  then have "(a @ '':bytes'') @ [CHR '':''] = (b @ '':bytes'') @ [CHR '':''] \<and> show_int m = show_int n"
    using assms(1,2) sep by (intro digits_suffix_unique) (simp_all add: show_int_digits)
  then show ?thesis
    using assms(1,2) by (simp add: show_int_inj)
qed

section \<open>IP addresses\<close>

text \<open>
  \<open>ipaddress.ip_address\<close> on a string: the text forms that Python's \<open>IPv4Address\<close> and
  \<open>IPv6Address\<close> accept, with the value read.  \<open>None\<close> is the \<open>ValueError\<close> of an address that
  is neither.
\<close>

datatype ip_addr = IPv4 int | IPv6 int

definition parse_octet :: "string \<Rightarrow> int option" where
  "parse_octet s =
     (if s = [] \<or> \<not> list_all is_digit s \<or> length s > 3 then None
      else if s \<noteq> ''0'' \<and> hd s = CHR ''0'' then None
      else if read_nat s > 255 then None
      else Some (int (read_nat s)))"

definition parse_ipv4 :: "string \<Rightarrow> int option" where
  "parse_ipv4 s =
     (if CHR ''/'' \<in> set s then None
      else case map parse_octet (py_split (CHR ''.'') s) of
        [Some a, Some b, Some c, Some d] \<Rightarrow> Some (((a * 256 + b) * 256 + c) * 256 + d)
      | _ \<Rightarrow> None)"

definition hex_val :: "char \<Rightarrow> nat option" where
  "hex_val c =
     (let n = (of_char c :: nat) in
      if 48 \<le> n \<and> n \<le> 57 then Some (n - 48)
      else if 97 \<le> n \<and> n \<le> 102 then Some (n - 87)
      else if 65 \<le> n \<and> n \<le> 70 then Some (n - 55)
      else None)"

definition parse_hextet :: "string \<Rightarrow> int option" where
  "parse_hextet s =
     (if s = [] \<or> length s > 4 then None
      else foldl (\<lambda>acc c. case (acc, hex_val c) of
                    (Some a, Some d) \<Rightarrow> Some (16 * a + int d) | _ \<Rightarrow> None) (Some 0) s)"

fun parse_hextets :: "string list \<Rightarrow> int \<Rightarrow> int option" where
  "parse_hextets [] acc = Some acc"
| "parse_hextets (p # ps) acc =
     (case parse_hextet p of None \<Rightarrow> None | Some h \<Rightarrow> parse_hextets ps (65536 * acc + h))"

text \<open>
  The eight 16-bit parts of an IPv6 address after an IPv4 tail has been replaced by two parts
  (\<open>v4\<close> holds its value): \<open>interior\<close> lists the positions of empty parts other than the first
  and the last, of which \<open>::\<close> gives exactly one.
\<close>

definition parse_ipv6_parts :: "string list \<Rightarrow> int option \<Rightarrow> int option" where
  "parse_ipv6_parts ps v4 =
     (let n = length ps + (if v4 = None then 0 else 2);
          first_empty = (case ps of [] \<Rightarrow> False | p # _ \<Rightarrow> p = []);
          last_empty = (v4 = None \<and> ps \<noteq> [] \<and> last ps = []);
          interior = filter (\<lambda>i. i < length ps \<and> ps ! i = []) [1..<n - 1];
          tail_val = (\<lambda>hi lo. case parse_hextets lo hi of None \<Rightarrow> None
                       | Some x \<Rightarrow> Some (case v4 of None \<Rightarrow> x | Some a \<Rightarrow> x * 4294967296 + a))
      in if n < 3 \<or> n > 9 then None
         else case interior of
           [] \<Rightarrow> if n \<noteq> 8 \<or> first_empty \<or> last_empty then None else tail_val 0 ps
         | [k] \<Rightarrow>
             (let hi = (if first_empty then k - 1 else k);
                  lo = (if last_empty then n - k - 2 else n - k - 1)
              in if first_empty \<and> hi \<noteq> 0 then None
                 else if last_empty \<and> lo \<noteq> 0 then None
                 else if 8 < hi + lo + 1 then None
                 else case parse_hextets (take hi ps) 0 of None \<Rightarrow> None
                   | Some x \<Rightarrow>
                       tail_val (x * 65536 ^ (8 - (hi + lo)))
                         (if lo = 0 then [] else drop (k + 1) ps))
         | _ \<Rightarrow> None)"

definition parse_ipv6 :: "string \<Rightarrow> int option" where
  "parse_ipv6 s =
     (if CHR ''/'' \<in> set s then None
      else let addr = takeWhile (\<lambda>c. c \<noteq> CHR ''%'') s;
               rest = drop (length addr) s
           in if rest \<noteq> [] \<and> (tl rest = [] \<or> CHR ''%'' \<in> set (tl rest)) then None
              else if addr = [] then None
              else let parts = py_split (CHR '':'') addr in
                   if length parts < 3 then None
                   else if CHR ''.'' \<in> set (last parts) then
                     (case parse_ipv4 (last parts) of None \<Rightarrow> None
                      | Some a \<Rightarrow> parse_ipv6_parts (butlast parts) (Some a))
                   else parse_ipv6_parts parts None)"

definition ip_address :: "string \<Rightarrow> ip_addr option" where
  "ip_address s =
     (case parse_ipv4 s of
        Some a \<Rightarrow> Some (IPv4 a)
      | None \<Rightarrow> (case parse_ipv6 s of Some a \<Rightarrow> Some (IPv6 a) | None \<Rightarrow> None))"

fun ip_is_unspecified :: "ip_addr \<Rightarrow> bool" where
  "ip_is_unspecified (IPv4 a) \<longleftrightarrow> a = 0"
| "ip_is_unspecified (IPv6 a) \<longleftrightarrow> a = 0"

fun ip_is_loopback :: "ip_addr \<Rightarrow> bool" where
  "ip_is_loopback (IPv4 a) \<longleftrightarrow> a div 16777216 = 127"
| "ip_is_loopback (IPv6 a) \<longleftrightarrow> a = 1"

section \<open>The decoder's control endpoint\<close>

text \<open>\<open>host[1:-1] if host.startswith("[") and host.endswith("]") else host\<close>\<close>

definition unbracket :: "string \<Rightarrow> string" where
  "unbracket host =
     (if py_startswith host ''['' \<and> py_endswith host '']'' then py_inner host else host)"

definition format_tcp_host :: "string \<Rightarrow> string" where
  "format_tcp_host host0 =
     (let host = py_strip host0; normalized = unbracket host in
      case ip_address normalized of
        None \<Rightarrow> host
      | Some (IPv6 _) \<Rightarrow> ''['' @ normalized @ '']''
      | Some (IPv4 _) \<Rightarrow> normalized)"

definition validate_advertised_control_host :: "string \<Rightarrow> string res" where
  "validate_advertised_control_host host0 =
     (let host = unbracket (py_strip host0) in
      if host = [] \<or> host \<in> {''*'', ''0.0.0.0'', ''::'', ''localhost''} then
        Inl (ValueError ''remote-fill advertised control host must be a routable address'')
      else case ip_address host of
        None \<Rightarrow> Inr host
      | Some address \<Rightarrow>
          if ip_is_unspecified address \<or> ip_is_loopback address then
            Inl (ValueError ''remote-fill advertised control host must not be wildcard or loopback'')
          else Inr host)"

text \<open>A validated host is not a local-only address.\<close>

lemma validated_host_routable:
  assumes "validate_advertised_control_host h = Inr r"
  shows "r \<noteq> [] \<and> r \<noteq> ''localhost'' \<and>
         (\<forall>a. ip_address r = Some a \<longrightarrow> \<not> ip_is_unspecified a \<and> \<not> ip_is_loopback a)"
  using assms
  by (auto simp: validate_advertised_control_host_def Let_def split: if_splits option.splits)

section \<open>Descriptor verification capability\<close>

text \<open>
  A byte string is a list of values below 256.  \<open>generated\<close> is the fresh value of
  \<open>secrets.token_bytes(32)\<close>, used when no capability is injected.  The value's type is the
  \<open>bytes | None\<close> of the signature.
\<close>

definition descriptor_verification_capability :: "nat list \<Rightarrow> nat list option \<Rightarrow> nat list res" where
  "descriptor_verification_capability generated value =
     (let capability = (case value of None \<Rightarrow> generated | Some v \<Rightarrow> v) in
      if length capability \<noteq> 32 then
        Inl (ValueError ''remote-fill verification capability must contain 32 bytes'')
      else Inr capability)"

text \<open>\<open>bytes.hex()\<close> and \<open>bytes.fromhex\<close> (which skips white space between two bytes).\<close>

definition hex_digit :: "nat \<Rightarrow> char" where
  "hex_digit d = (if d < 10 then char_of (48 + d) else char_of (87 + d))"

definition hex_of_byte :: "nat \<Rightarrow> string" where
  "hex_of_byte b = [hex_digit (b div 16), hex_digit (b mod 16)]"

definition bytes_hex :: "nat list \<Rightarrow> string" where
  "bytes_hex bs = concat (map hex_of_byte bs)"

fun bytes_fromhex :: "string \<Rightarrow> nat list option" where
  "bytes_fromhex [] = Some []"
| "bytes_fromhex (c # cs) =
     (if of_char c \<in> {9, 10, 11, 12, 13, 32 :: nat} then bytes_fromhex cs
      else case cs of
        [] \<Rightarrow> None
      | d # ds \<Rightarrow>
          (case (hex_val c, hex_val d) of
             (Some a, Some b) \<Rightarrow> map_option ((#) (16 * a + b)) (bytes_fromhex ds)
           | _ \<Rightarrow> None))"

lemma hex_val_digit: "d < 16 \<Longrightarrow> hex_val (hex_digit d) = Some d"
  by (auto simp: hex_val_def hex_digit_def Let_def)

lemma hex_digit_not_space:
  "d < 16 \<Longrightarrow> (of_char (hex_digit d) :: nat) \<notin> {9, 10, 11, 12, 13, 32}"
  by (auto simp: hex_digit_def)

lemma fromhex_hex: "\<forall>b \<in> set bs. b < 256 \<Longrightarrow> bytes_fromhex (bytes_hex bs) = Some bs"
proof (induction bs)
  case Nil
  then show ?case by (simp add: bytes_hex_def)
next
  case (Cons b bs)
  then have lt: "b div 16 < 16" "b mod 16 < 16" and
    IH: "bytes_fromhex (bytes_hex bs) = Some bs"
    by auto
  have "bytes_hex (b # bs) = hex_digit (b div 16) # hex_digit (b mod 16) # bytes_hex bs"
    by (simp add: bytes_hex_def hex_of_byte_def)
  moreover have "(of_char (hex_digit (b div 16)) :: nat) \<notin> {9, 10, 11, 12, 13, 32}"
    using lt(1) by (rule hex_digit_not_space)
  ultimately show ?case
    using lt IH by (simp add: hex_val_digit)
qed

text \<open>An identity determines the hash contract it was computed from.\<close>

lemma hash_identity_unique:
  assumes "remote_fill_token_hash_identity a t w = Inr i"
    and "remote_fill_token_hash_identity a' t' w' = Inr i"
  shows "py_strip a = py_strip a' \<and> t = t' \<and> w = w'"
proof -
  have digits: "list_all is_digit (show_int n)" "show_int n \<noteq> []" if "0 < n" for n
    using that by (simp_all add: show_int_digits) (simp add: show_int_def)
  have mixed: False
    if "0 < n" "i = us @ show_int n" "x = ''builtin'' \<and> i = ''builtin'' \<or> i = x @ '':int''" for us x n
    using that(3) builtin_not_digits [OF digits [OF that(1)], of us]
      int_suffix_not_digits [OF digits [OF that(1)], of x us] that(2) by auto
  from assms(1) show ?thesis
  proof (cases rule: token_hash_identity_cases)
    case c: int
    from assms(2) show ?thesis
    proof (cases rule: token_hash_identity_cases)
      case int
      with c show ?thesis
        using builtin_not_int [of "py_strip a"] builtin_not_int [of "py_strip a'"] by auto
    next
      case bytes
      with mixed [OF bytes(1,4) c(3)] show ?thesis by simp
    qed
  next
    case c: (bytes n)
    from assms(2) show ?thesis
    proof (cases rule: token_hash_identity_cases)
      case int
      with mixed [OF c(1,4) int(3)] show ?thesis by simp
    next
      case (bytes n')
      have "py_strip a = py_strip a' \<and> n = n'"
        by (rule bytes_identity_inj [OF c(1) bytes(1)]) (simp only: c(4) [symmetric] bytes(4))
      with c(2,3) bytes(2,3) show ?thesis by (simp only:)
    qed
  qed
qed

lemma hash_identity_builtin:
  assumes "remote_fill_token_hash_identity a t w = Inr ''builtin''"
  shows "py_strip a = ''builtin''"
  using assms
proof (cases rule: token_hash_identity_cases)
  case int
  then show ?thesis using builtin_not_int [of "py_strip a"] by auto
next
  case (bytes n)
  then show ?thesis
    using builtin_not_digits [of "show_int n" "py_strip a @ '':bytes:''"]
    by (simp add: show_int_digits) (simp add: show_int_def)
qed

section \<open>Properties\<close>

text \<open>
  The token-hash identity separates every two hash contracts: two configurations that are
  given the same identity have the same algorithm name (up to surrounding white space), the same
  output type and the same digest width.  Mixed hash semantics can therefore not negotiate.
\<close>

theorem token_hash_identity_injective:
  assumes "remote_fill_token_hash_identity a t w = Inr i"
    and "remote_fill_token_hash_identity a' t' w' = Inr i"
  shows "py_strip a = py_strip a' \<and> t = t' \<and> w = w'"
  by (rule hash_identity_unique [OF assms])

theorem token_hash_identity_injective_witness:
  "remote_fill_token_hash_identity '' sha256 '' HashBytes (Some 32) = Inr ''sha256:bytes:32'' \<and>
   py_strip '' sha256 '' = py_strip ''sha256''"
proof -
  have "remote_fill_token_hash_identity '' sha256 '' HashBytes (Some 32) = Inr ''sha256:bytes:32''"
    and "remote_fill_token_hash_identity ''sha256'' HashBytes (Some 32) = Inr ''sha256:bytes:32''"
    by code_simp+
  then show ?thesis
    using token_hash_identity_injective by blast
qed

text \<open>
  A host that validation accepts, and that carries no further white space or brackets, is
  advertised as an endpoint that is neither the unspecified nor a loopback address.
\<close>

theorem advertised_host_not_local:
  assumes "validate_advertised_control_host h = Inr r"
    and "py_strip r = r" and "unbracket r = r"
  shows "\<exists>n. (format_tcp_host r = n \<or> format_tcp_host r = ''['' @ n @ '']'') \<and>
             (\<forall>a. ip_address n = Some a \<longrightarrow> \<not> ip_is_unspecified a \<and> \<not> ip_is_loopback a)"
proof -
  have "format_tcp_host r = r \<or> format_tcp_host r = ''['' @ r @ '']''"
    using assms(2,3) by (auto simp: format_tcp_host_def split: option.splits ip_addr.splits)
  with validated_host_routable [OF assms(1)] show ?thesis by blast
qed

theorem advertised_host_not_local_witness:
  "validate_advertised_control_host '' [2001:db8::7] '' = Inr ''2001:db8::7'' \<and>
   (\<exists>n. (format_tcp_host ''2001:db8::7'' = n \<or> format_tcp_host ''2001:db8::7'' = ''['' @ n @ '']'') \<and>
        (\<forall>a. ip_address n = Some a \<longrightarrow> \<not> ip_is_unspecified a \<and> \<not> ip_is_loopback a))"
proof -
  have v: "validate_advertised_control_host '' [2001:db8::7] '' = Inr ''2001:db8::7''"
    and s: "py_strip ''2001:db8::7'' = ''2001:db8::7''"
    and u: "unbracket ''2001:db8::7'' = ''2001:db8::7''"
    by code_simp+
  show ?thesis using v advertised_host_not_local [OF v s u] by blast
qed


end
