(* ===== verification/RemoteFillLayout.thy ===== *)
theory RemoteFillLayout
  imports RemoteFillIdentity
begin

text \<open>
  Decoder layout and negotiation identity (\<open>lmcache_ascend/v1/remote_fill.py\<close>): the group and
  decoder layouts, the startup builders with their checks, the placement record and the protocol
  limits.  The configuration and metadata records have the attributes that this code reads; the
  LMCache functions it calls (\<open>resolve_mooncake_dsa_raw_token_dims\<close>,
  \<open>resolve_remote_fill_identity\<close>, \<open>validate_two_group_layer_counts\<close>,
  \<open>mooncake_layer_pages_enabled\<close>) are the fields of \<open>layout_api\<close>, a parameter.
\<close>

section \<open>Attributes of external objects\<close>

text \<open>A \<open>torch.dtype\<close>: its name and its \<open>itemsize\<close>.  A memory format is its enum name.\<close>

record dtype =
  dt_name :: string
  dt_itemsize :: int

type_synonym memory_format = string

text \<open>\<open>dtype in (torch.float16, torch.bfloat16)\<close>\<close>

definition is_half :: "dtype \<Rightarrow> bool" where
  "is_half d \<longleftrightarrow> dt_name d \<in> {''float16'', ''bfloat16''}"

text \<open>
  \<open>metadata.indexer_c8_layout\<close>: absent, an \<open>IndexerC8Layout\<close>, or an object of another class.
  \<open>c8_token_bytes\<close> is \<open>token_bytes_for\<close>.
\<close>

record indexer_c8_layout =
  c8_layers :: "bool list"
  c8_mixed :: bool
  c8_token_bytes :: "int \<Rightarrow> int"

datatype c8_attr = NoC8 | C8 indexer_c8_layout | NotAC8Layout

record metadata =
  md_mla_cache_tp_replicated :: bool
  md_use_mla :: bool
  md_dtypes :: "dtype list"
  md_kv_dtype :: dtype
  md_c8 :: c8_attr
  md_group_layer_counts :: "pyval list option"
  md_model_name :: string
  md_world_size :: int
  md_worker_id :: int
  md_first_rank :: bool
  md_engine_id :: "string option"

record config =
  cf_dsa_two_groups :: bool
  cf_enable_sparse_attention :: bool
  cf_dsa_group1_load_mode :: string
  cf_save_only_first_rank :: "bool option"
  cf_chunk_size :: int
  cf_pre_caching_hash_algorithm :: string
  cf_enable_remote_lmcache_store :: bool
  cf_local_cpu :: bool
  cf_use_layerwise :: bool
  cf_enable_shared_cpu_cache :: bool
  cf_max_rpc_message_bytes :: int
  cf_max_control_pages_per_window :: int
  cf_max_inflight_bytes :: int
  cf_max_active_transactions :: int
  cf_max_inflight_windows_per_request :: int
  cf_max_reserved_bytes :: int
  cf_max_bytes_per_request :: int

record layout_api =
  la_resolve_dims :: "config \<Rightarrow> metadata \<Rightarrow> ((int \<times> int) list \<times> string) res"
  la_resolve_identity :: "config \<Rightarrow> metadata \<Rightarrow> (string \<times> string) res"
  la_validate_counts :: "pyval list \<Rightarrow> (int \<times> int) res"
  la_layer_pages_enabled :: "config \<Rightarrow> bool"

text \<open>\<open>config.get_extra_config_value("save_only_first_rank", metadata.use_mla)\<close>\<close>

definition save_only_first_rank_value :: "config \<Rightarrow> metadata \<Rightarrow> bool" where
  "save_only_first_rank_value c m =
     (case cf_save_only_first_rank c of None \<Rightarrow> md_use_mla m | Some b \<Rightarrow> b)"

section \<open>Topology qualification\<close>

fun positive_int :: "pyval \<Rightarrow> bool" where
  "positive_int (PInt n) \<longleftrightarrow> n > 0"
| "positive_int _ \<longleftrightarrow> False"

text \<open>\<open>not c8.c8_layers or len(c8.c8_layers) == counts[1]\<close>, with \<open>counts\<close> of length 2.\<close>

definition c8_layers_match :: "indexer_c8_layout \<Rightarrow> pyval list \<Rightarrow> bool" where
  "c8_layers_match c8 counts \<longleftrightarrow>
     c8_layers c8 = [] \<or> counts ! 1 = PInt (int (length (c8_layers c8)))"

definition remote_fill_tp_independent :: "layout_api \<Rightarrow> config \<Rightarrow> metadata \<Rightarrow> bool" where
  "remote_fill_tp_independent api config metadata =
     (if \<not> (md_mla_cache_tp_replicated metadata
            \<and> md_use_mla metadata
            \<and> cf_dsa_two_groups config
            \<and> cf_enable_sparse_attention config
            \<and> cf_dsa_group1_load_mode config = ''persistent_direct_hbm''
            \<and> la_layer_pages_enabled api config) then False
      else let dtypes = md_dtypes metadata in
        case md_c8 metadata of
          NoC8 \<Rightarrow> length dtypes \<in> {1, 2} \<and> (\<forall>d \<in> set dtypes. is_half d)
        | NotAC8Layout \<Rightarrow> False
        | C8 c8 \<Rightarrow>
            length dtypes = 2
            \<and> is_half (dtypes ! 0)
            \<and> dt_name (dtypes ! 1) = ''uint8''
            \<and> (case md_group_layer_counts metadata of
                 None \<Rightarrow> False
               | Some counts \<Rightarrow>
                   length counts = 2
                   \<and> (\<forall>count \<in> set counts. positive_int count)
                   \<and> c8_layers_match c8 counts))"

section \<open>Protocol limits\<close>

record protocol_limits =
  pl_max_rpc_message_bytes :: int
  pl_max_control_pages_per_window :: int
  pl_max_window_bytes :: int
  pl_max_active_transactions :: int
  pl_max_inflight_windows_per_transaction :: int
  pl_max_reserved_bytes :: int
  pl_max_bytes_per_transaction :: int

definition build_remote_fill_protocol_limits :: "config \<Rightarrow> protocol_limits" where
  "build_remote_fill_protocol_limits config = \<lparr>
     pl_max_rpc_message_bytes = cf_max_rpc_message_bytes config,
     pl_max_control_pages_per_window = cf_max_control_pages_per_window config,
     pl_max_window_bytes = cf_max_inflight_bytes config,
     pl_max_active_transactions = cf_max_active_transactions config,
     pl_max_inflight_windows_per_transaction = cf_max_inflight_windows_per_request config,
     pl_max_reserved_bytes = cf_max_reserved_bytes config,
     pl_max_bytes_per_transaction = cf_max_bytes_per_request config\<rparr>"

section \<open>Layouts\<close>

record group_layout =
  gl_kv_group :: int
  gl_raw_token_dim :: int
  gl_dtype :: dtype
  gl_fmt :: memory_format
  gl_layer_token_dims :: "int list"

text \<open>A \<open>torch.Size\<close> is the list of its extents.\<close>

definition full_shape :: "group_layout \<Rightarrow> int \<Rightarrow> int list" where
  "full_shape g chunk_size = [chunk_size * gl_raw_token_dim g]"

definition page_shapes :: "group_layout \<Rightarrow> int \<Rightarrow> int list list" where
  "page_shapes g chunk_size =
     (if gl_layer_token_dims g \<noteq> [] then
        map (\<lambda>width. [chunk_size * width]) (gl_layer_token_dims g)
      else [full_shape g chunk_size])"

definition expected_bytes :: "group_layout \<Rightarrow> int \<Rightarrow> int \<Rightarrow> int res" where
  "expected_bytes g valid_tokens num_layers =
     (if gl_layer_token_dims g \<noteq> [] then
        (if int (length (gl_layer_token_dims g)) \<noteq> num_layers then
           Inl (ValueError ''RemoteFill precision policy disagrees with layer count'')
         else Inr (valid_tokens * sum_list (gl_layer_token_dims g) * dt_itemsize (gl_dtype g)))
      else Inr (valid_tokens * gl_raw_token_dim g * dt_itemsize (gl_dtype g) * num_layers))"

record decoder_layout =
  dl_layout_tag :: string
  dl_cache_namespace_tag :: string
  dl_model_artifact_id :: string
  dl_model_name :: string
  dl_key_world_size :: int
  dl_chunk_size :: int
  dl_num_layers :: int
  dl_groups :: "group_layout \<times> group_layout"
  dl_group_layer_counts :: "(int \<times> int) option"

definition num_layers_for_group :: "decoder_layout \<Rightarrow> int \<Rightarrow> int res" where
  "num_layers_for_group l kv_group =
     (if kv_group \<notin> {0, 1} then Inl (ValueError ''Invalid KV group'')
      else case dl_group_layer_counts l of
        None \<Rightarrow> Inr (dl_num_layers l)
      | Some (c0, c1) \<Rightarrow> Inr (if kv_group = 0 then c0 else c1))"

definition layout_group :: "decoder_layout \<Rightarrow> int \<Rightarrow> group_layout res" where
  "layout_group l kv_group =
     (if kv_group \<notin> {0, 1} then Inl (ValueError ''remote fill requires KV group 0 or 1'')
      else Inr (if kv_group = 0 then fst (dl_groups l) else snd (dl_groups l)))"

definition group_dimensions :: "decoder_layout \<Rightarrow> int \<times> int" where
  "group_dimensions l =
     (gl_raw_token_dim (fst (dl_groups l)), gl_raw_token_dim (snd (dl_groups l)))"

text \<open>The bytes of one page of a group, as the page validation computes them.\<close>

definition page_bytes :: "decoder_layout \<Rightarrow> int \<Rightarrow> int \<Rightarrow> int res" where
  "page_bytes l kv_group valid_tokens =
     bindR (layout_group l kv_group) (\<lambda>g.
       bindR (num_layers_for_group l kv_group) (\<lambda>n. expected_bytes g valid_tokens n))"

section \<open>Startup builders\<close>

definition dict_get_int :: "(int \<times> int) list \<Rightarrow> int \<Rightarrow> int \<Rightarrow> int" where
  "dict_get_int d k dflt = (case map_of d k of None \<Rightarrow> dflt | Some v \<Rightarrow> v)"

definition parse_raw_token_dimensions ::
  "layout_api \<Rightarrow> config \<Rightarrow> metadata \<Rightarrow> (int \<times> int) res" where
  "parse_raw_token_dimensions api config metadata =
     bindR (la_resolve_dims api config metadata) (\<lambda>(resolved, source).
       let dimensions = (dict_get_int resolved 0 0, dict_get_int resolved 1 0) in
       if fst dimensions \<le> 0 \<or> snd dimensions \<le> 0 then
         Inl (ValueError (''remote-fill raw token dimensions could not be resolved: '' @ source))
       else Inr dimensions)"

text \<open>
  \<open>counts = getattr(metadata, "runtime_kv_group_layer_counts", None)\<close>, validated when present.
\<close>

definition runtime_counts ::
  "layout_api \<Rightarrow> metadata \<Rightarrow> int \<Rightarrow> (int \<times> int) option res" where
  "runtime_counts api metadata num_layers =
     (case md_group_layer_counts metadata of
        None \<Rightarrow> Inr None
      | Some raw \<Rightarrow>
          bindR (la_validate_counts api raw) (\<lambda>counts.
            if fst counts \<noteq> num_layers then
              Inl (ValueError ''RemoteFill latent layers disagree with runtime topology'')
            else Inr (Some counts)))"

text \<open>
  \<open>layer_token_dims\<close> of group 1.  With a mixed C8 layout the source subscripts \<open>counts[1]\<close>,
  a \<open>TypeError\<close> when there are no counts; an attribute that is no C8 layout has no \<open>mixed\<close>.
\<close>

definition indexer_token_dims :: "metadata \<Rightarrow> (int \<times> int) option \<Rightarrow> int list res" where
  "indexer_token_dims metadata counts =
     (case md_c8 metadata of
        NoC8 \<Rightarrow> Inr []
      | NotAC8Layout \<Rightarrow> Inl AttributeError
      | C8 c8 \<Rightarrow>
          if \<not> c8_mixed c8 then Inr []
          else case counts of
            None \<Rightarrow> Inl (TypeError ''NoneType object is not subscriptable'')
          | Some (_, n1) \<Rightarrow> Inr (map (c8_token_bytes c8) [0..n1 - 1]))"

definition build_decoder_layout ::
  "layout_api \<Rightarrow> config \<Rightarrow> metadata \<Rightarrow> string \<Rightarrow> int \<Rightarrow> decoder_layout res" where
  "build_decoder_layout api config metadata layout_tag num_layers =
     bindR (parse_raw_token_dimensions api config metadata) (\<lambda>dimensions.
     bindR (la_resolve_identity api config metadata) (\<lambda>(namespace, artifact_id).
     bindR (check (layout_tag = [] \<or> artifact_id = [] \<or> namespace = [])
       (ValueError ''remote-fill layout identity must not be empty'')) (\<lambda>_.
     bindR (check (num_layers \<le> 0)
       (ValueError ''remote-fill layer count must be positive'')) (\<lambda>_.
     bindR (runtime_counts api metadata num_layers) (\<lambda>counts.
     let dtypes = md_dtypes metadata;
         group0_dtype = (case dtypes of [] \<Rightarrow> md_kv_dtype metadata | d # _ \<Rightarrow> d);
         group1_dtype = (if length dtypes > 1 then dtypes ! 1 else group0_dtype)
     in bindR (indexer_token_dims metadata counts) (\<lambda>token_dims.
       Inr \<lparr>
         dl_layout_tag = layout_tag,
         dl_cache_namespace_tag = namespace,
         dl_model_artifact_id = artifact_id,
         dl_model_name = md_model_name metadata,
         dl_key_world_size =
           (if save_only_first_rank_value config metadata \<and> md_use_mla metadata then 1
            else md_world_size metadata),
         dl_chunk_size = cf_chunk_size config,
         dl_num_layers = num_layers,
         dl_groups =
           (\<lparr>gl_kv_group = 0, gl_raw_token_dim = fst dimensions, gl_dtype = group0_dtype,
              gl_fmt = ''KV_MLA_LATENT_FMT'', gl_layer_token_dims = []\<rparr>,
            \<lparr>gl_kv_group = 1, gl_raw_token_dim = snd dimensions, gl_dtype = group1_dtype,
              gl_fmt = ''KV_DSA_INDEX_FMT'', gl_layer_token_dims = token_dims\<rparr>),
         dl_group_layer_counts = counts\<rparr>))))))"

section \<open>Negotiation identity\<close>

record negotiation_spec =
  ns_cache_namespace_tag :: string
  ns_layout_tag :: string
  ns_model_artifact_id :: string
  ns_chunk_size :: int
  ns_model_layout :: string
  ns_group_dimensions :: "int \<times> int"
  ns_layer_count :: int
  ns_save_only_first_rank :: bool
  ns_shared_group1 :: bool
  ns_tp_size :: int
  ns_dp_size :: int
  ns_global_te_push :: bool
  ns_destination_engine_id :: string
  ns_destination_dp_rank :: int
  ns_destination_remote_session :: string
  ns_token_hash_algorithm :: string
  ns_python_hash_seed :: string

definition REMOTE_FILL_MODEL_LAYOUT :: string where
  "REMOTE_FILL_MODEL_LAYOUT = ''mla-dsa-layer-page-v3''"

text \<open>\<open>env_hash_seed\<close> is \<open>os.getenv("PYTHONHASHSEED", "")\<close>.\<close>

definition build_remote_fill_negotiation_spec ::
  "string \<Rightarrow> config \<Rightarrow> metadata \<Rightarrow> decoder_layout \<Rightarrow> string \<Rightarrow> int \<Rightarrow> int \<Rightarrow> bool \<Rightarrow> string \<Rightarrow>
   hash_type \<Rightarrow> int option \<Rightarrow> bool \<Rightarrow> negotiation_spec res" where
  "build_remote_fill_negotiation_spec env_hash_seed config metadata layout destination_engine_id
       destination_dp_rank dp_size global_te_push destination_remote_session chunk_hash_type
       chunk_hash_bytes shared_group1 =
     (let engine_id = py_strip destination_engine_id;
          remote_session = py_strip destination_remote_session
      in
      if engine_id = [] \<or> remote_session = [] then
        Inl (ValueError ''remote-fill decoder engine and native session are required'')
      else if dp_size \<le> 0 \<or> \<not> (0 \<le> destination_dp_rank \<and> destination_dp_rank < dp_size) then
        Inl (ValueError ''remote-fill destination DP rank is out of range'')
      else let hash_algorithm = py_strip (cf_pre_caching_hash_algorithm config) in
        bindR (remote_fill_token_hash_identity hash_algorithm chunk_hash_type chunk_hash_bytes)
          (\<lambda>hash_identity.
            let python_hash_seed = (if hash_algorithm = ''builtin'' then env_hash_seed else [])
            in if hash_algorithm = ''builtin'' \<and> python_hash_seed = [] then
                 Inl (ValueError ''builtin token hashing requires an explicit PYTHONHASHSEED'')
               else Inr \<lparr>
                 ns_cache_namespace_tag = dl_cache_namespace_tag layout,
                 ns_layout_tag = dl_layout_tag layout,
                 ns_model_artifact_id = dl_model_artifact_id layout,
                 ns_chunk_size = dl_chunk_size layout,
                 ns_model_layout = REMOTE_FILL_MODEL_LAYOUT,
                 ns_group_dimensions = group_dimensions layout,
                 ns_layer_count = dl_num_layers layout,
                 ns_save_only_first_rank = True,
                 ns_shared_group1 = shared_group1,
                 ns_tp_size = md_world_size metadata,
                 ns_dp_size = dp_size,
                 ns_global_te_push = global_te_push,
                 ns_destination_engine_id = engine_id,
                 ns_destination_dp_rank = destination_dp_rank,
                 ns_destination_remote_session = remote_session,
                 ns_token_hash_algorithm = hash_identity,
                 ns_python_hash_seed = python_hash_seed\<rparr>))"

section \<open>Well-formed layouts\<close>

definition layout_wf :: "decoder_layout \<Rightarrow> bool" where
  "layout_wf l \<longleftrightarrow>
     dl_layout_tag l \<noteq> [] \<and> dl_cache_namespace_tag l \<noteq> [] \<and> dl_model_artifact_id l \<noteq> []
   \<and> 0 < dl_num_layers l
   \<and> 0 < gl_raw_token_dim (fst (dl_groups l)) \<and> 0 < gl_raw_token_dim (snd (dl_groups l))
   \<and> gl_kv_group (fst (dl_groups l)) = 0 \<and> gl_kv_group (snd (dl_groups l)) = 1
   \<and> num_layers_for_group l 0 = Inr (dl_num_layers l)"

lemma layout_group_cases:
  "layout_group l g = Inr gl \<longleftrightarrow>
   (g = 0 \<and> gl = fst (dl_groups l)) \<or> (g = 1 \<and> gl = snd (dl_groups l))"
  by (auto simp: layout_group_def)

lemma page_bytes_group:
  "page_bytes l g v = Inr b \<Longrightarrow> g = 0 \<or> g = 1"
  by (auto simp: page_bytes_def layout_group_def split: if_splits)

lemma runtime_counts_latent:
  "runtime_counts api m n = Inr (Some c) \<Longrightarrow> fst c = n"
  by (auto simp: runtime_counts_def res_simps split: option.splits if_splits)

section \<open>Properties\<close>

text \<open>
  C16. Whatever the LMCache resolvers answer, a decoder layout that startup builds is well
  formed: identities are not empty, both raw token dimensions and the layer count are positive,
  the groups are numbered 0 and 1, and the runtime topology agrees with the layer count of the
  latent group.
\<close>

theorem build_decoder_layout_wf:
  assumes "build_decoder_layout api config metadata tag n = Inr l"
  shows "layout_wf l \<and> dl_layout_tag l = tag \<and> dl_num_layers l = n \<and>
         dl_chunk_size l = cf_chunk_size config"
  using assms
  by (auto simp: build_decoder_layout_def parse_raw_token_dimensions_def res_simps Let_def
        layout_wf_def num_layers_for_group_def split: if_splits prod.splits option.splits
        dest!: runtime_counts_latent)

definition example_dtype :: dtype where
  "example_dtype = \<lparr>dt_name = ''bfloat16'', dt_itemsize = 2\<rparr>"

definition example_metadata :: metadata where
  "example_metadata = \<lparr>md_mla_cache_tp_replicated = True, md_use_mla = True,
     md_dtypes = [example_dtype], md_kv_dtype = example_dtype, md_c8 = NoC8,
     md_group_layer_counts = Some [PInt 2, PInt 1], md_model_name = ''m'', md_world_size = 4,
     md_worker_id = 0, md_first_rank = True, md_engine_id = Some ''d0''\<rparr>"

definition example_config :: config where
  "example_config = \<lparr>cf_dsa_two_groups = True, cf_enable_sparse_attention = True,
     cf_dsa_group1_load_mode = ''persistent_direct_hbm'', cf_save_only_first_rank = None,
     cf_chunk_size = 4, cf_pre_caching_hash_algorithm = ''sha256'',
     cf_enable_remote_lmcache_store = True, cf_local_cpu = True, cf_use_layerwise = True,
     cf_enable_shared_cpu_cache = True, cf_max_rpc_message_bytes = 1024,
     cf_max_control_pages_per_window = 8, cf_max_inflight_bytes = 4096,
     cf_max_active_transactions = 2, cf_max_inflight_windows_per_request = 2,
     cf_max_reserved_bytes = 8192, cf_max_bytes_per_request = 8192\<rparr>"

definition example_layout_api :: layout_api where
  "example_layout_api = \<lparr>la_resolve_dims = (\<lambda>_ _. Inr ([(0, 3), (1, 2)], ''config'')),
     la_resolve_identity = (\<lambda>_ _. Inr (''ns'', ''artifact'')),
     la_validate_counts = (\<lambda>xs. case xs of [PInt a, PInt b] \<Rightarrow> Inr (a, b)
        | _ \<Rightarrow> Inl (ValueError ''counts'')),
     la_layer_pages_enabled = (\<lambda>_. True)\<rparr>"

definition example_layout :: decoder_layout where
  "example_layout = \<lparr>dl_layout_tag = ''tag'', dl_cache_namespace_tag = ''ns'',
     dl_model_artifact_id = ''artifact'', dl_model_name = ''m'', dl_key_world_size = 1,
     dl_chunk_size = 4, dl_num_layers = 2,
     dl_groups = (\<lparr>gl_kv_group = 0, gl_raw_token_dim = 3, gl_dtype = example_dtype,
        gl_fmt = ''KV_MLA_LATENT_FMT'', gl_layer_token_dims = []\<rparr>,
      \<lparr>gl_kv_group = 1, gl_raw_token_dim = 2, gl_dtype = example_dtype,
        gl_fmt = ''KV_DSA_INDEX_FMT'', gl_layer_token_dims = []\<rparr>),
     dl_group_layer_counts = Some (2, 1)\<rparr>"

lemmas example_defs = example_dtype_def example_metadata_def example_config_def
  example_layout_api_def example_layout_def

lemma example_layout_built:
  "build_decoder_layout example_layout_api example_config example_metadata ''tag'' 2
   = Inr example_layout"
  by (simp add: build_decoder_layout_def parse_raw_token_dimensions_def runtime_counts_def
      indexer_token_dims_def save_only_first_rank_value_def dict_get_int_def example_defs Let_def)

theorem build_decoder_layout_wf_witness:
  "layout_wf example_layout \<and> dl_layout_tag example_layout = ''tag'' \<and>
   dl_num_layers example_layout = 2 \<and>
   dl_chunk_size example_layout = cf_chunk_size example_config"
  by (rule build_decoder_layout_wf [OF example_layout_built])

text \<open>The expected bytes of a full page are the bytes of the allocator's shapes: the sum of the
  layer extents when the layers differ, and the homogeneous template once per layer otherwise.
  So the size check after an allocation and the byte count on the wire agree.
\<close>

theorem expected_bytes_full_page:
  assumes "expected_bytes g chunk_size num_layers = Inr b"
  shows "b = sum_list (map sum_list (page_shapes g chunk_size)) * dt_itemsize (gl_dtype g)
             * (if gl_layer_token_dims g = [] then num_layers else 1)"
proof -
  have "sum_list (map (\<lambda>width. chunk_size * width) ws) = chunk_size * sum_list ws" for ws
    by (simp add: sum_list_const_mult)
  with assms show ?thesis
    by (auto simp: expected_bytes_def page_shapes_def full_shape_def o_def split: if_splits)
qed

theorem expected_bytes_full_page_witness:
  "expected_bytes (snd (dl_groups example_layout)) 4 1 = Inr 16 \<and>
   16 = sum_list (map sum_list (page_shapes (snd (dl_groups example_layout)) 4))
        * dt_itemsize (gl_dtype (snd (dl_groups example_layout)))
        * (if gl_layer_token_dims (snd (dl_groups example_layout)) = [] then 1 else 1)"
proof -
  have h: "expected_bytes (snd (dl_groups example_layout)) 4 1 = Inr 16"
    by (simp add: expected_bytes_def example_defs)
  show ?thesis using h expected_bytes_full_page [OF h] by simp
qed

text \<open>Both ends derive the same negotiation identity: the spec depends on the configured hash
  contract only through its identity, and two specs that agree on the identity fields come from
  configurations with the same token hash.
\<close>

theorem negotiation_spec_hash_contract:
  assumes "build_remote_fill_negotiation_spec seed config metadata layout eid rank dp te sess
             ht w sg = Inr s"
    and "build_remote_fill_negotiation_spec seed' config' metadata' layout' eid' rank' dp' te' sess'
             ht' w' sg' = Inr s'"
    and "ns_token_hash_algorithm s = ns_token_hash_algorithm s'"
    and "ns_python_hash_seed s = ns_python_hash_seed s'"
  shows "ht = ht' \<and> w = w' \<and>
         (ns_token_hash_algorithm s = ''builtin'' \<longrightarrow> seed = seed' \<and> seed \<noteq> [])"
proof -
  note defs = build_remote_fill_negotiation_spec_def Let_def res_simps
  have i: "remote_fill_token_hash_identity (py_strip (cf_pre_caching_hash_algorithm config)) ht w
      = Inr (ns_token_hash_algorithm s)"
    and seed: "ns_python_hash_seed s =
      (if py_strip (cf_pre_caching_hash_algorithm config) = ''builtin'' then seed else [])"
      "py_strip (cf_pre_caching_hash_algorithm config) = ''builtin'' \<Longrightarrow> seed \<noteq> []"
    using assms(1) by (auto simp: defs split: if_splits)
  have i': "remote_fill_token_hash_identity (py_strip (cf_pre_caching_hash_algorithm config')) ht' w'
      = Inr (ns_token_hash_algorithm s')"
    and seed': "ns_python_hash_seed s' =
      (if py_strip (cf_pre_caching_hash_algorithm config') = ''builtin'' then seed' else [])"
      "py_strip (cf_pre_caching_hash_algorithm config') = ''builtin'' \<Longrightarrow> seed' \<noteq> []"
    using assms(2) by (auto simp: defs split: if_splits)
  let ?a = "py_strip (cf_pre_caching_hash_algorithm config)"
  let ?a' = "py_strip (cf_pre_caching_hash_algorithm config')"
  have unique: "py_strip ?a = py_strip ?a' \<and> ht = ht' \<and> w = w'"
    using hash_identity_unique [OF i i' [folded assms(3)]] .
  have "seed = seed' \<and> seed \<noteq> []" if "ns_token_hash_algorithm s = ''builtin''"
  proof -
    have "?a = ''builtin''" "?a' = ''builtin''"
      using hash_identity_builtin [of ?a] hash_identity_builtin [of ?a'] i i' assms(3) that
      by simp_all
    with seed seed' assms(4) show ?thesis by simp
  qed
  with unique show ?thesis by blast
qed

definition example_spec :: "string \<Rightarrow> string \<Rightarrow> negotiation_spec res" where
  "example_spec algorithm seed =
     build_remote_fill_negotiation_spec seed
       (example_config\<lparr>cf_pre_caching_hash_algorithm := algorithm\<rparr>) example_metadata
       example_layout ''d0'' 0 1 True ''te0'' HashInt None False"

theorem negotiation_spec_hash_contract_witness:
  "\<exists>s. example_spec ''builtin'' ''7'' = Inr s \<and> ns_token_hash_algorithm s = ''builtin'' \<and>
       HashInt = HashInt \<and> (None :: int option) = None \<and>
       (ns_token_hash_algorithm s = ''builtin'' \<longrightarrow> ''7'' = ''7'' \<and> ''7'' \<noteq> [])"
proof -
  have "ns_token_hash_algorithm (projr (example_spec ''builtin'' ''7'')) = ''builtin''"
    and "example_spec ''builtin'' ''7'' = Inr (projr (example_spec ''builtin'' ''7''))"
    by code_simp+
  then obtain s where s: "example_spec ''builtin'' ''7'' = Inr s"
    and b: "ns_token_hash_algorithm s = ''builtin''"
    by metis
  have "HashInt = HashInt \<and> (None :: int option) = None \<and>
      (ns_token_hash_algorithm s = ''builtin'' \<longrightarrow> ''7'' = ''7'' \<and> ''7'' \<noteq> [])"
    using negotiation_spec_hash_contract [OF s [unfolded example_spec_def]
        s [unfolded example_spec_def] refl refl] .
  with s b show ?thesis by blast
qed

end
