(* ===== verification/RemoteFillPages.thy ===== *)
theory RemoteFillPages
  imports RemoteFillLayout
begin

text \<open>
  The page manifest of a remote fill (\<open>AscendRemoteFillPageLifecycle\<close> of
  \<open>lmcache_ascend/v1/remote_fill.py\<close>): what the decoder checks of every control page, of a
  reservation window and of the final prefix, before it allocates or publishes anything.
  \<open>CacheEngineKey\<close> and the Mooncake token tag belong to LMCache; their functions are the
  fields of \<open>key_api\<close>, a parameter.
\<close>

section \<open>Data\<close>

datatype chunk_hash = HashI int | HashB "nat list"

record cache_key =
  ck_model_name :: string
  ck_world_size :: int
  ck_worker_id :: int
  ck_chunk_hash :: chunk_hash
  ck_dtype :: dtype
  ck_request_configs :: "(string \<times> pyval) list"
  ck_kv_group :: int
  ck_tags :: "(string \<times> pyval) list"

record key_api =
  ka_from_string :: "hash_type \<Rightarrow> string \<Rightarrow> cache_key res"
  ka_to_string :: "cache_key \<Rightarrow> string"
  ka_valid_tokens :: "cache_key \<Rightarrow> int \<Rightarrow> int res"
  ka_make :: "string \<Rightarrow> int \<Rightarrow> int \<Rightarrow> chunk_hash \<Rightarrow> dtype \<Rightarrow> (string \<times> pyval) list \<Rightarrow> int \<Rightarrow> cache_key res"
  ka_valid_tokens_tag :: string

record control_page =
  cp_canonical_key :: string
  cp_kv_group :: int
  cp_chunk_index :: int
  cp_chunk_start :: int
  cp_chunk_end :: int
  cp_valid_tokens :: int
  cp_expected_bytes :: int
  cp_destination_tp_rank :: int
  cp_layer_count :: int
  cp_layout_tag :: string

record finish_request =
  fr_required_store_end :: int
  fr_persistent_common_end :: int
  fr_final_partial_valid_tokens :: int

text \<open>What \<open>AscendRemoteFillPageLifecycle.__init__\<close> stores, apart from the callbacks.\<close>

record lifecycle =
  lc_layout :: decoder_layout
  lc_direct_groups :: "int list"
  lc_hash_type :: hash_type
  lc_hash_bytes :: "int option"
  lc_has_reclaimer :: bool

definition make_lifecycle ::
  "decoder_layout \<Rightarrow> hash_type \<Rightarrow> int option \<Rightarrow> int list \<Rightarrow> bool \<Rightarrow> lifecycle res" where
  "make_lifecycle layout chunk_hash_type chunk_hash_bytes direct_groups has_reclaimer =
     (if chunk_hash_type = HashOtherType then
        Inl (TypeError ''chunk_hash_type must be int or bytes'')
      else if chunk_hash_type = HashBytes
              \<and> (case chunk_hash_bytes of None \<Rightarrow> True | Some n \<Rightarrow> n \<le> 0) then
        Inl (ValueError ''byte chunk hashes require a positive fixed digest width'')
      else if chunk_hash_type \<noteq> HashBytes \<and> chunk_hash_bytes \<noteq> None then
        Inl (ValueError ''integer chunk hashes must not declare a digest width'')
      else if direct_groups \<notin> {[0], [0, 1]} then
        Inl (ValueError ''remote-fill direct groups must be exactly (0,) or (0, 1)'')
      else Inr \<lparr>lc_layout = layout, lc_direct_groups = direct_groups,
             lc_hash_type = chunk_hash_type, lc_hash_bytes = chunk_hash_bytes,
             lc_has_reclaimer = has_reclaimer\<rparr>)"

section \<open>One control page\<close>

text \<open>
  The key of a page whose valid-token count is not a whole chunk is rebuilt with the count in
  its request configuration: \<open>dict(key.request_configs or {})\<close> updated at the tag.
\<close>

definition tag_valid_tokens :: "key_api \<Rightarrow> lifecycle \<Rightarrow> cache_key \<Rightarrow> int \<Rightarrow> cache_key res" where
  "tag_valid_tokens api lc key key_valid_tokens =
     (if key_valid_tokens \<noteq> dl_chunk_size (lc_layout lc) then
        ka_make api (ck_model_name key) (ck_world_size key) (ck_worker_id key)
          (ck_chunk_hash key) (ck_dtype key)
          (AList.update (ka_valid_tokens_tag api) (PInt key_valid_tokens) (ck_request_configs key))
          (ck_kv_group key)
      else Inr key)"

definition check_digest_width :: "lifecycle \<Rightarrow> cache_key \<Rightarrow> unit res" where
  "check_digest_width lc key =
     (if lc_hash_type lc = HashBytes then
        (case ck_chunk_hash key of
           HashI _ \<Rightarrow> Inl (TypeError ''object of type int has no len()'')
         | HashB bs \<Rightarrow>
             check (Some (int (length bs)) \<noteq> lc_hash_bytes lc)
               (ValueError ''remote-fill page chunk hash has an unexpected digest width''))
      else Inr ())"

definition validate_control_page ::
  "key_api \<Rightarrow> lifecycle \<Rightarrow> control_page \<Rightarrow> cache_key res" where
  "validate_control_page api lc page =
     (let layout = lc_layout lc; chunk = dl_chunk_size layout in
      bindR (check (cp_kv_group page \<notin> set (lc_direct_groups lc))
        (ValueError ''remote-fill page group was not negotiated'')) (\<lambda>_.
      bindR (ka_from_string api (lc_hash_type lc) (cp_canonical_key page)) (\<lambda>key0.
      bindR (ka_valid_tokens api key0 chunk) (\<lambda>key_valid_tokens.
      bindR (tag_valid_tokens api lc key0 key_valid_tokens) (\<lambda>key.
      bindR (check_digest_width lc key) (\<lambda>_.
      bindR (check (ka_to_string api key \<noteq> cp_canonical_key page)
        (ValueError ''remote-fill page key is not canonical'')) (\<lambda>_.
      bindR (check (ck_kv_group key \<noteq> cp_kv_group page)
        (ValueError ''remote-fill key group does not match control page'')) (\<lambda>_.
      bindR (check (ck_worker_id key \<noteq> 0)
        (ValueError ''remote-fill physical page must be owned by TP0'')) (\<lambda>_.
      bindR (check (ck_model_name key \<noteq> dl_model_name layout)
        (ValueError ''remote-fill page model identity mismatch'')) (\<lambda>_.
      bindR (check (ck_world_size key \<noteq> dl_key_world_size layout)
        (ValueError ''remote-fill page key world size mismatch'')) (\<lambda>_.
      bindR (check (cp_destination_tp_rank page \<noteq> 0)
        (ValueError ''remote-fill destination TP rank must be zero'')) (\<lambda>_.
      bindR (num_layers_for_group layout (cp_kv_group page)) (\<lambda>layers.
      bindR (check (cp_layer_count page \<noteq> layers)
        (ValueError ''remote-fill page layer count mismatch'')) (\<lambda>_.
      bindR (check (cp_layout_tag page \<noteq> dl_layout_tag layout)
        (ValueError ''remote-fill page layout tag mismatch'')) (\<lambda>_.
      bindR (check (cp_chunk_index page < 0 \<or> cp_chunk_start page \<noteq> cp_chunk_index page * chunk)
        (ValueError ''remote-fill page chunk position mismatch'')) (\<lambda>_.
      bindR (check (cp_chunk_end page - cp_chunk_start page \<noteq> cp_valid_tokens page)
        (ValueError ''remote-fill page valid-token interval mismatch'')) (\<lambda>_.
      bindR (check (\<not> (0 < cp_valid_tokens page \<and> cp_valid_tokens page \<le> chunk))
        (ValueError ''remote-fill page valid-token count is out of range'')) (\<lambda>_.
      bindR (check (key_valid_tokens \<noteq> cp_valid_tokens page)
        (ValueError ''remote-fill key valid-token tag mismatch'')) (\<lambda>_.
      bindR (layout_group layout (cp_kv_group page)) (\<lambda>group.
      bindR (check (ck_dtype key \<noteq> gl_dtype group)
        (ValueError ''remote-fill page key dtype mismatch'')) (\<lambda>_.
      bindR (expected_bytes group (cp_valid_tokens page) layers) (\<lambda>bytes.
      bindR (check (cp_expected_bytes page \<noteq> bytes)
        (ValueError ''remote-fill page expected byte count mismatch'')) (\<lambda>_.
      Inr key)))))))))))))))))))))))"

text \<open>What a validated page and its key satisfy.\<close>

definition page_ok :: "lifecycle \<Rightarrow> control_page \<Rightarrow> cache_key \<Rightarrow> bool" where
  "page_ok lc page key \<longleftrightarrow>
     cp_kv_group page \<in> set (lc_direct_groups lc)
   \<and> ck_kv_group key = cp_kv_group page
   \<and> ck_worker_id key = 0
   \<and> ck_model_name key = dl_model_name (lc_layout lc)
   \<and> ck_world_size key = dl_key_world_size (lc_layout lc)
   \<and> cp_layout_tag page = dl_layout_tag (lc_layout lc)
   \<and> 0 \<le> cp_chunk_index page
   \<and> cp_chunk_start page = cp_chunk_index page * dl_chunk_size (lc_layout lc)
   \<and> cp_chunk_end page = cp_chunk_start page + cp_valid_tokens page
   \<and> 0 < cp_valid_tokens page \<and> cp_valid_tokens page \<le> dl_chunk_size (lc_layout lc)
   \<and> page_bytes (lc_layout lc) (cp_kv_group page) (cp_valid_tokens page)
       = Inr (cp_expected_bytes page)"

lemma validate_control_page_ok:
  assumes "validate_control_page api lc page = Inr key"
  shows "page_ok lc page key \<and> ka_to_string api key = cp_canonical_key page"
  using assms
  by (auto simp: validate_control_page_def page_ok_def page_bytes_def res_simps Let_def)

section \<open>A reservation window\<close>

text \<open>\<open>_shared_key_tags\<close>: the tags that both groups of one chunk have in common.\<close>

definition shared_key_tags :: "cache_key \<Rightarrow> (string \<times> pyval) list" where
  "shared_key_tags key = filter (\<lambda>tag. fst tag \<noteq> ''dsa_idx'') (ck_tags key)"

definition window_pair_matches ::
  "control_page \<times> cache_key \<Rightarrow> control_page \<times> cache_key \<Rightarrow> bool" where
  "window_pair_matches ref item \<longleftrightarrow>
     cp_chunk_start (fst ref) = cp_chunk_start (fst item)
   \<and> cp_chunk_end (fst ref) = cp_chunk_end (fst item)
   \<and> cp_valid_tokens (fst ref) = cp_valid_tokens (fst item)
   \<and> ck_chunk_hash (snd ref) = ck_chunk_hash (snd item)
   \<and> shared_key_tags (snd ref) = shared_key_tags (snd item)"

text \<open>The items of one chunk in the order of the groups; \<open>None\<close> where one is absent.\<close>

definition group_items ::
  "int list \<Rightarrow> (int \<times> int \<rightharpoonup> control_page \<times> cache_key) \<Rightarrow> int \<Rightarrow>
   (control_page \<times> cache_key) option list" where
  "group_items groups by_selector chunk_index =
     map (\<lambda>group. by_selector (chunk_index, group)) groups"

definition check_window_chunk ::
  "int list \<Rightarrow> (int \<times> int \<rightharpoonup> control_page \<times> cache_key) \<Rightarrow> int \<Rightarrow> unit res" where
  "check_window_chunk groups by_selector chunk_index =
     (let items = group_items groups by_selector chunk_index in
      if None \<in> set items then
        Inl (ValueError ''remote-fill page window requires every negotiated group'')
      else case map the items of
        [] \<Rightarrow> Inl IndexError
      | ref # others \<Rightarrow>
          check (\<not> list_all (window_pair_matches ref) others)
            (ValueError ''remote-fill window group identities do not match''))"

definition validate_window_groups ::
  "int list \<Rightarrow> control_page list \<Rightarrow> cache_key list \<Rightarrow> unit res" where
  "validate_window_groups groups pages keys =
     (let by_selector = py_dict (map (\<lambda>(page, key). ((cp_chunk_index page, cp_kv_group page), (page, key)))
                          (zip pages keys));
          chunk_indices = py_sorted_set (map cp_chunk_index pages)
      in if chunk_indices = [] then
           Inl (ValueError ''remote-fill page window must not be empty'')
         else if chunk_indices \<noteq> [hd chunk_indices..last chunk_indices] then
           Inl (ValueError ''remote-fill page window must be contiguous'')
         else bindR (mapR (check_window_chunk groups by_selector) chunk_indices) (\<lambda>_. Inr ()))"

text \<open>
  The checks of \<open>prepare_pages\<close> before it looks at the cache: every page is valid, no key and
  no (group, chunk) selector is listed twice, and the window covers every negotiated group.
\<close>

definition validate_window ::
  "key_api \<Rightarrow> lifecycle \<Rightarrow> control_page list \<Rightarrow> cache_key list res" where
  "validate_window api lc pages =
     bindR (mapR (validate_control_page api lc) pages) (\<lambda>keys.
     bindR (check (\<not> distinct keys \<or>
         \<not> distinct (map (\<lambda>page. (cp_kv_group page, cp_chunk_index page)) pages))
       (ValueError ''remote-fill page manifest contains duplicate pages'')) (\<lambda>_.
     bindR (validate_window_groups (lc_direct_groups lc) pages keys) (\<lambda>_. Inr keys)))"

section \<open>The final prefix\<close>

text \<open>The first loop of \<open>_validate_required_prefix\<close>: validate and index the pages.\<close>

fun collect_required ::
  "key_api \<Rightarrow> lifecycle \<Rightarrow> control_page list \<Rightarrow> ((int \<times> int) \<times> (control_page \<times> cache_key)) list \<Rightarrow>
   ((int \<times> int) \<times> (control_page \<times> cache_key)) list res" where
  "collect_required api lc [] acc = Inr acc"
| "collect_required api lc (page # pages) acc =
     (case validate_control_page api lc page of
        Inl e \<Rightarrow> Inl e
      | Inr key \<Rightarrow>
          let selector = (cp_chunk_index page, cp_kv_group page) in
          if selector \<in> set (map fst acc) then
            Inl (ValueError ''remote-fill required page manifest is duplicated'')
          else collect_required api lc pages (acc @ [(selector, (page, key))]))"

definition required_item_matches ::
  "int \<Rightarrow> control_page \<times> cache_key \<Rightarrow> control_page \<times> cache_key \<Rightarrow> bool" where
  "required_item_matches expected_valid ref item \<longleftrightarrow>
     cp_valid_tokens (fst item) = expected_valid
   \<and> cp_chunk_start (fst item) = cp_chunk_start (fst ref)
   \<and> cp_chunk_end (fst item) = cp_chunk_end (fst ref)
   \<and> ck_chunk_hash (snd item) = ck_chunk_hash (snd ref)
   \<and> ck_model_name (snd item) = ck_model_name (snd ref)
   \<and> ck_world_size (snd item) = ck_world_size (snd ref)
   \<and> ck_worker_id (snd item) = ck_worker_id (snd ref)
   \<and> shared_key_tags (snd item) = shared_key_tags (snd ref)"

definition required_chunk ::
  "int \<Rightarrow> int list \<Rightarrow> (int \<times> int \<rightharpoonup> control_page \<times> cache_key) \<Rightarrow> int \<Rightarrow> int \<Rightarrow>
   (control_page \<times> cache_key) list res" where
  "required_chunk chunk groups by_selector required_store_end chunk_index =
     (let items = group_items groups by_selector chunk_index in
      if None \<in> set items then
        Inl (ValueError ''remote-fill required page manifest has a hole'')
      else case map the items of
        [] \<Rightarrow> Inl IndexError
      | ref # others \<Rightarrow>
          let expected_end = min required_store_end ((chunk_index + 1) * chunk);
              expected_valid = expected_end - chunk_index * chunk
          in if \<not> list_all (required_item_matches expected_valid ref) (ref # others) then
               Inl (ValueError ''remote-fill negotiated-group page identity mismatch'')
             else Inr (ref # others))"

text \<open>\<open>keys_by_group\<close>: every accepted item appends its key to its page's group.\<close>

definition keys_of_group :: "(control_page \<times> cache_key) list \<Rightarrow> int \<Rightarrow> cache_key list" where
  "keys_of_group items g = map snd (filter (\<lambda>item. cp_kv_group (fst item) = g) items)"

definition validate_required_prefix ::
  "key_api \<Rightarrow> lifecycle \<Rightarrow> control_page list \<Rightarrow> finish_request \<Rightarrow>
   (int \<times> cache_key list) list res" where
  "validate_required_prefix api lc pages finish =
     (let chunk = dl_chunk_size (lc_layout lc);
          groups = lc_direct_groups lc;
          required = fr_required_store_end finish
      in if required < 0 then
           Inl (ValueError ''remote-fill required store end must be nonnegative'')
         else if required = 0 then
           (if pages \<noteq> [] \<or> fr_final_partial_valid_tokens finish \<noteq> 0 then
              Inl (ValueError ''remote-fill empty prefix metadata is inconsistent'')
            else Inr (map (\<lambda>g. (g, [])) groups))
         else if chunk = 0 then Inl (OtherError ''ZeroDivisionError'')
         else let expected_chunks = ceil_div required chunk in
           if int (length pages) \<noteq> expected_chunks * int (length groups) then
             Inl (ValueError ''remote-fill required page manifest is incomplete'')
           else bindR (collect_required api lc pages []) (\<lambda>entries.
             bindR (mapR (required_chunk chunk groups (map_of entries) required)
                      [0..expected_chunks - 1]) (\<lambda>rows.
               if fr_final_partial_valid_tokens finish \<noteq> required mod chunk then
                 Inl (ValueError ''remote-fill final partial-page metadata mismatch'')
               else Inr (map (\<lambda>g. (g, keys_of_group (concat rows) g)) groups))))"

section \<open>What an accepted prefix looks like\<close>

definition entry_ok ::
  "key_api \<Rightarrow> lifecycle \<Rightarrow> (int \<times> int) \<times> (control_page \<times> cache_key) \<Rightarrow> bool" where
  "entry_ok api lc e \<longleftrightarrow>
     validate_control_page api lc (fst (snd e)) = Inr (snd (snd e))
   \<and> fst e = (cp_chunk_index (fst (snd e)), cp_kv_group (fst (snd e)))"

lemma collect_required_spec:
  assumes "collect_required api lc pages acc = Inr entries"
    and "distinct (map fst acc)" and "list_all (entry_ok api lc) acc"
  shows "distinct (map fst entries) \<and> list_all (entry_ok api lc) entries \<and>
         map (fst \<circ> snd) entries = map (fst \<circ> snd) acc @ pages"
  using assms
proof (induction pages arbitrary: acc)
  case Nil
  then show ?case by simp
next
  case (Cons page pages)
  let ?sel = "(cp_chunk_index page, cp_kv_group page)"
  from Cons.prems(1) obtain k where k: "validate_control_page api lc page = Inr k"
    and new: "?sel \<notin> set (map fst acc)"
    and rest: "collect_required api lc pages (acc @ [(?sel, (page, k))]) = Inr entries"
    by (cases "validate_control_page api lc page") (auto simp: Let_def split: if_splits)
  show ?case
    using Cons.IH [OF rest] new k Cons.prems(2,3) by (simp add: entry_ok_def)
qed

text \<open>The dictionary of a collected manifest, and the rows the second loop builds from it.\<close>

lemma required_chunk_Inr:
  assumes "required_chunk chunk groups m required i = Inr row"
  shows "None \<notin> set (group_items groups m i)" and "row = map the (group_items groups m i)"
    and "\<forall>item \<in> set row. cp_valid_tokens (fst item) = min required ((i + 1) * chunk) - i * chunk"
  using assms
  by (auto simp: required_chunk_def required_item_matches_def Let_def list_all_iff
      split: if_splits list.splits)

lemma required_row_key:
  assumes row: "required_chunk chunk groups m required i = Inr row"
    and groups: "distinct groups" "g \<in> set groups"
    and sel: "\<And>g' p k. m (i, g') = Some (p, k) \<Longrightarrow> cp_kv_group p = g'"
  shows "\<exists>p k. m (i, g) = Some (p, k) \<and> keys_of_group row g = [k] \<and>
           cp_valid_tokens p = min required ((i + 1) * chunk) - i * chunk"
proof -
  note r = required_chunk_Inr [OF row]
  have some: "\<exists>p k. m (i, g') = Some (p, k)" if "g' \<in> set groups" for g'
    using r(1) that by (cases "m (i, g')") (auto simp: group_items_def image_iff)
  have row_eq: "row = map (\<lambda>g'. the (m (i, g'))) groups"
    using r(2) by (simp add: group_items_def)
  obtain p k where pk: "m (i, g) = Some (p, k)" using some groups(2) by blast
  have "filter (\<lambda>item. cp_kv_group (fst item) = g) row = map (\<lambda>g'. the (m (i, g'))) (filter (\<lambda>g'. g' = g) groups)"
    unfolding row_eq filter_map o_def
    by (rule arg_cong [where f = "map _"], rule filter_cong) (use some sel in force)+
  also have "filter (\<lambda>g'. g' = g) groups = [g]"
    using groups by (induction groups) (auto simp: filter_empty_conv)
  finally have "keys_of_group row g = [k]"
    using pk by (simp add: keys_of_group_def)
  moreover have "(p, k) \<in> set row"
    using row_eq groups(2) pk by force
  ultimately show ?thesis
    using pk r(3) by fastforce
qed

lemma keys_of_group_concat:
  "keys_of_group (concat rows) g = concat (map (\<lambda>row. keys_of_group row g) rows)"
  by (induction rows) (simp_all add: keys_of_group_def)

text \<open>
  The shape of an accepted nonempty prefix: one dictionary entry per page, and for every
  negotiated group one key per chunk, taken from the page that the manifest lists for it.
\<close>

definition prefix_shape ::
  "key_api \<Rightarrow> lifecycle \<Rightarrow> control_page list \<Rightarrow> int \<Rightarrow> (int \<times> cache_key list) list \<Rightarrow>
   ((int \<times> int) \<times> (control_page \<times> cache_key)) list \<Rightarrow> bool" where
  "prefix_shape api lc pages required result entries \<longleftrightarrow>
     (let chunk = dl_chunk_size (lc_layout lc); n = ceil_div required chunk in
      distinct (map fst entries) \<and> list_all (entry_ok api lc) entries
    \<and> map (fst \<circ> snd) entries = pages
    \<and> int (length pages) = n * int (length (lc_direct_groups lc))
    \<and> map fst result = lc_direct_groups lc
    \<and> (\<forall>g ks. (g, ks) \<in> set result \<longrightarrow>
         int (length ks) = max 0 n \<and>
         (\<forall>i < length ks. \<exists>p. map_of entries (int i, g) = Some (p, ks ! i) \<and>
            cp_valid_tokens p = min required ((int i + 1) * chunk) - int i * chunk)))"

lemma required_prefix_Inr:
  assumes v: "validate_required_prefix api lc pages finish = Inr result"
    and pos: "0 < fr_required_store_end finish"
    and groups: "distinct (lc_direct_groups lc)"
  shows "\<exists>entries. prefix_shape api lc pages (fr_required_store_end finish) result entries"
proof -
  let ?chunk = "dl_chunk_size (lc_layout lc)" and ?req = "fr_required_store_end finish"
  let ?groups = "lc_direct_groups lc"
  let ?n = "ceil_div ?req ?chunk"
  from v pos obtain entries rows where
    len: "int (length pages) = ?n * int (length ?groups)"
    and collect: "collect_required api lc pages [] = Inr entries"
    and rows: "mapR (required_chunk ?chunk ?groups (map_of entries) ?req) [0..?n - 1] = Inr rows"
    and result: "result = map (\<lambda>g. (g, keys_of_group (concat rows) g)) ?groups"
    by (auto simp: validate_required_prefix_def Let_def res_simps split: if_splits)
  have spec: "distinct (map fst entries)" "list_all (entry_ok api lc) entries"
    "map (fst \<circ> snd) entries = pages"
    using collect_required_spec [OF collect] by simp_all
  have sel: "cp_kv_group p = g'" if "map_of entries (i, g') = Some (p, k)" for i g' p k
    using map_of_SomeD [OF that] spec(2) by (auto simp: list_all_iff entry_ok_def)
  have row: "\<exists>p k. map_of entries (int i, g) = Some (p, k) \<and> keys_of_group (rows ! i) g = [k] \<and>
        cp_valid_tokens p = min ?req ((int i + 1) * ?chunk) - int i * ?chunk"
    if "i < length rows" "g \<in> set ?groups" for i g
  proof -
    have "required_chunk ?chunk ?groups (map_of entries) ?req (int i) = Inr (rows ! i)"
      using rows that(1) by (auto simp: res_simps nth_upto)
    from required_row_key [OF this groups that(2)] sel show ?thesis by blast
  qed
  have keys: "keys_of_group (concat rows) g = map (\<lambda>row. hd (keys_of_group row g)) rows"
    if "g \<in> set ?groups" for g
  proof -
    have "map (\<lambda>row. keys_of_group row g) rows = map (\<lambda>row. [hd (keys_of_group row g)]) rows"
      using row [OF _ that] by (intro map_cong) (auto simp: in_set_conv_nth, force)
    then have "concat (map (\<lambda>row. keys_of_group row g) rows)
        = concat (map (\<lambda>row. [hd (keys_of_group row g)]) rows)" by (rule arg_cong)
    then show ?thesis by (simp add: keys_of_group_concat)
  qed
  have n_rows: "int (length rows) = max 0 ?n"
    using mapR_length [OF rows] by simp
  have result_ok: "\<forall>g ks. (g, ks) \<in> set result \<longrightarrow> int (length ks) = max 0 ?n \<and>
       (\<forall>i < length ks. \<exists>p. map_of entries (int i, g) = Some (p, ks ! i) \<and>
          cp_valid_tokens p = min ?req ((int i + 1) * ?chunk) - int i * ?chunk)"
  proof -
    have "int (length ks) = max 0 ?n \<and>
       (\<forall>i < length ks. \<exists>p. map_of entries (int i, g) = Some (p, ks ! i) \<and>
          cp_valid_tokens p = min ?req ((int i + 1) * ?chunk) - int i * ?chunk)"
      if "(g, ks) \<in> set result" for g ks
    proof -
      from that have g: "g \<in> set ?groups" and ks: "ks = map (\<lambda>row. hd (keys_of_group row g)) rows"
        by (auto simp: result keys)
      show ?thesis using n_rows ks row [OF _ g] by fastforce
    qed
    then show ?thesis by blast
  qed
  have "map fst result = ?groups" by (simp add: result o_def)
  with spec len result_ok show ?thesis
    unfolding prefix_shape_def Let_def by blast
qed


text \<open>The selectors of an accepted manifest are exactly the grid of chunks and groups.\<close>

lemma selectors_grid:
  assumes "distinct (map fst entries)" "distinct groups"
    and "int (length entries) = n * int (length groups)" "0 \<le> n"
    and "\<And>i g. 0 \<le> i \<Longrightarrow> i < n \<Longrightarrow> g \<in> set groups \<Longrightarrow> (i, g) \<in> fst ` set entries"
  shows "fst ` set entries = {0..<n} \<times> set groups"
proof -
  have "card (fst ` set entries) = length entries"
    using assms(1) by (metis distinct_card length_map list.set_map)
  also have "length entries = nat n * length groups"
    using assms(3,4) by (metis int_nat_eq nat_int of_nat_mult)
  also have "\<dots> = card ({0..<n} \<times> set groups)"
    using assms(2) by (simp add: card_cartesian_product distinct_card)
  finally have "card (fst ` set entries) = card ({0..<n} \<times> set groups)" .
  moreover have "{0..<n} \<times> set groups \<subseteq> fst ` set entries"
    using assms(5) by auto
  ultimately show ?thesis
    by (metis card_seteq finite_imageI finite_set order_refl)
qed

text \<open>The valid tokens of consecutive chunks add up to the covered prefix.\<close>

lemma chunk_sum:
  fixes req c :: int
  assumes "0 < c" "0 < req" "int m \<le> ceil_div req c"
  shows "(\<Sum>i \<in> {0..<int m}. min req ((i + 1) * c) - i * c) = min req (int m * c)"
  using assms(3)
proof (induction m)
  case 0
  then show ?case using assms(2) by simp
next
  case (Suc m)
  have "int m * c < req"
  proof -
    have "(int m + 1) * c \<le> ceil_div req c * c"
      using Suc.prems assms(1) by (intro mult_right_mono) auto
    with ceil_div_bounds(2) [OF assms(1), of req] show ?thesis by (simp add: algebra_simps)
  qed
  moreover have "{0..<int (Suc m)} = insert (int m) {0..<int m}" by auto
  ultimately show ?case
    using Suc by (simp add: algebra_simps)
qed

lemma chunk_union:
  fixes req c :: int
  assumes "0 < c" "0 < req"
  shows "(\<Union>i \<in> {0..<ceil_div req c}. {i * c..<min req ((i + 1) * c)}) = {0..<req}"
proof (intro set_eqI iffI)
  fix t assume "t \<in> (\<Union>i \<in> {0..<ceil_div req c}. {i * c..<min req ((i + 1) * c)})"
  then obtain i where "0 \<le> i" "i * c \<le> t" "t < req" by auto
  moreover from \<open>0 \<le> i\<close> have "0 \<le> i * c" using assms(1) by simp
  ultimately show "t \<in> {0..<req}" by simp
next
  fix t assume t: "t \<in> {0..<req}"
  have "t div c * c \<le> t" "t < (t div c + 1) * c"
    using assms(1) by (simp_all add: minus_mod_eq_div_mult [symmetric] distrib_right)
  moreover have "t div c < ceil_div req c"
  proof -
    have "t div c * c < ceil_div req c * c"
      using calculation(1) t ceil_div_bounds(1) [OF assms(1), of req] by simp
    then show ?thesis using assms(1) by simp
  qed
  moreover have "0 \<le> t div c" using t assms(1) by (simp add: pos_imp_zdiv_nonneg_iff)
  ultimately show "t \<in> (\<Union>i \<in> {0..<ceil_div req c}. {i * c..<min req ((i + 1) * c)})"
    using t by (intro UN_I [of "t div c"]) auto
qed


text \<open>
  The pages of one group, in the manifest's order, are the values of the entries of that group,
  and the entries' chunk numbers are the chunks of the prefix, each once.
\<close>

definition group_entries ::
  "((int \<times> int) \<times> (control_page \<times> cache_key)) list \<Rightarrow> int \<Rightarrow> ((int \<times> int) \<times> (control_page \<times> cache_key)) list" where
  "group_entries entries g = filter (\<lambda>e. snd (fst e) = g) entries"

definition group_pages :: "control_page list \<Rightarrow> int \<Rightarrow> control_page list" where
  "group_pages pages g = filter (\<lambda>p. cp_kv_group p = g) pages"

lemma group_pages_entries:
  assumes "list_all (entry_ok api lc) entries"
  shows "group_pages (map (fst \<circ> snd) entries) g = map (fst \<circ> snd) (group_entries entries g)"
  using assms
  by (induction entries) (auto simp: group_pages_def group_entries_def entry_ok_def)

lemma group_entries_chunks:
  assumes "distinct (map fst entries)" "fst ` set entries = {0..<n} \<times> set groups"
    and "g \<in> set groups"
  shows "distinct (map (fst \<circ> fst) (group_entries entries g)) \<and>
         set (map (fst \<circ> fst) (group_entries entries g)) = {0..<n}"
proof
  have "distinct (map fst (group_entries entries g))"
    using assms(1) by (simp add: group_entries_def distinct_map_filter)
  then have "distinct (map fst (map fst (group_entries entries g)))"
    by (subst distinct_map) (auto simp: group_entries_def inj_on_def prod_eq_iff)
  then show "distinct (map (fst \<circ> fst) (group_entries entries g))" by simp
  have "set (map (fst \<circ> fst) (group_entries entries g)) = fst ` {x \<in> fst ` set entries. snd x = g}"
    by (force simp: group_entries_def)
  also have "\<dots> = {0..<n}"
    using assms(2,3) by (auto simp: image_iff)
  finally show "set (map (fst \<circ> fst) (group_entries entries g)) = {0..<n}" .
qed

definition prefix_covered :: "int \<Rightarrow> int \<Rightarrow> control_page list \<Rightarrow> bool" where
  "prefix_covered chunk required ps \<longleftrightarrow>
     sum_list (map cp_valid_tokens ps) = required
   \<and> (\<Union>p \<in> set ps. {cp_chunk_start p..<cp_chunk_end p}) = {0..<required}"

lemma group_pages_covered:
  fixes chunk req :: int
  assumes "0 < chunk" "0 < req"
    and ok: "list_all (entry_ok api lc) entries" and chunk: "dl_chunk_size (lc_layout lc) = chunk"
    and idx: "distinct (map (fst \<circ> fst) (group_entries entries g))"
      "set (map (fst \<circ> fst) (group_entries entries g)) = {0..<ceil_div req chunk}"
    and valid: "\<And>e. e \<in> set (group_entries entries g) \<Longrightarrow>
      cp_valid_tokens (fst (snd e)) = min req ((fst (fst e) + 1) * chunk) - fst (fst e) * chunk"
  shows "prefix_covered chunk req (map (fst \<circ> snd) (group_entries entries g))"
  unfolding prefix_covered_def
proof
  let ?es = "group_entries entries g"
  let ?h = "\<lambda>i. min req ((i + 1) * chunk) - i * chunk"
  have "map cp_valid_tokens (map (fst \<circ> snd) ?es) = map ?h (map (fst \<circ> fst) ?es)"
    using valid by simp
  then have "sum_list (map cp_valid_tokens (map (fst \<circ> snd) ?es)) = sum ?h {0..<ceil_div req chunk}"
    using idx by (simp only: sum_list_distinct_conv_sum_set)
  also have "\<dots> = min req (ceil_div req chunk * chunk)"
    using chunk_sum [OF assms(1,2), of "nat (ceil_div req chunk)"] ceil_div_pos [OF assms(1,2)] by simp
  also have "\<dots> = req"
    using ceil_div_bounds(1) [OF assms(1), of req] by simp
  finally show "sum_list (map cp_valid_tokens (map (fst \<circ> snd) ?es)) = req" .
  have interval: "{cp_chunk_start (fst (snd e))..<cp_chunk_end (fst (snd e))}
      = {fst (fst e) * chunk..<min req ((fst (fst e) + 1) * chunk)}"
    if "e \<in> set ?es" for e
  proof -
    have "entry_ok api lc e"
      using ok that by (auto simp: group_entries_def list_all_iff)
    then have "page_ok lc (fst (snd e)) (snd (snd e))" "fst (fst e) = cp_chunk_index (fst (snd e))"
      using validate_control_page_ok by (auto simp: entry_ok_def)
    then show ?thesis
      using valid [OF that] chunk by (simp add: page_ok_def)
  qed
  have "(\<Union>p \<in> set (map (fst \<circ> snd) ?es). {cp_chunk_start p..<cp_chunk_end p})
      = (\<Union>i \<in> set (map (fst \<circ> fst) ?es). {i * chunk..<min req ((i + 1) * chunk)})"
    using interval by simp
  also have "\<dots> = {0..<req}"
    unfolding idx(2) by (rule chunk_union [OF assms(1,2)])
  finally show "(\<Union>p \<in> set (map (fst \<circ> snd) ?es). {cp_chunk_start p..<cp_chunk_end p}) = {0..<req}" .
qed


lemma required_prefix_covers:
  assumes lc: "make_lifecycle layout ht hb groups reclaim = Inr lc"
    and chunk: "0 < dl_chunk_size layout"
    and v: "validate_required_prefix api lc pages finish = Inr result"
    and pos: "0 < fr_required_store_end finish"
    and g: "(g, ks) \<in> set result"
  shows "prefix_covered (dl_chunk_size layout) (fr_required_store_end finish) (group_pages pages g)
    \<and> length ks = length (group_pages pages g)
    \<and> (\<forall>i < length ks. \<exists>p \<in> set (group_pages pages g). cp_chunk_index p = int i \<and>
         validate_control_page api lc p = Inr (ks ! i))"
proof -
  let ?req = "fr_required_store_end finish" and ?c = "dl_chunk_size layout"
  have lay: "lc_layout lc = layout" and groups: "distinct (lc_direct_groups lc)"
    using lc by (auto simp: make_lifecycle_def split: if_splits)
  from required_prefix_Inr [OF v pos groups] obtain entries
    where shape: "prefix_shape api lc pages ?req result entries" by blast
  then have e: "distinct (map fst entries)" "list_all (entry_ok api lc) entries"
    "map (fst \<circ> snd) entries = pages"
    and len: "int (length pages) = ceil_div ?req ?c * int (length (lc_direct_groups lc))"
    and res: "map fst result = lc_direct_groups lc"
    by (simp_all add: prefix_shape_def Let_def lay)
  from shape have all: "\<forall>g ks. (g, ks) \<in> set result \<longrightarrow>
       int (length ks) = max 0 (ceil_div ?req ?c) \<and>
       (\<forall>i < length ks. \<exists>p. map_of entries (int i, g) = Some (p, ks ! i) \<and>
          cp_valid_tokens p = min ?req ((int i + 1) * ?c) - int i * ?c)"
    unfolding prefix_shape_def Let_def lay by (elim conjE)
  have keys: "int (length ks) = max 0 (ceil_div ?req ?c) \<and>
       (\<forall>i < length ks. \<exists>p. map_of entries (int i, g) = Some (p, ks ! i) \<and>
          cp_valid_tokens p = min ?req ((int i + 1) * ?c) - int i * ?c)"
    if "(g, ks) \<in> set result" for g ks
    by (rule all [THEN spec, THEN spec, THEN mp, OF that])
  have n: "0 < ceil_div ?req ?c" by (rule ceil_div_pos [OF chunk pos])
  have all_groups: "\<exists>ks. (g', ks) \<in> set result" if "g' \<in> set (lc_direct_groups lc)" for g'
    using that by (auto simp: res [symmetric])
  have entry: "\<exists>p k. map_of entries (i, g') = Some (p, k) \<and>
        cp_valid_tokens p = min ?req ((i + 1) * ?c) - i * ?c"
    if "0 \<le> i" "i < ceil_div ?req ?c" "g' \<in> set (lc_direct_groups lc)" for i g'
  proof -
    from all_groups [OF that(3)] obtain ks where ks: "(g', ks) \<in> set result" by blast
    note k = keys [OF ks]
    have "nat i < length ks" using conjunct1 [OF k] that(1,2) by linarith
    with k obtain p where "map_of entries (int (nat i), g') = Some (p, ks ! nat i)"
      "cp_valid_tokens p = min ?req ((int (nat i) + 1) * ?c) - int (nat i) * ?c" by blast
    then show ?thesis using that(1) by auto
  qed
  have "int (length entries) = ceil_div ?req ?c * int (length (lc_direct_groups lc))"
    using len e(3) by (metis length_map)
  moreover have "(i, g') \<in> fst ` set entries"
    if "0 \<le> i" "i < ceil_div ?req ?c" "g' \<in> set (lc_direct_groups lc)" for i g'
    using entry [OF that] by (metis fst_conv image_eqI map_of_SomeD)
  ultimately have grid: "fst ` set entries = {0..<ceil_div ?req ?c} \<times> set (lc_direct_groups lc)"
    using n e(1) groups by (intro selectors_grid) simp_all
  have gg: "g \<in> set (lc_direct_groups lc)"
    using g by (force simp: res [symmetric])
  have pages: "group_pages pages g = map (fst \<circ> snd) (group_entries entries g)"
    using group_pages_entries [OF e(2)] e(3) by simp
  note idx = group_entries_chunks [OF e(1) grid gg]
  have valid: "cp_valid_tokens (fst (snd x)) = min ?req ((fst (fst x) + 1) * ?c) - fst (fst x) * ?c"
    if "x \<in> set (group_entries entries g)" for x
  proof -
    from that have x: "x \<in> set entries" "snd (fst x) = g" by (auto simp: group_entries_def)
    then have "map_of entries (fst (fst x), g) = Some (snd x)"
      using e(1) by (metis map_of_is_SomeI prod.collapse)
    moreover have "fst (fst x) \<in> {0..<ceil_div ?req ?c}" 
      using imageI [OF x(1), of fst] unfolding grid by (rule mem_Times_iff [THEN iffD1, THEN conjunct1])
    ultimately show ?thesis using entry [OF _ _ gg, of "fst (fst x)"] by force
  qed
  have covered: "prefix_covered ?c ?req (group_pages pages g)"
    unfolding pages
    by (rule group_pages_covered [OF chunk pos e(2) _ conjunct1 [OF idx] conjunct2 [OF idx] valid])
      (simp add: lay)
  have "length (group_entries entries g) = card {0..<ceil_div ?req ?c}"
    using idx by (metis distinct_card length_map)
  then have "length ks = length (group_pages pages g)"
    using conjunct1 [OF keys [OF g]] n pages by simp
  moreover have "\<exists>p \<in> set (group_pages pages g). cp_chunk_index p = int i \<and>
      validate_control_page api lc p = Inr (ks ! i)" if i: "i < length ks" for i
  proof -
    from conjunct2 [OF keys [OF g]] i
    obtain p where p: "map_of entries (int i, g) = Some (p, ks ! i)" by blast
    then have "((int i, g), p, ks ! i) \<in> set entries" by (rule map_of_SomeD)
    then have "entry_ok api lc ((int i, g), p, ks ! i)" "p \<in> set (group_pages pages g)"
      using e(2) pages by (auto simp: list_all_iff group_entries_def image_iff intro!: bexI)
    then show ?thesis by (auto simp: entry_ok_def)
  qed
  ultimately show ?thesis using covered by blast
qed

section \<open>What an accepted window looks like\<close>

lemma check_window_chunk_Inr:
  "check_window_chunk groups m i = Inr u \<Longrightarrow> g \<in> set groups \<Longrightarrow> \<exists>p k. m (i, g) = Some (p, k)"
  by (cases "m (i, g)") (auto simp: check_window_chunk_def group_items_def Let_def image_iff split: if_splits)

lemma check_window_chunk_hash:
  assumes "check_window_chunk groups m i = Inr u" "g \<in> set groups" "g' \<in> set groups"
    and "m (i, g) = Some x" "m (i, g') = Some y"
  shows "ck_chunk_hash (snd x) = ck_chunk_hash (snd y)"
proof -
  let ?items = "map the (group_items groups m i)"
  from assms(1,2) obtain ref others where items: "?items = ref # others"
    and match: "list_all (window_pair_matches ref) others"
    by (auto simp: check_window_chunk_def Let_def res_simps split: if_splits list.splits)
  have "x \<in> set ?items" "y \<in> set ?items"
    using assms(2-5) by (force simp: group_items_def)+
  moreover have "ck_chunk_hash (snd z) = ck_chunk_hash (snd ref)" if "z \<in> set (ref # others)" for z
    using match that by (auto simp: list_all_iff window_pair_matches_def)
  ultimately show ?thesis unfolding items by metis
qed

lemma validate_window_Inr:
  assumes v: "validate_window api lc pages = Inr keys"
  shows "length keys = length pages"
    and "\<forall>i < length pages. validate_control_page api lc (pages ! i) = Inr (keys ! i)"
    and "distinct keys" and "distinct (map (\<lambda>p. (cp_chunk_index p, cp_kv_group p)) pages)"
proof -
  from v have "mapR (validate_control_page api lc) pages = Inr keys" "distinct keys"
    and sel: "distinct (map (\<lambda>p. (cp_kv_group p, cp_chunk_index p)) pages)"
    by (auto simp: validate_window_def res_simps)
  then show "length keys = length pages"
    and "\<forall>i < length pages. validate_control_page api lc (pages ! i) = Inr (keys ! i)"
    and "distinct keys"
    by (simp_all add: res_simps)
  from sel show "distinct (map (\<lambda>p. (cp_chunk_index p, cp_kv_group p)) pages)"
    by (auto simp: distinct_map inj_on_def)
qed

lemma window_grid:
  assumes v: "validate_window api lc pages = Inr keys"
  shows "\<exists>lo hi. lo \<le> hi \<and>
    (\<lambda>p. (cp_chunk_index p, cp_kv_group p)) ` set pages = {lo..hi} \<times> set (lc_direct_groups lc)"
    and "\<forall>i < length pages. \<forall>j < length pages. cp_chunk_index (pages ! i) = cp_chunk_index (pages ! j)
         \<longrightarrow> ck_chunk_hash (keys ! i) = ck_chunk_hash (keys ! j)"
proof -
  let ?groups = "lc_direct_groups lc"
  let ?kvs = "map (\<lambda>(page, key). ((cp_chunk_index page, cp_kv_group page), (page, key))) (zip pages keys)"
  let ?idx = "py_sorted_set (map cp_chunk_index pages)"
  note w = validate_window_Inr [OF v]
  from v have ne: "?idx \<noteq> []" and range: "?idx = [hd ?idx..last ?idx]"
    and all: "\<exists>us. mapR (check_window_chunk ?groups (py_dict ?kvs)) ?idx = Inr us"
    by (auto simp: validate_window_def validate_window_groups_def Let_def bindR_Inr_iff check_Inr_iff
        split: if_splits)
  from all have chunks: "\<exists>u. check_window_chunk ?groups (py_dict ?kvs) i = Inr u" if "i \<in> set ?idx" for i
    using that by (blast intro: mapR_all)
  have "map fst ?kvs = map (\<lambda>p. (cp_chunk_index p, cp_kv_group p)) pages"
    using w(1) by (auto intro!: nth_equalityI)
  with w(4) have dist: "distinct (map fst ?kvs)" by simp
  have lookup: "py_dict ?kvs (cp_chunk_index (pages ! i), cp_kv_group (pages ! i))
      = Some (pages ! i, keys ! i)" if "i < length pages" for i
    using dist w(1) that by (auto simp: py_dict_Some_iff set_zip image_iff)
  have group: "cp_kv_group (pages ! i) \<in> set ?groups" if "i < length pages" for i
    using w(2) that validate_control_page_ok by (auto simp: page_ok_def)
  have "(\<lambda>p. (cp_chunk_index p, cp_kv_group p)) ` set pages = set ?idx \<times> set ?groups"
  proof (intro equalityI subsetI)
    fix x assume "x \<in> (\<lambda>p. (cp_chunk_index p, cp_kv_group p)) ` set pages"
    then show "x \<in> set ?idx \<times> set ?groups"
      using group by (auto simp: in_set_conv_nth)
  next
    fix x assume "x \<in> set ?idx \<times> set ?groups"
    then obtain i g where x: "x = (i, g)" "i \<in> set ?idx" "g \<in> set ?groups" by auto
    with chunks check_window_chunk_Inr obtain p k where "py_dict ?kvs (i, g) = Some (p, k)" by blast
    then have "((i, g), p, k) \<in> set ?kvs" by (rule py_dict_SomeD)
    then show "x \<in> (\<lambda>p. (cp_chunk_index p, cp_kv_group p)) ` set pages"
      using x(1) by (auto dest: set_zip_leftD)
  qed
  moreover have "set ?idx = {hd ?idx..last ?idx}"
    by (subst range) simp
  moreover have "hd ?idx \<le> last ?idx"
    using ne range by (metis not_le upto_Nil)
  ultimately show "\<exists>lo hi. lo \<le> hi \<and>
    (\<lambda>p. (cp_chunk_index p, cp_kv_group p)) ` set pages = {lo..hi} \<times> set ?groups"
    by metis
  show "\<forall>i < length pages. \<forall>j < length pages. cp_chunk_index (pages ! i) = cp_chunk_index (pages ! j)
         \<longrightarrow> ck_chunk_hash (keys ! i) = ck_chunk_hash (keys ! j)"
  proof (intro allI impI)
    fix i j assume ij: "i < length pages" "j < length pages"
      "cp_chunk_index (pages ! i) = cp_chunk_index (pages ! j)"
    have "cp_chunk_index (pages ! i) \<in> set ?idx" using ij(1) by simp
    from chunks [OF this] obtain u
      where "check_window_chunk ?groups (py_dict ?kvs) (cp_chunk_index (pages ! i)) = Inr u" by blast
    from check_window_chunk_hash [OF this group [OF ij(1)] group [OF ij(2)] lookup [OF ij(1)]]
      lookup [OF ij(2)] ij(3)
    show "ck_chunk_hash (keys ! i) = ck_chunk_hash (keys ! j)" by simp
  qed
qed

section \<open>A small manifest\<close>

text \<open>
  A concrete deployment for the witnesses: keys are written as two digits, the chunk and the
  group, and the second chunk of the prefix holds two tokens of four.
\<close>

definition example_key :: "int \<Rightarrow> int \<Rightarrow> cache_key" where
  "example_key i g = \<lparr>ck_model_name = ''m'', ck_world_size = 1, ck_worker_id = 0,
     ck_chunk_hash = HashI i, ck_dtype = example_dtype, ck_request_configs = [],
     ck_kv_group = g, ck_tags = []\<rparr>"

definition example_key_api :: key_api where
  "example_key_api = \<lparr>
     ka_from_string = (\<lambda>_ s. case s of
        [c, d] \<Rightarrow> Inr (example_key (int (digit_val c)) (int (digit_val d)))
      | _ \<Rightarrow> Inl (ValueError ''key'')),
     ka_to_string = (\<lambda>k. (case ck_chunk_hash k of HashI i \<Rightarrow> show_int i | HashB _ \<Rightarrow> [])
        @ show_int (ck_kv_group k)),
     ka_valid_tokens = (\<lambda>k chunk. Inr (if ck_chunk_hash k = HashI 1 then 2 else chunk)),
     ka_make = (\<lambda>m w r h d c g. Inr \<lparr>ck_model_name = m, ck_world_size = w, ck_worker_id = r,
        ck_chunk_hash = h, ck_dtype = d, ck_request_configs = c, ck_kv_group = g, ck_tags = []\<rparr>),
     ka_valid_tokens_tag = ''valid''\<rparr>"

definition example_page :: "int \<Rightarrow> int \<Rightarrow> control_page" where
  "example_page i g =
     (let valid = (if i = 1 then 2 else 4) in
      \<lparr>cp_canonical_key = show_int i @ show_int g, cp_kv_group = g, cp_chunk_index = i,
       cp_chunk_start = 4 * i, cp_chunk_end = 4 * i + valid, cp_valid_tokens = valid,
       cp_expected_bytes = (if g = 0 then 12 * valid else 4 * valid),
       cp_destination_tp_rank = 0, cp_layer_count = (if g = 0 then 2 else 1),
       cp_layout_tag = ''tag''\<rparr>)"

definition example_lifecycle :: lifecycle where
  "example_lifecycle = \<lparr>lc_layout = example_layout, lc_direct_groups = [0, 1],
     lc_hash_type = HashInt, lc_hash_bytes = None, lc_has_reclaimer = True\<rparr>"

definition example_pages :: "control_page list" where
  "example_pages = [example_page 0 0, example_page 0 1, example_page 1 0, example_page 1 1]"

definition example_finish :: finish_request where
  "example_finish = \<lparr>fr_required_store_end = 6, fr_persistent_common_end = 6,
     fr_final_partial_valid_tokens = 2\<rparr>"

definition example_keys :: "(int \<times> cache_key list) list" where
  "example_keys = map (\<lambda>g. (g, map (\<lambda>i. case validate_control_page example_key_api
       example_lifecycle (example_page i g) of Inr k \<Rightarrow> k | Inl _ \<Rightarrow> example_key i g) [0, 1])) [0, 1]"

lemma example_lifecycle_made:
  "make_lifecycle example_layout HashInt None [0, 1] True = Inr example_lifecycle"
  by (simp add: make_lifecycle_def example_lifecycle_def)

lemma example_prefix_accepted:
  "validate_required_prefix example_key_api example_lifecycle example_pages example_finish
   = Inr example_keys"
  by code_simp

section \<open>Properties\<close>

text \<open>
  C14. A prefix that the final validation accepts is covered exactly: for every negotiated group
  the pages of the manifest tile the tokens \<open>[0, required_store_end)\<close> with no gap and no
  overlap, and the \<open>i\<close>-th key returned for the group is the validated key of the page that the
  manifest lists for chunk \<open>i\<close>, one key per page.  A hole, a duplicate, a surplus page or a
  wrong partial tail is therefore always refused.
\<close>

theorem required_prefix_tiles:
  assumes "make_lifecycle layout ht hb groups reclaim = Inr lc"
    and "0 < dl_chunk_size layout"
    and "validate_required_prefix api lc pages finish = Inr result"
    and "(g, ks) \<in> set result"
  shows "prefix_covered (dl_chunk_size layout) (fr_required_store_end finish) (group_pages pages g)
    \<and> length ks = length (group_pages pages g)
    \<and> (\<forall>i < length ks. \<exists>p \<in> set (group_pages pages g). cp_chunk_index p = int i \<and>
         validate_control_page api lc p = Inr (ks ! i))"
proof (cases "0 < fr_required_store_end finish")
  case True
  then show ?thesis by (rule required_prefix_covers [OF assms(1-3) _ assms(4)])
next
  case False
  then have "fr_required_store_end finish = 0" "pages = []" "ks = []"
    using assms(3,4) by (auto simp: validate_required_prefix_def Let_def split: if_splits)
  then show ?thesis by (simp add: prefix_covered_def group_pages_def)
qed

theorem required_prefix_tiles_witness:
  "prefix_covered 4 6 (group_pages example_pages 1) \<and> length (group_pages example_pages 1) = 2"
proof -
  have g: "(1, snd (example_keys ! 1)) \<in> set example_keys"
    by code_simp
  have "0 < dl_chunk_size example_layout" by (simp add: example_layout_def)
  from required_prefix_tiles [OF example_lifecycle_made this example_prefix_accepted g]
  have "prefix_covered (dl_chunk_size example_layout) (fr_required_store_end example_finish)
      (group_pages example_pages 1)" by blast
  moreover have "length (group_pages example_pages 1) = 2" by code_simp
  ultimately show ?thesis by (simp add: example_layout_def example_finish_def)
qed

text \<open>
  A window that validation accepts is a complete grid: its (chunk, group) selectors are
  exactly a contiguous range of chunks times the negotiated groups, each once, under pairwise
  distinct keys; and the pages of one chunk carry the same chunk hash in every group.
\<close>

theorem window_is_grid:
  assumes "validate_window api lc pages = Inr keys"
  shows "distinct keys \<and> length keys = length pages
    \<and> distinct (map (\<lambda>p. (cp_chunk_index p, cp_kv_group p)) pages)
    \<and> (\<exists>lo hi. lo \<le> hi \<and> (\<lambda>p. (cp_chunk_index p, cp_kv_group p)) ` set pages
                          = {lo..hi} \<times> set (lc_direct_groups lc))
    \<and> (\<forall>i < length pages. \<forall>j < length pages. cp_chunk_index (pages ! i) = cp_chunk_index (pages ! j)
         \<longrightarrow> ck_chunk_hash (keys ! i) = ck_chunk_hash (keys ! j))"
  using validate_window_Inr(1,3,4) [OF assms] window_grid [OF assms] by blast

theorem window_is_grid_witness:
  "\<exists>keys. validate_window example_key_api example_lifecycle example_pages = Inr keys \<and>
     distinct keys \<and> length keys = length example_pages"
proof -
  have "case validate_window example_key_api example_lifecycle example_pages of
      Inl _ \<Rightarrow> False | Inr _ \<Rightarrow> True"
    by code_simp
  then obtain keys where "validate_window example_key_api example_lifecycle example_pages = Inr keys"
    by (auto split: sum.splits)
  with window_is_grid [OF this] show ?thesis by blast
qed

end
