(* ===== verification/PageLifecycle.thy ===== *)
theory PageLifecycle
  imports RemoteFillPages
begin

text \<open>
  The decoder's hidden pages (\<open>_HiddenPage\<close> and \<open>AscendRemoteFillPageLifecycle\<close> of
  \<open>lmcache_ascend/v1/remote_fill.py\<close>): reservation, release and publication.

  What the code calls outside this repository (the LocalCPU backend, the allocator's pages, the
  capacity callbacks) is the environment \<open>lc_env\<close>, a parameter: every call's answer, or the
  exception it raises, is an arbitrary function of the calls made before it.  The calls are
  recorded in \<open>lc_events\<close>, in their order.  Logging and timing are left out: they change no state
  of the program.
\<close>

section \<open>Data\<close>

text \<open>A \<open>LayerPageMemoryObj\<close>: its identity, \<open>data_ptr\<close> and \<open>get_size()\<close>.\<close>

record page =
  pg_id :: nat
  pg_data_ptr :: int
  pg_size :: int

datatype disposition = Existing | Missing | Allocated

text \<open>\<open>PreparedPage.handle\<close>: none, the number of a hidden page, or an object of another class.\<close>

datatype handle = NoHandle | HiddenHandle nat | ForeignHandle

record prepared_page =
  pp_handle :: handle
  pp_disposition :: disposition
  pp_destination_ptr :: "int option"
  pp_destination_length :: "int option"
  pp_reservation_base :: "int option"
  pp_reservation_length :: "int option"

record reserved_page_view =
  rv_control_page :: control_page
  rv_prepared :: prepared_page

record hidden_page =
  hp_key :: cache_key
  hp_page :: page
  hp_unpinned :: bool
  hp_reference_released :: bool
  hp_released :: bool

text \<open>The arguments of \<open>batched_allocate_layer_pages\<close> and of the two commit calls.\<close>

record alloc_request =
  ar_shapes :: "int list list"
  ar_dtypes :: "dtype list"
  ar_batch_size :: int
  ar_num_layers :: int
  ar_fmt :: memory_format
  ar_busy_loop :: bool
  ar_valid_tokens :: "int list"
  ar_full_tokens :: int
  ar_eviction :: bool

datatype commit_request =
    CommitGroup0 "cache_key list" "(cache_key \<times> page) list"
  | CommitTwoGroups "cache_key list" "cache_key list" "(cache_key \<times> page) list"

text \<open>
  The calls to the environment.  \<open>Unpinned\<close> and \<open>RefDown\<close> carry whether the call returned;
  \<open>Allocate\<close> and \<open>PinMany\<close> carry what was obtained.
\<close>

datatype lc_event =
    Contains cache_key
  | CapacityCheck int
  | Reclaim int
  | Allocate alloc_request "page list"
  | PinMany "page list" bool
  | Unpinned page bool
  | RefDown page bool
  | Commit commit_request bool

record lc_env =
  le_contains :: "lc_event list \<Rightarrow> cache_key \<Rightarrow> bool res"
  le_capacity :: "lc_event list \<Rightarrow> int \<Rightarrow> bool res"
  le_reclaim :: "lc_event list \<Rightarrow> int \<Rightarrow> bool res"
  le_allocate :: "lc_event list \<Rightarrow> alloc_request \<Rightarrow> page list option res"
  le_pin :: "lc_event list \<Rightarrow> page list \<Rightarrow> bool res"
  le_unpin :: "lc_event list \<Rightarrow> page \<Rightarrow> exn option"
  le_ref_down :: "lc_event list \<Rightarrow> page \<Rightarrow> exn option"
  le_commit :: "lc_event list \<Rightarrow> commit_request \<Rightarrow> bool res"

text \<open>The lifecycle's mutable state: the hidden pages made so far, and the calls.\<close>

record lc_state =
  lc_handles :: "hidden_page list"
  lc_events :: "lc_event list"

section \<open>Calls on one page\<close>

definition do_unpin :: "lc_env \<Rightarrow> page \<Rightarrow> lc_event list \<Rightarrow> unit res \<times> lc_event list" where
  "do_unpin env p ev =
     (case le_unpin env ev p of
        Some e \<Rightarrow> (Inl e, ev @ [Unpinned p False])
      | None \<Rightarrow> (Inr (), ev @ [Unpinned p True]))"

definition do_ref_down :: "lc_env \<Rightarrow> page \<Rightarrow> lc_event list \<Rightarrow> unit res \<times> lc_event list" where
  "do_ref_down env p ev =
     (case le_ref_down env ev p of
        Some e \<Rightarrow> (Inl e, ev @ [RefDown p False])
      | None \<Rightarrow> (Inr (), ev @ [RefDown p True]))"

text \<open>
  \<open>_HiddenPage.release\<close>.  The flags are set one by one, after the call each stands for, so a
  call that raises leaves its flag unset and a later release tries it again.
\<close>

definition hp_release ::
  "lc_env \<Rightarrow> hidden_page \<Rightarrow> lc_event list \<Rightarrow> unit res \<times> hidden_page \<times> lc_event list" where
  "hp_release env h ev =
     (if hp_released h then (Inr (), h, ev)
      else case (if hp_unpinned h then (Inr (), ev) else do_unpin env (hp_page h) ev) of
        (Inl e, ev1) \<Rightarrow> (Inl e, h, ev1)
      | (Inr _, ev1) \<Rightarrow>
          let h1 = h\<lparr>hp_unpinned := True\<rparr> in
          (case (if hp_reference_released h1 then (Inr (), ev1)
                 else do_ref_down env (hp_page h1) ev1) of
             (Inl e, ev2) \<Rightarrow> (Inl e, h1, ev2)
           | (Inr _, ev2) \<Rightarrow>
               (Inr (), h1\<lparr>hp_reference_released := True, hp_released := True\<rparr>, ev2)))"

definition release_handle :: "lc_env \<Rightarrow> nat \<Rightarrow> lc_state \<Rightarrow> unit res \<times> lc_state" where
  "release_handle env n s =
     (if n < length (lc_handles s) then
        (case hp_release env (lc_handles s ! n) (lc_events s) of
           (r, h, ev) \<Rightarrow> (r, s\<lparr>lc_handles := (lc_handles s)[n := h], lc_events := ev\<rparr>))
      else (Inl AttributeError, s))"

text \<open>\<open>_release_unpinned\<close> and \<open>_release_allocated\<close>: the first exception ends the loop.\<close>

fun release_unpinned :: "lc_env \<Rightarrow> page list \<Rightarrow> lc_event list \<Rightarrow> unit res \<times> lc_event list" where
  "release_unpinned env [] ev = (Inr (), ev)"
| "release_unpinned env (p # ps) ev =
     (case do_ref_down env p ev of
        (Inl e, ev1) \<Rightarrow> (Inl e, ev1)
      | (Inr _, ev1) \<Rightarrow> release_unpinned env ps ev1)"

fun release_allocated ::
  "lc_env \<Rightarrow> bool \<Rightarrow> page list \<Rightarrow> lc_event list \<Rightarrow> unit res \<times> lc_event list" where
  "release_allocated env pinned [] ev = (Inr (), ev)"
| "release_allocated env pinned (p # ps) ev =
     (case (if pinned then do_unpin env p ev else (Inr (), ev)) of
        (Inl e, ev1) \<Rightarrow> (Inl e, ev1)
      | (Inr _, ev1) \<Rightarrow>
          (case do_ref_down env p ev1 of
             (Inl e, ev2) \<Rightarrow> (Inl e, ev2)
           | (Inr _, ev2) \<Rightarrow> release_allocated env pinned ps ev2))"

section \<open>Preparation\<close>

definition plain_prepared :: "disposition \<Rightarrow> prepared_page" where
  "plain_prepared d = \<lparr>pp_handle = NoHandle, pp_disposition = d, pp_destination_ptr = None,
     pp_destination_length = None, pp_reservation_base = None, pp_reservation_length = None\<rparr>"

text \<open>
  \<open>classify_pages\<close>: one lookup per key, in the order of the window; every position of
  \<open>results\<close> is written, and the positions of the missing pages are collected.
\<close>

fun classify_pages ::
  "lc_env \<Rightarrow> (nat \<times> cache_key) list \<Rightarrow> prepared_page option list \<Rightarrow> nat list \<Rightarrow> lc_event list \<Rightarrow>
   nat list res \<times> prepared_page option list \<times> lc_event list" where
  "classify_pages env [] results missing ev = (Inr missing, results, ev)"
| "classify_pages env ((index, key) # rest) results missing ev =
     (case le_contains env ev key of
        Inl e \<Rightarrow> (Inl e, results, ev @ [Contains key])
      | Inr found \<Rightarrow>
          let d = (if found then Existing else Missing) in
          classify_pages env rest (results[index := Some (plain_prepared d)])
            (if d = Missing then missing @ [index] else missing) (ev @ [Contains key]))"

text \<open>\<open>finalize_results\<close>\<close>

definition finalize_results :: "prepared_page option list \<Rightarrow> prepared_page list res" where
  "finalize_results results =
     (if None \<in> set results then
        Inl (RuntimeError ''remote-fill page preparation omitted an input page'')
      else Inr (map the results))"

definition requested_bytes :: "control_page list \<Rightarrow> nat list \<Rightarrow> int" where
  "requested_bytes pages missing = sum_list (map (\<lambda>i. cp_expected_bytes (pages ! i)) missing)"

text \<open>
  The capacity part of \<open>prepare_pages\<close>, between classification and allocation.  The first
  component says whether to go on to allocation (\<open>Inr True\<close>), or to return what is there
  (\<open>Inr False\<close>).  After a reclaim the pages are classified again.
\<close>

definition reserve_capacity ::
  "lifecycle \<Rightarrow> lc_env \<Rightarrow> control_page list \<Rightarrow> cache_key list \<Rightarrow> nat list \<Rightarrow>
   prepared_page option list \<Rightarrow> lc_event list \<Rightarrow>
   bool res \<times> nat list \<times> prepared_page option list \<times> lc_event list" where
  "reserve_capacity lc env pages keys missing results ev =
     (let requested = requested_bytes pages missing in
      if requested = 0 then (Inr True, missing, results, ev)
      else case le_capacity env ev requested of
        Inl e \<Rightarrow> (Inl e, missing, results, ev @ [CapacityCheck requested])
      | Inr True \<Rightarrow> (Inr True, missing, results, ev @ [CapacityCheck requested])
      | Inr False \<Rightarrow>
          let ev1 = ev @ [CapacityCheck requested] in
          if \<not> lc_has_reclaimer lc then (Inr False, missing, results, ev1)
          else (case le_reclaim env ev1 requested of
              Inl e \<Rightarrow> (Inl e, missing, results, ev1 @ [Reclaim requested])
            | Inr reclaimed \<Rightarrow>
                (case classify_pages env (enumerate 0 keys) results [] (ev1 @ [Reclaim requested]) of
                   (Inl e, results2, ev2) \<Rightarrow> (Inl e, missing, results2, ev2)
                 | (Inr missing2, results2, ev2) \<Rightarrow>
                     let requested2 = requested_bytes pages missing2 in
                     if \<not> reclaimed then (Inr False, missing2, results2, ev2)
                     else (case le_capacity env ev2 requested2 of
                         Inl e \<Rightarrow> (Inl e, missing2, results2, ev2 @ [CapacityCheck requested2])
                       | Inr ok \<Rightarrow> (Inr ok, missing2, results2, ev2 @ [CapacityCheck requested2])))))"

text \<open>The allocator request of one group's missing pages.\<close>

definition group_request ::
  "lifecycle \<Rightarrow> control_page list \<Rightarrow> int \<Rightarrow> nat list \<Rightarrow> alloc_request res" where
  "group_request lc pages kv_group indices =
     bindR (layout_group (lc_layout lc) kv_group) (\<lambda>gl.
     bindR (num_layers_for_group (lc_layout lc) kv_group) (\<lambda>layers.
       let shapes = page_shapes gl (dl_chunk_size (lc_layout lc)) in
       Inr \<lparr>ar_shapes = shapes,
            ar_dtypes = replicate (length shapes) (gl_dtype gl),
            ar_batch_size = int (length indices),
            ar_num_layers = layers,
            ar_fmt = gl_fmt gl,
            ar_busy_loop = False,
            ar_valid_tokens = map (\<lambda>i. cp_valid_tokens (pages ! i)) indices,
            ar_full_tokens = dl_chunk_size (lc_layout lc),
            ar_eviction = False\<rparr>))"

text \<open>
  The allocation loop over the negotiated groups.  \<open>allocated\<close> is the dictionary from window
  position to page; an allocation of the wrong length is given back at once.
\<close>

fun allocate_groups ::
  "lifecycle \<Rightarrow> lc_env \<Rightarrow> control_page list \<Rightarrow> nat list \<Rightarrow> int list \<Rightarrow> (nat \<times> page) list \<Rightarrow>
   lc_event list \<Rightarrow> unit res \<times> (nat \<times> page) list \<times> lc_event list" where
  "allocate_groups lc env pages missing [] allocated ev = (Inr (), allocated, ev)"
| "allocate_groups lc env pages missing (kv_group # groups) allocated ev =
     (let indices = filter (\<lambda>i. cp_kv_group (pages ! i) = kv_group) missing in
      if indices = [] then allocate_groups lc env pages missing groups allocated ev
      else case group_request lc pages kv_group indices of
        Inl e \<Rightarrow> (Inl e, allocated, ev)
      | Inr req \<Rightarrow>
          (case le_allocate env ev req of
             Inl e \<Rightarrow> (Inl e, allocated, ev @ [Allocate req []])
           | Inr None \<Rightarrow>
               (Inl (MemoryError ''remote-fill hidden page allocation failed''), allocated,
                ev @ [Allocate req []])
           | Inr (Some new_pages) \<Rightarrow>
               let ev1 = ev @ [Allocate req new_pages] in
               if length new_pages \<noteq> length indices then
                 (case release_unpinned env new_pages ev1 of
                    (Inl e, ev2) \<Rightarrow> (Inl e, allocated, ev2)
                  | (Inr _, ev2) \<Rightarrow>
                      (Inl (MemoryError ''remote-fill hidden page allocation failed''), allocated, ev2))
               else allocate_groups lc env pages missing groups
                      (AList.updates indices new_pages allocated) ev1))"

definition allocated_prepared :: "nat \<Rightarrow> page \<Rightarrow> prepared_page" where
  "allocated_prepared n p = \<lparr>pp_handle = HiddenHandle n, pp_disposition = Allocated,
     pp_destination_ptr = Some (pg_data_ptr p), pp_destination_length = Some (pg_size p),
     pp_reservation_base = Some (pg_data_ptr p), pp_reservation_length = Some (pg_size p)\<rparr>"

text \<open>
  The loop over \<open>allocated.items()\<close>: check the size, make the owner object, fill the result.
  The new owners are kept apart until the loop has ended: if it raises, no result refers to them.
\<close>

fun install_handles ::
  "control_page list \<Rightarrow> cache_key list \<Rightarrow> (nat \<times> page) list \<Rightarrow> hidden_page list \<Rightarrow>
   prepared_page option list \<Rightarrow> (hidden_page list \<times> prepared_page option list) res" where
  "install_handles pages keys [] handles results = Inr (handles, results)"
| "install_handles pages keys ((index, p) # rest) handles results =
     (if pg_size p \<noteq> cp_expected_bytes (pages ! index) then
        Inl (ValueError ''remote-fill allocation byte count mismatch'')
      else install_handles pages keys rest
        (handles @ [\<lparr>hp_key = keys ! index, hp_page = p, hp_unpinned = False,
                     hp_reference_released = False, hp_released = False\<rparr>])
        (results[index := Some (allocated_prepared (length handles) p)]))"

text \<open>Pin what was allocated: \<open>Inr pinned\<close>, or the exception (with nothing pinned).\<close>

definition pin_allocated ::
  "lc_env \<Rightarrow> page list \<Rightarrow> lc_event list \<Rightarrow> bool res \<times> lc_event list" where
  "pin_allocated env ps ev =
     (if ps = [] then (Inr False, ev)
      else case le_pin env ev ps of
        Inl e \<Rightarrow> (Inl e, ev @ [PinMany ps False])
      | Inr False \<Rightarrow> (Inl (MemoryError ''remote-fill hidden page pin failed''), ev @ [PinMany ps False])
      | Inr True \<Rightarrow> (Inr True, ev @ [PinMany ps True]))"

text \<open>\<open>except Exception: self._release_allocated(...); raise\<close>\<close>

definition abort_allocation ::
  "lc_env \<Rightarrow> bool \<Rightarrow> page list \<Rightarrow> exn \<Rightarrow> lc_event list \<Rightarrow> 'a res \<times> lc_event list" where
  "abort_allocation env pinned ps e ev =
     (case release_allocated env pinned ps ev of
        (Inl e2, ev2) \<Rightarrow> (Inl e2, ev2)
      | (Inr _, ev2) \<Rightarrow> (Inl e, ev2))"

definition allocate_missing ::
  "lifecycle \<Rightarrow> lc_env \<Rightarrow> control_page list \<Rightarrow> cache_key list \<Rightarrow> nat list \<Rightarrow>
   prepared_page option list \<Rightarrow> lc_state \<Rightarrow> prepared_page list res \<times> lc_state" where
  "allocate_missing lc env pages keys missing results s =
     (case allocate_groups lc env pages missing (lc_direct_groups lc) [] (lc_events s) of
        (Inl e, allocated, ev) \<Rightarrow>
          (case abort_allocation env False (map snd allocated) e ev of
             (r, ev2) \<Rightarrow> (r, s\<lparr>lc_events := ev2\<rparr>))
      | (Inr _, allocated, ev) \<Rightarrow>
          (case pin_allocated env (map snd allocated) ev of
             (Inl e, ev1) \<Rightarrow>
               (case abort_allocation env False (map snd allocated) e ev1 of
                  (r, ev2) \<Rightarrow> (r, s\<lparr>lc_events := ev2\<rparr>))
           | (Inr pinned, ev1) \<Rightarrow>
               (case bindR (install_handles pages keys allocated (lc_handles s) results)
                       (\<lambda>(handles, results2).
                          bindR (finalize_results results2) (\<lambda>prepared. Inr (handles, prepared))) of
                  Inl e \<Rightarrow>
                    (case abort_allocation env pinned (map snd allocated) e ev1 of
                       (r, ev2) \<Rightarrow> (r, s\<lparr>lc_events := ev2\<rparr>))
                | Inr (handles, prepared) \<Rightarrow>
                    (Inr prepared, s\<lparr>lc_handles := handles, lc_events := ev1\<rparr>))))"

definition prepare_pages ::
  "key_api \<Rightarrow> lifecycle \<Rightarrow> lc_env \<Rightarrow> control_page list \<Rightarrow> bool \<Rightarrow> lc_state \<Rightarrow>
   prepared_page list res \<times> lc_state" where
  "prepare_pages api lc env pages reserve_missing s =
     (case validate_window api lc pages of
        Inl e \<Rightarrow> (Inl e, s)
      | Inr keys \<Rightarrow>
          (case classify_pages env (enumerate 0 keys) (replicate (length pages) None) [] (lc_events s) of
             (Inl e, _, ev) \<Rightarrow> (Inl e, s\<lparr>lc_events := ev\<rparr>)
           | (Inr missing, results, ev) \<Rightarrow>
               if \<not> reserve_missing then (finalize_results results, s\<lparr>lc_events := ev\<rparr>)
               else (case reserve_capacity lc env pages keys missing results ev of
                   (Inl e, _, _, ev2) \<Rightarrow> (Inl e, s\<lparr>lc_events := ev2\<rparr>)
                 | (Inr False, _, results2, ev2) \<Rightarrow>
                     (finalize_results results2, s\<lparr>lc_events := ev2\<rparr>)
                 | (Inr True, missing2, results2, ev2) \<Rightarrow>
                     allocate_missing lc env pages keys missing2 results2 (s\<lparr>lc_events := ev2\<rparr>))))"

section \<open>Release\<close>

text \<open>
  The loop shared by \<open>release_prepared_pages\<close> and \<open>release_pages\<close>: allocated pages only;
  a foreign handle is counted and reported after the loop, an exception of a release ends it.
\<close>

fun release_loop :: "lc_env \<Rightarrow> prepared_page list \<Rightarrow> nat \<Rightarrow> lc_state \<Rightarrow> nat res \<times> lc_state" where
  "release_loop env [] invalid s = (Inr invalid, s)"
| "release_loop env (prepared # rest) invalid s =
     (if pp_disposition prepared \<noteq> Allocated then release_loop env rest invalid s
      else case pp_handle prepared of
        HiddenHandle n \<Rightarrow>
          (case release_handle env n s of
             (Inl e, s1) \<Rightarrow> (Inl e, s1)
           | (Inr _, s1) \<Rightarrow> release_loop env rest invalid s1)
      | _ \<Rightarrow> release_loop env rest (invalid + 1) s)"

definition release_prepared_pages ::
  "lc_env \<Rightarrow> prepared_page list \<Rightarrow> lc_state \<Rightarrow> unit res \<times> lc_state" where
  "release_prepared_pages env pages s =
     (case release_loop env pages 0 s of
        (Inl e, s1) \<Rightarrow> (Inl e, s1)
      | (Inr invalid, s1) \<Rightarrow>
          (if invalid \<noteq> 0 then
             Inl (TypeError ''remote-fill prepared pages contain invalid allocated handles'')
           else Inr (), s1))"

definition release_pages ::
  "lc_env \<Rightarrow> reserved_page_view list \<Rightarrow> lc_state \<Rightarrow> unit res \<times> lc_state" where
  "release_pages env views s =
     (case release_loop env (map rv_prepared views) 0 s of
        (Inl e, s1) \<Rightarrow> (Inl e, s1)
      | (Inr invalid, s1) \<Rightarrow>
          (if invalid \<noteq> 0 then
             Inl (TypeError ''remote-fill reserved pages contain invalid allocated handles'')
           else Inr (), s1))"

section \<open>Publication\<close>

text \<open>
  The loop of \<open>commit_pages\<close> over the reserved views: the pages to publish by key (a dictionary
  in insertion order) and their owners.
\<close>

fun collect_ready ::
  "lifecycle \<Rightarrow> (int \<times> cache_key list) list \<Rightarrow> hidden_page list \<Rightarrow> reserved_page_view list \<Rightarrow>
   (cache_key \<times> page) list \<Rightarrow> nat list \<Rightarrow> ((cache_key \<times> page) list \<times> nat list) res" where
  "collect_ready lc required heap [] ready handles = Inr (ready, handles)"
| "collect_ready lc required heap (view # views) ready handles =
     (let control = rv_control_page view; kv_group = cp_kv_group control;
          chunk_index = cp_chunk_index control
      in if pp_disposition (rv_prepared view) \<noteq> Allocated then
           collect_ready lc required heap views ready handles
         else case pp_handle (rv_prepared view) of
           HiddenHandle n \<Rightarrow>
             if length heap \<le> n then Inl AttributeError
             else if kv_group \<notin> set (lc_direct_groups lc) then
               Inl (ValueError ''remote-fill ready reservation group is invalid'')
             else (case map_of required kv_group of
                 None \<Rightarrow> Inl KeyError
               | Some group_keys \<Rightarrow>
                   if chunk_index < 0 \<or> int (length group_keys) \<le> chunk_index then
                     Inl (ValueError ''remote-fill ready reservation chunk is out of range'')
                   else let key = group_keys ! nat chunk_index in
                     if key \<noteq> hp_key (heap ! n) \<or> key \<in> set (map fst ready) then
                       Inl (ValueError ''remote-fill ready reservation identity mismatch'')
                     else collect_ready lc required heap views
                            (ready @ [(key, hp_page (heap ! n))]) (handles @ [n]))
         | _ \<Rightarrow> Inl (TypeError ''remote-fill allocated page has an invalid handle''))"

definition commit_call ::
  "lifecycle \<Rightarrow> (int \<times> cache_key list) list \<Rightarrow> (cache_key \<times> page) list \<Rightarrow> commit_request res" where
  "commit_call lc required ready =
     (if lc_direct_groups lc = [0] then
        (case map_of required 0 of
           None \<Rightarrow> Inl KeyError
         | Some k0 \<Rightarrow> Inr (CommitGroup0 k0 ready))
      else (case (map_of required 0, map_of required 1) of
          (Some k0, Some k1) \<Rightarrow> Inr (CommitTwoGroups k0 k1 ready)
        | _ \<Rightarrow> Inl KeyError))"

text \<open>\<open>for handle in handles: handle.release()\<close>\<close>

fun release_handles :: "lc_env \<Rightarrow> nat list \<Rightarrow> lc_state \<Rightarrow> unit res \<times> lc_state" where
  "release_handles env [] s = (Inr (), s)"
| "release_handles env (n # ns) s =
     (case release_handle env n s of
        (Inl e, s1) \<Rightarrow> (Inl e, s1)
      | (Inr _, s1) \<Rightarrow> release_handles env ns s1)"

definition commit_pages ::
  "key_api \<Rightarrow> lifecycle \<Rightarrow> lc_env \<Rightarrow> control_page list \<Rightarrow> reserved_page_view list \<Rightarrow>
   finish_request \<Rightarrow> lc_state \<Rightarrow> bool res \<times> lc_state" where
  "commit_pages api lc env required_pages views finish s =
     (case bindR (validate_required_prefix api lc required_pages finish) (\<lambda>required.
             bindR (collect_ready lc required (lc_handles s) views [] []) (\<lambda>(ready, handles).
             bindR (commit_call lc required ready) (\<lambda>call. Inr (call, handles)))) of
        Inl e \<Rightarrow> (Inl e, s)
      | Inr (call, handles) \<Rightarrow>
          (case le_commit env (lc_events s) call of
             Inl LayerPageAdmissionRollbackError \<Rightarrow>
               (Inl (UnsafePageLifecycleError ''remote-fill LocalCPU admission rollback was incomplete''),
                s\<lparr>lc_events := lc_events s @ [Commit call False]\<rparr>)
           | Inl e \<Rightarrow> (Inl e, s\<lparr>lc_events := lc_events s @ [Commit call False]\<rparr>)
           | Inr False \<Rightarrow> (Inr False, s\<lparr>lc_events := lc_events s @ [Commit call False]\<rparr>)
           | Inr True \<Rightarrow>
               (case release_handles env handles (s\<lparr>lc_events := lc_events s @ [Commit call True]\<rparr>) of
                  (Inl _, s1) \<Rightarrow>
                    (Inl (UnsafePageLifecycleError
                       ''remote-fill reservation ownership transfer failed after publish''), s1)
                | (Inr _, s1) \<Rightarrow> (Inr True, s1))))"

end
