(* ===== verification/PageAccounting.thy ===== *)
theory PageAccounting
  imports PageLifecycle
begin

text \<open>
  Accounting of the references and pins of the decoder's hidden pages.  The calls recorded by
  \<open>PageLifecycle\<close> say which references and pins were obtained and which were given back; the
  owner objects say which ones are still held.  The lemmas show, operation by operation, that
  nothing is given back that was not obtained (\<open>no_worse\<close>), and that nothing is lost either when
  the pages' own methods do not raise (\<open>no_change\<close>).
\<close>


section \<open>Reference and pin accounting\<close>

text \<open>The references that one call obtains or returns, and the pins it sets or removes.\<close>

fun refs_obtained :: "lc_event \<Rightarrow> page multiset" where
  "refs_obtained (Allocate req ps) = mset ps"
| "refs_obtained _ = {#}"

fun refs_returned :: "lc_event \<Rightarrow> page multiset" where
  "refs_returned (RefDown p True) = {#p#}"
| "refs_returned _ = {#}"

fun pins_obtained :: "lc_event \<Rightarrow> page multiset" where
  "pins_obtained (PinMany ps True) = mset ps"
| "pins_obtained _ = {#}"

fun pins_returned :: "lc_event \<Rightarrow> page multiset" where
  "pins_returned (Unpinned p True) = {#p#}"
| "pins_returned _ = {#}"

text \<open>The balance of a page: how many of its references (pins) are still out.\<close>

definition tally :: "(lc_event \<Rightarrow> page multiset) \<Rightarrow> lc_event list \<Rightarrow> page multiset" where
  "tally f ev = sum_list (map f ev)"

lemma tally_simps [simp]:
  "tally f [] = {#}"
  "tally f (ev @ ev') = tally f ev + tally f ev'"
  "tally f [e] = f e"
  by (simp_all add: tally_def)

definition ref_balance :: "lc_event list \<Rightarrow> page \<Rightarrow> int" where
  "ref_balance ev p = int (count (tally refs_obtained ev) p) - int (count (tally refs_returned ev) p)"

definition pin_balance :: "lc_event list \<Rightarrow> page \<Rightarrow> int" where
  "pin_balance ev p = int (count (tally pins_obtained ev) p) - int (count (tally pins_returned ev) p)"

lemmas balance_defs = ref_balance_def pin_balance_def

lemma balance_append [simp]:
  "ref_balance (ev @ ev') p = ref_balance ev p + ref_balance ev' p"
  "pin_balance (ev @ ev') p = pin_balance ev p + pin_balance ev' p"
  "ref_balance (e # e' # ev) p = ref_balance [e] p + ref_balance (e' # ev) p"
  "pin_balance (e # e' # ev) p = pin_balance [e] p + pin_balance (e' # ev) p"
  "ref_balance [] p = 0" "pin_balance [] p = 0"
  by (simp_all add: balance_defs tally_def)

lemma event_balance [simp]:
  "ref_balance [Contains k] p = 0" "pin_balance [Contains k] p = 0"
  "ref_balance [CapacityCheck n] p = 0" "pin_balance [CapacityCheck n] p = 0"
  "ref_balance [Reclaim n] p = 0" "pin_balance [Reclaim n] p = 0"
  "ref_balance [Allocate req ps] p = int (count (mset ps) p)" "pin_balance [Allocate req ps] p = 0"
  "ref_balance [PinMany ps b] p = 0"
  "pin_balance [PinMany ps b] p = (if b then int (count (mset ps) p) else 0)"
  "ref_balance [Unpinned q b] p = 0"
  "pin_balance [RefDown q b] p = 0"
  "ref_balance [Commit call b] p = 0" "pin_balance [Commit call b] p = 0"
  by (cases b; simp add: balance_defs)+

definition one :: "page \<Rightarrow> page \<Rightarrow> int" where
  "one q p = (if p = q then 1 else 0)"

text \<open>The pages in an environment whose pages never raise.\<close>

definition calm :: "lc_env \<Rightarrow> lc_env" where
  "calm env = env\<lparr>le_unpin := (\<lambda>_ _. None), le_ref_down := (\<lambda>_ _. None)\<rparr>"

lemma do_ref_down_balance:
  assumes "do_ref_down env q ev = (r, ev')"
  shows "ref_balance ev' p = ref_balance ev p - (case r of Inr _ \<Rightarrow> one q p | Inl _ \<Rightarrow> 0)"
    and "pin_balance ev' p = pin_balance ev p"
  using assms by (auto simp: do_ref_down_def balance_defs one_def split: option.splits)

lemma do_unpin_balance:
  assumes "do_unpin env q ev = (r, ev')"
  shows "pin_balance ev' p = pin_balance ev p - (case r of Inr _ \<Rightarrow> one q p | Inl _ \<Rightarrow> 0)"
    and "ref_balance ev' p = ref_balance ev p"
  using assms by (auto simp: do_unpin_def balance_defs one_def split: option.splits)

lemma do_calm:
  "\<exists>ev'. do_ref_down (calm env) q ev = (Inr (), ev')"
  "\<exists>ev'. do_unpin (calm env) q ev = (Inr (), ev')"
  by (simp_all add: do_ref_down_def do_unpin_def calm_def)

lemma one_nonneg: "0 \<le> one q p"
  by (simp add: one_def)

text \<open>The two release loops return at most one reference per page, and all of them when calm.\<close>

lemma release_unpinned_balance:
  assumes "release_unpinned env ps ev = (r, ev')"
  shows "ref_balance ev' p \<ge> ref_balance ev p - int (count (mset ps) p) \<and>
         pin_balance ev' p = pin_balance ev p"
  using assms
proof (induction ps arbitrary: ev)
  case Nil
  then show ?case by simp
next
  case (Cons q ps)
  obtain r1 ev1 where q: "do_ref_down env q ev = (r1, ev1)" by fastforce
  note b = do_ref_down_balance [OF q, of p]
  show ?case
  proof (cases r1)
    case (Inl e)
    then have "ev' = ev1" using Cons.prems q by simp
    then show ?thesis using b Inl by simp
  next
    case (Inr u)
    then have "release_unpinned env ps ev1 = (r, ev')" using Cons.prems q by simp
    from Cons.IH [OF this] show ?thesis using b Inr by (auto simp: one_def split: if_splits)
  qed
qed

lemma release_unpinned_calm:
  "\<exists>ev'. release_unpinned (calm env) ps ev = (Inr (), ev') \<and>
     (\<forall>p. ref_balance ev' p = ref_balance ev p - int (count (mset ps) p))"
proof (induction ps arbitrary: ev)
  case Nil
  then show ?case by simp
next
  case (Cons q ps)
  obtain ev1 where q: "do_ref_down (calm env) q ev = (Inr (), ev1)" using do_calm by blast
  obtain ev' where "release_unpinned (calm env) ps ev1 = (Inr (), ev')"
    "\<forall>p. ref_balance ev' p = ref_balance ev1 p - int (count (mset ps) p)" using Cons.IH by blast
  with q do_ref_down_balance(1) [OF q] show ?case by (auto simp: one_def)
qed

lemma maybe_unpin_balance:
  assumes "(if pinned then do_unpin env q ev else (Inr (), ev)) = (r1, ev1)"
  shows "ref_balance ev1 p = ref_balance ev p"
    and "pin_balance ev1 p =
      pin_balance ev p - (case r1 of Inr _ \<Rightarrow> if pinned then one q p else 0 | Inl _ \<Rightarrow> 0)"
  using assms do_unpin_balance [of env q ev r1 ev1] by (auto split: if_splits)

lemma release_allocated_balance:
  assumes "release_allocated env pinned ps ev = (r, ev')"
  shows "ref_balance ev' p \<ge> ref_balance ev p - int (count (mset ps) p) \<and>
         pin_balance ev' p \<ge> pin_balance ev p - (if pinned then int (count (mset ps) p) else 0)"
  using assms
proof (induction ps arbitrary: ev)
  case Nil
  then show ?case by simp
next
  case (Cons q ps)
  obtain r1 ev1 where q: "(if pinned then do_unpin env q ev else (Inr (), ev)) = (r1, ev1)"
    by fastforce
  obtain r2 ev2 where q2: "do_ref_down env q ev1 = (r2, ev2)" by fastforce
  note b1 = maybe_unpin_balance [OF q, of p] and b2 = do_ref_down_balance [OF q2, of p]
  show ?case
  proof (cases r1)
    case (Inl e)
    then have "ev' = ev1" using Cons.prems q by simp
    then show ?thesis using b1 Inl by simp
  next
    case r1: (Inr u)
    show ?thesis
    proof (cases r2)
      case (Inl e)
      then have "ev' = ev2" using Cons.prems q q2 r1 by simp
      then show ?thesis using b1 b2 r1 Inl by (simp add: one_def)
    next
      case (Inr u2)
      then have "release_allocated env pinned ps ev2 = (r, ev')" using Cons.prems q q2 r1 by simp
      from Cons.IH [OF this] show ?thesis using b1 b2 r1 Inr by (auto simp: one_def split: if_splits)
    qed
  qed
qed

lemma release_allocated_calm:
  "\<exists>ev'. release_allocated (calm env) pinned ps ev = (Inr (), ev') \<and>
     (\<forall>p. ref_balance ev' p = ref_balance ev p - int (count (mset ps) p)) \<and>
     (\<forall>p. pin_balance ev' p = pin_balance ev p - (if pinned then int (count (mset ps) p) else 0))"
proof (induction ps arbitrary: ev)
  case Nil
  then show ?case by simp
next
  case (Cons q ps)
  have "\<exists>ev1. (if pinned then do_unpin (calm env) q ev else (Inr (), ev)) = (Inr (), ev1)"
    using do_calm(2) by auto
  then obtain ev1 where q: "(if pinned then do_unpin (calm env) q ev else (Inr (), ev)) = (Inr (), ev1)"
    by blast
  obtain ev2 where q2: "do_ref_down (calm env) q ev1 = (Inr (), ev2)" using do_calm(1) by blast
  obtain ev' where r: "release_allocated (calm env) pinned ps ev2 = (Inr (), ev')"
    and ih: "\<And>p. ref_balance ev' p = ref_balance ev2 p - int (count (mset ps) p)"
    "\<And>p. pin_balance ev' p = pin_balance ev2 p - (if pinned then int (count (mset ps) p) else 0)"
    using Cons.IH [of ev2] by auto
  have "release_allocated (calm env) pinned (q # ps) ev = (Inr (), ev')"
    using q q2 r by simp
  moreover have "ref_balance ev' p = ref_balance ev p - int (count (mset (q # ps)) p)" for p
    using ih(1) [of p] maybe_unpin_balance [OF q, of p] do_ref_down_balance [OF q2, of p]
    by (simp add: one_def)
  moreover have "pin_balance ev' p =
      pin_balance ev p - (if pinned then int (count (mset (q # ps)) p) else 0)" for p
    using ih(2) [of p] maybe_unpin_balance [OF q, of p] do_ref_down_balance [OF q2, of p]
    by (simp add: one_def)
  ultimately show ?case by blast
qed

text \<open>The allocation loop.\<close>

definition vals :: "('k \<times> page) list \<Rightarrow> page \<Rightarrow> int" where
  "vals al p = int (count (mset (map snd al)) p)"

lemma vals_simps [simp]:
  "vals [] p = 0" "vals (kv # al) p = one (snd kv) p + vals al p"
  "vals (al @ al') p = vals al p + vals al' p"
  by (simp_all add: vals_def one_def)

lemma vals_update: "vals (AList.update k v al) p \<le> one v p + vals al p"
  by (induction al) (auto simp: one_def)

lemma vals_updates:
  "vals (AList.updates ks vs al) p \<le> int (count (mset vs) p) + vals al p"
proof (induction ks arbitrary: vs al)
  case Nil
  then show ?case by simp
next
  case (Cons k ks)
  show ?case
  proof (cases vs)
    case Nil
    then show ?thesis by simp
  next
    case (Cons v vs')
    have "vals (AList.updates ks vs' (AList.update k v al)) p
        \<le> int (count (mset vs') p) + (one v p + vals al p)"
      using Cons.IH [of vs' "AList.update k v al"] vals_update [of k v al p] by linarith
    then show ?thesis by (simp add: Cons one_def split: if_splits)
  qed
qed

text \<open>One round of the loop: nothing to do, a failure, or one more group allocated.\<close>

definition missing_of :: "control_page list \<Rightarrow> nat list \<Rightarrow> int \<Rightarrow> nat list" where
  "missing_of pages missing g = filter (\<lambda>i. cp_kv_group (pages ! i) = g) missing"

lemma allocate_groups_round:
  assumes "allocate_groups lc env pages missing (g # groups) al ev = (r, al', ev')"
  obtains
    (skip) "missing_of pages missing g = []"
      "allocate_groups lc env pages missing groups al ev = (r, al', ev')"
  | (fail) e where "r = Inl e" "al' = al"
      "\<And>p. ref_balance ev p \<le> ref_balance ev' p" "\<And>p. pin_balance ev' p = pin_balance ev p"
      "\<And>env' p. env = calm env' \<Longrightarrow> ref_balance ev' p = ref_balance ev p"
  | (grow) req ps where "length ps = length (missing_of pages missing g)"
      "allocate_groups lc env pages missing groups
         (AList.updates (missing_of pages missing g) ps al) (ev @ [Allocate req ps]) = (r, al', ev')"
proof (cases "missing_of pages missing g = []")
  case True
  then show ?thesis using assms skip by (simp add: missing_of_def)
next
  case ix: False
  show ?thesis
  proof (cases "group_request lc pages g (missing_of pages missing g)")
    case (Inl e)
    then show ?thesis using assms ix fail [of e] by (simp add: missing_of_def)
  next
    case req: (Inr req)
    show ?thesis
    proof (cases "\<exists>ps. le_allocate env ev req = Inr (Some ps)")
      case False
      then have "(\<exists>e. le_allocate env ev req = Inl e) \<or> le_allocate env ev req = Inr None"
        by (metis old.sum.exhaust option.exhaust)
      then have "(\<exists>e. r = Inl e) \<and> al' = al \<and> ev' = ev @ [Allocate req []]"
        using assms ix req by (elim disjE exE) (auto simp: missing_of_def)
      then show ?thesis using fail by auto
    next
      case True
      then obtain ps where ps: "le_allocate env ev req = Inr (Some ps)" by blast
      show ?thesis
      proof (cases "length ps = length (missing_of pages missing g)")
        case True
        then show ?thesis using assms ix req ps grow [of ps req]
          by (simp add: missing_of_def Let_def)
      next
        case False
        obtain r2 ev2 where ru: "release_unpinned env ps (ev @ [Allocate req ps]) = (r2, ev2)"
          by fastforce
        have res: "(\<exists>e. r = Inl e) \<and> al' = al \<and> ev' = ev2"
        proof (cases r2)
          case (Inl e)
          then show ?thesis using assms ix req ps False ru by (auto simp: missing_of_def)
        next
          case (Inr u)
          then show ?thesis using assms ix req ps False ru by (auto simp: missing_of_def)
        qed
        have quiet: "ref_balance ev2 p = ref_balance ev p" if "env = calm env'" for env' p
          using release_unpinned_calm [of env' ps "ev @ [Allocate req ps]"] ru that by auto
        have any: "ref_balance ev p \<le> ref_balance ev2 p" "pin_balance ev2 p = pin_balance ev p"
          for p using release_unpinned_balance [OF ru, of p] by simp_all
        from res obtain e where e: "r = Inl e" "al' = al" and ev': "ev' = ev2" by blast
        show ?thesis by (rule fail [OF e]) (use any quiet in \<open>simp_all add: ev'\<close>)
      qed
    qed
  qed
qed

lemma allocate_groups_balance:
  assumes "allocate_groups lc env pages missing groups al ev = (r, al', ev')"
  shows "vals al' p - vals al p \<le> ref_balance ev' p - ref_balance ev p \<and>
         pin_balance ev' p = pin_balance ev p"
  using assms
proof (induction groups arbitrary: al ev)
  case Nil
  then show ?case by simp
next
  case (Cons g groups)
  from Cons.prems show ?case
  proof (cases rule: allocate_groups_round)
    case skip
    then show ?thesis using Cons.IH by blast
  next
    case fail
    then show ?thesis by simp
  next
    case (grow req ps)
    from Cons.IH [OF grow(2)] show ?thesis
      using vals_updates [of "missing_of pages missing g" ps al p] by simp
  qed
qed

text \<open>
  With pairwise different groups no dictionary entry is overwritten: the allocated positions are
  the missing positions of the groups, each once, and every allocated page is in the dictionary.
\<close>

definition fresh_for :: "control_page list \<Rightarrow> nat list \<Rightarrow> int list \<Rightarrow> (nat \<times> page) list \<Rightarrow> bool" where
  "fresh_for pages missing groups al \<longleftrightarrow> distinct (map fst al) \<and>
     (\<forall>i\<in>set missing. cp_kv_group (pages ! i) \<in> set groups \<longrightarrow> i \<notin> fst ` set al)"

lemma fresh_for_update:
  assumes "fresh_for pages missing (g # groups) al" "distinct (g # groups)" "distinct missing"
    "length ps = length (missing_of pages missing g)"
  shows "AList.updates (missing_of pages missing g) ps al = al @ zip (missing_of pages missing g) ps"
    and "fresh_for pages missing groups (al @ zip (missing_of pages missing g) ps)"
proof -
  let ?ix = "missing_of pages missing g"
  have ix: "distinct ?ix" using assms(3) by (simp add: missing_of_def)
  have disj: "set ?ix \<inter> fst ` set al = {}"
    using assms(1) by (force simp: fresh_for_def missing_of_def)
  show "AList.updates ?ix ps al = al @ zip ?ix ps"
    using assms(4) ix disj by (intro alist_updates_new) simp_all
  have fst: "map fst (zip ?ix ps) = ?ix" using assms(4) by simp
  then have fst_set: "fst ` set (zip ?ix ps) = set ?ix" by (metis set_map)
  have "distinct (map fst (al @ zip ?ix ps))"
    using assms(1) ix fst disj by (auto simp: fresh_for_def)
  moreover have "i \<notin> fst ` set (al @ zip ?ix ps)"
    if "i \<in> set missing" "cp_kv_group (pages ! i) \<in> set groups" for i
  proof -
    have "i \<notin> set ?ix" using that(2) assms(2) by (auto simp: missing_of_def)
    moreover have "i \<notin> fst ` set al" using that assms(1) by (simp add: fresh_for_def)
    ultimately show ?thesis using fst_set by (simp add: image_Un)
  qed
  ultimately show "fresh_for pages missing groups (al @ zip ?ix ps)"
    unfolding fresh_for_def by blast
qed

lemma allocate_groups_shape:
  assumes "allocate_groups lc env pages missing groups al ev = (r, al', ev')"
    "fresh_for pages missing groups al" "distinct groups" "distinct missing"
  shows "distinct (map fst al')"
    and "r = Inr () \<Longrightarrow> fst ` set al' = fst ` set al \<union> {i \<in> set missing. cp_kv_group (pages ! i) \<in> set groups}"
    and "env = calm env' \<Longrightarrow> vals al' p - vals al p = ref_balance ev' p - ref_balance ev p"
proof -
  have "distinct (map fst al') \<and>
     (r = Inr () \<longrightarrow> fst ` set al' = fst ` set al \<union> {i \<in> set missing. cp_kv_group (pages ! i) \<in> set groups}) \<and>
     (\<forall>env'. env = calm env' \<longrightarrow> vals al' p - vals al p = ref_balance ev' p - ref_balance ev p)"
    using assms
  proof (induction groups arbitrary: al ev)
    case Nil
    then show ?case by (auto simp: fresh_for_def)
  next
    case (Cons g groups)
    let ?ix = "missing_of pages missing g"
    from Cons.prems(1) show ?case
    proof (cases rule: allocate_groups_round)
      case skip
      then have "{i \<in> set missing. cp_kv_group (pages ! i) \<in> set (g # groups)}
          = {i \<in> set missing. cp_kv_group (pages ! i) \<in> set groups}"
        by (auto simp: missing_of_def filter_empty_conv)
      moreover have "fresh_for pages missing groups al" using Cons.prems(2) by (auto simp: fresh_for_def)
      ultimately show ?thesis using Cons.IH [OF skip(2)] Cons.prems by auto
    next
      case fail
      then show ?thesis using Cons.prems by (auto simp: fresh_for_def)
    next
      case (grow req ps)
      note u = fresh_for_update [OF Cons.prems(2-4) grow(1)]
      have "fst ` set (zip ?ix ps) = set ?ix" using grow(1) by (metis map_fst_zip set_map)
      moreover have "{i \<in> set missing. cp_kv_group (pages ! i) \<in> set (g # groups)}
          = set ?ix \<union> {i \<in> set missing. cp_kv_group (pages ! i) \<in> set groups}"
        by (auto simp: missing_of_def)
      moreover have "vals (zip ?ix ps) p = int (count (mset ps) p)"
        using grow(1) by (simp add: vals_def)
      ultimately show ?thesis
        using Cons.IH [OF grow(2) [unfolded u(1)] u(2)] Cons.prems
        by (auto simp: image_Un Un_assoc)
    qed
  qed
  then show "distinct (map fst al')"
    and "r = Inr () \<Longrightarrow> fst ` set al' = fst ` set al \<union> {i \<in> set missing. cp_kv_group (pages ! i) \<in> set groups}"
    and "env = calm env' \<Longrightarrow> vals al' p - vals al p = ref_balance ev' p - ref_balance ev p"
    by blast+
qed

text \<open>What the hidden pages still hold.\<close>

definition refs_held :: "hidden_page list \<Rightarrow> page multiset" where
  "refs_held hs = mset (map hp_page (filter (\<lambda>h. \<not> hp_reference_released h) hs))"

definition pins_held :: "hidden_page list \<Rightarrow> page multiset" where
  "pins_held hs = mset (map hp_page (filter (\<lambda>h. \<not> hp_unpinned h) hs))"

text \<open>
  The slack of a page: the references (pins) that are out and that no hidden page holds.  No
  operation ever makes it smaller; that it grows means that a reference is lost.
\<close>

definition ref_slack :: "lc_state \<Rightarrow> page \<Rightarrow> int" where
  "ref_slack s p = ref_balance (lc_events s) p - int (count (refs_held (lc_handles s)) p)"

definition pin_slack :: "lc_state \<Rightarrow> page \<Rightarrow> int" where
  "pin_slack s p = pin_balance (lc_events s) p - int (count (pins_held (lc_handles s)) p)"

definition no_worse :: "lc_state \<Rightarrow> lc_state \<Rightarrow> bool" where
  "no_worse s s' \<longleftrightarrow> (\<forall>p. ref_slack s p \<le> ref_slack s' p \<and> pin_slack s p \<le> pin_slack s' p)"

definition no_change :: "lc_state \<Rightarrow> lc_state \<Rightarrow> bool" where
  "no_change s s' \<longleftrightarrow> (\<forall>p. ref_slack s' p = ref_slack s p \<and> pin_slack s' p = pin_slack s p)"

lemma no_worse_refl [simp]: "no_worse s s" and no_change_refl [simp]: "no_change s s"
  by (simp_all add: no_worse_def no_change_def)

lemma no_worse_trans [trans]: "no_worse s s' \<Longrightarrow> no_worse s' s'' \<Longrightarrow> no_worse s s''"
  by (auto simp: no_worse_def intro: order_trans)

lemma no_change_trans [trans]: "no_change s s' \<Longrightarrow> no_change s' s'' \<Longrightarrow> no_change s s''"
  by (auto simp: no_change_def)

lemma no_change_worse: "no_change s s' \<Longrightarrow> no_worse s s'"
  by (simp add: no_change_def no_worse_def)

text \<open>Releasing a hidden page gives back exactly what its flags say, whatever raises.\<close>

lemma hp_release_balance:
  assumes "hp_release env h ev = (r, h', ev')"
  shows "hp_page h' = hp_page h"
    and "ref_balance ev' p - (if hp_reference_released h' then 0 else one (hp_page h) p) =
         ref_balance ev p - (if hp_reference_released h then 0 else one (hp_page h) p)"
    and "pin_balance ev' p - (if hp_unpinned h' then 0 else one (hp_page h) p) =
         pin_balance ev p - (if hp_unpinned h then 0 else one (hp_page h) p)"
proof -
  have "hp_page h' = hp_page h \<and>
    ref_balance ev' p - (if hp_reference_released h' then 0 else one (hp_page h) p) =
         ref_balance ev p - (if hp_reference_released h then 0 else one (hp_page h) p) \<and>
    pin_balance ev' p - (if hp_unpinned h' then 0 else one (hp_page h) p) =
         pin_balance ev p - (if hp_unpinned h then 0 else one (hp_page h) p)"
  proof (cases "hp_released h")
    case True
    then show ?thesis using assms by (simp add: hp_release_def)
  next
    case False
    obtain r1 ev1 where q: "(if hp_unpinned h then (Inr (), ev) else do_unpin env (hp_page h) ev) = (r1, ev1)"
      by fastforce
    obtain r2 ev2 where q2: "(if hp_reference_released h then (Inr (), ev1)
        else do_ref_down env (hp_page h) ev1) = (r2, ev2)"
      by fastforce
    have b1: "ref_balance ev1 p = ref_balance ev p" "pin_balance ev1 p = pin_balance ev p
        - (case r1 of Inr _ \<Rightarrow> if hp_unpinned h then 0 else one (hp_page h) p | Inl _ \<Rightarrow> 0)"
      using q do_unpin_balance [of env "hp_page h" ev r1 ev1] by (auto split: if_splits)
    have b2: "pin_balance ev2 p = pin_balance ev1 p" "ref_balance ev2 p = ref_balance ev1 p
        - (case r2 of Inr _ \<Rightarrow> if hp_reference_released h then 0 else one (hp_page h) p | Inl _ \<Rightarrow> 0)"
      using q2 do_ref_down_balance [of env "hp_page h" ev1 r2 ev2] by (auto split: if_splits)
    show ?thesis
      using assms False q q2 b1 b2
      by (cases r1; cases r2) (auto simp: hp_release_def Let_def split: if_splits)
  qed
  then show "hp_page h' = hp_page h"
    and "ref_balance ev' p - (if hp_reference_released h' then 0 else one (hp_page h) p) =
         ref_balance ev p - (if hp_reference_released h then 0 else one (hp_page h) p)"
    and "pin_balance ev' p - (if hp_unpinned h' then 0 else one (hp_page h) p) =
         pin_balance ev p - (if hp_unpinned h then 0 else one (hp_page h) p)"
    by blast+
qed

lemma count_held_update:
  assumes "n < length hs" "hp_page h' = hp_page (hs ! n)"
  shows "int (count (mset (map hp_page (filter P (hs[n := h'])))) p)
    = int (count (mset (map hp_page (filter P hs))) p)
      - (if P (hs ! n) then one (hp_page (hs ! n)) p else 0)
      + (if P h' then one (hp_page (hs ! n)) p else 0)"
proof -
  have hs: "hs = take n hs @ hs ! n # drop (Suc n) hs" using assms by (simp add: id_take_nth_drop)
  have upd: "hs[n := h'] = take n hs @ h' # drop (Suc n) hs"
    using assms by (simp add: upd_conv_take_nth_drop)
  have split: "int (count (mset (map hp_page (filter P (xs @ x # ys)))) p)
      = int (count (mset (map hp_page (filter P xs))) p)
        + (if P x then one (hp_page x) p else 0)
        + int (count (mset (map hp_page (filter P ys))) p)" for xs x ys
    by (simp add: one_def)
  show ?thesis
    using split [of "take n hs" "hs ! n" "drop (Suc n) hs"]
      split [of "take n hs" h' "drop (Suc n) hs"] hs upd assms(2) by simp
qed

lemma release_handle_slack: "no_change s (snd (release_handle env n s))"
proof (cases "n < length (lc_handles s)")
  case True
  obtain r h ev where h: "hp_release env (lc_handles s ! n) (lc_events s) = (r, h, ev)"
    by (cases "hp_release env (lc_handles s ! n) (lc_events s)") auto
  note b = hp_release_balance [OF h]
  have "ref_slack (s\<lparr>lc_handles := (lc_handles s)[n := h], lc_events := ev\<rparr>) p = ref_slack s p" for p
    unfolding ref_slack_def refs_held_def
    using b(2) [of p] count_held_update [OF True b(1), of "\<lambda>h. \<not> hp_reference_released h" p] 
    by (simp del: mset_map mset_filter split: if_splits)
  moreover
  have "pin_slack (s\<lparr>lc_handles := (lc_handles s)[n := h], lc_events := ev\<rparr>) p = pin_slack s p" for p
    unfolding pin_slack_def pins_held_def
    using b(3) [of p] count_held_update [OF True b(1), of "\<lambda>h. \<not> hp_unpinned h" p] 
    by (simp del: mset_map mset_filter split: if_splits)
  ultimately show ?thesis using True h by (simp add: release_handle_def no_change_def)
next
  case False
  then show ?thesis by (simp add: release_handle_def)
qed

lemma no_changeI:
  assumes "lc_handles s' = lc_handles s"
    "\<And>p. ref_balance (lc_events s') p = ref_balance (lc_events s) p"
    "\<And>p. pin_balance (lc_events s') p = pin_balance (lc_events s) p"
  shows "no_change s s'"
  using assms by (simp add: no_change_def ref_slack_def pin_slack_def)

lemma no_worseI:
  assumes "lc_handles s' = lc_handles s"
    "\<And>p. ref_balance (lc_events s) p \<le> ref_balance (lc_events s') p"
    "\<And>p. pin_balance (lc_events s) p \<le> pin_balance (lc_events s') p"
  shows "no_worse s s'"
  using assms by (simp add: no_worse_def ref_slack_def pin_slack_def)

lemma release_loop_slack: "no_change s (snd (release_loop env ps invalid s))"
proof (induction ps arbitrary: invalid s)
  case Nil
  then show ?case by simp
next
  case (Cons p ps)
  show ?case
  proof (cases "pp_disposition p = Allocated \<and> (\<exists>n. pp_handle p = HiddenHandle n)")
    case True
    then obtain n where n: "pp_disposition p = Allocated" "pp_handle p = HiddenHandle n" by blast
    obtain r s1 where h: "release_handle env n s = (r, s1)" by fastforce
    have "no_change s s1" using release_handle_slack [of s env n] h by simp
    with n h Cons.IH [of s1 invalid] show ?thesis
      by (cases r) (auto intro: no_change_trans)
  next
    case False
    with Cons.IH show ?thesis by (cases "pp_handle p") auto
  qed
qed

lemma release_prepared_pages_slack: "no_change s (snd (release_prepared_pages env ps s))"
  using release_loop_slack [of s env ps 0]
  by (auto simp: release_prepared_pages_def split: sum.splits prod.splits)

lemma release_pages_slack: "no_change s (snd (release_pages env views s))"
  using release_loop_slack [of s env "map rv_prepared views" 0]
  by (auto simp: release_pages_def split: sum.splits prod.splits)

lemma release_handles_slack: "no_change s (snd (release_handles env ns s))"
proof (induction ns arbitrary: s)
  case Nil
  then show ?case by simp
next
  case (Cons n ns)
  obtain r s1 where h: "release_handle env n s = (r, s1)" by fastforce
  have "no_change s s1" using release_handle_slack [of s env n] h by simp
  with h Cons.IH [of s1] show ?case by (cases r) (auto intro: no_change_trans)
qed

lemma commit_event_no_change: "no_change s (s\<lparr>lc_events := lc_events s @ [Commit call b]\<rparr>)"
  by (rule no_changeI) simp_all

lemma commit_pages_slack: "no_change s (snd (commit_pages api lc env required views finish s))"
proof -
  have "no_change s (snd (release_handles env hs (s\<lparr>lc_events := lc_events s @ [Commit call True]\<rparr>)))"
    for hs call
    by (rule no_change_trans [OF commit_event_no_change release_handles_slack])
  then show ?thesis
    using commit_event_no_change [of s]
    by (auto simp: commit_pages_def split: sum.splits prod.splits bool.splits exn.splits)
      (metis snd_conv)+
qed

text \<open>Lookups and capacity checks obtain nothing.\<close>

lemma classify_pages_balance:
  assumes "classify_pages env ixs results missing ev = (r, results', ev')"
  shows "ref_balance ev' p = ref_balance ev p \<and> pin_balance ev' p = pin_balance ev p"
  using assms
  by (induction ixs arbitrary: results missing ev) (auto simp: Let_def split: sum.splits)

lemma reserve_capacity_balance:
  assumes "reserve_capacity lc env pages keys missing results ev = (r, missing', results', ev')"
  shows "ref_balance ev' p = ref_balance ev p \<and> pin_balance ev' p = pin_balance ev p"
proof -
  have c: "ref_balance ev2 p = ref_balance ev1 p" "pin_balance ev2 p = pin_balance ev1 p"
    if "classify_pages env ixs rs [] ev1 = (r', rs', ev2)" for ixs rs ev1 r' rs' ev2
    using classify_pages_balance [OF that] by auto
  show ?thesis
    using assms
    by (auto simp: reserve_capacity_def Let_def c split: sum.splits bool.splits if_splits prod.splits)
qed

text \<open>Pinning, the owners and the clean-up of an aborted allocation.\<close>

definition new_owner :: "cache_key list \<Rightarrow> nat \<times> page \<Rightarrow> hidden_page" where
  "new_owner keys = (\<lambda>(i, p). \<lparr>hp_key = keys ! i, hp_page = p, hp_unpinned = False,
     hp_reference_released = False, hp_released = False\<rparr>)"

lemma install_handles_owners:
  assumes "install_handles pages keys al hs rs = Inr (hs', rs')"
  shows "hs' = hs @ map (new_owner keys) al"
  using assms
proof (induction al arbitrary: hs rs)
  case Nil
  then show ?case by simp
next
  case (Cons ip al)
  obtain i p where [simp]: "ip = (i, p)" by (cases ip)
  from Cons.prems have "install_handles pages keys al (hs @ [new_owner keys (i, p)])
      (rs[i := Some (allocated_prepared (length hs) p)]) = Inr (hs', rs')"
    by (simp add: new_owner_def split: if_splits)
  from Cons.IH [OF this] show ?case by simp
qed

lemma held_append:
  "int (count (refs_held (hs @ map (new_owner keys) al)) p) = int (count (refs_held hs) p) + vals al p"
  "int (count (pins_held (hs @ map (new_owner keys) al)) p) = int (count (pins_held hs) p) + vals al p"
proof -
  have "filter (\<lambda>h. \<not> hp_reference_released h) (map (new_owner keys) al) = map (new_owner keys) al"
    "filter (\<lambda>h. \<not> hp_unpinned h) (map (new_owner keys) al) = map (new_owner keys) al"
    by (induction al) (auto simp: new_owner_def)
  moreover have "hp_page \<circ> new_owner keys = snd" by (auto simp: new_owner_def)
  ultimately show
    "int (count (refs_held (hs @ map (new_owner keys) al)) p) = int (count (refs_held hs) p) + vals al p"
    "int (count (pins_held (hs @ map (new_owner keys) al)) p) = int (count (pins_held hs) p) + vals al p"
    by (simp_all del: mset_map mset_filter add: refs_held_def pins_held_def vals_def)
qed

lemma pin_allocated_balance:
  assumes "pin_allocated env (map snd al) ev = (r, ev')"
  shows "ref_balance ev' p = ref_balance ev p"
    and "pin_balance ev' p = pin_balance ev p + (case r of Inr _ \<Rightarrow> vals al p | Inl _ \<Rightarrow> 0)"
    and "r = Inr b \<Longrightarrow> (if b then vals al p else 0) = vals al p"
  using assms
  by (auto simp: pin_allocated_def vals_def split: if_splits sum.splits bool.splits)

lemma abort_allocation_balance:
  assumes "abort_allocation env pinned (map snd al) e ev = (r, ev')"
  shows "\<exists>e'. r = Inl e'"
    and "ref_balance ev p - vals al p \<le> ref_balance ev' p"
    and "pin_balance ev p - (if pinned then vals al p else 0) \<le> pin_balance ev' p"
proof -
  obtain r1 ev1 where ra: "release_allocated env pinned (map snd al) ev = (r1, ev1)" by fastforce
  have ev': "ev' = ev1" and "\<exists>e'. r = Inl e'"
    using assms ra by (cases r1; auto simp: abort_allocation_def)+
  then show "\<exists>e'. r = Inl e'" by blast
  from release_allocated_balance [OF ra, of p]
  show "ref_balance ev p - vals al p \<le> ref_balance ev' p"
    and "pin_balance ev p - (if pinned then vals al p else 0) \<le> pin_balance ev' p"
    unfolding ev' vals_def by simp_all
qed

lemma abort_allocation_calm:
  assumes "abort_allocation (calm env) pinned (map snd al) e ev = (r, ev')"
  shows "r = Inl e"
    and "ref_balance ev' p = ref_balance ev p - vals al p"
    and "pin_balance ev' p = pin_balance ev p - (if pinned then vals al p else 0)"
proof -
  from release_allocated_calm [of env pinned "map snd al" ev] obtain ev1 where
    ra: "release_allocated (calm env) pinned (map snd al) ev = (Inr (), ev1)"
    and b: "\<And>p. ref_balance ev1 p = ref_balance ev p - int (count (mset (map snd al)) p)"
      "\<And>p. pin_balance ev1 p = pin_balance ev p - (if pinned then int (count (mset (map snd al)) p) else 0)"
    by auto
  have "r = Inl e" "ev' = ev1" using assms ra by (auto simp: abort_allocation_def)
  with b show "r = Inl e" "ref_balance ev' p = ref_balance ev p - vals al p"
    "pin_balance ev' p = pin_balance ev p - (if pinned then vals al p else 0)"
    by (simp_all add: vals_def)
qed

text \<open>
  Allocation of the missing pages: it ends in one of two ways.  Either everything is installed,
  or the allocated pages are given back and no owner object is kept.
\<close>

lemma allocate_missing_cases:
  assumes "allocate_missing lc env pages keys missing results s = (r, s')"
    "allocate_groups lc env pages missing (lc_direct_groups lc) [] (lc_events s) = (r0, al, ev)"
  obtains
    (installed) prepared hs ev1 b where "r = Inr prepared" "r0 = Inr ()"
      "pin_allocated env (map snd al) ev = (Inr b, ev1)"
      "install_handles pages keys al (lc_handles s) results = Inr (hs, map Some prepared)"
      "s' = s\<lparr>lc_handles := hs, lc_events := ev1\<rparr>"
  | (aborted) pinned e ev1 ev2 where "abort_allocation env pinned (map snd al) e ev1 = (r, ev2)"
      "s' = s\<lparr>lc_events := ev2\<rparr>" "\<And>p. ref_balance ev1 p = ref_balance ev p"
      "\<And>p. pin_balance ev1 p = pin_balance ev p + (if pinned then vals al p else 0)"
proof (cases r0)
  case (Inl e)
  obtain r1 ev2 where ab: "abort_allocation env False (map snd al) e ev = (r1 :: prepared_page list res, ev2)"
    by fastforce
  show ?thesis using assms Inl ab by (intro aborted [of False e ev ev2]) (auto simp: allocate_missing_def)
next
  case r0: (Inr u)
  obtain rp ev1 where pin: "pin_allocated env (map snd al) ev = (rp, ev1)" by fastforce
  note pb = pin_allocated_balance [OF pin]
  show ?thesis
  proof (cases rp)
    case (Inl e)
    obtain r1 ev2 where ab: "abort_allocation env False (map snd al) e ev1 = (r1 :: prepared_page list res, ev2)"
      by fastforce
    show ?thesis using assms r0 Inl pin ab pb
      by (intro aborted [of False e ev1 ev2]) (auto simp: allocate_missing_def)
  next
    case rp: (Inr b)
    let ?inst = "bindR (install_handles pages keys al (lc_handles s) results)
      (\<lambda>(handles, results2). bindR (finalize_results results2) (\<lambda>prepared. Inr (handles, prepared)))"
    show ?thesis
    proof (cases ?inst)
      case (Inl e)
      obtain r1 ev2 where ab: "abort_allocation env b (map snd al) e ev1 = (r1 :: prepared_page list res, ev2)"
        by fastforce
      show ?thesis using assms r0 rp pin ab pb Inl
        by (intro aborted [of b e ev1 ev2]) (auto simp: allocate_missing_def)
    next
      case (Inr hp)
      obtain hs prepared where hp: "hp = (hs, prepared)" by fastforce
      with Inr obtain rs where inst: "install_handles pages keys al (lc_handles s) results = Inr (hs, rs)"
        and fin: "finalize_results rs = Inr prepared"
        by (auto simp: bindR_Inr_iff)
      have "rs = map Some prepared"
        using fin by (auto simp: finalize_results_def map_idI split: if_splits)
          (metis (mono_tags, lifting) map_idI o_apply option.exhaust_sel)
      with inst show ?thesis using assms r0 rp pin Inr hp
        by (intro installed [of prepared b ev1 hs]) (auto simp: allocate_missing_def)
    qed
  qed
qed

lemma classify_pages_distinct:
  assumes "classify_pages env ixs results missing ev = (Inr missing', results', ev')"
    "distinct (map fst ixs)" "distinct missing" "fst ` set ixs \<inter> set missing = {}"
  shows "distinct missing'"
  using assms
  by (induction ixs arbitrary: results missing ev)
    (auto simp: Let_def image_iff split: sum.splits if_splits)

lemma reserve_capacity_distinct:
  assumes "reserve_capacity lc env pages keys missing results ev = (Inr b, missing', results', ev')"
    "distinct missing"
  shows "distinct missing'"
proof -
  have c: "distinct m" if "classify_pages env (enumerate 0 keys) rs [] ev1 = (Inr m, rs', ev2)"
    for rs ev1 m rs' ev2
    by (rule classify_pages_distinct [OF that]) simp_all
  from assms show ?thesis
    by (auto simp: reserve_capacity_def Let_def dest: c split: sum.splits bool.splits if_splits prod.splits)
qed

lemma allocate_missing_slack:
  "no_worse s (snd (allocate_missing lc env pages keys missing results s))"
proof -
  obtain r s' where m: "allocate_missing lc env pages keys missing results s = (r, s')" by fastforce
  obtain r0 al ev where g: "allocate_groups lc env pages missing (lc_direct_groups lc) [] (lc_events s)
      = (r0, al, ev)" using prod_cases3 by blast
  note gb = allocate_groups_balance [OF g]
  from m g have "no_worse s s'"
  proof (cases rule: allocate_missing_cases)
    case (installed prepared hs ev1 b)
    note pb = pin_allocated_balance [OF installed(3)]
    have "ref_slack s p \<le> ref_slack s' p \<and> pin_slack s p \<le> pin_slack s' p" for p
      using gb [of p] pb(1,2) [of p] installed(5) install_handles_owners [OF installed(4)]
      by (simp add: ref_slack_def pin_slack_def held_append)
    then show ?thesis by (simp add: no_worse_def)
  next
    case (aborted pinned e ev1 ev2)
    show ?thesis
    proof (rule no_worseI)
      fix p
      show "ref_balance (lc_events s) p \<le> ref_balance (lc_events s') p"
        using aborted(2) aborted(3) [of p] gb [of p] abort_allocation_balance(2) [OF aborted(1), of p] by simp
      show "pin_balance (lc_events s) p \<le> pin_balance (lc_events s') p"
        using aborted(2) aborted(4) [of p] gb [of p] abort_allocation_balance(3) [OF aborted(1), of p]
        by (simp split: if_splits)
    qed (simp add: aborted(2))
  qed
  then show ?thesis using m by simp
qed

lemma allocate_missing_exact:
  assumes "distinct (lc_direct_groups lc)" "distinct missing"
  shows "no_change s (snd (allocate_missing lc (calm env) pages keys missing results s))"
proof -
  obtain r s' where m: "allocate_missing lc (calm env) pages keys missing results s = (r, s')" by fastforce
  obtain r0 al ev where g: "allocate_groups lc (calm env) pages missing (lc_direct_groups lc) []
      (lc_events s) = (r0, al, ev)" using prod_cases3 by blast
  have "fresh_for pages missing (lc_direct_groups lc) []" by (simp add: fresh_for_def)
  note gb = allocate_groups_shape(3) [OF g this assms refl] allocate_groups_balance [OF g]
  from m g have "no_change s s'"
  proof (cases rule: allocate_missing_cases)
    case (installed prepared hs ev1 b)
    note pb = pin_allocated_balance [OF installed(3)]
    have "ref_slack s' p = ref_slack s p \<and> pin_slack s' p = pin_slack s p" for p
      using gb(1) [of p] gb(2) [of p] pb(1,2) [of p] installed(5) install_handles_owners [OF installed(4)]
      by (simp add: ref_slack_def pin_slack_def held_append)
    then show ?thesis by (simp add: no_change_def)
  next
    case (aborted pinned e ev1 ev2)
    note ab = abort_allocation_calm [OF aborted(1)]
    show ?thesis
    proof (rule no_changeI)
      fix p
      show "ref_balance (lc_events s') p = ref_balance (lc_events s) p"
        using aborted(2) aborted(3) [of p] gb(1) [of p] ab(2) [of p] by simp
      show "pin_balance (lc_events s') p = pin_balance (lc_events s) p"
        using aborted(2) aborted(4) [of p] gb(2) [of p] ab(3) [of p] by (simp split: if_splits)
    qed (simp add: aborted(2))
  qed
  then show ?thesis using m by simp
qed

text \<open>The whole preparation.\<close>

lemma prepare_pages_cases:
  assumes "prepare_pages api lc env pages reserve s = (r, s')"
  obtains
    (quiet) "lc_handles s' = lc_handles s"
      "\<And>p. ref_balance (lc_events s') p = ref_balance (lc_events s) p"
      "\<And>p. pin_balance (lc_events s') p = pin_balance (lc_events s) p"
  | (allocate) keys missing results ev where "distinct missing" "validate_window api lc pages = Inr keys"
      "allocate_missing lc env pages keys missing results (s\<lparr>lc_events := ev\<rparr>) = (r, s')"
      "\<And>p. ref_balance ev p = ref_balance (lc_events s) p"
      "\<And>p. pin_balance ev p = pin_balance (lc_events s) p"
proof (cases "validate_window api lc pages")
  case (Inl e)
  then show ?thesis using assms by (intro quiet) (auto simp: prepare_pages_def)
next
  case keys: (Inr keys)
  obtain rc results ev where c: "classify_pages env (enumerate 0 keys) (replicate (length pages) None) []
      (lc_events s) = (rc, results, ev)" using prod_cases3 by blast
  note cb = classify_pages_balance [OF c]
  show ?thesis
  proof (cases "(\<exists>e. rc = Inl e) \<or> \<not> reserve")
    case True
    then have "s' = s\<lparr>lc_events := ev\<rparr>"
      using assms keys c by (auto simp: prepare_pages_def split: sum.splits)
    then show ?thesis using cb by (intro quiet) simp_all
  next
    case False
    then obtain missing where rc: "rc = Inr missing" and reserve by (cases rc) auto
    have d: "distinct missing" by (rule classify_pages_distinct [OF c [unfolded rc]]) simp_all
    obtain rr missing2 results2 ev2 where
      rv: "reserve_capacity lc env pages keys missing results ev = (rr, missing2, results2, ev2)"
      using prod_cases4 by blast
    note rb = reserve_capacity_balance [OF rv]
    show ?thesis
    proof (cases "rr = Inr True")
      case True
      then show ?thesis
        using assms keys c rc \<open>reserve\<close> rv reserve_capacity_distinct [OF rv [unfolded True] d] cb rb
        by (intro allocate [of missing2 keys results2 ev2]) (auto simp: prepare_pages_def)
    next
      case False
      then have "s' = s\<lparr>lc_events := ev2\<rparr>"
        using assms keys c rc \<open>reserve\<close> rv
        by (cases rr) (auto simp: prepare_pages_def split: bool.splits)
      then show ?thesis using cb rb by (intro quiet) simp_all
    qed
  qed
qed

lemma prepare_pages_slack: "no_worse s (snd (prepare_pages api lc env pages reserve s))"
proof -
  obtain r s' where p: "prepare_pages api lc env pages reserve s = (r, s')" by fastforce
  then have "no_worse s s'"
  proof (cases rule: prepare_pages_cases)
    case quiet
    then show ?thesis by (intro no_worseI) simp_all
  next
    case (allocate keys missing results ev)
    have "no_change s (s\<lparr>lc_events := ev\<rparr>)" using allocate by (intro no_changeI) simp_all
    then have "no_worse s (s\<lparr>lc_events := ev\<rparr>)" by (rule no_change_worse)
    then show ?thesis
      using allocate_missing_slack [of "s\<lparr>lc_events := ev\<rparr>" lc env pages keys missing results]
        allocate(3) by (auto intro: no_worse_trans)
  qed
  with p show ?thesis by simp
qed

lemma prepare_pages_exact:
  assumes "distinct (lc_direct_groups lc)"
  shows "no_change s (snd (prepare_pages api lc (calm env) pages reserve s))"
proof -
  obtain r s' where p: "prepare_pages api lc (calm env) pages reserve s = (r, s')" by fastforce
  then have "no_change s s'"
  proof (cases rule: prepare_pages_cases)
    case quiet
    then show ?thesis by (intro no_changeI) simp_all
  next
    case (allocate keys missing results ev)
    have "no_change s (s\<lparr>lc_events := ev\<rparr>)" using allocate by (intro no_changeI) simp_all
    then show ?thesis
      using allocate_missing_exact [OF assms allocate(1), of "s\<lparr>lc_events := ev\<rparr>" env pages keys results]
        allocate(3) by (auto intro: no_change_trans)
  qed
  with p show ?thesis by simp
qed

end
