(* ===== verification/PageResults.thy ===== *)
theory PageResults
  imports PageAccounting
begin

text \<open>
  What the operations of the page lifecycle return: the results of a preparation, position by
  position, and the pages a commit publishes.
\<close>

section \<open>What a preparation returns\<close>








lemma plain_prepared_simps [simp]:
  "pp_disposition (plain_prepared d) = d" "pp_handle (plain_prepared d) = NoHandle"
  "pp_disposition (allocated_prepared n p) = Allocated"
  "pp_handle (allocated_prepared n p) = HiddenHandle n"
  by (simp_all add: plain_prepared_def allocated_prepared_def)






section \<open>What a commit publishes\<close>

definition published :: "commit_request \<Rightarrow> (cache_key \<times> page) list" where
  "published call = (case call of CommitGroup0 _ ready \<Rightarrow> ready | CommitTwoGroups _ _ ready \<Rightarrow> ready)"

definition allocated_handles :: "reserved_page_view list \<Rightarrow> handle list" where
  "allocated_handles views =
     map pp_handle (filter (\<lambda>r. pp_disposition r = Allocated) (map rv_prepared views))"

text \<open>A reserved view agrees with the authoritative prefix and with its owner object.\<close>

definition view_agrees ::
  "(int \<times> cache_key list) list \<Rightarrow> hidden_page list \<Rightarrow> reserved_page_view \<Rightarrow> bool" where
  "view_agrees required heap view \<longleftrightarrow>
     (pp_disposition (rv_prepared view) = Allocated \<longrightarrow>
       (\<exists>n ks. pp_handle (rv_prepared view) = HiddenHandle n \<and> n < length heap \<and>
          map_of required (cp_kv_group (rv_control_page view)) = Some ks \<and>
          0 \<le> cp_chunk_index (rv_control_page view) \<and>
          nat (cp_chunk_index (rv_control_page view)) < length ks \<and>
          ks ! nat (cp_chunk_index (rv_control_page view)) = hp_key (heap ! n)))"

lemma collect_ready_spec:
  assumes "collect_ready lc required heap views ready handles = Inr (ready', handles')"
    "distinct (map fst ready)"
  shows "\<exists>ns. handles' = handles @ ns \<and> allocated_handles views = map HiddenHandle ns \<and>
    ready' = ready @ map (\<lambda>n. (hp_key (heap ! n), hp_page (heap ! n))) ns \<and>
    distinct (map fst ready') \<and> list_all (view_agrees required heap) views"
  using assms
proof (induction views arbitrary: ready handles)
  case Nil
  then show ?case by (simp add: allocated_handles_def)
next
  case (Cons view views)
  show ?case
  proof (cases "pp_disposition (rv_prepared view) = Allocated")
    case False
    then show ?thesis
      using Cons by (simp add: allocated_handles_def view_agrees_def Let_def)
  next
    case True
    then obtain n ks where n: "pp_handle (rv_prepared view) = HiddenHandle n" "n < length heap"
      and ks: "map_of required (cp_kv_group (rv_control_page view)) = Some ks"
      and chunk: "0 \<le> cp_chunk_index (rv_control_page view)"
        "cp_chunk_index (rv_control_page view) < int (length ks)"
      and key: "ks ! nat (cp_chunk_index (rv_control_page view)) = hp_key (heap ! n)"
      and new: "hp_key (heap ! n) \<notin> set (map fst ready)"
      and rest: "collect_ready lc required heap views
        (ready @ [(hp_key (heap ! n), hp_page (heap ! n))]) (handles @ [n]) = Inr (ready', handles')"
      using Cons.prems(1)
      by (auto simp: Let_def split: handle.splits option.splits if_splits)
    from Cons.IH [OF rest] new Cons.prems(2) obtain ns where
      "handles' = (handles @ [n]) @ ns" "allocated_handles views = map HiddenHandle ns"
      "ready' = (ready @ [(hp_key (heap ! n), hp_page (heap ! n))])
        @ map (\<lambda>n. (hp_key (heap ! n), hp_page (heap ! n))) ns"
      "distinct (map fst ready')" "list_all (view_agrees required heap) views"
      by auto
    moreover have "view_agrees required heap view"
      using True n ks chunk key by (simp add: view_agrees_def nat_less_iff)
    ultimately show ?thesis
      using True n by (intro exI [of _ "n # ns"]) (simp add: allocated_handles_def)
  qed
qed

lemma release_handle_effect:
  assumes "release_handle env n s = (Inr u, s')"
  shows "hp_released (lc_handles s' ! n) \<and> length (lc_handles s') = length (lc_handles s) \<and>
    (\<forall>m. m \<noteq> n \<longrightarrow> lc_handles s' ! m = lc_handles s ! m)"
  using assms
  by (auto simp: release_handle_def hp_release_def Let_def split: if_splits prod.splits sum.splits)

lemma release_handle_keeps_released:
  assumes "release_handle env n s = (r, s')" "hp_released (lc_handles s ! m)"
  shows "lc_handles s' ! m = lc_handles s ! m"
  using assms
  by (cases "m = n") (auto simp: release_handle_def hp_release_def Let_def
      split: if_splits prod.splits sum.splits)

lemma release_handles_effect:
  assumes "release_handles env ns s = (Inr u, s')"
  shows "(\<forall>n. n \<in> set ns \<or> hp_released (lc_handles s ! n) \<longrightarrow> hp_released (lc_handles s' ! n)) \<and>
    length (lc_handles s') = length (lc_handles s) \<and>
    (\<forall>m. m \<notin> set ns \<longrightarrow> lc_handles s' ! m = lc_handles s ! m)"
  using assms
proof (induction ns arbitrary: s)
  case Nil
  then show ?case by simp
next
  case (Cons n ns)
  then obtain u1 s1 where r: "release_handle env n s = (Inr u1, s1)"
    and rest: "release_handles env ns s1 = (Inr u, s')"
    by (auto split: prod.splits sum.splits)
  note ih = Cons.IH [OF rest] and e = release_handle_effect [OF r]
  have "hp_released (lc_handles s' ! m)" if "m \<in> set (n # ns) \<or> hp_released (lc_handles s ! m)" for m
  proof (cases "m = n")
    case True
    then show ?thesis using ih e by simp
  next
    case False
    then have "lc_handles s1 ! m = lc_handles s ! m" using e by blast
    then show ?thesis using ih that False by auto
  qed
  moreover have "lc_handles s' ! m = lc_handles s ! m" if "m \<notin> set (n # ns)" for m
    using ih e that by simp
  ultimately show ?case using ih e by simp
qed

lemma commit_call_ready:
  "commit_call lc required ready = Inr call \<Longrightarrow> published call = ready"
  by (auto simp: commit_call_def published_def split: if_splits option.splits)

section \<open>A small deployment\<close>

text \<open>An environment without cached pages, with room, whose allocator numbers its pages.\<close>

definition example_env :: lc_env where
  "example_env = \<lparr>le_contains = (\<lambda>_ _. Inr False), le_capacity = (\<lambda>_ _. Inr True),
     le_reclaim = (\<lambda>_ _. Inr False),
     le_allocate = (\<lambda>ev req. Inr (Some (map (\<lambda>(i, v). \<lparr>pg_id = i, pg_data_ptr = 4096 * ar_num_layers req,
        pg_size = v * (if ar_num_layers req = 2 then 12 else 4)\<rparr>)
        (enumerate 0 (ar_valid_tokens req))))),
     le_pin = (\<lambda>_ _. Inr True), le_unpin = (\<lambda>_ _. None), le_ref_down = (\<lambda>_ _. None),
     le_commit = (\<lambda>_ _. Inr True)\<rparr>"

definition example_prepare :: "prepared_page list res \<times> lc_state" where
  "example_prepare = prepare_pages example_key_api example_lifecycle example_env example_pages True
     \<lparr>lc_handles = [], lc_events = []\<rparr>"

definition example_views :: "reserved_page_view list" where
  "example_views = (case fst example_prepare of
     Inr rs \<Rightarrow> map (\<lambda>(p, r). \<lparr>rv_control_page = p, rv_prepared = r\<rparr>) (zip example_pages rs)
   | Inl _ \<Rightarrow> [])"


lemma example_commit_works:
  "fst (commit_pages example_key_api example_lifecycle example_env example_pages example_views
      example_finish (snd example_prepare)) = Inr True"
  by code_simp

lemma example_commit_refused:
  "fst (commit_pages example_key_api example_lifecycle
      (example_env\<lparr>le_commit := (\<lambda>_ _. Inr False)\<rparr>) example_pages example_views
      example_finish (snd example_prepare)) = Inr False"
  by code_simp

section \<open>Properties\<close>



text \<open>
  C15. A commit answers True only if the backend accepted it, and then: the published pages are
  exactly the hidden pages of the allocated views, in order, under pairwise different keys; each is
  the authoritative key of the view's group and chunk in the validated prefix; and every one of
  these hidden pages has been released to the backend, the others being as before.
\<close>

theorem commit_pages_publishes:
  assumes "commit_pages api lc env required_pages views finish s = (Inr True, s')"
  shows "\<exists>required call ns. validate_required_prefix api lc required_pages finish = Inr required \<and>
      le_commit env (lc_events s) call = Inr True \<and>
      allocated_handles views = map HiddenHandle ns \<and>
      published call = map (\<lambda>n. (hp_key (lc_handles s ! n), hp_page (lc_handles s ! n))) ns \<and>
      distinct (map fst (published call)) \<and> list_all (view_agrees required (lc_handles s)) views \<and>
      (\<forall>n \<in> set ns. hp_released (lc_handles s' ! n)) \<and>
      (\<forall>n. n \<notin> set ns \<longrightarrow> lc_handles s' ! n = lc_handles s ! n)"
proof -
  let ?prep = "bindR (validate_required_prefix api lc required_pages finish) (\<lambda>required.
             bindR (collect_ready lc required (lc_handles s) views [] []) (\<lambda>(ready, handles).
             bindR (commit_call lc required ready) (\<lambda>call. Inr (call, handles))))"
  obtain call ns where prep: "?prep = Inr (call, ns)"
    using assms by (cases ?prep) (auto simp: commit_pages_def)
  then obtain required ready where v: "validate_required_prefix api lc required_pages finish = Inr required"
    and c: "collect_ready lc required (lc_handles s) views [] [] = Inr (ready, ns)"
    and call: "commit_call lc required ready = Inr call"
    by (auto simp: bindR_Inr_iff)
  have commit: "le_commit env (lc_events s) call = Inr True"
    and rel: "\<exists>u. release_handles env ns (s\<lparr>lc_events := lc_events s @ [Commit call True]\<rparr>) = (Inr u, s')"
    using assms prep by (auto simp: commit_pages_def split: sum.splits exn.splits bool.splits prod.splits)
  from rel obtain u where
    u: "release_handles env ns (s\<lparr>lc_events := lc_events s @ [Commit call True]\<rparr>) = (Inr u, s')" by blast
  from collect_ready_spec [OF c] commit_call_ready [OF call]
  have "allocated_handles views = map HiddenHandle ns"
    "published call = map (\<lambda>n. (hp_key (lc_handles s ! n), hp_page (lc_handles s ! n))) ns"
    "distinct (map fst (published call))" "list_all (view_agrees required (lc_handles s)) views"
    by auto
  with v commit release_handles_effect [OF u] show ?thesis
    by (intro exI [of _ required] exI [of _ call] exI [of _ ns]) simp
qed

theorem commit_pages_publishes_witness:
  "\<exists>s' ns. commit_pages example_key_api example_lifecycle example_env example_pages example_views
      example_finish (snd example_prepare) = (Inr True, s') \<and>
    allocated_handles example_views = map HiddenHandle ns \<and>
    (\<forall>n \<in> set ns. hp_released (lc_handles s' ! n))"
proof -
  obtain s' where c: "commit_pages example_key_api example_lifecycle example_env example_pages
      example_views example_finish (snd example_prepare) = (Inr True, s')"
    using example_commit_works by (metis prod.collapse)
  from commit_pages_publishes [OF c] c show ?thesis by blast
qed

text \<open>
  A commit that does not answer True leaves the reservations alone, so they can still be
  released: the only exception is a release that fails after the backend accepted the pages, and
  that is reported as an unsafe lifecycle, never as an ordinary failure.
\<close>

theorem commit_pages_failure:
  assumes "commit_pages api lc env required_pages views finish s = (r, s')" "r \<noteq> Inr True"
  shows "lc_handles s' = lc_handles s \<or>
     r = Inl (UnsafePageLifecycleError
           ''remote-fill reservation ownership transfer failed after publish'') \<and>
     (\<exists>call. le_commit env (lc_events s) call = Inr True)"
  using assms by (auto simp: commit_pages_def split: sum.splits exn.splits bool.splits prod.splits)

theorem commit_pages_failure_witness:
  "lc_handles (snd (commit_pages example_key_api example_lifecycle
      (example_env\<lparr>le_commit := (\<lambda>_ _. Inr False)\<rparr>) example_pages example_views
      example_finish (snd example_prepare))) = lc_handles (snd example_prepare)"
proof -
  obtain s' where c: "commit_pages example_key_api example_lifecycle
      (example_env\<lparr>le_commit := (\<lambda>_ _. Inr False)\<rparr>) example_pages
      example_views example_finish (snd example_prepare) = (Inr False, s')"
    using example_commit_refused by (metis prod.collapse)
  from commit_pages_failure [OF c] c show ?thesis by simp
qed

end
