(* ===== verification/Ownership.thy ===== *)
theory Ownership
  imports Prelude
begin

text \<open>
  The interface of a component that owns counted references: some operations acquire
  references, some return them, and in between the component holds them.  The laws say that one
  step never returns a reference that is not held, and (for the second locale) never loses one.
\<close>

locale ownership =
  fixes step :: "'op \<Rightarrow> 's \<Rightarrow> 's"
    and acquired :: "'s \<Rightarrow> 'p multiset"
    and returned :: "'s \<Rightarrow> 'p multiset"
    and held :: "'s \<Rightarrow> 'p multiset"
  assumes step_covered:
    "returned s + held s \<subseteq># acquired s \<Longrightarrow>
     returned (step op s) + held (step op s) \<subseteq># acquired (step op s)"
begin

lemma run_covered:
  "returned s + held s \<subseteq># acquired s \<Longrightarrow>
   returned (fold step ops s) + held (fold step ops s) \<subseteq># acquired (fold step ops s)"
  by (induction ops arbitrary: s) (simp_all add: step_covered)

text \<open>No reference is returned more often than it was acquired.\<close>

lemma run_no_double_return:
  assumes "returned s + held s \<subseteq># acquired s"
  shows "returned (fold step ops s) \<subseteq># acquired (fold step ops s)"
  using run_covered [OF assms, of ops] by (rule subset_mset.order_trans [rotated]) simp

lemma run_held_acquired:
  assumes "returned s + held s \<subseteq># acquired s"
  shows "held (fold step ops s) \<subseteq># acquired (fold step ops s)"
  using run_covered [OF assms, of ops] by (rule subset_mset.order_trans [rotated]) simp

end

locale tight_ownership = ownership +
  assumes step_exact:
    "returned s + held s = acquired s \<Longrightarrow>
     returned (step op s) + held (step op s) = acquired (step op s)"
begin

lemma run_exact:
  "returned s + held s = acquired s \<Longrightarrow>
   returned (fold step ops s) + held (fold step ops s) = acquired (fold step ops s)"
  by (induction ops arbitrary: s) (simp_all add: step_exact)

text \<open>Once nothing is held, everything that was acquired has been returned.\<close>

lemma run_drained:
  assumes "returned s + held s = acquired s" and "held (fold step ops s) = {#}"
  shows "returned (fold step ops s) = acquired (fold step ops s)"
  using run_exact [OF assms(1), of ops] assms(2) by simp

end

end
