(* ===== verification/PageOwnership.thy ===== *)
theory PageOwnership
  imports PageResults Ownership
begin

text \<open>
  The page lifecycle as an instance of the ownership interface: its public operations, the
  references and pins that come in, go out and are owned, and what any sequence of operations
  keeps of them.
\<close>


section \<open>The lifecycle as an owner of references\<close>

text \<open>The public operations of \<open>AscendRemoteFillPageLifecycle\<close>, and one call of one of them.\<close>

datatype lc_op =
    PreparePages "control_page list" bool
  | ReleasePrepared "prepared_page list"
  | ReleasePages "reserved_page_view list"
  | CommitPages "control_page list" "reserved_page_view list" finish_request

definition lc_step :: "key_api \<Rightarrow> lifecycle \<Rightarrow> lc_env \<Rightarrow> lc_op \<Rightarrow> lc_state \<Rightarrow> lc_state" where
  "lc_step api lc env op s =
     (case op of
        PreparePages pages reserve \<Rightarrow> snd (prepare_pages api lc env pages reserve s)
      | ReleasePrepared pages \<Rightarrow> snd (release_prepared_pages env pages s)
      | ReleasePages views \<Rightarrow> snd (release_pages env views s)
      | CommitPages required views finish \<Rightarrow> snd (commit_pages api lc env required views finish s))"

text \<open>The lifecycle after its construction: nothing made, nothing called.\<close>

definition lc_init :: lc_state where
  "lc_init = \<lparr>lc_handles = [], lc_events = []\<rparr>"

definition refs_in :: "lc_state \<Rightarrow> page multiset" where
  "refs_in s = tally refs_obtained (lc_events s)"

definition refs_out :: "lc_state \<Rightarrow> page multiset" where
  "refs_out s = tally refs_returned (lc_events s)"

definition refs_owned :: "lc_state \<Rightarrow> page multiset" where
  "refs_owned s = refs_held (lc_handles s)"

definition pins_in :: "lc_state \<Rightarrow> page multiset" where
  "pins_in s = tally pins_obtained (lc_events s)"

definition pins_out :: "lc_state \<Rightarrow> page multiset" where
  "pins_out s = tally pins_returned (lc_events s)"

definition pins_owned :: "lc_state \<Rightarrow> page multiset" where
  "pins_owned s = pins_held (lc_handles s)"

lemmas owner_defs = refs_in_def refs_out_def refs_owned_def pins_in_def pins_out_def pins_owned_def

lemma covered_iff:
  "refs_out s + refs_owned s \<subseteq># refs_in s \<longleftrightarrow> (\<forall>p. 0 \<le> ref_slack s p)"
  "pins_out s + pins_owned s \<subseteq># pins_in s \<longleftrightarrow> (\<forall>p. 0 \<le> pin_slack s p)"
proof -
  have c: "A + B \<subseteq># C \<longleftrightarrow> (\<forall>p. 0 \<le> int (count C p) - int (count A p) - int (count B p))"
    for A B C :: "page multiset"
  proof -
    have "(count A p + count B p \<le> count C p) =
        (0 \<le> int (count C p) - int (count A p) - int (count B p))" for p by linarith
    then show ?thesis by (simp add: subseteq_mset_def)
  qed
  show "refs_out s + refs_owned s \<subseteq># refs_in s \<longleftrightarrow> (\<forall>p. 0 \<le> ref_slack s p)"
    "pins_out s + pins_owned s \<subseteq># pins_in s \<longleftrightarrow> (\<forall>p. 0 \<le> pin_slack s p)"
    unfolding c owner_defs ref_slack_def pin_slack_def balance_defs by auto
qed

lemma exact_iff:
  "refs_out s + refs_owned s = refs_in s \<longleftrightarrow> (\<forall>p. ref_slack s p = 0)"
  "pins_out s + pins_owned s = pins_in s \<longleftrightarrow> (\<forall>p. pin_slack s p = 0)"
proof -
  have c: "A + B = C \<longleftrightarrow> (\<forall>p. int (count C p) - int (count A p) - int (count B p) = 0)"
    for A B C :: "page multiset"
  proof -
    have "(count A p + count B p = count C p) =
        (int (count C p) - int (count A p) - int (count B p) = 0)" for p by linarith
    then show ?thesis by (simp add: multiset_eq_iff)
  qed
  show "refs_out s + refs_owned s = refs_in s \<longleftrightarrow> (\<forall>p. ref_slack s p = 0)"
    "pins_out s + pins_owned s = pins_in s \<longleftrightarrow> (\<forall>p. pin_slack s p = 0)"
    unfolding c owner_defs ref_slack_def pin_slack_def balance_defs by auto
qed

lemma lc_step_no_worse: "no_worse s (lc_step api lc env op s)"
  by (cases op) (simp_all add: lc_step_def prepare_pages_slack release_prepared_pages_slack
      release_pages_slack commit_pages_slack no_change_worse)

lemma lc_step_exact:
  assumes "distinct (lc_direct_groups lc)"
  shows "no_change s (lc_step api lc (calm env) op s)"
  by (cases op) (simp_all add: lc_step_def prepare_pages_exact [OF assms] release_prepared_pages_slack
      release_pages_slack commit_pages_slack)

text \<open>The groups a lifecycle is built with are group 0 alone, or both.\<close>

definition with_groups :: "bool \<Rightarrow> lifecycle \<Rightarrow> lifecycle" where
  "with_groups two lc = lc\<lparr>lc_direct_groups := (if two then [0, 1] else [0])\<rparr>"

lemma make_lifecycle_groups:
  assumes "make_lifecycle layout ht hb groups reclaimer = Inr lc"
  shows "with_groups (groups = [0, 1]) lc = lc"
  using assms by (auto simp: make_lifecycle_def with_groups_def split: if_splits)

interpretation lc_refs: ownership "lc_step api lc env" refs_in refs_out refs_owned for api lc env
proof unfold_locales
  fix s op
  assume "refs_out s + refs_owned s \<subseteq># refs_in s"
  with lc_step_no_worse [of s api lc env op]
  show "refs_out (lc_step api lc env op s) + refs_owned (lc_step api lc env op s)
      \<subseteq># refs_in (lc_step api lc env op s)"
    unfolding covered_iff no_worse_def using order_trans by blast
qed

interpretation lc_pins: ownership "lc_step api lc env" pins_in pins_out pins_owned for api lc env
proof unfold_locales
  fix s op
  assume "pins_out s + pins_owned s \<subseteq># pins_in s"
  with lc_step_no_worse [of s api lc env op]
  show "pins_out (lc_step api lc env op s) + pins_owned (lc_step api lc env op s)
      \<subseteq># pins_in (lc_step api lc env op s)"
    unfolding covered_iff no_worse_def using order_trans by blast
qed

interpretation calm_refs: tight_ownership "lc_step api (with_groups two lc) (calm env)"
  refs_in refs_out refs_owned for api two lc env
proof unfold_locales
  fix s op
  assume a: "refs_out s + refs_owned s = refs_in s"
  have "no_change s (lc_step api (with_groups two lc) (calm env) op s)"
    by (rule lc_step_exact) (simp add: with_groups_def)
  with a show "refs_out (lc_step api (with_groups two lc) (calm env) op s)
      + refs_owned (lc_step api (with_groups two lc) (calm env) op s)
      = refs_in (lc_step api (with_groups two lc) (calm env) op s)"
    unfolding exact_iff no_change_def by simp
qed

interpretation calm_pins: tight_ownership "lc_step api (with_groups two lc) (calm env)"
  pins_in pins_out pins_owned for api two lc env
proof unfold_locales
  fix s op
  assume a: "pins_out s + pins_owned s = pins_in s"
  have "no_change s (lc_step api (with_groups two lc) (calm env) op s)"
    by (rule lc_step_exact) (simp add: with_groups_def)
  with a show "pins_out (lc_step api (with_groups two lc) (calm env) op s)
      + pins_owned (lc_step api (with_groups two lc) (calm env) op s)
      = pins_in (lc_step api (with_groups two lc) (calm env) op s)"
    unfolding exact_iff no_change_def by simp
qed

lemma lc_init_owns [simp]:
  "refs_out lc_init + refs_owned lc_init = refs_in lc_init"
  "pins_out lc_init + pins_owned lc_init = pins_in lc_init"
  by (simp_all add: lc_init_def owner_defs refs_held_def pins_held_def)

section \<open>Properties\<close>

text \<open>
  C1. No double release: along any sequence of prepare, release and commit calls, whatever the
  backend answers and whatever raises, a page is given back (\<open>ref_count_down\<close>, \<open>unpin\<close>) at most as
  often as it was obtained, counting the references that the owner objects will still give back.
\<close>

theorem lifecycle_no_double_release:
  "refs_out (fold (lc_step api lc env) ops lc_init) + refs_owned (fold (lc_step api lc env) ops lc_init)
     \<subseteq># refs_in (fold (lc_step api lc env) ops lc_init)
   \<and> pins_out (fold (lc_step api lc env) ops lc_init) + pins_owned (fold (lc_step api lc env) ops lc_init)
     \<subseteq># pins_in (fold (lc_step api lc env) ops lc_init)"
  by (intro conjI lc_refs.run_covered lc_pins.run_covered) simp_all

text \<open>
  C2. No leak: a lifecycle as its constructor builds it, over pages whose methods do not raise,
  accounts for every reference and pin it ever obtained, however the preparations, releases and
  commits succeed or fail: each is either given back or owned by exactly one hidden page.
\<close>

theorem lifecycle_no_leak:
  assumes "make_lifecycle layout ht hb groups reclaimer = Inr lc"
  shows "refs_out (fold (lc_step api lc (calm env)) ops lc_init)
           + refs_owned (fold (lc_step api lc (calm env)) ops lc_init)
         = refs_in (fold (lc_step api lc (calm env)) ops lc_init)
       \<and> pins_out (fold (lc_step api lc (calm env)) ops lc_init)
           + pins_owned (fold (lc_step api lc (calm env)) ops lc_init)
         = pins_in (fold (lc_step api lc (calm env)) ops lc_init)"
  using calm_refs.run_exact [of lc_init api "groups = [0, 1]" lc env ops]
    calm_pins.run_exact [of lc_init api "groups = [0, 1]" lc env ops]
  by (simp add: make_lifecycle_groups [OF assms])

theorem lifecycle_no_leak_witness:
  "refs_out (fold (lc_step example_key_api example_lifecycle (calm example_env))
       [PreparePages example_pages True] lc_init)
     + refs_owned (fold (lc_step example_key_api example_lifecycle (calm example_env))
       [PreparePages example_pages True] lc_init)
   = refs_in (fold (lc_step example_key_api example_lifecycle (calm example_env))
       [PreparePages example_pages True] lc_init)"
  using lifecycle_no_leak [OF example_lifecycle_made, of example_key_api example_env
      "[PreparePages example_pages True]"] by (rule conjunct1)

end
