(* ===== verification/ServiceHost.thy ===== *)
theory ServiceHost
  imports Prelude Complex_Main
begin

text \<open>
  The decoder's control-service thread (\<open>DecoderRemoteFillServiceHost\<close> of
  \<open>lmcache_ascend/v1/remote_fill.py\<close>).  The service, the RPC server, the clock, the thread
  library and the restart callback are the environment \<open>host_env\<close>: each answer, or the exception
  raised, is an arbitrary function of the calls made before it, which \<open>sh_events\<close> records.

  The actions of the callers' threads and of the service thread are separate (\<open>host_action\<close>), and
  a run is an arbitrary interleaving of them.  \<open>start\<close> and \<open>close\<close> hold the lock while they look
  at the flags; an iteration of the loop reads \<open>_stop\<close> only at its head, so a \<open>close\<close> that sets
  it in the middle of an iteration has the same effect as one right after it.
\<close>

section \<open>State\<close>

type_synonym metrics = "(string \<times> int) list"

datatype host_event =
    Serve
  | Clock
  | Maintenance "string list"
  | FatalRestart "string list"
  | ServiceShutdown "string list"
  | ServerClose
  | ReadMetrics
  | LogMetrics metrics
  | ThreadStart

datatype thread_phase = NotStarted | Running | Finished

record host_state =
  sh_stop :: bool
  sh_closed :: bool
  sh_fatal_reported :: bool
  sh_started :: bool
  sh_thread :: thread_phase
  sh_last_metrics :: "metrics option"
  sh_next_idle_metrics_at :: rat
  sh_next_maintenance_at :: rat
  sh_events :: "host_event list"

record host_env =
  he_serve :: "host_event list \<Rightarrow> bool res"
  he_clock :: "host_event list \<Rightarrow> rat"
  he_maintenance :: "host_event list \<Rightarrow> string list res"
  he_fatal_restart :: "host_event list \<Rightarrow> string list \<Rightarrow> exn option"
  he_shutdown :: "host_event list \<Rightarrow> string list res"
  he_server_close :: "host_event list \<Rightarrow> exn option"
  he_metrics :: "host_event list \<Rightarrow> metrics option res"
  he_thread_start :: "host_event list \<Rightarrow> exn option"
  he_debug :: bool

section \<open>Metrics\<close>

text \<open>The values that changed: the increase of a counter, the new value of a gauge.\<close>

definition metric_changes :: "metrics \<Rightarrow> metrics \<Rightarrow> metrics" where
  "metric_changes previous current =
     concat (map (\<lambda>(name, v).
        let old = (case map_of previous name of None \<Rightarrow> 0 | Some x \<Rightarrow> x) in
        if py_endswith name ''_total'' then
          (if v - old \<noteq> 0 then [(name @ ''_delta'', v - old)] else [])
        else if v \<noteq> old then [(name, v)] else []) current)"

definition emit_metrics_if_changed ::
  "host_env \<Rightarrow> bool \<Rightarrow> host_state \<Rightarrow> unit res \<times> host_state" where
  "emit_metrics_if_changed env force h =
     (if \<not> he_debug env then (Inr (), h)
      else let now = he_clock env (sh_events h); h1 = h\<lparr>sh_events := sh_events h @ [Clock]\<rparr> in
        if \<not> force \<and> now < sh_next_idle_metrics_at h1 then (Inr (), h1)
        else let h2 = h1\<lparr>sh_next_idle_metrics_at := now + 1\<rparr> in
          (case he_metrics env (sh_events h2) of
             Inl e \<Rightarrow> (Inl e, h2\<lparr>sh_events := sh_events h2 @ [ReadMetrics]\<rparr>)
           | Inr current \<Rightarrow>
               let previous = sh_last_metrics h2;
                   h3 = h2\<lparr>sh_last_metrics := current, sh_events := sh_events h2 @ [ReadMetrics]\<rparr>
               in (case (current, previous) of
                  (Some c, Some p) \<Rightarrow>
                    let changes = metric_changes p c in
                    (Inr (), if changes = [] then h3
                             else h3\<lparr>sh_events := sh_events h3 @ [LogMetrics changes]\<rparr>)
                | _ \<Rightarrow> (Inr (), h3))))"

section \<open>Operations\<close>

definition host_init :: "host_env \<Rightarrow> host_state res" where
  "host_init env =
     bindR (he_metrics env []) (\<lambda>m.
       let t1 = he_clock env [ReadMetrics]; t2 = he_clock env [ReadMetrics, Clock] in
       Inr \<lparr>sh_stop = False, sh_closed = False, sh_fatal_reported = False, sh_started = False,
         sh_thread = NotStarted, sh_last_metrics = m, sh_next_idle_metrics_at = t1 + 1,
         sh_next_maintenance_at = t2 + 1 / 10, sh_events = [ReadMetrics, Clock, Clock]\<rparr>)"

text \<open>The restart callback, with the flag set before it is called.\<close>

definition report_fatal ::
  "host_env \<Rightarrow> string list \<Rightarrow> host_state \<Rightarrow> unit res \<times> host_state" where
  "report_fatal env fatal h =
     (let h1 = h\<lparr>sh_fatal_reported := True, sh_events := sh_events h @ [FatalRestart fatal]\<rparr> in
      case he_fatal_restart env (sh_events h) fatal of
        Some e \<Rightarrow> (Inl e, h1)
      | None \<Rightarrow> (Inr (), h1))"

text \<open>
  \<open>_shutdown_service_and_server\<close>: the \<open>finally\<close> part runs on every path; its own exception
  replaces the one in flight, and then \<open>_closed\<close> is not set.
\<close>

definition shutdown_body :: "host_env \<Rightarrow> host_state \<Rightarrow> unit res \<times> host_state" where
  "shutdown_body env h =
     (case he_shutdown env (sh_events h) of
        Inl e \<Rightarrow> (Inl e, h\<lparr>sh_events := sh_events h @ [ServiceShutdown []]\<rparr>)
      | Inr fatal \<Rightarrow>
          let h1 = h\<lparr>sh_events := sh_events h @ [ServiceShutdown fatal]\<rparr> in
          if fatal \<noteq> [] \<and> \<not> sh_fatal_reported h1 then report_fatal env fatal h1
          else (Inr (), h1))"

definition shutdown_service_and_server :: "host_env \<Rightarrow> host_state \<Rightarrow> unit res \<times> host_state" where
  "shutdown_service_and_server env h =
     (if sh_closed h then (Inr (), h)
      else case shutdown_body env h of
        (r, h1) \<Rightarrow>
          (case he_server_close env (sh_events h1) of
             Some e \<Rightarrow> (Inl e, h1\<lparr>sh_events := sh_events h1 @ [ServerClose]\<rparr>)
           | None \<Rightarrow> (r, h1\<lparr>sh_events := sh_events h1 @ [ServerClose], sh_closed := True\<rparr>)))"

definition host_start :: "host_env \<Rightarrow> host_state \<Rightarrow> unit res \<times> host_state" where
  "host_start env h =
     (if sh_started h then
        (if sh_closed h then (Inl (RuntimeError ''remote-fill service host is already closed''), h)
         else (Inr (), h))
      else if sh_closed h then
        (Inl (RuntimeError ''remote-fill service host is already closed''), h)
      else let h1 = h\<lparr>sh_started := True, sh_events := sh_events h @ [ThreadStart]\<rparr> in
        (case he_thread_start env (sh_events h) of
           None \<Rightarrow> (Inr (), h1\<lparr>sh_thread := Running\<rparr>)
         | Some e \<Rightarrow>
             (case shutdown_service_and_server env (h1\<lparr>sh_started := False\<rparr>) of
                (Inl e2, h2) \<Rightarrow> (Inl e2, h2)
              | (Inr _, h2) \<Rightarrow> (Inl e, h2))))"

definition host_available :: "host_state \<Rightarrow> bool" where
  "host_available h \<longleftrightarrow>
     sh_started h \<and> \<not> sh_stop h \<and> \<not> sh_closed h \<and> sh_thread h = Running"

text \<open>\<open>close\<close> up to the join; \<open>join\<close> returns when the thread has ended or the timeout passed.\<close>

definition host_close :: "host_env \<Rightarrow> host_state \<Rightarrow> unit res \<times> host_state" where
  "host_close env h =
     (let h1 = h\<lparr>sh_stop := True\<rparr> in
      if \<not> sh_started h1 then shutdown_service_and_server env h1 else (Inr (), h1))"

definition host_join :: "host_state \<Rightarrow> unit res" where
  "host_join h =
     (if sh_started h \<and> sh_thread h = Running then
        Inl (TimeoutError ''remote-fill service thread did not stop'')
      else Inr ())"

text \<open>One iteration of \<open>_run\<close>'s loop.\<close>

definition run_iteration :: "host_env \<Rightarrow> host_state \<Rightarrow> unit res \<times> host_state" where
  "run_iteration env h =
     (case he_serve env (sh_events h) of
        Inl e \<Rightarrow> (Inl e, h\<lparr>sh_events := sh_events h @ [Serve]\<rparr>)
      | Inr served \<Rightarrow>
          let now = he_clock env (sh_events h @ [Serve]);
              h1 = h\<lparr>sh_events := sh_events h @ [Serve, Clock]\<rparr> in
          (case (if \<not> served \<or> sh_next_maintenance_at h1 \<le> now then
                   (case he_maintenance env (sh_events h1) of
                      Inl e \<Rightarrow> (Inl e, h1\<lparr>sh_events := sh_events h1 @ [Maintenance []]\<rparr>)
                    | Inr fatal \<Rightarrow>
                        (Inr fatal, h1\<lparr>sh_events := sh_events h1 @ [Maintenance fatal],
                           sh_next_maintenance_at := now + 1 / 10\<rparr>))
                 else (Inr [], h1)) of
             (Inl e, h2) \<Rightarrow> (Inl e, h2)
           | (Inr fatal, h2) \<Rightarrow>
               (case emit_metrics_if_changed env (fatal \<noteq> []) h2 of
                  (Inl e, h3) \<Rightarrow> (Inl e, h3)
                | (Inr _, h3) \<Rightarrow>
                    if fatal \<noteq> [] \<and> \<not> sh_fatal_reported h3 then
                      (case report_fatal env fatal h3 of
                         (Inl e, h4) \<Rightarrow> (Inl e, h4)
                       | (Inr _, h4) \<Rightarrow> (Inr (), h4\<lparr>sh_stop := True\<rparr>))
                    else (Inr (), h3))))"

text \<open>What the service thread does next: an iteration, or the end of \<open>_run\<close>.\<close>

definition thread_finish :: "host_env \<Rightarrow> host_state \<Rightarrow> host_state" where
  "thread_finish env h = (snd (shutdown_service_and_server env h))\<lparr>sh_thread := Finished\<rparr>"

definition thread_turn :: "host_env \<Rightarrow> host_state \<Rightarrow> host_state" where
  "thread_turn env h =
     (if sh_thread h \<noteq> Running then h
      else if sh_stop h then thread_finish env h
      else case run_iteration env h of
        (Inl e, h1) \<Rightarrow> thread_finish env (h1\<lparr>sh_stop := True\<rparr>)
      | (Inr _, h1) \<Rightarrow> h1)"

datatype host_action = StartCall | CloseCall | ThreadTurn

definition host_step :: "host_env \<Rightarrow> host_action \<Rightarrow> host_state \<Rightarrow> host_state" where
  "host_step env a h =
     (case a of
        StartCall \<Rightarrow> snd (host_start env h)
      | CloseCall \<Rightarrow> snd (host_close env h)
      | ThreadTurn \<Rightarrow> thread_turn env h)"

text \<open>The states an interleaving of the two threads can reach.\<close>

inductive host_reachable :: "host_env \<Rightarrow> host_state \<Rightarrow> bool" for env where
  init: "host_init env = Inr h \<Longrightarrow> host_reachable env h"
| step: "host_reachable env h \<Longrightarrow> host_reachable env (host_step env a h)"

section \<open>Reports of armed transfers\<close>

text \<open>The nonempty sets the service returned, and the sets passed to the restart callback.\<close>

fun event_fatal :: "host_event \<Rightarrow> string list list" where
  "event_fatal (Maintenance f) = (if f = [] then [] else [f])"
| "event_fatal (ServiceShutdown f) = (if f = [] then [] else [f])"
| "event_fatal _ = []"

fun event_restart :: "host_event \<Rightarrow> string list list" where
  "event_restart (FatalRestart f) = [f]"
| "event_restart _ = []"

definition fatals_of :: "host_event list \<Rightarrow> string list list" where
  "fatals_of ev = concat (map event_fatal ev)"

definition restarts_of :: "host_event list \<Rightarrow> string list list" where
  "restarts_of ev = concat (map event_restart ev)"

lemma fatals_simps [simp]:
  "fatals_of [] = []" "fatals_of (e # ev) = event_fatal e @ fatals_of ev"
  "fatals_of (ev @ ev') = fatals_of ev @ fatals_of ev'"
  "restarts_of [] = []" "restarts_of (e # ev) = event_restart e @ restarts_of ev"
  "restarts_of (ev @ ev') = restarts_of ev @ restarts_of ev'"
  by (simp_all add: fatals_of_def restarts_of_def)

abbreviation fatals :: "host_state \<Rightarrow> string list list" where
  "fatals h \<equiv> fatals_of (sh_events h)"

abbreviation restarts :: "host_state \<Rightarrow> string list list" where
  "restarts h \<equiv> restarts_of (sh_events h)"

text \<open>
  The report protocol: at most one restart, flagged; and, when \<open>exact\<close>, the restart carries the
  first set that the service returned.
\<close>

definition report_ok :: "bool \<Rightarrow> bool \<Rightarrow> 'a list \<Rightarrow> 'a list \<Rightarrow> bool" where
  "report_ok exact flag rs fs \<longleftrightarrow>
     (if flag then \<exists>f. rs = [f] \<and> (exact \<longrightarrow> (\<exists>gs. fs = f # gs)) else rs = [] \<and> (exact \<longrightarrow> fs = []))"

lemma report_ok_simps [simp]:
  "report_ok c True [] fs = False" "report_ok c False (f # rs) fs = False"
  "report_ok c True rs fs \<Longrightarrow> report_ok c True rs (fs @ gs)"
  by (auto simp: report_ok_def)

lemma report_ok_new: "report_ok c False rs fs \<Longrightarrow> report_ok c True (rs @ [f]) (fs @ [f])"
  by (auto simp: report_ok_def)

lemma report_ok_lax: "report_ok c flag rs fs \<Longrightarrow> \<not> c \<Longrightarrow> report_ok c flag rs gs"
  by (auto simp: report_ok_def)

definition reported_once :: "bool \<Rightarrow> host_state \<Rightarrow> bool" where
  "reported_once exact h \<longleftrightarrow> report_ok exact (sh_fatal_reported h) (restarts h) (fatals h)"

text \<open>The metrics of the service can always be read.\<close>

definition metrics_readable :: "host_env \<Rightarrow> bool" where
  "metrics_readable env \<longleftrightarrow> (\<forall>ev. \<exists>m. he_metrics env ev = Inr m)"

lemma reported_once_cong:
  "sh_fatal_reported h' = sh_fatal_reported h \<Longrightarrow> fatals h' = fatals h \<Longrightarrow> restarts h' = restarts h
   \<Longrightarrow> reported_once c h' = reported_once c h"
  by (simp add: reported_once_def)

lemma emit_metrics_effect:
  assumes "emit_metrics_if_changed env force h = (r, h')"
  shows "fatals h' = fatals h" "restarts h' = restarts h"
    "sh_fatal_reported h' = sh_fatal_reported h" "sh_started h' = sh_started h"
    "sh_closed h' = sh_closed h" "sh_thread h' = sh_thread h" "sh_stop h' = sh_stop h"
    "metrics_readable env \<Longrightarrow> r = Inr ()"
proof -
  obtain es where "sh_events h' = sh_events h @ es \<and> fatals_of es = [] \<and>
      restarts_of es = [] \<and> sh_fatal_reported h' = sh_fatal_reported h \<and>
      sh_started h' = sh_started h \<and> sh_closed h' = sh_closed h \<and> sh_thread h' = sh_thread h \<and>
      sh_stop h' = sh_stop h"
    using assms
    by (auto simp: emit_metrics_if_changed_def Let_def split: if_splits sum.splits option.splits)
  then show "fatals h' = fatals h" "restarts h' = restarts h"
    "sh_fatal_reported h' = sh_fatal_reported h" "sh_started h' = sh_started h"
    "sh_closed h' = sh_closed h" "sh_thread h' = sh_thread h" "sh_stop h' = sh_stop h"
    by simp_all
  show "r = Inr ()" if "metrics_readable env"
    using assms that
    by (auto simp: emit_metrics_if_changed_def metrics_readable_def Let_def
        split: if_splits sum.splits option.splits) (metis sum.distinct(1))+
qed

lemma report_fatal_effect:
  assumes "report_fatal env f h = (r, h')"
  shows "h' = h\<lparr>sh_fatal_reported := True, sh_events := sh_events h @ [FatalRestart f]\<rparr>"
  using assms by (auto simp: report_fatal_def Let_def split: option.splits)

lemma shutdown_body_effect:
  assumes "shutdown_body env h = (r, h')" "reported_once c h"
  shows "reported_once c h'" "sh_started h' = sh_started h" "sh_closed h' = sh_closed h"
    "sh_thread h' = sh_thread h" "sh_stop h' = sh_stop h"
  using assms
  by (auto simp: shutdown_body_def Let_def reported_once_def report_ok_new
      dest!: report_fatal_effect split: sum.splits if_splits)

lemma shutdown_effect:
  assumes "shutdown_service_and_server env h = (r, h')" "reported_once c h"
  shows "reported_once c h'" "sh_started h' = sh_started h" "sh_thread h' = sh_thread h"
    "sh_stop h' = sh_stop h" "sh_closed h \<Longrightarrow> h' = h"
    "\<forall>ev. he_server_close env ev = None \<Longrightarrow> sh_closed h'"
proof -
  obtain r1 h1 where b: "shutdown_body env h = (r1, h1)" by fastforce
  note e = shutdown_body_effect [OF b assms(2)]
  have "reported_once c (h1\<lparr>sh_events := sh_events h1 @ [ServerClose]\<rparr>)"
    "reported_once c (h1\<lparr>sh_events := sh_events h1 @ [ServerClose], sh_closed := True\<rparr>)"
    using e(1) by (simp_all add: reported_once_def )
  with assms e b show "reported_once c h'" "sh_started h' = sh_started h" "sh_thread h' = sh_thread h"
    "sh_stop h' = sh_stop h" "sh_closed h \<Longrightarrow> h' = h"
    "\<forall>ev. he_server_close env ev = None \<Longrightarrow> sh_closed h'"
    by (auto simp: shutdown_service_and_server_def split: if_splits option.splits)
qed

lemma run_iteration_effect:
  assumes "run_iteration env h = (r, h')" "reported_once c h" "c \<Longrightarrow> metrics_readable env"
  shows "reported_once c h'" "sh_started h' = sh_started h" "sh_closed h' = sh_closed h"
    "sh_thread h' = sh_thread h"
proof -
  have "reported_once c h' \<and> sh_started h' = sh_started h \<and> sh_closed h' = sh_closed h \<and>
    sh_thread h' = sh_thread h"
  proof (cases "he_serve env (sh_events h)")
    case (Inl e)
    then show ?thesis using assms by (auto simp: run_iteration_def reported_once_def )
  next
    case (Inr served)
    let ?h1 = "h\<lparr>sh_events := sh_events h @ [Serve, Clock]\<rparr>"
    let ?now = "he_clock env (sh_events h @ [Serve])"
    obtain rm h2 where m: "(if \<not> served \<or> sh_next_maintenance_at ?h1 \<le> ?now then
        (case he_maintenance env (sh_events ?h1) of
            Inl e \<Rightarrow> (Inl e, ?h1\<lparr>sh_events := sh_events ?h1 @ [Maintenance []]\<rparr>)
          | Inr fatal \<Rightarrow> (Inr fatal, ?h1\<lparr>sh_events := sh_events ?h1 @ [Maintenance fatal],
                           sh_next_maintenance_at := ?now + 1 / 10\<rparr>))
        else (Inr [], ?h1)) = (rm, h2)"
      by (rule prod.exhaust)
    have same: "sh_fatal_reported h2 = sh_fatal_reported h" "sh_started h2 = sh_started h"
      "sh_closed h2 = sh_closed h" "sh_thread h2 = sh_thread h" "restarts h2 = restarts h"
      and fat: "fatals h2 = fatals h @ (case rm of Inl _ \<Rightarrow> [] | Inr f \<Rightarrow> if f = [] then [] else [f])"
      using m by (auto simp:  split: if_splits sum.splits)
    show ?thesis
    proof (cases rm)
      case (Inl e)
      then have "h' = h2" using assms(1) Inr m by (simp add: run_iteration_def Let_def)
      then show ?thesis using same fat Inl assms(2) by (simp add: reported_once_def)
    next
      case rm: (Inr f)
      obtain re h3 where e: "emit_metrics_if_changed env (f \<noteq> []) h2 = (re, h3)" by fastforce
      note em = emit_metrics_effect [OF e]
      show ?thesis
      proof (cases re)
        case (Inl e2)
        then have "h' = h3" using assms Inr m rm e by (simp add: run_iteration_def Let_def)
        moreover have "\<not> c" using Inl em(8) assms(3) by auto
        ultimately show ?thesis using same em assms(2)
            report_ok_lax [of c "sh_fatal_reported h" "restarts h" "fatals h" "fatals h2"]
          by (simp add: reported_once_def)
      next
        case re: (Inr u)
        show ?thesis
        proof (cases "f \<noteq> [] \<and> \<not> sh_fatal_reported h3")
          case True
          obtain rr h4 where rep: "report_fatal env f h3 = (rr, h4)" by fastforce
          note h4 = report_fatal_effect [OF rep]
          have "h' = h4 \<or> h' = h4\<lparr>sh_stop := True\<rparr>"
            using assms Inr m rm e re True rep by (auto simp: run_iteration_def Let_def split: sum.splits)
          moreover have "reported_once c h4" "reported_once c (h4\<lparr>sh_stop := True\<rparr>)"
            using True same fat rm em assms(2) unfolding h4
            by (simp_all add: reported_once_def report_ok_new)
          ultimately show ?thesis using same em h4 by auto
        next
          case False
          then have "h' = h3" using assms Inr m rm e re by (auto simp: run_iteration_def Let_def)
          then show ?thesis using False same fat rm em assms(2)
            by (auto simp: reported_once_def)
        qed
      qed
    qed
  qed
  then show "reported_once c h'" "sh_started h' = sh_started h" "sh_closed h' = sh_closed h"
    "sh_thread h' = sh_thread h" by blast+
qed

text \<open>The other part of the invariant: how the flags and the thread go together.\<close>

definition phase_ok :: "host_state \<Rightarrow> bool" where
  "phase_ok h \<longleftrightarrow>
     (sh_thread h = Running \<longrightarrow> sh_started h \<and> \<not> sh_closed h) \<and>
     (sh_started h \<longleftrightarrow> sh_thread h \<noteq> NotStarted)"

definition host_inv :: "bool \<Rightarrow> host_state \<Rightarrow> bool" where
  "host_inv c h \<longleftrightarrow> reported_once c h \<and> phase_ok h"

lemma host_start_inv:
  assumes "host_inv c h"
  shows "host_inv c (snd (host_start env h))"
proof (cases "sh_started h \<or> sh_closed h")
  case True
  then show ?thesis using assms by (auto simp: host_start_def)
next
  case False
  let ?h1 = "h\<lparr>sh_started := True, sh_events := sh_events h @ [ThreadStart]\<rparr>"
  have r: "reported_once c ?h1" "reported_once c (?h1\<lparr>sh_thread := Running\<rparr>)"
    "reported_once c (?h1\<lparr>sh_started := False\<rparr>)"
    using assms by (auto simp: host_inv_def reported_once_def )
  show ?thesis
  proof (cases "he_thread_start env (sh_events h)")
    case None
    then show ?thesis using False r assms by (simp add: host_start_def host_inv_def phase_ok_def Let_def)
  next
    case (Some e)
    obtain r2 h2 where sd: "shutdown_service_and_server env (?h1\<lparr>sh_started := False\<rparr>) = (r2, h2)"
      by fastforce
    note e = shutdown_effect [OF sd r(3)]
    have "snd (host_start env h) = h2"
      using False Some sd by (auto simp: host_start_def Let_def split: sum.splits)
    then show ?thesis using e False assms by (auto simp: host_inv_def phase_ok_def)
  qed
qed

lemma host_close_inv:
  assumes "host_inv c h"
  shows "host_inv c (snd (host_close env h))"
proof -
  have r: "reported_once c (h\<lparr>sh_stop := True\<rparr>)"
    using assms by (auto simp: host_inv_def reported_once_def )
  obtain r2 h2 where sd: "shutdown_service_and_server env (h\<lparr>sh_stop := True\<rparr>) = (r2, h2)"
    by fastforce
  note e = shutdown_effect [OF sd r]
  show ?thesis
    using e r sd assms by (auto simp: host_close_def Let_def host_inv_def phase_ok_def)
qed

lemma thread_finish_inv:
  assumes "reported_once c h" "sh_started h"
  shows "host_inv c (thread_finish env h)" "sh_thread (thread_finish env h) = Finished"
    "\<forall>ev. he_server_close env ev = None \<Longrightarrow> sh_closed (thread_finish env h)"
proof -
  obtain r2 h2 where sd: "shutdown_service_and_server env h = (r2, h2)" by fastforce
  note e = shutdown_effect [OF sd assms(1)]
  have "reported_once c (h2\<lparr>sh_thread := Finished\<rparr>)"
    using e(1) by (simp add: reported_once_def )
  then show "host_inv c (thread_finish env h)" "sh_thread (thread_finish env h) = Finished"
    "\<forall>ev. he_server_close env ev = None \<Longrightarrow> sh_closed (thread_finish env h)"
    using sd e assms by (auto simp: thread_finish_def host_inv_def phase_ok_def)
qed

lemma thread_turn_inv:
  assumes "host_inv c h" "c \<Longrightarrow> metrics_readable env"
  shows "host_inv c (thread_turn env h)"
proof (cases "sh_thread h = Running \<and> \<not> sh_stop h")
  case False
  then show ?thesis
    using assms thread_finish_inv(1) [of c h env] by (auto simp: thread_turn_def host_inv_def phase_ok_def)
next
  case True
  then have ph: "sh_started h" "\<not> sh_closed h" and rep: "reported_once c h"
    using assms(1) by (auto simp: host_inv_def phase_ok_def)
  obtain r h1 where it: "run_iteration env h = (r, h1)" by fastforce
  note e = run_iteration_effect [OF it rep assms(2)]
  show ?thesis
  proof (cases r)
    case (Inl x)
    have "reported_once c (h1\<lparr>sh_stop := True\<rparr>)"
      using e(1) by (simp add: reported_once_def )
    then show ?thesis
      using True it Inl e ph by (simp add: thread_turn_def thread_finish_inv(1))
  next
    case (Inr u)
    then show ?thesis using True it e ph by (simp add: thread_turn_def host_inv_def phase_ok_def)
  qed
qed

lemma host_init_inv: "host_init env = Inr h \<Longrightarrow> host_inv c h"
  by (auto simp: host_init_def bindR_Inr_iff Let_def host_inv_def reported_once_def report_ok_def phase_ok_def)

lemma host_reachable_inv:
  assumes "host_reachable env h" "c \<Longrightarrow> metrics_readable env"
  shows "host_inv c h"
  using assms(1)
proof induction
  case (init h)
  then show ?case by (rule host_init_inv)
next
  case (step h a)
  then show ?case
    using assms(2) by (cases a) (simp_all add: host_step_def host_start_inv host_close_inv thread_turn_inv)
qed

section \<open>A small host\<close>

text \<open>A service that finds one transfer in an unknown state at every maintenance.\<close>

definition example_host_env :: host_env where
  "example_host_env = \<lparr>he_serve = (\<lambda>_. Inr False), he_clock = (\<lambda>ev. of_nat (length ev)),
     he_maintenance = (\<lambda>_. Inr [''t1'']), he_fatal_restart = (\<lambda>_ _. None),
     he_shutdown = (\<lambda>_. Inr [''t1'']), he_server_close = (\<lambda>_. None),
     he_metrics = (\<lambda>_. Inr (Some [(''served_total'', 1)])), he_thread_start = (\<lambda>_. None),
     he_debug = True\<rparr>"

definition example_host :: "host_action list \<Rightarrow> host_state" where
  "example_host acts = (case host_init example_host_env of
     Inr h \<Rightarrow> fold (host_step example_host_env) acts h | Inl _ \<Rightarrow> undefined)"

lemma example_host_reachable: "host_reachable example_host_env (example_host acts)"
proof -
  obtain h where h: "host_init example_host_env = Inr h"
    by (simp add: host_init_def example_host_env_def bindR_def Let_def)
  have "host_reachable example_host_env (fold (host_step example_host_env) acts h')"
    if "host_reachable example_host_env h'" for h'
    using that by (induction acts arbitrary: h') (simp_all add: host_reachable.step)
  with host_reachable.init [OF h] show ?thesis by (simp add: example_host_def h)
qed

section \<open>Properties\<close>

text \<open>
  C18. Armed transfers are reported once: in every reachable state of the service host, whatever the
  service, the server and the callbacks answer or raise, the whole-deployment restart has been
  requested at most once; and as long as the service's metrics can be read, a restart was requested
  exactly when the service has ever returned a nonempty set, and carries the first such set.
\<close>

theorem host_reports_fatal_once:
  assumes "host_reachable env h"
  shows "length (restarts h) \<le> 1 \<and> (metrics_readable env \<longrightarrow> restarts h = take 1 (fatals h))"
  using host_reachable_inv [OF assms, of False] host_reachable_inv [OF assms, of True]
  by (auto simp: host_inv_def reported_once_def report_ok_def split: if_splits)

theorem host_reports_fatal_once_witness:
  "restarts (example_host [StartCall, ThreadTurn, ThreadTurn]) = [[''t1'']]"
proof -
  have "metrics_readable example_host_env" by (simp add: metrics_readable_def example_host_env_def)
  moreover have "take 1 (fatals (example_host [StartCall, ThreadTurn, ThreadTurn])) = [[''t1'']]"
    by code_simp
  ultimately show ?thesis
    using host_reports_fatal_once [OF example_host_reachable [of "[StartCall, ThreadTurn, ThreadTurn]"]]
    by simp
qed

text \<open>A closed host stays closed: no call and no turn of the thread reaches the service or the
  server again, \<open>start\<close> raises, and the endpoint is not advertised as available.
\<close>

theorem closed_host_is_inert:
  assumes "host_reachable env h" "sh_closed h"
  shows "sh_events (host_step env a h) = sh_events h \<and> sh_closed (host_step env a h) \<and>
    fst (host_start env h) = Inl (RuntimeError ''remote-fill service host is already closed'') \<and>
    \<not> host_available (host_step env a h)"
proof -
  have "phase_ok h" using host_reachable_inv [OF assms(1), of False] by (simp add: host_inv_def)
  with assms(2) have "sh_thread h \<noteq> Running" by (auto simp: phase_ok_def)
  with assms(2) show ?thesis
    by (cases a) (auto simp: host_step_def host_start_def host_close_def host_available_def
        thread_turn_def shutdown_service_and_server_def Let_def)
qed

theorem closed_host_is_inert_witness:
  "fst (host_start example_host_env (example_host [CloseCall])) =
     Inl (RuntimeError ''remote-fill service host is already closed'')"
proof -
  have "sh_closed (example_host [CloseCall])" by code_simp
  from closed_host_is_inert [OF example_host_reachable this] show ?thesis by blast
qed

text \<open>
  C19. Closing ends the service: after \<open>close\<close>, the next turn of the service thread is its last one
  (and none is needed when it never started); the host is then closed for good, provided that the
  server's own \<open>close\<close> does not raise, and a join finds the thread ended.
\<close>

theorem close_ends_service:
  assumes "host_reachable env h" "\<forall>ev. he_server_close env ev = None" "sh_thread h \<noteq> Finished"
  shows "let h' = host_step env ThreadTurn (host_step env CloseCall h) in
      sh_closed h' \<and> host_join h' = Inr () \<and> \<not> host_available h'"
proof -
  have inv: "host_inv False h" by (rule host_reachable_inv [OF assms(1)]) simp
  then have ph: "phase_ok h" by (simp add: host_inv_def)
  define h1 where "h1 = snd (host_close env h)"
  have inv1: "host_inv False h1" unfolding h1_def by (rule host_close_inv [OF inv])
  show ?thesis
  proof (cases "sh_started h")
    case False
    obtain r2 h2 where sd: "shutdown_service_and_server env (h\<lparr>sh_stop := True\<rparr>) = (r2, h2)" by fastforce
    have "reported_once False (h\<lparr>sh_stop := True\<rparr>)"
      using inv by (auto simp: host_inv_def reported_once_def )
    note e = shutdown_effect [OF sd this]
    have "h1 = h2" using False sd by (simp add: h1_def host_close_def Let_def)
    then show ?thesis
      using e assms(2) False ph
      by (auto simp: host_step_def h1_def [symmetric] thread_turn_def host_join_def host_available_def
          phase_ok_def)
  next
    case True
    then have "h1 = h\<lparr>sh_stop := True\<rparr>" by (simp add: h1_def host_close_def Let_def)
    moreover have "sh_thread h = Running" using True ph assms(3) by (cases "sh_thread h") (auto simp: phase_ok_def)
    ultimately have "host_step env ThreadTurn h1 = thread_finish env h1" "sh_started h1"
      using True by (simp_all add: host_step_def thread_turn_def)
    moreover have "reported_once False h1" using inv1 by (simp add: host_inv_def)
    ultimately show ?thesis
      using thread_finish_inv(2,3) [of False h1 env] assms(2)
      by (simp add: host_step_def h1_def [symmetric] Let_def host_join_def host_available_def)
  qed
qed

theorem close_ends_service_witness:
  "sh_closed (host_step example_host_env ThreadTurn
     (host_step example_host_env CloseCall (example_host [StartCall])))"
proof -
  have "\<forall>ev. he_server_close example_host_env ev = None" by (simp add: example_host_env_def)
  moreover have "sh_thread (example_host [StartCall]) \<noteq> Finished" by code_simp
  ultimately show ?thesis
    using close_ends_service [OF example_host_reachable [of "[StartCall]"]] by (simp add: Let_def)
qed

end
