(* ===== verification/RemoteFillRuntime.thy ===== *)
theory RemoteFillRuntime
  imports RemoteFillPages ServiceHost
begin

text \<open>
  Construction of the decoder's runtime (\<open>create_decoder_remote_fill_runtime\<close> of
  \<open>lmcache_ascend/v1/remote_fill.py\<close>) and the placement it advertises
  (\<open>RemoteFillPlacementInfo\<close>).  The state core, the service and the RPC server are built by
  LMCache: their constructors are parameters, which see the arguments the code passes.
\<close>

section \<open>The placement record\<close>

record placement =
  pm_enabled :: bool
  pm_destination_engine_id :: string
  pm_destination_engine_epoch :: int
  pm_control_endpoint :: string
  pm_shared_cache_generation :: int
  pm_protocol_version :: int
  pm_layout_tag :: string
  pm_cache_namespace_tag :: string
  pm_model_artifact_id :: string
  pm_tp_rank :: int
  pm_dp_rank :: int
  pm_destination_tp_size :: int
  pm_destination_dp_size :: int
  pm_global_te_push :: bool
  pm_token_hash_algorithm :: string
  pm_python_hash_seed :: string
  pm_destination_remote_session :: string
  pm_capability :: string

definition placement_to_dict :: "placement \<Rightarrow> (string \<times> pyval) list" where
  "placement_to_dict p =
     [(''enabled'', PBool (pm_enabled p)),
      (''destination_engine_id'', PStr (pm_destination_engine_id p)),
      (''destination_engine_epoch'', PInt (pm_destination_engine_epoch p)),
      (''control_endpoint'', PStr (pm_control_endpoint p)),
      (''shared_cache_generation'', PInt (pm_shared_cache_generation p)),
      (''protocol_version'', PInt (pm_protocol_version p)),
      (''layout_tag'', PStr (pm_layout_tag p)),
      (''cache_namespace_tag'', PStr (pm_cache_namespace_tag p)),
      (''model_artifact_id'', PStr (pm_model_artifact_id p)),
      (''tp_rank'', PInt (pm_tp_rank p)),
      (''dp_rank'', PInt (pm_dp_rank p)),
      (''destination_tp_size'', PInt (pm_destination_tp_size p)),
      (''destination_dp_size'', PInt (pm_destination_dp_size p)),
      (''global_te_push'', PBool (pm_global_te_push p)),
      (''token_hash_algorithm'', PStr (pm_token_hash_algorithm p)),
      (''python_hash_seed'', PStr (pm_python_hash_seed p)),
      (''destination_remote_session'', PStr (pm_destination_remote_session p)),
      (''descriptor_verification_capability'', PStr (pm_capability p))]"

section \<open>The arguments\<close>

text \<open>
  The keyword arguments other than the configuration, the metadata, the layout and the callbacks.
  Whether a reclaimer and a server factory were passed is kept as a flag; the durations of the
  configuration are the values that \<open>float\<close> gives for them.
\<close>

record runtime_args =
  ra_epoch :: int
  ra_dp_rank :: int
  ra_dp_size :: int
  ra_remote_session :: string
  ra_control_host :: string
  ra_advertise_host :: "string option"
  ra_control_port :: int
  ra_generation :: int
  ra_global_te_push :: bool
  ra_save_only_first_rank :: bool
  ra_save_indexer_only_first_rank :: bool
  ra_shared_cpu_cache_strict :: bool
  ra_hash_type :: hash_type
  ra_hash_bytes :: "int option"
  ra_shared_group1 :: bool
  ra_has_reclaimer :: bool
  ra_capability :: "nat list option"
  ra_has_server_factory :: bool
  ra_reservation_ttl_sec :: rat
  ra_descriptor_ttl_sec :: rat
  ra_native_hard_timeout_ms :: rat
  ra_terminal_record_ttl_sec :: rat

text \<open>The arguments of \<open>RemoteFillStateCore\<close>.\<close>

record state_core =
  sc_group_layer_counts :: "(int \<times> int) option"
  sc_epoch :: int
  sc_generation :: int
  sc_verification_key :: "nat list"
  sc_negotiation :: negotiation_spec
  sc_tp_independent :: bool
  sc_lifecycle :: lifecycle
  sc_limits :: protocol_limits
  sc_reservation_ttl_sec :: rat
  sc_descriptor_ttl_sec :: rat
  sc_native_hard_timeout_sec :: rat
  sc_terminal_record_ttl_sec :: rat

text \<open>The arguments of the default RPC server's transport.\<close>

record transport_args =
  ta_endpoint :: string
  ta_recv_timeout_ms :: int
  ta_protocol :: string
  ta_max_frame_bytes :: int
  ta_max_frame_count :: int

record runtime_api =
  rt_layout_api :: layout_api
  rt_env_hash_seed :: string
  rt_generated :: "nat list"
  rt_protocol_version :: int
  rt_make_state :: "state_core \<Rightarrow> unit res"
  rt_make_service :: "state_core \<Rightarrow> protocol_limits \<Rightarrow> unit res"
  rt_make_server :: "transport_args option \<Rightarrow> unit res"
  rt_host_env :: host_env

record runtime =
  rn_lifecycle :: lifecycle
  rn_state :: state_core
  rn_host :: host_state
  rn_placement :: placement

section \<open>Construction\<close>

text \<open>The checks at the head of the constructor, in their order; the result is the advertised host.\<close>

definition check_runtime_args ::
  "config \<Rightarrow> metadata \<Rightarrow> runtime_args \<Rightarrow> string res" where
  "check_runtime_args config metadata a =
     bindR (check (\<not> md_first_rank metadata \<or> md_worker_id metadata \<noteq> 0)
       (ValueError ''remote-fill decoder service must run on physical TP0'')) (\<lambda>_.
     bindR (check (ra_epoch a \<le> 0)
       (ValueError ''remote-fill decoder engine epoch must be positive'')) (\<lambda>_.
     bindR (check (\<not> cf_enable_remote_lmcache_store config)
       (ValueError ''remote-fill decoder runtime requires the feature flag'')) (\<lambda>_.
     bindR (check (\<not> md_use_mla metadata \<or> \<not> cf_local_cpu config)
       (ValueError ''remote-fill decoder requires MLA LocalCPU storage'')) (\<lambda>_.
     bindR (check (\<not> (cf_use_layerwise config \<and> cf_dsa_two_groups config \<and>
           cf_enable_sparse_attention config \<and> ra_save_only_first_rank a \<and>
           ra_save_indexer_only_first_rank a))
       (ValueError ''remote-fill decoder requires TP0 ownership of both groups'')) (\<lambda>_.
     bindR (check (1 < md_world_size metadata \<and>
           \<not> (cf_enable_shared_cpu_cache config \<and> ra_shared_cpu_cache_strict a))
       (ValueError ''remote-fill TP>1 requires strict shared LocalCPU storage'')) (\<lambda>_.
     bindR (check (1 < md_world_size metadata \<and> ra_generation a \<le> 0)
       (ValueError ''remote-fill TP>1 requires a positive shared generation'')) (\<lambda>_.
     bindR (check (ra_dp_rank a < 0 \<or> \<not> (0 \<le> ra_dp_rank a \<and> ra_dp_rank a < ra_dp_size a))
       (ValueError ''remote-fill destination DP rank is out of range'')) (\<lambda>_.
     bindR (check (ra_control_host a = [] \<or> \<not> (0 < ra_control_port a \<and> ra_control_port a < 65536))
       (ValueError ''remote-fill control endpoint is invalid'')) (\<lambda>_.
       validate_advertised_control_host
         (case ra_advertise_host a of
            Some h \<Rightarrow> if h = [] then ra_control_host a else h
          | None \<Rightarrow> ra_control_host a))))))))))"

definition endpoint_of :: "string \<Rightarrow> int \<Rightarrow> string" where
  "endpoint_of host port = format_tcp_host host @ '':'' @ show_int port"

definition create_decoder_remote_fill_runtime ::
  "runtime_api \<Rightarrow> config \<Rightarrow> metadata \<Rightarrow> decoder_layout \<Rightarrow> runtime_args \<Rightarrow> runtime res" where
  "create_decoder_remote_fill_runtime api config metadata layout a =
     bindR (check_runtime_args config metadata a) (\<lambda>advertised_host.
     let engine_id = py_strip (case md_engine_id metadata of None \<Rightarrow> [] | Some e \<Rightarrow> e) in
     bindR (check (engine_id = [])
       (ValueError ''remote-fill decoder requires destination engine_id'')) (\<lambda>_.
     let limits = build_remote_fill_protocol_limits config in
     bindR (build_remote_fill_negotiation_spec (rt_env_hash_seed api) config metadata layout engine_id
         (ra_dp_rank a) (ra_dp_size a) (ra_global_te_push a) (ra_remote_session a) (ra_hash_type a)
         (ra_hash_bytes a) (ra_shared_group1 a)) (\<lambda>negotiation.
     bindR (make_lifecycle layout (ra_hash_type a) (ra_hash_bytes a)
         (if ns_shared_group1 negotiation then [0, 1] else [0]) (ra_has_reclaimer a)) (\<lambda>lifecycle.
     bindR (descriptor_verification_capability (rt_generated api) (ra_capability a)) (\<lambda>capability.
     let state = \<lparr>sc_group_layer_counts = dl_group_layer_counts layout, sc_epoch = ra_epoch a,
           sc_generation = ra_generation a, sc_verification_key = capability,
           sc_negotiation = negotiation,
           sc_tp_independent = (\<not> ns_shared_group1 negotiation \<and>
             remote_fill_tp_independent (rt_layout_api api) config metadata),
           sc_lifecycle = lifecycle, sc_limits = limits,
           sc_reservation_ttl_sec = ra_reservation_ttl_sec a,
           sc_descriptor_ttl_sec = ra_descriptor_ttl_sec a,
           sc_native_hard_timeout_sec = ra_native_hard_timeout_ms a / 1000,
           sc_terminal_record_ttl_sec = ra_terminal_record_ttl_sec a\<rparr> in
     bindR (rt_make_state api state) (\<lambda>_.
     bindR (rt_make_service api state limits) (\<lambda>_.
     bindR (rt_make_server api
         (if ra_has_server_factory a then None
          else Some \<lparr>ta_endpoint = endpoint_of (ra_control_host a) (ra_control_port a),
            ta_recv_timeout_ms = 100, ta_protocol = ''tcp'',
            ta_max_frame_bytes = pl_max_rpc_message_bytes limits + 16,
            ta_max_frame_count = 3\<rparr>)) (\<lambda>_.
     bindR (host_init (rt_host_env api)) (\<lambda>host.
       Inr \<lparr>rn_lifecycle = lifecycle, rn_state = state, rn_host = host,
         rn_placement = \<lparr>pm_enabled = True, pm_destination_engine_id = engine_id,
           pm_destination_engine_epoch = ra_epoch a,
           pm_control_endpoint = ''tcp://'' @ endpoint_of advertised_host (ra_control_port a),
           pm_shared_cache_generation = ra_generation a,
           pm_protocol_version = rt_protocol_version api,
           pm_layout_tag = dl_layout_tag layout,
           pm_cache_namespace_tag = dl_cache_namespace_tag layout,
           pm_model_artifact_id = dl_model_artifact_id layout,
           pm_tp_rank = 0, pm_dp_rank = ra_dp_rank a,
           pm_destination_tp_size = md_world_size metadata,
           pm_destination_dp_size = ra_dp_size a,
           pm_global_te_push = ra_global_te_push a,
           pm_token_hash_algorithm = ns_token_hash_algorithm negotiation,
           pm_python_hash_seed = ns_python_hash_seed negotiation,
           pm_destination_remote_session = ra_remote_session a,
           pm_capability = bytes_hex capability\<rparr>\<rparr>)))))))))"

text \<open>\<open>start\<close>, \<open>available\<close> and \<open>close\<close> of the runtime are the host's.\<close>

definition runtime_start :: "runtime_api \<Rightarrow> runtime \<Rightarrow> unit res \<times> runtime" where
  "runtime_start api r = (case host_start (rt_host_env api) (rn_host r) of (x, h) \<Rightarrow> (x, r\<lparr>rn_host := h\<rparr>))"

definition runtime_available :: "runtime \<Rightarrow> bool" where
  "runtime_available r \<longleftrightarrow> host_available (rn_host r)"

definition runtime_close :: "runtime_api \<Rightarrow> runtime \<Rightarrow> unit res \<times> runtime" where
  "runtime_close api r = (case host_close (rt_host_env api) (rn_host r) of (x, h) \<Rightarrow> (x, r\<lparr>rn_host := h\<rparr>))"

end
