(* ===== verification/ProducerHandoff.thy ===== *)
theory ProducerHandoff
  imports RemoteFillIdentity
begin

text \<open>
  The prefiller's view of a selected decoder (\<open>lmcache_ascend/v1/remote_fill_producer.py\<close>): the
  handoff that the proxy puts into the request configuration and its parser, the static
  negotiation values, the bounded cache of accepted negotiations and the client's endpoint.
\<close>

section \<open>The handoff\<close>

record handoff =
  ho_transfer_id :: string
  ho_request_attempt :: int
  ho_source_engine_id :: string
  ho_destination_engine_id :: string
  ho_destination_engine_epoch :: int
  ho_control_endpoint :: string
  ho_destination_dp_rank :: int
  ho_shared_cache_generation :: int
  ho_destination_tp_size :: int
  ho_destination_dp_size :: int
  ho_global_te_push :: bool
  ho_token_hash_algorithm :: string
  ho_python_hash_seed :: string
  ho_capability :: string

text \<open>\<open>descriptor_verification_key\<close>\<close>

definition descriptor_verification_key :: "handoff \<Rightarrow> nat list res" where
  "descriptor_verification_key h =
     (case bytes_fromhex (ho_capability h) of
        None \<Rightarrow> Inl (ValueError ''non-hexadecimal number found in fromhex() arg'')
      | Some bs \<Rightarrow> Inr bs)"

text \<open>
  The message of \<open>required_text\<close> and \<open>required_int\<close>.  \<open>value.strip()\<close> is only tested; the value
  is returned as it is.
\<close>

definition field_error :: "string \<Rightarrow> string \<Rightarrow> exn" where
  "field_error name problem = ValueError (''lmcache.remote_fill.'' @ name @ problem)"

definition required_text :: "(string \<times> pyval) list \<Rightarrow> string \<Rightarrow> string res" where
  "required_text raw name =
     (case py_get raw name of
        PStr s \<Rightarrow> if py_strip s = [] then Inl (field_error name '' must be nonempty'') else Inr s
      | _ \<Rightarrow> Inl (field_error name '' must be nonempty''))"

definition required_int :: "(string \<times> pyval) list \<Rightarrow> bool \<Rightarrow> string \<Rightarrow> int res" where
  "required_int raw positive name =
     (case py_get raw name of
        PInt i \<Rightarrow>
          if i < (if positive then 1 else 0) then
            Inl (field_error name (if positive then '' must be positive'' else '' must be nonnegative''))
          else Inr i
      | _ \<Rightarrow> Inl (field_error name '' must be an integer''))"

definition capability_error :: exn where
  "capability_error =
     ValueError ''lmcache.remote_fill descriptor verification capability is invalid''"

definition REMOTE_FILL_REQUEST_CONFIG_KEY :: string where
  "REMOTE_FILL_REQUEST_CONFIG_KEY = ''lmcache.remote_fill''"

text \<open>
  The body of \<open>parse_remote_fill_handoff\<close> on the nested mapping, with its checks in their order:
  the flags and the capability first, then the fields in the order of the constructor call.
\<close>

definition parse_handoff_fields :: "(string \<times> pyval) list \<Rightarrow> handoff res" where
  "parse_handoff_fields raw =
     (case py_get raw ''global_te_push'' of
        PBool te \<Rightarrow>
          bindR (required_text raw ''token_hash_algorithm'') (\<lambda>algorithm.
          bindR (case (case map_of raw ''python_hash_seed'' of None \<Rightarrow> PStr [] | Some v \<Rightarrow> v) of
              PStr s \<Rightarrow> Inr s
            | _ \<Rightarrow> Inl (field_error ''python_hash_seed'' '' must be a string'')) (\<lambda>seed.
          bindR (check (algorithm = ''builtin'' \<and> seed = [])
            (field_error ''python_hash_seed'' '' is required for builtin hashing'')) (\<lambda>_.
          bindR (required_text raw ''descriptor_verification_capability'') (\<lambda>capability.
          bindR (case bytes_fromhex capability of
              None \<Rightarrow> Inl capability_error
            | Some key \<Rightarrow> check (length key \<noteq> 32 \<or> bytes_hex key \<noteq> capability) capability_error) (\<lambda>_.
          bindR (required_text raw ''transfer_id'') (\<lambda>transfer_id.
          bindR (required_int raw False ''request_attempt'') (\<lambda>attempt.
          bindR (required_text raw ''source_engine_id'') (\<lambda>source.
          bindR (required_text raw ''destination_engine_id'') (\<lambda>destination.
          bindR (required_int raw True ''destination_engine_epoch'') (\<lambda>epoch.
          bindR (required_text raw ''control_endpoint'') (\<lambda>endpoint.
          bindR (required_int raw False ''destination_dp_rank'') (\<lambda>dp_rank.
          bindR (required_int raw False ''shared_cache_generation'') (\<lambda>generation.
          bindR (required_int raw True ''destination_tp_size'') (\<lambda>tp_size.
          bindR (required_int raw True ''destination_dp_size'') (\<lambda>dp_size.
            Inr \<lparr>ho_transfer_id = transfer_id, ho_request_attempt = attempt,
              ho_source_engine_id = source, ho_destination_engine_id = destination,
              ho_destination_engine_epoch = epoch, ho_control_endpoint = endpoint,
              ho_destination_dp_rank = dp_rank, ho_shared_cache_generation = generation,
              ho_destination_tp_size = tp_size, ho_destination_dp_size = dp_size,
              ho_global_te_push = te, ho_token_hash_algorithm = algorithm,
              ho_python_hash_seed = seed, ho_capability = capability\<rparr>)))))))))))))))
      | _ \<Rightarrow> Inl (field_error ''global_te_push'' '' must be a boolean''))"

text \<open>The request configuration is a mapping, or anything else (\<open>None\<close> included).\<close>

definition parse_remote_fill_handoff :: "pyval \<Rightarrow> handoff option res" where
  "parse_remote_fill_handoff request_configs =
     (case request_configs of
        PMapping configs \<Rightarrow>
          (case py_get configs REMOTE_FILL_REQUEST_CONFIG_KEY of
             PNone \<Rightarrow> Inr None
           | PMapping raw \<Rightarrow> bindR (parse_handoff_fields raw) (\<lambda>h. Inr (Some h))
           | _ \<Rightarrow> Inl (ValueError ''lmcache.remote_fill must be a mapping''))
      | _ \<Rightarrow> Inr None)"

section \<open>Negotiation\<close>

record static_spec =
  sp_cache_namespace_tag :: string
  sp_layout_tag :: string
  sp_model_artifact_id :: string
  sp_chunk_size :: int
  sp_model_layout :: string
  sp_group_dimensions :: "int list"
  sp_layer_count :: int
  sp_save_only_first_rank :: bool
  sp_shared_group1 :: bool
  sp_tp_size :: int
  sp_dp_size :: int
  sp_global_te_push :: bool
  sp_token_hash_algorithm :: string
  sp_python_hash_seed :: string

type_synonym negotiation_key =
  "string \<times> string \<times> int \<times> int \<times> int \<times> int \<times> static_spec"

record negotiation_cache =
  nc_max_entries :: int
  nc_accepted :: "negotiation_key list"

definition make_negotiation_cache :: "int \<Rightarrow> negotiation_cache res" where
  "make_negotiation_cache max_entries =
     (if max_entries \<le> 0 then Inl (ValueError ''negotiation cache bound must be positive'')
      else Inr \<lparr>nc_max_entries = max_entries, nc_accepted = []\<rparr>)"

definition cache_key_of :: "handoff \<Rightarrow> static_spec \<Rightarrow> negotiation_key" where
  "cache_key_of h spec =
     (ho_control_endpoint h, ho_destination_engine_id h, ho_destination_engine_epoch h,
      ho_shared_cache_generation h, ho_destination_dp_rank h, ho_destination_tp_size h, spec)"

definition cache_contains :: "negotiation_key \<Rightarrow> negotiation_cache \<Rightarrow> bool" where
  "cache_contains k c \<longleftrightarrow> k \<in> set (nc_accepted c)"

text \<open>
  \<open>set.pop\<close> removes an arbitrary element: \<open>pick\<close> chooses its position (reduced modulo the size).
  The set is a list without duplicates.
\<close>

definition remove_nth :: "nat \<Rightarrow> 'a list \<Rightarrow> 'a list" where
  "remove_nth n xs = take n xs @ drop (Suc n) xs"

definition cache_record ::
  "(negotiation_key list \<Rightarrow> nat) \<Rightarrow> negotiation_key \<Rightarrow> negotiation_cache \<Rightarrow> negotiation_cache" where
  "cache_record pick k c =
     (if k \<in> set (nc_accepted c) then c
      else let kept = (if nc_max_entries c \<le> int (length (nc_accepted c))
                       then remove_nth (pick (nc_accepted c) mod length (nc_accepted c)) (nc_accepted c)
                       else nc_accepted c)
        in c\<lparr>nc_accepted := kept @ [k]\<rparr>)"

section \<open>The client's endpoint\<close>

text \<open>\<open>s.split(sep, 1)\<close> where \<open>sep in s\<close>: the parts before and after the first occurrence.\<close>

fun split_once :: "string \<Rightarrow> string \<Rightarrow> (string \<times> string) option" where
  "split_once sep [] = (if sep = [] then Some ([], []) else None)"
| "split_once sep (c # cs) =
     (if py_startswith (c # cs) sep then Some ([], drop (length sep) (c # cs))
      else map_option (\<lambda>(a, b). (c # a, b)) (split_once sep cs))"

record client_config =
  cc_protocol :: string
  cc_socket_path :: string
  cc_timeout_ms :: int
  cc_operation_timeouts_ms :: "(string \<times> int) list"

definition create_remote_fill_client :: "string \<Rightarrow> (string \<times> int) list \<Rightarrow> client_config res" where
  "create_remote_fill_client endpoint timeouts =
     (case split_once ''://'' endpoint of
        None \<Rightarrow> Inl (ValueError ''remote-fill endpoint must include its protocol'')
      | Some (protocol, socket_path) \<Rightarrow>
          if protocol = [] \<or> socket_path = [] \<or> timeouts = [] \<or> list_ex (\<lambda>(_, t). t \<le> 0) timeouts then
            Inl (ValueError ''remote-fill endpoint or timeout is invalid'')
          else Inr \<lparr>cc_protocol = protocol, cc_socket_path = socket_path,
            cc_timeout_ms = Max (set (map snd timeouts)), cc_operation_timeouts_ms = timeouts\<rparr>)"

section \<open>Round trip\<close>

text \<open>What the proxy sends for a handoff.\<close>

definition handoff_fields :: "handoff \<Rightarrow> (string \<times> pyval) list" where
  "handoff_fields h =
     [(''transfer_id'', PStr (ho_transfer_id h)),
      (''request_attempt'', PInt (ho_request_attempt h)),
      (''source_engine_id'', PStr (ho_source_engine_id h)),
      (''destination_engine_id'', PStr (ho_destination_engine_id h)),
      (''destination_engine_epoch'', PInt (ho_destination_engine_epoch h)),
      (''control_endpoint'', PStr (ho_control_endpoint h)),
      (''destination_dp_rank'', PInt (ho_destination_dp_rank h)),
      (''shared_cache_generation'', PInt (ho_shared_cache_generation h)),
      (''destination_tp_size'', PInt (ho_destination_tp_size h)),
      (''destination_dp_size'', PInt (ho_destination_dp_size h)),
      (''global_te_push'', PBool (ho_global_te_push h)),
      (''token_hash_algorithm'', PStr (ho_token_hash_algorithm h)),
      (''python_hash_seed'', PStr (ho_python_hash_seed h)),
      (''descriptor_verification_capability'', PStr (ho_capability h))]"

definition handoff_ok :: "handoff \<Rightarrow> bool" where
  "handoff_ok h \<longleftrightarrow>
     py_strip (ho_transfer_id h) \<noteq> [] \<and> py_strip (ho_source_engine_id h) \<noteq> [] \<and>
     py_strip (ho_destination_engine_id h) \<noteq> [] \<and> py_strip (ho_control_endpoint h) \<noteq> [] \<and>
     py_strip (ho_token_hash_algorithm h) \<noteq> [] \<and>
     0 \<le> ho_request_attempt h \<and> 0 < ho_destination_engine_epoch h \<and>
     0 \<le> ho_destination_dp_rank h \<and> 0 \<le> ho_shared_cache_generation h \<and>
     0 < ho_destination_tp_size h \<and> 0 < ho_destination_dp_size h \<and>
     (ho_token_hash_algorithm h = ''builtin'' \<longrightarrow> ho_python_hash_seed h \<noteq> []) \<and>
     (\<exists>key. length key = 32 \<and> (\<forall>b \<in> set key. b < 256) \<and> ho_capability h = bytes_hex key)"

lemma hex_val_range: "hex_val c = Some d \<Longrightarrow> d < 16"
  by (auto simp: hex_val_def Let_def split: if_splits)

lemma bytes_fromhex_range: "bytes_fromhex s = Some bs \<Longrightarrow> \<forall>b \<in> set bs. b < 256"
proof (induction s arbitrary: bs rule: bytes_fromhex.induct)
  case 1
  then show ?case by simp
next
  case (2 c cs)
  show ?case
  proof (cases "(of_char c :: nat) \<in> {9, 10, 11, 12, 13, 32}")
    case True
    then show ?thesis using 2 by simp
  next
    case False
    then obtain d ds a b bs' where cs: "cs = d # ds" and v: "hex_val c = Some a" "hex_val d = Some b"
      and r: "bytes_fromhex ds = Some bs'" "bs = (16 * a + b) # bs'"
      using 2(3) by (auto split: list.splits option.splits)
    have "16 * a + b < 256" using v [THEN hex_val_range] by simp
    moreover have "\<forall>x \<in> set bs'. x < 256"
      by (rule 2(2) [OF False cs refl v r(1)])
    ultimately show ?thesis using r(2) by simp
  qed
qed

lemma hex_digit_visible: "d < 16 \<Longrightarrow> \<not> py_space (hex_digit d)"
  by (auto simp: py_space_def hex_digit_def)

lemma strip_hex:
  assumes "key \<noteq> []" "\<forall>b \<in> set key. b < 256"
  shows "py_strip (bytes_hex key) \<noteq> []"
proof -
  obtain b bs where key: "key = b # bs" using assms(1) by (cases key) auto
  have "b < 256" using assms(2) by (simp add: key)
  then have "b div 16 < 16" by auto
  then have "\<not> py_space (hex_digit (b div 16))" by (rule hex_digit_visible)
  then show ?thesis by (simp add: key bytes_hex_def hex_of_byte_def py_strip_def dropWhile_eq_Nil_conv)
qed

lemma required_text_Inr:
  "required_text raw name = Inr s \<longleftrightarrow> py_get raw name = PStr s \<and> py_strip s \<noteq> []"
  by (auto simp: required_text_def split: pyval.splits)

lemma required_int_Inr:
  "required_int raw positive name = Inr i \<longleftrightarrow>
     py_get raw name = PInt i \<and> (if positive then 1 else 0) \<le> i"
  by (auto simp: required_int_def split: pyval.splits)

lemmas required_Inr = required_text_Inr required_int_Inr

lemma handoff_capability_decodes:
  assumes "handoff_ok h"
  obtains key where "bytes_fromhex (ho_capability h) = Some key" "length key = 32"
    "bytes_hex key = ho_capability h" "py_strip (ho_capability h) \<noteq> []"
proof -
  obtain key where k: "length key = 32" "\<forall>b \<in> set key. b < 256" "ho_capability h = bytes_hex key"
    using assms by (auto simp: handoff_ok_def)
  have "key \<noteq> []" using k(1) by auto
  then have "py_strip (ho_capability h) \<noteq> []" unfolding k(3) using k(2) by (rule strip_hex)
  moreover have "bytes_fromhex (ho_capability h) = Some key" unfolding k(3) by (rule fromhex_hex [OF k(2)])
  ultimately show ?thesis using k(1,3) by (intro that [of key]) simp_all
qed

text \<open>Every field is where the parser looks for it.\<close>

lemma handoff_fields_get [simp]:
  "py_get (handoff_fields h) ''transfer_id'' = PStr (ho_transfer_id h)"
  "py_get (handoff_fields h) ''request_attempt'' = PInt (ho_request_attempt h)"
  "py_get (handoff_fields h) ''source_engine_id'' = PStr (ho_source_engine_id h)"
  "py_get (handoff_fields h) ''destination_engine_id'' = PStr (ho_destination_engine_id h)"
  "py_get (handoff_fields h) ''destination_engine_epoch'' = PInt (ho_destination_engine_epoch h)"
  "py_get (handoff_fields h) ''control_endpoint'' = PStr (ho_control_endpoint h)"
  "py_get (handoff_fields h) ''destination_dp_rank'' = PInt (ho_destination_dp_rank h)"
  "py_get (handoff_fields h) ''shared_cache_generation'' = PInt (ho_shared_cache_generation h)"
  "py_get (handoff_fields h) ''destination_tp_size'' = PInt (ho_destination_tp_size h)"
  "py_get (handoff_fields h) ''destination_dp_size'' = PInt (ho_destination_dp_size h)"
  "py_get (handoff_fields h) ''global_te_push'' = PBool (ho_global_te_push h)"
  "py_get (handoff_fields h) ''token_hash_algorithm'' = PStr (ho_token_hash_algorithm h)"
  "py_get (handoff_fields h) ''descriptor_verification_capability'' = PStr (ho_capability h)"
  "map_of (handoff_fields h) ''python_hash_seed'' = Some (PStr (ho_python_hash_seed h))"
  by (simp_all add: py_get_def handoff_fields_def)

lemma capability_check_Inr:
  "(case bytes_fromhex c of None \<Rightarrow> Inl capability_error
      | Some key \<Rightarrow> check (length key \<noteq> 32 \<or> bytes_hex key \<noteq> c) capability_error) = Inr u \<longleftrightarrow>
   (\<exists>key. bytes_fromhex c = Some key \<and> length key = 32 \<and> bytes_hex key = c)"
  by (auto simp: check_Inr_iff split: option.splits)

lemma parse_handoff_fields_Inr:
  assumes "parse_handoff_fields raw = Inr h"
  shows "py_strip (ho_transfer_id h) \<noteq> [] \<and> py_strip (ho_source_engine_id h) \<noteq> [] \<and>
     py_strip (ho_destination_engine_id h) \<noteq> [] \<and> py_strip (ho_control_endpoint h) \<noteq> [] \<and>
     py_strip (ho_token_hash_algorithm h) \<noteq> [] \<and>
     0 \<le> ho_request_attempt h \<and> 0 < ho_destination_engine_epoch h \<and>
     0 \<le> ho_destination_dp_rank h \<and> 0 \<le> ho_shared_cache_generation h \<and>
     0 < ho_destination_tp_size h \<and> 0 < ho_destination_dp_size h \<and>
     (ho_token_hash_algorithm h = ''builtin'' \<longrightarrow> ho_python_hash_seed h \<noteq> []) \<and>
     (\<exists>key. bytes_fromhex (ho_capability h) = Some key \<and> length key = 32 \<and>
        bytes_hex key = ho_capability h)"
proof (cases "py_get raw ''global_te_push''")
  case (PBool te)
  with assms show ?thesis
    unfolding parse_handoff_fields_def
    by (simp only: pyval.case bindR_Inr_iff check_Inr_iff required_Inr capability_check_Inr
        if_True if_False sum.inject) (elim exE conjE, hypsubst, simp)
qed (use assms in \<open>simp_all add: parse_handoff_fields_def\<close>)

lemma handoff_parses:
  assumes "handoff_ok h"
  shows "parse_handoff_fields (handoff_fields h) = Inr h"
proof -
  from handoff_capability_decodes [OF assms] obtain key where
    key: "bytes_fromhex (ho_capability h) = Some key" "length key = 32"
      "bytes_hex key = ho_capability h" "py_strip (ho_capability h) \<noteq> []" .
  have t: "required_text (handoff_fields h) n = Inr s"
    if "py_get (handoff_fields h) n = PStr s" "py_strip s \<noteq> []" for n s
    using that by (simp add: required_text_Inr)
  have i: "required_int (handoff_fields h) p n = Inr j"
    if "py_get (handoff_fields h) n = PInt j" "(if p then 1 else 0) \<le> j" for n p j
    using that by (simp add: required_int_Inr)
  show ?thesis
    using assms key unfolding parse_handoff_fields_def handoff_ok_def
    by (simp add: t i check_def)
qed

section \<open>Properties\<close>

text \<open>
  C21. Parsing a handoff reads back what the proxy sent: a handoff whose fields are valid, written
  as the nested mapping of the request configuration, is parsed to itself.
\<close>

theorem handoff_round_trip:
  assumes "handoff_ok h"
  shows "parse_remote_fill_handoff
    (PMapping [(REMOTE_FILL_REQUEST_CONFIG_KEY, PMapping (handoff_fields h))]) = Inr (Some h)"
  using handoff_parses [OF assms] by (simp add: parse_remote_fill_handoff_def py_get_def)

text \<open>
  Every handoff the parser returns is valid: nonempty identities, sizes and epoch in range, a
  seed for the builtin hash, and a verification key of exactly 32 bytes, written as its canonical
  hexadecimal text.
\<close>

theorem parsed_handoff_valid:
  assumes "parse_remote_fill_handoff request_configs = Inr (Some h)"
  shows "handoff_ok h \<and> (\<exists>key. descriptor_verification_key h = Inr key \<and> length key = 32)"
proof -
  from assms obtain raw where raw: "parse_handoff_fields raw = Inr h"
    by (auto simp: parse_remote_fill_handoff_def bindR_Inr_iff split: pyval.splits)
  from parse_handoff_fields_Inr [OF raw] obtain key where
    key: "bytes_fromhex (ho_capability h) = Some key" "length key = 32"
      "bytes_hex key = ho_capability h" by blast
  have "\<exists>key. length key = 32 \<and> (\<forall>b \<in> set key. b < 256) \<and> ho_capability h = bytes_hex key"
    using key bytes_fromhex_range [OF key(1)] by (intro exI [of _ key]) simp
  then have "handoff_ok h"
    using parse_handoff_fields_Inr [OF raw] unfolding handoff_ok_def by blast
  with key show ?thesis by (simp add: descriptor_verification_key_def)
qed

section \<open>The negotiation cache\<close>

definition cache_ok :: "negotiation_cache \<Rightarrow> bool" where
  "cache_ok c \<longleftrightarrow> 0 < nc_max_entries c \<and> distinct (nc_accepted c) \<and>
     int (length (nc_accepted c)) \<le> nc_max_entries c"

lemma remove_nth_props:
  assumes "n < length xs"
  shows "length (remove_nth n xs) = length xs - 1" "set (remove_nth n xs) \<subseteq> set xs"
    "distinct xs \<Longrightarrow> distinct (remove_nth n xs)"
proof -
  show "length (remove_nth n xs) = length xs - 1" using assms by (simp add: remove_nth_def)
  show "set (remove_nth n xs) \<subseteq> set xs"
    by (auto simp: remove_nth_def dest: in_set_takeD in_set_dropD)
  show "distinct (remove_nth n xs)" if "distinct xs"
    using that by (auto simp: remove_nth_def intro: set_take_disj_set_drop_if_distinct
        dest: set_take_disj_set_drop_if_distinct [of xs n "Suc n"])
qed

lemma cache_record_props:
  assumes "cache_ok c"
  shows "cache_ok (cache_record pick k c)" "cache_contains k (cache_record pick k c)"
    "nc_max_entries (cache_record pick k c) = nc_max_entries c"
    "cache_contains k' (cache_record pick k c) \<Longrightarrow> k' = k \<or> cache_contains k' c"
proof -
  let ?acc = "nc_accepted c"
  let ?n = "pick ?acc mod length ?acc"
  have full: "?n < length ?acc" if "nc_max_entries c \<le> int (length ?acc)"
    using assms that by (auto simp: cache_ok_def intro!: mod_less_divisor)
  show "cache_ok (cache_record pick k c)" 
    using assms full remove_nth_props [of ?n ?acc]
    by (auto simp: cache_record_def cache_ok_def Let_def)
  show "cache_contains k (cache_record pick k c)"
    "nc_max_entries (cache_record pick k c) = nc_max_entries c"
    by (auto simp: cache_record_def cache_contains_def Let_def)
  show "k' = k \<or> cache_contains k' c" if "cache_contains k' (cache_record pick k c)"
    using that full remove_nth_props(2) [of ?n ?acc]
    by (auto simp: cache_record_def cache_contains_def Let_def split: if_splits)
qed

text \<open>The negotiation cache is bounded and sound: after any sequence of recorded negotiations it
  holds at most the configured number of keys; a key it contains was recorded, and the key
  recorded last is always contained, whichever entries \<open>set.pop\<close> evicted.
\<close>

theorem negotiation_cache_bounded:
  assumes "make_negotiation_cache bound = Inr c0"
  shows "let c = fold (cache_record pick) ks c0 in
     int (length (nc_accepted c)) \<le> bound \<and> distinct (nc_accepted c) \<and>
     (\<forall>k. cache_contains k c \<longrightarrow> k \<in> set ks) \<and> (ks \<noteq> [] \<longrightarrow> cache_contains (last ks) c)"
proof -
  have c0: "cache_ok c0" "nc_accepted c0 = []" "nc_max_entries c0 = bound"
    using assms by (auto simp: make_negotiation_cache_def cache_ok_def split: if_splits)
  have "cache_ok c \<and> nc_max_entries c = bound \<and> (\<forall>k. cache_contains k c \<longrightarrow> k \<in> set ks) \<and>
      (ks \<noteq> [] \<longrightarrow> cache_contains (last ks) c)" if "c = fold (cache_record pick) ks c0" for c
    using that
  proof (induction ks arbitrary: c rule: rev_induct)
    case Nil
    then show ?case using c0 by (simp add: cache_contains_def)
  next
    case (snoc k ks)
    let ?c = "fold (cache_record pick) ks c0"
    have c: "c = cache_record pick k ?c" using snoc.prems by simp
    note ih = snoc.IH [OF refl]
    note r = cache_record_props [of ?c, where pick = pick and k = k]
    have old: "k' \<in> set ks" if "cache_contains k' ?c" for k'
      using ih [THEN conjunct2, THEN conjunct2, THEN conjunct1, THEN spec, THEN mp, OF that] .
    have "k' \<in> set (ks @ [k])" if "cache_contains k' c" for k'
      using r(4) [of k', OF conjunct1 [OF ih] that [unfolded c]]
    proof
      assume "k' = k" then show ?thesis by simp
    next
      assume "cache_contains k' ?c" then show ?thesis using old [of k'] by simp
    qed
    moreover have "cache_ok c" "nc_max_entries c = bound" "cache_contains (last (ks @ [k])) c"
      using r(1-3) ih unfolding c by simp_all
    ultimately show ?case by blast
  qed
  then show ?thesis by (simp add: cache_ok_def Let_def)
qed

lemma split_once_Some:
  "split_once sep s = Some (a, b) \<Longrightarrow> s = a @ sep @ b"
proof (induction s arbitrary: a b)
  case Nil
  then show ?case by (simp split: if_splits)
next
  case (Cons c cs)
  then show ?case
    by (auto simp: py_startswith_def split: if_splits) (metis append_take_drop_id)
qed

lemma split_once_intro:
  assumes "sep \<noteq> []" "\<And>i. i < length a \<Longrightarrow> \<not> py_startswith (drop i (a @ sep @ b)) sep"
  shows "split_once sep (a @ sep @ b) = Some (a, b)"
  using assms(2)
proof (induction a)
  case Nil
  then show ?case using assms(1) by (cases sep) (simp_all add: py_startswith_def)
next
  case (Cons c a)
  have "\<not> py_startswith (drop i (a @ sep @ b)) sep" if "i < length a" for i
    using Cons.prems [of "Suc i"] that by simp
  then show ?case using Cons.IH Cons.prems [of 0] by simp
qed

lemma tcp_endpoint_splits: "split_once ''://'' (''tcp://'' @ addr) = Some (''tcp'', addr)"
  by (simp add: py_startswith_def)

section \<open>Examples\<close>

definition example_handoff :: handoff where
  "example_handoff = \<lparr>ho_transfer_id = ''t'', ho_request_attempt = 0, ho_source_engine_id = ''p0'',
     ho_destination_engine_id = ''d0'', ho_destination_engine_epoch = 7,
     ho_control_endpoint = ''tcp://10.0.0.1:5000'', ho_destination_dp_rank = 0,
     ho_shared_cache_generation = 3, ho_destination_tp_size = 4, ho_destination_dp_size = 1,
     ho_global_te_push = True, ho_token_hash_algorithm = ''sha256:bytes:32'',
     ho_python_hash_seed = [], ho_capability = bytes_hex (replicate 32 171)\<rparr>"

lemma example_handoff_ok: "handoff_ok example_handoff"
proof -
  have "\<exists>key. length key = 32 \<and> (\<forall>b \<in> set key. b < 256) \<and>
      ho_capability example_handoff = bytes_hex key"
    by (rule exI [of _ "replicate 32 171"]) (simp add: example_handoff_def)
  moreover have "py_strip (ho_transfer_id example_handoff) \<noteq> []"
    "py_strip (ho_source_engine_id example_handoff) \<noteq> []"
    "py_strip (ho_destination_engine_id example_handoff) \<noteq> []"
    "py_strip (ho_control_endpoint example_handoff) \<noteq> []"
    "py_strip (ho_token_hash_algorithm example_handoff) \<noteq> []"
    "ho_token_hash_algorithm example_handoff \<noteq> ''builtin''"
    by (simp_all add: example_handoff_def py_strip_def py_space_def)
  ultimately show ?thesis by (simp add: handoff_ok_def) (simp add: example_handoff_def)
qed

theorem handoff_round_trip_witness:
  "parse_remote_fill_handoff (PMapping [(REMOTE_FILL_REQUEST_CONFIG_KEY,
     PMapping (handoff_fields example_handoff))]) = Inr (Some example_handoff)"
  by (rule handoff_round_trip [OF example_handoff_ok])

lemma example_handoff_parsed:
  "parse_remote_fill_handoff (PMapping [(REMOTE_FILL_REQUEST_CONFIG_KEY,
     PMapping (handoff_fields example_handoff))]) = Inr (Some example_handoff)"
  using handoff_parses [OF example_handoff_ok] by (simp add: parse_remote_fill_handoff_def py_get_def)

theorem parsed_handoff_valid_witness:
  "\<exists>key. descriptor_verification_key example_handoff = Inr key \<and> length key = 32"
  using parsed_handoff_valid [OF example_handoff_parsed] by blast

definition example_spec_values :: static_spec where
  "example_spec_values = \<lparr>sp_cache_namespace_tag = ''ns'', sp_layout_tag = ''tag'',
     sp_model_artifact_id = ''artifact'', sp_chunk_size = 4, sp_model_layout = ''l'',
     sp_group_dimensions = [3, 2], sp_layer_count = 2, sp_save_only_first_rank = True,
     sp_shared_group1 = True, sp_tp_size = 4, sp_dp_size = 1, sp_global_te_push = True,
     sp_token_hash_algorithm = ''sha256:bytes:32'', sp_python_hash_seed = []\<rparr>"

theorem negotiation_cache_bounded_witness:
  "let c = fold (cache_record (\<lambda>_. 0))
     (map (\<lambda>e. cache_key_of (example_handoff\<lparr>ho_destination_engine_epoch := e\<rparr>) example_spec_values)
       [1, 2, 3]) \<lparr>nc_max_entries = 2, nc_accepted = []\<rparr>
   in int (length (nc_accepted c)) \<le> 2"
proof -
  have "make_negotiation_cache 2 = Inr \<lparr>nc_max_entries = 2, nc_accepted = []\<rparr>"
    by (simp add: make_negotiation_cache_def)
  from negotiation_cache_bounded [OF this] show ?thesis unfolding Let_def by blast
qed

end
