(* ===== verification/Effects.thy ===== *)
theory Effects
  imports Prelude
begin

text \<open>
  Methods that change an object and may raise: functions from the object's state to a result and
  the new state.  An exception keeps the changes made before it, as in the code.
\<close>

type_synonym ('s, 'a) act = "'s \<Rightarrow> 'a res \<times> 's"

definition retA :: "'a \<Rightarrow> ('s, 'a) act" where
  "retA x = (\<lambda>s. (Inr x, s))"

definition raiseA :: "exn \<Rightarrow> ('s, 'a) act" where
  "raiseA e = (\<lambda>s. (Inl e, s))"

definition bindA :: "('s, 'a) act \<Rightarrow> ('a \<Rightarrow> ('s, 'b) act) \<Rightarrow> ('s, 'b) act" where
  "bindA m f = (\<lambda>s. case m s of (Inl e, t) \<Rightarrow> (Inl e, t) | (Inr x, t) \<Rightarrow> f x t)"

definition seqA :: "('s, 'a) act \<Rightarrow> ('s, 'b) act \<Rightarrow> ('s, 'b) act" where
  "seqA m n = bindA m (\<lambda>_. n)"

text \<open>\<open>try\<close>: the result of \<open>m\<close>, or its exception, as a value.\<close>

definition attemptA :: "('s, 'a) act \<Rightarrow> ('s, 'a res) act" where
  "attemptA m = (\<lambda>s. case m s of (r, t) \<Rightarrow> (Inr r, t))"

definition readA :: "('s \<Rightarrow> 'a) \<Rightarrow> ('s, 'a) act" where
  "readA f = (\<lambda>s. (Inr (f s), s))"

definition writeA :: "('s \<Rightarrow> 's) \<Rightarrow> ('s, unit) act" where
  "writeA f = (\<lambda>s. (Inr (), f s))"

text \<open>A computation on the second part of a state, and a \<open>for\<close> loop.\<close>

definition innerA :: "('s, 'a) act \<Rightarrow> ('l \<times> 's, 'a) act" where
  "innerA m = (\<lambda>(l, s). case m s of (r, t) \<Rightarrow> (r, (l, t)))"

fun eachA :: "('x \<Rightarrow> ('s, unit) act) \<Rightarrow> 'x list \<Rightarrow> ('s, unit) act" where
  "eachA f [] = retA ()"
| "eachA f (x # xs) = seqA (f x) (eachA f xs)"

text \<open>A computation without effects.\<close>

definition liftA :: "'a res \<Rightarrow> ('s, 'a) act" where
  "liftA r = (\<lambda>s. (r, s))"

lemmas act_defs = retA_def raiseA_def bindA_def seqA_def attemptA_def readA_def writeA_def liftA_def

lemma bindA_readA: "bindA (readA f) g s = g (f s) s"
  by (simp add: bindA_def readA_def)

text \<open>Case analysis of a run: the successful runs of each combinator.\<close>

named_theorems act_runs \<open>successful runs of the combinators\<close>

lemma bindA_Inr [act_runs]:
  "bindA m f s = (Inr y, u) \<longleftrightarrow> (\<exists>x t. m s = (Inr x, t) \<and> f x t = (Inr y, u))"
  by (auto simp: bindA_def split: prod.splits sum.splits)

lemma seqA_Inr [act_runs]:
  "seqA m n s = (Inr y, u) \<longleftrightarrow> (\<exists>x t. m s = (Inr x, t) \<and> n t = (Inr y, u))"
  by (simp add: seqA_def bindA_Inr)

lemma simple_Inr [act_runs]:
  "retA x s = (Inr y, u) \<longleftrightarrow> x = y \<and> u = s"
  "raiseA e s = (Inr y, u) \<longleftrightarrow> False"
  "readA g s = (Inr x, u) \<longleftrightarrow> x = g s \<and> u = s"
  "writeA h s = (Inr z, u) \<longleftrightarrow> u = h s"
  "liftA r s = (Inr y, u) \<longleftrightarrow> r = Inr y \<and> u = s"
  "attemptA m s = (Inr r', u) \<longleftrightarrow> m s = (r', u)"
  by (auto simp: act_defs split: prod.splits)

text \<open>
  The interface for relational invariants: a relation on states that every step of a component
  respects is respected by everything composed of such steps.
\<close>

locale frame =
  fixes R :: "'s \<Rightarrow> 's \<Rightarrow> bool"
  assumes frame_refl: "R s s"
    and frame_trans: "R s t \<Longrightarrow> R t u \<Longrightarrow> R s u"
begin

definition keeps :: "('s, 'a) act \<Rightarrow> bool" where
  "keeps m \<longleftrightarrow> (\<forall>s. R s (snd (m s)))"

lemma keepsD: "keeps m \<Longrightarrow> m s = (r, t) \<Longrightarrow> R s t"
  by (metis keeps_def snd_conv)

lemma keeps_at: "keeps m \<Longrightarrow> R s (snd (m s))"
  unfolding keeps_def by (rule spec)

lemma keeps_ret: "keeps (retA x)"
  by (simp add: keeps_def retA_def frame_refl)

lemma keeps_raise: "keeps (raiseA e)"
  by (simp add: keeps_def raiseA_def frame_refl)

lemma keeps_read: "keeps (readA f)"
  by (simp add: keeps_def readA_def frame_refl)

lemma keeps_lift: "keeps (liftA r)"
  by (simp add: keeps_def liftA_def frame_refl)

lemma keeps_write: "(\<And>s. R s (f s)) \<Longrightarrow> keeps (writeA f)"
  by (simp add: keeps_def writeA_def)

lemma keeps_bind:
  assumes "keeps m" "\<And>x. keeps (f x)"
  shows "keeps (bindA m f)"
  unfolding keeps_def
proof
  fix s
  obtain r t where m: "m s = (r, t)" by fastforce
  have "R s t" using assms(1) m by (rule keepsD)
  show "R s (snd (bindA m f s))"
  proof (cases r)
    case (Inl e)
    then show ?thesis using m \<open>R s t\<close> by (simp add: bindA_def)
  next
    case (Inr x)
    have "R t (snd (f x t))" using assms(2) by (simp add: keeps_def)
    then show ?thesis using m Inr \<open>R s t\<close> by (auto simp: bindA_def intro: frame_trans)
  qed
qed

lemma keeps_seq: "keeps m \<Longrightarrow> keeps n \<Longrightarrow> keeps (seqA m n)"
  unfolding seqA_def by (rule keeps_bind)

lemma keeps_attempt: "keeps m \<Longrightarrow> keeps (attemptA m)"
  by (auto simp: keeps_def attemptA_def split: prod.splits) (metis snd_conv)

lemma keeps_if: "(c \<Longrightarrow> keeps m) \<Longrightarrow> (\<not> c \<Longrightarrow> keeps n) \<Longrightarrow> keeps (if c then m else n)"
  by simp

lemma keeps_case_res:
  fixes r :: "'x + 'y"
  shows "(\<And>e. r = Inl e \<Longrightarrow> keeps (f e)) \<Longrightarrow> (\<And>x. r = Inr x \<Longrightarrow> keeps (g x)) \<Longrightarrow>
   keeps (case r of Inl e \<Rightarrow> f e | Inr x \<Rightarrow> g x)"
  by (cases r) simp_all

lemma keeps_case_option:
  "(x = None \<Longrightarrow> keeps m) \<Longrightarrow> (\<And>y. x = Some y \<Longrightarrow> keeps (f y)) \<Longrightarrow>
   keeps (case x of None \<Rightarrow> m | Some y \<Rightarrow> f y)"
  by (cases x) simp_all

lemma keeps_case_prod: "(\<And>x y. p = (x, y) \<Longrightarrow> keeps (f x y)) \<Longrightarrow> keeps (case p of (x, y) \<Rightarrow> f x y)"
  by (cases p) simp

lemma keeps_let: "keeps (f x) \<Longrightarrow> keeps (let y = x in f y)"
  by simp

lemma keeps_each: "(\<And>x. keeps (f x)) \<Longrightarrow> keeps (eachA f xs)"
  by (induction xs) (auto intro: keeps_ret keeps_seq)

lemmas keeps_intros = keeps_ret keeps_raise keeps_read keeps_lift keeps_bind keeps_seq keeps_attempt
  keeps_if keeps_case_res keeps_case_option keeps_case_prod keeps_let keeps_each

end

section \<open>Results of a run\<close>

text \<open>A postcondition of the successful runs, with the rules of each construct.\<close>

definition yields :: "('s \<Rightarrow> bool) \<Rightarrow> ('s, 'a) act \<Rightarrow> ('a \<Rightarrow> 's \<Rightarrow> bool) \<Rightarrow> bool" where
  "yields P m Q \<longleftrightarrow> (\<forall>s x t. P s \<longrightarrow> m s = (Inr x, t) \<longrightarrow> Q x t)"

lemma yieldsD: "yields P m Q \<Longrightarrow> P s \<Longrightarrow> m s = (Inr x, t) \<Longrightarrow> Q x t"
  by (simp add: yields_def)

lemma yields_bind: "yields P m Q \<Longrightarrow> (\<And>x. yields (Q x) (f x) R) \<Longrightarrow> yields P (bindA m f) R"
  unfolding yields_def bindA_Inr by blast

lemma yields_any: "yields P m (\<lambda>_ _. True)"
  by (simp add: yields_def)

lemma yields_then: "(\<And>x. yields (\<lambda>_. True) (f x) R) \<Longrightarrow> yields P (bindA m f) R"
  by (rule yields_bind [OF yields_any])

lemma yields_weaken: "yields (\<lambda>_. True) m Q \<Longrightarrow> yields P m Q"
  by (simp add: yields_def)

lemma yields_ret: "(\<And>s. P s \<Longrightarrow> Q x s) \<Longrightarrow> yields P (retA x) Q"
  by (simp add: yields_def retA_def)

lemma yields_raise: "yields P (raiseA e) Q"
  by (simp add: yields_def raiseA_def)

lemma yields_read: "(\<And>s. P s \<Longrightarrow> Q (f s) s) \<Longrightarrow> yields P (readA f) Q"
  by (simp add: yields_def readA_def)

lemma yields_write: "(\<And>s. P s \<Longrightarrow> Q () (f s)) \<Longrightarrow> yields P (writeA f) Q"
  by (simp add: yields_def writeA_def)

lemma yields_seq: "yields P m (\<lambda>_. Q) \<Longrightarrow> yields Q n R \<Longrightarrow> yields P (seqA m n) R"
  unfolding seqA_def by (rule yields_bind)

lemma yields_if: "(c \<Longrightarrow> yields P m Q) \<Longrightarrow> (\<not> c \<Longrightarrow> yields P n Q) \<Longrightarrow> yields P (if c then m else n) Q"
  by simp

lemma yields_case_res:
  fixes r :: "'x + 'y"
  shows "(\<And>e. r = Inl e \<Longrightarrow> yields P (f e) Q) \<Longrightarrow> (\<And>x. r = Inr x \<Longrightarrow> yields P (g x) Q) \<Longrightarrow>
   yields P (case r of Inl e \<Rightarrow> f e | Inr x \<Rightarrow> g x) Q"
  by (cases r) simp_all

lemma yields_case_option:
  "(x = None \<Longrightarrow> yields P m Q) \<Longrightarrow> (\<And>y. x = Some y \<Longrightarrow> yields P (f y) Q) \<Longrightarrow>
   yields P (case x of None \<Rightarrow> m | Some y \<Rightarrow> f y) Q"
  by (cases x) simp_all

lemma yields_case_prod:
  "(\<And>x y. p = (x, y) \<Longrightarrow> yields P (f x y) Q) \<Longrightarrow> yields P (case p of (x, y) \<Rightarrow> f x y) Q"
  by (cases p) simp

lemma yields_let: "yields P (f x) Q \<Longrightarrow> yields P (let y = x in f y) Q"
  by simp

section \<open>Accounting of references\<close>

text \<open>
  What a computation does to a count: the change if it raises, and the change for each result.  The
  rules compose these over the constructs, so that the balance of an operation is a calculation.
\<close>

locale accounting =
  fixes count :: "'s \<Rightarrow> 'p \<Rightarrow> int"
begin

definition changes :: "('s, 'a) act \<Rightarrow> ('p \<Rightarrow> int) \<Rightarrow> ('a \<Rightarrow> 'p \<Rightarrow> int) \<Rightarrow> bool" where
  "changes m lost gained \<longleftrightarrow>
     (\<forall>s p. count (snd (m s)) p = count s p + (case fst (m s) of Inl _ \<Rightarrow> lost p | Inr x \<Rightarrow> gained x p))"

lemma changesD:
  "changes m lost gained \<Longrightarrow> m s = (r, t) \<Longrightarrow>
   count t p = count s p + (case r of Inl _ \<Rightarrow> lost p | Inr x \<Rightarrow> gained x p)"
  unfolding changes_def by (metis fst_conv snd_conv)

lemma changes_ret: "(\<And>p. gained x p = 0) \<Longrightarrow> changes (retA x) lost gained"
  by (simp add: changes_def retA_def)

lemma changes_raise: "(\<And>p. lost p = 0) \<Longrightarrow> changes (raiseA e) lost gained"
  by (simp add: changes_def raiseA_def)

lemma changes_read: "(\<And>x p. gained x p = 0) \<Longrightarrow> changes (readA f) lost gained"
  by (simp add: changes_def readA_def)

lemma changes_lift: "(\<And>p. lost p = 0) \<Longrightarrow> (\<And>x p. gained x p = 0) \<Longrightarrow> changes (liftA r) lost gained"
  by (simp add: changes_def liftA_def split: sum.split)

lemma changes_write: "(\<And>s p. count (f s) p = count s p + gained () p) \<Longrightarrow> changes (writeA f) lost gained"
  by (simp add: changes_def writeA_def)

lemma changes_bind:
  assumes "changes m lost mid"
    "\<And>x s t. m s = (Inr x, t) \<Longrightarrow> changes (f x) (\<lambda>p. lost p - mid x p) (\<lambda>y p. gained y p - mid x p)"
  shows "changes (bindA m f) lost gained"
  unfolding changes_def
proof (intro allI)
  fix s p
  obtain r t where m: "m s = (r, t)" by (metis surj_pair)
  show "count (snd (bindA m f s)) p =
      count s p + (case fst (bindA m f s) of Inl _ \<Rightarrow> lost p | Inr y \<Rightarrow> gained y p)"
  proof (cases r)
    case (Inl e)
    then show ?thesis using changesD [OF assms(1) m, of p] m by (simp add: bindA_def)
  next
    case (Inr x)
    obtain r' u where f: "f x t = (r', u)" by (metis surj_pair)
    show ?thesis using changesD [OF assms(1) m, of p] changesD [OF assms(2) [OF m [unfolded Inr]] f, of p] m f Inr
      by (simp add: bindA_def split: sum.splits)
  qed
qed

lemma changes_seq:
  assumes "changes m lost mid" "changes n (\<lambda>p. lost p - mid () p) (\<lambda>y p. gained y p - mid () p)"
  shows "changes (seqA m n) lost gained"
  unfolding seqA_def by (rule changes_bind [OF assms(1)]) (use assms(2) in simp)

lemma changes_attempt: "changes m lost gained \<Longrightarrow>
   changes (attemptA m) lost' (\<lambda>r. case r of Inl _ \<Rightarrow> lost | Inr x \<Rightarrow> gained x)"
  by (auto simp: changes_def attemptA_def split: prod.splits sum.splits) (metis fst_conv snd_conv sum.case)+

lemma changes_if: "(c \<Longrightarrow> changes m lost gained) \<Longrightarrow> (\<not> c \<Longrightarrow> changes n lost gained) \<Longrightarrow>
   changes (if c then m else n) lost gained"
  by simp

lemma changes_case_res:
  fixes r :: "'x + 'y"
  shows "(\<And>e. r = Inl e \<Longrightarrow> changes (f e) lost gained) \<Longrightarrow> (\<And>x. r = Inr x \<Longrightarrow> changes (h x) lost gained) \<Longrightarrow>
   changes (case r of Inl e \<Rightarrow> f e | Inr x \<Rightarrow> h x) lost gained"
  by (cases r) simp_all

lemma changes_case_option:
  "(x = None \<Longrightarrow> changes m lost gained) \<Longrightarrow> (\<And>y. x = Some y \<Longrightarrow> changes (f y) lost gained) \<Longrightarrow>
   changes (case x of None \<Rightarrow> m | Some y \<Rightarrow> f y) lost gained"
  by (cases x) simp_all

lemma changes_cong:
  assumes "changes m lost gained" "\<And>p. lost p = lost' p" "\<And>x p. gained x p = gained' x p"
  shows "changes m lost' gained'"
  using assms by (simp add: changes_def cong: sum.case_cong)

lemma changes_each_down:
  assumes "\<And>x lost. changes (f x) lost (\<lambda>_. gained x)"
  shows "changes (eachA f xs) lost (\<lambda>_ p. sum_list (map (\<lambda>x. gained x p) xs))"
proof (induction xs arbitrary: lost)
  case Nil
  then show ?case by (simp add: changes_ret)
next
  case (Cons x xs)
  show ?case unfolding eachA.simps by (rule changes_seq [OF assms]) (simp add: Cons)
qed

lemma changes_each:
  assumes "\<And>x. changes (f x) (\<lambda>_. 0) (\<lambda>_ _. 0)"
  shows "changes (eachA f xs) (\<lambda>_. 0) (\<lambda>_ _. 0)"
proof (induction xs)
  case Nil
  then show ?case by (simp add: changes_ret)
next
  case (Cons x xs)
  show ?case unfolding eachA.simps by (rule changes_seq [OF assms]) (simp add: Cons)
qed

end

end
