(* ===== verification/ProducerProtocol.thy ===== *)
theory ProducerProtocol
  imports ProducerHandoff PageLifecycle Effects Complex_Main
begin

text \<open>
  The messages and values of the prefiller's control session
  (\<open>lmcache_ascend/v1/remote_fill_producer.py\<close>), and the checks it makes on them.  The message
  classes come from LMCache; the records keep the fields that the session reads or writes.
\<close>

section \<open>Requests\<close>

text \<open>\<open>OperationIdentity\<close>; the protocol version and the empty payload digest are constants.\<close>

record operation_identity =
  oi_operation_id :: string
  oi_operation_sequence :: int
  oi_transfer_id :: string
  oi_request_attempt :: int
  oi_epoch :: int
  oi_generation :: int

datatype operation_kind =
    NEGOTIATE | OPEN | RESERVE_WINDOW | ARM_WINDOW | REPORT_TRANSFER_COMPLETE | FINISH | STATUS | ABORT

record open_fields =
  of_request_id :: string
  of_source_engine_id :: string
  of_destination_engine_id :: string
  of_destination_dp_rank :: int
  of_required_store_end_hint :: int
  of_planned_window_count_hint :: int
  of_cache_namespace_tag :: string
  of_layout_tag :: string
  of_model_artifact_id :: string
  of_manifest_digest_seed :: string

record reserve_fields =
  rf_window_id :: int
  rf_source_generation :: int
  rf_manifest_digest :: string
  rf_control_pages :: "control_page list"
  rf_reserve_missing :: bool

record arm_fields =
  af_window_id :: int
  af_attempt_id :: string
  af_manifest_digest :: string
  af_descriptor_digest :: string

record report_fields =
  tf_window_id :: int
  tf_attempt_id :: string
  tf_return_code :: int
  tf_completed_bytes :: int
  tf_manifest_digest :: string

record finish_fields =
  ff_required_store_end :: int
  ff_persistent_common_end :: int
  ff_final_manifest_digest :: string
  ff_final_partial_valid_tokens :: int

datatype request_body =
    Negotiate static_spec
  | Open open_fields
  | ReserveWindow reserve_fields
  | ArmWindow arm_fields
  | ReportTransferComplete report_fields
  | Finish finish_fields
  | Status int
  | Abort string

record request =
  rq_common :: operation_identity
  rq_body :: request_body

fun request_kind :: "request_body \<Rightarrow> operation_kind" where
  "request_kind (Negotiate _) = NEGOTIATE"
| "request_kind (Open _) = OPEN"
| "request_kind (ReserveWindow _) = RESERVE_WINDOW"
| "request_kind (ArmWindow _) = ARM_WINDOW"
| "request_kind (ReportTransferComplete _) = REPORT_TRANSFER_COMPLETE"
| "request_kind (Finish _) = FINISH"
| "request_kind (Status _) = STATUS"
| "request_kind (Abort _) = ABORT"

section \<open>Responses\<close>

text \<open>The members of \<open>ResultCode\<close>, \<open>TerminalOutcome\<close> and \<open>DestinationNativeState\<close> that are named.\<close>

datatype result_code = OK | ACCEPTED | ALREADY_EXISTS | TERMINAL | OtherCode string

datatype terminal_outcome =
    LOCAL_FULL | PERSISTENT_ONLY | PERSISTENCE_FAILED | CANCELLED | FATAL_RESTART

datatype native_state = ARMED | TERMINAL_SUCCESS | TERMINAL_FAILURE | FATAL_UNKNOWN | OtherState string

record page_result =
  pr_canonical_key :: string
  pr_kv_group :: int
  pr_chunk_index :: int
  pr_disposition :: disposition

record descriptor =
  ds_canonical_key :: string
  ds_kv_group :: int
  ds_remote_session :: string
  ds_transfer_id :: string
  ds_request_attempt :: int
  ds_attempt_id :: string
  ds_epoch :: int
  ds_generation :: int
  ds_dp_rank :: int
  ds_tp_rank :: int
  ds_ptr :: int
  ds_length :: int
  ds_manifest_digest :: string
  ds_window_id :: int
  ds_reservation_id :: string
  ds_hmac :: string

record window_status =
  ws_window_id :: int
  ws_attempt_id :: string
  ws_native_state :: native_state
  ws_fatal_restart_required :: bool

text \<open>\<open>rs_transaction_state\<close> is the value of the state, \<open>None\<close> when the peer does not send one.\<close>

record response =
  rs_operation :: operation_kind
  rs_operation_id :: string
  rs_code :: result_code
  rs_epoch :: int
  rs_generation :: int
  rs_fatal_restart_required :: bool
  rs_terminal_outcome :: "terminal_outcome option"
  rs_transaction_state :: "string option"
  rs_remote_session :: string
  rs_d_local_end_open :: int
  rs_page_results :: "page_result list"
  rs_descriptors :: "descriptor list"
  rs_attempt_id :: string
  rs_descriptor_digest :: string
  rs_windows :: "window_status list"

section \<open>Sources and native results\<close>

text \<open>
  A source page of a plan, with the extents of its layers; a plan is an object with an identity
  (\<open>id\<close>), its owners and producer events are opaque.
\<close>

record source_page =
  so_canonical_key :: string
  so_kv_group :: int
  so_source_ptrs :: "int list"
  so_source_lengths :: "int list"

record source_plan =
  sl_id :: nat
  sl_pages :: "source_page list"
  sl_owners :: "nat list"
  sl_producer_events :: "nat list"

record prepared_source =
  px_source_plan :: source_plan
  px_event_wait_ms :: rat
  px_fences_ready_monotonic :: rat
  px_registration_ms :: rat

record native_result =
  nr_attempt_id :: string
  nr_return_code :: int
  nr_transferred_bytes :: int
  nr_elapsed_ms :: rat
  nr_source_event_wait_ms :: rat
  nr_source_fences_ready_monotonic :: rat
  nr_source_registration_ms :: rat
  nr_native_slot_wait_ms :: rat
  nr_native_started_monotonic :: rat
  nr_native_ended_monotonic :: rat

text \<open>
  How waiting for a future ends: with a native result, with another object, with a timeout, with
  one of the two native exceptions that prove termination, or with any other exception.
\<close>

datatype future_end =
    NativeResult native_result
  | OtherObject
  | FutureTimeout
  | PreSubmitError
  | TerminalError "native_result option"
  | OtherFutureError

text \<open>
  The attribute \<open>terminal_future\<close> of an exception: missing, \<open>None\<close>, a
  \<open>concurrent.futures.Future\<close> with the end that waiting for it has, or another object: whether it
  is done and how, whether it can be awaited, whether its loop runs, and how the bridged wait ends.
\<close>

record async_future =
  ay_done :: bool
  ay_result :: future_end
  ay_awaitable :: bool
  ay_loop_running :: bool
  ay_bridged :: future_end

datatype terminal_future =
    NoTerminalFuture
  | TerminalFutureNone
  | ConcurrentFuture future_end
  | AsyncFuture async_future

text \<open>What the submission and the wait for its future give, or the exception with its attribute.\<close>

datatype submission = Submitted future_end terminal_future

section \<open>Checks\<close>

definition accepted :: "response \<Rightarrow> bool" where
  "accepted r \<longleftrightarrow> rs_code r \<in> {OK, ACCEPTED, ALREADY_EXISTS}"

text \<open>\<open>_validate_page_results\<close>\<close>

definition page_result_matches :: "control_page \<Rightarrow> page_result \<Rightarrow> bool" where
  "page_result_matches page result \<longleftrightarrow>
     pr_canonical_key result = cp_canonical_key page \<and> pr_kv_group result = cp_kv_group page \<and>
     pr_chunk_index result = cp_chunk_index page"

definition validate_page_results :: "control_page list \<Rightarrow> response \<Rightarrow> disposition list res" where
  "validate_page_results pages response =
     (if length (rs_page_results response) \<noteq> length pages then
        Inl (ValueError ''destination page-result count is invalid'')
      else if \<not> list_all2 page_result_matches pages (rs_page_results response) then
        Inl (ValueError ''destination page-result identity changed'')
      else Inr (map pr_disposition (rs_page_results response)))"

text \<open>
  \<open>_validate_descriptors\<close>.  The session's own values that descriptors are compared with are the
  record \<open>descriptor_context\<close>; \<open>verify\<close> is \<open>verify_descriptor(self.secret, _)\<close>.
\<close>

record descriptor_context =
  dc_verify :: "descriptor \<Rightarrow> bool"
  dc_remote_session :: string
  dc_transfer_id :: string
  dc_request_attempt :: int
  dc_epoch :: int
  dc_generation :: int
  dc_dp_rank :: int

definition descriptor_identity :: "descriptor \<Rightarrow> string \<times> int" where
  "descriptor_identity d = (ds_canonical_key d, ds_kv_group d)"

definition page_identity :: "control_page \<Rightarrow> string \<times> int" where
  "page_identity p = (cp_canonical_key p, cp_kv_group p)"

definition descriptor_unchanged ::
  "descriptor_context \<Rightarrow> string \<Rightarrow> int \<Rightarrow> response \<Rightarrow> control_page \<Rightarrow> descriptor \<Rightarrow> bool" where
  "descriptor_unchanged c digest window_id response page d \<longleftrightarrow>
     ds_remote_session d = dc_remote_session c \<and>
     ds_transfer_id d = dc_transfer_id c \<and>
     ds_request_attempt d = dc_request_attempt c \<and>
     ds_attempt_id d = rs_attempt_id response \<and>
     ds_epoch d = dc_epoch c \<and>
     ds_generation d = dc_generation c \<and>
     ds_dp_rank d = dc_dp_rank c \<and>
     ds_tp_rank d = cp_destination_tp_rank page \<and>
     ds_length d = cp_expected_bytes page \<and>
     ds_manifest_digest d = digest \<and>
     0 < ds_ptr d \<and>
     ds_window_id d = window_id \<and>
     ds_reservation_id d \<noteq> []"

fun check_descriptors ::
  "descriptor_context \<Rightarrow> (string \<times> int \<Rightarrow> control_page option) \<Rightarrow> string \<Rightarrow> int \<Rightarrow> response \<Rightarrow>
   descriptor list \<Rightarrow> (string \<times> int) list \<Rightarrow> (string \<times> int) list res" where
  "check_descriptors c expected digest window_id response [] seen = Inr seen"
| "check_descriptors c expected digest window_id response (d # ds) seen =
     (case expected (descriptor_identity d) of
        None \<Rightarrow> Inl (ValueError ''destination descriptor coverage is invalid'')
      | Some page \<Rightarrow>
          if descriptor_identity d \<in> set seen then
            Inl (ValueError ''destination descriptor coverage is invalid'')
          else if \<not> dc_verify c d then
            Inl (ValueError ''destination descriptor HMAC is invalid'')
          else if \<not> descriptor_unchanged c digest window_id response page d then
            Inl (ValueError ''destination descriptor identity changed'')
          else check_descriptors c expected digest window_id response ds (seen @ [descriptor_identity d]))"

definition allocated_identities :: "response \<Rightarrow> (string \<times> int) set" where
  "allocated_identities response =
     (\<lambda>r. (pr_canonical_key r, pr_kv_group r)) `
       set (filter (\<lambda>r. pr_disposition r = Allocated) (rs_page_results response))"

definition validate_descriptors ::
  "descriptor_context \<Rightarrow> control_page list \<Rightarrow> string \<Rightarrow> int \<Rightarrow> response \<Rightarrow> unit res" where
  "validate_descriptors c pages digest window_id response =
     bindR (check_descriptors c (py_dict (map (\<lambda>p. (page_identity p, p)) pages)) digest window_id
         response (rs_descriptors response) []) (\<lambda>seen.
     check (set seen \<noteq> allocated_identities response)
       (ValueError ''destination descriptor allocation set is invalid''))"

text \<open>\<open>_classify_terminal\<close>: the public outcome and whether the direct path was satisfied.\<close>

definition contradiction :: "string \<Rightarrow> exn" where
  "contradiction m = RuntimeError m"

definition outcome_value :: "terminal_outcome \<Rightarrow> string" where
  "outcome_value t = (case t of LOCAL_FULL \<Rightarrow> ''LOCAL_FULL'' | PERSISTENT_ONLY \<Rightarrow> ''PERSISTENT_ONLY''
     | PERSISTENCE_FAILED \<Rightarrow> ''PERSISTENCE_FAILED'' | CANCELLED \<Rightarrow> ''CANCELLED''
     | FATAL_RESTART \<Rightarrow> ''FATAL_RESTART'')"

definition classify_terminal :: "response \<Rightarrow> (terminal_outcome \<times> bool) res" where
  "classify_terminal response =
     (case rs_terminal_outcome response of
        None \<Rightarrow> Inl (RuntimeError ''remote-fill response has no terminal outcome'')
      | Some outcome \<Rightarrow>
          let state = rs_transaction_state response;
              expected = (if state = Some ''GROUP0_LOCAL'' then Some PERSISTENT_ONLY
                          else if state = Some ''LOCAL_FULL'' then Some LOCAL_FULL else None)
          in (case expected of
                Some e \<Rightarrow>
                  if outcome \<noteq> e then
                    Inl (RuntimeError (the state @ '' has contradictory outcome '' @ outcome_value outcome))
                  else Inr (outcome, True)
              | None \<Rightarrow>
                  if outcome = LOCAL_FULL then
                    (if state \<noteq> None then
                       Inl (RuntimeError ''LOCAL_FULL outcome has a contradictory transaction state'')
                     else Inr (outcome, True))
                  else Inr (outcome, False)))"

text \<open>
  The two readings of a \<open>STATUS\<close> response after a lost reply
  (\<open>_resolve_ambiguous_arm\<close> and \<open>_resolve_ambiguous_report\<close>).
\<close>

definition arm_proved :: "int \<Rightarrow> string \<Rightarrow> response \<Rightarrow> response res" where
  "arm_proved window_id attempt response =
     (if rs_code response \<noteq> OK \<or> length (rs_windows response) \<noteq> 1 then
        Inl (RuntimeError ''STATUS did not identify the ambiguous ARM window'')
      else let status = hd (rs_windows response) in
        if ws_window_id status \<noteq> window_id \<or> ws_attempt_id status \<noteq> attempt \<or>
           ws_native_state status \<noteq> ARMED \<or> ws_fatal_restart_required status \<or>
           rs_fatal_restart_required response then
          Inl (RuntimeError ''STATUS did not prove the exact armed attempt'')
        else Inr response)"

definition report_proved :: "int \<Rightarrow> string \<Rightarrow> int \<Rightarrow> int \<Rightarrow> int \<Rightarrow> response \<Rightarrow> bool res" where
  "report_proved window_id attempt return_code completed expected response =
     (if rs_code response \<noteq> OK \<or> length (rs_windows response) \<noteq> 1 then
        Inl (RuntimeError ''STATUS did not return the reported window'')
      else let window = hd (rs_windows response) in
        if ws_window_id window \<noteq> window_id \<or> ws_attempt_id window \<noteq> attempt \<or>
           ws_fatal_restart_required window \<or> rs_fatal_restart_required response then
          Inl (RuntimeError ''STATUS returned a different native attempt'')
        else let success = (return_code = 0 \<and> completed = expected) in
          if success \<and> ws_native_state window = TERMINAL_SUCCESS then Inr True
          else if \<not> success \<and> ws_native_state window = TERMINAL_FAILURE then Inr False
          else Inl (RuntimeError ''STATUS does not match the reported terminal result''))"

text \<open>
  \<open>_wait_for_original_native_terminal\<close>: how the wait for an already-submitted native call ends,
  given the time that remains.  Cancelling the bridge has no effect on the native future.
\<close>

definition wait_for_original_native_terminal :: "terminal_future \<Rightarrow> rat \<Rightarrow> future_end" where
  "wait_for_original_native_terminal tf remaining =
     (case tf of
        NoTerminalFuture \<Rightarrow> FutureTimeout
      | TerminalFutureNone \<Rightarrow> FutureTimeout
      | ConcurrentFuture e \<Rightarrow> if remaining \<le> 0 then FutureTimeout else e
      | AsyncFuture a \<Rightarrow>
          if remaining \<le> 0 then FutureTimeout
          else if ay_done a then ay_result a
          else if \<not> ay_awaitable a then OtherFutureError
          else if \<not> ay_loop_running a then OtherFutureError
          else ay_bridged a)"

end
