(* ===== verification/ProducerSession.thy ===== *)
theory ProducerSession
  imports ProducerProtocol
begin

text \<open>
  The prefiller's control session for one request attempt (\<open>RemoteFillProducerSession\<close> of
  \<open>lmcache_ascend/v1/remote_fill_producer.py\<close>): opening, probing and transferring a window,
  finishing, aborting and closing.  The decoder behind the RPC client, the native transfer engine
  and the source preparer are the environment \<open>producer_env\<close>, whose answers are arbitrary functions
  of the calls made before; the calls are recorded in \<open>ps_events\<close>.  Log records and the diagnostic
  times that are only taken when performance logging is on are left out.
\<close>

section \<open>State\<close>

text \<open>What the submitter is called with: the plan may or may not be a prepared one.\<close>

record submit_args =
  sa_remote_session :: string
  sa_source_plan :: source_plan
  sa_prepared :: "prepared_source option"
  sa_descriptors :: "descriptor list"
  sa_attempt_id :: string

datatype pevent =
    Sent request "response res"
  | PrepareSource source_plan
  | MakeSources "control_page list"
  | Activate string
  | Submit submit_args
  | ClockRead
  | ClientClose

record producer_env =
  pe_execute :: "pevent list \<Rightarrow> request \<Rightarrow> response res"
  pe_uuid :: "pevent list \<Rightarrow> string"
  pe_clock :: "pevent list \<Rightarrow> rat"
  pe_prepare :: "pevent list \<Rightarrow> source_plan \<Rightarrow> prepared_source option res"
  pe_make_sources :: "pevent list \<Rightarrow> control_page list \<Rightarrow> prepared_source option res"
  pe_activation :: "pevent list \<Rightarrow> string \<Rightarrow> exn option"
  pe_submit :: "pevent list \<Rightarrow> submit_args \<Rightarrow> submission"
  pe_client_close :: "pevent list \<Rightarrow> exn option"
  pe_pick :: "negotiation_key list \<Rightarrow> nat"
  pe_manifest_digest :: "control_page list \<Rightarrow> string"
  pe_descriptor_digest :: "descriptor list \<Rightarrow> string"
  pe_transaction_digest :: "string \<Rightarrow> (int \<times> string) list \<Rightarrow> int \<Rightarrow> int \<Rightarrow> string"
  pe_content_digest :: "string \<times> string \<times> int \<Rightarrow> string"
  pe_verify :: "nat list \<Rightarrow> descriptor \<Rightarrow> bool"

record terminal_result =
  tr_transfer_id :: string
  tr_outcome :: terminal_outcome
  tr_persistent_common_end :: int
  tr_required_store_end :: int
  tr_direct_satisfied :: bool

text \<open>
  The negotiation cache is shared by the sessions of a process: \<open>ps_cache\<close> is its content as this
  session sees it.  \<open>ps_prepared\<close> is keyed by the plan's identity; an entry keeps its plan alive, so
  that an identity in use is never given to another plan.
\<close>

record session =
  ps_request_id :: string
  ps_handoff :: handoff
  ps_spec :: static_spec
  ps_secret :: "nat list"
  ps_window_count_hint :: int
  ps_store_end_hint :: int
  ps_hard_timeout :: rat
  ps_cache :: "negotiation_cache option"
  ps_direct_viable :: bool
  ps_opened :: bool
  ps_closed :: bool
  ps_fatal :: bool
  ps_prearm_unknown :: bool
  ps_d_local_end_open :: int
  ps_remote_session :: string
  ps_manifests :: "(int \<times> string) list"
  ps_seed :: string
  ps_sequence :: int
  ps_terminal :: "terminal_result option"
  ps_prepared :: "(nat \<times> prepared_source) list"
  ps_events :: "pevent list"

type_synonym 'a ps_act = "(session, 'a) act"

definition make_session ::
  "producer_env \<Rightarrow> string \<Rightarrow> handoff \<Rightarrow> static_spec \<Rightarrow> nat list \<Rightarrow> int \<Rightarrow> int \<Rightarrow> rat \<Rightarrow>
   negotiation_cache option \<Rightarrow> session res" where
  "make_session env request_id h spec secret window_hint store_hint timeout cache =
     (if timeout \<le> 0 then Inl (ValueError ''native hard timeout must be positive'')
      else Inr \<lparr>ps_request_id = request_id, ps_handoff = h, ps_spec = spec, ps_secret = secret,
        ps_window_count_hint = max 0 window_hint, ps_store_end_hint = max 0 store_hint,
        ps_hard_timeout = timeout, ps_cache = cache, ps_direct_viable = True, ps_opened = False,
        ps_closed = False, ps_fatal = False, ps_prearm_unknown = False, ps_d_local_end_open = 0,
        ps_remote_session = [], ps_manifests = [],
        ps_seed = pe_content_digest env (ho_transfer_id h, request_id, ho_request_attempt h),
        ps_sequence = 0, ps_terminal = None, ps_prepared = [], ps_events = []\<rparr>)"

section \<open>Calls\<close>

definition set_fatal :: "unit ps_act" where
  "set_fatal = writeA (\<lambda>s. s\<lparr>ps_fatal := True\<rparr>)"

definition drop_direct :: "unit ps_act" where
  "drop_direct = writeA (\<lambda>s. s\<lparr>ps_direct_viable := False\<rparr>)"

definition mark_prearm_unknown :: "unit ps_act" where
  "mark_prearm_unknown = writeA (\<lambda>s. s\<lparr>ps_prearm_unknown := True\<rparr>)"

definition fatal_error :: "string \<Rightarrow> 'a ps_act" where
  "fatal_error m = seqA set_fatal (raiseA (FatalError m))"

definition common :: "producer_env \<Rightarrow> operation_identity ps_act" where
  "common env = (\<lambda>s.
     let n = ps_sequence s + 1 in
     (Inr \<lparr>oi_operation_id = pe_uuid env (ps_events s), oi_operation_sequence = n,
        oi_transfer_id = ho_transfer_id (ps_handoff s),
        oi_request_attempt = ho_request_attempt (ps_handoff s),
        oi_epoch = ho_destination_engine_epoch (ps_handoff s),
        oi_generation = ho_shared_cache_generation (ps_handoff s)\<rparr>,
      s\<lparr>ps_sequence := n\<rparr>))"

definition send :: "producer_env \<Rightarrow> request \<Rightarrow> response ps_act" where
  "send env rq = (\<lambda>s.
     let r = pe_execute env (ps_events s) rq in (r, s\<lparr>ps_events := ps_events s @ [Sent rq r]\<rparr>))"

definition response_mismatches :: "handoff \<Rightarrow> request \<Rightarrow> response \<Rightarrow> string list" where
  "response_mismatches h rq r =
     (if rs_operation r \<noteq> request_kind (rq_body rq) then [''operation''] else []) @
     (if rs_operation_id r \<noteq> oi_operation_id (rq_common rq) then [''operation_id''] else []) @
     (if rs_epoch r \<noteq> ho_destination_engine_epoch h then [''destination_engine_epoch''] else []) @
     (if rs_generation r \<noteq> ho_shared_cache_generation h then [''shared_cache_generation''] else [])"

fun join_commas :: "string list \<Rightarrow> string" where
  "join_commas [] = []"
| "join_commas [x] = x"
| "join_commas (x # xs) = x @ '','' @ join_commas xs"

text \<open>\<open>_execute\<close>: a lost reply is answered by sending the same request once more.\<close>

definition execute :: "producer_env \<Rightarrow> request \<Rightarrow> response ps_act" where
  "execute env rq =
     bindA (bindA (attemptA (send env rq)) (\<lambda>r.
         case r of
           Inr resp \<Rightarrow> retA resp
         | Inl e \<Rightarrow> if e = ReplyLostError then send env rq else raiseA e)) (\<lambda>resp.
     bindA (readA ps_handoff) (\<lambda>h.
       let mismatches = response_mismatches h rq resp in
       if mismatches \<noteq> [] then
         raiseA (ValueError (''remote-fill response identity changed: fields='' @ join_commas mismatches))
       else if rs_fatal_restart_required resp \<or> rs_terminal_outcome resp = Some FATAL_RESTART then
         fatal_error
           ''decoder reported an armed remote-fill transaction with an unknown terminal state''
       else retA resp))"

definition call :: "producer_env \<Rightarrow> request_body \<Rightarrow> response ps_act" where
  "call env body = bindA (common env) (\<lambda>c. execute env \<lparr>rq_common = c, rq_body = body\<rparr>)"

definition is_fatal :: "exn \<Rightarrow> bool" where
  "is_fatal e = (case e of FatalError _ \<Rightarrow> True | _ \<Rightarrow> False)"

text \<open>
  The pattern \<open>try: ... except RemoteFillFatalError: raise; except Exception: ...\<close> around a call,
  with the handler \<open>m\<close> and the continuation \<open>f\<close>, which is outside the \<open>try\<close>.
\<close>

definition try_call :: "response ps_act \<Rightarrow> (exn \<Rightarrow> 'a ps_act) \<Rightarrow> (response \<Rightarrow> 'a ps_act) \<Rightarrow> 'a ps_act" where
  "try_call c m f =
     bindA (attemptA c) (\<lambda>r. case r of Inl e \<Rightarrow> if is_fatal e then raiseA e else m e | Inr x \<Rightarrow> f x)"

section \<open>Opening\<close>

definition fail_open :: "bool \<Rightarrow> bool ps_act" where
  "fail_open unknown =
     seqA (if unknown then mark_prearm_unknown else retA ()) (seqA drop_direct (retA False))"

definition negotiate :: "producer_env \<Rightarrow> bool ps_act" where
  "negotiate env =
     bindA (readA (\<lambda>s. s)) (\<lambda>s.
       let key = cache_key_of (ps_handoff s) (ps_spec s) in
       if (case ps_cache s of None \<Rightarrow> False | Some c \<Rightarrow> cache_contains key c) then retA True
       else try_call (call env (Negotiate (ps_spec s)))
         (\<lambda>_. fail_open True)
         (\<lambda>r. if \<not> accepted r then fail_open False
              else seqA (writeA (\<lambda>s. s\<lparr>ps_cache := map_option (cache_record (pe_pick env) key) (ps_cache s)\<rparr>))
                     (retA True)))"

definition open_body :: "session \<Rightarrow> request_body" where
  "open_body s = Open \<lparr>of_request_id = ps_request_id s,
     of_source_engine_id = ho_source_engine_id (ps_handoff s),
     of_destination_engine_id = ho_destination_engine_id (ps_handoff s),
     of_destination_dp_rank = ho_destination_dp_rank (ps_handoff s),
     of_required_store_end_hint = ps_store_end_hint s,
     of_planned_window_count_hint = ps_window_count_hint s,
     of_cache_namespace_tag = sp_cache_namespace_tag (ps_spec s),
     of_layout_tag = sp_layout_tag (ps_spec s),
     of_model_artifact_id = sp_model_artifact_id (ps_spec s),
     of_manifest_digest_seed = ps_seed s\<rparr>"

definition open_transaction :: "producer_env \<Rightarrow> bool ps_act" where
  "open_transaction env =
     bindA (readA (\<lambda>s. s)) (\<lambda>s.
       try_call (call env (open_body s))
         (\<lambda>_. fail_open True)
         (\<lambda>r. if \<not> accepted r then fail_open False
              else if rs_epoch r \<noteq> ho_destination_engine_epoch (ps_handoff s)
                   \<or> rs_generation r \<noteq> ho_shared_cache_generation (ps_handoff s)
                   \<or> rs_remote_session r = [] then fail_open False
              else seqA (writeA (\<lambda>s. s\<lparr>ps_d_local_end_open := rs_d_local_end_open r,
                     ps_remote_session := rs_remote_session r, ps_opened := True\<rparr>)) (retA True)))"

definition open_session :: "producer_env \<Rightarrow> bool ps_act" where
  "open_session env =
     bindA (readA (\<lambda>s. s)) (\<lambda>s.
       if ps_opened s then retA True
       else if ps_closed s \<or> \<not> ps_direct_viable s then retA False
       else if sp_token_hash_algorithm (ps_spec s) \<noteq> ho_token_hash_algorithm (ps_handoff s)
            \<or> sp_python_hash_seed (ps_spec s) \<noteq> ho_python_hash_seed (ps_handoff s) then fail_open False
       else bindA (negotiate env) (\<lambda>ok. if ok then open_transaction env else retA False))"

text \<open>\<open>self.direct_viable and self.open()\<close>\<close>

definition viable_and_open :: "producer_env \<Rightarrow> bool ps_act" where
  "viable_and_open env =
     bindA (readA ps_direct_viable) (\<lambda>v. if \<not> v then retA False else open_session env)"

section \<open>Window results\<close>

record native_times =
  nt_source_event_wait_seconds :: rat
  nt_source_fences_ready_monotonic :: rat
  nt_source_registration_seconds :: rat
  nt_native_slot_wait_seconds :: rat
  nt_native_seconds :: rat
  nt_native_started_monotonic :: rat
  nt_native_ended_monotonic :: rat

definition no_times :: native_times where
  "no_times = \<lparr>nt_source_event_wait_seconds = 0, nt_source_fences_ready_monotonic = 0,
     nt_source_registration_seconds = 0, nt_native_slot_wait_seconds = 0, nt_native_seconds = 0,
     nt_native_started_monotonic = 0, nt_native_ended_monotonic = 0\<rparr>"

record window_result =
  wr_window_id :: int
  wr_direct_satisfied :: bool
  wr_armed :: bool
  wr_reason :: string
  wr_times :: native_times
  wr_submitted_bytes :: int
  wr_existing_pages :: int

definition window_outcome :: "int \<Rightarrow> bool \<Rightarrow> string \<Rightarrow> int \<Rightarrow> window_result" where
  "window_outcome window_id satisfied reason existing =
     \<lparr>wr_window_id = window_id, wr_direct_satisfied = satisfied, wr_armed = False,
      wr_reason = reason, wr_times = no_times, wr_submitted_bytes = 0, wr_existing_pages = existing\<rparr>"

text \<open>\<open>self.direct_viable = False; return self._abandoned_window(...)\<close>\<close>

definition abandon :: "int \<Rightarrow> string \<Rightarrow> int \<Rightarrow> window_result ps_act" where
  "abandon window_id reason existing =
     seqA drop_direct (retA (window_outcome window_id False reason existing))"

definition count_existing :: "disposition list \<Rightarrow> int" where
  "count_existing ds = int (length (filter (\<lambda>d. d = Existing) ds))"

section \<open>Reservation\<close>

text \<open>
  The call that \<open>probe_window\<close> and \<open>transfer_window\<close> share: reserve, validate the page results,
  record the manifest.  An early end of the window is \<open>Inl\<close>.
\<close>

definition reserve_window ::
  "producer_env \<Rightarrow> int \<Rightarrow> int \<Rightarrow> control_page list \<Rightarrow> bool \<Rightarrow> string \<Rightarrow> string \<Rightarrow>
   (window_result + response \<times> disposition list) ps_act" where
  "reserve_window env window_id generation pages reserve_missing unavailable invalid =
     (let digest = pe_manifest_digest env pages in
      try_call (call env (ReserveWindow \<lparr>rf_window_id = window_id, rf_source_generation = generation,
          rf_manifest_digest = digest, rf_control_pages = pages,
          rf_reserve_missing = reserve_missing\<rparr>))
        (\<lambda>_. seqA mark_prearm_unknown (bindA (abandon window_id unavailable 0) (\<lambda>w. retA (Inl w))))
        (\<lambda>reserved.
           (case validate_page_results pages reserved of
              Inl _ \<Rightarrow>
                seqA (if accepted reserved then mark_prearm_unknown else retA ())
                  (bindA (abandon window_id invalid 0) (\<lambda>w. retA (Inl w)))
            | Inr dispositions \<Rightarrow>
                seqA (writeA (\<lambda>s. s\<lparr>ps_manifests := ps_manifests s @ [(window_id, digest)]\<rparr>))
                  (retA (Inr (reserved, dispositions))))))"

definition probe_window ::
  "producer_env \<Rightarrow> int \<Rightarrow> int \<Rightarrow> control_page list \<Rightarrow> window_result ps_act" where
  "probe_window env window_id generation pages =
     bindA (viable_and_open env) (\<lambda>ok.
       if \<not> ok then retA (window_outcome window_id False ''open rejected'' 0)
       else bindA (reserve_window env window_id generation pages False
           ''probe control unavailable'' ''probe result invalid'') (\<lambda>r.
         case r of
           Inl w \<Rightarrow> retA w
         | Inr (reserved, dispositions) \<Rightarrow>
             let existing = count_existing dispositions in
             if rs_code reserved \<noteq> OK \<or> rs_descriptors reserved \<noteq> [] \<or>
                \<not> list_all (\<lambda>d. d = Existing) dispositions
             then abandon window_id ''cached-prefix hole'' existing
             else retA (window_outcome window_id True [] existing)))"

section \<open>Transfer\<close>

text \<open>
  The arguments of \<open>transfer_window\<close>: the plan is optional; whether a preparer and a plan factory
  were passed are flags, the callbacks themselves belong to the environment.
\<close>

record transfer_args =
  xa_window_id :: int
  xa_source_generation :: int
  xa_pages :: "control_page list"
  xa_plan :: "source_plan option"
  xa_has_preparer :: bool
  xa_has_factory :: bool

text \<open>\<open>{(page.canonical_key, page.kv_group): page for page in plan.pages}\<close>\<close>

definition source_by_identity :: "source_page list \<Rightarrow> string \<times> int \<Rightarrow> source_page option" where
  "source_by_identity pages = py_dict (map (\<lambda>p. ((so_canonical_key p, so_kv_group p), p)) pages)"

definition plan_pages :: "source_plan option \<Rightarrow> source_page list" where
  "plan_pages plan = (case plan of None \<Rightarrow> [] | Some p \<Rightarrow> sl_pages p)"

definition uncovered :: "transfer_args \<Rightarrow> bool" where
  "uncovered a \<longleftrightarrow> (xa_plan a \<noteq> None \<or> \<not> xa_has_factory a) \<and>
     list_ex (\<lambda>p. source_by_identity (plan_pages (xa_plan a)) (page_identity p) = None) (xa_pages a)"

text \<open>The eager preparation, with the prepared sources of earlier windows reused.\<close>

definition prepare_source :: "producer_env \<Rightarrow> source_plan \<Rightarrow> prepared_source ps_act" where
  "prepare_source env plan =
     bindA (readA ps_prepared) (\<lambda>prepared.
       case map_of prepared (sl_id plan) of
         Some px \<Rightarrow> retA px
       | None \<Rightarrow>
           bindA (\<lambda>s. (pe_prepare env (ps_events s) plan,
                        s\<lparr>ps_events := ps_events s @ [PrepareSource plan]\<rparr>)) (\<lambda>evidence.
             case evidence of
               None \<Rightarrow> raiseA (TypeError ''source preparer returned invalid evidence'')
             | Some px \<Rightarrow>
                 seqA (writeA (\<lambda>s. s\<lparr>ps_prepared := AList.update (sl_id plan) px (ps_prepared s)\<rparr>))
                   (retA px)))"

definition eager_preparation ::
  "producer_env \<Rightarrow> transfer_args \<Rightarrow> (window_result + prepared_source option) ps_act" where
  "eager_preparation env a =
     (case xa_plan a of
        None \<Rightarrow> retA (Inr None)
      | Some plan \<Rightarrow>
          if \<not> xa_has_preparer a then retA (Inr None)
          else bindA (attemptA (prepare_source env plan)) (\<lambda>r.
            case r of
              Inl _ \<Rightarrow> bindA (abandon (xa_window_id a) ''source preparation failed'' 0) (\<lambda>w. retA (Inl w))
            | Inr px \<Rightarrow> retA (Inr (Some px))))"

text \<open>
  The part between reservation and ARM, inside one \<open>try\<close>: the descriptors are validated, the
  sources are prepared when no plan was given, and one source is selected per descriptor.
\<close>

record selected =
  se_plan :: source_plan
  se_prepared :: "prepared_source option"
  se_descriptor_digest :: string

definition descriptor_context_of :: "producer_env \<Rightarrow> session \<Rightarrow> descriptor_context" where
  "descriptor_context_of env s =
     \<lparr>dc_verify = pe_verify env (ps_secret s), dc_remote_session = ps_remote_session s,
      dc_transfer_id = ho_transfer_id (ps_handoff s),
      dc_request_attempt = ho_request_attempt (ps_handoff s),
      dc_epoch = ho_destination_engine_epoch (ps_handoff s),
      dc_generation = ho_shared_cache_generation (ps_handoff s),
      dc_dp_rank = ho_destination_dp_rank (ps_handoff s)\<rparr>"

definition late_source ::
  "producer_env \<Rightarrow> transfer_args \<Rightarrow> descriptor list \<Rightarrow> prepared_source ps_act" where
  "late_source env a descriptors =
     (if \<not> xa_has_factory a then raiseA AssertionError
      else let missing = set (map descriptor_identity descriptors);
               pages = filter (\<lambda>p. page_identity p \<in> missing) (xa_pages a)
        in bindA (\<lambda>s. (pe_make_sources env (ps_events s) pages,
                        s\<lparr>ps_events := ps_events s @ [MakeSources pages]\<rparr>)) (\<lambda>evidence.
             case evidence of
               None \<Rightarrow> raiseA (TypeError ''prefix source factory returned invalid evidence'')
             | Some px \<Rightarrow> retA px))"

definition select_page :: "source_page list \<Rightarrow> descriptor \<Rightarrow> source_page res" where
  "select_page pages d =
     (case source_by_identity pages (descriptor_identity d) of None \<Rightarrow> Inl KeyError | Some p \<Rightarrow> Inr p)"

definition select_sources ::
  "producer_env \<Rightarrow> transfer_args \<Rightarrow> prepared_source option \<Rightarrow> response \<Rightarrow> selected ps_act" where
  "select_sources env a prepared reserved =
     (let digest = pe_manifest_digest env (xa_pages a); descriptors = rs_descriptors reserved in
      bindA (readA (descriptor_context_of env)) (\<lambda>c.
      bindA (liftA (validate_descriptors c (xa_pages a) digest (xa_window_id a) reserved)) (\<lambda>_.
      let descriptor_digest = pe_descriptor_digest env descriptors in
      bindA (liftA (check (descriptor_digest \<noteq> rs_descriptor_digest reserved)
          (ValueError ''destination descriptor digest changed''))) (\<lambda>_.
      bindA (case xa_plan a of
          Some plan \<Rightarrow> retA (plan, prepared)
        | None \<Rightarrow> bindA (late_source env a descriptors) (\<lambda>px. retA (px_source_plan px, Some px)))
        (\<lambda>(plan, px).
      bindA (liftA (mapR (select_page (sl_pages plan)) descriptors)) (\<lambda>sources.
      bindA (liftA (check (list_ex (\<lambda>(p, d). sum_list (so_source_lengths p) \<noteq> ds_length d)
            (zip sources descriptors))
          (ValueError ''source and destination page lengths differ''))) (\<lambda>_.
        let native = plan\<lparr>sl_pages := sources\<rparr> in
        retA \<lparr>se_plan = native,
          se_prepared = map_option (\<lambda>q. q\<lparr>px_source_plan := native\<rparr>) px,
          se_descriptor_digest = descriptor_digest\<rparr>)))))))"

text \<open>ARM, with the exact armed attempt proved by STATUS when the reply is lost.\<close>

definition resolve_ambiguous_arm :: "producer_env \<Rightarrow> int \<Rightarrow> string \<Rightarrow> response ps_act" where
  "resolve_ambiguous_arm env window_id attempt =
     bindA (call env (Status window_id)) (\<lambda>r. liftA (arm_proved window_id attempt r))"

definition arm_window ::
  "producer_env \<Rightarrow> transfer_args \<Rightarrow> response \<Rightarrow> string \<Rightarrow> response ps_act" where
  "arm_window env a reserved descriptor_digest =
     try_call (call env (ArmWindow \<lparr>af_window_id = xa_window_id a,
         af_attempt_id = rs_attempt_id reserved,
         af_manifest_digest = pe_manifest_digest env (xa_pages a),
         af_descriptor_digest = descriptor_digest\<rparr>))
       (\<lambda>_. bindA (attemptA (resolve_ambiguous_arm env (xa_window_id a) (rs_attempt_id reserved))) (\<lambda>r.
          case r of
            Inl _ \<Rightarrow> fatal_error ''ARM_WINDOW acknowledgement is ambiguous and STATUS could not prove the armed attempt''
          | Inr resp \<Rightarrow> retA resp))
       (\<lambda>r. retA r)"

text \<open>
  The native transfer: one submission, whose end is awaited until the deadline.  The result is the
  native result, or the termination evidence of a failure (\<open>None\<close> when it carries no result).
\<close>

definition native_deadline_message :: string where
  "native_deadline_message = ''armed native transfer exceeded its hard terminal bound''"

definition submit_native ::
  "producer_env \<Rightarrow> submit_args \<Rightarrow> submission ps_act" where
  "submit_native env args = (\<lambda>s.
     case pe_activation env (ps_events s) (sa_attempt_id args) of
       Some _ \<Rightarrow>
         (Inr (Submitted OtherFutureError NoTerminalFuture),
          s\<lparr>ps_events := ps_events s @ [Activate (sa_attempt_id args)]\<rparr>)
     | None \<Rightarrow>
         (let s1 = s\<lparr>ps_events := ps_events s @ [Activate (sa_attempt_id args)]\<rparr> in
          (Inr (pe_submit env (ps_events s1) args), s1\<lparr>ps_events := ps_events s1 @ [Submit args]\<rparr>)))"

definition read_clock :: "producer_env \<Rightarrow> rat ps_act" where
  "read_clock env = (\<lambda>s. (Inr (pe_clock env (ps_events s)), s\<lparr>ps_events := ps_events s @ [ClockRead]\<rparr>))"

definition end_of_wait :: "future_end \<Rightarrow> (native_result + native_result option) ps_act" where
  "end_of_wait e =
     (case e of
        NativeResult r \<Rightarrow> retA (Inl r)
      | OtherObject \<Rightarrow> fatal_error ''armed native transfer returned an invalid terminal result''
      | FutureTimeout \<Rightarrow> fatal_error native_deadline_message
      | PreSubmitError \<Rightarrow> retA (Inr None)
      | TerminalError r \<Rightarrow> retA (Inr r)
      | OtherFutureError \<Rightarrow>
          fatal_error ''original native transfer returned an unknown terminal state'')"

definition conclude_native ::
  "producer_env \<Rightarrow> rat \<Rightarrow> submission \<Rightarrow> (native_result + native_result option) ps_act" where
  "conclude_native env deadline sub =
     (case sub of Submitted e tf \<Rightarrow>
       (case e of
          NativeResult r \<Rightarrow> retA (Inl r)
        | OtherObject \<Rightarrow> fatal_error ''armed native transfer returned an invalid terminal result''
        | FutureTimeout \<Rightarrow> fatal_error native_deadline_message
        | _ \<Rightarrow>
            if tf \<noteq> NoTerminalFuture then
              bindA (read_clock env) (\<lambda>now.
                end_of_wait (wait_for_original_native_terminal tf (deadline - now)))
            else (case e of
                PreSubmitError \<Rightarrow> retA (Inr None)
              | TerminalError r \<Rightarrow> retA (Inr r)
              | _ \<Rightarrow> fatal_error ''armed native transfer failed without terminal evidence'')))"

definition await_native ::
  "producer_env \<Rightarrow> submit_args \<Rightarrow> (native_result + native_result option) ps_act" where
  "await_native env args =
     bindA (read_clock env) (\<lambda>started.
     bindA (readA ps_hard_timeout) (\<lambda>timeout.
     bindA (submit_native env args) (\<lambda>sub. conclude_native env (started + timeout) sub)))"

definition times_of :: "native_result \<Rightarrow> native_times" where
  "times_of r =
     (let started = max 0 (nr_native_started_monotonic r) in
      \<lparr>nt_source_event_wait_seconds = max 0 (nr_source_event_wait_ms r / 1000),
       nt_source_fences_ready_monotonic = max 0 (nr_source_fences_ready_monotonic r),
       nt_source_registration_seconds = max 0 (nr_source_registration_ms r / 1000),
       nt_native_slot_wait_seconds = max 0 (nr_native_slot_wait_ms r / 1000),
       nt_native_seconds = max 0 (nr_elapsed_ms r / 1000),
       nt_native_started_monotonic = started,
       nt_native_ended_monotonic = max started (nr_native_ended_monotonic r)\<rparr>)"

text \<open>Return code, completed bytes and times that are reported for the end of a native transfer.\<close>

definition native_report ::
  "string \<Rightarrow> int \<Rightarrow> native_result + native_result option \<Rightarrow> int \<times> int \<times> native_times" where
  "native_report attempt expected e =
     (case e of
        Inl r \<Rightarrow>
          if nr_attempt_id r \<noteq> attempt \<or> nr_transferred_bytes r \<noteq> expected then (-1, 0, times_of r)
          else (nr_return_code r, nr_transferred_bytes r, times_of r)
      | Inr None \<Rightarrow> (-1, 0, no_times)
      | Inr (Some r) \<Rightarrow> (nr_return_code r, nr_transferred_bytes r, times_of r))"

definition resolve_ambiguous_report ::
  "producer_env \<Rightarrow> int \<Rightarrow> string \<Rightarrow> int \<Rightarrow> int \<Rightarrow> int \<Rightarrow> bool ps_act" where
  "resolve_ambiguous_report env window_id attempt return_code completed expected =
     bindA (call env (Status window_id)) (\<lambda>r.
       liftA (report_proved window_id attempt return_code completed expected r))"

definition report_transfer ::
  "producer_env \<Rightarrow> transfer_args \<Rightarrow> string \<Rightarrow> int \<Rightarrow> int \<Rightarrow> int \<Rightarrow> bool ps_act" where
  "report_transfer env a attempt return_code completed expected =
     bindA (attemptA (call env (ReportTransferComplete \<lparr>tf_window_id = xa_window_id a,
         tf_attempt_id = attempt, tf_return_code = return_code, tf_completed_bytes = completed,
         tf_manifest_digest = pe_manifest_digest env (xa_pages a)\<rparr>))) (\<lambda>r.
       case r of
         Inr reported \<Rightarrow> retA (rs_code reported = OK)
       | Inl _ \<Rightarrow>
           bindA (attemptA (resolve_ambiguous_report env (xa_window_id a) attempt return_code completed
               expected)) (\<lambda>q.
             case q of
               Inr ok \<Rightarrow> retA ok
             | Inl _ \<Rightarrow> fatal_error ''terminal native report is ambiguous and STATUS could not prove the reported result''))"

text \<open>From the accepted ARM to the result of the window.\<close>

definition run_native ::
  "producer_env \<Rightarrow> transfer_args \<Rightarrow> response \<Rightarrow> selected \<Rightarrow> int \<Rightarrow> window_result ps_act" where
  "run_native env a reserved sel existing =
     (let attempt = rs_attempt_id reserved; descriptors = rs_descriptors reserved;
          expected = sum_list (map ds_length descriptors) in
      bindA (readA ps_remote_session) (\<lambda>session_id.
      bindA (await_native env \<lparr>sa_remote_session = session_id, sa_source_plan = se_plan sel,
          sa_prepared = se_prepared sel, sa_descriptors = descriptors, sa_attempt_id = attempt\<rparr>) (\<lambda>e.
        case native_report attempt expected e of (return_code, completed, nt) \<Rightarrow>
      bindA (report_transfer env a attempt return_code completed expected) (\<lambda>reported.
        let satisfied = (return_code = 0 \<and> reported) in
        seqA (if satisfied then retA () else drop_direct)
          (retA \<lparr>wr_window_id = xa_window_id a, wr_direct_satisfied = satisfied, wr_armed = True,
             wr_reason = (if satisfied then [] else ''native transfer failed''), wr_times = nt,
             wr_submitted_bytes = expected, wr_existing_pages = existing\<rparr>)))))"

definition transfer_reserved ::
  "producer_env \<Rightarrow> transfer_args \<Rightarrow> prepared_source option \<Rightarrow> response \<Rightarrow> disposition list \<Rightarrow>
   window_result ps_act" where
  "transfer_reserved env a prepared reserved dispositions =
     (let w = xa_window_id a; existing = count_existing dispositions in
      if rs_code reserved \<noteq> OK then abandon w ''reservation rejected'' 0
      else if Missing \<in> set dispositions then abandon w ''direct destination hole'' existing
      else if rs_descriptors reserved = [] then retA (window_outcome w True [] existing)
      else bindA (attemptA (select_sources env a prepared reserved)) (\<lambda>r.
        case r of
          Inl _ \<Rightarrow> abandon w ''descriptor validation failed'' existing
        | Inr sel \<Rightarrow>
            bindA (arm_window env a reserved (se_descriptor_digest sel)) (\<lambda>armed.
              if rs_code armed \<noteq> OK then abandon w ''arm rejected'' existing
              else run_native env a reserved sel existing)))"

definition transfer_window :: "producer_env \<Rightarrow> transfer_args \<Rightarrow> window_result ps_act" where
  "transfer_window env a =
     bindA (viable_and_open env) (\<lambda>ok.
       if \<not> ok then retA (window_outcome (xa_window_id a) False ''open rejected'' 0)
       else if uncovered a then abandon (xa_window_id a) ''source coverage mismatch'' 0
       else bindA (eager_preparation env a) (\<lambda>p.
         case p of
           Inl w \<Rightarrow> retA w
         | Inr prepared \<Rightarrow>
             bindA (reserve_window env (xa_window_id a) (xa_source_generation a) (xa_pages a) True
                 ''reserve control unavailable'' ''reservation result invalid'') (\<lambda>r.
               case r of
                 Inl w \<Rightarrow> retA w
               | Inr (reserved, dispositions) \<Rightarrow>
                   transfer_reserved env a prepared reserved dispositions)))"

section \<open>Finish, abort and close\<close>

text \<open>The message of the missing outcome is kept without the response's details.\<close>

definition resolve_ambiguous_finish :: "producer_env \<Rightarrow> (terminal_outcome \<times> bool) ps_act" where
  "resolve_ambiguous_finish env =
     try_call (call env (Status (-1)))
       (\<lambda>_. seqA drop_direct (retA (PERSISTENT_ONLY, False)))
       (\<lambda>r. if rs_fatal_restart_required r \<or> rs_terminal_outcome r = Some FATAL_RESTART then
              fatal_error ''decoder reported fatal state while resolving FINISH''
            else if list_ex (\<lambda>w. ws_native_state w \<in> {ARMED, FATAL_UNKNOWN}) (rs_windows r) then
              fatal_error ''decoder still owns an ambiguous native attempt after FINISH''
            else if rs_terminal_outcome r \<in> {Some LOCAL_FULL, Some PERSISTENT_ONLY,
                Some PERSISTENCE_FAILED, Some CANCELLED} then liftA (classify_terminal r)
            else try_call (call env (Abort ''FINISH terminal state could not be confirmed''))
              (\<lambda>_. seqA drop_direct (retA (PERSISTENT_ONLY, False)))
              (\<lambda>_. seqA drop_direct (retA (PERSISTENT_ONLY, False))))"

definition finish_with_decoder ::
  "producer_env \<Rightarrow> int \<Rightarrow> int \<Rightarrow> int \<Rightarrow> (terminal_outcome \<times> bool) ps_act" where
  "finish_with_decoder env required_end common_end partial_tokens =
     bindA (readA (\<lambda>s. s)) (\<lambda>s.
       try_call (call env (Finish \<lparr>ff_required_store_end = required_end,
           ff_persistent_common_end = common_end,
           ff_final_manifest_digest =
             pe_transaction_digest env (ps_seed s) (ps_manifests s) required_end partial_tokens,
           ff_final_partial_valid_tokens = partial_tokens\<rparr>))
         (\<lambda>_. resolve_ambiguous_finish env)
         (\<lambda>r. if rs_fatal_restart_required r then retA (FATAL_RESTART, False)
              else if rs_terminal_outcome r = None then
                raiseA (RuntimeError ''remote-fill FINISH returned no terminal outcome'')
              else liftA (classify_terminal r)))"

definition finish_outcome ::
  "producer_env \<Rightarrow> session \<Rightarrow> int \<Rightarrow> int \<Rightarrow> int \<Rightarrow> (terminal_outcome \<times> bool) ps_act" where
  "finish_outcome env s required_end common_end partial_tokens =
     (if ps_fatal s then retA (FATAL_RESTART, False)
      else if common_end < required_end then retA (PERSISTENCE_FAILED, False)
      else if \<not> ps_opened s \<or> ps_prearm_unknown s then
        seqA (if ps_prearm_unknown s
              then seqA (attemptA (call env (Abort ''prefiller pre-arm control state is unknown'')))
                     (retA ())
              else retA ())
          (retA (PERSISTENT_ONLY, False))
      else finish_with_decoder env required_end common_end partial_tokens)"

definition finish_session :: "producer_env \<Rightarrow> int \<Rightarrow> int \<Rightarrow> int \<Rightarrow> terminal_result ps_act" where
  "finish_session env required_end common_end partial_tokens =
     bindA (readA (\<lambda>s. s)) (\<lambda>s.
       case ps_terminal s of
         Some t \<Rightarrow> retA t
       | None \<Rightarrow>
           bindA (finish_outcome env s required_end common_end partial_tokens) (\<lambda>(outcome, satisfied).
             let t = \<lparr>tr_transfer_id = ho_transfer_id (ps_handoff s), tr_outcome = outcome,
                    tr_persistent_common_end = common_end, tr_required_store_end = required_end,
                    tr_direct_satisfied = satisfied\<rparr> in
             seqA (writeA (\<lambda>s. s\<lparr>ps_terminal := Some t, ps_closed := True\<rparr>)) (retA t)))"

definition abort_session :: "producer_env \<Rightarrow> string \<Rightarrow> unit ps_act" where
  "abort_session env reason =
     bindA (readA (\<lambda>s. s)) (\<lambda>s.
       if ps_terminal s \<noteq> None \<or> ps_closed s then retA ()
       else if ps_fatal s then
         raiseA (FatalError ''an ambiguous armed transaction cannot be aborted safely'')
       else seqA (if ps_opened s then
             bindA (call env (Abort reason)) (\<lambda>r.
               if rs_code r \<notin> {OK, ACCEPTED, TERMINAL} then
                 raiseA (RuntimeError ''remote-fill ABORT was rejected'')
               else retA ())
           else retA ())
         (writeA (\<lambda>s. s\<lparr>ps_direct_viable := False, ps_closed := True\<rparr>)))"

definition close_session :: "producer_env \<Rightarrow> unit ps_act" where
  "close_session env =
     bindA (readA (\<lambda>s. s)) (\<lambda>s.
       if ps_fatal s \<or> map_option tr_outcome (ps_terminal s) = Some FATAL_RESTART then
         raiseA (FatalError ''cannot close an ambiguous armed remote-fill transaction'')
       else seqA (\<lambda>s. ((case pe_client_close env (ps_events s) of None \<Rightarrow> Inr () | Some e \<Rightarrow> Inl e),
              s\<lparr>ps_events := ps_events s @ [ClientClose]\<rparr>))
         (writeA (\<lambda>s. s\<lparr>ps_prepared := [], ps_closed := True\<rparr>)))"

end
