(* ===== verification/SessionProgress.thy ===== *)
theory SessionProgress
  imports ProducerSession
begin

text \<open>
  What every operation of the control session guarantees: the checks on descriptors, what a session
  only ever gains (flags, recorded calls, operation numbers), and that a fatal exception leaves the
  session fatal.
\<close>

section \<open>What the checks on descriptors guarantee\<close>

definition descriptors_sound ::
  "descriptor_context \<Rightarrow> control_page list \<Rightarrow> string \<Rightarrow> int \<Rightarrow> response \<Rightarrow> bool" where
  "descriptors_sound c pages digest window_id response \<longleftrightarrow>
     distinct (map descriptor_identity (rs_descriptors response)) \<and>
     set (map descriptor_identity (rs_descriptors response)) = allocated_identities response \<and>
     (\<forall>d \<in> set (rs_descriptors response). dc_verify c d \<and>
        (\<exists>page \<in> set pages. page_identity page = descriptor_identity d \<and>
           descriptor_unchanged c digest window_id response page d))"

lemma check_descriptors_Inr:
  "check_descriptors c expected digest window_id response ds seen = Inr seen' \<longleftrightarrow>
     seen' = seen @ map descriptor_identity ds \<and> distinct (map descriptor_identity ds) \<and>
     set (map descriptor_identity ds) \<inter> set seen = {} \<and>
     (\<forall>d \<in> set ds. dc_verify c d \<and> (\<exists>page. expected (descriptor_identity d) = Some page \<and>
        descriptor_unchanged c digest window_id response page d))"
  by (induction ds arbitrary: seen) (auto split: option.splits)

lemma validate_descriptors_sound:
  assumes "validate_descriptors c pages digest window_id response = Inr u"
  shows "descriptors_sound c pages digest window_id response"
proof -
  let ?exp = "py_dict (map (\<lambda>p. (page_identity p, p)) pages)"
  from assms obtain seen where seen: "check_descriptors c ?exp digest window_id response
      (rs_descriptors response) [] = Inr seen"
    and all: "set seen = allocated_identities response"
    by (auto simp: validate_descriptors_def bindR_Inr_iff check_Inr_iff)
  have "page \<in> set pages \<and> page_identity page = i" if "?exp i = Some page" for i page
    using py_dict_SomeD [OF that] by auto
  then show ?thesis
    using seen all unfolding check_descriptors_Inr descriptors_sound_def by fastforce
qed

lemma validate_descriptors_complete:
  assumes "descriptors_sound c pages digest window_id response" "distinct (map page_identity pages)"
  shows "validate_descriptors c pages digest window_id response = Inr ()"
proof -
  let ?exp = "py_dict (map (\<lambda>p. (page_identity p, p)) pages)"
  have "distinct (map fst (map (\<lambda>p. (page_identity p, p)) pages))"
    using assms(2) by (simp add: comp_def)
  then have "?exp (page_identity page) = Some page" if "page \<in> set pages" for page
    using that by (subst py_dict_Some_iff) auto
  then have "check_descriptors c ?exp digest window_id response (rs_descriptors response) []
      = Inr (map descriptor_identity (rs_descriptors response))"
    unfolding check_descriptors_Inr using assms(1) unfolding descriptors_sound_def by fastforce
  then show ?thesis
    using assms(1) by (simp add: validate_descriptors_def descriptors_sound_def check_def)
qed

section \<open>What a session only ever gains\<close>

definition evolves :: "session \<Rightarrow> session \<Rightarrow> bool" where
  "evolves s t \<longleftrightarrow>
     (\<exists>es. ps_events t = ps_events s @ es) \<and> ps_sequence s \<le> ps_sequence t \<and>
     (ps_fatal s \<longrightarrow> ps_fatal t) \<and> (ps_direct_viable t \<longrightarrow> ps_direct_viable s) \<and>
     (ps_opened s \<longrightarrow> ps_opened t) \<and> (ps_closed s \<longrightarrow> ps_closed t) \<and>
     (ps_prearm_unknown s \<longrightarrow> ps_prearm_unknown t) \<and>
     (ps_terminal s \<noteq> None \<longrightarrow> ps_terminal t = ps_terminal s) \<and>
     ps_handoff t = ps_handoff s \<and> ps_secret t = ps_secret s \<and> ps_spec t = ps_spec s"

lemma evolves_trans: "evolves s t \<Longrightarrow> evolves t u \<Longrightarrow> evolves s u"
  unfolding evolves_def by (elim conjE exE) auto

text \<open>Between two requests the numbering only moves on; a request is sent at most twice.\<close>

fun sent :: "pevent list \<Rightarrow> request list" where
  "sent [] = []"
| "sent (Sent rq r # es) = rq # sent es"
| "sent (_ # es) = sent es"

lemma sent_append [simp]: "sent (es @ es') = sent es @ sent es'"
  by (induction es rule: sent.induct) auto

abbreviation sequence_of :: "request \<Rightarrow> int" where
  "sequence_of rq \<equiv> oi_operation_sequence (rq_common rq)"

definition numbered :: "session \<Rightarrow> session \<Rightarrow> bool" where
  "numbered s t \<longleftrightarrow> ps_sequence s \<le> ps_sequence t \<and>
     (\<exists>es. ps_events t = ps_events s @ es \<and>
        (\<forall>q \<in> set (sent es). ps_sequence s < sequence_of q \<and> sequence_of q \<le> ps_sequence t) \<and>
        sorted_wrt (\<lambda>q q'. sequence_of q < sequence_of q' \<or> q = q') (sent es) \<and>
        (\<forall>q. count_list (sent es) q \<le> 2))"

lemma count_list_0: "x \<notin> set xs \<Longrightarrow> count_list xs x = 0"
  by (induction xs) auto

lemma numbered_trans:
  assumes st: "numbered s t" and tu: "numbered t u"
  shows "numbered s u"
proof -
  from st obtain es where es: "ps_events t = ps_events s @ es" "ps_sequence s \<le> ps_sequence t"
    "\<forall>q \<in> set (sent es). ps_sequence s < sequence_of q \<and> sequence_of q \<le> ps_sequence t"
    "sorted_wrt (\<lambda>q q'. sequence_of q < sequence_of q' \<or> q = q') (sent es)"
    "\<forall>q. count_list (sent es) q \<le> 2"
    by (auto simp: numbered_def)
  from tu obtain fs where fs: "ps_events u = ps_events t @ fs" "ps_sequence t \<le> ps_sequence u"
    "\<forall>q \<in> set (sent fs). ps_sequence t < sequence_of q \<and> sequence_of q \<le> ps_sequence u"
    "sorted_wrt (\<lambda>q q'. sequence_of q < sequence_of q' \<or> q = q') (sent fs)"
    "\<forall>q. count_list (sent fs) q \<le> 2"
    by (auto simp: numbered_def)
  have "count_list (sent es) q = 0 \<or> count_list (sent fs) q = 0" for q
  proof (cases "q \<in> set (sent es)")
    case True
    then have "q \<notin> set (sent fs)" using es(3) fs(3) by force
    then show ?thesis by (simp add: count_list_0)
  qed (simp add: count_list_0)
  then have "count_list (sent es) q + count_list (sent fs) q \<le> 2" for q
    using es(5) fs(5) by (metis add_0 add.right_neutral)
  moreover have "\<forall>q \<in> set (sent es). \<forall>q' \<in> set (sent fs). sequence_of q < sequence_of q'"
    using es(3) fs(3) by force
  ultimately show "numbered s u"
    unfolding numbered_def using es fs
    by (intro conjI exI [of _ "es @ fs"]) (auto simp: sorted_wrt_append)
qed

definition progress :: "session \<Rightarrow> session \<Rightarrow> bool" where
  "progress s t \<longleftrightarrow> evolves s t \<and> numbered s t"

interpretation pr: frame progress
proof unfold_locales
  show "progress s s" for s by (simp add: progress_def evolves_def numbered_def)
  show "progress s t \<Longrightarrow> progress t u \<Longrightarrow> progress s u" for s t u
    unfolding progress_def using evolves_trans numbered_trans by blast
qed

section \<open>The calls\<close>

lemma call_effect:
  assumes "call env body s = (r, t)"
  obtains es f rq where
    "t = s\<lparr>ps_sequence := ps_sequence s + 1, ps_events := ps_events s @ es, ps_fatal := f\<rparr>"
    "rq_body rq = body" "sequence_of rq = ps_sequence s + 1"
    "(\<exists>x. es = [Sent rq x]) \<or> (\<exists>x y. es = [Sent rq x, Sent rq y])"
    "ps_fatal s \<longrightarrow> f"
    "\<And>resp. r = Inr resp \<Longrightarrow> Sent rq (Inr resp) \<in> set es \<and> \<not> rs_fatal_restart_required resp \<and>
       rs_terminal_outcome resp \<noteq> Some FATAL_RESTART"
    "\<And>m. r = Inl (FatalError m) \<Longrightarrow> f \<or> (\<exists>ev rq m. pe_execute env ev rq = Inl (FatalError m))"
proof -
  obtain c s1 where c: "common env s = (Inr c, s1)" and s1: "s1 = s\<lparr>ps_sequence := ps_sequence s + 1\<rparr>"
    and seq: "oi_operation_sequence c = ps_sequence s + 1"
    by (simp add: common_def Let_def)
  let ?rq = "\<lparr>rq_common = c, rq_body = body\<rparr>"
  have ex: "execute env ?rq s1 = (r, t)" using assms c by (simp add: call_def bindA_def)
  let ?a1 = "pe_execute env (ps_events s1) ?rq"
  let ?s2 = "s1\<lparr>ps_events := ps_events s1 @ [Sent ?rq ?a1]\<rparr>"
  let ?a2 = "pe_execute env (ps_events ?s2) ?rq"
  let ?s3 = "?s2\<lparr>ps_events := ps_events ?s2 @ [Sent ?rq ?a2]\<rparr>"
  define a where "a = (if ?a1 = Inl ReplyLostError then ?a2 else ?a1)"
  define s4 where "s4 = (if ?a1 = Inl ReplyLostError then ?s3 else ?s2)"
  have got: "bindA (attemptA (send env ?rq)) (\<lambda>r. case r of Inr resp \<Rightarrow> retA resp
      | Inl e \<Rightarrow> if e = ReplyLostError then send env ?rq else raiseA e) s1 = (a, s4)"
    by (cases ?a1) (auto simp: bindA_def attemptA_def send_def retA_def raiseA_def a_def s4_def Let_def)
  let ?es = "if ?a1 = Inl ReplyLostError then [Sent ?rq ?a1, Sent ?rq ?a2] else [Sent ?rq ?a1]"
  have s4: "s4 = s\<lparr>ps_sequence := ps_sequence s + 1, ps_events := ps_events s @ ?es\<rparr>"
    by (simp add: s4_def s1)
  have last: "Sent ?rq a \<in> set ?es" by (simp add: a_def)
  have shape: "(\<exists>x. ?es = [Sent ?rq x]) \<or> (\<exists>x y. ?es = [Sent ?rq x, Sent ?rq y])" by simp
  show ?thesis
  proof (cases a)
    case (Inl e)
    then have "r = Inl e" "t = s4" using ex got by (auto simp: execute_def bindA_def)
    then show ?thesis
      using s4 seq shape Inl that [where es = ?es and f = "ps_fatal s" and rq = ?rq] by (auto simp: a_def split: if_splits)
  next
    case (Inr resp)
    show ?thesis
    proof (cases "response_mismatches (ps_handoff s4) ?rq resp = [] \<and>
        (rs_fatal_restart_required resp \<or> rs_terminal_outcome resp = Some FATAL_RESTART)")
      case True
      then have "\<exists>e. r = Inl e" "t = s4\<lparr>ps_fatal := True\<rparr>"
        using ex got Inr by (auto simp: execute_def bindA_def readA_def fatal_error_def seqA_def
            set_fatal_def writeA_def raiseA_def Let_def)
      then show ?thesis using s4 seq shape that [where es = ?es and f = True and rq = ?rq] by auto
    next
      case False
      then have "t = s4" "(\<exists>m. r = Inl (ValueError m)) \<or> r = Inr resp \<and>
          \<not> (rs_fatal_restart_required resp \<or> rs_terminal_outcome resp = Some FATAL_RESTART)"
        using ex got Inr by (auto simp: execute_def bindA_def readA_def raiseA_def retA_def Let_def
            split: if_splits)
      then show ?thesis using s4 seq shape last Inr that [where es = ?es and f = "ps_fatal s" and rq = ?rq] by auto
    qed
  qed
qed

lemma call_Inr_not_fatal:
  assumes "call env body s = (Inr resp, t)"
  shows "\<not> rs_fatal_restart_required resp \<and> rs_terminal_outcome resp \<noteq> Some FATAL_RESTART"
  using assms
proof (rule call_effect)
  fix es f rq
  assume "\<And>r. Inr resp = Inr r \<Longrightarrow> Sent rq (Inr r) \<in> set es \<and> \<not> rs_fatal_restart_required r \<and>
       rs_terminal_outcome r \<noteq> Some FATAL_RESTART"
  from this [OF refl] show ?thesis by blast
qed

lemma pr_call: "pr.keeps (call env body)"
  unfolding pr.keeps_def
proof
  fix s
  obtain r t where c: "call env body s = (r, t)" by fastforce
  then show "progress s (snd (call env body s))"
  proof (rule call_effect)
    fix es f rq
    assume t: "t = s\<lparr>ps_sequence := ps_sequence s + 1, ps_events := ps_events s @ es, ps_fatal := f\<rparr>"
      and rq: "rq_body rq = body" "sequence_of rq = ps_sequence s + 1"
      and es: "(\<exists>x. es = [Sent rq x]) \<or> (\<exists>x y. es = [Sent rq x, Sent rq y])" and f: "ps_fatal s \<longrightarrow> f"
    have "sent es = [rq] \<or> sent es = [rq, rq]" using es by auto
    then show ?thesis
      using t f rq(2) c unfolding progress_def evolves_def numbered_def by auto
  qed
qed

text \<open>Steps that are not calls: they change one field, or record one event.\<close>

lemma pr_write:
  assumes "\<And>s. evolves s (f s)" "\<And>s. ps_events (f s) = ps_events s"
  shows "pr.keeps (writeA f)"
  using assms by (intro pr.keeps_write) (auto simp: progress_def numbered_def evolves_def)

lemma pr_event:
  assumes "\<And>s. sent [e s] = []"
  shows "pr.keeps (\<lambda>s. (r s, s\<lparr>ps_events := ps_events s @ [e s]\<rparr>))"
proof -
  have "sent [e s] = []" for s using assms .
  then show ?thesis by (auto simp: pr.keeps_def progress_def evolves_def numbered_def)
qed

lemma pr_updates:
  "pr.keeps set_fatal" "pr.keeps drop_direct" "pr.keeps mark_prearm_unknown"
  "pr.keeps (writeA (\<lambda>s. s\<lparr>ps_cache := c s\<rparr>))"
  "pr.keeps (writeA (\<lambda>s. s\<lparr>ps_d_local_end_open := d s, ps_remote_session := r s, ps_opened := True\<rparr>))"
  "pr.keeps (writeA (\<lambda>s. s\<lparr>ps_manifests := m s\<rparr>))"
  "pr.keeps (writeA (\<lambda>s. s\<lparr>ps_prepared := p s\<rparr>))"
  "pr.keeps (writeA (\<lambda>s. s\<lparr>ps_direct_viable := False, ps_closed := True\<rparr>))"
  "pr.keeps (writeA (\<lambda>s. s\<lparr>ps_prepared := p s, ps_closed := True\<rparr>))"
  unfolding set_fatal_def drop_direct_def mark_prearm_unknown_def
  by (rule pr_write; simp add: evolves_def)+

lemma pr_events:
  "pr.keeps (\<lambda>s. (a s, s\<lparr>ps_events := ps_events s @ [PrepareSource plan]\<rparr>))"
  "pr.keeps (\<lambda>s. (a s, s\<lparr>ps_events := ps_events s @ [MakeSources pages]\<rparr>))"
  "pr.keeps (\<lambda>s. (b s, s\<lparr>ps_events := ps_events s @ [ClientClose]\<rparr>))"
  "pr.keeps (read_clock env)"
  unfolding read_clock_def by (rule pr_event; simp)+

lemma pr_submit: "pr.keeps (submit_native env args)"
  by (auto simp: pr.keeps_def submit_native_def progress_def evolves_def numbered_def Let_def
      split: option.splits)

lemma pr_fatal: "pr.keeps (fatal_error m)"
  unfolding fatal_error_def by (intro pr.keeps_intros pr_updates)

lemma pr_try_call:
  "pr.keeps c \<Longrightarrow> (\<And>e. pr.keeps (m e)) \<Longrightarrow> (\<And>x. pr.keeps (f x)) \<Longrightarrow> pr.keeps (try_call c m f)"
  unfolding try_call_def by (intro pr.keeps_intros)

lemmas pr_intros = pr.keeps_intros pr_call pr_updates pr_events pr_submit pr_fatal pr_try_call

section \<open>The operations\<close>

lemma pr_open: "pr.keeps (open_session env)"
  unfolding open_session_def negotiate_def open_transaction_def fail_open_def
  by (intro pr_intros)

lemma pr_viable: "pr.keeps (viable_and_open env)"
  unfolding viable_and_open_def by (intro pr_intros pr_open)

lemma pr_abandon: "pr.keeps (abandon w reason n)"
  unfolding abandon_def by (intro pr_intros)

lemma pr_reserve: "pr.keeps (reserve_window env w g pages missing m1 m2)"
  unfolding reserve_window_def by (intro pr_intros pr_abandon)

lemma pr_probe: "pr.keeps (probe_window env w g pages)"
  unfolding probe_window_def by (intro pr_intros pr_abandon pr_viable pr_reserve)

lemma pr_prepare: "pr.keeps (eager_preparation env a)"
  unfolding eager_preparation_def prepare_source_def by (intro pr_intros pr_abandon)

lemma pr_select: "pr.keeps (select_sources env a prepared reserved)"
  unfolding select_sources_def late_source_def by (intro pr_intros)

lemma pr_arm: "pr.keeps (arm_window env a reserved digest)"
  unfolding arm_window_def resolve_ambiguous_arm_def by (intro pr_intros)

lemma pr_end_of_wait: "pr.keeps (end_of_wait e)"
  unfolding end_of_wait_def by (cases e) (auto intro!: pr_intros)

lemma pr_conclude: "pr.keeps (conclude_native env deadline sub)"
  unfolding conclude_native_def
  by (auto split: submission.splits future_end.splits intro!: pr_intros pr_end_of_wait)

lemma pr_await: "pr.keeps (await_native env args)"
  unfolding await_native_def by (intro pr_intros pr_conclude)

lemma pr_report: "pr.keeps (report_transfer env a attempt rc n m)"
  unfolding report_transfer_def resolve_ambiguous_report_def by (intro pr_intros)

lemma pr_run: "pr.keeps (run_native env a reserved sel n)"
  unfolding run_native_def by (intro pr_intros pr_await pr_report)

lemma pr_reserved: "pr.keeps (transfer_reserved env a prepared reserved ds)"
  unfolding transfer_reserved_def by (intro pr_intros pr_abandon pr_select pr_arm pr_run)

lemma pr_transfer: "pr.keeps (transfer_window env a)"
  unfolding transfer_window_def
  by (intro pr_intros pr_abandon pr_viable pr_prepare pr_reserve pr_reserved)

lemma pr_finish_decoder: "pr.keeps (finish_with_decoder env r c p)"
  unfolding finish_with_decoder_def resolve_ambiguous_finish_def by (intro pr_intros)

lemma pr_abort: "pr.keeps (abort_session env reason)"
  unfolding abort_session_def by (intro pr_intros)

lemma pr_close: "pr.keeps (close_session env)"
  unfolding close_session_def by (intro pr_intros)

lemma pr_finish: "pr.keeps (finish_session env r c p)"
  unfolding pr.keeps_def
proof
  fix s
  show "progress s (snd (finish_session env r c p s))"
  proof (cases "ps_terminal s")
    case (Some t)
    then show ?thesis by (simp add: finish_session_def bindA_def readA_def retA_def pr.frame_refl)
  next
    case None
    have "pr.keeps (finish_outcome env s r c p)"
      unfolding finish_outcome_def by (intro pr_intros pr_finish_decoder)
    moreover obtain x u where u: "finish_outcome env s r c p s = (x, u)" by fastforce
    ultimately have su: "progress s u" by (rule pr.keepsD)
    have "progress s (u\<lparr>ps_terminal := t, ps_closed := True\<rparr>)" for t
      using su None by (simp add: progress_def evolves_def numbered_def)
    then show ?thesis
      using su u None
      by (cases x) (auto simp: finish_session_def bindA_def readA_def retA_def seqA_def writeA_def Let_def)
  qed
qed

section \<open>Runs of a session\<close>

text \<open>The public methods, and one call of one of them, whose result or exception is dropped.\<close>

datatype session_op =
    OpenOp
  | ProbeOp int int "control_page list"
  | TransferOp transfer_args
  | FinishOp int int int
  | AbortOp string
  | CloseOp

definition session_step :: "producer_env \<Rightarrow> session_op \<Rightarrow> session \<Rightarrow> session" where
  "session_step env op s =
     (case op of
        OpenOp \<Rightarrow> snd (open_session env s)
      | ProbeOp w g pages \<Rightarrow> snd (probe_window env w g pages s)
      | TransferOp a \<Rightarrow> snd (transfer_window env a s)
      | FinishOp r c p \<Rightarrow> snd (finish_session env r c p s)
      | AbortOp reason \<Rightarrow> snd (abort_session env reason s)
      | CloseOp \<Rightarrow> snd (close_session env s))"

lemma session_step_progress: "progress s (session_step env op s)"
  using pr_open pr_probe pr_transfer pr_finish pr_abort pr_close
  by (cases op) (auto simp: session_step_def pr.keeps_def)

lemma session_run_progress: "progress s (fold (session_step env) ops s)"
  by (induction ops arbitrary: s)
    (auto intro: pr.frame_refl pr.frame_trans [OF session_step_progress])

section \<open>A fatal exception is latched\<close>

text \<open>The RPC client does not raise the session's own fatal exception.\<close>

definition plain_client :: "producer_env \<Rightarrow> bool" where
  "plain_client env \<longleftrightarrow> (\<forall>ev rq m. pe_execute env ev rq \<noteq> Inl (FatalError m))"

definition latched :: "'a ps_act \<Rightarrow> bool" where
  "latched m \<longleftrightarrow> (\<forall>s e t. m s = (Inl e, t) \<and> is_fatal e \<longrightarrow> ps_fatal t)"

lemma latched_basic:
  "latched (retA x)" "latched (readA f)" "latched (writeA g)" "latched (attemptA m)" "latched (fatal_error msg)"
  "\<not> is_fatal e \<Longrightarrow> latched (raiseA e)"
  by (auto simp: latched_def act_defs fatal_error_def set_fatal_def split: prod.splits)

lemma latched_lift: "(\<And>e. r = Inl e \<Longrightarrow> \<not> is_fatal e) \<Longrightarrow> latched (liftA r)"
  by (auto simp: latched_def liftA_def)

lemma latched_bind: "latched m \<Longrightarrow> (\<And>x. latched (f x)) \<Longrightarrow> latched (bindA m f)"
  unfolding latched_def bindA_def by (auto split: prod.splits sum.splits)

lemma latched_seq: "latched m \<Longrightarrow> latched n \<Longrightarrow> latched (seqA m n)"
  unfolding seqA_def by (rule latched_bind)

lemma latched_if: "(c \<Longrightarrow> latched m) \<Longrightarrow> (\<not> c \<Longrightarrow> latched n) \<Longrightarrow> latched (if c then m else n)"
  by simp

lemma latched_cases:
  "(\<And>e. latched (f e)) \<Longrightarrow> (\<And>x. latched (g x)) \<Longrightarrow> latched (case r of Inl e \<Rightarrow> f e | Inr x \<Rightarrow> g x)"
  "latched m \<Longrightarrow> (\<And>y. latched (h y)) \<Longrightarrow> latched (case z of None \<Rightarrow> m | Some y \<Rightarrow> h y)"
  "(\<And>x y. latched (k x y)) \<Longrightarrow> latched (case p of (x, y) \<Rightarrow> k x y)"
  "latched (l v) \<Longrightarrow> latched (let y = v in l y)"
  by (auto split: sum.splits option.splits prod.splits)

lemma latched_call:
  assumes "plain_client env"
  shows "latched (call env body)"
  unfolding latched_def
proof (intro allI impI)
  fix s e t
  assume a: "call env body s = (Inl e, t) \<and> is_fatal e"
  then have c: "call env body s = (Inl e, t)" by blast
  from a obtain m where m: "e = FatalError m" by (cases e) (auto simp: is_fatal_def)
  from c show "ps_fatal t"
  proof (rule call_effect)
    fix es f rq
    assume "t = s\<lparr>ps_sequence := ps_sequence s + 1, ps_events := ps_events s @ es, ps_fatal := f\<rparr>"
      "\<And>m. Inl e = Inl (FatalError m) \<Longrightarrow> f \<or> (\<exists>ev rq m. pe_execute env ev rq = Inl (FatalError m))"
    then show ?thesis using m assms by (auto simp: plain_client_def)
  qed
qed

lemma latched_try_call:
  assumes "latched c" "\<And>e. latched (m e)" "\<And>x. latched (f x)"
  shows "latched (try_call c m f)"
  unfolding latched_def
proof (intro allI impI)
  fix s e t
  assume a: "try_call c m f s = (Inl e, t) \<and> is_fatal e"
  obtain r u where r: "c s = (r, u)" by fastforce
  show "ps_fatal t"
  proof (cases r)
    case (Inl e1)
    show ?thesis
    proof (cases "is_fatal e1")
      case True
      then have "t = u" using a r Inl by (auto simp: try_call_def bindA_def attemptA_def raiseA_def)
      moreover have "ps_fatal u" using assms(1) r Inl True unfolding latched_def by blast
      ultimately show ?thesis by simp
    next
      case False
      then have "m e1 u = (Inl e, t)" using a r Inl by (auto simp: try_call_def bindA_def attemptA_def)
      then show ?thesis using assms(2) a unfolding latched_def by blast
    qed
  next
    case (Inr x)
    then have "f x u = (Inl e, t)" using a r by (auto simp: try_call_def bindA_def attemptA_def)
    then show ?thesis using assms(3) a unfolding latched_def by blast
  qed
qed

lemmas latched_intros = latched_basic latched_bind latched_seq latched_if latched_cases
  latched_call latched_try_call

lemma latched_open: "plain_client env \<Longrightarrow> latched (viable_and_open env)"
  unfolding viable_and_open_def open_session_def negotiate_def open_transaction_def fail_open_def
    drop_direct_def mark_prearm_unknown_def
  by (intro latched_intros)

lemma latched_abandon: "latched (abandon w reason n)"
  unfolding abandon_def drop_direct_def by (intro latched_intros)

lemma latched_reserve: "plain_client env \<Longrightarrow> latched (reserve_window env w g pages missing m1 m2)"
  unfolding reserve_window_def mark_prearm_unknown_def by (intro latched_intros latched_abandon)

lemma latched_probe: "plain_client env \<Longrightarrow> latched (probe_window env w g pages)"
  unfolding probe_window_def by (intro latched_intros latched_abandon latched_open latched_reserve)

lemma latched_prepare: "latched (eager_preparation env a)"
  unfolding eager_preparation_def by (intro latched_intros latched_abandon)

lemma latched_submit: "latched (submit_native env args)"
  by (auto simp: latched_def submit_native_def Let_def split: option.splits)

lemma latched_clock: "latched (read_clock env)"
  by (simp add: latched_def read_clock_def)

lemma latched_end: "latched (end_of_wait e)"
  unfolding end_of_wait_def by (cases e) (auto intro!: latched_intros)

lemma latched_conclude: "latched (conclude_native env deadline sub)"
  unfolding conclude_native_def
  by (auto split: submission.splits future_end.splits intro!: latched_intros latched_end latched_clock)

lemma latched_await: "latched (await_native env args)"
  unfolding await_native_def
  by (intro latched_intros latched_submit latched_clock latched_conclude)

lemma latched_run: "plain_client env \<Longrightarrow> latched (run_native env a reserved sel n)"
  unfolding run_native_def report_transfer_def drop_direct_def
  by (intro latched_intros latched_await)

lemma latched_arm: "plain_client env \<Longrightarrow> latched (arm_window env a reserved digest)"
  unfolding arm_window_def by (intro latched_intros)

lemma latched_transfer: "plain_client env \<Longrightarrow> latched (transfer_window env a)"
  unfolding transfer_window_def transfer_reserved_def
  by (intro latched_intros latched_abandon latched_open latched_prepare latched_reserve latched_arm
      latched_run)

lemma classify_not_fatal: "classify_terminal r = Inl e \<Longrightarrow> \<not> is_fatal e"
  by (auto simp: classify_terminal_def is_fatal_def Let_def split: option.splits if_splits)

lemma latched_finish: "plain_client env \<Longrightarrow> latched (finish_session env r c p)"
  unfolding finish_session_def finish_outcome_def finish_with_decoder_def resolve_ambiguous_finish_def
    drop_direct_def
  by (intro latched_intros latched_lift) (auto simp: is_fatal_def dest: classify_not_fatal)

end
