(* ===== verification/SessionSafety.thy ===== *)
theory SessionSafety
  imports SessionProgress
begin

text \<open>
  The native write of a window: nothing is submitted before the decoder armed the attempt, and a
  result that promises data to the decoder rests on the decoder's own answers.
\<close>

section \<open>Nothing is written before ARM\<close>

fun is_submit :: "pevent \<Rightarrow> bool" where
  "is_submit (Submit _) = True"
| "is_submit _ = False"

fun is_arm :: "pevent \<Rightarrow> bool" where
  "is_arm (Sent rq _) = (\<exists>f. rq_body rq = ArmWindow f)"
| "is_arm _ = False"

definition quiet :: "pevent \<Rightarrow> bool" where
  "quiet e \<longleftrightarrow> \<not> is_submit e \<and> \<not> is_arm e"

text \<open>
  Steps that neither submit nor arm; with \<open>ctx\<close>, they keep the values descriptors are compared
  with as well.
\<close>

definition same_context :: "session \<Rightarrow> session \<Rightarrow> bool" where
  "same_context s t \<longleftrightarrow> ps_handoff t = ps_handoff s \<and> ps_secret t = ps_secret s \<and>
     ps_remote_session t = ps_remote_session s"

definition hushed :: "bool \<Rightarrow> session \<Rightarrow> session \<Rightarrow> bool" where
  "hushed ctx s t \<longleftrightarrow> (ctx \<longrightarrow> same_context s t) \<and>
     (\<exists>es. ps_events t = ps_events s @ es \<and> list_all quiet es)"

interpretation hu: frame "hushed ctx" for ctx
proof unfold_locales
  show "hushed ctx s s" for s by (simp add: hushed_def same_context_def)
  show "hushed ctx s t \<Longrightarrow> hushed ctx t u \<Longrightarrow> hushed ctx s u" for s t u
    unfolding hushed_def same_context_def by (elim conjE exE) force
qed

lemma hu_call:
  assumes "\<And>f. body \<noteq> ArmWindow f"
  shows "hu.keeps ctx (call env body)"
  unfolding hu.keeps_def
proof
  fix s
  obtain r t where c: "call env body s = (r, t)" by fastforce
  then show "hushed ctx s (snd (call env body s))"
    by (rule call_effect)
      (use c assms in \<open>auto simp: hushed_def same_context_def quiet_def\<close>)
qed

lemma hu_event:
  assumes "\<And>s. quiet (e s)"
  shows "hu.keeps ctx (\<lambda>s. (r s, s\<lparr>ps_events := ps_events s @ [e s]\<rparr>))"
  using assms by (auto simp: hu.keeps_def hushed_def same_context_def)

lemma hu_write:
  assumes "\<And>s. ps_events (f s) = ps_events s" "\<And>s. ctx \<Longrightarrow> same_context s (f s)"
  shows "hu.keeps ctx (writeA f)"
  using assms by (intro hu.keeps_write) (auto simp: hushed_def)

lemma hu_updates:
  "hu.keeps ctx set_fatal" "hu.keeps ctx drop_direct" "hu.keeps ctx mark_prearm_unknown"
  "hu.keeps ctx (writeA (\<lambda>s. s\<lparr>ps_cache := c s\<rparr>))"
  "hu.keeps False (writeA (\<lambda>s. s\<lparr>ps_d_local_end_open := d s, ps_remote_session := r s, ps_opened := True\<rparr>))"
  "hu.keeps ctx (writeA (\<lambda>s. s\<lparr>ps_manifests := m s\<rparr>))"
  "hu.keeps ctx (writeA (\<lambda>s. s\<lparr>ps_prepared := p s\<rparr>))"
  unfolding set_fatal_def drop_direct_def mark_prearm_unknown_def
  by (rule hu_write; simp add: same_context_def)+

lemma hu_events:
  "hu.keeps ctx (\<lambda>s. (a s, s\<lparr>ps_events := ps_events s @ [PrepareSource plan]\<rparr>))"
  "hu.keeps ctx (\<lambda>s. (a s, s\<lparr>ps_events := ps_events s @ [MakeSources pages]\<rparr>))"
  "hu.keeps ctx (read_clock env)"
  unfolding read_clock_def by (rule hu_event; simp add: quiet_def)+

lemma hu_fatal: "hu.keeps ctx (fatal_error m)"
  unfolding fatal_error_def by (intro hu.keeps_intros hu_updates)

lemma hu_try_call:
  "hu.keeps ctx c \<Longrightarrow> (\<And>e. hu.keeps ctx (m e)) \<Longrightarrow> (\<And>x. hu.keeps ctx (f x)) \<Longrightarrow>
   hu.keeps ctx (try_call c m f)"
  unfolding try_call_def by (intro hu.keeps_intros)

lemmas hu_intros = hu.keeps_intros hu_updates hu_events hu_fatal hu_try_call

lemma hu_calls:
  "hu.keeps ctx (call env (Negotiate spec))" "hu.keeps ctx (call env (open_body s))"
  "hu.keeps ctx (call env (ReserveWindow r))" "hu.keeps ctx (call env (ReportTransferComplete t))"
  "hu.keeps ctx (call env (Status w))" "hu.keeps ctx (call env (Abort m))"
  "hu.keeps ctx (call env (Finish f))"
  by (rule hu_call; simp add: open_body_def)+

lemma hu_viable: "hu.keeps False (viable_and_open env)"
  unfolding viable_and_open_def open_session_def negotiate_def open_transaction_def fail_open_def
  by (intro hu_intros hu_calls)

lemma hu_abandon: "hu.keeps ctx (abandon w reason n)"
  unfolding abandon_def by (intro hu_intros)

lemma hu_reserve: "hu.keeps ctx (reserve_window env w g pages missing m1 m2)"
  unfolding reserve_window_def by (intro hu_intros hu_calls hu_abandon)

lemma hu_prepare: "hu.keeps ctx (eager_preparation env a)"
  unfolding eager_preparation_def prepare_source_def by (intro hu_intros hu_abandon)

lemma hu_select: "hu.keeps ctx (select_sources env a prepared reserved)"
  unfolding select_sources_def late_source_def by (intro hu_intros)

lemma hu_end_of_wait: "hu.keeps ctx (end_of_wait e)"
  unfolding end_of_wait_def by (cases e) (auto intro!: hu_intros)

lemma hu_conclude: "hu.keeps ctx (conclude_native env deadline sub)"
  unfolding conclude_native_def
  by (auto split: submission.splits future_end.splits intro!: hu_intros hu_end_of_wait)

lemma hu_report: "hu.keeps ctx (report_transfer env a attempt rc n m)"
  unfolding report_transfer_def resolve_ambiguous_report_def by (intro hu_intros hu_calls)

lemma hu_probe: "hu.keeps False (probe_window env w g pages)"
  unfolding probe_window_def by (intro hu_intros hu_abandon hu_viable hu_reserve)

lemma hu_finish: "hu.keeps False (finish_session env r c p)"
proof -
  have "hu.keeps False (writeA (\<lambda>s. s\<lparr>ps_terminal := t, ps_closed := True\<rparr>))" for t
    by (rule hu_write) simp_all
  then show ?thesis
    unfolding finish_session_def finish_outcome_def finish_with_decoder_def resolve_ambiguous_finish_def
    by (intro hu_intros hu_calls)
qed

text \<open>
  The trace of an operation that may submit: it submits at most once, and then after evidence, in
  the same operation, that the attempt it submits was armed; nothing is armed afterwards.
\<close>

definition arm_evidence :: "int \<Rightarrow> string \<Rightarrow> pevent list \<Rightarrow> bool" where
  "arm_evidence window_id attempt es \<longleftrightarrow>
     (\<exists>rq resp. Sent rq (Inr resp) \<in> set es \<and>
        ((\<exists>f. rq_body rq = ArmWindow f \<and> af_window_id f = window_id \<and> af_attempt_id f = attempt
            \<and> rs_code resp = OK) \<or>
         (rq_body rq = Status window_id \<and> arm_proved window_id attempt resp = Inr resp)))"

definition submits_once ::
  "(submit_args \<Rightarrow> bool) \<Rightarrow> int \<Rightarrow> pevent list \<Rightarrow> bool" where
  "submits_once good window_id es \<longleftrightarrow>
     list_all (\<lambda>e. \<not> is_submit e) es \<or>
     (\<exists>pre x post. es = pre @ Submit x # post \<and> list_all (\<lambda>e. \<not> is_submit e) pre \<and>
        list_all quiet post \<and> good x \<and> arm_evidence window_id (sa_attempt_id x) pre)"

lemma quiet_no_submit: "list_all quiet es \<Longrightarrow> list_all (\<lambda>e. \<not> is_submit e) es"
  by (auto simp: list_all_iff quiet_def)

lemma submits_once_quiet: "list_all quiet es \<Longrightarrow> submits_once good w es"
  by (simp add: submits_once_def quiet_no_submit)

lemma arm_evidence_prefix: "arm_evidence w a es \<Longrightarrow> arm_evidence w a (es' @ es)"
  by (auto simp: arm_evidence_def)

lemma submits_once_prefix:
  assumes "list_all quiet pre" "submits_once good w es"
  shows "submits_once good w (pre @ es)"
  using assms(2) unfolding submits_once_def
proof
  assume "list_all (\<lambda>e. \<not> is_submit e) es"
  then show "list_all (\<lambda>e. \<not> is_submit e) (pre @ es) \<or> (\<exists>p x post. pre @ es = p @ Submit x # post \<and>
      list_all (\<lambda>e. \<not> is_submit e) p \<and> list_all quiet post \<and> good x \<and> arm_evidence w (sa_attempt_id x) p)"
    using quiet_no_submit [OF assms(1)] by simp
next
  assume "\<exists>p x post. es = p @ Submit x # post \<and> list_all (\<lambda>e. \<not> is_submit e) p \<and>
      list_all quiet post \<and> good x \<and> arm_evidence w (sa_attempt_id x) p"
  then obtain p x post where "es = p @ Submit x # post" "list_all (\<lambda>e. \<not> is_submit e) p"
    "list_all quiet post" "good x" "arm_evidence w (sa_attempt_id x) p" by blast
  then show "list_all (\<lambda>e. \<not> is_submit e) (pre @ es) \<or> (\<exists>p x post. pre @ es = p @ Submit x # post \<and>
      list_all (\<lambda>e. \<not> is_submit e) p \<and> list_all quiet post \<and> good x \<and> arm_evidence w (sa_attempt_id x) p)"
    using quiet_no_submit [OF assms(1)]
    by (intro disjI2 exI [of _ "pre @ p"] exI [of _ x] exI [of _ post]) (simp add: arm_evidence_prefix)
qed

text \<open>The native transfer: at most one submission, of the given arguments, and nothing else.\<close>

definition one_submission :: "submit_args \<Rightarrow> pevent list \<Rightarrow> bool" where
  "one_submission args es \<longleftrightarrow> list_all quiet es \<or>
     (\<exists>pre post. es = pre @ Submit args # post \<and> list_all quiet pre \<and> list_all quiet post)"

lemma one_submission_append:
  assumes "one_submission args es" "list_all quiet fs"
  shows "one_submission args (es @ fs)"
  using assms(1) unfolding one_submission_def
proof (elim disjE exE conjE)
  assume "list_all quiet es"
  then show "list_all quiet (es @ fs) \<or> (\<exists>pre post. es @ fs = pre @ Submit args # post \<and>
      list_all quiet pre \<and> list_all quiet post)"
    using assms(2) by simp
next
  fix pre post
  assume "es = pre @ Submit args # post" "list_all quiet pre" "list_all quiet post"
  then show "list_all quiet (es @ fs) \<or> (\<exists>pre post. es @ fs = pre @ Submit args # post \<and>
      list_all quiet pre \<and> list_all quiet post)"
    using assms(2) by (intro disjI2 exI [of _ pre] exI [of _ "post @ fs"]) simp
qed

lemma one_submission_prepend:
  assumes "one_submission args es" "list_all quiet fs"
  shows "one_submission args (fs @ es)"
  using assms unfolding one_submission_def
  by (elim disjE exE conjE) (simp, metis append.assoc list_all_append)

definition submitting :: "submit_args \<Rightarrow> session \<Rightarrow> session \<Rightarrow> bool" where
  "submitting args s t \<longleftrightarrow> same_context s t \<and>
     (\<exists>es. ps_events t = ps_events s @ es \<and> one_submission args es)"

lemma submitting_then_hushed: "submitting args s t \<Longrightarrow> hushed True t u \<Longrightarrow> submitting args s u"
  unfolding submitting_def hushed_def same_context_def
  by (elim conjE exE) (auto intro!: exI simp: one_submission_append)

lemma hushed_then_submitting: "hushed True s t \<Longrightarrow> submitting args t u \<Longrightarrow> submitting args s u"
  unfolding submitting_def hushed_def same_context_def
  by (elim conjE exE) (auto intro!: exI simp: one_submission_prepend)

lemma await_native_submits:
  assumes "await_native env args s = (r, t)"
  shows "submitting args s t"
proof -
  obtain x s1 where clock: "read_clock env s = (Inr x, s1)" by (simp add: read_clock_def)
  obtain sub s2 where sub: "submit_native env args s1 = (Inr sub, s2)"
    by (cases "pe_activation env (ps_events s1) (sa_attempt_id args)")
      (auto simp: submit_native_def Let_def)
  have run: "conclude_native env (x + ps_hard_timeout s1) sub s2 = (r, t)"
    using assms clock sub by (simp add: await_native_def bindA_def readA_def)
  have tail: "hushed True s2 t" using hu_conclude run by (rule hu.keepsD)
  have "submitting args s1 s2"
  proof (cases "pe_activation env (ps_events s1) (sa_attempt_id args)")
    case None
    then have "ps_events s2 = ps_events s1 @ [Activate (sa_attempt_id args)] @ Submit args # []"
      "same_context s1 s2"
      using sub by (auto simp: submit_native_def Let_def same_context_def)
    moreover have "one_submission args ([Activate (sa_attempt_id args)] @ Submit args # [])"
      unfolding one_submission_def
      by (intro disjI2 exI [of _ "[Activate (sa_attempt_id args)]"] exI [of _ "[]"])
        (simp add: quiet_def)
    ultimately show ?thesis unfolding submitting_def by blast
  next
    case (Some e)
    then have "ps_events s2 = ps_events s1 @ [Activate (sa_attempt_id args)]" "same_context s1 s2"
      using sub by (auto simp: submit_native_def same_context_def)
    then show ?thesis unfolding submitting_def one_submission_def
      by (intro conjI exI [of _ "[Activate (sa_attempt_id args)]"]) (simp_all add: quiet_def)
  qed
  moreover have "hushed True s s1" using hu_events(3) clock by (rule hu.keepsD)
  ultimately show ?thesis using tail submitting_then_hushed hushed_then_submitting by blast
qed

lemma run_native_submits:
  assumes "run_native env a reserved sel n s = (r, t)"
  shows "submitting \<lparr>sa_remote_session = ps_remote_session s, sa_source_plan = se_plan sel,
    sa_prepared = se_prepared sel, sa_descriptors = rs_descriptors reserved,
    sa_attempt_id = rs_attempt_id reserved\<rparr> s t"
proof -
  let ?args = "\<lparr>sa_remote_session = ps_remote_session s, sa_source_plan = se_plan sel,
    sa_prepared = se_prepared sel, sa_descriptors = rs_descriptors reserved,
    sa_attempt_id = rs_attempt_id reserved\<rparr>"
  let ?expected = "sum_list (map ds_length (rs_descriptors reserved))"
  obtain x u where aw: "await_native env ?args s = (x, u)" by fastforce
  have su: "submitting ?args s u" by (rule await_native_submits [OF aw])
  show ?thesis
  proof (cases x)
    case (Inl e)
    then have "t = u" using assms aw by (simp add: run_native_def bindA_def readA_def Let_def)
    then show ?thesis using su by simp
  next
    case (Inr e)
    obtain rc n' nt where rep: "native_report (rs_attempt_id reserved) ?expected e = (rc, n', nt)"
      using prod_cases3 by blast
    define m where "m = bindA (report_transfer env a (rs_attempt_id reserved) rc n' ?expected) (\<lambda>reported.
        let satisfied = (rc = 0 \<and> reported) in
        seqA (if satisfied then retA () else drop_direct)
          (retA \<lparr>wr_window_id = xa_window_id a, wr_direct_satisfied = satisfied, wr_armed = True,
             wr_reason = (if satisfied then [] else ''native transfer failed''), wr_times = nt,
             wr_submitted_bytes = ?expected, wr_existing_pages = n\<rparr>))"
    have "m u = (r, t)"
      using assms aw Inr rep unfolding m_def by (simp add: run_native_def bindA_def readA_def Let_def)
    moreover have "hu.keeps True m" unfolding m_def by (intro hu_intros hu_report)
    ultimately have "hushed True u t" by (metis hu.keepsD)
    with su show ?thesis by (rule submitting_then_hushed)
  qed
qed

text \<open>ARM: no submission, and evidence when the answer is \<open>OK\<close>.\<close>

lemma no_submit_sent: "(\<exists>x. es = [Sent rq x]) \<or> (\<exists>x y. es = [Sent rq x, Sent rq y]) \<Longrightarrow>
    list_all (\<lambda>e. \<not> is_submit e) es"
  by auto

definition arming :: "session \<Rightarrow> session \<Rightarrow> pevent list \<Rightarrow> bool" where
  "arming s t es \<longleftrightarrow> same_context s t \<and> ps_events t = ps_events s @ es \<and>
     list_all (\<lambda>e. \<not> is_submit e) es"

lemma call_arming:
  assumes "call env body s = (r, t)"
  obtains es where "arming s t es"
    "\<And>resp. r = Inr resp \<Longrightarrow> \<exists>rq. Sent rq (Inr resp) \<in> set es \<and> rq_body rq = body"
  using assms
proof (rule call_effect)
  fix es f rq
  assume t: "t = s\<lparr>ps_sequence := ps_sequence s + 1, ps_events := ps_events s @ es, ps_fatal := f\<rparr>"
    and rq: "rq_body rq = body"
    and es: "(\<exists>x. es = [Sent rq x]) \<or> (\<exists>x y. es = [Sent rq x, Sent rq y])"
    and ok: "\<And>resp. r = Inr resp \<Longrightarrow> Sent rq (Inr resp) \<in> set es \<and> \<not> rs_fatal_restart_required resp \<and>
       rs_terminal_outcome resp \<noteq> Some FATAL_RESTART"
  have "arming s t es" using t no_submit_sent [OF es] by (simp add: arming_def same_context_def)
  moreover have "\<exists>rq. Sent rq (Inr resp) \<in> set es \<and> rq_body rq = body" if "r = Inr resp" for resp
    using ok [OF that] rq by blast
  ultimately show ?thesis by (rule that)
qed

lemma arming_trans: "arming s t es \<Longrightarrow> arming t u fs \<Longrightarrow> arming s u (es @ fs)"
  by (auto simp: arming_def same_context_def)

lemma arming_fatal: "fatal_error m s = (r, t) \<Longrightarrow> arming s t [] \<and> (\<exists>e. r = Inl e)"
  by (auto simp: fatal_error_def seqA_def bindA_def set_fatal_def writeA_def raiseA_def arming_def
      same_context_def)

lemma arm_window_effect:
  assumes "arm_window env a reserved digest s = (r, t)"
  obtains es where "arming s t es"
    "\<And>resp. r = Inr resp \<Longrightarrow> rs_code resp = OK \<Longrightarrow>
      arm_evidence (xa_window_id a) (rs_attempt_id reserved) es"
proof -
  let ?body = "ArmWindow \<lparr>af_window_id = xa_window_id a,
         af_attempt_id = rs_attempt_id reserved,
         af_manifest_digest = pe_manifest_digest env (xa_pages a),
         af_descriptor_digest = digest\<rparr>"
  obtain x u where c: "call env ?body s = (x, u)" by fastforce
  obtain es where es: "arming s u es"
    and ev: "\<And>resp. x = Inr resp \<Longrightarrow> \<exists>rq. Sent rq (Inr resp) \<in> set es \<and> rq_body rq = ?body"
    using call_arming [OF c] by metis
  show ?thesis
  proof (cases x)
    case (Inr resp)
    then have "r = Inr resp" "t = u"
      using assms c by (auto simp: arm_window_def try_call_def bindA_def attemptA_def retA_def)
    moreover have "arm_evidence (xa_window_id a) (rs_attempt_id reserved) es" if "rs_code resp = OK"
      using ev [OF Inr] that unfolding arm_evidence_def by fastforce
    ultimately show ?thesis using es by (intro that [of es]) auto
  next
    case (Inl e)
    show ?thesis
    proof (cases "is_fatal e")
      case True
      then have "r = Inl e" "t = u"
        using assms c Inl by (auto simp: arm_window_def try_call_def bindA_def attemptA_def raiseA_def)
      then show ?thesis using es by (intro that [of es]) auto
    next
      case False
      obtain y v where st: "call env (Status (xa_window_id a)) u = (y, v)" by fastforce
      obtain fs where fs: "arming u v fs"
        and evs: "\<And>resp. y = Inr resp \<Longrightarrow>
          \<exists>rq. Sent rq (Inr resp) \<in> set fs \<and> rq_body rq = Status (xa_window_id a)"
        using call_arming [OF st] by metis
      let ?z = "bindR y (arm_proved (xa_window_id a) (rs_attempt_id reserved))"
      have res: "resolve_ambiguous_arm env (xa_window_id a) (rs_attempt_id reserved) u = (?z, v)"
        using st by (cases y) (simp_all add: resolve_ambiguous_arm_def bindA_def liftA_def)
      show ?thesis
      proof (cases ?z)
        case z: (Inr resp)
        then have "y = Inr resp" "arm_proved (xa_window_id a) (rs_attempt_id reserved) resp = Inr resp"
          by (auto simp: bindR_Inr_iff arm_proved_def Let_def split: if_splits)
        with evs have "arm_evidence (xa_window_id a) (rs_attempt_id reserved) (es @ fs)"
          unfolding arm_evidence_def by fastforce
        moreover have "t = v"
          using assms c Inl False res z
          by (auto simp: arm_window_def try_call_def bindA_def attemptA_def retA_def)
        ultimately show ?thesis using arming_trans [OF es fs] by (intro that [of "es @ fs"]) auto
      next
        case (Inl e2)
        then have "fatal_error ''ARM_WINDOW acknowledgement is ambiguous and STATUS could not prove the armed attempt'' v = (r, t)"
          using assms c \<open>x = Inl e\<close> False res
          by (simp add: arm_window_def try_call_def bindA_def attemptA_def)
        from arming_fatal [OF this] have v: "arming v t []" and e: "\<exists>e. r = Inl e" by blast+
        have "arming s t ((es @ fs) @ [])" by (rule arming_trans [OF arming_trans [OF es fs] v])
        then show ?thesis using e by (intro that [of "(es @ fs) @ []"]) auto
      qed
    qed
  qed
qed

text \<open>What a submission carries: validated descriptors and sources that fit them.\<close>

definition fits :: "source_page \<Rightarrow> descriptor \<Rightarrow> bool" where
  "fits p d \<longleftrightarrow> (so_canonical_key p, so_kv_group p) = descriptor_identity d \<and>
     sum_list (so_source_lengths p) = ds_length d"

definition good_submission ::
  "producer_env \<Rightarrow> transfer_args \<Rightarrow> session \<Rightarrow> submit_args \<Rightarrow> bool" where
  "good_submission env a s x \<longleftrightarrow>
     (\<exists>reserved. sa_descriptors x = rs_descriptors reserved \<and> sa_attempt_id x = rs_attempt_id reserved \<and>
        descriptors_sound (descriptor_context_of env s) (xa_pages a)
          (pe_manifest_digest env (xa_pages a)) (xa_window_id a) reserved) \<and>
     sa_remote_session x = ps_remote_session s \<and>
     list_all2 fits (sl_pages (sa_source_plan x)) (sa_descriptors x)"

lemma same_context_good:
  "same_context s t \<Longrightarrow> good_submission env a t = good_submission env a s"
  by (simp add: good_submission_def same_context_def descriptor_context_of_def fun_eq_iff)

lemma select_sources_Inr:
  assumes "select_sources env a prepared reserved s = (Inr sel, t)"
  shows "validate_descriptors (descriptor_context_of env s) (xa_pages a)
      (pe_manifest_digest env (xa_pages a)) (xa_window_id a) reserved = Inr () \<and>
    list_all2 fits (sl_pages (se_plan sel)) (rs_descriptors reserved)"
proof -
  let ?digest = "pe_manifest_digest env (xa_pages a)" and ?ds = "rs_descriptors reserved"
  have v: "validate_descriptors (descriptor_context_of env s) (xa_pages a) ?digest (xa_window_id a)
      reserved = Inr ()"
    and ex: "\<exists>(plan :: source_plan) sources. mapR (select_page (sl_pages plan)) ?ds = Inr sources \<and>
      \<not> list_ex (\<lambda>(p, d). sum_list (so_source_lengths p) \<noteq> ds_length d) (zip sources ?ds) \<and>
      sl_pages (se_plan sel) = sources"
    using assms unfolding select_sources_def Let_def act_runs
    by (auto simp: act_runs check_Inr_iff split: prod.splits)
  from ex obtain plan :: source_plan and sources where
    sel: "mapR (select_page (sl_pages plan)) ?ds = Inr sources"
    and len: "\<not> list_ex (\<lambda>(p, d). sum_list (so_source_lengths p) \<noteq> ds_length d) (zip sources ?ds)"
    and pages: "sl_pages (se_plan sel) = sources" by blast
  have id: "(so_canonical_key p, so_kv_group p) = descriptor_identity d"
    if "select_page (sl_pages plan) d = Inr p" for p d
    using that by (auto simp: select_page_def source_by_identity_def split: option.splits
        dest!: py_dict_SomeD)
  have "length sources = length (rs_descriptors reserved)"
    "\<forall>i < length sources. select_page (sl_pages plan) (rs_descriptors reserved ! i) = Inr (sources ! i)"
    using sel by (auto simp: mapR_Inr_iff)
  moreover have "sum_list (so_source_lengths (sources ! i)) = ds_length (rs_descriptors reserved ! i)"
    if "i < length sources" for i
  proof -
    have "(sources ! i, rs_descriptors reserved ! i) \<in> set (zip sources ?ds)"
      using that \<open>length sources = length ?ds\<close> by (auto simp: set_zip)
    then show ?thesis using len by (auto simp: list_ex_iff)
  qed
  ultimately have "list_all2 fits sources (rs_descriptors reserved)"
    using id by (auto simp: list_all2_conv_all_nth fits_def)
  with v pages show ?thesis by simp
qed

lemma hushed_events: "hushed c s t \<Longrightarrow> \<exists>es. ps_events t = ps_events s @ es \<and> list_all quiet es"
  by (simp add: hushed_def)

lemma transfer_reserved_submits:
  assumes "transfer_reserved env a prepared reserved ds s = (r, t)"
  shows "same_context s t \<and> (\<exists>es. ps_events t = ps_events s @ es \<and>
    submits_once (good_submission env a t) (xa_window_id a) es)"
proof -
  have hushed_ok: ?thesis if "hushed True s t"
    using that hushed_events [OF that] by (auto simp: hushed_def intro: submits_once_quiet)
  let ?w = "xa_window_id a" and ?n = "count_existing ds"
  show ?thesis
  proof (cases "rs_code reserved = OK \<and> Missing \<notin> set ds \<and> rs_descriptors reserved \<noteq> []")
    case False
    let ?m = "if rs_code reserved \<noteq> OK then abandon ?w ''reservation rejected'' 0
      else if Missing \<in> set ds then abandon ?w ''direct destination hole'' ?n
      else retA (window_outcome ?w True [] ?n)"
    have m: "hu.keeps True ?m" by (intro hu_intros hu_abandon)
    have "?m s = (r, t)" using False assms by (auto simp: transfer_reserved_def Let_def)
    with m have "hushed True s t" by (rule hu.keepsD)
    then show ?thesis by (rule hushed_ok)
  next
    case True
    obtain x u where sel: "select_sources env a prepared reserved s = (x, u)" by fastforce
    have su: "hushed True s u" using hu_select sel by (rule hu.keepsD)
    show ?thesis
    proof (cases x)
      case (Inl e)
      then have "abandon ?w ''descriptor validation failed'' ?n u = (r, t)"
        using assms True sel by (simp add: transfer_reserved_def Let_def bindA_def attemptA_def)
      with hu_abandon have "hushed True u t" by (rule hu.keepsD)
      with su show ?thesis using hushed_ok hu.frame_trans by blast
    next
      case x: (Inr sel')
      note good = select_sources_Inr [OF sel [unfolded x]]
      obtain y v where arm: "arm_window env a reserved (se_descriptor_digest sel') u = (y, v)" by fastforce
      obtain es where es: "arming u v es"
        and ev: "\<And>resp. y = Inr resp \<Longrightarrow> rs_code resp = OK \<Longrightarrow>
          arm_evidence ?w (rs_attempt_id reserved) es"
        using arm_window_effect [OF arm] by metis
      obtain pre where pre: "ps_events u = ps_events s @ pre" "list_all quiet pre"
        using hushed_events [OF su] by blast
      have sv: "same_context s v" "ps_events v = ps_events s @ pre @ es"
        using su es pre by (auto simp: hushed_def arming_def same_context_def)
      show ?thesis
      proof (cases "\<exists>resp. y = Inr resp \<and> rs_code resp = OK")
        case False
        have "hushed True v t"
        proof (cases y)
          case (Inl e)
          then have "t = v" using assms True sel x arm
            by (simp add: transfer_reserved_def Let_def bindA_def attemptA_def)
          then show ?thesis by (simp add: hu.frame_refl)
        next
          case (Inr resp)
          then have "abandon ?w ''arm rejected'' ?n v = (r, t)" using assms True sel x arm False
            by (simp add: transfer_reserved_def Let_def bindA_def attemptA_def)
          with hu_abandon show ?thesis by (rule hu.keepsD)
        qed
        then obtain post where "ps_events t = ps_events v @ post" "list_all quiet post" "same_context v t"
          by (auto simp: hushed_def)
        then show ?thesis
          using sv pre es quiet_no_submit
          by (auto simp: same_context_def arming_def submits_once_def intro!: exI [of _ "pre @ es @ post"])
      next
        case ok: True
        then have run: "run_native env a reserved sel' ?n v = (r, t)"
          using assms True sel x arm
          by (auto simp: transfer_reserved_def Let_def bindA_def attemptA_def)
        define args where "args = \<lparr>sa_remote_session = ps_remote_session v, sa_source_plan = se_plan sel',
            sa_prepared = se_prepared sel', sa_descriptors = rs_descriptors reserved,
            sa_attempt_id = rs_attempt_id reserved\<rparr>"
        have "submitting args v t" unfolding args_def by (rule run_native_submits [OF run])
        then obtain fs where vt: "same_context v t" and fs: "ps_events t = ps_events v @ fs" "one_submission args fs"
          by (auto simp: submitting_def)
        have st: "same_context s t" using sv(1) vt by (simp add: same_context_def)
        have "good_submission env a s args"
          using good sv(1) validate_descriptors_sound [OF conjunct1 [OF good]]
          by (auto simp: good_submission_def args_def same_context_def)
        then have args: "good_submission env a t args" using same_context_good [OF st] by simp
        have ev': "arm_evidence ?w (sa_attempt_id args) es" using ev ok by (auto simp: args_def)
        have nosub: "list_all (\<lambda>e. \<not> is_submit e) (pre @ es)"
          using pre(2) es quiet_no_submit by (auto simp: arming_def)
        have "submits_once (good_submission env a t) ?w (pre @ es @ fs)"
          using fs(2) unfolding one_submission_def
        proof (elim disjE exE conjE)
          assume "list_all quiet fs"
          then show ?thesis using nosub quiet_no_submit by (simp add: submits_once_def)
        next
          fix p q
          assume "fs = p @ Submit args # q" "list_all quiet p" "list_all quiet q"
          moreover have "arm_evidence ?w (sa_attempt_id args) (pre @ es @ p)"
            using ev' by (auto simp: arm_evidence_def)
          ultimately show ?thesis
            using nosub quiet_no_submit args unfolding submits_once_def
            by (intro disjI2 exI [of _ "pre @ es @ p"] exI [of _ args] exI [of _ q]) simp
        qed
        then show ?thesis using st sv(2) fs(1) by simp
      qed
    qed
  qed
qed

lemma transfer_window_submits:
  assumes "transfer_window env a s = (r, t)"
  shows "\<exists>es. ps_events t = ps_events s @ es \<and> submits_once (good_submission env a t) (xa_window_id a) es"
proof -
  let ?goal = "\<lambda>s. \<exists>es. ps_events t = ps_events s @ es \<and>
    submits_once (good_submission env a t) (xa_window_id a) es"
  have stop: "?goal s" if "hushed False s t" for s
    using hushed_events [OF that] by (auto intro: submits_once_quiet)
  have step: "?goal s" if st: "hushed c s u" and u: "?goal u" for c s u
  proof -
    obtain pre where "ps_events u = ps_events s @ pre" "list_all quiet pre"
      using hushed_events [OF st] by blast
    with u show ?thesis by (auto intro: submits_once_prefix)
  qed
  obtain x u where v: "viable_and_open env s = (x, u)" by fastforce
  have su: "hushed False s u" using hu_viable v by (rule hu.keepsD)
  consider (stopped) "hushed False u t" | (go) "x = Inr True" "\<not> uncovered a"
  proof (cases "x = Inr True \<and> \<not> uncovered a")
    case False
    have m: "hu.keeps False (if x \<noteq> Inr True then retA (window_outcome (xa_window_id a) False ''open rejected'' 0)
        else abandon (xa_window_id a) ''source coverage mismatch'' 0)"
      by (intro hu_intros hu_abandon)
    show ?thesis
    proof (cases x)
      case (Inl e)
      then have "t = u" using assms v by (simp add: transfer_window_def bindA_def)
      then show ?thesis using stopped hu.frame_refl by blast
    next
      case (Inr ok)
      have "(if x \<noteq> Inr True then retA (window_outcome (xa_window_id a) False ''open rejected'' 0)
          else abandon (xa_window_id a) ''source coverage mismatch'' 0) u = (r, t)"
        using assms v False Inr by (cases ok) (auto simp: transfer_window_def bindA_def)
      with m have "hushed False u t" by (rule hu.keepsD)
      then show ?thesis by (rule stopped)
    qed
  qed blast
  then have "?goal u"
  proof cases
    case stopped
    then show ?thesis by (rule stop)
  next
    case go
    obtain y v' where p: "eager_preparation env a u = (y, v')" by fastforce
    have uv: "hushed False u v'" using hu_prepare p by (rule hu.keepsD)
    show ?thesis
    proof (cases "\<exists>prepared. y = Inr (Inr prepared)")
      case False
      then have "t = v'"
        using assms v go p by (cases y) (auto simp: transfer_window_def bindA_def retA_def split: sum.splits)
      then show ?thesis using stop uv by blast
    next
      case True
      then obtain prepared where y: "y = Inr (Inr prepared)" by blast
      obtain z w where rs: "reserve_window env (xa_window_id a) (xa_source_generation a) (xa_pages a) True
          ''reserve control unavailable'' ''reservation result invalid'' v' = (z, w)" by fastforce
      have vw: "hushed False v' w" using hu_reserve rs by (rule hu.keepsD)
      show ?thesis
      proof (cases "\<exists>q. z = Inr (Inr q)")
        case False
        then have "t = w"
          using assms v go p y rs
          by (cases z) (auto simp: transfer_window_def bindA_def retA_def split: sum.splits)
        then show ?thesis using stop uv vw hu.frame_trans by blast
      next
        case True
        then obtain reserved ds where "z = Inr (Inr (reserved, ds))" by auto
        then have "transfer_reserved env a prepared reserved ds w = (r, t)"
          using assms v go p y rs by (simp add: transfer_window_def bindA_def)
        from transfer_reserved_submits [OF this] have "?goal w" by blast
        then show ?thesis using step [OF uv] step [OF vw] by blast
      qed
    qed
  qed
  then show ?thesis by (rule step [OF su])
qed

section \<open>What the results mean\<close>

text \<open>
  A satisfied window: either nothing had to be written, as the decoder holds every page already,
  or the native write was reported complete, by the decoder's answer or by its exact status.
\<close>

definition report_evidence :: "int \<Rightarrow> string \<Rightarrow> pevent list \<Rightarrow> bool" where
  "report_evidence window_id attempt es \<longleftrightarrow>
     (\<exists>rq resp. Sent rq (Inr resp) \<in> set es \<and>
        ((\<exists>f. rq_body rq = ReportTransferComplete f \<and> tf_window_id f = window_id \<and>
            tf_attempt_id f = attempt \<and> tf_return_code f = 0 \<and> rs_code resp = OK) \<or>
         (rq_body rq = Status window_id \<and> (\<exists>w. rs_windows resp = [w] \<and> ws_window_id w = window_id \<and>
            ws_attempt_id w = attempt \<and> ws_native_state w = TERMINAL_SUCCESS))))"

lemma report_transfer_evidence:
  assumes "report_transfer env a attempt 0 n m s = (Inr True, t)"
  shows "\<exists>es. ps_events t = ps_events s @ es \<and> report_evidence (xa_window_id a) attempt es"
proof -
  let ?body = "ReportTransferComplete \<lparr>tf_window_id = xa_window_id a,
         tf_attempt_id = attempt, tf_return_code = 0, tf_completed_bytes = n,
         tf_manifest_digest = pe_manifest_digest env (xa_pages a)\<rparr>"
  obtain x u where c: "call env ?body s = (x, u)" by fastforce
  obtain es where es: "arming s u es"
    and ev: "\<And>resp. x = Inr resp \<Longrightarrow> \<exists>rq. Sent rq (Inr resp) \<in> set es \<and> rq_body rq = ?body"
    using call_arming [OF c] by metis
  show ?thesis
  proof (cases x)
    case (Inr resp)
    then have "t = u" "rs_code resp = OK"
      using assms c by (auto simp: report_transfer_def bindA_def attemptA_def retA_def)
    then show ?thesis using ev [OF Inr] es unfolding report_evidence_def arming_def by fastforce
  next
    case (Inl e)
    obtain y v where st: "call env (Status (xa_window_id a)) u = (y, v)" by fastforce
    obtain fs where fs: "arming u v fs"
      and evs: "\<And>resp. y = Inr resp \<Longrightarrow>
        \<exists>rq. Sent rq (Inr resp) \<in> set fs \<and> rq_body rq = Status (xa_window_id a)"
      using call_arming [OF st] by metis
    let ?z = "bindR y (report_proved (xa_window_id a) attempt 0 n m)"
    have res: "resolve_ambiguous_report env (xa_window_id a) attempt 0 n m u = (?z, v)"
      using st by (cases y) (simp_all add: resolve_ambiguous_report_def bindA_def liftA_def)
    have z: "?z = Inr True" "t = v"
      using assms c Inl res by (cases ?z;
          auto simp: report_transfer_def bindA_def attemptA_def retA_def dest: arming_fatal)+
    then obtain resp where y: "y = Inr resp" and p: "report_proved (xa_window_id a) attempt 0 n m resp = Inr True"
      by (auto simp: bindR_Inr_iff)
    then have "\<exists>w. rs_windows resp = [w] \<and> ws_window_id w = xa_window_id a \<and>
        ws_attempt_id w = attempt \<and> ws_native_state w = TERMINAL_SUCCESS"
      by (cases "rs_windows resp") (auto simp: report_proved_def Let_def split: if_splits)
    with evs [OF y] have "report_evidence (xa_window_id a) attempt (es @ fs)"
      unfolding report_evidence_def by fastforce
    then show ?thesis using z(2) arming_trans [OF es fs] by (auto simp: arming_def)
  qed
qed

text \<open>Evidence for a terminal result: a decoder's answer with that outcome.\<close>

definition terminal_evidence :: "terminal_outcome \<Rightarrow> bool \<Rightarrow> pevent list \<Rightarrow> bool" where
  "terminal_evidence outcome satisfied es \<longleftrightarrow>
     (\<exists>rq resp. Sent rq (Inr resp) \<in> set es \<and>
        ((\<exists>f. rq_body rq = Finish f) \<or> rq_body rq = Status (-1)) \<and>
        classify_terminal resp = Inr (outcome, satisfied))"

lemma terminal_evidence_mono:
  "terminal_evidence x b es \<Longrightarrow> set es \<subseteq> set es' \<Longrightarrow> terminal_evidence x b es'"
  unfolding terminal_evidence_def by blast

lemma drop_direct_events: "drop_direct s = (r, t) \<Longrightarrow> ps_events t = ps_events s"
  by (auto simp: drop_direct_def writeA_def)

lemma resolve_finish_evidence:
  assumes "resolve_ambiguous_finish env s = (Inr (outcome, satisfied), t)"
    "outcome \<noteq> PERSISTENT_ONLY \<or> satisfied"
  shows "\<exists>es. ps_events t = ps_events s @ es \<and> terminal_evidence outcome satisfied es"
proof -
  obtain x u where c: "call env (Status (-1)) s = (x, u)" by fastforce
  obtain es where es: "arming s u es"
    and ev: "\<And>resp. x = Inr resp \<Longrightarrow> \<exists>rq. Sent rq (Inr resp) \<in> set es \<and> rq_body rq = Status (-1)"
    using call_arming [OF c] by metis
  have only: False if "seqA drop_direct (retA (PERSISTENT_ONLY, False)) v = (Inr (outcome, satisfied), w)" for v w
    using that assms(2) by (auto simp: drop_direct_def act_defs)
  show ?thesis
  proof (cases x)
    case (Inl e)
    then show ?thesis
      using assms(1) c only
      by (auto simp: resolve_ambiguous_finish_def try_call_def bindA_def attemptA_def raiseA_def split: if_splits)
  next
    case (Inr resp)
    have ab: False if "try_call (call env (Abort m)) (\<lambda>_. seqA drop_direct (retA (PERSISTENT_ONLY, False)))
        (\<lambda>_. seqA drop_direct (retA (PERSISTENT_ONLY, False))) u = (Inr (outcome, satisfied), t)" for m
      using that only
      by (auto simp: try_call_def bindA_def attemptA_def raiseA_def split: prod.splits sum.splits if_splits)
    have fat: False if "fatal_error m u = (Inr (outcome, satisfied), t)" for m
      using arming_fatal [OF that] by blast
    have "liftA (classify_terminal resp) u = (Inr (outcome, satisfied), t)"
      using assms(1) c Inr ab fat
      by (auto simp: resolve_ambiguous_finish_def try_call_def bindA_def attemptA_def split: if_splits)
    then have "classify_terminal resp = Inr (outcome, satisfied)" "t = u" by (auto simp: liftA_def)
    with ev [OF Inr] es show ?thesis unfolding terminal_evidence_def arming_def by blast
  qed
qed

lemma finish_decoder_evidence:
  assumes "finish_with_decoder env r c p s = (Inr (outcome, satisfied), t)"
    "outcome \<noteq> PERSISTENT_ONLY \<or> satisfied"
  shows "\<exists>es. ps_events t = ps_events s @ es \<and> terminal_evidence outcome satisfied es"
proof -
  let ?body = "Finish \<lparr>ff_required_store_end = r, ff_persistent_common_end = c,
           ff_final_manifest_digest = pe_transaction_digest env (ps_seed s) (ps_manifests s) r p,
           ff_final_partial_valid_tokens = p\<rparr>"
  obtain x u where cl: "call env ?body s = (x, u)" by fastforce
  obtain es where es: "arming s u es"
    and ev: "\<And>resp. x = Inr resp \<Longrightarrow> \<exists>rq. Sent rq (Inr resp) \<in> set es \<and> rq_body rq = ?body"
    using call_arming [OF cl] by metis
  show ?thesis
  proof (cases x)
    case (Inl e)
    have c: "call env ?body s = (Inl e, u)" using cl Inl by simp
    have "(if is_fatal e then raiseA e else resolve_ambiguous_finish env) u = (Inr (outcome, satisfied), t)"
      using assms(1) unfolding finish_with_decoder_def try_call_def bindA_def readA_def attemptA_def
      by (simp add: c)
    then have "resolve_ambiguous_finish env u = (Inr (outcome, satisfied), t)"
      by (simp add: raiseA_def split: if_splits)
    from resolve_finish_evidence [OF this assms(2)] obtain fs where
      "ps_events t = ps_events u @ fs" "terminal_evidence outcome satisfied fs" by blast
    then show ?thesis using es terminal_evidence_mono [of outcome satisfied fs "es @ fs"]
      by (simp add: arming_def)
  next
    case (Inr resp)
    have c: "call env ?body s = (Inr resp, u)" using cl Inr by simp
    note nf = conjunct1 [OF call_Inr_not_fatal [OF c]]
    have "(if rs_terminal_outcome resp = None then
        raiseA (RuntimeError ''remote-fill FINISH returned no terminal outcome'')
      else liftA (classify_terminal resp)) u = (Inr (outcome, satisfied), t)"
      using assms(1) nf unfolding finish_with_decoder_def try_call_def bindA_def readA_def attemptA_def
      by (simp add: c)
    then have "liftA (classify_terminal resp) u = (Inr (outcome, satisfied), t)"
      by (simp add: raiseA_def split: if_splits)
    then have "classify_terminal resp = Inr (outcome, satisfied)" "t = u" by (auto simp: liftA_def)
    with ev [OF Inr] es show ?thesis unfolding terminal_evidence_def arming_def by blast
  qed
qed

end
