(* ===== verification/SessionResults.thy ===== *)
theory SessionResults
  imports SessionSafety
begin

text \<open>
  The results of a window and of a session: what a satisfied window rests on, and that a window that
  is not satisfied ends the direct path for good.
\<close>

section \<open>An unsatisfied window ends the direct path\<close>

definition off :: "session \<Rightarrow> bool" where
  "off s \<longleftrightarrow> \<not> ps_direct_viable s \<or> ps_closed s"

definition settled :: "window_result \<Rightarrow> session \<Rightarrow> bool" where
  "settled w s \<longleftrightarrow> wr_direct_satisfied w \<or> off s"

lemma yields_fatal: "yields P (fatal_error m) Q"
  by (simp add: yields_def fatal_error_def seqA_def bindA_def set_fatal_def writeA_def raiseA_def)

lemma drop_direct_off: "yields P drop_direct (\<lambda>_. off)"
  unfolding drop_direct_def by (rule yields_write) (simp add: off_def)

lemma try_call_off: "(\<And>e. yields (\<lambda>_. True) (m e) Q) \<Longrightarrow> (\<And>x. yields (\<lambda>_. True) (f x) Q) \<Longrightarrow>
   yields P (try_call c m f) Q"
  unfolding try_call_def
  by (intro yields_then yields_case_res yields_if yields_raise) simp_all

lemma open_off: "yields P (viable_and_open env) (\<lambda>ok s. ok \<or> off s)"
proof -
  have fail: "yields Q (fail_open u) (\<lambda>ok s. ok \<or> off s)" for Q u
    unfolding fail_open_def
    by (intro yields_seq [OF yields_weaken [OF yields_any]] yields_seq [OF drop_direct_off] yields_ret) simp
  have t: "yields Q (open_transaction env) (\<lambda>ok s. ok \<or> off s)" for Q
    unfolding open_transaction_def
    by (intro yields_then try_call_off yields_if fail)
      (intro yields_seq [OF yields_weaken [OF yields_any]] yields_ret, simp)
  have n: "yields Q (negotiate env) (\<lambda>ok s. ok \<or> off s)" for Q
    unfolding negotiate_def Let_def
    by (intro yields_then yields_if yields_ret try_call_off fail)
      (simp, intro yields_seq [OF yields_weaken [OF yields_any]] yields_ret, simp)
  have o': "yields Q (open_session env) (\<lambda>ok s. ok \<or> off s)" for Q
    unfolding open_session_def
    by (rule yields_bind [of _ _ "\<lambda>v s. v = s"])
      (rule yields_read, simp, intro yields_if yields_ret fail yields_bind [OF n] t, auto simp: off_def)
  show ?thesis
    unfolding viable_and_open_def
    by (rule yields_bind [of _ _ "\<lambda>v s. v = ps_direct_viable s"])
      (rule yields_read, simp, intro yields_if yields_ret o', simp add: off_def)
qed

lemma abandon_settled: "yields P (abandon w reason n) settled"
  unfolding abandon_def by (intro yields_seq [OF drop_direct_off] yields_ret) (simp add: settled_def)

lemma abandon_ends: "yields P (bindA (abandon w reason n) (\<lambda>w. retA (Inl w)))
    (\<lambda>r s. \<forall>w. r = Inl w \<longrightarrow> settled w s)"
  by (rule yields_bind [OF abandon_settled]) (auto intro: yields_ret)

lemma transfer_settled: "yields P (transfer_window env a) settled"
proof -
  have ret: "yields P (retA w) settled" if "\<And>s. P s \<Longrightarrow> settled w s" for P w
    using that by (rule yields_ret)
  have run: "yields P (run_native env a reserved sel n) settled" for P reserved sel n
    unfolding run_native_def Let_def
  proof (intro yields_then yields_case_prod)
    fix rc n' :: int and nt reported
    show "yields (\<lambda>_. True) (seqA (if rc = 0 \<and> reported then retA () else drop_direct)
      (retA \<lparr>wr_window_id = xa_window_id a, wr_direct_satisfied = rc = 0 \<and> reported, wr_armed = True,
             wr_reason = if rc = 0 \<and> reported then [] else ''native transfer failed'', wr_times = nt,
             wr_submitted_bytes = sum_list (map ds_length (rs_descriptors reserved)),
             wr_existing_pages = n\<rparr>)) settled"
      by (rule yields_seq [of _ _ "\<lambda>s. (rc = 0 \<and> reported) \<or> off s"])
        (auto intro!: yields_ret drop_direct_off simp: settled_def)
  qed
  have reserved: "yields P (transfer_reserved env a prepared reserved ds) settled" for P prepared reserved ds
    unfolding transfer_reserved_def Let_def
    by (intro yields_if abandon_settled ret yields_then yields_case_res run) (simp add: settled_def window_outcome_def)
  have res: "yields P (reserve_window env w g pages missing m1 m2)
     (\<lambda>r s. \<forall>w. r = Inl w \<longrightarrow> settled w s)" for P w g pages missing m1 m2
    unfolding reserve_window_def Let_def
    by (intro try_call_off yields_seq [OF yields_any] abandon_ends yields_case_res yields_ret) simp
  have prep: "yields P (eager_preparation env a) (\<lambda>r s. \<forall>w. r = Inl w \<longrightarrow> settled w s)" for P
    unfolding eager_preparation_def
    by (intro yields_case_option yields_if yields_ret yields_then yields_case_res abandon_ends) simp_all
  show ?thesis
    unfolding transfer_window_def
    apply (rule yields_bind [OF open_off])
    apply (intro yields_if ret abandon_settled)
     apply (simp add: settled_def window_outcome_def)
    apply (rule yields_bind [OF prep])
    apply (intro yields_case_res ret)
     apply simp
    apply (rule yields_bind [OF res])
    apply (intro yields_case_res ret yields_case_prod reserved)
    apply simp
    done
qed
section \<open>A satisfied window\<close>

text \<open>
  Either the decoder answered the reservation with no page missing and no descriptor, or the native
  transfer was reported as complete (\<open>report_evidence\<close>).
\<close>

definition nothing_to_write :: "transfer_args \<Rightarrow> pevent list \<Rightarrow> bool" where
  "nothing_to_write a es \<longleftrightarrow>
     (\<exists>rq resp ds f. Sent rq (Inr resp) \<in> set es \<and> rq_body rq = ReserveWindow f \<and>
        rf_window_id f = xa_window_id a \<and> rf_control_pages f = xa_pages a \<and>
        rs_code resp = OK \<and> rs_descriptors resp = [] \<and>
        validate_page_results (xa_pages a) resp = Inr ds \<and> Missing \<notin> set ds)"

lemma reserve_window_answer:
  assumes "reserve_window env w g pages missing m1 m2 s = (Inr (Inr (resp, ds)), t)"
  obtains es rq f where "ps_events t = ps_events s @ es" "Sent rq (Inr resp) \<in> set es"
    "rq_body rq = ReserveWindow f" "rf_window_id f = w" "rf_control_pages f = pages"
    "validate_page_results pages resp = Inr ds"
proof -
  let ?f = "\<lparr>rf_window_id = w, rf_source_generation = g,
      rf_manifest_digest = pe_manifest_digest env pages, rf_control_pages = pages,
      rf_reserve_missing = missing\<rparr>"
  obtain x u where c: "call env (ReserveWindow ?f) s = (x, u)" by fastforce
  obtain es where es: "arming s u es" and ev: "\<And>resp. x = Inr resp \<Longrightarrow>
      \<exists>rq. Sent rq (Inr resp) \<in> set es \<and> rq_body rq = ReserveWindow ?f"
    using call_arming [OF c] by metis
  have "x = Inr resp \<and> validate_page_results pages resp = Inr ds \<and> ps_events t = ps_events u"
    using assms c unfolding reserve_window_def try_call_def Let_def bindA_Inr
    by (auto simp: act_runs abandon_def split: sum.splits if_splits)
  with es ev show ?thesis using that unfolding arming_def by fastforce
qed

definition satisfied_evidence :: "transfer_args \<Rightarrow> window_result \<Rightarrow> pevent list \<Rightarrow> bool" where
  "satisfied_evidence a w es \<longleftrightarrow>
     (if wr_armed w then \<exists>attempt. report_evidence (xa_window_id a) attempt es
      else nothing_to_write a es)"

lemma satisfied_evidence_mono:
  "satisfied_evidence a w es \<Longrightarrow> set es \<subseteq> set es' \<Longrightarrow> satisfied_evidence a w es'"
  unfolding satisfied_evidence_def report_evidence_def nothing_to_write_def
  by (auto split: if_splits) blast+

lemma abandon_unsatisfied: "abandon w reason n s = (Inr x, t) \<Longrightarrow> \<not> wr_direct_satisfied x"
  by (auto simp: abandon_def act_runs window_outcome_def)

lemma run_native_satisfied:
  assumes "run_native env a reserved sel n s = (Inr w, t)" "wr_direct_satisfied w"
  shows "wr_armed w \<and> (\<exists>es. ps_events t = ps_events s @ es \<and>
    report_evidence (xa_window_id a) (rs_attempt_id reserved) es)"
proof -
  let ?bytes = "sum_list (map ds_length (rs_descriptors reserved))"
  let ?args = "\<lparr>sa_remote_session = ps_remote_session s, sa_source_plan = se_plan sel,
     sa_prepared = se_prepared sel, sa_descriptors = rs_descriptors reserved,
     sa_attempt_id = rs_attempt_id reserved\<rparr>"
  obtain x u where aw: "await_native env ?args s = (x, u)" by fastforce
  obtain e where x: "x = Inr e"
    using assms(1) aw by (cases x) (simp_all add: run_native_def Let_def bindA_def readA_def)
  obtain rc n' nt where rep: "native_report (rs_attempt_id reserved) ?bytes e = (rc, n', nt)"
    using prod_cases3 by blast
  have "rc = 0 \<and> wr_armed w \<and>
      report_transfer env a (rs_attempt_id reserved) rc n' ?bytes u = (Inr True, t)"
    using assms aw x rep unfolding run_native_def Let_def
    by (auto simp: act_runs drop_direct_def)
  moreover obtain es where "ps_events u = ps_events s @ es"
    using pr.keepsD [OF pr_await aw] by (auto simp: progress_def evolves_def)
  moreover have evidence: "report_evidence w i es \<Longrightarrow> report_evidence w i (es' @ es)" for w i es es'
    unfolding report_evidence_def by auto
  ultimately show ?thesis
    using report_transfer_evidence [of env a "rs_attempt_id reserved" n' ?bytes u t] evidence
    by auto
qed
lemma progress_events: "progress s t \<Longrightarrow> \<exists>es. ps_events t = ps_events s @ es"
  unfolding progress_def evolves_def by blast

lemma evidence_prefix:
  assumes "ps_events t = ps_events s @ pre"
    "\<exists>es. ps_events u = ps_events t @ es \<and> satisfied_evidence a w es"
  shows "\<exists>es. ps_events u = ps_events s @ es \<and> satisfied_evidence a w es"
proof -
  from assms(2) obtain es where "ps_events u = ps_events t @ es" "satisfied_evidence a w es" by blast
  then show ?thesis
    using assms(1) satisfied_evidence_mono [of a w es "pre @ es"] by (intro exI [of _ "pre @ es"]) simp
qed

lemma transfer_reserved_satisfied:
  assumes run: "transfer_reserved env a prepared reserved ds s = (Inr w, t)" and sat: "wr_direct_satisfied w"
  shows "rs_code reserved = OK \<and> Missing \<notin> set ds \<and>
    (rs_descriptors reserved = [] \<and> \<not> wr_armed w \<and> t = s \<or>
     (\<exists>es. ps_events t = ps_events s @ es \<and> satisfied_evidence a w es))"
proof -
  have ok: "rs_code reserved = OK" "Missing \<notin> set ds"
  proof -
    show c: "rs_code reserved = OK"
    proof (rule ccontr)
      assume "rs_code reserved \<noteq> OK"
      then have "abandon (xa_window_id a) ''reservation rejected'' 0 s = (Inr w, t)"
        using run by (simp add: transfer_reserved_def Let_def)
      then show False using sat by (simp add: abandon_unsatisfied)
    qed
    show "Missing \<notin> set ds"
    proof
      assume "Missing \<in> set ds"
      then have "abandon (xa_window_id a) ''direct destination hole'' (count_existing ds) s = (Inr w, t)"
        using run c by (simp add: transfer_reserved_def Let_def)
      then show False using sat by (simp add: abandon_unsatisfied)
    qed
  qed
  show ?thesis
  proof (cases "rs_descriptors reserved = []")
    case True
    then show ?thesis using run ok by (auto simp: transfer_reserved_def Let_def retA_def window_outcome_def)
  next
    case False
    obtain x u where sel: "select_sources env a prepared reserved s = (x, u)" by fastforce
    have "x \<noteq> Inl e" for e
    proof
      assume "x = Inl e"
      then have "abandon (xa_window_id a) ''descriptor validation failed'' (count_existing ds) u = (Inr w, t)"
        using run ok False sel by (simp add: transfer_reserved_def Let_def bindA_def attemptA_def)
      then show False using sat by (simp add: abandon_unsatisfied)
    qed
    then obtain sel' where x: "x = Inr sel'" by (cases x) auto
    obtain y v where arm: "arm_window env a reserved (se_descriptor_digest sel') u = (y, v)" by fastforce
    have arms: "(case y of Inl e \<Rightarrow> (Inl e, v)
        | Inr armed \<Rightarrow> (if rs_code armed \<noteq> OK
            then abandon (xa_window_id a) ''arm rejected'' (count_existing ds)
            else run_native env a reserved sel' (count_existing ds)) v) = (Inr w, t)"
      using run ok False sel x arm
      by (simp add: transfer_reserved_def Let_def bindA_def attemptA_def split: sum.splits)
    then obtain armed where "y = Inr armed" by (cases y) auto
    with arms have "run_native env a reserved sel' (count_existing ds) v = (Inr w, t)"
      using sat abandon_unsatisfied by (auto split: if_splits)
    from run_native_satisfied [OF this sat] have w: "wr_armed w"
      and ev: "\<exists>es. ps_events t = ps_events v @ es \<and>
        report_evidence (xa_window_id a) (rs_attempt_id reserved) es" by blast+
    have "progress s v"
      using pr.frame_trans [OF pr.keepsD [OF pr_select sel] pr.keepsD [OF pr_arm arm]] .
    then obtain pre where "ps_events v = ps_events s @ pre" using progress_events by blast
    moreover from ev w have "\<exists>es. ps_events t = ps_events v @ es \<and> satisfied_evidence a w es"
      by (auto simp: satisfied_evidence_def)
    ultimately show ?thesis using ok evidence_prefix by blast
  qed
qed

lemma abandon_stops: "yields P (bindA (abandon w reason n) (\<lambda>w. retA (Inl w)))
    (\<lambda>r _. \<forall>w. r = Inl w \<longrightarrow> \<not> wr_direct_satisfied w)"
  by (rule yields_bind [of _ _ "\<lambda>w _. \<not> wr_direct_satisfied w"])
    (auto simp: yields_def retA_def dest: abandon_unsatisfied)

lemma preparation_unsatisfied:
  "yields P (eager_preparation env a) (\<lambda>r _. \<forall>w. r = Inl w \<longrightarrow> \<not> wr_direct_satisfied w)"
  unfolding eager_preparation_def
  by (intro yields_case_option yields_if yields_ret yields_then yields_case_res abandon_stops) simp_all

lemma reservation_unsatisfied:
  "yields P (reserve_window env w g pages missing m1 m2)
     (\<lambda>r _. \<forall>w. r = Inl w \<longrightarrow> \<not> wr_direct_satisfied w)"
  unfolding reserve_window_def Let_def
  by (intro try_call_off yields_seq [OF yields_any] abandon_stops yields_case_res yields_ret) simp

lemma transfer_satisfied_evidence:
  assumes run: "transfer_window env a s = (Inr w, t)" and sat: "wr_direct_satisfied w"
  shows "\<exists>es. ps_events t = ps_events s @ es \<and> satisfied_evidence a w es"
proof -
  obtain x u where v: "viable_and_open env s = (Inr x, u)"
    using run by (auto simp: transfer_window_def bindA_Inr)
  have "\<not> wr_direct_satisfied w" if "\<not> x \<or> uncovered a"
    using run v that abandon_unsatisfied [of "xa_window_id a" "''source coverage mismatch''" 0 u w t]
    by (cases x) (auto simp: transfer_window_def bindA_def retA_def window_outcome_def)
  with sat have go: "x" "\<not> uncovered a" by blast+
  obtain p u' where p: "eager_preparation env a u = (Inr p, u')"
    using run v go by (auto simp: transfer_window_def bindA_def split: prod.splits sum.splits)
  have "\<not> wr_direct_satisfied w'" if "eager_preparation env a u = (Inr (Inl w'), t')" for w' t'
    using yieldsD [OF preparation_unsatisfied _ that, of "\<lambda>_. True"] by simp
  then obtain prepared where p': "p = Inr prepared"
    using run sat v go p by (cases p) (auto simp: transfer_window_def act_runs)
  obtain q r where q: "reserve_window env (xa_window_id a) (xa_source_generation a) (xa_pages a) True
      ''reserve control unavailable'' ''reservation result invalid'' u' = (Inr q, r)"
    using run v go p p' by (auto simp: transfer_window_def bindA_def split: prod.splits sum.splits)
  have "\<not> wr_direct_satisfied w'" if "reserve_window env (xa_window_id a) (xa_source_generation a)
      (xa_pages a) True ''reserve control unavailable'' ''reservation result invalid'' u' = (Inr (Inl w'), t')" for w' t'
    using yieldsD [OF reservation_unsatisfied _ that, of "\<lambda>_. True"] by simp
  then obtain reserved ds where q': "q = Inr (reserved, ds)"
    using run sat v go p p' q by (cases q) (auto simp: transfer_window_def act_runs)
  have res: "transfer_reserved env a prepared reserved ds r = (Inr w, t)"
    using run v go p p' q q' by (simp add: transfer_window_def bindA_def)
  have "progress s u'"
    using pr.frame_trans [OF pr.keepsD [OF pr_viable v] pr.keepsD [OF pr_prepare p]] .
  then obtain pre where pre: "ps_events u' = ps_events s @ pre" using progress_events by blast
  obtain es rq f where es: "ps_events r = ps_events u' @ es" "Sent rq (Inr reserved) \<in> set es"
    "rq_body rq = ReserveWindow f" "rf_window_id f = xa_window_id a" "rf_control_pages f = xa_pages a"
    "validate_page_results (xa_pages a) reserved = Inr ds"
    by (rule reserve_window_answer [OF q [unfolded q']])
  note outcome = transfer_reserved_satisfied [OF res sat]
  have "\<exists>fs. ps_events t = ps_events u' @ fs \<and> satisfied_evidence a w fs"
  proof (cases "\<exists>fs. ps_events t = ps_events r @ fs \<and> satisfied_evidence a w fs")
    case True
    then show ?thesis using es(1) evidence_prefix by blast
  next
    case False
    then have "rs_code reserved = OK" "Missing \<notin> set ds" "rs_descriptors reserved = []"
      "\<not> wr_armed w" "t = r" using outcome by auto
    then show ?thesis using es unfolding satisfied_evidence_def nothing_to_write_def by fastforce
  qed
  then show ?thesis using evidence_prefix [OF pre] by blast
qed

section \<open>The operations as steps\<close>

lemma hu_ends:
  "hu.keeps False (abort_session env reason)" "hu.keeps False (close_session env)"
  "hu.keeps False (open_session env)"
proof -
  have w: "hu.keeps False (writeA (\<lambda>s. s\<lparr>ps_direct_viable := False, ps_closed := True\<rparr>))"
    "hu.keeps False (writeA (\<lambda>s. s\<lparr>ps_prepared := [], ps_closed := True\<rparr>))"
    by (rule hu_write; simp)+
  have c: "hu.keeps False (\<lambda>s. (r s, s\<lparr>ps_events := ps_events s @ [ClientClose]\<rparr>))" for r :: "session \<Rightarrow> unit res"
    by (rule hu_event) (simp add: quiet_def)
  show "hu.keeps False (abort_session env reason)" "hu.keeps False (close_session env)"
    unfolding abort_session_def close_session_def
    by (intro hu_intros hu_calls w c)+
  show "hu.keeps False (open_session env)"
    unfolding open_session_def negotiate_def open_transaction_def fail_open_def
    by (intro hu_intros hu_calls)
qed

lemma hushed_snd: "hu.keeps False m \<Longrightarrow>
    \<exists>es. ps_events (snd (m s)) = ps_events s @ es \<and> list_all quiet es"
  using hu.keepsD [of False m s] by (metis hushed_events prod.collapse)

section \<open>After the direct path was dropped\<close>

text \<open>The calls that are left: finish and its resolution, abort, close.\<close>

definition control_only :: "pevent \<Rightarrow> bool" where
  "control_only e \<longleftrightarrow> (case e of
       Sent rq _ \<Rightarrow> request_kind (rq_body rq) \<in> {FINISH, STATUS, ABORT}
     | ClientClose \<Rightarrow> True
     | _ \<Rightarrow> False)"

definition controlled :: "session \<Rightarrow> session \<Rightarrow> bool" where
  "controlled s t \<longleftrightarrow> (\<exists>es. ps_events t = ps_events s @ es \<and> list_all control_only es)"

interpretation co: frame controlled
proof unfold_locales
  show "controlled s s" for s by (simp add: controlled_def)
  show "controlled s t \<Longrightarrow> controlled t u \<Longrightarrow> controlled s u" for s t u
    unfolding controlled_def by (elim exE conjE) force
qed

lemma co_call:
  assumes "request_kind body \<in> {FINISH, STATUS, ABORT}"
  shows "co.keeps (call env body)"
  unfolding co.keeps_def
proof
  fix s
  obtain r t where c: "call env body s = (r, t)" by fastforce
  then show "controlled s (snd (call env body s))"
    by (rule call_effect) (use c assms in \<open>auto simp: controlled_def control_only_def\<close>)
qed

lemma co_calls:
  "co.keeps (call env (Status w))" "co.keeps (call env (Abort m))" "co.keeps (call env (Finish f))"
  by (rule co_call; simp)+

lemma co_write: "(\<And>s. ps_events (f s) = ps_events s) \<Longrightarrow> co.keeps (writeA f)"
  by (rule co.keeps_write) (simp add: controlled_def)

lemma co_try_call:
  "co.keeps c \<Longrightarrow> (\<And>e. co.keeps (m e)) \<Longrightarrow> (\<And>x. co.keeps (f x)) \<Longrightarrow> co.keeps (try_call c m f)"
  unfolding try_call_def by (intro co.keeps_intros)

lemma co_closings:
  "co.keeps (finish_session env r c p)" "co.keeps (abort_session env reason)" "co.keeps (close_session env)"
proof -
  have w: "co.keeps (writeA (\<lambda>s. s\<lparr>ps_terminal := t, ps_closed := True\<rparr>))"
    "co.keeps (writeA (\<lambda>s. s\<lparr>ps_direct_viable := False, ps_closed := True\<rparr>))"
    "co.keeps (writeA (\<lambda>s. s\<lparr>ps_prepared := [], ps_closed := True\<rparr>))" "co.keeps drop_direct"
    "co.keeps set_fatal" for t
    unfolding drop_direct_def set_fatal_def by (rule co_write; simp)+
  have f: "co.keeps (fatal_error m)" for m
    unfolding fatal_error_def by (intro co.keeps_intros w)
  have c: "co.keeps (\<lambda>s. (r s, s\<lparr>ps_events := ps_events s @ [ClientClose]\<rparr>))" for r :: "session \<Rightarrow> unit res"
    by (auto simp: co.keeps_def controlled_def control_only_def)
  show "co.keeps (finish_session env r c p)"
    unfolding finish_session_def finish_outcome_def finish_with_decoder_def resolve_ambiguous_finish_def
    by (intro co.keeps_intros w f co_calls co_try_call)
  show "co.keeps (abort_session env reason)" "co.keeps (close_session env)"
    unfolding abort_session_def close_session_def
    by (intro co.keeps_intros w f c co_calls)+
qed

lemma dropped_step:
  assumes "\<not> ps_direct_viable s"
  shows "controlled s (session_step env op s) \<and> \<not> ps_direct_viable (session_step env op s)"
proof
  show "\<not> ps_direct_viable (session_step env op s)"
    using session_step_progress [of s env op] assms by (auto simp: progress_def evolves_def)
  have k: "controlled s (snd (m s))" if "co.keeps m" for m :: "'a ps_act"
    using that by (simp add: co.keeps_def)
  have same: "snd (open_session env s) = s" "snd (probe_window env w g pages s) = s"
    "snd (transfer_window env a s) = s" for w g pages a
    using assms by (simp_all add: open_session_def probe_window_def transfer_window_def
        viable_and_open_def act_defs)
  show "controlled s (session_step env op s)"
    by (cases op) (simp_all add: session_step_def same k co_closings co.frame_refl)
qed

lemma dropped_run:
  assumes "\<not> ps_direct_viable s"
  shows "controlled s (fold (session_step env) ops s)"
  using assms
proof (induction ops arbitrary: s)
  case Nil
  then show ?case by (simp add: co.frame_refl)
next
  case (Cons op ops)
  then show ?case using dropped_step [OF Cons.prems] co.frame_trans by simp blast
qed

text \<open>A window operation does not close the session.\<close>

interpretation kc: frame "\<lambda>s t. ps_closed t = ps_closed s"
  by unfold_locales auto

lemma kc_call: "kc.keeps (call env body)"
  unfolding kc.keeps_def
proof
  fix s
  obtain r t where c: "call env body s = (r, t)" by fastforce
  then show "ps_closed (snd (call env body s)) = ps_closed s" by (rule call_effect) (use c in auto)
qed

lemma kc_steps:
  "kc.keeps set_fatal" "kc.keeps drop_direct" "kc.keeps mark_prearm_unknown"
  "kc.keeps (writeA (\<lambda>s. s\<lparr>ps_cache := c s\<rparr>))"
  "kc.keeps (writeA (\<lambda>s. s\<lparr>ps_d_local_end_open := d s, ps_remote_session := r s, ps_opened := True\<rparr>))"
  "kc.keeps (writeA (\<lambda>s. s\<lparr>ps_manifests := m s\<rparr>))" "kc.keeps (writeA (\<lambda>s. s\<lparr>ps_prepared := p s\<rparr>))"
  "kc.keeps (\<lambda>s. (x s, s\<lparr>ps_events := ev s\<rparr>))"
  "kc.keeps (read_clock env)" "kc.keeps (submit_native env args)" "kc.keeps (fatal_error msg)"
  by (auto simp: kc.keeps_def act_defs set_fatal_def drop_direct_def mark_prearm_unknown_def read_clock_def
      submit_native_def fatal_error_def Let_def split: option.splits)

lemma kc_try_call:
  "kc.keeps c \<Longrightarrow> (\<And>e. kc.keeps (m e)) \<Longrightarrow> (\<And>x. kc.keeps (f x)) \<Longrightarrow> kc.keeps (try_call c m f)"
  unfolding try_call_def by (intro kc.keeps_intros)

lemmas kc_intros = kc.keeps_intros kc_call kc_steps kc_try_call

lemma kc_await: "kc.keeps (await_native env args)"
proof -
  have e: "kc.keeps (end_of_wait x)" for x
    unfolding end_of_wait_def by (cases x) (auto intro!: kc_intros)
  have "kc.keeps (conclude_native env deadline sub)" for deadline sub
    unfolding conclude_native_def
    by (auto split: submission.splits future_end.splits intro!: kc_intros e)
  then show ?thesis unfolding await_native_def by (intro kc_intros)
qed

lemma transfer_keeps_closed: "kc.keeps (transfer_window env a)"
  unfolding transfer_window_def transfer_reserved_def eager_preparation_def prepare_source_def
    viable_and_open_def open_session_def negotiate_def open_transaction_def fail_open_def
    reserve_window_def abandon_def select_sources_def late_source_def arm_window_def
    resolve_ambiguous_arm_def run_native_def report_transfer_def resolve_ambiguous_report_def
  by (intro kc_intros kc_await)

end
