(* ===== verification/SessionProperties.thy ===== *)
theory SessionProperties
  imports SessionResults
begin

text \<open>
  The properties of the prefiller's control session, with a concrete session against a decoder that
  accepts everything, one that rejects reservations and one whose native engine never ends.
\<close>

section \<open>A concrete session\<close>

definition example_page_of :: "string \<Rightarrow> control_page" where
  "example_page_of key = \<lparr>cp_canonical_key = key, cp_kv_group = 0, cp_chunk_index = 0, cp_chunk_start = 0,
     cp_chunk_end = 4, cp_valid_tokens = 4, cp_expected_bytes = 8, cp_destination_tp_rank = 0,
     cp_layer_count = 1, cp_layout_tag = ''tag''\<rparr>"

definition example_descriptor :: descriptor where
  "example_descriptor = \<lparr>ds_canonical_key = ''k'', ds_kv_group = 0, ds_remote_session = ''rs'',
     ds_transfer_id = ''t'', ds_request_attempt = 0, ds_attempt_id = ''a1'', ds_epoch = 7,
     ds_generation = 3, ds_dp_rank = 0, ds_tp_rank = 0, ds_ptr = 4096, ds_length = 8,
     ds_manifest_digest = ''m'', ds_window_id = 1, ds_reservation_id = ''v'', ds_hmac = ''h''\<rparr>"

definition example_result :: "disposition \<Rightarrow> page_result" where
  "example_result d = \<lparr>pr_canonical_key = ''k'', pr_kv_group = 0, pr_chunk_index = 0, pr_disposition = d\<rparr>"

text \<open>A decoder that accepts every request; its descriptors are a parameter.\<close>

definition example_reply :: "descriptor list \<Rightarrow> request \<Rightarrow> response" where
  "example_reply ds rq = \<lparr>rs_operation = request_kind (rq_body rq),
     rs_operation_id = oi_operation_id (rq_common rq), rs_code = OK, rs_epoch = 7, rs_generation = 3,
     rs_fatal_restart_required = False,
     rs_terminal_outcome = (if request_kind (rq_body rq) = FINISH then Some LOCAL_FULL else None),
     rs_transaction_state = None, rs_remote_session = ''rs'', rs_d_local_end_open = 0,
     rs_page_results = [example_result Allocated], rs_descriptors = ds, rs_attempt_id = ''a1'',
     rs_descriptor_digest = ''dd'', rs_windows = []\<rparr>"

definition example_request :: request where
  "example_request = \<lparr>rq_common = \<lparr>oi_operation_id = ''u'', oi_operation_sequence = 3,
     oi_transfer_id = ''t'', oi_request_attempt = 0, oi_epoch = 7, oi_generation = 3\<rparr>,
     rq_body = Status 1\<rparr>"

definition example_native :: native_result where
  "example_native = \<lparr>nr_attempt_id = ''a1'', nr_return_code = 0, nr_transferred_bytes = 8,
     nr_elapsed_ms = 1, nr_source_event_wait_ms = 0, nr_source_fences_ready_monotonic = 0,
     nr_source_registration_ms = 0, nr_native_slot_wait_ms = 0, nr_native_started_monotonic = 0,
     nr_native_ended_monotonic = 0\<rparr>"

definition example_peer :: "(request \<Rightarrow> response res) \<Rightarrow> future_end \<Rightarrow> producer_env" where
  "example_peer reply native = \<lparr>pe_execute = (\<lambda>_. reply), pe_uuid = (\<lambda>_. ''u''), pe_clock = (\<lambda>_. 0),
     pe_prepare = (\<lambda>_ _. Inr None), pe_make_sources = (\<lambda>_ _. Inr None), pe_activation = (\<lambda>_ _. None),
     pe_submit = (\<lambda>_ _. Submitted native NoTerminalFuture), pe_client_close = (\<lambda>_. None),
     pe_pick = (\<lambda>_. 0), pe_manifest_digest = (\<lambda>_. ''m''), pe_descriptor_digest = (\<lambda>_. ''dd''),
     pe_transaction_digest = (\<lambda>_ _ _ _. ''td''), pe_content_digest = (\<lambda>_. ''seed''),
     pe_verify = (\<lambda>_ d. ds_hmac d = ''h'')\<rparr>"

definition example_session :: session where
  "example_session = \<lparr>ps_request_id = ''r'',
     ps_handoff = \<lparr>ho_transfer_id = ''t'', ho_request_attempt = 0, ho_source_engine_id = ''p0'',
       ho_destination_engine_id = ''d0'', ho_destination_engine_epoch = 7,
       ho_control_endpoint = ''tcp://10.0.0.1:5000'', ho_destination_dp_rank = 0,
       ho_shared_cache_generation = 3, ho_destination_tp_size = 4, ho_destination_dp_size = 1,
       ho_global_te_push = True, ho_token_hash_algorithm = ''sha256:bytes:32'',
       ho_python_hash_seed = [], ho_capability = ''ab''\<rparr>,
     ps_spec = example_spec_values, ps_secret = [171], ps_window_count_hint = 1, ps_store_end_hint = 4,
     ps_hard_timeout = 30, ps_cache = None, ps_direct_viable = True, ps_opened = False,
     ps_closed = False, ps_fatal = False, ps_prearm_unknown = False, ps_d_local_end_open = 0,
     ps_remote_session = [], ps_manifests = [], ps_seed = ''seed'', ps_sequence = 0,
     ps_terminal = None, ps_prepared = [], ps_events = []\<rparr>"

definition example_transfer :: transfer_args where
  "example_transfer = \<lparr>xa_window_id = 1, xa_source_generation = 0, xa_pages = [example_page_of ''k''],
     xa_plan = Some \<lparr>sl_id = 0, sl_pages = [\<lparr>so_canonical_key = ''k'', so_kv_group = 0,
       so_source_ptrs = [64], so_source_lengths = [8]\<rparr>], sl_owners = [], sl_producer_events = []\<rparr>,
     xa_has_preparer = False, xa_has_factory = False\<rparr>"

definition good_peer :: producer_env where
  "good_peer = example_peer (\<lambda>rq. Inr (example_reply [example_descriptor] rq)) (NativeResult example_native)"

text \<open>What is looked at of a window's run.\<close>

definition run_view :: "window_result res \<times> session \<Rightarrow> (bool \<times> bool \<times> int) option" where
  "run_view p = (case fst p of
       Inl _ \<Rightarrow> None
     | Inr w \<Rightarrow> Some (wr_direct_satisfied w, wr_armed w, wr_existing_pages w))"

lemma run_view_Some:
  "run_view p = Some (b, c, n) \<longleftrightarrow>
     (\<exists>w t. p = (Inr w, t) \<and> wr_direct_satisfied w = b \<and> wr_armed w = c \<and> wr_existing_pages w = n)"
  by (cases p; cases "fst p") (auto simp: run_view_def)

section \<open>The properties of a control session\<close>




text \<open>C8. Along any sequence of calls a session only moves forward: fatal, opened, closed and unknown
  stay set, the direct path stays dropped, the terminal result never changes, the handoff and the
  specification are fixed; operation numbers strictly increase, the only exception being the exact
  repetition of a request, which is sent at most twice.\<close>

theorem session_moves_forward:
  "let t = fold (session_step env) ops s in
     (ps_fatal s \<longrightarrow> ps_fatal t) \<and> (ps_opened s \<longrightarrow> ps_opened t) \<and> (ps_closed s \<longrightarrow> ps_closed t) \<and>
     (ps_prearm_unknown s \<longrightarrow> ps_prearm_unknown t) \<and> (ps_direct_viable t \<longrightarrow> ps_direct_viable s) \<and>
     (ps_terminal s \<noteq> None \<longrightarrow> ps_terminal t = ps_terminal s) \<and>
     ps_handoff t = ps_handoff s \<and> ps_spec t = ps_spec s \<and>
     (\<exists>es. ps_events t = ps_events s @ es \<and>
        (\<forall>q \<in> set (sent es). ps_sequence s < sequence_of q \<and> sequence_of q \<le> ps_sequence t) \<and>
        sorted_wrt (\<lambda>q q'. sequence_of q < sequence_of q' \<or> q = q') (sent es) \<and>
        (\<forall>q. count_list (sent es) q \<le> 2))"
  using session_run_progress [of s env ops]
  unfolding progress_def evolves_def numbered_def Let_def by blast

definition session_error :: "producer_env \<Rightarrow> session_op \<Rightarrow> session \<Rightarrow> exn option" where
  "session_error env op s =
     (case op of
        OpenOp \<Rightarrow> case_sum Some (\<lambda>_. None) (fst (open_session env s))
      | ProbeOp w g pages \<Rightarrow> case_sum Some (\<lambda>_. None) (fst (probe_window env w g pages s))
      | TransferOp a \<Rightarrow> case_sum Some (\<lambda>_. None) (fst (transfer_window env a s))
      | FinishOp r c p \<Rightarrow> case_sum Some (\<lambda>_. None) (fst (finish_session env r c p s))
      | AbortOp reason \<Rightarrow> case_sum Some (\<lambda>_. None) (fst (abort_session env reason s))
      | CloseOp \<Rightarrow> case_sum Some (\<lambda>_. None) (fst (close_session env s)))"

lemma latchedD: "latched p \<Longrightarrow> p s = (Inl e, t) \<Longrightarrow> is_fatal e \<Longrightarrow> ps_fatal t"
  unfolding latched_def by blast

lemma latched_abort_session:
  assumes "plain_client env" "abort_session env reason s = (Inl e, t)" "is_fatal e"
  shows "ps_fatal t"
proof -
  have call: "latched (bindA (call env (Abort reason)) (\<lambda>r.
      if rs_code r \<notin> {OK, ACCEPTED, TERMINAL} then
        raiseA (RuntimeError ''remote-fill ABORT was rejected'') else retA ()))"
    by (intro latched_intros assms(1)) (simp add: is_fatal_def)
  have "latched (seqA (if ps_opened s then bindA (call env (Abort reason)) (\<lambda>r.
      if rs_code r \<notin> {OK, ACCEPTED, TERMINAL} then
        raiseA (RuntimeError ''remote-fill ABORT was rejected'') else retA ()) else retA ())
      (writeA (\<lambda>s. s\<lparr>ps_direct_viable := False, ps_closed := True\<rparr>)))"
    by (intro latched_seq latched_if call latched_basic)
  from latchedD [OF this] show ?thesis
    using assms(2,3) by (auto simp: abort_session_def bindA_readA raiseA_def retA_def split: if_splits)
qed

lemma raised_fatal:
  assumes "case_sum Some (\<lambda>_. None) (fst (p s)) = Some (FatalError m)" "latched p"
  shows "ps_fatal (snd (p s))"
proof -
  obtain t where "p s = (Inl (FatalError m), t)"
    using assms(1) by (cases "p s"; cases "fst (p s)") auto
  then show ?thesis using latchedD [OF assms(2)] by (simp add: is_fatal_def)
qed

lemma session_error_fatal:
  assumes "plain_client env" "session_error env op s = Some (FatalError m)" "op \<noteq> CloseOp"
  shows "ps_fatal (session_step env op s)"
proof -
  have opened: "latched (open_session env)"
    using assms(1) unfolding open_session_def negotiate_def open_transaction_def fail_open_def
      drop_direct_def mark_prearm_unknown_def by (intro latched_intros)
  show ?thesis
  proof (cases op)
    case (AbortOp reason)
    then show ?thesis
      using assms latched_abort_session [OF assms(1), of reason s "FatalError m" "snd (abort_session env reason s)"]
      by (cases "abort_session env reason s")
        (auto simp: session_error_def session_step_def is_fatal_def split: sum.splits)
  qed (use assms opened latched_probe latched_transfer latched_finish in
      \<open>auto simp: session_error_def session_step_def intro: raised_fatal\<close>)
qed

text \<open>C10. When a method raises the fatal exception, the session is fatal from then on: after any further
  calls closing it raises the fatal exception and closes nothing, and finishing it, if it was not
  finished, answers \<open>FATAL_RESTART\<close> without asking the decoder.  The RPC client is assumed not to
  raise this exception itself.\<close>

theorem fatal_exception_is_latched:
  assumes "plain_client env" "session_error env op s = Some (FatalError m)" "op \<noteq> CloseOp"
  shows "let t = fold (session_step env) ops (session_step env op s) in
    ps_fatal t \<and>
    close_session env t = (Inl (FatalError ''cannot close an ambiguous armed remote-fill transaction''), t) \<and>
    (ps_terminal t = None \<longrightarrow>
      (\<exists>res u. finish_session env r c p t = (Inr res, u) \<and> tr_outcome res = FATAL_RESTART \<and>
        \<not> tr_direct_satisfied res \<and> ps_events u = ps_events t))"
proof -
  let ?t = "fold (session_step env) ops (session_step env op s)"
  have "progress (session_step env op s) ?t" by (rule session_run_progress)
  then have fatal: "ps_fatal ?t"
    using session_error_fatal [OF assms] by (simp add: progress_def evolves_def)
  moreover have "close_session env ?t =
      (Inl (FatalError ''cannot close an ambiguous armed remote-fill transaction''), ?t)"
    using fatal by (simp add: close_session_def act_defs)
  moreover have "\<exists>res u. finish_session env r c p ?t = (Inr res, u) \<and> tr_outcome res = FATAL_RESTART \<and>
      \<not> tr_direct_satisfied res \<and> ps_events u = ps_events ?t" if "ps_terminal ?t = None"
    using fatal that by (simp add: finish_session_def finish_outcome_def act_defs Let_def)
  ultimately show ?thesis by (simp add: Let_def)
qed


text \<open>C11. The validation of descriptors is exact: over pages of different identities it accepts just the
  answers whose descriptors cover the allocated pages, each once, each with a verified HMAC and every
  field unchanged.\<close>

theorem validate_descriptors_exact:
  assumes "distinct (map page_identity pages)"
  shows "validate_descriptors c pages digest window_id response = Inr () \<longleftrightarrow>
    descriptors_sound c pages digest window_id response"
  using validate_descriptors_sound [of c pages digest window_id response "()"]
    validate_descriptors_complete [OF _ assms] by blast

text \<open>C12. An answer that reports a page as allocated and carries no descriptor at all would be refused by
  the validation of descriptors, yet \<open>transfer_window\<close> does not validate it: the window is reported as
  satisfied although no byte was written and nothing was armed.\<close>

theorem empty_descriptors_skip_validation:
  "let silent = example_peer (\<lambda>rq. Inr (example_reply [] rq)) (NativeResult example_native);
      result = transfer_window silent example_transfer example_session
   in (\<exists>e. validate_descriptors (descriptor_context_of silent example_session)
          (xa_pages example_transfer) ''m'' 1 (example_reply [] example_request) = Inl e) \<and>
      (\<exists>w t. result = (Inr w, t) \<and> wr_direct_satisfied w \<and> \<not> wr_armed w \<and> wr_existing_pages w = 0)"
proof -
  define silent where "silent = example_peer (\<lambda>rq. Inr (example_reply [] rq)) (NativeResult example_native)"
  have "run_view (transfer_window (example_peer (\<lambda>rq. Inr (example_reply [] rq)) (NativeResult example_native))
      example_transfer example_session) = Some (True, False, 0)"
    by code_simp
  then have "\<exists>w t. transfer_window silent example_transfer example_session = (Inr w, t) \<and>
      wr_direct_satisfied w \<and> \<not> wr_armed w \<and> wr_existing_pages w = 0"
    unfolding silent_def run_view_Some by blast
  moreover have "\<exists>e. validate_descriptors c pages digest w (example_reply [] rq) = Inl e"
    for c pages digest w rq
    by (simp add: validate_descriptors_def example_reply_def allocated_identities_def
        example_result_def check_def bindR_def)
  ultimately show ?thesis unfolding Let_def silent_def by blast
qed




text \<open>A native transfer that does not end in time.\<close>

theorem fatal_exception_is_latched_witness:
  "let slow = example_peer (\<lambda>rq. Inr (example_reply [example_descriptor] rq)) FutureTimeout;
       t = session_step slow (TransferOp example_transfer) example_session in
   close_session slow t = (Inl (FatalError ''cannot close an ambiguous armed remote-fill transaction''), t)"
proof -
  define slow where "slow = example_peer (\<lambda>rq. Inr (example_reply [example_descriptor] rq)) FutureTimeout"
  have "plain_client slow" by (simp add: plain_client_def slow_def example_peer_def)
  moreover have "session_error (example_peer (\<lambda>rq. Inr (example_reply [example_descriptor] rq)) FutureTimeout)
      (TransferOp example_transfer) example_session = Some (FatalError native_deadline_message)"
    by code_simp
  then have "session_error slow (TransferOp example_transfer) example_session =
      Some (FatalError native_deadline_message)" by (simp add: slow_def)
  ultimately have "close_session slow (fold (session_step slow) []
        (session_step slow (TransferOp example_transfer) example_session)) =
      (Inl (FatalError ''cannot close an ambiguous armed remote-fill transaction''),
       fold (session_step slow) [] (session_step slow (TransferOp example_transfer) example_session))"
    using fatal_exception_is_latched [of slow "TransferOp example_transfer" example_session
        native_deadline_message "[]"]
    by (simp add: Let_def)
  then show ?thesis by (simp add: Let_def slow_def)
qed


theorem validate_descriptors_exact_witness:
  "descriptors_sound (descriptor_context_of good_peer (example_session\<lparr>ps_remote_session := ''rs''\<rparr>))
     [example_page_of ''k''] ''m'' 1 (example_reply [example_descriptor] example_request)"
proof -
  have "validate_descriptors (descriptor_context_of good_peer (example_session\<lparr>ps_remote_session := ''rs''\<rparr>))
     [example_page_of ''k''] ''m'' 1 (example_reply [example_descriptor] example_request) = Inr ()"
    by code_simp
  moreover have "distinct (map page_identity [example_page_of ''k''])" by simp
  ultimately show ?thesis using validate_descriptors_exact by blast
qed

text \<open>The successful window submits.\<close>

lemma good_peer_submits:
  "list_ex is_submit (ps_events (snd (transfer_window good_peer example_transfer example_session)))"
  by code_simp

text \<open>A session that was fatal, opened and of unknown state before a transfer and a finish.\<close>

theorem session_moves_forward_witness:
  "let s = example_session\<lparr>ps_fatal := True, ps_opened := True, ps_prearm_unknown := True\<rparr>;
       t = fold (session_step good_peer) [TransferOp example_transfer, FinishOp 4 4 0] s
   in ps_fatal t \<and> ps_opened t \<and> ps_prearm_unknown t \<and>
      (\<forall>es q. ps_events t = es \<and> q \<in> set (sent es) \<longrightarrow> 0 < sequence_of q)"
proof -
  let ?s = "example_session\<lparr>ps_fatal := True, ps_opened := True, ps_prearm_unknown := True\<rparr>"
  have s: "ps_fatal ?s" "ps_opened ?s" "ps_prearm_unknown ?s" "ps_events ?s = []" "ps_sequence ?s = 0"
    by (simp_all add: example_session_def)
  from session_moves_forward [of good_peer "[TransferOp example_transfer, FinishOp 4 4 0]" ?s]
  show ?thesis unfolding Let_def s by auto
qed

end
