(* ===== verification/ProducerMetrics.thy ===== *)
theory ProducerMetrics
  imports Prelude Complex_Main
begin

text \<open>
  The producer's aggregate counters (\<open>RemoteFillProducerMetrics\<close> of
  \<open>lmcache_ascend/v1/remote_fill_producer.py\<close>).  Dictionaries are
  association lists in insertion order; the code's frozen sets of names are lists.  The lock is not
  modelled: every method is one step.
\<close>

section \<open>Names\<close>

definition TIMERS :: "string list" where
  "TIMERS = [''queue_wait_seconds'', ''reserve_seconds'', ''arm_seconds'',
     ''source_event_wait_seconds'', ''source_registration_seconds'', ''native_slot_wait_seconds'',
     ''native_seconds'', ''report_seconds'', ''persistent_seconds'', ''finish_control_seconds'',
     ''final_wait_seconds'']"

definition GAUGES :: "string list" where
  "GAUGES = [''active_transactions'', ''direct_viable'', ''inflight_windows'', ''inflight_bytes'',
     ''circuit_breaker_state'']"

definition BYTE_KINDS :: "string list" where
  "BYTE_KINDS = [''submitted_bytes'', ''published_bytes'', ''discarded_bytes'']"

definition REASONS :: "string list" where
  "REASONS = [''none'', ''open_rejected'', ''cached_prefix_hole'', ''direct_destination_hole'',
     ''probe_control_unavailable'', ''probe_result_invalid'', ''reserve_control_unavailable'',
     ''reservation_rejected'', ''reservation_result_invalid'', ''descriptor_validation_failed'',
     ''arm_rejected'', ''native_transfer_failed'', ''producer_backpressure'',
     ''invalid_control_page_limit'', ''incomplete_page_pair'', ''prearm_failure'', ''fatal_restart'',
     ''request_aborted'', ''other'']"

definition OUTCOMES :: "string list" where
  "OUTCOMES = [''LOCAL_FULL'', ''PERSISTENT_ONLY'', ''PERSISTENCE_FAILED'', ''FATAL_RESTART'', ''ABORTED'']"

text \<open>\<open>str.lower\<close> and \<open>str.replace(" ", "_")\<close> on ASCII text, which the labels are.\<close>

definition lower_char :: "char \<Rightarrow> char" where
  "lower_char c =
     (let n = of_char c :: nat in if 65 \<le> n \<and> n \<le> 90 then char_of (n + 32) else c)"

definition normalize_reason :: "string \<Rightarrow> string" where
  "normalize_reason reason =
     map (\<lambda>c. if c = CHR '' '' then CHR ''_'' else c) (map lower_char (py_strip reason))"

definition reason_label :: "string \<Rightarrow> string" where
  "reason_label reason =
     (let normalized = normalize_reason reason in
      if normalized \<in> set REASONS then normalized else ''other'')"

section \<open>State\<close>

record timer =
  tm_count :: int
  tm_total :: rat
  tm_max :: rat

record metrics =
  mt_timing_enabled :: bool
  mt_attempts :: "((string \<times> string) \<times> int) list"
  mt_started_total :: int
  mt_abandoned :: "(string \<times> int) list"
  mt_failures :: "(string \<times> int) list"
  mt_allocation_rejections :: "(string \<times> int) list"
  mt_timers :: "(string \<times> timer) list"
  mt_gauges :: "(string \<times> int) list"
  mt_bytes :: "(string \<times> int) list"
  mt_same_key_existing_total :: int
  mt_fatal_restart_total :: int

definition make_metrics :: "bool \<Rightarrow> metrics" where
  "make_metrics timing =
     \<lparr>mt_timing_enabled = timing, mt_attempts = [], mt_started_total = 0, mt_abandoned = [],
      mt_failures = [], mt_allocation_rejections = [],
      mt_timers = map (\<lambda>name. (name, \<lparr>tm_count = 0, tm_total = 0, tm_max = 0\<rparr>)) TIMERS,
      mt_gauges = map (\<lambda>name. (name, 0)) GAUGES, mt_bytes = map (\<lambda>name. (name, 0)) BYTE_KINDS,
      mt_same_key_existing_total = 0, mt_fatal_restart_total = 0\<rparr>"

text \<open>\<open>d[key] = d.get(key, 0) + 1\<close>, and the value of a key that is present.\<close>

definition count_key :: "'k \<Rightarrow> ('k \<times> int) list \<Rightarrow> ('k \<times> int) list" where
  "count_key k d = AList.update k (case map_of d k of None \<Rightarrow> 1 | Some n \<Rightarrow> n + 1) d"

definition value_of :: "'k \<Rightarrow> ('k \<times> int) list \<Rightarrow> int" where
  "value_of k d = (case map_of d k of None \<Rightarrow> 0 | Some n \<Rightarrow> n)"

section \<open>Operations\<close>

definition start_attempt :: "metrics \<Rightarrow> metrics" where
  "start_attempt m = m\<lparr>mt_started_total := mt_started_total m + 1\<rparr>"

definition finish_attempt :: "string \<Rightarrow> string \<Rightarrow> metrics \<Rightarrow> metrics" where
  "finish_attempt outcome reason m =
     (let bounded_outcome = (if outcome \<in> set OUTCOMES then outcome else ''OTHER'');
          m1 = m\<lparr>mt_attempts := count_key (bounded_outcome, reason_label reason) (mt_attempts m)\<rparr> in
      if bounded_outcome = ''FATAL_RESTART''
      then m1\<lparr>mt_fatal_restart_total := mt_fatal_restart_total m1 + 1\<rparr> else m1)"

definition abandon_metric :: "string \<Rightarrow> bool \<Rightarrow> metrics \<Rightarrow> metrics" where
  "abandon_metric reason allocation m =
     (let m1 = m\<lparr>mt_abandoned := count_key (reason_label reason) (mt_abandoned m)\<rparr> in
      if allocation
      then m1\<lparr>mt_allocation_rejections := count_key (reason_label reason) (mt_allocation_rejections m1)\<rparr>
      else m1)"

definition failure_metric :: "string \<Rightarrow> metrics \<Rightarrow> metrics" where
  "failure_metric reason m = m\<lparr>mt_failures := count_key (reason_label reason) (mt_failures m)\<rparr>"

definition observe :: "string \<Rightarrow> rat \<Rightarrow> metrics \<Rightarrow> metrics" where
  "observe name seconds m =
     (if \<not> mt_timing_enabled m \<or> name \<notin> set TIMERS \<or> seconds < 0 then m
      else case map_of (mt_timers m) name of
        None \<Rightarrow> m
      | Some t \<Rightarrow> m\<lparr>mt_timers := AList.update name \<lparr>tm_count = tm_count t + 1,
            tm_total = tm_total t + seconds, tm_max = max (tm_max t) seconds\<rparr> (mt_timers m)\<rparr>)"

definition add_gauge :: "string \<Rightarrow> int \<Rightarrow> metrics \<Rightarrow> metrics" where
  "add_gauge name delta m =
     (if name \<notin> set GAUGES then m
      else m\<lparr>mt_gauges := AList.update name (max 0 (value_of name (mt_gauges m) + delta)) (mt_gauges m)\<rparr>)"

definition set_gauge :: "string \<Rightarrow> int \<Rightarrow> metrics \<Rightarrow> metrics" where
  "set_gauge name v m =
     (if name \<notin> set GAUGES then m
      else m\<lparr>mt_gauges := AList.update name (max 0 v) (mt_gauges m)\<rparr>)"

definition add_bytes :: "string \<Rightarrow> int \<Rightarrow> metrics \<Rightarrow> metrics" where
  "add_bytes name v m =
     (if name \<notin> set BYTE_KINDS \<or> v \<le> 0 then m
      else m\<lparr>mt_bytes := AList.update name (value_of name (mt_bytes m) + v) (mt_bytes m)\<rparr>)"

definition existing_pages :: "int \<Rightarrow> metrics \<Rightarrow> metrics" where
  "existing_pages n m =
     (if n \<le> 0 then m else m\<lparr>mt_same_key_existing_total := mt_same_key_existing_total m + n\<rparr>)"

section \<open>Runs\<close>

datatype metric_op =
    StartAttempt
  | FinishAttempt string string
  | AbandonMetric string bool
  | FailureMetric string
  | Observe string rat
  | AddGauge string int
  | SetGauge string int
  | AddBytes string int
  | ExistingPages int

fun metric_step :: "metric_op \<Rightarrow> metrics \<Rightarrow> metrics" where
  "metric_step StartAttempt m = start_attempt m"
| "metric_step (FinishAttempt outcome reason) m = finish_attempt outcome reason m"
| "metric_step (AbandonMetric reason allocation) m = abandon_metric reason allocation m"
| "metric_step (FailureMetric reason) m = failure_metric reason m"
| "metric_step (Observe name seconds) m = observe name seconds m"
| "metric_step (AddGauge name delta) m = add_gauge name delta m"
| "metric_step (SetGauge name v) m = set_gauge name v m"
| "metric_step (AddBytes name v) m = add_bytes name v m"
| "metric_step (ExistingPages n) m = existing_pages n m"

text \<open>What an operation counts, by label.\<close>

definition outcome_label :: "string \<Rightarrow> string" where
  "outcome_label outcome = (if outcome \<in> set OUTCOMES then outcome else ''OTHER'')"

fun attempt_label :: "metric_op \<Rightarrow> (string \<times> string) option" where
  "attempt_label (FinishAttempt outcome reason) = Some (outcome_label outcome, reason_label reason)"
| "attempt_label _ = None"

fun abandon_label :: "metric_op \<Rightarrow> string option" where
  "abandon_label (AbandonMetric reason _) = Some (reason_label reason)"
| "abandon_label _ = None"

fun rejection_label :: "metric_op \<Rightarrow> string option" where
  "rejection_label (AbandonMetric reason True) = Some (reason_label reason)"
| "rejection_label _ = None"

fun failure_label :: "metric_op \<Rightarrow> string option" where
  "failure_label (FailureMetric reason) = Some (reason_label reason)"
| "failure_label _ = None"

fun byte_amount :: "string \<Rightarrow> metric_op \<Rightarrow> int" where
  "byte_amount name (AddBytes kind v) = (if kind = name \<and> name \<in> set BYTE_KINDS \<and> 0 < v then v else 0)"
| "byte_amount name _ = 0"

definition occurrences :: "(metric_op \<Rightarrow> 'k option) \<Rightarrow> 'k \<Rightarrow> metric_op list \<Rightarrow> int" where
  "occurrences label k ops = int (length (filter (\<lambda>x. label x = Some k) ops))"

lemma occurrences_simps [simp]:
  "occurrences label k [] = 0"
  "occurrences label k (x # ops) = (if label x = Some k then 1 else 0) + occurrences label k ops"
  by (simp_all add: occurrences_def)

lemma value_of_update [simp]: "value_of k' (AList.update k v d) = (if k' = k then v else value_of k' d)"
  by (simp add: value_of_def update_conv')

lemma value_of_count [simp]:
  "value_of k' (count_key k d) = value_of k' d + (if k = k' then 1 else 0)"
  by (auto simp: count_key_def value_of_def update_conv' split: option.splits)

lemma keys_count: "fst ` set (count_key k d) = insert k (fst ` set d)"
  unfolding count_key_def using dom_update [of k _ d] by (simp add: set_map [symmetric] del: set_map)

lemma distinct_count: "distinct (map fst d) \<Longrightarrow> distinct (map fst (count_key k d))"
  by (simp add: count_key_def distinct_update)

lemma reason_label_in: "reason_label reason \<in> set REASONS"
  by (simp add: reason_label_def Let_def REASONS_def)

lemmas metric_defs = start_attempt_def finish_attempt_def abandon_metric_def failure_metric_def
  observe_def add_gauge_def set_gauge_def add_bytes_def existing_pages_def Let_def

text \<open>Every counter is the number of the operations with its label.\<close>

lemma attempts_counted:
  "value_of k (mt_attempts (fold metric_step ops m)) = value_of k (mt_attempts m) + occurrences attempt_label k ops"
proof (induction ops arbitrary: m)
  case (Cons x ops)
  show ?case by (cases x) (auto simp: Cons metric_defs outcome_label_def split: option.splits)
qed simp

lemma abandoned_counted:
  "value_of k (mt_abandoned (fold metric_step ops m)) = value_of k (mt_abandoned m) + occurrences abandon_label k ops"
proof (induction ops arbitrary: m)
  case (Cons x ops)
  show ?case by (cases x) (auto simp: Cons metric_defs split: option.splits)
qed simp

lemma rejections_counted:
  "value_of k (mt_allocation_rejections (fold metric_step ops m)) =
     value_of k (mt_allocation_rejections m) + occurrences rejection_label k ops"
proof (induction ops arbitrary: m)
  case (Cons x ops)
  show ?case by (cases x) (auto simp: Cons metric_defs split: option.splits elim: rejection_label.elims)
qed simp

lemma failures_counted:
  "value_of k (mt_failures (fold metric_step ops m)) = value_of k (mt_failures m) + occurrences failure_label k ops"
proof (induction ops arbitrary: m)
  case (Cons x ops)
  show ?case by (cases x) (auto simp: Cons metric_defs split: option.splits)
qed simp

lemma bytes_counted:
  "value_of k (mt_bytes (fold metric_step ops m)) = value_of k (mt_bytes m) + sum_list (map (byte_amount k) ops)"
proof (induction ops arbitrary: m)
  case (Cons x ops)
  show ?case by (cases x) (auto simp: Cons metric_defs split: option.splits)
qed simp

text \<open>The labels of the aggregate are bounded, whatever text the callers pass.\<close>

definition labels_bounded :: "metrics \<Rightarrow> bool" where
  "labels_bounded m \<longleftrightarrow>
     distinct (map fst (mt_attempts m)) \<and> distinct (map fst (mt_abandoned m)) \<and>
     distinct (map fst (mt_failures m)) \<and> distinct (map fst (mt_allocation_rejections m)) \<and>
     fst ` set (mt_attempts m) \<subseteq> set (''OTHER'' # OUTCOMES) \<times> set REASONS \<and>
     fst ` set (mt_abandoned m) \<subseteq> set REASONS \<and> fst ` set (mt_failures m) \<subseteq> set REASONS \<and>
     fst ` set (mt_allocation_rejections m) \<subseteq> set REASONS \<and>
     map fst (mt_timers m) = TIMERS \<and> map fst (mt_gauges m) = GAUGES \<and> map fst (mt_bytes m) = BYTE_KINDS \<and>
     (\<forall>(name, v) \<in> set (mt_gauges m). 0 \<le> v)"

lemma update_values: "(name, v') \<in> set (AList.update k v d) \<Longrightarrow> (name, v') \<in> set d \<or> v' = v"
  by (induction d) (auto split: if_splits)

lemma labels_bounded_step:
  assumes "labels_bounded m"
  shows "labels_bounded (metric_step x m)"
proof (cases x)
  case (AddGauge name delta)
  have "0 \<le> v" if "(n, v) \<in> set (AList.update name (max 0 w) (mt_gauges m))" for n v w
    using update_values [OF that] assms by (auto simp: labels_bounded_def)
  then show ?thesis using assms AddGauge
    by (auto simp: labels_bounded_def metric_defs update_keys)
next
  case (SetGauge name v)
  have "0 \<le> u" if "(n, u) \<in> set (AList.update name (max 0 w) (mt_gauges m))" for n u w
    using update_values [OF that] assms by (auto simp: labels_bounded_def)
  then show ?thesis using assms SetGauge
    by (auto simp: labels_bounded_def metric_defs update_keys)
next
  case (Observe name seconds)
  then show ?thesis using assms
    by (auto simp: labels_bounded_def metric_defs update_keys split: option.splits)
next
  case (AddBytes name v)
  then show ?thesis using assms by (auto simp: labels_bounded_def metric_defs update_keys)
next
  case (FinishAttempt outcome reason)
  then show ?thesis using assms reason_label_in [of reason]
    by (auto simp: labels_bounded_def metric_defs keys_count distinct_count)
next
  case (AbandonMetric reason allocation)
  then show ?thesis using assms reason_label_in [of reason]
    by (auto simp: labels_bounded_def metric_defs keys_count distinct_count)
next
  case (FailureMetric reason)
  then show ?thesis using assms reason_label_in [of reason]
    by (auto simp: labels_bounded_def metric_defs keys_count distinct_count)
qed (use assms in \<open>auto simp: labels_bounded_def metric_defs\<close>)

lemma labels_bounded_run: "labels_bounded m \<Longrightarrow> labels_bounded (fold metric_step ops m)"
  by (induction ops arbitrary: m) (simp_all add: labels_bounded_step)

lemma labels_bounded_make: "labels_bounded (make_metrics timing)"
  by (auto simp: labels_bounded_def make_metrics_def comp_def)

lemma bounded_length:
  assumes "distinct (map fst d)" "fst ` set d \<subseteq> S" "finite S"
  shows "length d \<le> card S"
proof -
  have "length d = card (fst ` set d)" using distinct_card [OF assms(1)] by simp
  also have "\<dots> \<le> card S" using assms(2,3) by (simp add: card_mono)
  finally show ?thesis .
qed

text \<open>A gauge between changes that never take it below zero is the sum of the changes.\<close>

lemma gauge_value:
  "value_of name (mt_gauges (add_gauge k delta m)) =
     (if name = k \<and> k \<in> set GAUGES then max 0 (value_of name (mt_gauges m) + delta)
      else value_of name (mt_gauges m))"
  by (simp add: add_gauge_def)

text \<open>The aggregate stays small and true whatever the callers pass: after any sequence of
  operations there are at most 114 pairs of outcome and reason and at most 19 reasons of each other
  kind; each counter is exactly the number of operations with its label, each byte total the sum of
  the positive amounts; and gauges are nonnegative.\<close>

theorem metrics_aggregate_bounded_and_exact:
  "let m = fold metric_step ops (make_metrics timing) in
     length (mt_attempts m) \<le> 114 \<and> length (mt_abandoned m) \<le> 19 \<and> length (mt_failures m) \<le> 19 \<and>
     length (mt_allocation_rejections m) \<le> 19 \<and>
     (\<forall>k. value_of k (mt_attempts m) = occurrences attempt_label k ops) \<and>
     (\<forall>k. value_of k (mt_abandoned m) = occurrences abandon_label k ops) \<and>
     (\<forall>k. value_of k (mt_failures m) = occurrences failure_label k ops) \<and>
     (\<forall>k. value_of k (mt_allocation_rejections m) = occurrences rejection_label k ops) \<and>
     (\<forall>k. value_of k (mt_bytes m) = sum_list (map (byte_amount k) ops)) \<and>
     (\<forall>k. 0 \<le> value_of k (mt_gauges m)) \<and> map fst (mt_gauges m) = GAUGES"
proof -
  let ?m = "fold metric_step ops (make_metrics timing)"
  have b: "labels_bounded ?m" by (rule labels_bounded_run [OF labels_bounded_make])
  have "length (''OTHER'' # OUTCOMES) = 6" "length REASONS = 19"
    by (simp_all add: OUTCOMES_def REASONS_def)
  then have c: "card (set (''OTHER'' # OUTCOMES)) \<le> 6" "card (set REASONS) \<le> 19"
    using card_length [of "''OTHER'' # OUTCOMES"] card_length [of REASONS] by presburger+
  have "card (set (''OTHER'' # OUTCOMES) \<times> set REASONS) \<le> 114"
    using mult_le_mono [OF c] unfolding card_cartesian_product by simp
  then have "length (mt_attempts ?m) \<le> 114"
    using b bounded_length [of "mt_attempts ?m" "set (''OTHER'' # OUTCOMES) \<times> set REASONS"]
    by (simp add: labels_bounded_def)
  moreover have r: "length d \<le> 19" if "distinct (map fst d)" "fst ` set d \<subseteq> set REASONS"
    for d :: "(string \<times> int) list"
    using bounded_length [OF that] c(2) by simp
  moreover have "0 \<le> value_of k (mt_gauges ?m)" for k
    using b by (auto simp: labels_bounded_def value_of_def split: option.splits dest!: map_of_SomeD)
  moreover have "value_of k (mt_bytes (make_metrics timing)) = 0" for k
    by (simp add: make_metrics_def value_of_def BYTE_KINDS_def)
  moreover have "value_of k (mt_attempts (make_metrics timing)) = 0"
    "value_of j (mt_abandoned (make_metrics timing)) = 0" "value_of j (mt_failures (make_metrics timing)) = 0"
    "value_of j (mt_allocation_rejections (make_metrics timing)) = 0" for k j
    by (simp_all add: make_metrics_def value_of_def)
  ultimately show ?thesis
    using b unfolding Let_def attempts_counted abandoned_counted failures_counted rejections_counted
      bytes_counted labels_bounded_def by (elim conjE) (intro conjI allI; simp)
qed

end
