(* ===== verification/DirectStorePlan.thy ===== *)
theory DirectStorePlan
  imports ProducerProtocol
begin

text \<open>
  The planning of source windows (\<open>lmcache_ascend/v1/direct_store_plan.py\<close>): selecting one control
  window of a batch, building the native source plan, and joining deferred batches.  Owners and
  events are object identities; a new plan gets an identity \<open>ident\<close> that the caller supplies, as
  the allocation of an object does.  \<open>key.to_string\<close> is the parameter \<open>to_string\<close>.
\<close>

section \<open>Batches\<close>

record page_batch =
  db_req_id :: string
  db_keys :: "cache_key list"
  db_ptrs :: "int list list"
  db_sizes :: "int list list"
  db_owners :: "nat list"
  db_ready_event :: "nat option"
  db_group_ends :: "(int \<times> int) list"
  db_ranges :: "(int \<times> int) list"
  db_ready_events :: "nat list"

type_synonym batch_item = "cache_key \<times> int list \<times> int list \<times> int \<times> int"

definition zip_error :: exn where
  "zip_error = ValueError ''zip() arguments have different lengths''"

text \<open>\<open>zip(batch.keys, batch.ptrs, batch.sizes, batch.ranges, strict=True)\<close>\<close>

definition batch_items :: "page_batch \<Rightarrow> batch_item list res" where
  "batch_items b =
     (if length (db_ptrs b) = length (db_keys b) \<and> length (db_sizes b) = length (db_keys b) \<and>
         length (db_ranges b) = length (db_keys b)
      then Inr (zip (db_keys b) (zip (db_ptrs b) (zip (db_sizes b) (db_ranges b))))
      else Inl zip_error)"

definition item_identity :: "(cache_key \<Rightarrow> string) \<Rightarrow> batch_item \<Rightarrow> string \<times> int" where
  "item_identity to_string item = (to_string (fst item), ck_kv_group (fst item))"

definition item_end :: "batch_item \<Rightarrow> int" where
  "item_end item = snd (snd (snd (snd item)))"

text \<open>\<open>ends[group] = max(ends.get(group, 0), end)\<close>\<close>

definition raise_end :: "int \<times> int \<Rightarrow> (int \<times> int) list \<Rightarrow> (int \<times> int) list" where
  "raise_end ge ends =
     (case ge of (g, e) \<Rightarrow>
        AList.update g (max (case map_of ends g of None \<Rightarrow> 0 | Some v \<Rightarrow> v) e) ends)"

definition group_end :: "(int \<times> int) list \<Rightarrow> int \<Rightarrow> int" where
  "group_end ends g = (case map_of ends g of None \<Rightarrow> 0 | Some v \<Rightarrow> v)"

definition find_source ::
  "(cache_key \<Rightarrow> string) \<Rightarrow> batch_item list \<Rightarrow> control_page \<Rightarrow> batch_item res" where
  "find_source to_string items page =
     (case py_dict (map (\<lambda>i. (item_identity to_string i, i)) items) (page_identity page) of
        None \<Rightarrow> Inl KeyError
      | Some item \<Rightarrow> Inr item)"

definition select_remote_fill_batch_pages ::
  "(cache_key \<Rightarrow> string) \<Rightarrow> page_batch \<Rightarrow> control_page list \<Rightarrow> page_batch res" where
  "select_remote_fill_batch_pages to_string b pages =
     bindR (batch_items b) (\<lambda>items.
     bindR (check (\<not> distinct (map (item_identity to_string) items))
       (ValueError ''remote-fill source page identity is duplicated'')) (\<lambda>_.
     bindR (mapR (find_source to_string items) pages) (\<lambda>selected.
       Inr \<lparr>db_req_id = db_req_id b, db_keys = map fst selected,
         db_ptrs = map (\<lambda>i. fst (snd i)) selected, db_sizes = map (\<lambda>i. fst (snd (snd i))) selected,
         db_owners = db_owners b, db_ready_event = db_ready_event b,
         db_group_ends = fold raise_end (zip (map cp_kv_group pages) (map item_end selected)) [],
         db_ranges = map (\<lambda>i. snd (snd (snd i))) selected,
         db_ready_events = db_ready_events b\<rparr>)))"

definition plan_page :: "(cache_key \<Rightarrow> string) \<Rightarrow> cache_key \<times> int list \<times> int list \<Rightarrow> source_page" where
  "plan_page to_string x =
     (case x of (key, ptrs, sizes) \<Rightarrow>
        \<lparr>so_canonical_key = to_string key, so_kv_group = ck_kv_group key, so_source_ptrs = ptrs,
         so_source_lengths = sizes\<rparr>)"

definition build_remote_fill_source_plan ::
  "(cache_key \<Rightarrow> string) \<Rightarrow> nat \<Rightarrow> page_batch \<Rightarrow> source_plan res" where
  "build_remote_fill_source_plan to_string ident b =
     (if length (db_ptrs b) \<noteq> length (db_keys b) \<or> length (db_sizes b) \<noteq> length (db_keys b)
      then Inl zip_error
      else if db_ready_events b = [] then
        Inl (ValueError ''remote fill requires complete producer fences'')
      else Inr \<lparr>sl_id = ident,
        sl_pages = map (plan_page to_string) (zip (db_keys b) (zip (db_ptrs b) (db_sizes b))),
        sl_owners = db_owners b, sl_producer_events = db_ready_events b\<rparr>)"

text \<open>\<open>owners.update((id(owner), owner) ...)\<close> keeps each owner at its first position.\<close>

definition merge_owners :: "nat list \<Rightarrow> nat list \<Rightarrow> nat list" where
  "merge_owners owners new = fold (\<lambda>x acc. if x \<in> set acc then acc else acc @ [x]) new owners"

definition merge_deferred_remote_fill_batches ::
  "page_batch list \<Rightarrow> nat list \<Rightarrow> page_batch res" where
  "merge_deferred_remote_fill_batches batches ready_events =
     (if batches = [] \<or> ready_events = [] then
        Inl (ValueError ''deferred remote fill requires sources and fences'')
      else let req_id = db_req_id (hd batches) in
        if list_ex (\<lambda>b. db_req_id b \<noteq> req_id) batches then
          Inl (ValueError ''deferred remote-fill batches span requests'')
        else Inr \<lparr>db_req_id = req_id,
          db_keys = concat (map db_keys batches), db_ptrs = concat (map db_ptrs batches),
          db_sizes = concat (map db_sizes batches),
          db_owners = fold (\<lambda>b owners. merge_owners owners (db_owners b)) batches [],
          db_ready_event = Some (last ready_events),
          db_group_ends = fold (\<lambda>b ends. fold raise_end (db_group_ends b) ends) batches [],
          db_ranges = concat (map db_ranges batches),
          db_ready_events = ready_events\<rparr>)"

text \<open>\<open>tuple(pages[offset : offset + maximum] for offset in range(0, len(pages), maximum))\<close>\<close>

function control_windows :: "nat \<Rightarrow> 'a list \<Rightarrow> 'a list list" where
  "control_windows maximum pages =
     (if maximum = 0 \<or> pages = [] then []
      else take maximum pages # control_windows maximum (drop maximum pages))"
  by pat_completeness auto
termination by (relation "measure (length \<circ> snd)") auto

declare control_windows.simps [simp del]

section \<open>Windows\<close>

lemma control_windows_concat: "0 < maximum \<Longrightarrow> concat (control_windows maximum pages) = pages"
proof (induction maximum pages rule: control_windows.induct)
  case (1 maximum pages)
  then show ?case by (subst control_windows.simps) auto
qed

lemma control_windows_size:
  "w \<in> set (control_windows maximum pages) \<Longrightarrow> w \<noteq> [] \<and> length w \<le> maximum"
proof (induction maximum pages rule: control_windows.induct)
  case (1 maximum pages)
  then show ?case
    by (subst (asm) (2) control_windows.simps) (auto split: if_splits)
qed

section \<open>Group ends\<close>

lemma group_end_raise: "group_end (raise_end (g, e) ends) h = (if h = g then max (group_end ends h) e else group_end ends h)"
  by (simp add: group_end_def raise_end_def update_conv')

text \<open>The end of a group is the greatest end recorded for it, and 0 without one.\<close>

lemma group_end_fold:
  "group_end (fold raise_end xs ends) g = fold max (map snd (filter (\<lambda>x. fst x = g) xs)) (group_end ends g)"
proof (induction xs arbitrary: ends)
  case (Cons x xs)
  then show ?case by (cases x) (auto simp: group_end_raise max.commute)
qed simp

lemma fold_max: "fold max xs (a :: int) = Max (insert a (set xs))"
proof (induction xs arbitrary: a)
  case (Cons x xs)
  have "fold max (x # xs) a = Max (insert (max x a) (set xs))" by (simp add: Cons)
  also have "\<dots> = Max (insert x (insert a (set xs)))"
    by (cases "set xs = {}") (simp_all add: max.assoc)
  finally show ?case by (simp add: insert_commute)
qed simp

section \<open>Selection\<close>

lemma find_source_Inr:
  assumes "distinct (map (item_identity ts) items)"
  shows "find_source ts items page = Inr item \<longleftrightarrow> item \<in> set items \<and> item_identity ts item = page_identity page"
proof -
  have "distinct (map fst (map (\<lambda>i. (item_identity ts i, i)) items))" using assms by (simp add: comp_def)
  from py_dict_Some_iff [OF this] have
    "py_dict (map (\<lambda>i. (item_identity ts i, i)) items) k = Some i \<longleftrightarrow> i \<in> set items \<and> item_identity ts i = k"
    for k i by auto
  then have "py_dict (map (\<lambda>i. (item_identity ts i, i)) items) (page_identity page) = Some item \<longleftrightarrow>
      item \<in> set items \<and> item_identity ts item = page_identity page" by blast
  moreover have "find_source ts items page = Inr item \<longleftrightarrow>
      py_dict (map (\<lambda>i. (item_identity ts i, i)) items) (page_identity page) = Some item"
    by (cases "py_dict (map (\<lambda>i. (item_identity ts i, i)) items) (page_identity page)")
      (simp_all add: find_source_def)
  ultimately show ?thesis by simp
qed

lemma select_Inr:
  assumes "select_remote_fill_batch_pages ts b pages = Inr b'"
  obtains items selected where "batch_items b = Inr items" "distinct (map (item_identity ts) items)"
    "list_all2 (\<lambda>p i. i \<in> set items \<and> item_identity ts i = page_identity p) pages selected"
    "b' = \<lparr>db_req_id = db_req_id b, db_keys = map fst selected,
         db_ptrs = map (\<lambda>i. fst (snd i)) selected, db_sizes = map (\<lambda>i. fst (snd (snd i))) selected,
         db_owners = db_owners b, db_ready_event = db_ready_event b,
         db_group_ends = fold raise_end (zip (map cp_kv_group pages) (map item_end selected)) [],
         db_ranges = map (\<lambda>i. snd (snd (snd i))) selected, db_ready_events = db_ready_events b\<rparr>"
proof -
  from assms obtain items selected where i: "batch_items b = Inr items"
    and d: "distinct (map (item_identity ts) items)"
    and m: "mapR (find_source ts items) pages = Inr selected"
    and b': "b' = \<lparr>db_req_id = db_req_id b, db_keys = map fst selected,
         db_ptrs = map (\<lambda>i. fst (snd i)) selected, db_sizes = map (\<lambda>i. fst (snd (snd i))) selected,
         db_owners = db_owners b, db_ready_event = db_ready_event b,
         db_group_ends = fold raise_end (zip (map cp_kv_group pages) (map item_end selected)) [],
         db_ranges = map (\<lambda>i. snd (snd (snd i))) selected, db_ready_events = db_ready_events b\<rparr>"
    by (auto simp: select_remote_fill_batch_pages_def bindR_Inr_iff check_Inr_iff)
  have "list_all2 (\<lambda>p i. i \<in> set items \<and> item_identity ts i = page_identity p) pages selected"
    using m find_source_Inr [OF d] by (auto simp: mapR_Inr_iff list_all2_conv_all_nth)
  from that [OF i d this b'] show ?thesis .
qed

text \<open>The four parallel lists of a batch, and its plan's pages.\<close>

definition batch_rows :: "page_batch \<Rightarrow> batch_item list" where
  "batch_rows b = zip (db_keys b) (zip (db_ptrs b) (zip (db_sizes b) (db_ranges b)))"

definition batch_aligned :: "page_batch \<Rightarrow> bool" where
  "batch_aligned b \<longleftrightarrow> length (db_ptrs b) = length (db_keys b) \<and>
     length (db_sizes b) = length (db_keys b) \<and> length (db_ranges b) = length (db_keys b)"

lemma batch_items_Inr: "batch_items b = Inr items \<longleftrightarrow> batch_aligned b \<and> items = batch_rows b"
  by (auto simp: batch_items_def batch_aligned_def batch_rows_def)

lemma rows_of_selected: "zip (map fst xs) (zip (map (\<lambda>i. fst (snd i)) xs)
    (zip (map (\<lambda>i. fst (snd (snd i))) xs) (map (\<lambda>i. snd (snd (snd i))) xs))) = xs"
  by (induction xs) auto

text \<open>Selecting a window is exact: the selected batch has one row per requested page, in the order
  of the pages, each the only row of the batch with that page's key and group; its owners and fences
  are the batch's own, and the end of a group is the greatest end of its selected rows.\<close>

theorem select_pages_exact:
  assumes "select_remote_fill_batch_pages ts b pages = Inr b'"
  shows "batch_aligned b' \<and> length (batch_rows b') = length pages \<and>
    (\<forall>i < length pages. batch_rows b' ! i \<in> set (batch_rows b) \<and>
       item_identity ts (batch_rows b' ! i) = page_identity (pages ! i) \<and>
       (\<forall>row \<in> set (batch_rows b). item_identity ts row = page_identity (pages ! i) \<longrightarrow>
          row = batch_rows b' ! i)) \<and>
    db_owners b' = db_owners b \<and> db_ready_events b' = db_ready_events b \<and> db_req_id b' = db_req_id b \<and>
    (\<forall>g. group_end (db_group_ends b') g =
       Max (insert 0 (item_end ` {row \<in> set (batch_rows b'). ck_kv_group (fst row) = g})))"
proof -
  obtain items selected where i: "batch_items b = Inr items" and d: "distinct (map (item_identity ts) items)"
    and m: "list_all2 (\<lambda>p i. i \<in> set items \<and> item_identity ts i = page_identity p) pages selected"
    and b': "b' = \<lparr>db_req_id = db_req_id b, db_keys = map fst selected,
         db_ptrs = map (\<lambda>i. fst (snd i)) selected, db_sizes = map (\<lambda>i. fst (snd (snd i))) selected,
         db_owners = db_owners b, db_ready_event = db_ready_event b,
         db_group_ends = fold raise_end (zip (map cp_kv_group pages) (map item_end selected)) [],
         db_ranges = map (\<lambda>i. snd (snd (snd i))) selected, db_ready_events = db_ready_events b\<rparr>"
    by (rule select_Inr [OF assms])
  have rows: "batch_rows b' = selected" unfolding b' batch_rows_def by (simp add: rows_of_selected)
  have items: "items = batch_rows b" using i by (simp add: batch_items_Inr)
  have len: "length selected = length pages" using m by (simp add: list_all2_lengthD)
  have nth: "selected ! k \<in> set items \<and> item_identity ts (selected ! k) = page_identity (pages ! k)"
    if "k < length pages" for k using list_all2_nthD [OF m that] .
  have only: "row = selected ! k" if "k < length pages" "row \<in> set items"
    "item_identity ts row = page_identity (pages ! k)" for k row
    using nth [OF that(1)] that d by (metis distinct_map inj_onD)
  have groups: "map cp_kv_group pages = map (\<lambda>row. ck_kv_group (fst row)) selected"
    using m by (auto simp: list_all2_conv_all_nth item_identity_def page_identity_def intro!: nth_equalityI)
  have "group_end (db_group_ends b') g = Max (insert 0 (item_end ` {row \<in> set selected. ck_kv_group (fst row) = g}))"
    for g
  proof -
    have "map snd (filter (\<lambda>x. fst x = g) (zip (map (\<lambda>row. ck_kv_group (fst row)) xs) (map item_end xs))) =
        map item_end (filter (\<lambda>row. ck_kv_group (fst row) = g) xs)" for xs :: "batch_item list"
      by (induction xs) auto
    moreover have "group_end [] g = 0" by (simp add: group_end_def)
    ultimately show ?thesis unfolding b' by (simp add: groups group_end_fold fold_max)
  qed
  then show ?thesis using rows len nth only items by (auto simp: b' batch_aligned_def)
qed

section \<open>Source plans\<close>

definition row_page :: "(cache_key \<Rightarrow> string) \<Rightarrow> batch_item \<Rightarrow> source_page" where
  "row_page ts row = plan_page ts (fst row, fst (snd row), fst (snd (snd row)))"

lemma plan_pages_rows:
  assumes "batch_aligned b"
  shows "map (plan_page ts) (zip (db_keys b) (zip (db_ptrs b) (db_sizes b))) = map (row_page ts) (batch_rows b)"
  using assms unfolding batch_aligned_def batch_rows_def row_page_def
  by (intro nth_equalityI) auto

lemma build_plan_aligned:
  assumes "batch_aligned b" "db_ready_events b \<noteq> []"
  shows "build_remote_fill_source_plan ts ident b = Inr \<lparr>sl_id = ident,
    sl_pages = map (row_page ts) (batch_rows b), sl_owners = db_owners b,
    sl_producer_events = db_ready_events b\<rparr>"
  using assms plan_pages_rows [OF assms(1)]
  by (simp add: build_remote_fill_source_plan_def batch_aligned_def)

lemma fold_concat: "fold (\<lambda>b acc. fold f (g b) acc) bs a = fold f (concat (map g bs)) a"
  by (induction bs arbitrary: a) simp_all

text \<open>The window plans of a batch: each window is selected, then planned with its own identity.\<close>

definition window_plan ::
  "(cache_key \<Rightarrow> string) \<Rightarrow> nat \<Rightarrow> page_batch \<Rightarrow> control_page list \<Rightarrow> source_plan res" where
  "window_plan ts ident b w =
     bindR (select_remote_fill_batch_pages ts b w) (build_remote_fill_source_plan ts ident)"

lemma window_plan_rows:
  assumes "batch_aligned b" "db_ready_events b \<noteq> []" "distinct (map (item_identity ts) (batch_rows b))"
    and "list_all2 (\<lambda>p row. row \<in> set (batch_rows b) \<and> item_identity ts row = page_identity p) w rows"
  shows "window_plan ts ident b w = Inr \<lparr>sl_id = ident, sl_pages = map (row_page ts) rows,
    sl_owners = db_owners b, sl_producer_events = db_ready_events b\<rparr>"
proof -
  have i: "batch_items b = Inr (batch_rows b)" using assms(1) by (simp add: batch_items_Inr)
  have m: "mapR (find_source ts (batch_rows b)) w = Inr rows"
    using assms(4) find_source_Inr [OF assms(3)] by (auto simp: mapR_Inr_iff list_all2_conv_all_nth)
  obtain b' where b': "select_remote_fill_batch_pages ts b w = Inr b'"
    and eq: "b' = \<lparr>db_req_id = db_req_id b, db_keys = map fst rows,
         db_ptrs = map (\<lambda>i. fst (snd i)) rows, db_sizes = map (\<lambda>i. fst (snd (snd i))) rows,
         db_owners = db_owners b, db_ready_event = db_ready_event b,
         db_group_ends = fold raise_end (zip (map cp_kv_group w) (map item_end rows)) [],
         db_ranges = map (\<lambda>i. snd (snd (snd i))) rows, db_ready_events = db_ready_events b\<rparr>"
    using i m assms(3) by (simp add: select_remote_fill_batch_pages_def check_def)
  have "batch_aligned b'" "batch_rows b' = rows" "db_ready_events b' \<noteq> []"
    using assms(2) rows_of_selected [of rows] by (simp_all add: eq batch_aligned_def batch_rows_def)
  then show ?thesis
    using b' build_plan_aligned [of b' ts ident] by (simp add: window_plan_def eq)
qed

text \<open>C27. Splitting a batch into control windows loses and duplicates nothing: when the control pages
  list the rows of the batch in order, every window can be selected and planned, the plans' pages
  joined are the pages of the plan of the whole batch (which the code uses directly when there is only
  one window), and every plan keeps all owners and fences of the batch.\<close>

theorem windowed_plans_equal_whole:
  assumes "batch_aligned b" "db_ready_events b \<noteq> []"
    and ids: "map (item_identity ts) (batch_rows b) = map page_identity pages"
    and "distinct (map page_identity pages)" "0 < maximum"
  shows "\<exists>plans whole.
    mapR (window_plan ts ident b) (control_windows maximum pages) = Inr plans \<and>
    build_remote_fill_source_plan ts ident b = Inr whole \<and>
    concat (map sl_pages plans) = sl_pages whole \<and>
    list_all (\<lambda>p. sl_owners p = db_owners b \<and> sl_producer_events p = db_ready_events b) plans"
proof -
  let ?rows = "batch_rows b" and ?ws = "control_windows maximum pages"
  have dist: "distinct (map (item_identity ts) ?rows)" using assms(4) by (simp add: ids)
  have len: "length ?rows = length pages" using ids by (metis length_map)
  define row where "row p = (THE r. r \<in> set ?rows \<and> item_identity ts r = page_identity p)" for p
  have row: "row (pages ! k) = ?rows ! k" if "k < length pages" for k
  proof -
    have id: "item_identity ts (?rows ! k) = page_identity (pages ! k)"
      using ids that len by (metis nth_map)
    have "\<And>r. r \<in> set ?rows \<and> item_identity ts r = page_identity (pages ! k) \<Longrightarrow> r = ?rows ! k"
      using id that len dist by (metis distinct_map inj_onD nth_mem)
    then show ?thesis unfolding row_def using id that len by (intro the_equality) auto
  qed
  have all: "map row pages = ?rows" using row len by (intro nth_equalityI) auto
  have member: "row p \<in> set ?rows \<and> item_identity ts (row p) = page_identity p" if "p \<in> set pages" for p
  proof -
    from that obtain k where k: "k < length pages" "p = pages ! k" by (metis in_set_conv_nth)
    have "item_identity ts (?rows ! k) = page_identity (pages ! k)" using ids k(1) len by (metis nth_map)
    then show ?thesis using row k len by simp
  qed
  have cat: "concat ?ws = pages" using assms(5) by (rule control_windows_concat)
  have plan: "window_plan ts ident b w = Inr \<lparr>sl_id = ident, sl_pages = map (row_page ts) (map row w),
      sl_owners = db_owners b, sl_producer_events = db_ready_events b\<rparr>" if "w \<in> set ?ws" for w
  proof (rule window_plan_rows [OF assms(1,2) dist])
    have "set w \<subseteq> set (concat ?ws)" using that by auto
    then have "set w \<subseteq> set pages" unfolding cat .
    then have "row p \<in> set ?rows \<and> item_identity ts (row p) = page_identity p" if "p \<in> set w" for p
      using member that by blast
    then show "list_all2 (\<lambda>p r. r \<in> set ?rows \<and> item_identity ts r = page_identity p) w (map row w)"
      by (simp add: list_all2_conv_all_nth)
  qed
  then have "mapR (window_plan ts ident b) ?ws = Inr (map (\<lambda>w. \<lparr>sl_id = ident,
      sl_pages = map (row_page ts) (map row w), sl_owners = db_owners b,
      sl_producer_events = db_ready_events b\<rparr>) ?ws)" by (rule mapR_map)
  moreover have "concat (map (\<lambda>w. map (row_page ts) (map row w)) ?ws) = map (row_page ts) ?rows"
  proof -
    have "concat (map (\<lambda>w. map (row_page ts) (map row w)) ?ws) = map (row_page ts) (map row (concat ?ws))"
      by (simp add: map_concat comp_def)
    then show ?thesis by (simp only: cat all)
  qed
  ultimately show ?thesis
    using build_plan_aligned [OF assms(1,2), of ts ident] by (simp add: comp_def list_all_iff)
qed

section \<open>Merging\<close>

lemma merge_owners_props:
  "distinct owners \<Longrightarrow> distinct (merge_owners owners new) \<and> set (merge_owners owners new) = set owners \<union> set new"
  unfolding merge_owners_def
  by (induction new arbitrary: owners) auto

lemma merge_all_owners:
  "distinct owners \<Longrightarrow> distinct (fold (\<lambda>b os. merge_owners os (db_owners b)) bs owners) \<and>
     set (fold (\<lambda>b os. merge_owners os (db_owners b)) bs owners) = set owners \<union> (\<Union>b \<in> set bs. set (db_owners b))"
  by (induction bs arbitrary: owners) (auto simp: merge_owners_props)

lemma rows_concat:
  assumes "\<forall>b \<in> set bs. batch_aligned b"
  shows "zip (concat (map db_keys bs)) (zip (concat (map db_ptrs bs))
      (zip (concat (map db_sizes bs)) (concat (map db_ranges bs)))) = concat (map batch_rows bs) \<and>
    length (concat (map db_ptrs bs)) = length (concat (map db_keys bs)) \<and>
    length (concat (map db_sizes bs)) = length (concat (map db_keys bs)) \<and>
    length (concat (map db_ranges bs)) = length (concat (map db_keys bs))"
  using assms by (induction bs) (auto simp: batch_aligned_def batch_rows_def)

text \<open>Joining deferred batches keeps every row in order under the final fences, holds every owner
  exactly once, and ends each group at the greatest end of its batches; batches of different requests
  are refused.\<close>

theorem merge_batches_exact:
  assumes "merge_deferred_remote_fill_batches bs ready_events = Inr m" "\<forall>b \<in> set bs. batch_aligned b"
  shows "batch_aligned m \<and> batch_rows m = concat (map batch_rows bs) \<and>
    distinct (db_owners m) \<and> set (db_owners m) = (\<Union>b \<in> set bs. set (db_owners b)) \<and>
    db_ready_events m = ready_events \<and> db_ready_event m = Some (last ready_events) \<and>
    (\<forall>b \<in> set bs. db_req_id b = db_req_id m) \<and>
    (\<forall>g. group_end (db_group_ends m) g =
       Max (insert 0 {e. \<exists>b \<in> set bs. (g, e) \<in> set (db_group_ends b)}))"
proof -
  have c: "\<not> (bs = [] \<or> ready_events = [])"
    by (rule ccontr) (use assms(1) in \<open>simp add: merge_deferred_remote_fill_batches_def\<close>)
  have r: "\<not> list_ex (\<lambda>b. db_req_id b \<noteq> db_req_id (hd bs)) bs"
    by (rule ccontr) (use assms(1) c in \<open>simp add: merge_deferred_remote_fill_batches_def Let_def\<close>)
  then have req: "\<forall>b \<in> set bs. db_req_id b = db_req_id (hd bs)" by (simp add: list_ex_iff)
  have m: "m = \<lparr>db_req_id = db_req_id (hd bs),
          db_keys = concat (map db_keys bs), db_ptrs = concat (map db_ptrs bs),
          db_sizes = concat (map db_sizes bs),
          db_owners = fold (\<lambda>b owners. merge_owners owners (db_owners b)) bs [],
          db_ready_event = Some (last ready_events),
          db_group_ends = fold (\<lambda>b ends. fold raise_end (db_group_ends b) ends) bs [],
          db_ranges = concat (map db_ranges bs), db_ready_events = ready_events\<rparr>"
    using assms(1) c r by (simp add: merge_deferred_remote_fill_batches_def Let_def)
  have "group_end (db_group_ends m) g = Max (insert 0 {e. \<exists>b \<in> set bs. (g, e) \<in> set (db_group_ends b)})" for g
  proof -
    have "set (map snd (filter (\<lambda>x. fst x = g) (concat (map db_group_ends bs)))) =
        {e. \<exists>b \<in> set bs. (g, e) \<in> set (db_group_ends b)}" by force
    moreover have "group_end [] g = 0" by (simp add: group_end_def)
    ultimately show ?thesis by (simp add: m fold_concat group_end_fold fold_max del: set_map set_filter)
  qed
  moreover have "batch_aligned m \<and> batch_rows m = concat (map batch_rows bs)"
    using rows_concat [OF assms(2)] unfolding m batch_aligned_def batch_rows_def by simp
  ultimately show ?thesis using merge_all_owners [of "[]" bs] req by (simp add: m)
qed

section \<open>A concrete batch\<close>

definition example_row_key :: "string \<Rightarrow> int \<Rightarrow> cache_key" where
  "example_row_key name g = \<lparr>ck_model_name = name, ck_world_size = 1, ck_worker_id = 0,
     ck_chunk_hash = HashI 1, ck_dtype = \<lparr>dt_name = ''int8'', dt_itemsize = 1\<rparr>, ck_request_configs = [],
     ck_kv_group = g, ck_tags = []\<rparr>"

definition example_batch :: page_batch where
  "example_batch = \<lparr>db_req_id = ''r'', db_keys = [example_row_key ''a'' 0, example_row_key ''a'' 1, example_row_key ''b'' 0],
     db_ptrs = [[10], [20], [30]], db_sizes = [[4], [2], [4]], db_owners = [7, 8], db_ready_event = Some 1,
     db_group_ends = [(0, 8), (1, 4)], db_ranges = [(0, 4), (0, 4), (4, 8)], db_ready_events = [1]\<rparr>"

definition example_control :: "string \<Rightarrow> int \<Rightarrow> control_page" where
  "example_control key g = \<lparr>cp_canonical_key = key, cp_kv_group = g, cp_chunk_index = 0, cp_chunk_start = 0,
     cp_chunk_end = 4, cp_valid_tokens = 4, cp_expected_bytes = 4, cp_destination_tp_rank = 0,
     cp_layer_count = 1, cp_layout_tag = ''tag''\<rparr>"

lemmas example_batch_defs = example_batch_def example_control_def example_row_key_def batch_rows_def
  batch_aligned_def item_identity_def page_identity_def item_end_def

theorem select_pages_exact_witness:
  "\<exists>b'. select_remote_fill_batch_pages ck_model_name example_batch
      [example_control ''b'' 0, example_control ''a'' 0] = Inr b' \<and>
    length (batch_rows b') = 2 \<and> group_end (db_group_ends b') 0 = 8"
proof -
  have "select_remote_fill_batch_pages ck_model_name example_batch
      [example_control ''b'' 0, example_control ''a'' 0] = Inr
      \<lparr>db_req_id = ''r'', db_keys = [example_row_key ''b'' 0, example_row_key ''a'' 0],
       db_ptrs = [[30], [10]], db_sizes = [[4], [4]], db_owners = [7, 8], db_ready_event = Some 1,
       db_group_ends = [(0, 8)], db_ranges = [(4, 8), (0, 4)], db_ready_events = [1]\<rparr>"
    by (simp add: example_batch_defs select_remote_fill_batch_pages_def batch_items_def check_def
        find_source_def py_dict_def raise_end_def)
  from select_pages_exact [OF this] this show ?thesis
    by (simp add: example_batch_defs group_end_def)
qed

theorem windowed_plans_equal_whole_witness:
  "let pages = [example_control ''a'' 0, example_control ''a'' 1, example_control ''b'' 0] in
   \<exists>plans whole. mapR (window_plan ck_model_name 5 example_batch) (control_windows 2 pages) = Inr plans \<and>
     build_remote_fill_source_plan ck_model_name 5 example_batch = Inr whole \<and>
     concat (map sl_pages plans) = sl_pages whole"
proof -
  let ?pages = "[example_control ''a'' 0, example_control ''a'' 1, example_control ''b'' 0]"
  have "batch_aligned example_batch" "db_ready_events example_batch \<noteq> []"
    "map (item_identity ck_model_name) (batch_rows example_batch) = map page_identity ?pages"
    "distinct (map page_identity ?pages)" "0 < (2 :: nat)"
    by (simp_all add: example_batch_defs)
  from windowed_plans_equal_whole [OF this] show ?thesis unfolding Let_def by blast
qed

lemma example_rows: "length (batch_rows example_batch) = 3"
  by (simp add: example_batch_defs)

theorem merge_batches_exact_witness:
  "\<exists>m. merge_deferred_remote_fill_batches [example_batch, example_batch] [4, 9] = Inr m \<and>
     length (batch_rows m) = 6 \<and> distinct (db_owners m) \<and> db_ready_event m = Some 9"
proof -
  obtain m where m: "merge_deferred_remote_fill_batches [example_batch, example_batch] [4, 9] = Inr m"
    by (simp add: merge_deferred_remote_fill_batches_def Let_def)
  have "\<forall>b \<in> set [example_batch, example_batch]. batch_aligned b" by (simp add: example_batch_defs)
  from merge_batches_exact [OF m this] m show ?thesis by (simp add: example_rows)
qed

end
