(* ===== verification/ProducerAdmission.thy ===== *)
theory ProducerAdmission
  imports ProducerSession ProducerMetrics DirectStorePlan
begin

text \<open>
  The state of the producer coordinator (\<open>lmcache_ascend/v1/remote_fill_coordinator.py\<close>) and its
  admission control: the circuit breaker and the budget of queued source bytes and windows.  Locks
  are not modelled: a method that runs under one is one step.  Attributes that are created on first
  use (\<open>_queue_condition\<close>, \<open>_circuit_lock\<close>, \<open>_metrics\<close>, \<open>_executor\<close>) are flags or options.  The
  monotonic clock is a function of the number of readings made before.
\<close>

section \<open>State\<close>

record coordinator_config =
  cg_base :: config
  cg_window_tokens :: int
  cg_breaker_enabled :: bool
  cg_breaker_threshold :: int
  cg_breaker_cooldown :: rat
  cg_open_timeout_ms :: int
  cg_reserve_timeout_ms :: int
  cg_arm_timeout_ms :: int
  cg_finish_timeout_ms :: int
  cg_native_hard_timeout_ms :: rat

text \<open>
  A job is what \<open>submit_probe\<close> and \<open>submit_batch\<close> hand to the executor: the arguments its function
  closes over.  \<open>jb_bytes\<close> is what was charged at admission; a probe's windows have no plan, a
  batch's have one each.
\<close>

record session_context =
  sx_layout :: decoder_layout
  sx_chunk_hash_type :: hash_type
  sx_chunk_hash_bytes :: "int option"
  sx_tp_size :: int
  sx_shared_group1 :: bool

record job =
  jb_req_id :: string
  jb_probe :: bool
  jb_first_window_id :: int
  jb_windows :: "(control_page list \<times> source_plan option) list"
  jb_store_end_hint :: int
  jb_context :: session_context
  jb_has_source_factory :: bool
  jb_generation :: int
  jb_bytes :: int
  jb_previous :: "nat option"

datatype future = Pending job | Finished "window_result list option res"

record request_state =
  rt_handoff :: "handoff option"
  rt_session :: "session option"
  rt_jobs :: "future list"
  rt_futures :: "nat list"
  rt_last_future :: "nat option"
  rt_next_window_id :: int
  rt_source_generation :: int
  rt_queued_bytes :: int
  rt_queued_windows :: int
  rt_terminal :: "terminal_result option"
  rt_disabled_reason :: string
  rt_metrics_started :: bool
  rt_viable_counted :: bool
  rt_active_counted :: bool
  rt_submitted_bytes :: int

definition new_request_state :: request_state where
  "new_request_state = \<lparr>rt_handoff = None, rt_session = None, rt_jobs = [], rt_futures = [],
     rt_last_future = None, rt_next_window_id = 0, rt_source_generation = 0, rt_queued_bytes = 0,
     rt_queued_windows = 0, rt_terminal = None, rt_disabled_reason = [], rt_metrics_started = False,
     rt_viable_counted = False, rt_active_counted = False, rt_submitted_bytes = 0\<rparr>"

record coordinator =
  cd_config :: coordinator_config
  cd_tp_size :: int
  cd_tp_independent :: bool
  cd_reporter_alive :: bool
  cd_has_queue :: bool
  cd_queued_bytes :: int
  cd_has_circuit :: bool
  cd_circuit_failures :: int
  cd_circuit_open_until :: rat
  cd_metrics :: "metrics option"
  cd_has_executor :: bool
  cd_negotiation_cache :: "negotiation_cache option"
  cd_completed :: "(string \<times> terminal_result) list"
  cd_reports :: "string list"
  cd_ticks :: nat

definition make_coordinator :: "coordinator_config \<Rightarrow> int \<Rightarrow> bool \<Rightarrow> bool \<Rightarrow> coordinator" where
  "make_coordinator config tp_size tp_independent alive = \<lparr>cd_config = config, cd_tp_size = tp_size,
     cd_tp_independent = tp_independent, cd_reporter_alive = alive, cd_has_queue = False,
     cd_queued_bytes = 0, cd_has_circuit = False, cd_circuit_failures = 0, cd_circuit_open_until = 0,
     cd_metrics = None, cd_has_executor = False, cd_negotiation_cache = None, cd_completed = [],
     cd_reports = [], cd_ticks = 0\<rparr>"

text \<open>\<open>self.get_metrics()\<close> followed by a method of the metrics; performance logging is off.\<close>

definition metrics_of :: "coordinator \<Rightarrow> metrics" where
  "metrics_of c = (case cd_metrics c of None \<Rightarrow> make_metrics False | Some m \<Rightarrow> m)"

definition count :: "(metrics \<Rightarrow> metrics) \<Rightarrow> coordinator \<Rightarrow> coordinator" where
  "count f c = c\<lparr>cd_metrics := Some (f (metrics_of c))\<rparr>"

section \<open>Circuit breaker\<close>

definition circuit_allows :: "(nat \<Rightarrow> rat) \<Rightarrow> coordinator \<Rightarrow> bool \<times> coordinator" where
  "circuit_allows clock c =
     (if \<not> cg_breaker_enabled (cd_config c) then (True, c)
      else let now = clock (cd_ticks c);
               c1 = c\<lparr>cd_has_circuit := True, cd_ticks := cd_ticks c + 1\<rparr> in
        if now < cd_circuit_open_until c then (False, c1)
        else if cd_circuit_open_until c \<noteq> 0 then
          let c2 = c1\<lparr>cd_circuit_open_until := 0, cd_circuit_failures := 0\<rparr> in
          (True, if cd_metrics c2 = None then c2 else count (set_gauge ''circuit_breaker_state'' 0) c2)
        else (True, c1))"

definition record_failure :: "(nat \<Rightarrow> rat) \<Rightarrow> coordinator \<Rightarrow> coordinator" where
  "record_failure clock c =
     (if \<not> cg_breaker_enabled (cd_config c) then c
      else let failures = cd_circuit_failures c + 1;
               c1 = c\<lparr>cd_has_circuit := True, cd_circuit_failures := failures\<rparr> in
        if failures \<ge> cg_breaker_threshold (cd_config c) then
          count (set_gauge ''circuit_breaker_state'' 1)
            (c1\<lparr>cd_circuit_open_until := clock (cd_ticks c) + cg_breaker_cooldown (cd_config c),
                cd_ticks := cd_ticks c + 1\<rparr>)
        else c1)"

definition record_success :: "coordinator \<Rightarrow> coordinator" where
  "record_success c =
     (if \<not> cd_has_circuit c then c
      else count (set_gauge ''circuit_breaker_state'' 0)
        (c\<lparr>cd_circuit_failures := 0, cd_circuit_open_until := 0\<rparr>))"

section \<open>Queue budget\<close>

definition window_limit :: "coordinator \<Rightarrow> int" where
  "window_limit c = cf_max_inflight_windows_per_request (cg_base (cd_config c))"

definition byte_limit :: "coordinator \<Rightarrow> int" where
  "byte_limit c = cf_max_inflight_bytes (cg_base (cd_config c))"

definition request_limit :: "coordinator \<Rightarrow> int" where
  "request_limit c =
     min (cf_max_bytes_per_request (cg_base (cd_config c))) (byte_limit c * window_limit c)"

definition can_coalesce_final_batch ::
  "request_state \<Rightarrow> int \<Rightarrow> coordinator \<Rightarrow> bool \<times> coordinator" where
  "can_coalesce_final_batch r n c =
     (rt_queued_windows r = window_limit c - 1 \<and> 0 < n \<and> n \<le> byte_limit c \<and>
        rt_queued_bytes r + n \<le> request_limit c \<and> cd_queued_bytes c + n \<le> byte_limit c,
      c\<lparr>cd_has_queue := True\<rparr>)"

definition acquire_queue_capacity ::
  "int \<Rightarrow> int \<Rightarrow> coordinator \<Rightarrow> request_state \<Rightarrow> bool \<times> coordinator \<times> request_state" where
  "acquire_queue_capacity n windows c r =
     (if n < 0 \<or> n > byte_limit c then (False, c, r)
      else let c1 = c\<lparr>cd_has_queue := True\<rparr> in
        if n > request_limit c then (False, c1, r)
        else if rt_queued_windows r + windows > window_limit c \<or>
                rt_queued_bytes r + n > request_limit c \<or> cd_queued_bytes c + n > byte_limit c
        then (False, c1, r)
        else (True,
          count (add_gauge ''inflight_bytes'' n) (count (add_gauge ''inflight_windows'' windows)
            (c1\<lparr>cd_queued_bytes := cd_queued_bytes c + n\<rparr>)),
          r\<lparr>rt_queued_windows := rt_queued_windows r + windows,
            rt_queued_bytes := rt_queued_bytes r + n\<rparr>))"

definition release_queue_capacity ::
  "int \<Rightarrow> int \<Rightarrow> coordinator \<Rightarrow> request_state \<Rightarrow> coordinator \<times> request_state" where
  "release_queue_capacity n windows c r =
     (if \<not> cd_has_queue c then (c, r)
      else (count (add_gauge ''inflight_bytes'' (- n)) (count (add_gauge ''inflight_windows'' (- windows))
              (c\<lparr>cd_queued_bytes := max 0 (cd_queued_bytes c - n)\<rparr>)),
            r\<lparr>rt_queued_windows := max 0 (rt_queued_windows r - windows),
              rt_queued_bytes := max 0 (rt_queued_bytes r - n)\<rparr>))"

end
