(* ===== verification/Coordinator.thy ===== *)
theory Coordinator
  imports ProducerAdmission Effects
begin

text \<open>
  The producer coordinator (\<open>lmcache_ascend/v1/remote_fill_coordinator.py\<close>): admission of a request,
  the jobs it queues, their execution by the worker pool, and the end of a request.  An operation
  works on the coordinator and one request's state.  A job runs as one step, after its predecessor;
  its session is the one of \<open>ProducerSession\<close>.  Log records are left out, and so are the times that
  are only measured with performance logging on.
\<close>

section \<open>Environment\<close>

record coordinator_env =
  ce_clock :: "nat \<Rightarrow> rat"
  ce_random_bits :: "nat \<Rightarrow> int"
  ce_python_hash_seed :: string
  ce_peer :: "string \<Rightarrow> producer_env"
  ce_client_factory :: "(handoff \<Rightarrow> protocol_limits \<Rightarrow> exn option) option"
  ce_executor_error :: "exn option"
  ce_submit_error :: "nat \<Rightarrow> exn option"
  ce_close_timeout :: "nat \<Rightarrow> bool"
  ce_to_string :: "cache_key \<Rightarrow> string"
  ce_source_factory :: "string \<Rightarrow> control_page list \<Rightarrow> source_plan res"
  ce_owner_has_storage :: "nat \<Rightarrow> bool"
  ce_owner_ranges :: "nat list \<Rightarrow> (int \<times> int) list res"
  ce_validate_ranges :: "source_plan \<Rightarrow> (int \<times> int) list \<Rightarrow> exn option"
  ce_prepare_source :: "source_plan \<Rightarrow> prepared_source option res"

type_synonym 'a co_act = "(coordinator \<times> request_state, 'a) act"

definition on_coordinator :: "(coordinator \<Rightarrow> coordinator) \<Rightarrow> unit co_act" where
  "on_coordinator f = writeA (\<lambda>(c, r). (f c, r))"

definition on_request :: "(request_state \<Rightarrow> request_state) \<Rightarrow> unit co_act" where
  "on_request f = writeA (\<lambda>(c, r). (c, f r))"

definition release_capacity :: "int \<Rightarrow> int \<Rightarrow> unit co_act" where
  "release_capacity n windows = writeA (\<lambda>(c, r). release_queue_capacity n windows c r)"

definition acquire_capacity :: "int \<Rightarrow> int \<Rightarrow> bool co_act" where
  "acquire_capacity n windows = (\<lambda>(c, r). case acquire_queue_capacity n windows c r of
     (granted, c1, r1) \<Rightarrow> (Inr granted, (c1, r1)))"

text \<open>\<open>type(error).__name__\<close>\<close>

fun exn_name :: "exn \<Rightarrow> string" where
  "exn_name (ValueError _) = ''ValueError''"
| "exn_name (TypeError _) = ''TypeError''"
| "exn_name (RuntimeError _) = ''RuntimeError''"
| "exn_name (MemoryError _) = ''MemoryError''"
| "exn_name (TimeoutError _) = ''TimeoutError''"
| "exn_name KeyError = ''KeyError''"
| "exn_name IndexError = ''IndexError''"
| "exn_name AttributeError = ''AttributeError''"
| "exn_name AssertionError = ''AssertionError''"
| "exn_name (OverflowError _) = ''OverflowError''"
| "exn_name ReplyLostError = ''ReplyLostError''"
| "exn_name (FatalError _) = ''RemoteFillFatalError''"
| "exn_name (UnsafePageLifecycleError _) = ''UnsafePageLifecycleError''"
| "exn_name LayerPageAdmissionRollbackError = ''LayerPageAdmissionRollbackError''"
| "exn_name NativeExternalPageTransferUnknownError = ''NativeExternalPageTransferUnknownError''"
| "exn_name (CheckpointRestoreMiss _ _) = ''CheckpointRestoreMiss''"
| "exn_name (OtherError name) = name"

definition disable :: "string \<Rightarrow> unit co_act" where
  "disable reason = on_request (\<lambda>r. r\<lparr>rt_disabled_reason := reason\<rparr>)"

definition fail_circuit :: "coordinator_env \<Rightarrow> unit co_act" where
  "fail_circuit env = on_coordinator (record_failure (ce_clock env))"

text \<open>\<open>_latch_fatal\<close>: the weakly held reporter is told the transfer, when it is still alive.\<close>

definition latch_fatal :: "unit co_act" where
  "latch_fatal = (\<lambda>(c, r). case rt_handoff r of
       None \<Rightarrow> (Inl (RuntimeError ''remote-fill fatal state lacks a transfer identity''), (c, r))
     | Some h \<Rightarrow>
         (Inr (), (if cd_reporter_alive c then c\<lparr>cd_reports := cd_reports c @ [ho_transfer_id h]\<rparr> else c, r)))"

section \<open>Admission of a request\<close>

definition reject_source_batch :: "coordinator_env \<Rightarrow> exn \<Rightarrow> unit co_act" where
  "reject_source_batch env e = seqA (disable (exn_name e)) (fail_circuit env)"

definition refuse :: "string \<Rightarrow> bool co_act" where
  "refuse reason = seqA (disable reason) (retA False)"

definition check_circuit :: "coordinator_env \<Rightarrow> bool co_act" where
  "check_circuit env = (\<lambda>(c, r). case circuit_allows (ce_clock env) c of (ok, c1) \<Rightarrow> (Inr ok, (c1, r)))"

definition begin_attempt :: "unit co_act" where
  "begin_attempt = writeA (\<lambda>(c, r).
     if rt_metrics_started r then (count id c, r)
     else (count start_attempt c, r\<lparr>rt_metrics_started := True\<rparr>))"

definition mark_viable :: "coordinator_env \<Rightarrow> unit co_act" where
  "mark_viable env = writeA (\<lambda>(c, r).
     let bits = ce_random_bits env (cd_ticks c) in
     (count (add_gauge ''direct_viable'' 1) (c\<lparr>cd_ticks := cd_ticks c + 1\<rparr>),
      r\<lparr>rt_source_generation := (if bits = 0 then 1 else bits), rt_viable_counted := True\<rparr>))"

definition check_handoff :: "coordinator_env \<Rightarrow> handoff \<Rightarrow> bool co_act" where
  "check_handoff env h =
     bindA (readA fst) (\<lambda>c.
       if \<not> ho_global_te_push h then refuse ''native_not_qualified''
       else if ho_destination_dp_rank h \<ge> ho_destination_dp_size h then refuse ''invalid_dp_mapping''
       else if ho_destination_tp_size h \<noteq> cd_tp_size c \<and> \<not> cd_tp_independent c then
         refuse ''incompatible_tp_mapping''
       else bindA (check_circuit env) (\<lambda>allowed.
         if \<not> allowed then refuse ''circuit_open'' else seqA (mark_viable env) (retA True)))"

definition admit_handoff :: "coordinator_env \<Rightarrow> handoff \<Rightarrow> bool co_act" where
  "admit_handoff env h =
     seqA (on_request (\<lambda>r. r\<lparr>rt_handoff := Some h\<rparr>)) (seqA begin_attempt (check_handoff env h))"

definition prepare_request :: "coordinator_env \<Rightarrow> pyval \<Rightarrow> bool co_act" where
  "prepare_request env request_configs =
     bindA (readA (\<lambda>s. s)) (\<lambda>(c, r).
       if \<not> cf_enable_remote_lmcache_store (cg_base (cd_config c)) then retA False
       else if rt_handoff r \<noteq> None then retA (rt_disabled_reason r = [])
       else case parse_remote_fill_handoff request_configs of
         Inl e \<Rightarrow> (case e of ValueError _ \<Rightarrow> refuse (exn_name e) | _ \<Rightarrow> raiseA e)
       | Inr None \<Rightarrow> refuse ''missing_handoff''
       | Inr (Some h) \<Rightarrow> admit_handoff env h)"

section \<open>Sessions\<close>

definition static_spec_for ::
  "coordinator_env \<Rightarrow> coordinator_config \<Rightarrow> handoff \<Rightarrow> session_context \<Rightarrow> static_spec res" where
  "static_spec_for env g h x =
     (let algorithm = cf_pre_caching_hash_algorithm (cg_base g); layout = sx_layout x in
      bindR (remote_fill_token_hash_identity algorithm (sx_chunk_hash_type x) (sx_chunk_hash_bytes x)) (\<lambda>identity.
      let seed = (if algorithm = ''builtin'' then ce_python_hash_seed env else []) in
      bindR (check (identity \<noteq> ho_token_hash_algorithm h \<or> seed \<noteq> ho_python_hash_seed h)
        (ValueError ''remote-fill token hashing identity changed'')) (\<lambda>_.
      Inr \<lparr>sp_cache_namespace_tag = dl_cache_namespace_tag layout, sp_layout_tag = dl_layout_tag layout,
        sp_model_artifact_id = dl_model_artifact_id layout, sp_chunk_size = dl_chunk_size layout,
        sp_model_layout = ''mla-dsa-layer-page-v3'',
        sp_group_dimensions = [fst (group_dimensions layout), snd (group_dimensions layout)],
        sp_layer_count = dl_num_layers layout, sp_save_only_first_rank = True,
        sp_shared_group1 = sx_shared_group1 x, sp_tp_size = sx_tp_size x,
        sp_dp_size = ho_destination_dp_size h, sp_global_te_push = ho_global_te_push h,
        sp_token_hash_algorithm = identity, sp_python_hash_seed = seed\<rparr>)))"

definition operation_timeouts :: "coordinator_config \<Rightarrow> (string \<times> int) list" where
  "operation_timeouts g = [(''NEGOTIATE'', cg_open_timeout_ms g), (''OPEN'', cg_open_timeout_ms g),
     (''RESERVE_WINDOW'', cg_reserve_timeout_ms g), (''ARM_WINDOW'', cg_arm_timeout_ms g),
     (''REPORT_TRANSFER_COMPLETE'', cg_reserve_timeout_ms g), (''STATUS'', cg_reserve_timeout_ms g),
     (''ABORT'', cg_arm_timeout_ms g), (''FINISH'', cg_finish_timeout_ms g)]"

definition make_client :: "coordinator_env \<Rightarrow> coordinator_config \<Rightarrow> handoff \<Rightarrow> unit res" where
  "make_client env g h =
     (case ce_client_factory env of
        Some factory \<Rightarrow>
          (case factory h (build_remote_fill_protocol_limits (cg_base g)) of Some e \<Rightarrow> Inl e | None \<Rightarrow> Inr ())
      | None \<Rightarrow>
          bindR (create_remote_fill_client (ho_control_endpoint h) (operation_timeouts g)) (\<lambda>_. Inr ()))"

definition planned_windows :: "coordinator_config \<Rightarrow> int \<Rightarrow> int res" where
  "planned_windows g hint =
     (if cg_window_tokens g = 0 then Inl (OtherError ''ZeroDivisionError'')
      else Inr ((hint + cg_window_tokens g - 1) div cg_window_tokens g))"

text \<open>The negotiation cache is shared: a session is run on the coordinator's current one.\<close>

definition create_session ::
  "coordinator_env \<Rightarrow> string \<Rightarrow> int \<Rightarrow> session_context \<Rightarrow> session co_act" where
  "create_session env req_id hint x =
     bindA (readA (\<lambda>s. s)) (\<lambda>(c, r).
       case rt_handoff r of
         None \<Rightarrow> raiseA (RuntimeError ''remote-fill handoff is unavailable'')
       | Some h \<Rightarrow>
           bindA (liftA (descriptor_verification_key h)) (\<lambda>secret.
           bindA (liftA (static_spec_for env (cd_config c) h x)) (\<lambda>spec.
           bindA (liftA (make_client env (cd_config c) h)) (\<lambda>_.
           bindA (liftA (planned_windows (cd_config c) hint)) (\<lambda>windows.
           bindA (case cd_negotiation_cache c of
               Some nc \<Rightarrow> retA nc
             | None \<Rightarrow> bindA (liftA (make_negotiation_cache 128)) (\<lambda>nc.
                 seqA (on_coordinator (\<lambda>c. c\<lparr>cd_negotiation_cache := Some nc\<rparr>)) (retA nc))) (\<lambda>nc.
           bindA (liftA (make_session (ce_peer env req_id) req_id h spec secret windows hint
               (cg_native_hard_timeout_ms (cd_config c) / 1000) (Some nc))) (\<lambda>session.
           seqA (if rt_active_counted r then retA ()
                 else seqA (on_coordinator (count (add_gauge ''active_transactions'' 1)))
                   (on_request (\<lambda>r. r\<lparr>rt_active_counted := True\<rparr>)))
             (retA session))))))))"

definition run_session :: "'a ps_act \<Rightarrow> 'a co_act" where
  "run_session m = (\<lambda>(c, r). case rt_session r of
       None \<Rightarrow> (Inl AttributeError, (c, r))
     | Some s \<Rightarrow>
         (case m (s\<lparr>ps_cache := cd_negotiation_cache c\<rparr>) of (result, t) \<Rightarrow>
           (result, (c\<lparr>cd_negotiation_cache := ps_cache t\<rparr>, r\<lparr>rt_session := Some t\<rparr>))))"

text \<open>\<open>if state.session is None: state.session = self._create_session(...)\<close>\<close>

definition ensure_session ::
  "coordinator_env \<Rightarrow> string \<Rightarrow> int \<Rightarrow> session_context \<Rightarrow> session co_act" where
  "ensure_session env req_id hint x =
     bindA (readA (\<lambda>(c, r). rt_session r)) (\<lambda>session.
       case session of
         Some s \<Rightarrow> retA s
       | None \<Rightarrow> bindA (create_session env req_id hint x) (\<lambda>s.
           seqA (on_request (\<lambda>r. r\<lparr>rt_session := Some s\<rparr>)) (retA s)))"

section \<open>Sources of a prefix window\<close>

text \<open>
  \<open>prepare_sources\<close>: the missing pages are charged, planned and prepared; the proof of an earlier
  window of the same job is reused for the same owners, ranges and events.  A window calls it at most
  once, so the session's environment answers with its result and the job accounts for the call from
  the recorded event.
\<close>

type_synonym source_identity = "nat list \<times> (int \<times> int) list \<times> nat list"
type_synonym source_cache = "(prepared_source \<times> source_identity option) option"

definition source_identity_of ::
  "coordinator_env \<Rightarrow> bool \<Rightarrow> source_plan \<Rightarrow> source_identity option res" where
  "source_identity_of env many plan =
     (if many \<and> sl_owners plan \<noteq> [] \<and> list_all (ce_owner_has_storage env) (sl_owners plan) then
        bindR (ce_owner_ranges env (sl_owners plan)) (\<lambda>ranges.
          Inr (Some (sl_owners plan, ranges, sl_producer_events plan)))
      else Inr None)"

definition prepared_plan ::
  "coordinator_env \<Rightarrow> bool \<Rightarrow> source_cache \<Rightarrow> source_plan \<Rightarrow> prepared_source option res \<times> source_cache" where
  "prepared_plan env many cache plan =
     (case source_identity_of env many plan of
        Inl e \<Rightarrow> (Inl e, cache)
      | Inr identity \<Rightarrow>
          (case (identity, cache) of
             (Some i, Some (px, Some j)) \<Rightarrow>
               if i = j then
                 ((case ce_validate_ranges env plan (fst (snd i)) of
                     Some e \<Rightarrow> Inl e
                   | None \<Rightarrow> Inr (Some (px\<lparr>px_source_plan := plan, px_event_wait_ms := 0,
                        px_registration_ms := 0\<rparr>))), cache)
               else (ce_prepare_source env plan,
                 (case ce_prepare_source env plan of
                    Inr (Some q) \<Rightarrow> if sl_id (px_source_plan q) = sl_id plan then Some (q, identity) else cache
                  | _ \<Rightarrow> cache))
           | _ \<Rightarrow> (ce_prepare_source env plan,
                 (case ce_prepare_source env plan of
                    Inr (Some q) \<Rightarrow> if sl_id (px_source_plan q) = sl_id plan then Some (q, identity) else cache
                  | _ \<Rightarrow> cache))))"

definition page_bytes_of :: "control_page list \<Rightarrow> int" where
  "page_bytes_of pages = sum_list (map cp_expected_bytes pages)"

definition source_refused :: "coordinator \<times> request_state \<Rightarrow> control_page list \<Rightarrow> bool" where
  "source_refused cr missing =
     (case cr of (c, r) \<Rightarrow> \<not> fst (acquire_queue_capacity (page_bytes_of missing) 0 c r))"

definition prepare_sources ::
  "coordinator_env \<Rightarrow> string \<Rightarrow> bool \<Rightarrow> source_cache \<Rightarrow> coordinator \<times> request_state \<Rightarrow>
   control_page list \<Rightarrow> prepared_source option res \<times> source_cache" where
  "prepare_sources env req_id many cache cr missing =
     (if source_refused cr missing then
        (Inl (RuntimeError ''prefix repair source byte capacity exhausted''), cache)
      else case ce_source_factory env req_id missing of
        Inl e \<Rightarrow> (Inl e, cache)
      | Inr plan \<Rightarrow> prepared_plan env many cache plan)"

text \<open>The pages that the last recorded call of the source factory asked for.\<close>

fun requested_sources :: "pevent list \<Rightarrow> control_page list option" where
  "requested_sources [] = None"
| "requested_sources (MakeSources pages # es) =
     (case requested_sources es of None \<Rightarrow> Some pages | Some p \<Rightarrow> Some p)"
| "requested_sources (_ # es) = requested_sources es"

section \<open>Windows\<close>

definition abandonment_reasons :: "string list" where
  "abandonment_reasons = [''direct destination hole'', ''reservation rejected'', ''producer backpressure'']"

definition record_window_metrics :: "window_result \<Rightarrow> unit co_act" where
  "record_window_metrics w = writeA (\<lambda>(c, r).
     let c1 = count (existing_pages (wr_existing_pages w)) c;
         submitted = wr_submitted_bytes w;
         c2 = (if submitted = 0 then c1 else count (add_bytes ''submitted_bytes'' submitted) c1);
         r2 = (if submitted = 0 then r else r\<lparr>rt_submitted_bytes := rt_submitted_bytes r + submitted\<rparr>)
     in if wr_direct_satisfied w then (c2, r2)
        else let c3 = count (abandon_metric (wr_reason w) (wr_reason w \<in> set abandonment_reasons)) c2
        in (if wr_armed w \<or> wr_reason w = ''native transfer failed''
            then count (failure_metric (wr_reason w)) c3 else c3, r2))"

text \<open>What both kinds of job do with the result of a window; \<open>benign\<close> reasons do not count as failures.\<close>

definition settle_window :: "coordinator_env \<Rightarrow> string list \<Rightarrow> window_result \<Rightarrow> unit co_act" where
  "settle_window env benign w =
     seqA (if wr_direct_satisfied w then retA ()
           else seqA (disable (wr_reason w))
             (if wr_reason w \<in> set benign then retA () else fail_circuit env))
       (record_window_metrics w)"

text \<open>
  One window of a probe job.  With a source factory the window may transfer; the bytes charged by
  the factory are given back when it ends, whatever the outcome (\<open>finally\<close>).  \<open>cr\<close> is the state the
  window started in.
\<close>

definition asked_sources :: "nat \<Rightarrow> request_state \<Rightarrow> control_page list option" where
  "asked_sources seen r =
     (case rt_session r of None \<Rightarrow> None | Some s \<Rightarrow> requested_sources (drop seen (ps_events s)))"

definition charged_bytes :: "coordinator \<times> request_state \<Rightarrow> control_page list option \<Rightarrow> int" where
  "charged_bytes cr asked = (case asked of None \<Rightarrow> 0
     | Some missing \<Rightarrow> if source_refused cr missing then 0 else page_bytes_of missing)"

definition refund :: "int \<Rightarrow> unit co_act" where
  "refund n =
     (if n = 0 then retA ()
      else seqA (bindA (acquire_capacity n 0) (\<lambda>_. retA ())) (release_capacity n 0))"

definition settle_sources ::
  "coordinator_env \<Rightarrow> job \<Rightarrow> source_cache \<Rightarrow> coordinator \<times> request_state \<Rightarrow> window_result res \<Rightarrow>
   control_page list option \<Rightarrow> (window_result \<times> source_cache) co_act" where
  "settle_sources env j cache cr result asked =
     (let refused = (case asked of None \<Rightarrow> False | Some missing \<Rightarrow> source_refused cr missing);
          cache' = (case asked of None \<Rightarrow> cache
            | Some missing \<Rightarrow> snd (prepare_sources env (jb_req_id j) (length (jb_windows j) > 1) cache cr missing))
      in seqA (refund (charged_bytes cr asked))
           (case result of
              Inl e \<Rightarrow> raiseA e
            | Inr w \<Rightarrow> retA (if refused then w\<lparr>wr_reason := ''producer backpressure''\<rparr> else w, cache')))"

definition probe_window_of ::
  "coordinator_env \<Rightarrow> job \<Rightarrow> source_cache \<Rightarrow> int \<Rightarrow> control_page list \<Rightarrow> (window_result \<times> source_cache) co_act" where
  "probe_window_of env j cache window_id pages =
     bindA (readA (\<lambda>s. s)) (\<lambda>(c, r).
       let peer = ce_peer env (jb_req_id j) in
       if \<not> jb_has_source_factory j then
         bindA (run_session (probe_window peer window_id (rt_source_generation r) pages)) (\<lambda>w. retA (w, cache))
       else
         let supply = prepare_sources env (jb_req_id j) (length (jb_windows j) > 1) cache (c, r);
             peer' = peer\<lparr>pe_make_sources := (\<lambda>_ missing. fst (supply missing))\<rparr>;
             seen = (case rt_session r of None \<Rightarrow> 0 | Some s \<Rightarrow> length (ps_events s))
         in bindA (attemptA (run_session (transfer_window peer'
                \<lparr>xa_window_id = window_id, xa_source_generation = rt_source_generation r, xa_pages = pages,
                 xa_plan = None, xa_has_preparer = False, xa_has_factory = True\<rparr>))) (\<lambda>result.
            bindA (readA (\<lambda>(_, r). asked_sources seen r)) (settle_sources env j cache (c, r) result)))"

fun probe_windows ::
  "coordinator_env \<Rightarrow> job \<Rightarrow> source_cache \<Rightarrow> int \<Rightarrow> (control_page list \<times> source_plan option) list \<Rightarrow>
   window_result list co_act" where
  "probe_windows env j cache window_id [] = retA []"
| "probe_windows env j cache window_id ((pages, _) # ws) =
     bindA (probe_window_of env j cache window_id pages) (\<lambda>(w, cache').
     seqA (settle_window env [''cached-prefix hole'', ''producer backpressure''] w)
       (if wr_direct_satisfied w
        then bindA (probe_windows env j cache' (window_id + 1) ws) (\<lambda>rest. retA (w # rest))
        else retA [w]))"

fun batch_windows ::
  "coordinator_env \<Rightarrow> job \<Rightarrow> int \<Rightarrow> (control_page list \<times> source_plan option) list \<Rightarrow>
   window_result list co_act" where
  "batch_windows env j window_id [] = retA []"
| "batch_windows env j window_id ((pages, plan) # ws) =
     (if pages = [] then raiseA (ValueError ''min() iterable argument is empty'')
      else bindA (run_session (transfer_window (ce_peer env (jb_req_id j))
          \<lparr>xa_window_id = window_id, xa_source_generation = jb_generation j, xa_pages = pages,
           xa_plan = plan, xa_has_preparer = True, xa_has_factory = False\<rparr>)) (\<lambda>w.
        seqA (settle_window env [''cached-prefix hole'', ''direct destination hole''] w)
          (if wr_direct_satisfied w
           then bindA (batch_windows env j (window_id + 1) ws) (\<lambda>rest. retA (w # rest))
           else retA [w])))"

section \<open>Jobs\<close>

text \<open>
  The function a job runs, with its exception handlers and its \<open>finally\<close>.  \<open>previous.result()\<close>
  raises the predecessor's exception.
\<close>

definition predecessor_error :: "job \<Rightarrow> request_state \<Rightarrow> exn option" where
  "predecessor_error j r =
     (case jb_previous j of
        None \<Rightarrow> None
      | Some p \<Rightarrow> (case rt_jobs r ! p of Finished (Inl e) \<Rightarrow> Some e | _ \<Rightarrow> None))"

definition job_body :: "coordinator_env \<Rightarrow> job \<Rightarrow> window_result list option co_act" where
  "job_body env j =
     bindA (readA snd) (\<lambda>r.
       case predecessor_error j r of
         Some e \<Rightarrow> raiseA e
       | None \<Rightarrow>
           bindA (ensure_session env (jb_req_id j) (jb_store_end_hint j) (jb_context j)) (\<lambda>session.
             if \<not> ps_direct_viable session then retA None
             else bindA (if jb_probe j then probe_windows env j None (jb_first_window_id j) (jb_windows j)
                         else batch_windows env j (jb_first_window_id j) (jb_windows j))
               (\<lambda>results. retA (Some results))))"

definition drop_session :: "unit co_act" where
  "drop_session = on_request (\<lambda>r. r\<lparr>rt_session := map_option (\<lambda>s. s\<lparr>ps_direct_viable := False\<rparr>) (rt_session r)\<rparr>)"

definition count_both :: "string \<Rightarrow> unit co_act" where
  "count_both reason = on_coordinator (\<lambda>c. count (abandon_metric reason False) (count (failure_metric reason) c))"

definition job_failure :: "coordinator_env \<Rightarrow> job \<Rightarrow> exn \<Rightarrow> window_result list option co_act" where
  "job_failure env j e =
     (if is_fatal e then
        seqA latch_fatal (seqA (if jb_probe j then retA () else count_both ''fatal restart'') (raiseA e))
      else seqA (disable (exn_name e))
        (seqA drop_session
        (seqA (fail_circuit env)
        (seqA (if jb_probe j then retA () else count_both ''prearm failure'') (retA None)))))"

definition run_body :: "coordinator_env \<Rightarrow> job \<Rightarrow> window_result list option co_act" where
  "run_body env j =
     bindA (attemptA (job_body env j)) (\<lambda>result.
     bindA (attemptA (case result of Inl e \<Rightarrow> job_failure env j e | Inr x \<Rightarrow> retA x)) (\<lambda>outcome.
     seqA (release_capacity (jb_bytes j) 1)
       (liftA outcome)))"

text \<open>A worker runs a job whose predecessor has finished; \<open>run_job\<close> stores the future's result.\<close>

definition ready :: "job \<Rightarrow> request_state \<Rightarrow> bool" where
  "ready j r \<longleftrightarrow> (case jb_previous j of None \<Rightarrow> True
     | Some p \<Rightarrow> (case rt_jobs r ! p of Finished _ \<Rightarrow> True | Pending _ \<Rightarrow> False))"

definition run_job :: "coordinator_env \<Rightarrow> nat \<Rightarrow> coordinator \<times> request_state \<Rightarrow> coordinator \<times> request_state" where
  "run_job env i cr =
     (case cr of (c, r) \<Rightarrow>
       if i < length (rt_jobs r) then
         (case rt_jobs r ! i of
            Finished _ \<Rightarrow> (c, r)
          | Pending j \<Rightarrow>
              if ready j r then
                (case run_body env j (c, r) of (result, (c1, r1)) \<Rightarrow>
                  (c1, r1\<lparr>rt_jobs := (rt_jobs r1)[i := Finished result]\<rparr>))
              else (c, r))
       else (c, r))"

section \<open>Submission\<close>

text \<open>\<open>state.futures.append(future); state.last_future = future\<close>, with the job's index as its future.\<close>

definition enqueue :: "coordinator_env \<Rightarrow> job \<Rightarrow> unit co_act" where
  "enqueue env j =
     bindA (readA (\<lambda>s. s)) (\<lambda>(c, r).
       case ce_submit_error env (length (rt_jobs r)) of
         Some e \<Rightarrow>
           seqA (release_capacity (jb_bytes j) 1) (seqA (disable (exn_name e)) (fail_circuit env))
       | None \<Rightarrow> on_request (\<lambda>r. let i = length (rt_jobs r) in
           r\<lparr>rt_jobs := rt_jobs r @ [Pending j], rt_futures := rt_futures r @ [i],
             rt_last_future := Some i\<rparr>))"

definition refuse_pages :: "string \<Rightarrow> string \<Rightarrow> unit co_act" where
  "refuse_pages reason label = seqA (disable reason) (on_coordinator (count (abandon_metric label True)))"

text \<open>The executor is created on first use.\<close>

definition ensure_executor :: "coordinator_env \<Rightarrow> exn option co_act" where
  "ensure_executor env =
     bindA (readA fst) (\<lambda>c.
       if cd_has_executor c then retA None
       else case ce_executor_error env of
         Some e \<Rightarrow> retA (Some e)
       | None \<Rightarrow> seqA (on_coordinator (\<lambda>c. c\<lparr>cd_has_executor := True\<rparr>)) (retA None))"

definition take_window_ids :: "nat \<Rightarrow> int co_act" where
  "take_window_ids n =
     bindA (readA (\<lambda>(c, r). rt_next_window_id r)) (\<lambda>first.
       seqA (on_request (\<lambda>r. r\<lparr>rt_next_window_id := rt_next_window_id r + int n\<rparr>)) (retA first))"

definition queue_probe ::
  "coordinator_env \<Rightarrow> string \<Rightarrow> control_page list list \<Rightarrow> int \<Rightarrow> session_context \<Rightarrow> bool \<Rightarrow> unit co_act" where
  "queue_probe env req_id windows hint x has_factory =
     bindA (take_window_ids (length windows)) (\<lambda>first.
     bindA (readA snd) (\<lambda>r.
       enqueue env \<lparr>jb_req_id = req_id, jb_probe = True, jb_first_window_id = first,
         jb_windows = map (\<lambda>w. (w, None)) windows, jb_store_end_hint = hint, jb_context = x,
         jb_has_source_factory = has_factory, jb_generation = 0, jb_bytes = 0,
         jb_previous = rt_last_future r\<rparr>))"

definition submit_probe ::
  "coordinator_env \<Rightarrow> string \<Rightarrow> control_page list \<Rightarrow> int \<Rightarrow> int \<Rightarrow> session_context \<Rightarrow> bool \<Rightarrow> unit co_act" where
  "submit_probe env req_id pages hint maximum x has_factory =
     bindA (readA snd) (\<lambda>r.
       if pages = [] \<or> rt_handoff r = None then retA ()
       else if maximum \<le> 0 then refuse_pages ''invalid_control_page_limit'' ''invalid control page limit''
       else bindA (ensure_executor env) (\<lambda>failed.
         case failed of
           Some e \<Rightarrow> seqA (disable (exn_name e)) (fail_circuit env)
         | None \<Rightarrow>
             bindA (acquire_capacity 0 1) (\<lambda>granted.
               if \<not> granted then refuse_pages ''producer_backpressure'' ''producer backpressure''
               else queue_probe env req_id (control_windows (nat maximum) pages) hint x has_factory)))"

definition batch_bytes :: "page_batch \<Rightarrow> int" where
  "batch_bytes b = sum_list (map sum_list (db_sizes b))"

text \<open>
  The source plans of a batch, one per window: the batch itself when there is only one window.
  \<open>ident\<close> numbers the new plan objects.
\<close>

definition batch_plans ::
  "coordinator_env \<Rightarrow> nat \<Rightarrow> page_batch \<Rightarrow> control_page list list \<Rightarrow> source_plan list res" where
  "batch_plans env ident b windows =
     (if length windows = 1 then
        bindR (build_remote_fill_source_plan (ce_to_string env) ident b) (\<lambda>plan. Inr [plan])
      else mapR (\<lambda>(k, w). window_plan (ce_to_string env) (ident + k) b w) (enumerate 0 windows))"

definition queue_batch ::
  "coordinator_env \<Rightarrow> nat \<Rightarrow> page_batch \<Rightarrow> int \<Rightarrow> control_page list list \<Rightarrow> session_context \<Rightarrow> unit co_act" where
  "queue_batch env ident b hint windows x =
     (let refuse = (\<lambda>e. seqA (release_capacity (batch_bytes b) 1) (seqA (disable (exn_name e)) (fail_circuit env))) in
      case batch_plans env ident b windows of
        Inl e \<Rightarrow> refuse e
      | Inr plans \<Rightarrow>
          bindA (ensure_executor env) (\<lambda>failed.
            case failed of
              Some e \<Rightarrow> refuse e
            | None \<Rightarrow>
                bindA (take_window_ids (length windows)) (\<lambda>first.
                bindA (readA snd) (\<lambda>r.
                  enqueue env \<lparr>jb_req_id = db_req_id b, jb_probe = False, jb_first_window_id = first,
                    jb_windows = zip windows (map Some plans), jb_store_end_hint = hint, jb_context = x,
                    jb_has_source_factory = False, jb_generation = rt_source_generation r,
                    jb_bytes = batch_bytes b, jb_previous = rt_last_future r\<rparr>))))"

definition submit_batch ::
  "coordinator_env \<Rightarrow> nat \<Rightarrow> page_batch \<Rightarrow> int \<Rightarrow> control_page list \<Rightarrow> int \<Rightarrow> session_context \<Rightarrow> unit co_act" where
  "submit_batch env ident b hint control_pages maximum x =
     (if maximum \<le> 0 then refuse_pages ''invalid_control_page_limit'' ''invalid control page limit''
      else bindA (readA fst) (\<lambda>c.
        bindA (if batch_bytes b > cf_max_bytes_per_request (cg_base (cd_config c)) then retA False
               else acquire_capacity (batch_bytes b) 1) (\<lambda>granted.
          if \<not> granted then refuse_pages ''producer_backpressure'' ''producer backpressure''
          else queue_batch env ident b hint (control_windows (nat maximum) control_pages) x)))"

section \<open>The end of a request\<close>

text \<open>
  Waiting for a future lets the workers run the request's jobs up to it, in order; then its result
  or exception is taken.
\<close>

definition run_until :: "coordinator_env \<Rightarrow> nat \<Rightarrow> coordinator \<times> request_state \<Rightarrow> coordinator \<times> request_state" where
  "run_until env i cr = fold (run_job env) [0..<Suc i] cr"

definition future_result :: "nat \<Rightarrow> request_state \<Rightarrow> window_result list option res" where
  "future_result i r = (case rt_jobs r ! i of Finished x \<Rightarrow> x | Pending _ \<Rightarrow> Inr None)"

definition await_future :: "coordinator_env \<Rightarrow> nat \<Rightarrow> unit co_act" where
  "await_future env i =
     seqA (writeA (run_until env i))
       (bindA (readA (\<lambda>(c, r). future_result i r)) (\<lambda>x. bindA (liftA x) (\<lambda>_. retA ())))"

text \<open>\<open>while state.futures: state.futures.popleft().result()\<close>\<close>

fun wait_futures :: "coordinator_env \<Rightarrow> nat list \<Rightarrow> unit co_act" where
  "wait_futures env [] = retA ()"
| "wait_futures env (i # is) =
     seqA (on_request (\<lambda>r. r\<lparr>rt_futures := is\<rparr>)) (seqA (await_future env i) (wait_futures env is))"

text \<open>\<open>except RemoteFillFatalError: self._latch_fatal(state); raise\<close>\<close>

definition latching :: "'a co_act \<Rightarrow> 'a co_act" where
  "latching m = bindA (attemptA m) (\<lambda>r. case r of
       Inr x \<Rightarrow> retA x
     | Inl e \<Rightarrow> if is_fatal e then seqA latch_fatal (raiseA e) else raiseA e)"

definition wait_request :: "coordinator_env \<Rightarrow> unit co_act" where
  "wait_request env = latching (bindA (readA (\<lambda>(c, r). rt_futures r)) (wait_futures env))"

definition terminal_without_session :: "handoff \<Rightarrow> int \<Rightarrow> int \<Rightarrow> terminal_result" where
  "terminal_without_session h stored required =
     \<lparr>tr_transfer_id = ho_transfer_id h, tr_outcome = PERSISTENT_ONLY,
      tr_persistent_common_end = stored, tr_required_store_end = required, tr_direct_satisfied = False\<rparr>"

definition uncount :: "unit co_act" where
  "uncount = writeA (\<lambda>(c, r).
     let (c1, r1) = (if rt_viable_counted r
           then (count (add_gauge ''direct_viable'' (-1)) c, r\<lparr>rt_viable_counted := False\<rparr>) else (c, r))
     in if rt_active_counted r1
        then (count (add_gauge ''active_transactions'' (-1)) c1, r1\<lparr>rt_active_counted := False\<rparr>)
        else (c1, r1))"

definition settle_terminal :: "string \<Rightarrow> terminal_result \<Rightarrow> unit co_act" where
  "settle_terminal req_id t =
     seqA (on_request (\<lambda>r. r\<lparr>rt_terminal := Some t\<rparr>))
    (seqA (writeA (\<lambda>(c, r). (count (finish_attempt (outcome_value (tr_outcome t))
         (if rt_disabled_reason r = [] then ''none'' else rt_disabled_reason r)) c, r)))
    (seqA uncount
    (seqA (writeA (\<lambda>(c, r). (count (add_bytes (if tr_direct_satisfied t then ''published_bytes''
         else ''discarded_bytes'') (rt_submitted_bytes r)) c, r)))
    (seqA (if tr_direct_satisfied t then on_coordinator record_success else retA ())
      (on_coordinator (\<lambda>c. c\<lparr>cd_completed := AList.update req_id t (cd_completed c)\<rparr>))))))"

definition terminal_of :: "coordinator_env \<Rightarrow> string \<Rightarrow> int \<Rightarrow> int \<Rightarrow> handoff \<Rightarrow> terminal_result co_act" where
  "terminal_of env req_id required stored h =
     bindA (readA (\<lambda>s. s)) (\<lambda>(c, r).
       case rt_session r of
         None \<Rightarrow> retA (terminal_without_session h stored required)
       | Some _ \<Rightarrow>
           if cf_chunk_size (cg_base (cd_config c)) = 0 then raiseA (OtherError ''ZeroDivisionError'')
           else run_session (finish_session (ce_peer env req_id) required stored
             (required mod cf_chunk_size (cg_base (cd_config c)))))"

definition finish_waited :: "coordinator_env \<Rightarrow> string \<Rightarrow> int \<Rightarrow> int \<Rightarrow> handoff \<Rightarrow> terminal_result option co_act" where
  "finish_waited env req_id required stored h =
     seqA (wait_request env)
    (seqA (on_coordinator (count id))
    (bindA (latching (terminal_of env req_id required stored h)) (\<lambda>t.
     seqA (if tr_outcome t = FATAL_RESTART then latch_fatal else retA ())
       (seqA (settle_terminal req_id t) (retA (Some t))))))"

definition finish_request_state ::
  "coordinator_env \<Rightarrow> string \<Rightarrow> int \<Rightarrow> int \<Rightarrow> terminal_result option co_act" where
  "finish_request_state env req_id required stored =
     bindA (readA snd) (\<lambda>r.
       case rt_handoff r of
         None \<Rightarrow> retA None
       | Some h \<Rightarrow>
           (case rt_terminal r of
              Some t \<Rightarrow> retA (Some t)
            | None \<Rightarrow> finish_waited env req_id required stored h))"

definition fatal_request :: "request_state \<Rightarrow> bool" where
  "fatal_request r \<longleftrightarrow> map_option tr_outcome (rt_terminal r) = Some FATAL_RESTART \<or>
     (case rt_session r of None \<Rightarrow> False | Some s \<Rightarrow> ps_fatal s)"

definition undone :: "request_state \<Rightarrow> bool" where
  "undone r \<longleftrightarrow> (case rt_last_future r of None \<Rightarrow> False
     | Some i \<Rightarrow> (case rt_jobs r ! i of Pending _ \<Rightarrow> True | Finished _ \<Rightarrow> False))"

definition abort_unfinished :: "coordinator_env \<Rightarrow> string \<Rightarrow> unit co_act" where
  "abort_unfinished env req_id =
     bindA (attemptA (run_session (abort_session (ce_peer env req_id)
         ''prefiller released request before FINISH''))) (\<lambda>x.
       case x of
         Inr _ \<Rightarrow> retA ()
       | Inl e \<Rightarrow> if is_fatal e then seqA latch_fatal (raiseA e) else retA ())"

definition release_request :: "coordinator_env \<Rightarrow> string \<Rightarrow> bool \<Rightarrow> bool co_act" where
  "release_request env req_id persistent_ready =
     bindA (readA snd) (\<lambda>r.
       if fatal_request r then
         seqA latch_fatal (raiseA (FatalError ''cannot release fatal remote-fill request state''))
       else if \<not> persistent_ready \<or> rt_futures r \<noteq> [] \<or> undone r then retA False
       else seqA (case rt_session r of
             None \<Rightarrow> retA ()
           | Some _ \<Rightarrow>
               seqA (if rt_terminal r = None then abort_unfinished env req_id else retA ())
                 (run_session (close_session (ce_peer env req_id))))
         (seqA (if rt_metrics_started r \<and> rt_terminal r = None then
              seqA (on_coordinator (\<lambda>c. count (abandon_metric ''request aborted'' False)
                  (count (finish_attempt ''ABORTED'' ''request aborted'') c)))
             (seqA uncount
               (writeA (\<lambda>(c, r). (count (add_bytes ''discarded_bytes'' (rt_submitted_bytes r)) c, r))))
            else retA ())
           (retA True)))"

text \<open>
  \<open>close\<close> for one request: each future is awaited until the deadline, which the environment may let
  pass while the job is still running.
\<close>

fun close_futures :: "coordinator_env \<Rightarrow> nat list \<Rightarrow> unit co_act" where
  "close_futures env [] = retA ()"
| "close_futures env (i # is) =
     seqA (on_request (\<lambda>r. r\<lparr>rt_futures := is\<rparr>))
       (bindA (readA snd) (\<lambda>r.
          if (case rt_jobs r ! i of Pending _ \<Rightarrow> ce_close_timeout env i | Finished _ \<Rightarrow> False) then
            seqA latch_fatal
              (raiseA (FatalError ''remote-fill producer shutdown exceeded its hard deadline''))
          else seqA (await_future env i) (close_futures env is)))"

definition close_request :: "coordinator_env \<Rightarrow> string \<Rightarrow> unit co_act" where
  "close_request env req_id =
     seqA (bindA (readA (\<lambda>(c, r). rt_futures r)) (close_futures env))
       (bindA (readA snd) (\<lambda>r.
          if fatal_request r then
            seqA latch_fatal (raiseA (FatalError ''cannot close fatal remote-fill producer state''))
          else case rt_session r of
            None \<Rightarrow> retA ()
          | Some _ \<Rightarrow> run_session (close_session (ce_peer env req_id))))"

text \<open>\<open>RemoteFillTerminalResult.as_dict\<close>\<close>

definition as_dict :: "terminal_result \<Rightarrow> (string \<times> pyval) list" where
  "as_dict t = [(''transfer_id'', PStr (tr_transfer_id t)),
     (''outcome'', PStr (outcome_value (tr_outcome t))),
     (''persistent_common_end'', PInt (tr_persistent_common_end t)),
     (''required_store_end'', PInt (tr_required_store_end t))]"

definition drain_terminal_results ::
  "coordinator \<Rightarrow> (string \<times> (string \<times> pyval) list) list \<times> coordinator" where
  "drain_terminal_results c = (map (\<lambda>(k, t). (k, as_dict t)) (cd_completed c), c\<lparr>cd_completed := []\<rparr>)"

section \<open>Several requests\<close>

text \<open>
  The coordinator with the states of all requests, in the order they were created; a request is
  named by its position.  A worker may run any ready job between two calls.
\<close>

type_synonym world = "coordinator \<times> request_state list"

definition at_request :: "nat \<Rightarrow> 'a co_act \<Rightarrow> (world, 'a) act" where
  "at_request k m = (\<lambda>(c, rs).
     if k < length rs then (case m (c, rs ! k) of (x, (c1, r1)) \<Rightarrow> (x, (c1, rs[k := r1])))
     else (Inl IndexError, (c, rs)))"

text \<open>\<open>close\<close>: every request in turn, then the executor.\<close>

fun close_states :: "coordinator_env \<Rightarrow> (nat \<times> string) list \<Rightarrow> (world, unit) act" where
  "close_states env [] = retA ()"
| "close_states env ((k, req_id) # ks) =
     seqA (at_request k (close_request env req_id)) (close_states env ks)"

definition close_coordinator :: "coordinator_env \<Rightarrow> (nat \<times> string) list \<Rightarrow> (world, unit) act" where
  "close_coordinator env ks =
     seqA (close_states env ks) (writeA (\<lambda>(c, rs). (c\<lparr>cd_has_executor := False\<rparr>, rs)))"

datatype call =
    NewRequest
  | Prepare nat pyval
  | RejectSource nat exn
  | CanCoalesce nat int
  | SubmitProbe nat string "control_page list" int int session_context bool
  | SubmitBatch nat nat page_batch int "control_page list" int session_context
  | RunJob nat nat
  | Wait nat
  | Finish nat string int int
  | Release nat string bool
  | Close "(nat \<times> string) list"
  | Drain

definition perform :: "coordinator_env \<Rightarrow> call \<Rightarrow> world \<Rightarrow> world" where
  "perform env x w =
     (case x of
        NewRequest \<Rightarrow> (fst w, snd w @ [new_request_state])
      | Prepare k configs \<Rightarrow> snd (at_request k (prepare_request env configs) w)
      | RejectSource k e \<Rightarrow> snd (at_request k (reject_source_batch env e) w)
      | CanCoalesce k n \<Rightarrow> snd (at_request k (\<lambda>(c, r). case can_coalesce_final_batch r n c of
            (ok, c1) \<Rightarrow> (Inr ok, (c1, r))) w)
      | SubmitProbe k req_id pages hint maximum ctx has_factory \<Rightarrow>
          snd (at_request k (submit_probe env req_id pages hint maximum ctx has_factory) w)
      | SubmitBatch k ident b hint pages maximum ctx \<Rightarrow>
          snd (at_request k (submit_batch env ident b hint pages maximum ctx) w)
      | RunJob k i \<Rightarrow> snd (at_request k (writeA (run_job env i)) w)
      | Wait k \<Rightarrow> snd (at_request k (wait_request env) w)
      | Finish k req_id required stored \<Rightarrow>
          snd (at_request k (finish_request_state env req_id required stored) w)
      | Release k req_id stored \<Rightarrow> snd (at_request k (release_request env req_id stored) w)
      | Close ks \<Rightarrow> snd (close_coordinator env ks w)
      | Drain \<Rightarrow> (snd (drain_terminal_results (fst w)), snd w))"

definition performs :: "coordinator_env \<Rightarrow> call list \<Rightarrow> world \<Rightarrow> world" where
  "performs env calls w = fold (perform env) calls w"

end
