(* ===== verification/CoordinatorQueue.thy ===== *)
theory CoordinatorQueue
  imports Coordinator
begin

text \<open>
  The coordinator's books: which operations leave the queue budget alone, what a charge is carried
  by, and the invariant of a coordinator with many requests: what is charged is what the pending
  jobs hold.
\<close>

section \<open>What leaves the queue alone\<close>

fun pending :: "future list \<Rightarrow> job list" where
  "pending [] = []"
| "pending (Pending j # fs) = j # pending fs"
| "pending (Finished _ # fs) = pending fs"

lemma pending_append [simp]: "pending (fs @ gs) = pending fs @ pending gs"
  by (induction fs rule: pending.induct) auto

definition queue_view where
  "queue_view s = (case s of (c, r) \<Rightarrow>
     (cd_config c, cd_queued_bytes c, rt_queued_bytes r, rt_queued_windows r, rt_jobs r))"

definition nonnegative :: "coordinator \<times> request_state \<Rightarrow> bool" where
  "nonnegative s \<longleftrightarrow> (case s of (c, r) \<Rightarrow>
     0 \<le> cd_queued_bytes c \<and> 0 \<le> rt_queued_bytes r \<and> 0 \<le> rt_queued_windows r)"

definition same_queue :: "coordinator \<times> request_state \<Rightarrow> coordinator \<times> request_state \<Rightarrow> bool" where
  "same_queue s t \<longleftrightarrow> (nonnegative s \<longrightarrow> queue_view t = queue_view s) \<and>
     (cd_has_queue (fst s) \<longrightarrow> cd_has_queue (fst t))"

lemma nonnegative_view: "queue_view t = queue_view s \<Longrightarrow> nonnegative t = nonnegative s"
  by (auto simp: queue_view_def nonnegative_def split: prod.splits)

interpretation sq: frame same_queue
proof unfold_locales
  show "same_queue s s" for s by (simp add: same_queue_def)
  show "same_queue s t \<Longrightarrow> same_queue t u \<Longrightarrow> same_queue s u" for s t u
    unfolding same_queue_def using nonnegative_view by metis
qed

lemma queue_count [simp]:
  "cd_config (count f c) = cd_config c" "cd_has_queue (count f c) = cd_has_queue c"
  "cd_queued_bytes (count f c) = cd_queued_bytes c"
  by (simp_all add: count_def)

lemma queue_circuit [simp]:
  "cd_config (record_failure clock c) = cd_config c" "cd_has_queue (record_failure clock c) = cd_has_queue c"
  "cd_queued_bytes (record_failure clock c) = cd_queued_bytes c"
  "cd_config (record_success c) = cd_config c" "cd_has_queue (record_success c) = cd_has_queue c"
  "cd_queued_bytes (record_success c) = cd_queued_bytes c"
  "cd_config (snd (circuit_allows clock c)) = cd_config c"
  "cd_has_queue (snd (circuit_allows clock c)) = cd_has_queue c"
  "cd_queued_bytes (snd (circuit_allows clock c)) = cd_queued_bytes c"
  by (simp_all add: record_failure_def record_success_def circuit_allows_def Let_def)

lemma sq_state: "(\<And>s. queue_view (snd (m s)) = queue_view s \<and>
    cd_has_queue (fst (snd (m s))) = cd_has_queue (fst s)) \<Longrightarrow> sq.keeps m"
  by (simp add: sq.keeps_def same_queue_def)

lemma sq_updates:
  "(\<And>c. cd_config (f c) = cd_config c \<and> cd_has_queue (f c) = cd_has_queue c \<and>
     cd_queued_bytes (f c) = cd_queued_bytes c) \<Longrightarrow> sq.keeps (on_coordinator f)"
  "(\<And>r. rt_queued_bytes (g r) = rt_queued_bytes r \<and> rt_queued_windows (g r) = rt_queued_windows r \<and>
     rt_jobs (g r) = rt_jobs r) \<Longrightarrow> sq.keeps (on_request g)"
  "sq.keeps latch_fatal" "sq.keeps uncount"
  "sq.keeps (run_session p)" "sq.keeps (record_window_metrics w)"
  by (rule sq_state; auto simp: queue_view_def on_coordinator_def on_request_def writeA_def latch_fatal_def
      uncount_def run_session_def record_window_metrics_def Let_def
      split: prod.splits option.splits)+

lemma sq_circuit: "sq.keeps (check_circuit env)"
  by (rule sq_state) (simp add: queue_view_def check_circuit_def split_beta)

lemma sq_basic:
  "sq.keeps (disable reason)" "sq.keeps (fail_circuit env)" "sq.keeps drop_session"
  "sq.keeps (count_both reason)" "sq.keeps (on_coordinator (count f))"
  "sq.keeps (on_request (\<lambda>r. r\<lparr>rt_session := x\<rparr>))"
  "sq.keeps (on_request (\<lambda>r. r\<lparr>rt_active_counted := b\<rparr>))"
  "sq.keeps (on_coordinator (\<lambda>c. c\<lparr>cd_negotiation_cache := nc\<rparr>))"
  unfolding disable_def fail_circuit_def drop_session_def count_both_def
  by (rule sq_updates; simp)+

lemmas sq_intros = sq.keeps_intros sq_updates(3-6) sq_circuit sq_basic

lemma sq_ensure: "sq.keeps (ensure_session env req_id hint x)"
  unfolding ensure_session_def create_session_def by (intro sq_intros)

lemma sq_settle: "sq.keeps (settle_window env benign w)"
  unfolding settle_window_def by (intro sq_intros)

text \<open>A charge that is granted and given back.\<close>

lemma acquire_view:
  "queue_view (c', r') = queue_view (c, r) \<Longrightarrow>
   fst (acquire_queue_capacity n w c' r') = fst (acquire_queue_capacity n w c r)"
  by (auto simp: queue_view_def acquire_queue_capacity_def Let_def byte_limit_def request_limit_def window_limit_def)

lemma refund_state:
  "cd_has_queue (fst s) \<longrightarrow> cd_has_queue (fst (snd (refund n s)))"
  "n = 0 \<or> fst (acquire_queue_capacity n 0 (fst s) (snd s)) \<Longrightarrow> nonnegative s \<Longrightarrow>
    queue_view (snd (refund n s)) = queue_view s"
  by (cases s; auto simp: refund_def acquire_capacity_def release_capacity_def acquire_queue_capacity_def
      release_queue_capacity_def act_defs queue_view_def nonnegative_def Let_def split: if_splits prod.splits)+

lemma refund_same:
  assumes "same_queue cr s"
  shows "same_queue cr (snd (refund (charged_bytes cr asked) s))"
proof (cases "nonnegative cr")
  case True
  let ?n = "charged_bytes cr asked"
  have v: "queue_view s = queue_view cr" using assms True by (simp add: same_queue_def)
  have "?n = 0 \<or> fst (acquire_queue_capacity ?n 0 (fst cr) (snd cr))"
    by (auto simp: charged_bytes_def source_refused_def split: option.splits prod.splits)
  then have "?n = 0 \<or> fst (acquire_queue_capacity ?n 0 (fst s) (snd s))"
    using acquire_view [of "fst s" "snd s" "fst cr" "snd cr"] v by simp
  from refund_state(2) [OF this] show ?thesis
    using assms v nonnegative_view [OF v] True refund_state(1) [of s] by (simp add: same_queue_def)
next
  case False
  then show ?thesis using assms refund_state(1) [of s] by (simp add: same_queue_def)
qed

lemma settle_sources_same:
  assumes "same_queue cr s"
  shows "same_queue cr (snd (settle_sources env j cache cr result asked s))"
proof -
  obtain x t where t: "refund (charged_bytes cr asked) s = (x, t)" by (metis surj_pair)
  have "snd (settle_sources env j cache cr result asked s) = t"
    using t by (cases x) (auto simp: settle_sources_def Let_def seqA_def bindA_def raiseA_def retA_def
        split: sum.splits)
  then show ?thesis using refund_same [OF assms, of asked] t by simp
qed

lemma sq_probe_window: "sq.keeps (probe_window_of env j cache window_id pages)"
  unfolding sq.keeps_def
proof
  fix s :: "coordinator \<times> request_state"
  obtain c r where s: "s = (c, r)" by fastforce
  show "same_queue s (snd (probe_window_of env j cache window_id pages s))"
  proof (cases "jb_has_source_factory j")
    case False
    have "sq.keeps (bindA (run_session (probe_window (ce_peer env (jb_req_id j)) window_id (rt_source_generation r) pages))
        (\<lambda>w. retA (w, cache)))" by (intro sq_intros)
    then show ?thesis using False unfolding s
      by (simp add: probe_window_of_def bindA_readA Let_def sq.keeps_def)
  next
    case True
    define m where "m = run_session (transfer_window ((ce_peer env (jb_req_id j))\<lparr>pe_make_sources := (\<lambda>_ missing.
      fst (prepare_sources env (jb_req_id j) (length (jb_windows j) > 1) cache (c, r) missing))\<rparr>)
      \<lparr>xa_window_id = window_id, xa_source_generation = rt_source_generation r, xa_pages = pages,
                 xa_plan = None, xa_has_preparer = False, xa_has_factory = True\<rparr>)"
    obtain x t where run: "m (c, r) = (x, t)" by (metis surj_pair)
    have "same_queue s t" using sq_updates(5) run unfolding m_def s by (rule sq.keepsD)
    then show ?thesis
      using True run unfolding s m_def
      by (simp add: probe_window_of_def bindA_readA Let_def bindA_def attemptA_def readA_def settle_sources_same)
  qed
qed

lemma sq_windows:
  "sq.keeps (probe_windows env j cache w ws)" "sq.keeps (batch_windows env j w ws)"
proof (induction ws arbitrary: cache w)
  case Nil
  show "sq.keeps (probe_windows env j cache w [])" "sq.keeps (batch_windows env j w [])" for cache w
    by (simp_all add: sq.keeps_ret)
next
  case (Cons x ws)
  obtain pages plan where x: "x = (pages, plan)" by fastforce
  show "sq.keeps (probe_windows env j cache w (x # ws))" for cache w
    unfolding x probe_windows.simps by (intro sq_intros sq_probe_window sq_settle Cons)
  show "sq.keeps (batch_windows env j w (x # ws))" for cache w
    unfolding x batch_windows.simps by (intro sq_intros sq_settle Cons)
qed

lemma sq_job: "sq.keeps (job_body env j)" "sq.keeps (job_failure env j e)"
  unfolding job_body_def job_failure_def by (intro sq_intros sq_ensure sq_windows)+

section \<open>The accounts of a request\<close>

definition good :: "coordinator \<Rightarrow> request_state \<Rightarrow> bool" where
  "good c r \<longleftrightarrow>
     rt_queued_windows r = int (length (pending (rt_jobs r))) \<and>
     rt_queued_bytes r = sum_list (map jb_bytes (pending (rt_jobs r))) \<and>
     (\<forall>j \<in> set (pending (rt_jobs r)). 0 \<le> jb_bytes j) \<and>
     rt_queued_bytes r \<le> cd_queued_bytes c \<and> cd_queued_bytes c \<le> max 0 (byte_limit c) \<and>
     (pending (rt_jobs r) \<noteq> [] \<longrightarrow> cd_has_queue c \<and> rt_queued_windows r \<le> window_limit c \<and>
        rt_queued_bytes r \<le> request_limit c)"

definition account :: "coordinator \<times> request_state \<Rightarrow> coordinator \<times> request_state \<Rightarrow> bool" where
  "account s t \<longleftrightarrow> (good (fst s) (snd s) \<longrightarrow>
     good (fst t) (snd t) \<and> cd_config (fst t) = cd_config (fst s) \<and>
     (cd_has_queue (fst s) \<longrightarrow> cd_has_queue (fst t)) \<and>
     cd_queued_bytes (fst t) - rt_queued_bytes (snd t) = cd_queued_bytes (fst s) - rt_queued_bytes (snd s))"

interpretation ac: frame account
  by unfold_locales (auto simp: account_def)

lemma limits_config:
  "cd_config c' = cd_config c \<Longrightarrow> byte_limit c' = byte_limit c \<and> window_limit c' = window_limit c \<and>
     request_limit c' = request_limit c"
  by (simp add: byte_limit_def window_limit_def request_limit_def)

lemma good_nonnegative: "good (fst s) (snd s) \<Longrightarrow> nonnegative s"
proof -
  assume g: "good (fst s) (snd s)"
  have "0 \<le> sum_list (map jb_bytes (pending (rt_jobs (snd s))))"
    by (rule sum_list_nonneg) (use g in \<open>auto simp: good_def\<close>)
  then show ?thesis using g by (cases s) (simp add: good_def nonnegative_def)
qed

lemma same_queue_account:
  assumes "same_queue s t"
  shows "account s t"
  unfolding account_def
proof
  assume g: "good (fst s) (snd s)"
  have v: "queue_view t = queue_view s" "cd_has_queue (fst s) \<longrightarrow> cd_has_queue (fst t)"
    using assms good_nonnegative [OF g] by (auto simp: same_queue_def)
  then have c: "cd_config (fst t) = cd_config (fst s)" by (simp add: queue_view_def split: prod.splits)
  show "good (fst t) (snd t) \<and> cd_config (fst t) = cd_config (fst s) \<and>
     (cd_has_queue (fst s) \<longrightarrow> cd_has_queue (fst t)) \<and>
     cd_queued_bytes (fst t) - rt_queued_bytes (snd t) = cd_queued_bytes (fst s) - rt_queued_bytes (snd s)"
    using g v limits_config [OF c] by (simp add: good_def queue_view_def split: prod.splits)
qed

lemma sq_account: "sq.keeps m \<Longrightarrow> ac.keeps m"
  by (simp add: sq.keeps_def ac.keeps_def same_queue_account)

text \<open>A charge that a job is to carry.\<close>

definition charged :: "int \<Rightarrow> coordinator \<times> request_state \<Rightarrow> coordinator \<times> request_state \<Rightarrow> bool" where
  "charged n s t \<longleftrightarrow> (good (fst s) (snd s) \<longrightarrow>
     0 \<le> n \<and> cd_has_queue (fst t) \<and> cd_config (fst t) = cd_config (fst s) \<and>
     cd_queued_bytes (fst t) = cd_queued_bytes (fst s) + n \<and>
     rt_queued_bytes (snd t) = rt_queued_bytes (snd s) + n \<and>
     rt_queued_windows (snd t) = rt_queued_windows (snd s) + 1 \<and> rt_jobs (snd t) = rt_jobs (snd s) \<and>
     rt_queued_windows (snd t) \<le> window_limit (fst s) \<and> rt_queued_bytes (snd t) \<le> request_limit (fst s) \<and>
     cd_queued_bytes (fst t) \<le> byte_limit (fst s))"

lemma acquire_outcome:
  assumes "acquire_capacity n 1 s = (x, t)"
  shows "(x = Inr True \<and> charged n s t) \<or> (x = Inr False \<and> same_queue s t)"
  using assms
  by (cases s) (auto simp: acquire_capacity_def acquire_queue_capacity_def charged_def same_queue_def
      queue_view_def Let_def split: if_splits)

lemma charged_same:
  assumes "charged n s t" "same_queue t u"
  shows "charged n s u"
  unfolding charged_def
proof
  assume g: "good (fst s) (snd s)"
  have "nonnegative t"
    using assms(1) g good_nonnegative [OF g] by (cases t, cases s) (auto simp: charged_def nonnegative_def)
  then have "queue_view u = queue_view t" "cd_has_queue (fst t) \<longrightarrow> cd_has_queue (fst u)"
    using assms(2) by (auto simp: same_queue_def)
  then show "0 \<le> n \<and> cd_has_queue (fst u) \<and> cd_config (fst u) = cd_config (fst s) \<and>
     cd_queued_bytes (fst u) = cd_queued_bytes (fst s) + n \<and>
     rt_queued_bytes (snd u) = rt_queued_bytes (snd s) + n \<and>
     rt_queued_windows (snd u) = rt_queued_windows (snd s) + 1 \<and> rt_jobs (snd u) = rt_jobs (snd s) \<and>
     rt_queued_windows (snd u) \<le> window_limit (fst s) \<and> rt_queued_bytes (snd u) \<le> request_limit (fst s) \<and>
     cd_queued_bytes (fst u) \<le> byte_limit (fst s)"
    using assms(1) g by (auto simp: charged_def queue_view_def split: prod.splits)
qed

lemma charged_release:
  assumes "charged n s t"
  shows "account s (snd (release_capacity n 1 t))"
  unfolding account_def
proof
  assume g: "good (fst s) (snd s)"
  then have nn: "nonnegative s" by (rule good_nonnegative)
  have c: "cd_config (fst (snd (release_capacity n 1 t))) = cd_config (fst s)"
    using assms g by (cases t) (simp add: charged_def release_capacity_def release_queue_capacity_def writeA_def)
  show "good (fst (snd (release_capacity n 1 t))) (snd (snd (release_capacity n 1 t))) \<and>
    cd_config (fst (snd (release_capacity n 1 t))) = cd_config (fst s) \<and>
    (cd_has_queue (fst s) \<longrightarrow> cd_has_queue (fst (snd (release_capacity n 1 t)))) \<and>
    cd_queued_bytes (fst (snd (release_capacity n 1 t))) - rt_queued_bytes (snd (snd (release_capacity n 1 t))) =
      cd_queued_bytes (fst s) - rt_queued_bytes (snd s)"
    using assms g nn limits_config [OF c] c
    by (cases s; cases t) (auto simp: charged_def release_capacity_def release_queue_capacity_def writeA_def
        good_def nonnegative_def)
qed

lemma charged_push:
  assumes "charged n s t" "jb_bytes j = n"
  shows "account s (fst t, (snd t)\<lparr>rt_jobs := rt_jobs (snd t) @ [Pending j], rt_futures := fs, rt_last_future := l\<rparr>)"
  unfolding account_def
proof
  assume g: "good (fst s) (snd s)"
  then have c: "cd_config (fst t) = cd_config (fst s)" using assms by (simp add: charged_def)
  show "good (fst (fst t, (snd t)\<lparr>rt_jobs := rt_jobs (snd t) @ [Pending j], rt_futures := fs, rt_last_future := l\<rparr>))
      (snd (fst t, (snd t)\<lparr>rt_jobs := rt_jobs (snd t) @ [Pending j], rt_futures := fs, rt_last_future := l\<rparr>)) \<and>
    cd_config (fst (fst t, (snd t)\<lparr>rt_jobs := rt_jobs (snd t) @ [Pending j], rt_futures := fs, rt_last_future := l\<rparr>)) =
      cd_config (fst s) \<and>
    (cd_has_queue (fst s) \<longrightarrow> cd_has_queue (fst (fst t, (snd t)\<lparr>rt_jobs := rt_jobs (snd t) @ [Pending j], rt_futures := fs, rt_last_future := l\<rparr>))) \<and>
    cd_queued_bytes (fst (fst t, (snd t)\<lparr>rt_jobs := rt_jobs (snd t) @ [Pending j], rt_futures := fs, rt_last_future := l\<rparr>)) -
      rt_queued_bytes (snd (fst t, (snd t)\<lparr>rt_jobs := rt_jobs (snd t) @ [Pending j], rt_futures := fs, rt_last_future := l\<rparr>)) =
      cd_queued_bytes (fst s) - rt_queued_bytes (snd s)"
    using assms g limits_config [OF c] by (auto simp: charged_def good_def)
qed

section \<open>Jobs and submissions\<close>

lemma run_body_release:
  "\<exists>u x. same_queue s u \<and> run_body env j s = (x, snd (release_capacity (jb_bytes j) 1 u))"
proof -
  obtain x1 u1 where 1: "job_body env j s = (x1, u1)" by (metis surj_pair)
  define m where "m = (case x1 of Inl e \<Rightarrow> job_failure env j e | Inr x \<Rightarrow> retA x)"
  obtain x2 u2 where 2: "m u1 = (x2, u2)" by (metis surj_pair)
  have "sq.keeps m" unfolding m_def by (intro sq.keeps_case_res sq_job sq.keeps_ret)
  then have "same_queue s u2"
    using sq.frame_trans sq.keepsD [OF sq_job(1) 1] sq.keepsD [where m = m, OF _ 2] by blast
  moreover have "run_body env j s = (x2, snd (release_capacity (jb_bytes j) 1 u2))"
    using 1 2 by (cases x2) (simp_all add: run_body_def m_def act_defs release_capacity_def)
  ultimately show ?thesis by blast
qed

lemma pending_finish:
  assumes "i < length fs" "fs ! i = Pending j"
  shows "\<exists>a b. pending fs = a @ j # b \<and> pending (fs[i := Finished x]) = a @ b"
proof -
  have "pending fs = pending (take i fs) @ j # pending (drop (Suc i) fs)"
    using assms by (metis append_Cons append_Nil id_take_nth_drop pending.simps(2) pending_append)
  moreover have "pending (fs[i := Finished x]) = pending (take i fs) @ pending (drop (Suc i) fs)"
    using assms by (simp add: upd_conv_take_nth_drop)
  ultimately show ?thesis by blast
qed

lemma finish_account:
  assumes u: "same_queue s u" and i: "i < length (rt_jobs (snd s))" "rt_jobs (snd s) ! i = Pending j"
    and t: "snd (release_capacity (jb_bytes j) 1 u) = (c, r)"
  shows "account s (c, r\<lparr>rt_jobs := (rt_jobs r)[i := Finished x]\<rparr>)"
  unfolding account_def
proof
  assume g: "good (fst s) (snd s)"
  have v: "queue_view u = queue_view s" "cd_has_queue (fst s) \<longrightarrow> cd_has_queue (fst u)"
    using u good_nonnegative [OF g] by (auto simp: same_queue_def)
  have eqs: "cd_config (fst u) = cd_config (fst s)" "cd_queued_bytes (fst u) = cd_queued_bytes (fst s)"
    "rt_queued_bytes (snd u) = rt_queued_bytes (snd s)"
    "rt_queued_windows (snd u) = rt_queued_windows (snd s)" "rt_jobs (snd u) = rt_jobs (snd s)"
    using v(1) by (auto simp: queue_view_def split: prod.splits)
  obtain a b where ab: "pending (rt_jobs (snd s)) = a @ j # b"
    "pending ((rt_jobs (snd s))[i := Finished x]) = a @ b"
    using pending_finish [OF i] by blast
  have q: "cd_has_queue (fst u)" using g v(2) ab by (simp add: good_def)
  have pos: "\<forall>k \<in> set (a @ j # b). 0 \<le> jb_bytes k" using g ab by (simp add: good_def)
  have nn: "0 \<le> jb_bytes j" "0 \<le> sum_list (map jb_bytes (a @ b))"
    using pos by simp (rule sum_list_nonneg, use pos in auto)
  have bytes: "rt_queued_bytes (snd s) = jb_bytes j + sum_list (map jb_bytes (a @ b))"
    using g ab by (simp add: good_def)
  have wins: "rt_queued_windows (snd s) = 1 + int (length (a @ b))"
    using g ab by (simp add: good_def)
  have le: "rt_queued_bytes (snd s) \<le> cd_queued_bytes (fst s)" using g by (simp add: good_def)
  have cr: "cd_config c = cd_config (fst s)" "cd_has_queue c"
    "cd_queued_bytes c = cd_queued_bytes (fst s) - jb_bytes j"
    "rt_queued_bytes r = sum_list (map jb_bytes (a @ b))" "rt_queued_windows r = int (length (a @ b))"
    "rt_jobs r = rt_jobs (snd s)"
    using t q eqs bytes wins nn le
    by (cases u; simp add: release_capacity_def release_queue_capacity_def writeA_def; auto)+
  show "good (fst (c, r\<lparr>rt_jobs := (rt_jobs r)[i := Finished x]\<rparr>)) (snd (c, r\<lparr>rt_jobs := (rt_jobs r)[i := Finished x]\<rparr>)) \<and>
     cd_config (fst (c, r\<lparr>rt_jobs := (rt_jobs r)[i := Finished x]\<rparr>)) = cd_config (fst s) \<and>
     (cd_has_queue (fst s) \<longrightarrow> cd_has_queue (fst (c, r\<lparr>rt_jobs := (rt_jobs r)[i := Finished x]\<rparr>))) \<and>
     cd_queued_bytes (fst (c, r\<lparr>rt_jobs := (rt_jobs r)[i := Finished x]\<rparr>)) -
       rt_queued_bytes (snd (c, r\<lparr>rt_jobs := (rt_jobs r)[i := Finished x]\<rparr>)) =
     cd_queued_bytes (fst s) - rt_queued_bytes (snd s)"
    using g ab cr nn bytes wins le limits_config [OF cr(1)] by (auto simp: good_def)
qed

lemma run_job_account: "account s (run_job env i s)"
proof -
  obtain c r where s: "s = (c, r)" by fastforce
  show ?thesis
  proof (cases "i < length (rt_jobs r) \<and> (\<exists>j. rt_jobs r ! i = Pending j \<and> ready j r)")
    case True
    then obtain j where j: "i < length (rt_jobs r)" "rt_jobs r ! i = Pending j" "ready j r" by blast
    obtain u x where u: "same_queue s u" "run_body env j s = (x, snd (release_capacity (jb_bytes j) 1 u))"
      using run_body_release by blast
    obtain c1 r1 where 1: "snd (release_capacity (jb_bytes j) 1 u) = (c1, r1)" by (metis surj_pair)
    have "run_job env i s = (c1, r1\<lparr>rt_jobs := (rt_jobs r1)[i := Finished x]\<rparr>)"
      using j u(2) 1 s by (simp add: run_job_def)
    then show ?thesis using finish_account [OF u(1) _ _ 1] j s by simp
  next
    case False
    then have "run_job env i s = s" by (auto simp: run_job_def s split: future.splits)
    then show ?thesis by (simp add: ac.frame_refl)
  qed
qed

lemma charged_refuse:
  assumes "charged n s t" "sq.keeps m"
  shows "account s (snd (seqA (release_capacity n 1) m t))"
proof -
  have "account (snd (release_capacity n 1 t)) (snd (m (snd (release_capacity n 1 t))))"
    by (rule ac.keeps_at [OF sq_account [OF assms(2)]])
  then show ?thesis using charged_release [OF assms(1)] ac.frame_trans
    by (cases t) (fastforce simp: seqA_def bindA_def release_capacity_def writeA_def)
qed

lemma enqueue_account:
  assumes "charged (jb_bytes j) s t"
  shows "account s (snd (enqueue env j t))"
proof (cases "ce_submit_error env (length (rt_jobs (snd t)))")
  case None
  then show ?thesis using charged_push [OF assms refl]
    by (cases t) (simp add: enqueue_def bindA_readA on_request_def writeA_def Let_def)
next
  case (Some e)
  have "sq.keeps (seqA (disable (exn_name e)) (fail_circuit env))" by (intro sq_intros)
  then show ?thesis using charged_refuse [OF assms] Some
    by (cases t) (simp add: enqueue_def bindA_readA)
qed

lemma acquired_account:
  assumes "\<And>s t. charged n s t \<Longrightarrow> account s (snd (f True t))" "ac.keeps (f False)"
  shows "ac.keeps (bindA (acquire_capacity n 1) f)"
  unfolding ac.keeps_def
proof
  fix s
  obtain x t where a: "acquire_capacity n 1 s = (x, t)" by (metis surj_pair)
  from acquire_outcome [OF a] show "account s (snd (bindA (acquire_capacity n 1) f s))"
  proof
    assume "x = Inr True \<and> charged n s t"
    then show ?thesis using assms(1) a by (simp add: bindA_def)
  next
    assume x: "x = Inr False \<and> same_queue s t"
    have "account t (snd (f False t))" by (rule ac.keeps_at [OF assms(2)])
    then show ?thesis using x a same_queue_account ac.frame_trans by (fastforce simp: bindA_def)
  qed
qed

text \<open>Steps between the charge and the job that carries it.\<close>

lemma charged_bind:
  assumes "charged n s t" "sq.keeps m" "\<And>x u. charged n s u \<Longrightarrow> account s (snd (f x u))"
    and "\<And>e u. charged n s u \<Longrightarrow> m t = (Inl e, u) \<Longrightarrow> account s u"
  shows "account s (snd (bindA m f t))"
proof -
  obtain x u where m: "m t = (x, u)" by (metis surj_pair)
  have u: "charged n s u" using charged_same [OF assms(1) sq.keepsD [OF assms(2) m]] .
  show ?thesis using m assms(3) [OF u] assms(4) [OF u] by (cases x) (simp_all add: bindA_def)
qed

lemma sq_submit:
  "sq.keeps (refuse_pages reason label)" "sq.keeps (ensure_executor env)" "sq.keeps (take_window_ids n)"
  unfolding refuse_pages_def ensure_executor_def take_window_ids_def
  by (intro sq_intros sq_updates(1,2); simp)+

lemma no_raise:
  "fst (ensure_executor env t) \<noteq> Inl e" "fst (take_window_ids n t) \<noteq> Inl e" "fst (readA g t) \<noteq> Inl e"
  by (auto simp: ensure_executor_def take_window_ids_def on_coordinator_def on_request_def act_defs
      split: option.splits)

lemma queue_probe_account:
  assumes "charged 0 s t"
  shows "account s (snd (queue_probe env req_id windows hint x has_factory t))"
  unfolding queue_probe_def
  apply (rule charged_bind [OF assms sq_submit(3)])
   apply (rule charged_bind, assumption, rule sq.keeps_read)
    apply (rule enqueue_account, simp)
  using no_raise by (metis fst_conv)+

lemma queue_batch_account:
  assumes "charged (batch_bytes b) s t"
  shows "account s (snd (queue_batch env ident b hint windows x t))"
proof (cases "batch_plans env ident b windows")
  case (Inl e)
  have "sq.keeps (seqA (disable (exn_name e)) (fail_circuit env))" by (intro sq_intros)
  then show ?thesis using charged_refuse [OF assms] Inl by (simp add: queue_batch_def)
next
  case (Inr plans)
  have refused: "sq.keeps (seqA (disable (exn_name e)) (fail_circuit env))" for e by (intro sq_intros)
  have queued: "account s (snd (bindA (take_window_ids (length windows)) (\<lambda>first. bindA (readA snd) (\<lambda>r.
      enqueue env \<lparr>jb_req_id = db_req_id b, jb_probe = False, jb_first_window_id = first,
        jb_windows = zip windows (map Some plans), jb_store_end_hint = hint, jb_context = x,
        jb_has_source_factory = False, jb_generation = rt_source_generation r,
        jb_bytes = batch_bytes b, jb_previous = rt_last_future r\<rparr>)) u))" if "charged (batch_bytes b) s u" for u
    apply (rule charged_bind [OF that sq_submit(3)])
     apply (rule charged_bind, assumption, rule sq.keeps_read)
      apply (rule enqueue_account, simp)
    using no_raise by (metis fst_conv)+
  show ?thesis unfolding queue_batch_def Let_def Inr sum.case
    apply (rule charged_bind [OF assms sq_submit(2)])
    subgoal for y u by (cases y) (simp_all add: queued charged_refuse refused)
    subgoal using no_raise by (metis fst_conv)
    done
qed

lemma submit_account:
  "ac.keeps (submit_probe env req_id pages hint maximum x has_factory)"
  "ac.keeps (submit_batch env ident b hint pages maximum x)"
proof -
  have 1: "ac.keeps (bindA (acquire_capacity 0 1) (\<lambda>granted. if \<not> granted then refuse_pages r l
      else queue_probe env req_id windows hint x has_factory))" for windows r l
    by (rule acquired_account) (simp_all add: queue_probe_account sq_account sq_submit)
  show "ac.keeps (submit_probe env req_id pages hint maximum x has_factory)"
    unfolding submit_probe_def
    by (intro ac.keeps_bind [OF ac.keeps_read] ac.keeps_if ac.keeps_ret ac.keeps_bind [OF sq_account [OF sq_submit(2)]]
        ac.keeps_case_option 1 sq_account [OF sq_submit(1)] ac.keeps_seq sq_account [OF sq_basic(1)]
        sq_account [OF sq_basic(2)])
  have 2: "ac.keeps (bindA (if big then retA False else acquire_capacity (batch_bytes b) 1)
      (\<lambda>granted. if \<not> granted then refuse_pages r l else queue_batch env ident b hint windows x))" for big windows r l
  proof (cases big)
    case True
    then show ?thesis
      by (simp add: ac.keeps_bind [OF ac.keeps_ret, of _ False] bindA_def retA_def)
        (metis sq_account sq_submit(1))
  next
    case False
    have "ac.keeps (bindA (acquire_capacity (batch_bytes b) 1)
      (\<lambda>granted. if \<not> granted then refuse_pages r l else queue_batch env ident b hint windows x))"
      by (rule acquired_account) (simp_all add: queue_batch_account sq_account sq_submit)
    then show ?thesis using False by simp
  qed
  show "ac.keeps (submit_batch env ident b hint pages maximum x)"
    unfolding submit_batch_def
    by (intro ac.keeps_bind [OF ac.keeps_read] ac.keeps_if 2 sq_account [OF sq_submit(1)])
qed

section \<open>Every operation\<close>

lemma run_until_account: "account s (run_until env i s)"
proof -
  have "account s (fold (run_job env) is s)" for "is"
  proof (induction "is" arbitrary: s)
    case (Cons i "is")
    show ?case using ac.frame_trans [OF run_job_account Cons] by simp
  qed (simp add: ac.frame_refl)
  then show ?thesis by (simp only: run_until_def)
qed

lemma await_account: "ac.keeps (await_future env i)"
  unfolding await_future_def
  by (intro ac.keeps_seq ac.keeps_write run_until_account sq_account [OF sq.keeps_bind] sq_intros)

lemma wait_futures_account: "ac.keeps (wait_futures env is)"
proof (induction "is")
  case Nil
  show ?case by (simp add: ac.keeps_ret)
next
  case (Cons i "is")
  have "ac.keeps (on_request (\<lambda>r. r\<lparr>rt_futures := is\<rparr>))" by (rule sq_account, rule sq_updates(2)) simp
  then show ?case unfolding wait_futures.simps by (intro ac.keeps_seq await_account Cons)
qed

lemma latching_account: "ac.keeps m \<Longrightarrow> ac.keeps (latching m)"
  unfolding latching_def by (intro ac.keeps_intros sq_account [OF sq_updates(3)])

lemma wait_account: "ac.keeps (wait_request env)"
  unfolding wait_request_def by (intro latching_account ac.keeps_bind ac.keeps_read wait_futures_account)

lemma admission_account:
  "ac.keeps (prepare_request env configs)" "ac.keeps (reject_source_batch env e)"
  "ac.keeps (\<lambda>(c, r). case can_coalesce_final_batch r n c of (ok, c1) \<Rightarrow> (Inr ok, (c1, r)))"
proof -
  have start: "sq.keeps begin_attempt" and admitted: "sq.keeps (mark_viable env)"
    by (rule sq_state; auto simp: queue_view_def begin_attempt_def mark_viable_def writeA_def Let_def split: if_splits)+
  have handoff: "sq.keeps (on_request (\<lambda>r. r\<lparr>rt_handoff := Some h\<rparr>))" for h by (rule sq_updates(2)) simp
  have refused: "sq.keeps (refuse reason)" for reason unfolding refuse_def by (intro sq_intros)
  have exn: "sq.keeps (case e of ValueError _ \<Rightarrow> refuse (exn_name e) | _ \<Rightarrow> raiseA e)" for e
    by (cases e; simp only: exn.case refuse_def) (intro sq_intros)+
  show "ac.keeps (prepare_request env configs)"
    unfolding prepare_request_def admit_handoff_def check_handoff_def
    by (intro sq_account sq_intros exn handoff refused start admitted)
  show "ac.keeps (reject_source_batch env e)"
    unfolding reject_source_batch_def by (intro sq_account sq_intros)
  show "ac.keeps (\<lambda>(c, r). case can_coalesce_final_batch r n c of (ok, c1) \<Rightarrow> (Inr ok, (c1, r)))"
    by (auto simp: ac.keeps_def account_def can_coalesce_final_batch_def good_def byte_limit_def
        request_limit_def window_limit_def)
qed

lemma settle_account: "ac.keeps (settle_terminal req_id t)"
proof -
  have "sq.keeps (writeA (\<lambda>(c, r). (count (f c r) c, r)))" for f
    by (rule sq_state) (auto simp: queue_view_def writeA_def)
  note w = this
  show ?thesis unfolding settle_terminal_def
    by (intro sq_account sq_intros w) (rule sq_updates, simp add: record_success_def)+
qed


lemma finish_account_request: "ac.keeps (finish_request_state env req_id required stored)"
proof -
  note session = sq_account [OF sq_updates(5)]
  have latch: "ac.keeps latch_fatal" by (rule sq_account [OF sq_updates(3)])
  have count_id: "ac.keeps (on_coordinator (count id))" by (rule sq_account) (rule sq_basic)
  show ?thesis unfolding finish_request_state_def finish_waited_def terminal_of_def
    by (intro ac.keeps_bind ac.keeps_seq ac.keeps_case_option ac.keeps_ret ac.keeps_read ac.keeps_case_prod
        ac.keeps_if ac.keeps_raise wait_account latching_account settle_account session latch count_id)
qed

lemma release_account: "ac.keeps (release_request env req_id stored)"
proof -
  have w: "sq.keeps (writeA (\<lambda>(c, r). (count (f c r) c, r)))" for f
    by (rule sq_state) (auto simp: queue_view_def writeA_def)
  have m: "sq.keeps (on_coordinator (\<lambda>c. count (abandon_metric r b) (count f c)))" for f r b
    by (rule sq_updates(1)) simp
  show ?thesis unfolding release_request_def abort_unfinished_def
    by (intro sq_account sq_intros w m)
qed

lemma close_account: "ac.keeps (close_request env req_id)"
proof -
  have futures: "ac.keeps (close_futures env is)" for "is"
  proof (induction "is")
    case Nil
    show ?case by (simp add: ac.keeps_ret)
  next
    case (Cons i "is")
    have "ac.keeps (on_request (\<lambda>r. r\<lparr>rt_futures := is\<rparr>))" by (rule sq_account, rule sq_updates(2)) simp
    then show ?case unfolding close_futures.simps
      by (intro ac.keeps_seq ac.keeps_bind ac.keeps_read ac.keeps_if await_account Cons ac.keeps_raise
          sq_account [OF sq_updates(3)])
  qed
  show ?thesis unfolding close_request_def
    by (intro ac.keeps_seq ac.keeps_bind ac.keeps_read futures ac.keeps_if ac.keeps_case_option ac.keeps_ret
        ac.keeps_raise sq_account [OF sq_updates(3)] sq_account [OF sq_updates(5)])
qed

section \<open>The books of all requests\<close>

definition entry_ok :: "coordinator \<Rightarrow> request_state \<Rightarrow> bool" where
  "entry_ok c r \<longleftrightarrow>
     rt_queued_windows r = int (length (pending (rt_jobs r))) \<and>
     rt_queued_bytes r = sum_list (map jb_bytes (pending (rt_jobs r))) \<and>
     (\<forall>j \<in> set (pending (rt_jobs r)). 0 \<le> jb_bytes j) \<and>
     (pending (rt_jobs r) \<noteq> [] \<longrightarrow> cd_has_queue c \<and> rt_queued_windows r \<le> window_limit c \<and>
        rt_queued_bytes r \<le> request_limit c)"

definition books :: "world \<Rightarrow> bool" where
  "books w \<longleftrightarrow> cd_queued_bytes (fst w) = sum_list (map rt_queued_bytes (snd w)) \<and>
     cd_queued_bytes (fst w) \<le> max 0 (byte_limit (fst w)) \<and> (\<forall>r \<in> set (snd w). entry_ok (fst w) r)"

lemma entry_nonnegative: "entry_ok c r \<Longrightarrow> 0 \<le> rt_queued_bytes r"
  by (auto simp: entry_ok_def intro!: sum_list_nonneg)

lemma good_entry: "good c r \<longleftrightarrow> entry_ok c r \<and> rt_queued_bytes r \<le> cd_queued_bytes c \<and>
    cd_queued_bytes c \<le> max 0 (byte_limit c)"
  by (auto simp: good_def entry_ok_def)

lemma entry_config:
  "entry_ok c r \<Longrightarrow> cd_config c' = cd_config c \<Longrightarrow> (cd_has_queue c \<longrightarrow> cd_has_queue c') \<Longrightarrow> entry_ok c' r"
  using limits_config [of c' c] by (auto simp: entry_ok_def)

lemma sum_update:
  "k < length xs \<Longrightarrow> sum_list (map f (xs[k := y])) = sum_list (map f xs) - f (xs ! k) + (f y :: int)"
  by (induction xs arbitrary: k) (auto split: nat.split)

lemma part_le_sum:
  assumes "k < length xs" "\<And>x. x \<in> set xs \<Longrightarrow> (0 :: int) \<le> f x"
  shows "f (xs ! k) \<le> sum_list (map f xs)"
  using assms
proof (induction xs arbitrary: k)
  case (Cons x xs)
  show ?case
  proof (cases k)
    case 0
    then show ?thesis using Cons.prems(2) sum_list_nonneg [of "map f xs"] by auto
  next
    case (Suc i)
    then show ?thesis using Cons.IH [of i] Cons.prems(1) Cons.prems(2) [of x] Cons.prems(2) by fastforce
  qed
qed simp

lemma at_request_books:
  assumes m: "ac.keeps m" and b: "books w"
  shows "books (snd (at_request k m w)) \<and> cd_config (fst (snd (at_request k m w))) = cd_config (fst w)"
proof -
  obtain c rs where w: "w = (c, rs)" by fastforce
  show ?thesis
  proof (cases "k < length rs")
    case True
    obtain x c1 r1 where run: "m (c, rs ! k) = (x, (c1, r1))" by (metis surj_pair)
    have e: "entry_ok c (rs ! k)" "\<forall>r \<in> set rs. entry_ok c r" using b True w by (auto simp: books_def)
    have "rt_queued_bytes (rs ! k) \<le> sum_list (map rt_queued_bytes rs)"
      by (rule part_le_sum [OF True]) (use e(2) entry_nonnegative in blast)
    then have "good c (rs ! k)" using b e(1) by (simp add: good_entry books_def w)
    then have a: "good c1 r1" "cd_config c1 = cd_config c" "cd_has_queue c \<longrightarrow> cd_has_queue c1"
      "cd_queued_bytes c1 - rt_queued_bytes r1 = cd_queued_bytes c - rt_queued_bytes (rs ! k)"
      using ac.keepsD [OF m run] by (auto simp: account_def)
    have "\<forall>r \<in> set (rs[k := r1]). entry_ok c1 r"
      using e(2) a entry_config [OF _ a(2,3)] set_update_subset_insert [of rs k r1] by (auto simp: good_entry)
    then have "books (c1, rs[k := r1])"
      using a(1,4) b by (simp add: books_def w good_entry sum_update [OF True])
    then show ?thesis using run True w a(2) by (simp add: at_request_def)
  next
    case False
    then show ?thesis using b w by (simp add: at_request_def)
  qed
qed

lemma close_states_books:
  "books w \<Longrightarrow> books (snd (close_states env ks w)) \<and> cd_config (fst (snd (close_states env ks w))) = cd_config (fst w)"
proof (induction ks arbitrary: w)
  case (Cons x ks)
  obtain k req where x: "x = (k, req)" by fastforce
  obtain y u where 1: "at_request k (close_request env req) w = (y, u)" by (metis surj_pair)
  have "books u \<and> cd_config (fst u) = cd_config (fst w)"
    using at_request_books [OF close_account Cons.prems, of k env req] 1 by simp
  then show ?case using Cons.IH [of u] 1 x by (cases y) (simp_all add: seqA_def bindA_def)
qed (simp add: retA_def)

lemma perform_books:
  assumes "books w"
  shows "books (perform env x w) \<and> cd_config (fst (perform env x w)) = cd_config (fst w)"
proof (cases x)
  case NewRequest
  then show ?thesis using assms
    by (auto simp: perform_def books_def entry_ok_def new_request_state_def)
next
  case Drain
  then show ?thesis using assms
    by (auto simp: perform_def books_def entry_ok_def drain_terminal_results_def byte_limit_def
        window_limit_def request_limit_def)
next
  case (Close ks)
  obtain y u where u: "close_states env ks w = (y, u)" by (metis surj_pair)
  have "books u \<and> cd_config (fst u) = cd_config (fst w)" using close_states_books [OF assms, of env ks] u by simp
  then show ?thesis using u Close
    by (cases y; cases u) (auto simp: perform_def close_coordinator_def seqA_def bindA_def writeA_def books_def
        entry_ok_def byte_limit_def window_limit_def request_limit_def)
next
  case (RunJob k i)
  have "ac.keeps (writeA (run_job env i))" by (rule ac.keeps_write, rule run_job_account)
  then show ?thesis using at_request_books [OF _ assms] RunJob by (simp add: perform_def)
qed (simp_all add: perform_def at_request_books [OF admission_account(1) assms]
      at_request_books [OF admission_account(2) assms] at_request_books [OF admission_account(3) assms]
      at_request_books [OF submit_account(1) assms] at_request_books [OF submit_account(2) assms]
      at_request_books [OF wait_account assms] at_request_books [OF finish_account_request assms]
      at_request_books [OF release_account assms])

lemma performs_books:
  "books w \<Longrightarrow> books (performs env calls w) \<and> cd_config (fst (performs env calls w)) = cd_config (fst w)"
proof (induction calls arbitrary: w)
  case (Cons x calls)
  then show ?case using perform_books [OF Cons.prems, of env x] by (simp add: performs_def)
qed (simp add: performs_def)

end
