(* ===== verification/CoordinatorJobs.thy ===== *)
theory CoordinatorJobs
  imports CoordinatorQueue
begin

text \<open>
  The jobs of a request: they only wait for earlier ones, every unfinished one has a future that is
  still to be awaited, an exception that leaves a job is fatal and has been reported, and waiting
  runs them all.
\<close>

section \<open>What leaves the jobs of a request alone\<close>

definition same_jobs :: "coordinator \<times> request_state \<Rightarrow> coordinator \<times> request_state \<Rightarrow> bool" where
  "same_jobs s t \<longleftrightarrow> rt_jobs (snd t) = rt_jobs (snd s) \<and> rt_futures (snd t) = rt_futures (snd s) \<and>
     rt_last_future (snd t) = rt_last_future (snd s) \<and> rt_terminal (snd t) = rt_terminal (snd s) \<and>
     (rt_handoff (snd s) \<noteq> None \<longrightarrow> rt_handoff (snd t) = rt_handoff (snd s)) \<and>
     cd_reporter_alive (fst t) = cd_reporter_alive (fst s) \<and>
     set (cd_reports (fst s)) \<subseteq> set (cd_reports (fst t)) \<and>
     ((rt_session (snd s) \<noteq> None \<longrightarrow> rt_handoff (snd s) \<noteq> None) \<longrightarrow>
      (rt_session (snd t) \<noteq> None \<longrightarrow> rt_handoff (snd t) \<noteq> None))"

interpretation jk: frame same_jobs
  by unfold_locales (auto simp: same_jobs_def)

lemma jobs_count [simp]:
  "cd_reporter_alive (count f c) = cd_reporter_alive c" "cd_reports (count f c) = cd_reports c"
  by (simp_all add: count_def)

lemma jobs_circuit [simp]:
  "cd_reporter_alive (record_failure clock c) = cd_reporter_alive c"
  "cd_reports (record_failure clock c) = cd_reports c"
  "cd_reporter_alive (record_success c) = cd_reporter_alive c"
  "cd_reports (record_success c) = cd_reports c"
  "cd_reporter_alive (snd (circuit_allows clock c)) = cd_reporter_alive c"
  "cd_reports (snd (circuit_allows clock c)) = cd_reports c"
  by (simp_all add: record_failure_def record_success_def circuit_allows_def Let_def)

lemma jk_state: "(\<And>s. same_jobs s (snd (m s))) \<Longrightarrow> jk.keeps m"
  by (simp add: jk.keeps_def)

lemma jk_updates:
  "(\<And>c. cd_reporter_alive (f c) = cd_reporter_alive c \<and> cd_reports (f c) = cd_reports c) \<Longrightarrow>
     jk.keeps (on_coordinator f)"
  "(\<And>r. rt_jobs (g r) = rt_jobs r \<and> rt_futures (g r) = rt_futures r \<and> rt_last_future (g r) = rt_last_future r \<and>
     rt_handoff (g r) = rt_handoff r \<and> rt_terminal (g r) = rt_terminal r \<and> (rt_session (g r) \<noteq> None \<longrightarrow> rt_session r \<noteq> None)) \<Longrightarrow>
     jk.keeps (on_request g)"
  "jk.keeps latch_fatal" "jk.keeps uncount" "jk.keeps (record_window_metrics w)"
  "jk.keeps (release_capacity n k)" "jk.keeps (acquire_capacity n k)"
  by (rule jk_state; auto simp: same_jobs_def on_coordinator_def on_request_def writeA_def latch_fatal_def
      uncount_def record_window_metrics_def release_capacity_def acquire_capacity_def
      release_queue_capacity_def acquire_queue_capacity_def Let_def split: prod.splits option.splits)+

lemma jk_session: "jk.keeps (run_session p)"
  by (rule jk_state) (auto simp: same_jobs_def run_session_def split: prod.splits option.splits)

lemma jk_circuit: "jk.keeps (check_circuit env)"
  by (rule jk_state) (simp add: same_jobs_def check_circuit_def split_beta)

lemma jk_basic:
  "jk.keeps (disable reason)" "jk.keeps (fail_circuit env)" "jk.keeps drop_session"
  "jk.keeps (count_both reason)" "jk.keeps (on_coordinator (count f))"
  "jk.keeps (on_coordinator (\<lambda>c. c\<lparr>cd_negotiation_cache := nc\<rparr>))"
  "jk.keeps (on_request (\<lambda>r. r\<lparr>rt_active_counted := b\<rparr>))"
  unfolding disable_def fail_circuit_def drop_session_def count_both_def
  by (rule jk_updates; simp)+

lemma jk_refuse: "jk.keeps (refuse reason)"
  unfolding refuse_def by (intro jk.keeps_seq jk.keeps_ret jk_basic)

lemmas jk_intros = jk.keeps_intros jk_updates(3-7) jk_session jk_circuit jk_basic jk_refuse

lemma jk_ensure: "jk.keeps (ensure_session env req_id hint x)"
proof (rule jk_state)
  fix s :: "coordinator \<times> request_state"
  have c: "jk.keeps (create_session env req_id hint x)"
    unfolding create_session_def by (intro jk_intros)
  obtain y t where run: "create_session env req_id hint x s = (y, t)" by (metis surj_pair)
  have st: "same_jobs s t" using c run by (rule jk.keepsD)
  have h: "y = Inr se \<Longrightarrow> rt_handoff (snd s) \<noteq> None" for se
    using run by (cases s) (auto simp: create_session_def bindA_readA raiseA_def split: option.splits)
  show "same_jobs s (snd (ensure_session env req_id hint x s))"
  proof (cases "rt_session (snd s)")
    case (Some se)
    then show ?thesis by (cases s) (simp add: ensure_session_def bindA_readA retA_def jk.frame_refl)
  next
    case None
    then have "ensure_session env req_id hint x s = bindA (create_session env req_id hint x)
        (\<lambda>s. seqA (on_request (\<lambda>r. r\<lparr>rt_session := Some s\<rparr>)) (retA s)) s"
      by (cases s) (simp add: ensure_session_def bindA_readA)
    then show ?thesis using run st h
      by (cases y) (auto simp: bindA_def seqA_def on_request_def writeA_def retA_def same_jobs_def split_beta)
  qed
qed

lemma jk_probe_window: "jk.keeps (probe_window_of env j cache window_id pages)"
  unfolding probe_window_of_def settle_sources_def refund_def Let_def by (intro jk_intros)

lemma jk_windows:
  "jk.keeps (probe_windows env j cache w ws)" "jk.keeps (batch_windows env j w ws)"
proof (induction ws arbitrary: cache w)
  case Nil
  show "jk.keeps (probe_windows env j cache w [])" "jk.keeps (batch_windows env j w [])" for cache w
    by (simp_all add: jk.keeps_ret)
next
  case (Cons x ws)
  obtain pages plan where x: "x = (pages, plan)" by fastforce
  show "jk.keeps (probe_windows env j cache w (x # ws))" for cache w
    unfolding x probe_windows.simps settle_window_def by (intro jk_intros jk_probe_window Cons)
  show "jk.keeps (batch_windows env j w (x # ws))" for cache w
    unfolding x batch_windows.simps settle_window_def by (intro jk_intros Cons)
qed

lemma jk_job: "jk.keeps (job_body env j)" "jk.keeps (job_failure env j e)" "jk.keeps (run_body env j)"
proof -
  show b: "jk.keeps (job_body env j)" and f: "jk.keeps (job_failure env j e)" for e
    unfolding job_body_def job_failure_def by (intro jk_intros jk_ensure jk_windows)+
  show "jk.keeps (run_body env j)" unfolding run_body_def by (intro jk_intros b f)
qed

section \<open>The jobs of a request\<close>

definition linked :: "request_state \<Rightarrow> bool" where
  "linked r \<longleftrightarrow>
     (\<forall>i j. i < length (rt_jobs r) \<longrightarrow> rt_jobs r ! i = Pending j \<longrightarrow>
        (\<forall>p. jb_previous j = Some p \<longrightarrow> p < i)) \<and>
     (\<forall>i \<in> set (rt_futures r). i < length (rt_jobs r)) \<and>
     (\<forall>l. rt_last_future r = Some l \<longrightarrow> l < length (rt_jobs r))"

definition told :: "coordinator \<Rightarrow> request_state \<Rightarrow> bool" where
  "told c r \<longleftrightarrow> (case rt_handoff r of None \<Rightarrow> False
     | Some h \<Rightarrow> cd_reporter_alive c \<longrightarrow> ho_transfer_id h \<in> set (cd_reports c))"

definition tracked :: "coordinator \<Rightarrow> request_state \<Rightarrow> bool" where
  "tracked c r \<longleftrightarrow> linked r \<and> (rt_session r \<noteq> None \<longrightarrow> rt_handoff r \<noteq> None) \<and>
     (\<forall>e. Finished (Inl e) \<in> set (rt_jobs r) \<longrightarrow> is_fatal e \<and> told c r) \<and>
     (map_option tr_outcome (rt_terminal r) = Some FATAL_RESTART \<longrightarrow> told c r)"

definition tracking :: "coordinator \<times> request_state \<Rightarrow> coordinator \<times> request_state \<Rightarrow> bool" where
  "tracking s t \<longleftrightarrow> (tracked (fst s) (snd s) \<longrightarrow> tracked (fst t) (snd t) \<and>
     cd_reporter_alive (fst t) = cd_reporter_alive (fst s) \<and>
     set (cd_reports (fst s)) \<subseteq> set (cd_reports (fst t)))"

interpretation tk: frame tracking
  by unfold_locales (auto simp: tracking_def)

lemma told_mono:
  "told c r \<Longrightarrow> rt_handoff r' = rt_handoff r \<Longrightarrow> cd_reporter_alive c' = cd_reporter_alive c \<Longrightarrow>
   set (cd_reports c) \<subseteq> set (cd_reports c') \<Longrightarrow> told c' r'"
  by (auto simp: told_def split: option.splits)

lemma same_jobs_told: "same_jobs s t \<Longrightarrow> told (fst s) (snd s) \<Longrightarrow> told (fst t) (snd t)"
  by (rule told_mono) (auto simp: same_jobs_def told_def split: option.splits)

lemma same_jobs_tracking: "same_jobs s t \<Longrightarrow> tracking s t"
  using same_jobs_told [of s t] by (simp add: same_jobs_def tracking_def tracked_def linked_def)

lemma jk_tracking: "jk.keeps m \<Longrightarrow> tk.keeps m"
  by (simp add: jk.keeps_def tk.keeps_def same_jobs_tracking)

section \<open>Running a job\<close>

lemma no_handoff_job:
  assumes "tracked c r" "rt_handoff r = None" "\<forall>p. jb_previous j = Some p \<longrightarrow> p < length (rt_jobs r)"
    and "job_body env j (c, r) = (Inl e, t)"
  shows "\<not> is_fatal e"
proof -
  have "\<not> Finished (Inl e') \<in> set (rt_jobs r)" for e' using assms(1,2) by (auto simp: tracked_def told_def)
  then have none: "predecessor_error j r = None"
    using assms(3) by (auto simp: predecessor_error_def split: option.splits future.splits sum.splits)
      (metis nth_mem)
  have "rt_session r = None" using assms(1,2) by (auto simp: tracked_def)
  then have "ensure_session env (jb_req_id j) (jb_store_end_hint j) (jb_context j) (c, r) =
      (Inl (RuntimeError ''remote-fill handoff is unavailable''), (c, r))"
    using assms(2) by (simp add: ensure_session_def create_session_def bindA_readA bindA_def raiseA_def readA_def)
  then show ?thesis using assms(4) none
    by (auto simp: job_body_def bindA_readA bindA_def [of "ensure_session env (jb_req_id j) (jb_store_end_hint j) (jb_context j)"]
        is_fatal_def)
qed

lemma latch_told: "rt_handoff r \<noteq> None \<Longrightarrow> \<exists>c1. latch_fatal (c, r) = (Inr (), (c1, r)) \<and> told c1 r"
  by (auto simp: latch_fatal_def told_def)

lemma job_failure_outcome:
  assumes "job_failure env j e (c, r) = (Inl e', t)" "is_fatal e \<Longrightarrow> rt_handoff r \<noteq> None"
  shows "e' = e \<and> is_fatal e \<and> told (fst t) (snd t)"
proof (cases "is_fatal e")
  case True
  obtain c1 where c1: "latch_fatal (c, r) = (Inr (), (c1, r))" "told c1 r"
    using latch_told assms(2) [OF True] by blast
  have "\<exists>c2. job_failure env j e (c, r) = (Inl e, (c2, r)) \<and>
      cd_reporter_alive c2 = cd_reporter_alive c1 \<and> cd_reports c2 = cd_reports c1"
    using c1(1) True by (simp add: job_failure_def seqA_def bindA_def raiseA_def retA_def count_both_def
        on_coordinator_def writeA_def)
  then show ?thesis using assms(1) True told_mono [OF c1(2)] by auto
next
  case False
  then show ?thesis using assms(1)
    by (auto simp: job_failure_def disable_def drop_session_def fail_circuit_def count_both_def
        on_coordinator_def on_request_def act_defs split: if_splits)
qed

lemma run_body_outcome:
  assumes "tracked c r" "\<forall>p. jb_previous j = Some p \<longrightarrow> p < length (rt_jobs r)"
    and "run_body env j (c, r) = (Inl e, t)"
  shows "is_fatal e \<and> told (fst t) (snd t)"
proof -
  obtain x1 u1 where 1: "job_body env j (c, r) = (x1, u1)" by (metis surj_pair)
  obtain e1 where x1: "x1 = Inl e1"
    using assms(3) 1 by (cases x1) (auto simp: run_body_def act_defs release_capacity_def)
  obtain x2 u2 where 2: "job_failure env j e1 u1 = (x2, u2)" by (metis surj_pair)
  have t: "x2 = Inl e" "t = snd (release_capacity (jb_bytes j) 1 u2)"
    using assms(3) 1 x1 2 by (auto simp: run_body_def act_defs release_capacity_def)
  have "rt_handoff (snd u1) \<noteq> None" if "is_fatal e1"
  proof -
    have "rt_handoff r \<noteq> None" using no_handoff_job [OF assms(1) _ assms(2) 1 [unfolded x1]] that by blast
    then show ?thesis using jk.keepsD [OF jk_job(1) 1] by (simp add: same_jobs_def)
  qed
  then have "is_fatal e \<and> told (fst u2) (snd u2)"
    using job_failure_outcome [of env j e1 "fst u1" "snd u1" e u2] 2 t(1) by simp
  moreover have "same_jobs u2 t" unfolding t(2)
    by (rule jk.keepsD [OF jk_updates(6) prod.collapse [symmetric]])
  ultimately show ?thesis using same_jobs_told by blast
qed

lemma run_job_cases:
  obtains (run) j x c1 r1 where "i < length (rt_jobs (snd s))" "rt_jobs (snd s) ! i = Pending j"
      "ready j (snd s)" "run_body env j s = (x, (c1, r1))"
      "run_job env i s = (c1, r1\<lparr>rt_jobs := (rt_jobs r1)[i := Finished x]\<rparr>)"
  | (skip) "run_job env i s = s"
      "\<And>j. i < length (rt_jobs (snd s)) \<Longrightarrow> rt_jobs (snd s) ! i = Pending j \<Longrightarrow> \<not> ready j (snd s)"
proof -
  obtain c r where s: "s = (c, r)" by fastforce
  show ?thesis
  proof (cases "i < length (rt_jobs r) \<and> (\<exists>j. rt_jobs r ! i = Pending j \<and> ready j r)")
    case True
    then obtain j where j: "i < length (rt_jobs r)" "rt_jobs r ! i = Pending j" "ready j r" by blast
    obtain x c1 r1 where 1: "run_body env j s = (x, (c1, r1))" by (metis surj_pair)
    show ?thesis by (rule run [of j x c1 r1]) (use j 1 s in \<open>simp_all add: run_job_def\<close>)
  next
    case False
    show ?thesis by (rule skip) (use False s in \<open>auto simp: run_job_def split: future.splits\<close>)
  qed
qed


lemma run_job_tracking: "tracking s (run_job env i s)"
proof (cases rule: run_job_cases [of i s env])
  case (run j x c1 r1)
  have same: "same_jobs s (c1, r1)" by (rule jk.keepsD [OF jk_job(3) run(4)])
  let ?r = "r1\<lparr>rt_jobs := (rt_jobs r1)[i := Finished x]\<rparr>"
  have jobs: "rt_jobs r1 = rt_jobs (snd s)" "rt_futures r1 = rt_futures (snd s)"
    "rt_last_future r1 = rt_last_future (snd s)" using same by (simp_all add: same_jobs_def)
  have "tracked c1 ?r" if t: "tracked (fst s) (snd s)"
  proof -
    have r1: "tracked c1 r1" using same_jobs_tracking [OF same] t by (simp add: tracking_def)
    have prev: "\<forall>p. jb_previous j = Some p \<longrightarrow> p < length (rt_jobs (snd s))"
    proof -
      have "\<forall>p. jb_previous j = Some p \<longrightarrow> p < i" using t run(1,2) by (simp add: tracked_def linked_def)
      then show ?thesis using run(1) less_trans by blast
    qed
    have out: "is_fatal e \<and> told c1 r1" if "x = Inl e" for e
      using run_body_outcome [of "fst s" "snd s" j env e "(c1, r1)", OF t prev] run(4) that by simp
    have "linked ?r" using r1 jobs run(1) by (auto simp: tracked_def linked_def nth_list_update split: if_splits)
    moreover have "told c1 ?r = told c1 r1" by (simp add: told_def)
    moreover have "is_fatal e \<and> told c1 r1" if "Finished (Inl e) \<in> set (rt_jobs ?r)" for e
      using that out r1 set_update_subset_insert [of "rt_jobs r1" i "Finished x"] by (auto simp: tracked_def)
    ultimately show ?thesis using r1 by (simp add: tracked_def)
  qed
  then show ?thesis using same run(5) by (simp add: tracking_def same_jobs_def)
next
  case skip
  then show ?thesis by (simp add: tk.frame_refl)
qed

section \<open>Waiting runs every job\<close>

definition finished :: "nat \<Rightarrow> request_state \<Rightarrow> bool" where
  "finished i r \<longleftrightarrow> (\<exists>x. rt_jobs r ! i = Finished x)"

lemma run_job_jobs:
  shows "length (rt_jobs (snd (run_job env i s))) = length (rt_jobs (snd s))"
    and "rt_futures (snd (run_job env i s)) = rt_futures (snd s)"
    and "finished k (snd s) \<Longrightarrow> rt_jobs (snd (run_job env i s)) ! k = rt_jobs (snd s) ! k"
    and "k \<noteq> i \<Longrightarrow> rt_jobs (snd (run_job env i s)) ! k = rt_jobs (snd s) ! k"
proof -
  have "length (rt_jobs (snd (run_job env i s))) = length (rt_jobs (snd s)) \<and>
     rt_futures (snd (run_job env i s)) = rt_futures (snd s) \<and>
     (finished k (snd s) \<or> k \<noteq> i \<longrightarrow> rt_jobs (snd (run_job env i s)) ! k = rt_jobs (snd s) ! k)"
  proof (cases rule: run_job_cases [of i s env])
    case (run j x c1 r1)
    have "rt_jobs r1 = rt_jobs (snd s)" "rt_futures r1 = rt_futures (snd s)"
      using jk.keepsD [OF jk_job(3) run(4)] by (simp_all add: same_jobs_def)
    moreover have "finished k (snd s) \<longrightarrow> k \<noteq> i" using run(2) by (auto simp: finished_def)
    ultimately show ?thesis using run(5) by auto
  qed simp
  then show "length (rt_jobs (snd (run_job env i s))) = length (rt_jobs (snd s))"
    and "rt_futures (snd (run_job env i s)) = rt_futures (snd s)"
    and "finished k (snd s) \<Longrightarrow> rt_jobs (snd (run_job env i s)) ! k = rt_jobs (snd s) ! k"
    and "k \<noteq> i \<Longrightarrow> rt_jobs (snd (run_job env i s)) ! k = rt_jobs (snd s) ! k" by blast+
qed

lemma run_job_finishes:
  assumes "i < length (rt_jobs (snd s))" "\<And>j p. rt_jobs (snd s) ! i = Pending j \<Longrightarrow> jb_previous j = Some p \<Longrightarrow> finished p (snd s)"
  shows "finished i (snd (run_job env i s))"
proof (cases rule: run_job_cases [of i s env])
  case (run j x c1 r1)
  have "rt_jobs r1 = rt_jobs (snd s)"
    using jk.keepsD [OF jk_job(3) run(4)] by (simp add: same_jobs_def)
  then show ?thesis using run(1,5) by (simp add: finished_def)
next
  case skip
  show ?thesis
  proof (cases "rt_jobs (snd s) ! i")
    case (Pending j)
    have "ready j (snd s)" using assms(2) [OF Pending] by (fastforce simp: ready_def finished_def split: option.splits)
    then show ?thesis using skip(2) [OF assms(1) Pending] by blast
  next
    case (Finished x)
    then show ?thesis using skip(1) by (simp add: finished_def)
  qed
qed


definition backward :: "future list \<Rightarrow> bool" where
  "backward fs \<longleftrightarrow> (\<forall>i j p. i < length fs \<longrightarrow> fs ! i = Pending j \<longrightarrow> jb_previous j = Some p \<longrightarrow> p < i)"

lemma run_jobs:
  fixes env :: coordinator_env
  assumes "backward (rt_jobs (snd s))" "n \<le> length (rt_jobs (snd s))"
  defines "t \<equiv> fold (run_job env) [0..<n] s"
  shows "length (rt_jobs (snd t)) = length (rt_jobs (snd s)) \<and> rt_futures (snd t) = rt_futures (snd s) \<and>
    (\<forall>k. finished k (snd s) \<longrightarrow> rt_jobs (snd t) ! k = rt_jobs (snd s) ! k) \<and>
    (\<forall>k < n. finished k (snd t)) \<and> (\<forall>k \<ge> n. rt_jobs (snd t) ! k = rt_jobs (snd s) ! k)"
  using assms(2) unfolding t_def
proof (induction n)
  case (Suc n)
  let ?u = "fold (run_job env) [0..<n] s"
  have ih: "length (rt_jobs (snd ?u)) = length (rt_jobs (snd s)) \<and> rt_futures (snd ?u) = rt_futures (snd s) \<and>
    (\<forall>k. finished k (snd s) \<longrightarrow> rt_jobs (snd ?u) ! k = rt_jobs (snd s) ! k) \<and>
    (\<forall>k < n. finished k (snd ?u)) \<and> (\<forall>k \<ge> n. rt_jobs (snd ?u) ! k = rt_jobs (snd s) ! k)"
    using Suc by simp
  have "finished n (snd (run_job env n ?u))"
  proof (rule run_job_finishes)
    fix j p
    assume "rt_jobs (snd ?u) ! n = Pending j" "jb_previous j = Some p"
    then show "finished p (snd ?u)" using ih assms(1) Suc.prems by (auto simp: backward_def)
  qed (use ih Suc.prems in auto)
  moreover have "finished k (snd (run_job env n ?u))" if "k < n" for k
    using ih that run_job_jobs(3) [of k ?u env n] by (auto simp: finished_def)
  ultimately have "\<forall>k < Suc n. finished k (snd (run_job env n ?u))" using less_Suc_eq by blast
  moreover have "rt_jobs (snd (run_job env n ?u)) ! k = rt_jobs (snd s) ! k" if "finished k (snd s)" for k
    using ih that run_job_jobs(3) [of k ?u env n] by (auto simp: finished_def)
  moreover have "rt_jobs (snd (run_job env n ?u)) ! k = rt_jobs (snd s) ! k" if "k \<ge> Suc n" for k
    using ih that run_job_jobs(4) [of k n env ?u] by simp
  ultimately show ?case using ih by (simp add: run_job_jobs(1,2))
qed simp

lemma run_until_tracking: "tracking s (run_until env i s)"
proof -
  have "tracking s (fold (run_job env) is s)" for "is"
  proof (induction "is" arbitrary: s)
    case (Cons i "is")
    show ?case using tk.frame_trans [OF run_job_tracking Cons] by simp
  qed (simp add: tk.frame_refl)
  then show ?thesis by (simp only: run_until_def)
qed

lemma linked_backward: "linked r \<Longrightarrow> backward (rt_jobs r)"
  by (auto simp: linked_def backward_def)

text \<open>Every unfinished job has a future that is still to be awaited.\<close>

definition queued :: "request_state \<Rightarrow> bool" where
  "queued r \<longleftrightarrow> (\<forall>i < length (rt_jobs r). finished i r \<or> i \<in> set (rt_futures r))"

lemma await_runs:
  assumes "tracked c r" "i < length (rt_jobs r)" "await_future env i (c, r) = (x, t)"
  shows "tracking (c, r) t \<and> length (rt_jobs (snd t)) = length (rt_jobs r) \<and> rt_futures (snd t) = rt_futures r \<and>
    finished i (snd t) \<and> (\<forall>k. finished k r \<longrightarrow> finished k (snd t)) \<and>
    (\<forall>e. x = Inl e \<longrightarrow> is_fatal e \<and> told (fst t) (snd t))"
proof -
  let ?u = "run_until env i (c, r)"
  have b: "backward (rt_jobs r)" using assms(1) by (auto simp: tracked_def linked_backward)
  have j: "length (rt_jobs (snd ?u)) = length (rt_jobs r) \<and> rt_futures (snd ?u) = rt_futures r \<and>
    (\<forall>k. finished k r \<longrightarrow> rt_jobs (snd ?u) ! k = rt_jobs r ! k) \<and> (\<forall>k < Suc i. finished k (snd ?u))"
    using run_jobs [of "(c, r)" "Suc i" env] b assms(2) by (simp only: run_until_def snd_conv) simp
  have out: "t = ?u" "\<And>e. x = Inl e \<Longrightarrow> rt_jobs (snd ?u) ! i = Finished (Inl e)"
    using assms(3) by (auto simp: await_future_def future_result_def seqA_def bindA_def writeA_def readA_def liftA_def
        retA_def split: prod.splits sum.splits future.splits)
  have tr: "tracking (c, r) ?u" by (rule run_until_tracking)
  then have tu: "tracked (fst ?u) (snd ?u)" using assms(1) by (simp add: tracking_def)
  have "is_fatal e \<and> told (fst ?u) (snd ?u)" if "x = Inl e" for e
  proof -
    have "Finished (Inl e) \<in> set (rt_jobs (snd ?u))" using out(2) [OF that] j assms(2) by (metis nth_mem)
    then show ?thesis using tu by (simp add: tracked_def)
  qed
  moreover have "finished k (snd ?u)" if "finished k r" for k using j that by (auto simp: finished_def)
  ultimately show ?thesis using j tr out(1) by simp
qed

lemma pop_await_runs:
  assumes "tracked c r" "rt_futures r = i # is"
    and "seqA (on_request (\<lambda>r. r\<lparr>rt_futures := is\<rparr>)) (await_future env i) (c, r) = (x, t)"
  shows "tracking (c, r) t \<and> rt_futures (snd t) = is \<and> (queued r \<longrightarrow> queued (snd t)) \<and>
    (\<forall>e. x = Inl e \<longrightarrow> is_fatal e \<and> told (fst t) (snd t))"
proof -
  let ?r = "r\<lparr>rt_futures := is\<rparr>"
  have tr: "tracking (c, r) (c, ?r)"
    using assms(1,2) by (auto simp: tracking_def tracked_def linked_def told_def)
  have a: "await_future env i (c, ?r) = (x, t)" using assms(3) by (simp add: on_request_def seqA_def bindA_def writeA_def)
  have "tracked c ?r" "i < length (rt_jobs ?r)"
    using assms(1,2) tr by (simp_all add: tracking_def) (simp add: tracked_def linked_def)
  note 1 = await_runs [OF this a]
  have "finished k (snd t) \<or> k \<in> set is" if "queued r" "k < length (rt_jobs r)" for k
    using 1 that assms(2) by (auto simp: queued_def finished_def)
  then have "queued r \<longrightarrow> queued (snd t)" using 1 by (simp add: queued_def)
  then show ?thesis using 1 tk.frame_trans [OF tr] by auto
qed

lemma wait_futures_runs:
  assumes "tracked c r" "rt_futures r = is" "wait_futures env is (c, r) = (x, t)"
  shows "tracking (c, r) t \<and> (queued r \<longrightarrow> queued (snd t)) \<and> (x = Inr () \<longrightarrow> rt_futures (snd t) = []) \<and>
    (\<forall>e. x = Inl e \<longrightarrow> is_fatal e \<and> told (fst t) (snd t))"
  using assms
proof (induction "is" arbitrary: c r)
  case Nil
  then show ?case by (auto simp: retA_def tk.frame_refl)
next
  case (Cons i "is")
  let ?m = "seqA (on_request (\<lambda>r. r\<lparr>rt_futures := is\<rparr>)) (await_future env i)"
  obtain y u where u: "?m (c, r) = (y, u)" by (metis surj_pair)
  have eq: "wait_futures env (i # is) (c, r) = (case y of Inl e \<Rightarrow> (Inl e, u) | Inr _ \<Rightarrow> wait_futures env is u)"
    using u by (auto simp: seqA_def bindA_def on_request_def writeA_def split: prod.splits sum.splits)
  note 1 = pop_await_runs [OF Cons.prems(1,2) u]
  show ?case
  proof (cases y)
    case (Inl e)
    then show ?thesis using 1 Cons.prems(3) unfolding eq by auto
  next
    case (Inr z)
    obtain c1 r1 where u1: "u = (c1, r1)" by fastforce
    have t1: "tracked c1 r1" using 1 Cons.prems(1) u1 by (simp add: tracking_def)
    have "rt_futures r1 = is" "wait_futures env is (c1, r1) = (x, t)" using 1 Cons.prems(3) u1 Inr unfolding eq by auto
    note 2 = Cons.IH [OF t1 this]
    show ?thesis using 1 2 u1 tk.frame_trans [OF conjunct1 [OF 1], of t] by auto
  qed
qed

lemma latch_when_told:
  "told c r \<Longrightarrow> \<exists>c1. latch_fatal (c, r) = (Inr (), (c1, r)) \<and> told c1 r \<and> tracking (c, r) (c1, r)"
proof -
  assume t: "told c r"
  then have h: "rt_handoff r \<noteq> None" by (auto simp: told_def split: option.splits)
  obtain c1 where c1: "latch_fatal (c, r) = (Inr (), (c1, r))" "told c1 r" using latch_told [OF h] by blast
  show ?thesis using c1 same_jobs_tracking [OF jk.keepsD [OF jk_updates(3) c1(1)]] by blast
qed

lemma wait_runs:
  assumes "tracked c r" "wait_request env (c, r) = (x, t)"
  shows "tracking (c, r) t \<and> (queued r \<longrightarrow> queued (snd t)) \<and> (x = Inr () \<longrightarrow> rt_futures (snd t) = []) \<and>
    (\<forall>e. x = Inl e \<longrightarrow> is_fatal e \<and> told (fst t) (snd t))"
proof -
  obtain y u where u: "wait_futures env (rt_futures r) (c, r) = (y, u)" by (metis surj_pair)
  note 1 = wait_futures_runs [OF assms(1) refl u]
  have eq: "wait_request env (c, r) = (case y of Inr z \<Rightarrow> (Inr z, u)
      | Inl e \<Rightarrow> if is_fatal e then seqA latch_fatal (raiseA e) u else (Inl e, u))"
    using u by (auto simp: wait_request_def latching_def bindA_def readA_def attemptA_def retA_def raiseA_def
        split: sum.splits)
  show ?thesis
  proof (cases y)
    case (Inl e)
    obtain c1 where c1: "latch_fatal u = (Inr (), (c1, snd u))" "told c1 (snd u)" "tracking u (c1, snd u)"
      using latch_when_told [of "fst u" "snd u"] 1 Inl by auto
    then have "x = Inl e" "t = (c1, snd u)" using assms(2) Inl 1 unfolding eq by (auto simp: seqA_def bindA_def raiseA_def)
    then show ?thesis using 1 Inl c1 tk.frame_trans [OF conjunct1 [OF 1] c1(3)] by auto
  next
    case (Inr z)
    then show ?thesis using 1 assms(2) unfolding eq by auto
  qed
qed

section \<open>Every operation keeps the jobs in order\<close>

definition ordered :: "coordinator \<times> request_state \<Rightarrow> coordinator \<times> request_state \<Rightarrow> bool" where
  "ordered s t \<longleftrightarrow> tracking s t \<and> (tracked (fst s) (snd s) \<longrightarrow> queued (snd s) \<longrightarrow> queued (snd t))"

interpretation od: frame ordered
  by unfold_locales (auto simp: ordered_def tk.frame_refl intro: tk.frame_trans simp: tracking_def)

lemma ordered_tracking: "od.keeps m \<Longrightarrow> tk.keeps m"
  by (simp add: od.keeps_def tk.keeps_def ordered_def)

lemma same_jobs_ordered: "same_jobs s t \<Longrightarrow> ordered s t"
  by (simp add: ordered_def same_jobs_tracking) (simp add: same_jobs_def queued_def finished_def)

lemma jk_ordered: "jk.keeps m \<Longrightarrow> od.keeps m"
  by (simp add: jk.keeps_def od.keeps_def same_jobs_ordered)

lemma run_job_ordered: "ordered s (run_job env i s)"
proof -
  have "finished k (snd (run_job env i s))" if "finished k (snd s)" for k
    using run_job_jobs(3) [OF that] that by (simp add: finished_def)
  then show ?thesis using run_job_jobs(1,2) [of env i s] by (auto simp: ordered_def run_job_tracking queued_def)
qed

lemma wait_ordered: "od.keeps (wait_request env)"
  unfolding od.keeps_def
proof
  fix s :: "coordinator \<times> request_state"
  obtain x t where t: "wait_request env s = (x, t)" by (metis surj_pair)
  show "ordered s (snd (wait_request env s))"
    using wait_runs [of "fst s" "snd s" env x t] t by (auto simp: ordered_def tracking_def)
qed

text \<open>A job is queued behind the request's last one.\<close>

lemma enqueue_ordered:
  assumes "\<And>r. jb_previous (job_of r) = rt_last_future r"
  shows "od.keeps (bindA (readA snd) (\<lambda>r. enqueue env (job_of r)))"
  unfolding od.keeps_def
proof
  fix s :: "coordinator \<times> request_state"
  obtain c r where s: "s = (c, r)" by fastforce
  show "ordered s (snd (bindA (readA snd) (\<lambda>r. enqueue env (job_of r)) s))"
  proof (cases "ce_submit_error env (length (rt_jobs r))")
    case (Some e)
    have "jk.keeps (seqA (release_capacity (jb_bytes (job_of r)) 1) (seqA (disable (exn_name e)) (fail_circuit env)))"
      by (intro jk_intros)
    then show ?thesis using Some s
      by (simp add: bindA_readA enqueue_def jk.keeps_def same_jobs_ordered)
  next
    case None
    let ?r = "r\<lparr>rt_jobs := rt_jobs r @ [Pending (job_of r)], rt_futures := rt_futures r @ [length (rt_jobs r)],
        rt_last_future := Some (length (rt_jobs r))\<rparr>"
    have "linked r \<Longrightarrow> linked ?r" using assms [of r] by (fastforce simp: linked_def nth_append)
    then have "tracking (c, r) (c, ?r)" by (auto simp: tracking_def tracked_def told_def)
    moreover have "queued r \<Longrightarrow> queued ?r" by (auto simp: queued_def finished_def nth_append less_Suc_eq)
    ultimately show ?thesis using None s
      by (simp add: bindA_readA enqueue_def on_request_def writeA_def Let_def ordered_def)
  qed
qed

lemma jk_submit:
  "jk.keeps (refuse_pages reason label)" "jk.keeps (ensure_executor env)" "jk.keeps (take_window_ids n)"
  unfolding refuse_pages_def ensure_executor_def take_window_ids_def
  by (intro jk_intros jk_updates(1,2); simp)+

lemma submit_ordered:
  "od.keeps (submit_probe env req_id pages hint maximum x has_factory)"
  "od.keeps (submit_batch env ident b hint pages maximum x)"
proof -
  note ids = jk_ordered [OF jk_submit(3)] and exec = jk_ordered [OF jk_submit(2)]
    and refuse = jk_ordered [OF jk_submit(1)] and acq = jk_ordered [OF jk_updates(7)]
  have undo: "od.keeps (seqA (disable (exn_name e)) (fail_circuit env))" for e
    by (intro jk_ordered jk_intros)
  have undo': "od.keeps (seqA (release_capacity n 1) (seqA (disable (exn_name e)) (fail_circuit env)))" for e n
    by (intro jk_ordered jk_intros)
  have "od.keeps (queue_probe env req_id windows hint x has_factory)" for windows
    unfolding queue_probe_def by (intro od.keeps_bind ids enqueue_ordered) simp
  then show "od.keeps (submit_probe env req_id pages hint maximum x has_factory)"
    unfolding submit_probe_def
    by (intro od.keeps_bind od.keeps_if od.keeps_ret od.keeps_read od.keeps_case_option refuse exec acq undo)
  have batch: "od.keeps (bindA (take_window_ids n) (\<lambda>first. bindA (readA snd) (\<lambda>r. enqueue env
      \<lparr>jb_req_id = i, jb_probe = False, jb_first_window_id = first, jb_windows = ws, jb_store_end_hint = hint,
       jb_context = x, jb_has_source_factory = False, jb_generation = rt_source_generation r, jb_bytes = k,
       jb_previous = rt_last_future r\<rparr>)))" for n i ws k
    by (intro od.keeps_bind ids enqueue_ordered) simp
  have "od.keeps (queue_batch env ident b hint windows x)" for windows
    unfolding queue_batch_def Let_def
    by (intro od.keeps_bind od.keeps_case_res od.keeps_case_option exec undo' enqueue_ordered ids) simp
  then show "od.keeps (submit_batch env ident b hint pages maximum x)"
    unfolding submit_batch_def
    by (intro od.keeps_bind od.keeps_if od.keeps_ret od.keeps_read refuse acq)
qed

lemma admission_jobs:
  "jk.keeps (prepare_request env configs)" "jk.keeps (reject_source_batch env e)"
  "jk.keeps (\<lambda>(c, r). case can_coalesce_final_batch r n c of (ok, c1) \<Rightarrow> (Inr ok, (c1, r)))"
proof -
  have start: "jk.keeps begin_attempt" and admitted: "jk.keeps (mark_viable env)"
    by (rule jk_state; auto simp: same_jobs_def begin_attempt_def mark_viable_def writeA_def Let_def split: if_splits)+
  have rest: "jk.keeps (check_handoff env h)" for h
    unfolding check_handoff_def by (intro jk_intros admitted)
  have admit: "same_jobs (c, r) (snd (admit_handoff env h (c, r)))" if "rt_handoff r = None" for c r h
  proof -
    have 1: "same_jobs (c, r) (c, r\<lparr>rt_handoff := Some h\<rparr>)" using that by (simp add: same_jobs_def)
    have eq: "admit_handoff env h (c, r) = seqA begin_attempt (check_handoff env h) (c, r\<lparr>rt_handoff := Some h\<rparr>)"
      by (simp add: admit_handoff_def on_request_def writeA_def) (simp add: seqA_def bindA_def)
    show ?thesis unfolding eq by (rule jk.frame_trans [OF 1 jk.keeps_at [OF jk.keeps_seq [OF start rest]]])
  qed
  have exn: "jk.keeps (case e of ValueError _ \<Rightarrow> refuse (exn_name e) | _ \<Rightarrow> raiseA e)" for e
    by (cases e; simp only: exn.case) (intro jk_intros)+
  show "jk.keeps (prepare_request env configs)"
  proof (rule jk_state)
    fix s :: "coordinator \<times> request_state"
    obtain c r where s: "s = (c, r)" by fastforce
    show "same_jobs s (snd (prepare_request env configs s))"
      using jk.keeps_at [OF jk.keeps_ret] jk.keeps_at [OF exn] jk.keeps_at [OF jk_refuse] admit s
      by (auto simp: prepare_request_def bindA_readA split: sum.splits option.splits)
  qed
  show "jk.keeps (reject_source_batch env e)"
    unfolding reject_source_batch_def by (intro jk_intros)
  show "jk.keeps (\<lambda>(c, r). case can_coalesce_final_batch r n c of (ok, c1) \<Rightarrow> (Inr ok, (c1, r)))"
    by (rule jk_state) (auto simp: same_jobs_def can_coalesce_final_batch_def)
qed


lemma seqA_ret: "seqA (retA x) n = n"
  by (simp add: fun_eq_iff seqA_def bindA_def retA_def)

lemma settle_tracking:
  "tk.keeps (seqA (if tr_outcome t = FATAL_RESTART then latch_fatal else retA ())
     (seqA (settle_terminal req_id t) (retA (Some t))))"
  "od.keeps (seqA (if tr_outcome t = FATAL_RESTART then latch_fatal else retA ())
     (seqA (settle_terminal req_id t) (retA (Some t))))"
proof -
  define rest where "rest = (seqA (writeA (\<lambda>(c, r). (count (finish_attempt (outcome_value (tr_outcome t))
         (if rt_disabled_reason r = [] then ''none'' else rt_disabled_reason r)) c, r)))
    (seqA uncount
    (seqA (writeA (\<lambda>(c, r). (count (add_bytes (if tr_direct_satisfied t then ''published_bytes''
         else ''discarded_bytes'') (rt_submitted_bytes r)) c, r)))
    (seqA (if tr_direct_satisfied t then on_coordinator record_success else retA ())
      (on_coordinator (\<lambda>c. c\<lparr>cd_completed := AList.update req_id t (cd_completed c)\<rparr>))))))"
  have w: "jk.keeps (writeA (\<lambda>(c, r). (count (f c r) c, r)))" for f
    by (rule jk_state) (auto simp: same_jobs_def writeA_def)
  have "jk.keeps rest" unfolding rest_def
    by (intro jk_intros w) (rule jk_updates(1); simp)+
  then have rest: "jk.keeps (seqA rest (retA (Some t)))" by (intro jk_intros)
  have settle: "settle_terminal req_id t = seqA (on_request (\<lambda>r. r\<lparr>rt_terminal := Some t\<rparr>)) rest"
    by (simp only: settle_terminal_def rest_def)
  let ?m = "seqA (if tr_outcome t = FATAL_RESTART then latch_fatal else retA ())
     (seqA (settle_terminal req_id t) (retA (Some t)))"
  have od: "ordered s (snd (?m s))" for s
  proof -
    obtain c r where s: "s = (c, r)" by fastforce
    have put: "seqA (settle_terminal req_id t) (retA (Some t)) (c1, r) =
        seqA rest (retA (Some t)) (c1, r\<lparr>rt_terminal := Some t\<rparr>)" for c1
      by (simp add: settle on_request_def writeA_def) (simp add: seqA_def bindA_def split: prod.splits sum.splits)
    have step: "ordered (c1, r) (c1, r\<lparr>rt_terminal := Some t\<rparr>)"
      if "tr_outcome t = FATAL_RESTART \<longrightarrow> told c1 r" for c1
      using that by (auto simp: ordered_def tracking_def tracked_def linked_def told_def queued_def finished_def)
    have go: "ordered (c1, r) (snd (seqA (settle_terminal req_id t) (retA (Some t)) (c1, r)))"
      if "tr_outcome t = FATAL_RESTART \<longrightarrow> told c1 r" for c1
      unfolding put by (rule od.frame_trans [OF step [OF that] same_jobs_ordered [OF jk.keeps_at [OF rest]]])
    show ?thesis
    proof (cases "tr_outcome t = FATAL_RESTART")
      case False
      have "?m s = seqA (settle_terminal req_id t) (retA (Some t)) (c, r)"
        using False s by (simp add: seqA_ret)
      then show ?thesis using go [of c] False s by simp
    next
      case True
      show ?thesis
      proof (cases "rt_handoff r")
        case None
        then have "?m s = (Inl (RuntimeError ''remote-fill fatal state lacks a transfer identity''), s)"
          using True s by (simp add: seqA_def bindA_def latch_fatal_def)
        then show ?thesis by (simp add: od.frame_refl)
      next
        case (Some h)
        then obtain c1 where c1: "latch_fatal (c, r) = (Inr (), (c1, r))" "told c1 r" using latch_told by blast
        have "?m s = seqA (settle_terminal req_id t) (retA (Some t)) (c1, r)"
          using True s c1(1) by (simp add: seqA_def [of latch_fatal] bindA_def)
        moreover have "ordered s (c1, r)" unfolding s
          by (rule same_jobs_ordered [OF jk.keepsD [OF jk_updates(3) c1(1)]])
        ultimately show ?thesis using od.frame_trans go [of c1] c1(2) by simp
      qed
    qed
  qed
  then show "od.keeps ?m" by (simp add: od.keeps_def)
  then show "tk.keeps ?m" by (rule ordered_tracking)
qed

lemma finish_ordered: "od.keeps (finish_request_state env req_id required stored)"
proof -
  note session = jk_ordered [OF jk_session] and latch = jk_ordered [OF jk_updates(3)]
  have count_id: "od.keeps (on_coordinator (count id))" by (rule jk_ordered) (rule jk_basic)
  have latching: "od.keeps m \<Longrightarrow> od.keeps (latching m)" for m :: "'a co_act"
    unfolding latching_def by (intro od.keeps_intros latch)
  show ?thesis unfolding finish_request_state_def finish_waited_def terminal_of_def
    by (intro od.keeps_bind od.keeps_case_option od.keeps_ret od.keeps_read od.keeps_case_prod
        settle_tracking od.keeps_seq wait_ordered latching od.keeps_if od.keeps_raise session count_id)
qed

lemma release_jobs: "jk.keeps (release_request env req_id stored)"
proof -
  have w: "jk.keeps (writeA (\<lambda>(c, r). (count (f c r) c, r)))" for f
    by (rule jk_state) (auto simp: same_jobs_def writeA_def)
  have m: "jk.keeps (on_coordinator (\<lambda>c. count (abandon_metric r b) (count f c)))" for f r b
    by (rule jk_updates(1)) simp
  show ?thesis unfolding release_request_def abort_unfinished_def
    by (intro jk_intros w m)
qed

lemma close_tracking: "tk.keeps (close_request env req_id)"
proof -
  have "tracking (c, r) (snd (close_futures env is (c, r)))" if "rt_futures r = is" for c r "is"
    using that
  proof (induction "is" arbitrary: c r)
    case Nil
    show ?case by (simp add: retA_def tk.frame_refl)
  next
    case (Cons i "is")
    let ?r = "r\<lparr>rt_futures := is\<rparr>"
    let ?late = "case rt_jobs ?r ! i of Pending _ \<Rightarrow> ce_close_timeout env i | Finished _ \<Rightarrow> False"
    have pop: "tracking (c, r) (c, ?r)" using Cons.prems
      by (auto simp: tracking_def tracked_def linked_def told_def)
    have eq: "close_futures env (i # is) (c, r) = (if ?late
        then seqA latch_fatal (raiseA (FatalError ''remote-fill producer shutdown exceeded its hard deadline'')) (c, ?r)
        else seqA (await_future env i) (close_futures env is) (c, ?r))"
      by (simp add: on_request_def writeA_def) (simp add: seqA_def bindA_def readA_def)
    show ?case
    proof (cases ?late)
      case True
      have "tk.keeps (seqA latch_fatal (raiseA (FatalError ''remote-fill producer shutdown exceeded its hard deadline'')))"
        by (intro jk_tracking jk_intros)
      from tk.frame_trans [OF pop tk.keeps_at [OF this]] show ?thesis unfolding eq using True by simp
    next
      case False
      obtain y u where u: "await_future env i (c, ?r) = (y, u)" by (metis surj_pair)
      have "tracking (c, r) (snd (seqA (await_future env i) (close_futures env is) (c, ?r)))"
        if t: "tracked c r"
      proof -
        have t': "tracked c ?r" "i < length (rt_jobs ?r)"
          using pop t Cons.prems by (simp_all add: tracking_def) (simp add: tracked_def linked_def)
        note a = await_runs [OF t' u]
        have 1: "tracking (c, r) u" using tk.frame_trans [OF pop] a by blast
        have "rt_futures (snd u) = is" using a by simp
        then have "tracking u (snd (close_futures env is u))" using Cons.IH [of "snd u" "fst u"] by simp
        then show ?thesis using tk.frame_trans [OF 1] 1 u by (cases y) (simp_all add: seqA_def bindA_def)
      qed
      then show ?thesis unfolding eq using False by (auto simp: tracking_def)
    qed
  qed
  then have "tk.keeps (bindA (readA (\<lambda>(c, r). rt_futures r)) (close_futures env))"
    by (simp add: tk.keeps_def bindA_readA)
  moreover have "tk.keeps (bindA (readA snd) (\<lambda>r.
          if fatal_request r then
            seqA latch_fatal (raiseA (FatalError ''cannot close fatal remote-fill producer state''))
          else case rt_session r of
            None \<Rightarrow> retA ()
          | Some _ \<Rightarrow> run_session (close_session (ce_peer env req_id))))"
    by (intro jk_tracking jk_intros)
  ultimately show ?thesis unfolding close_request_def by (rule tk.keeps_seq)
qed

section \<open>All requests\<close>

definition all_tracked :: "world \<Rightarrow> bool" where
  "all_tracked w \<longleftrightarrow> (\<forall>r \<in> set (snd w). tracked (fst w) r)"

lemma tracked_grows:
  "tracked c r \<Longrightarrow> cd_reporter_alive c' = cd_reporter_alive c \<Longrightarrow> set (cd_reports c) \<subseteq> set (cd_reports c') \<Longrightarrow>
   tracked c' r"
  using told_mono [of c r r c'] by (auto simp: tracked_def)

lemma tracked_fields:
  "tracked (c\<lparr>cd_completed := l\<rparr>) r = tracked c r" "tracked (c\<lparr>cd_has_executor := b\<rparr>) r = tracked c r"
  by (simp_all add: tracked_def told_def cong: option.case_cong)

lemma at_request_tracked:
  assumes m: "tk.keeps m" and b: "all_tracked w"
  shows "all_tracked (snd (at_request k m w))"
proof -
  obtain c rs where w: "w = (c, rs)" by fastforce
  show ?thesis
  proof (cases "k < length rs")
    case True
    obtain x c1 r1 where run: "m (c, rs ! k) = (x, (c1, r1))" by (metis surj_pair)
    have t: "tracked c (rs ! k)" "\<forall>r \<in> set rs. tracked c r" using b True w by (auto simp: all_tracked_def)
    have a: "tracked c1 r1" "cd_reporter_alive c1 = cd_reporter_alive c" "set (cd_reports c) \<subseteq> set (cd_reports c1)"
      using tk.keepsD [OF m run] t(1) by (auto simp: tracking_def)
    have "\<forall>r \<in> set (rs[k := r1]). tracked c1 r"
      using t(2) a(1) tracked_grows [OF _ a(2,3)] set_update_subset_insert [of rs k r1] by auto
    then show ?thesis using run True w by (simp add: at_request_def all_tracked_def)
  qed (use b w in \<open>simp add: at_request_def\<close>)
qed

definition all_queued :: "world \<Rightarrow> bool" where
  "all_queued w \<longleftrightarrow> (\<forall>r \<in> set (snd w). queued r)"

lemma at_request_queued:
  assumes m: "od.keeps m" and b: "all_tracked w" "all_queued w"
  shows "all_queued (snd (at_request k m w))"
proof -
  obtain c rs where w: "w = (c, rs)" by fastforce
  show ?thesis
  proof (cases "k < length rs")
    case True
    obtain x c1 r1 where run: "m (c, rs ! k) = (x, (c1, r1))" by (metis surj_pair)
    have "queued r1" using od.keepsD [OF m run] b True w
      by (auto simp: ordered_def all_tracked_def all_queued_def)
    then show ?thesis using b(2) run True w set_update_subset_insert [of rs k r1]
      by (auto simp: at_request_def all_queued_def)
  qed (use b w in \<open>simp add: at_request_def\<close>)
qed

lemma close_states_tracked: "all_tracked w \<Longrightarrow> all_tracked (snd (close_states env ks w))"
proof (induction ks arbitrary: w)
  case (Cons x ks)
  obtain k req where x: "x = (k, req)" by fastforce
  obtain y u where 1: "at_request k (close_request env req) w = (y, u)" by (metis surj_pair)
  have "all_tracked u" using at_request_tracked [OF close_tracking Cons.prems, of k env req] 1 by simp
  then show ?case using Cons.IH [of u] 1 x by (cases y) (simp_all add: seqA_def bindA_def)
qed (simp add: retA_def)

lemma new_tracked: "tracked c new_request_state" "queued new_request_state"
  by (simp_all add: tracked_def linked_def queued_def new_request_state_def)

lemma run_job_keeps: "od.keeps (writeA (run_job env i))"
  by (rule od.keeps_write, rule run_job_ordered)

lemmas od_calls = jk_ordered [OF admission_jobs(1)] jk_ordered [OF admission_jobs(2)] jk_ordered [OF admission_jobs(3)]
  submit_ordered run_job_keeps wait_ordered finish_ordered jk_ordered [OF release_jobs]

lemma perform_tracked:
  assumes "all_tracked w"
  shows "all_tracked (perform env x w)"
proof (cases x)
  case NewRequest
  then show ?thesis using assms by (auto simp: perform_def all_tracked_def new_tracked)
next
  case Drain
  then show ?thesis using assms
    by (simp add: perform_def all_tracked_def drain_terminal_results_def tracked_fields)
next
  case (Close ks)
  obtain y u where u: "close_states env ks w = (y, u)" by (metis surj_pair)
  have "all_tracked u" using close_states_tracked [OF assms, of env ks] u by simp
  then show ?thesis using u Close
    by (cases y; cases u) (simp_all add: perform_def close_coordinator_def seqA_def bindA_def writeA_def
        all_tracked_def tracked_fields)
qed (simp_all only: perform_def call.case at_request_tracked [OF ordered_tracking assms] od_calls)

lemma perform_queued:
  assumes "all_tracked w" "all_queued w" "\<And>ks. x \<noteq> Close ks"
  shows "all_queued (perform env x w)"
proof (cases x)
  case NewRequest
  then show ?thesis using assms(2) by (auto simp: perform_def all_queued_def new_tracked)
next
  case Drain
  then show ?thesis using assms(2) by (simp add: perform_def all_queued_def)
next
  case (Close ks)
  then show ?thesis using assms(3) by blast
qed (simp_all only: perform_def call.case at_request_queued [OF _ assms(1,2)] od_calls)

lemma performs_tracked: "all_tracked w \<Longrightarrow> all_tracked (performs env calls w)"
proof (induction calls arbitrary: w)
  case (Cons x calls)
  then show ?case using perform_tracked [OF Cons.prems, of env x] by (simp add: performs_def)
qed (simp add: performs_def)

lemma performs_queued:
  "all_tracked w \<Longrightarrow> all_queued w \<Longrightarrow> (\<And>ks. Close ks \<notin> set calls) \<Longrightarrow> all_queued (performs env calls w)"
proof (induction calls arbitrary: w)
  case (Cons x calls)
  have "\<And>ks. x \<noteq> Close ks" using Cons.prems(3) by auto
  from Cons.IH [OF perform_tracked [OF Cons.prems(1)] perform_queued [OF Cons.prems(1,2) this]] Cons.prems(3)
  show ?case by (simp add: performs_def)
qed (simp add: performs_def)

end
