(* ===== verification/CoordinatorProperties.thy ===== *)
theory CoordinatorProperties
  imports CoordinatorJobs SessionProperties
begin

text \<open>
  The properties of the producer coordinator: the circuit breaker's contract, the exact budget of
  queued bytes and windows, the reporting of fatal outcomes, waiting, release and finishing, with a
  concrete coordinator that prepares a request, probes and finishes it.
\<close>

section \<open>Circuit breaker\<close>

text \<open>The contract: closed with a number of failures, or open until a time.\<close>

datatype breaker = Shut int | Open rat

datatype breaker_op = Ask | Failed | Succeeded

definition breaker_step :: "int \<Rightarrow> rat \<Rightarrow> rat \<Rightarrow> breaker_op \<Rightarrow> breaker \<Rightarrow> bool option \<times> breaker" where
  "breaker_step threshold cooldown now x b =
     (case x of
        Ask \<Rightarrow> (case b of
            Shut n \<Rightarrow> (Some True, b)
          | Open until \<Rightarrow> if now < until then (Some False, b) else (Some True, Shut 0))
      | Failed \<Rightarrow> (None, case b of
            Shut n \<Rightarrow> if n + 1 \<ge> threshold then Open (now + cooldown) else Shut (n + 1)
          | Open _ \<Rightarrow> Open (now + cooldown))
      | Succeeded \<Rightarrow> (None, Shut 0))"

text \<open>The code's operations, and how its fields are read as a breaker.\<close>

definition breaker_op :: "(nat \<Rightarrow> rat) \<Rightarrow> breaker_op \<Rightarrow> coordinator \<Rightarrow> bool option \<times> coordinator" where
  "breaker_op clock x c =
     (case x of
        Ask \<Rightarrow> (case circuit_allows clock c of (ok, c1) \<Rightarrow> (Some ok, c1))
      | Failed \<Rightarrow> (None, record_failure clock c)
      | Succeeded \<Rightarrow> (None, record_success c))"

definition breaker_of :: "coordinator \<Rightarrow> breaker" where
  "breaker_of c = (if cd_circuit_open_until c = 0 then Shut (cd_circuit_failures c)
     else Open (cd_circuit_open_until c))"

fun breaker_ops :: "(nat \<Rightarrow> rat) \<Rightarrow> breaker_op list \<Rightarrow> coordinator \<Rightarrow> bool option list \<times> coordinator" where
  "breaker_ops clock [] c = ([], c)"
| "breaker_ops clock (x # xs) c =
     (case breaker_op clock x c of (a, c1) \<Rightarrow> case breaker_ops clock xs c1 of (as, c2) \<Rightarrow> (a # as, c2))"

fun breaker_steps ::
  "int \<Rightarrow> rat \<Rightarrow> (breaker_op \<times> rat) list \<Rightarrow> breaker \<Rightarrow> bool option list \<times> breaker" where
  "breaker_steps threshold cooldown [] b = ([], b)"
| "breaker_steps threshold cooldown ((x, now) # xs) b =
     (case breaker_step threshold cooldown now x b of (a, b1) \<Rightarrow>
        case breaker_steps threshold cooldown xs b1 of (as, b2) \<Rightarrow> (a # as, b2))"

text \<open>The clock reading an operation uses, if it makes one.\<close>

fun breaker_times :: "(nat \<Rightarrow> rat) \<Rightarrow> breaker_op list \<Rightarrow> coordinator \<Rightarrow> (breaker_op \<times> rat) list" where
  "breaker_times clock [] c = []"
| "breaker_times clock (x # xs) c = (x, clock (cd_ticks c)) # breaker_times clock xs (snd (breaker_op clock x c))"

definition breaker_gauge :: "coordinator \<Rightarrow> int" where
  "breaker_gauge c = value_of ''circuit_breaker_state'' (mt_gauges (metrics_of c))"

definition breaker_ok :: "coordinator \<Rightarrow> bool" where
  "breaker_ok c \<longleftrightarrow> cg_breaker_enabled (cd_config c) \<and>
     (\<not> cd_has_circuit c \<longrightarrow> cd_circuit_failures c = 0 \<and> cd_circuit_open_until c = 0) \<and>
     (cd_circuit_open_until c \<noteq> 0 \<longrightarrow> cd_circuit_failures c \<ge> cg_breaker_threshold (cd_config c) \<and>
        cd_metrics c \<noteq> None) \<and>
     breaker_gauge c = (if cd_circuit_open_until c = 0 then 0 else 1)"

lemma gauge_set: "value_of ''circuit_breaker_state'' (mt_gauges (set_gauge ''circuit_breaker_state'' v m)) = max 0 v"
  by (simp add: set_gauge_def GAUGES_def)

lemma breaker_simulation:
  assumes "breaker_ok c" "\<And>k. 0 \<le> clock k" "0 < cg_breaker_cooldown (cd_config c)"
  shows "breaker_ok (snd (breaker_op clock x c)) \<and> cd_config (snd (breaker_op clock x c)) = cd_config c \<and>
    (fst (breaker_op clock x c), breaker_of (snd (breaker_op clock x c))) =
      breaker_step (cg_breaker_threshold (cd_config c)) (cg_breaker_cooldown (cd_config c)) (clock (cd_ticks c)) x
        (breaker_of c)"
proof -
  have pos: "clock (cd_ticks c) + cg_breaker_cooldown (cd_config c) \<noteq> 0"
    using assms(2) [of "cd_ticks c"] assms(3) by linarith
  show ?thesis
  proof (cases x)
    case Ask
    then show ?thesis using assms(1) assms(2) [of "cd_ticks c"]
      by (auto simp: breaker_op_def breaker_step_def circuit_allows_def breaker_ok_def breaker_of_def Let_def
          count_def breaker_gauge_def metrics_of_def gauge_set)
  next
    case Failed
    then show ?thesis using assms(1) pos
      by (auto simp: breaker_op_def breaker_step_def record_failure_def breaker_ok_def breaker_of_def Let_def
          count_def breaker_gauge_def metrics_of_def gauge_set)
  next
    case Succeeded
    then show ?thesis using assms(1)
      by (auto simp: breaker_op_def breaker_step_def record_success_def breaker_ok_def breaker_of_def
          count_def breaker_gauge_def metrics_of_def gauge_set)
  qed
qed

lemma breaker_runs:
  assumes "\<And>k. 0 \<le> clock k" "0 < cg_breaker_cooldown (cd_config c)" "breaker_ok c"
  shows "breaker_ok (snd (breaker_ops clock xs c)) \<and>
    (fst (breaker_ops clock xs c), breaker_of (snd (breaker_ops clock xs c))) =
      breaker_steps (cg_breaker_threshold (cd_config c)) (cg_breaker_cooldown (cd_config c))
        (breaker_times clock xs c) (breaker_of c)"
  using assms(2,3)
proof (induction xs arbitrary: c)
  case (Cons x xs)
  obtain a c1 where 1: "breaker_op clock x c = (a, c1)" by (metis surj_pair)
  note s = breaker_simulation [where clock = clock and x = x, OF Cons.prems(2) assms(1) Cons.prems(1)]
  have "cd_config c1 = cd_config c" "breaker_ok c1" using s 1 by simp_all
  moreover obtain as c2 where 2: "breaker_ops clock xs c1 = (as, c2)" by (metis surj_pair)
  ultimately show ?case using Cons.IH [of c1] Cons.prems s 1 by (auto split: prod.splits)
qed simp


definition is_open :: "breaker \<Rightarrow> bool" where
  "is_open b = (case b of Open _ \<Rightarrow> True | Shut _ \<Rightarrow> False)"

text \<open>
  C24.  The circuit breaker refines its contract: with the breaker enabled, a positive cooldown and a
  clock that does not read below zero, any sequence of admission checks, recorded failures and
  recorded successes gives the answers of a breaker that is closed with a count of failures, opens
  for the cooldown when the count reaches the threshold, stays open while failures keep arriving and
  closes with a fresh count after the cooldown or on a success; the state is that breaker's state,
  and the gauge reads 1 exactly when it is open.
\<close>

theorem circuit_breaker_refines:
  fixes tp_size :: int and tp_independent alive :: bool
  assumes "cg_breaker_enabled config" "0 < cg_breaker_cooldown config" "\<And>k. 0 \<le> clock k"
  defines "c \<equiv> make_coordinator config tp_size tp_independent alive"
  shows "(fst (breaker_ops clock xs c), breaker_of (snd (breaker_ops clock xs c))) =
      breaker_steps (cg_breaker_threshold config) (cg_breaker_cooldown config) (breaker_times clock xs c) (Shut 0) \<and>
    breaker_gauge (snd (breaker_ops clock xs c)) =
      (if is_open (breaker_of (snd (breaker_ops clock xs c))) then 1 else 0)"
proof -
  have gauges: "mt_gauges (make_metrics False) = map (\<lambda>name. (name, 0)) GAUGES" by (simp add: make_metrics_def)
  have ok: "breaker_ok c"
    using assms(1) by (simp add: c_def make_coordinator_def breaker_ok_def breaker_gauge_def metrics_of_def gauges
        GAUGES_def value_of_def)
  have cfg: "cd_config c = config" "breaker_of c = Shut 0"
    by (simp_all add: c_def make_coordinator_def breaker_of_def)
  have "breaker_ok (snd (breaker_ops clock xs c)) \<and>
    (fst (breaker_ops clock xs c), breaker_of (snd (breaker_ops clock xs c))) =
      breaker_steps (cg_breaker_threshold config) (cg_breaker_cooldown config) (breaker_times clock xs c) (Shut 0)"
    using breaker_runs [where clock = clock and c = c and xs = xs] assms(2,3) ok cfg by simp
  then show ?thesis by (auto simp: breaker_ok_def breaker_of_def is_open_def)
qed

definition example_coordinator_config :: coordinator_config where
  "example_coordinator_config = \<lparr>cg_base = example_config, cg_window_tokens = 4, cg_breaker_enabled = True,
     cg_breaker_threshold = 2, cg_breaker_cooldown = 10, cg_open_timeout_ms = 1000,
     cg_reserve_timeout_ms = 1000, cg_arm_timeout_ms = 1000, cg_finish_timeout_ms = 1000,
     cg_native_hard_timeout_ms = 5000\<rparr>"

text \<open>Two failures open the breaker until 15; it refuses at 6 and allows at 20.\<close>

definition example_clock :: "nat \<Rightarrow> rat" where
  "example_clock k = (if k < 3 then of_nat k + 4 else 20)"

theorem circuit_breaker_refines_witness:
  "fst (breaker_ops example_clock [Ask, Failed, Failed, Ask, Ask]
      (make_coordinator example_coordinator_config 2 False True)) =
      [Some True, None, None, Some False, Some True] \<and>
   breaker_gauge (snd (breaker_ops example_clock [Ask, Failed, Failed, Ask]
      (make_coordinator example_coordinator_config 2 False True))) = 1"
proof -
  have cfg: "cg_breaker_enabled example_coordinator_config" "0 < cg_breaker_cooldown example_coordinator_config"
    by (simp_all add: example_coordinator_config_def)
  have clk: "0 \<le> example_clock k" for k by (simp add: example_clock_def)
  note r = circuit_breaker_refines [where clock = example_clock and tp_size = 2 and tp_independent = False
      and alive = True, OF cfg clk]
  note evals = example_clock_def example_coordinator_config_def make_coordinator_def breaker_op_def
    circuit_allows_def record_failure_def count_def Let_def breaker_step_def
  have limits: "cg_breaker_threshold example_coordinator_config = 2"
    "cg_breaker_cooldown example_coordinator_config = 10" by (simp_all add: example_coordinator_config_def)
  have s1: "breaker_steps 2 10 (breaker_times example_clock [Ask, Failed, Failed, Ask, Ask]
      (make_coordinator example_coordinator_config 2 False True)) (Shut 0) =
      ([Some True, None, None, Some False, Some True], Shut 0)"
    by (simp add: evals)
  have s2: "breaker_steps 2 10 (breaker_times example_clock [Ask, Failed, Failed, Ask]
      (make_coordinator example_coordinator_config 2 False True)) (Shut 0) =
      ([Some True, None, None, Some False], Open 15)"
    by (simp add: evals)
  show ?thesis
    using r [where xs = "[Ask, Failed, Failed, Ask, Ask]", unfolded limits s1]
      r [where xs = "[Ask, Failed, Failed, Ask]", unfolded limits s2]
    by (simp only: prod.inject is_open_def breaker.case if_True)
qed

section \<open>Runs of a coordinator\<close>

definition started ::
  "coordinator_env \<Rightarrow> coordinator_config \<Rightarrow> int \<Rightarrow> bool \<Rightarrow> bool \<Rightarrow> call list \<Rightarrow> world" where
  "started env config tp_size tp_independent alive calls =
     performs env calls (make_coordinator config tp_size tp_independent alive, [])"

lemma started_books: "books (started env config tp_size tp_independent alive calls)"
  and started_config: "cd_config (fst (started env config tp_size tp_independent alive calls)) = config"
proof -
  have "books (make_coordinator config tp_size tp_independent alive, [])"
    by (simp add: books_def make_coordinator_def)
  from performs_books [OF this, of env calls]
  show "books (started env config tp_size tp_independent alive calls)"
    and "cd_config (fst (started env config tp_size tp_independent alive calls)) = config"
    by (simp_all add: started_def make_coordinator_def)
qed

lemma started_tracked: "all_tracked (started env config tp_size tp_independent alive calls)"
  unfolding started_def by (rule performs_tracked) (simp add: all_tracked_def)

lemma started_queued:
  "(\<And>ks. Close ks \<notin> set calls) \<Longrightarrow> all_queued (started env config tp_size tp_independent alive calls)"
  unfolding started_def by (rule performs_queued) (simp_all add: all_tracked_def all_queued_def)



text \<open>
  C25.  A fatal outcome is never kept to the coordinator: in every run, when a request has a job that
  failed or was given the terminal outcome FATAL_RESTART, every such failure is a fatal one and the
  request's transfer has been reported to the deployment, as long as the reporter is alive.
\<close>

theorem fatal_is_reported:
  assumes "r \<in> set (snd (started env config tp_size tp_independent alive calls))"
    and "Finished (Inl e) \<in> set (rt_jobs r) \<or> map_option tr_outcome (rt_terminal r) = Some FATAL_RESTART"
  shows "\<exists>h. rt_handoff r = Some h \<and>
    (cd_reporter_alive (fst (started env config tp_size tp_independent alive calls)) \<longrightarrow>
      ho_transfer_id h \<in> set (cd_reports (fst (started env config tp_size tp_independent alive calls)))) \<and>
    (Finished (Inl e) \<in> set (rt_jobs r) \<longrightarrow> is_fatal e)"
proof -
  have "tracked (fst (started env config tp_size tp_independent alive calls)) r"
    using started_tracked assms(1) by (auto simp: all_tracked_def)
  then show ?thesis using assms(2) by (auto simp: tracked_def told_def split: option.splits)
qed

lemma no_pending: "(\<And>i. i < length fs \<Longrightarrow> \<exists>x. fs ! i = Finished x) \<Longrightarrow> pending fs = []"
proof (induction fs rule: pending.induct)
  case (2 j fs)
  from 2(2) [of 0] show ?case by simp
next
  case (3 x fs)
  have "\<exists>y. fs ! i = Finished y" if "i < length fs" for i using 3(2) [of "Suc i"] that by simp
  then show ?case using 3(1) by simp
qed simp

lemma drained: "queued r \<Longrightarrow> rt_futures r = [] \<Longrightarrow> pending (rt_jobs r) = []"
  by (rule no_pending) (auto simp: queued_def finished_def)

lemma at_request_run:
  assumes "at_request k m w = (Inr x, w')"
  shows "k < length (snd w) \<and> (\<exists>c1 r1. m (fst w, snd w ! k) = (Inr x, (c1, r1)) \<and> w' = (c1, (snd w)[k := r1]))"
  using assms by (cases w) (auto simp: at_request_def split: if_splits prod.splits)

text \<open>
  C23.  Waiting terminates with nothing left: in every run in which the coordinator has not been
  closed, waiting for a request either returns when no job of it is pending and its share of the
  budget is zero, or raises a fatal error that has been reported.
\<close>

theorem wait_runs_every_job:
  assumes "k < length (snd (started env config tp_size tp_independent alive calls))"
    and "\<And>ks. Close ks \<notin> set calls"
  shows "\<exists>x c' r'. at_request k (wait_request env) (started env config tp_size tp_independent alive calls) =
      (x, (c', (snd (started env config tp_size tp_independent alive calls))[k := r'])) \<and>
    (case x of
       Inr _ \<Rightarrow> pending (rt_jobs r') = [] \<and> rt_futures r' = [] \<and> rt_queued_bytes r' = 0 \<and> rt_queued_windows r' = 0
     | Inl e \<Rightarrow> is_fatal e \<and> told c' r')"
proof -
  obtain c rs where w: "started env config tp_size tp_independent alive calls = (c, rs)" by fastforce
  have k: "k < length rs" using assms(1) w by simp
  have t: "tracked c (rs ! k)"
    using started_tracked [of env config tp_size tp_independent alive calls] w k by (auto simp: all_tracked_def)
  have q: "queued (rs ! k)"
    using started_queued [OF assms(2), of env config tp_size tp_independent alive] w k by (auto simp: all_queued_def)
  obtain x c' r' where run: "wait_request env (c, rs ! k) = (x, (c', r'))" by (metis surj_pair)
  note 1 = wait_runs [OF t run]
  have "books (c, rs)" using started_books [of env config tp_size tp_independent alive calls] w by simp
  from at_request_books [OF wait_account this, of k env] have "entry_ok c' r'"
    using run k set_update_memI [OF k, of r'] by (simp add: at_request_def books_def)
  then have "pending (rt_jobs r') = [] \<Longrightarrow> rt_queued_bytes r' = 0 \<and> rt_queued_windows r' = 0"
    by (simp add: entry_ok_def)
  then show ?thesis using 1 q run k w drained [of r'] by (cases x) (auto simp: at_request_def)
qed

lemma close_session_result:
  "run_session (close_session env) s = (Inr (), (c, r)) \<Longrightarrow>
   \<exists>se. rt_session r = Some se \<and> ps_closed se \<and> ps_prepared se = [] \<and> \<not> ps_fatal se"
  by (cases s) (auto simp: run_session_def close_session_def bindA_readA act_defs split: option.splits if_splits)

definition discard_metrics :: "request_state \<Rightarrow> unit co_act" where
  "discard_metrics r = (if rt_metrics_started r \<and> rt_terminal r = None then
      seqA (on_coordinator (\<lambda>c. count (abandon_metric ''request aborted'' False)
          (count (finish_attempt ''ABORTED'' ''request aborted'') c)))
     (seqA uncount
       (writeA (\<lambda>(c, r). (count (add_bytes ''discarded_bytes'' (rt_submitted_bytes r)) c, r))))
    else retA ())"

lemma discard_session: "discard_metrics r s = (Inr (), t) \<Longrightarrow> rt_session (snd t) = rt_session (snd s)"
  by (cases s) (auto simp: discard_metrics_def on_coordinator_def uncount_def act_defs Let_def split: if_splits)

lemma release_closes:
  assumes "release_request env req_id stored (c, r) = (Inr True, (c1, r1))"
  shows "case rt_session r1 of None \<Rightarrow> True | Some s \<Rightarrow> ps_closed s \<and> ps_prepared s = [] \<and> \<not> ps_fatal s"
proof -
  have "seqA (case rt_session r of
             None \<Rightarrow> retA ()
           | Some _ \<Rightarrow>
               seqA (if rt_terminal r = None then abort_unfinished env req_id else retA ())
                 (run_session (close_session (ce_peer env req_id))))
         (seqA (discard_metrics r) (retA True)) (c, r) = (Inr True, (c1, r1))"
    using assms unfolding release_request_def discard_metrics_def bindA_readA
    by (auto simp: act_runs split: if_splits)
  then obtain u where u: "(case rt_session r of
             None \<Rightarrow> retA ()
           | Some _ \<Rightarrow>
               seqA (if rt_terminal r = None then abort_unfinished env req_id else retA ())
                 (run_session (close_session (ce_peer env req_id)))) (c, r) = (Inr (), u)"
    and d: "discard_metrics r u = (Inr (), (c1, r1))" by (auto simp: seqA_Inr simple_Inr)
  have "rt_session r1 = rt_session (snd u)" using discard_session [OF d] by simp
  moreover have "case rt_session (snd u) of None \<Rightarrow> True | Some s \<Rightarrow> ps_closed s \<and> ps_prepared s = [] \<and> \<not> ps_fatal s"
  proof (cases "rt_session r")
    case None
    then show ?thesis using u by (auto simp: retA_def)
  next
    case (Some x)
    then obtain v where "run_session (close_session (ce_peer env req_id)) v = (Inr (), (fst u, snd u))"
      using u by (auto simp: seqA_Inr)
    from close_session_result [OF this] show ?thesis by auto
  qed
  ultimately show ?thesis by simp
qed

text \<open>
  C26.  A request is released only when nothing can use its pages any more: a release that answers
  True was asked for after persistence, finds no pending job and no budget charged, no fatal outcome
  and no fatal session, and leaves the session closed with nothing prepared.
\<close>

theorem released_requests_are_drained:
  assumes "at_request k (release_request env req_id stored)
      (started env config tp_size tp_independent alive calls) = (Inr True, w')"
    and "\<And>ks. Close ks \<notin> set calls"
  shows "stored \<and> pending (rt_jobs (snd w' ! k)) = [] \<and> rt_queued_bytes (snd w' ! k) = 0 \<and>
    \<not> fatal_request (snd (started env config tp_size tp_independent alive calls) ! k) \<and>
    (case rt_session (snd w' ! k) of None \<Rightarrow> True
     | Some s \<Rightarrow> ps_closed s \<and> ps_prepared s = [] \<and> \<not> ps_fatal s)"
proof -
  obtain c rs where w: "started env config tp_size tp_independent alive calls = (c, rs)" by fastforce
  obtain c1 r1 where k: "k < length rs" and run: "release_request env req_id stored (c, rs ! k) = (Inr True, (c1, r1))"
    and w': "w' = (c1, rs[k := r1])" using at_request_run [OF assms(1)] w by auto
  have q: "queued (rs ! k)"
    using started_queued [OF assms(2), of env config tp_size tp_independent alive] w k by (auto simp: all_queued_def)
  have guard: "\<not> fatal_request (rs ! k)" "stored" "rt_futures (rs ! k) = []"
    using run by (auto simp: release_request_def bindA_readA act_runs split: if_splits)
  have same: "rt_jobs r1 = rt_jobs (rs ! k)" using jk.keepsD [OF release_jobs run] by (simp add: same_jobs_def)
  have none: "pending (rt_jobs r1) = []" using drained [OF q guard(3)] same by simp
  have "books (c, rs)" using started_books [of env config tp_size tp_independent alive calls] w by simp
  from at_request_books [OF release_account this, of k env req_id stored] have "entry_ok c1 r1"
    using run k set_update_memI [OF k, of r1] by (simp add: at_request_def books_def)
  then have zero: "rt_queued_bytes r1 = 0" using none by (simp add: entry_ok_def)
  have closed: "case rt_session r1 of None \<Rightarrow> True | Some s \<Rightarrow> ps_closed s \<and> ps_prepared s = [] \<and> \<not> ps_fatal s"
    by (rule release_closes [OF run])
  show ?thesis using guard none zero closed k w' w by simp
qed


section \<open>Finishing\<close>

definition keeps_handoff :: "coordinator \<times> request_state \<Rightarrow> coordinator \<times> request_state \<Rightarrow> bool" where
  "keeps_handoff s t \<longleftrightarrow> (rt_handoff (snd s) \<noteq> None \<longrightarrow> rt_handoff (snd t) = rt_handoff (snd s))"

interpretation kh: frame keeps_handoff
  by unfold_locales (auto simp: keeps_handoff_def)

lemma jk_handoff: "jk.keeps m \<Longrightarrow> kh.keeps m"
  by (simp add: jk.keeps_def kh.keeps_def keeps_handoff_def same_jobs_def)

lemma run_job_handoff: "keeps_handoff s (run_job env i s)"
proof (cases rule: run_job_cases [of i s env])
  case (run j x c1 r1)
  then show ?thesis using jk.keepsD [OF jk_job(3) run(4)] by (simp add: keeps_handoff_def same_jobs_def)
qed (simp add: kh.frame_refl)

lemma run_until_handoff: "keeps_handoff s (run_until env i s)"
proof -
  have "keeps_handoff s (fold (run_job env) is s)" for "is"
  proof (induction "is" arbitrary: s)
    case (Cons i "is")
    show ?case using kh.frame_trans [OF run_job_handoff Cons] by simp
  qed (simp add: kh.frame_refl)
  then show ?thesis by (simp only: run_until_def)
qed

lemma wait_handoff: "kh.keeps (wait_request env)"
proof -
  have pop: "kh.keeps (on_request (\<lambda>r. r\<lparr>rt_futures := is\<rparr>))" for "is"
    by (simp add: kh.keeps_def on_request_def writeA_def keeps_handoff_def split: prod.split)
  have "kh.keeps (await_future env i)" for i
    unfolding await_future_def
    by (intro kh.keeps_seq kh.keeps_write run_until_handoff kh.keeps_intros)
  then have "kh.keeps (wait_futures env is)" for "is"
    by (induction "is") (auto simp: kh.keeps_ret intro!: kh.keeps_seq pop)
  then show ?thesis unfolding wait_request_def latching_def
    by (intro kh.keeps_intros jk_handoff [OF jk_updates(3)])
qed

lemma settle_terminal_result:
  "settle_terminal req_id t (c, r) = (Inr (), (c', r')) \<Longrightarrow>
   rt_terminal r' = Some t \<and> \<not> rt_viable_counted r' \<and> \<not> rt_active_counted r' \<and>
   rt_handoff r' = rt_handoff r \<and> rt_session r' = rt_session r \<and> rt_futures r' = rt_futures r \<and>
   map_of (cd_completed c') req_id = Some t \<and>
   (tr_direct_satisfied t \<and> cd_has_circuit c' \<longrightarrow> cd_circuit_failures c' = 0 \<and> cd_circuit_open_until c' = 0)"
  by (auto simp: settle_terminal_def on_coordinator_def on_request_def uncount_def act_defs Let_def
      record_success_def count_def update_conv' split: if_splits)

lemma finish_session_result:
  "run_session (finish_session env a b d) s = (Inr t, (c, r)) \<Longrightarrow>
   \<exists>se. rt_session r = Some se \<and> ps_terminal se = Some t"
  by (cases s) (auto simp: run_session_def finish_session_def bindA_readA act_defs Let_def
      split: option.splits prod.splits sum.splits)

lemma latch_same: "latch_fatal (c, r) = (Inr y, t) \<Longrightarrow> snd t = r"
  by (auto simp: latch_fatal_def split: option.splits)

lemma latching_Inr: "latching m s = (Inr x, t) \<longleftrightarrow> m s = (Inr x, t)"
  by (auto simp: latching_def act_runs raiseA_def retA_def seqA_def bindA_def attemptA_def
      split: sum.splits prod.splits if_splits)

lemma terminal_of_run:
  assumes "terminal_of env req_id required stored h (c, r) = (Inr t, (c1, r1))"
  shows "case rt_session r1 of None \<Rightarrow> t = terminal_without_session h stored required
      | Some se \<Rightarrow> ps_terminal se = Some t"
proof (cases "rt_session r")
  case None
  then show ?thesis using assms by (auto simp: terminal_of_def bindA_readA retA_def)
next
  case (Some x)
  then have "run_session (finish_session (ce_peer env req_id) required stored
      (required mod cf_chunk_size (cg_base (cd_config c)))) (c, r) = (Inr t, (c1, r1))"
    using assms by (simp add: terminal_of_def bindA_readA raiseA_def split: if_splits)
  from finish_session_result [OF this] show ?thesis by auto
qed

lemma terminal_of_jobs: "jk.keeps (terminal_of env req_id required stored h)"
  unfolding terminal_of_def by (intro jk_intros)

lemma wait_empty: "wait_request env s = (Inr (), t) \<Longrightarrow> rt_futures (snd t) = []"
proof -
  have run_job: "rt_futures (snd (fold (run_job env) ks s)) = rt_futures (snd s)" for ks s
    by (induction ks arbitrary: s) (simp_all add: run_job_jobs)
  have await: "rt_futures (snd t) = rt_futures (snd s)" if "await_future env i s = (x, t)" for i s x t
  proof -
    have "t = run_until env i s"
      using that by (auto simp: await_future_def act_defs split: prod.splits sum.splits)
    then show ?thesis using run_job [of "[0..<Suc i]" s] by (simp only: run_until_def)
  qed
  have "rt_futures (snd t) = []" if "wait_futures env (rt_futures (snd s)) s = (Inr (), t)" for s t
    using that
  proof (induction "rt_futures (snd s)" arbitrary: s)
    case Nil
    then show ?case using \<open>[] = rt_futures (snd s)\<close> by (auto simp: retA_def simp flip: Nil.hyps)
  next
    case (Cons i "is")
    obtain c r where s: "s = (c, r)" by fastforce
    have run: "wait_futures env (i # is) s = (Inr (), t)" using Cons by simp
    then obtain u where u: "await_future env i (c, r\<lparr>rt_futures := is\<rparr>) = (Inr (), u)"
      and rest: "wait_futures env is u = (Inr (), t)"
      by (auto simp: seqA_Inr on_request_def simple_Inr s)
    have "rt_futures (snd u) = is" using await [OF u] by simp
    then show ?case using Cons.hyps(1) [of u] rest by simp
  qed
  then show "wait_request env s = (Inr (), t) \<Longrightarrow> rt_futures (snd t) = []"
    by (cases s; cases t) (auto simp: wait_request_def latching_Inr bindA_readA)
qed

text \<open>
  Finishing settles a request once: when finish answers a result for the first time, every job
  was awaited, the request and the list of completed results carry that result, which is the
  session's own terminal result (or PERSISTENT_ONLY when no session was ever opened), the request no
  longer counts as viable or active, a direct success leaves the circuit breaker closed with no
  failures, and finishing again, with any arguments, answers the same result and changes nothing.
\<close>

theorem finish_settles_once:
  assumes "finish_request_state env req_id required stored (c, r) = (Inr (Some t), (c', r'))"
    and "rt_terminal r = None"
  shows "rt_terminal r' = Some t \<and> rt_futures r' = [] \<and> map_of (cd_completed c') req_id = Some t \<and>
    \<not> rt_viable_counted r' \<and> \<not> rt_active_counted r' \<and>
    (case rt_session r' of None \<Rightarrow> tr_outcome t = PERSISTENT_ONLY \<and> \<not> tr_direct_satisfied t
     | Some se \<Rightarrow> ps_terminal se = Some t) \<and>
    (tr_direct_satisfied t \<and> cd_has_circuit c' \<longrightarrow> cd_circuit_failures c' = 0 \<and> cd_circuit_open_until c' = 0) \<and>
    finish_request_state env req_id2 required2 stored2 (c', r') = (Inr (Some t), (c', r'))"
proof -
  obtain h where h: "rt_handoff r = Some h"
    using assms(1) by (auto simp: finish_request_state_def bindA_readA retA_def split: option.splits)
  have run: "finish_waited env req_id required stored h (c, r) = (Inr (Some t), (c', r'))"
    using assms h by (simp add: finish_request_state_def bindA_readA)
  obtain c1 r1 where wait: "wait_request env (c, r) = (Inr (), (c1, r1))"
    and rest: "seqA (on_coordinator (count id)) (bindA (latching (terminal_of env req_id required stored h)) (\<lambda>t.
      seqA (if tr_outcome t = FATAL_RESTART then latch_fatal else retA ())
        (seqA (settle_terminal req_id t) (retA (Some t))))) (c1, r1) = (Inr (Some t), (c', r'))"
    using run unfolding finish_waited_def by (subst (asm) seqA_Inr) auto
  obtain c2 r2 t2 where ended: "terminal_of env req_id required stored h (count id c1, r1) = (Inr t2, (c2, r2))"
    and rest2: "seqA (if tr_outcome t2 = FATAL_RESTART then latch_fatal else retA ())
        (seqA (settle_terminal req_id t2) (retA (Some t2))) (c2, r2) = (Inr (Some t), (c', r'))"
    using rest by (subst (asm) seqA_Inr) (auto simp: on_coordinator_def simple_Inr bindA_Inr latching_Inr)
  obtain v where v: "(if tr_outcome t2 = FATAL_RESTART then latch_fatal else retA ()) (c2, r2) = (Inr (), v)"
    and s: "settle_terminal req_id t2 v = (Inr (), (c', r'))" "t2 = t"
    using rest2 by (auto simp: seqA_Inr simple_Inr)
  have "snd v = r2" using v by (auto simp: retA_def dest: latch_same split: if_splits)
  then have settle: "settle_terminal req_id t (fst v, r2) = (Inr (), (c', r'))" using s by (cases v) simp
  have session: "case rt_session r2 of None \<Rightarrow> t = terminal_without_session h stored required
      | Some se \<Rightarrow> ps_terminal se = Some t" using terminal_of_run [OF ended] unfolding s(2) .
  have same: "same_jobs (c1, r1) (c2, r2)"
    using jk.keepsD [OF terminal_of_jobs ended] by (simp add: same_jobs_def)
  have "rt_handoff r1 = Some h" using kh.keepsD [OF wait_handoff wait] h by (simp add: keeps_handoff_def)
  then have h2: "rt_handoff r2 = Some h" using same by (simp add: same_jobs_def)
  note st = settle_terminal_result [OF settle]
  have "rt_futures r1 = []" using wait_empty [OF wait] by simp
  then have fut: "rt_futures r' = []" using same st by (simp add: same_jobs_def)
  have again: "finish_request_state env req_id2 required2 stored2 (c', r') = (Inr (Some t), (c', r'))"
    using st h2 by (simp add: finish_request_state_def bindA_readA retA_def)
  show ?thesis using st fut again session
    by (auto simp: terminal_without_session_def split: option.splits)
qed

definition example_env :: coordinator_env where
  "example_env = \<lparr>ce_clock = (\<lambda>_. 1), ce_random_bits = (\<lambda>_. 7), ce_python_hash_seed = [],
     ce_peer = (\<lambda>_. good_peer), ce_client_factory = Some (\<lambda>_ _. None), ce_executor_error = None,
     ce_submit_error = (\<lambda>_. None), ce_close_timeout = (\<lambda>_. False), ce_to_string = ck_model_name,
     ce_source_factory = (\<lambda>_ _. Inl (MemoryError ''no source'')), ce_owner_has_storage = (\<lambda>_. True),
     ce_owner_ranges = (\<lambda>_. Inr []), ce_validate_ranges = (\<lambda>_ _. None), ce_prepare_source = (\<lambda>_. Inr None)\<rparr>"

definition example_context :: session_context where
  "example_context = \<lparr>sx_layout = example_layout, sx_chunk_hash_type = HashBytes, sx_chunk_hash_bytes = Some 32, sx_tp_size = 2,
     sx_shared_group1 = False\<rparr>"

definition example_configs :: pyval where
  "example_configs = PMapping [(REMOTE_FILL_REQUEST_CONFIG_KEY, PMapping (handoff_fields example_handoff))]"

definition example_calls :: "call list" where
  "example_calls = [NewRequest, Prepare 0 example_configs,
     SubmitProbe 0 ''r'' [example_page_of ''k''] 4 2 example_context False]"


definition example_world :: "coordinator_env \<Rightarrow> call list \<Rightarrow> world" where
  "example_world env calls = started env example_coordinator_config 4 False True calls"

text \<open>A client factory that fails fatally, so that the first job cannot open its session.\<close>

definition fatal_env :: coordinator_env where
  "fatal_env = example_env\<lparr>ce_client_factory := Some (\<lambda>_ _. Some (FatalError ''lost''))\<rparr>"

theorem fatal_is_reported_witness:
  "\<exists>r \<in> set (snd (example_world fatal_env (example_calls @ [Wait 0]))).
     Finished (Inl (FatalError ''lost'')) \<in> set (rt_jobs r) \<and>
     (\<exists>h. rt_handoff r = Some h \<and>
       ho_transfer_id h \<in> set (cd_reports (fst (example_world fatal_env (example_calls @ [Wait 0])))))"
proof -
  let ?w = "started fatal_env example_coordinator_config 4 False True (example_calls @ [Wait 0])"
  have "map rt_jobs (snd ?w) = [[Finished (Inl (FatalError ''lost''))]]" by code_simp
  then obtain r where r: "r \<in> set (snd ?w)" "rt_jobs r = [Finished (Inl (FatalError ''lost''))]" by auto
  have alive: "cd_reporter_alive (fst ?w)" by code_simp
  have "\<exists>h. rt_handoff r = Some h \<and> ho_transfer_id h \<in> set (cd_reports (fst ?w))"
    using fatal_is_reported [OF r(1), of "FatalError ''lost''"] r(2) alive by auto
  then show ?thesis unfolding example_world_def by (intro bexI [OF _ r(1)]) (simp add: r(2))
qed

theorem wait_runs_every_job_witness:
  "length (pending (rt_jobs (snd (example_world example_env example_calls) ! 0))) = 1 \<and>
   (\<exists>c' r'. at_request 0 (wait_request example_env) (example_world example_env example_calls) =
      (Inr (), (c', (snd (example_world example_env example_calls))[0 := r'])) \<and> pending (rt_jobs r') = [])"
proof -
  let ?w = "started example_env example_coordinator_config 4 False True example_calls"
  have before: "length (pending (rt_jobs (snd ?w ! 0))) = 1" by code_simp
  have ok: "fst (at_request 0 (wait_request example_env) ?w) = Inr ()" by code_simp
  have "0 < length (snd ?w)" by code_simp
  moreover have "Close ks \<notin> set example_calls" for ks by (simp add: example_calls_def)
  ultimately obtain x c' r' where
    "at_request 0 (wait_request example_env) ?w = (x, (c', (snd ?w)[0 := r']))"
    "case x of Inr _ \<Rightarrow> pending (rt_jobs r') = [] \<and> rt_futures r' = [] \<and> rt_queued_bytes r' = 0 \<and>
        rt_queued_windows r' = 0 | Inl e \<Rightarrow> is_fatal e \<and> told c' r'"
    using wait_runs_every_job by blast
  then show ?thesis using before ok by (auto simp: example_world_def)
qed

theorem released_requests_are_drained_witness:
  "\<exists>w'. at_request 0 (release_request example_env ''r'' True)
      (example_world example_env (example_calls @ [call.Finish 0 ''r'' 4 4])) = (Inr True, w') \<and>
    (case rt_session (snd w' ! 0) of None \<Rightarrow> False | Some s \<Rightarrow> ps_closed s)"
proof -
  let ?calls = "example_calls @ [call.Finish 0 ''r'' 4 4]"
  let ?w = "started example_env example_coordinator_config 4 False True ?calls"
  have ok: "fst (at_request 0 (release_request example_env ''r'' True) ?w) = Inr True" by code_simp
  have some: "rt_session (snd (snd (at_request 0 (release_request example_env ''r'' True) ?w)) ! 0) \<noteq> None"
    by code_simp
  obtain w' where w': "at_request 0 (release_request example_env ''r'' True) ?w = (Inr True, w')"
    using ok by (metis prod.collapse)
  have "Close ks \<notin> set ?calls" for ks by (simp add: example_calls_def)
  from released_requests_are_drained [OF w' this] show ?thesis
    using w' some by (auto simp: example_world_def)
qed

theorem finish_settles_once_witness:
  "\<exists>t c' r'. finish_request_state example_env ''r'' 4 4
      (fst (example_world example_env example_calls), snd (example_world example_env example_calls) ! 0) =
        (Inr (Some t), (c', r')) \<and>
    tr_outcome t = LOCAL_FULL \<and> map_of (cd_completed c') ''r'' = Some t"
proof -
  let ?w = "started example_env example_coordinator_config 4 False True example_calls"
  have "map_option tr_outcome (case fst (finish_request_state example_env ''r'' 4 4 (fst ?w, snd ?w ! 0)) of
      Inr x \<Rightarrow> x | Inl _ \<Rightarrow> None) = Some LOCAL_FULL" by code_simp
  then obtain t where "fst (finish_request_state example_env ''r'' 4 4 (fst ?w, snd ?w ! 0)) = Inr (Some t)"
    and out: "tr_outcome t = LOCAL_FULL" by (auto split: sum.splits)
  then obtain c' r' where run: "finish_request_state example_env ''r'' 4 4 (fst ?w, snd ?w ! 0) = (Inr (Some t), (c', r'))"
    by (metis prod.collapse)
  have "rt_terminal (snd ?w ! 0) = None" by code_simp
  from finish_settles_once [OF run this] run out show ?thesis by (auto simp: example_world_def)
qed

end
