(* ===== verification/LayerwisePut.thy ===== *)
theory LayerwisePut
  imports Effects Complex_Main
begin

text \<open>
  \<open>layerwise_cpu_fill.py\<close>: the queue that bounds asynchronous puts of CPU pages
  (\<open>LayerwisePutQueue\<close>) and the lease that keeps staging pages alive (\<open>LayerwiseCPUFillLease\<close>).

  Futures are numbers.  The environment says at each tick which are done, how they end, how the clock
  reads, and how many ticks a \<open>wait\<close> takes; one \<open>poll\<close> sees one tick.
\<close>

record put_env =
  pv_done :: "nat \<Rightarrow> nat \<Rightarrow> bool"
  pv_error :: "nat \<Rightarrow> exn option"
  pv_clock :: "nat \<Rightarrow> rat"
  pv_wait :: "nat list \<Rightarrow> rat \<Rightarrow> nat \<Rightarrow> nat"

record put_queue =
  pq_max_bytes :: int
  pq_max_batches :: int
  pq_timeout :: rat
  pq_pending :: "(int \<times> nat list) list"
  pq_pending_bytes :: int
  pq_error :: "exn option"
  pq_request_futures :: "(string \<times> nat list) list"
  pq_key_futures :: "(string \<times> nat list) list"
  pq_tick :: nat

definition make_put_queue :: "int \<Rightarrow> int \<Rightarrow> rat \<Rightarrow> put_queue res" where
  "make_put_queue max_bytes max_batches timeout =
     (if max_bytes \<le> 0 \<or> max_batches \<le> 0 \<or> timeout < 0 then
        Inl (ValueError ''Layerwise put limits must be positive, timeout nonnegative'')
      else Inr \<lparr>pq_max_bytes = max_bytes, pq_max_batches = max_batches, pq_timeout = timeout,
        pq_pending = [], pq_pending_bytes = 0, pq_error = None, pq_request_futures = [],
        pq_key_futures = [], pq_tick = 0\<rparr>)"

definition put_fail :: "exn \<Rightarrow> put_queue \<Rightarrow> put_queue" where
  "put_fail e q = (if pq_error q = None then q\<lparr>pq_error := Some e\<rparr> else q)"

text \<open>The first finished future, in the order of the loop, whose \<open>result()\<close> raises.\<close>

definition first_error :: "put_env \<Rightarrow> put_queue \<Rightarrow> exn option" where
  "first_error env q =
     (case filter (\<lambda>f. pv_done env f (pq_tick q) \<and> pv_error env f \<noteq> None) (concat (map snd (pq_pending q))) of
        [] \<Rightarrow> None
      | f # _ \<Rightarrow> pv_error env f)"

definition completed_futures :: "put_env \<Rightarrow> put_queue \<Rightarrow> nat list" where
  "completed_futures env q = filter (\<lambda>f. pv_done env f (pq_tick q)) (concat (map snd (pq_pending q)))"

definition remaining_batches :: "put_env \<Rightarrow> put_queue \<Rightarrow> (int \<times> nat list) list" where
  "remaining_batches env q =
     filter (\<lambda>(n, fs). list_ex (\<lambda>f. \<not> pv_done env f (pq_tick q)) fs) (pq_pending q)"

text \<open>\<open>futures.difference_update(completed)\<close> in every entry; an entry left empty is deleted.\<close>

definition forget_futures :: "nat list \<Rightarrow> (string \<times> nat list) list \<Rightarrow> (string \<times> nat list) list" where
  "forget_futures completed deps =
     filter (\<lambda>(k, fs). fs \<noteq> []) (map (\<lambda>(k, fs). (k, filter (\<lambda>f. f \<notin> set completed) fs)) deps)"

type_synonym put_result = "unit res \<times> put_queue"

definition put_poll :: "put_env \<Rightarrow> put_queue \<Rightarrow> put_result" where
  "put_poll env q =
     (case pq_error q of
        Some e \<Rightarrow> (Inl e, q)
      | None \<Rightarrow>
          (case first_error env q of
             Some e \<Rightarrow> (Inl e, q\<lparr>pq_error := Some e, pq_tick := Suc (pq_tick q)\<rparr>)
           | None \<Rightarrow>
               let finished = completed_futures env q; remaining = remaining_batches env q;
                   q1 = q\<lparr>pq_pending := remaining, pq_pending_bytes := sum_list (map fst remaining),
                          pq_tick := Suc (pq_tick q)\<rparr>
               in (Inr (), if finished = [] then q1
                   else q1\<lparr>pq_request_futures := forget_futures finished (pq_request_futures q1),
                           pq_key_futures := forget_futures finished (pq_key_futures q1)\<rparr>)))"

definition put_timeout_error :: exn where
  "put_timeout_error = TimeoutError ''Layerwise CPU remote puts did not complete''"

text \<open>\<open>_, pending = wait(futures, timeout=...)\<close>, and the latched timeout if any is not done.\<close>

definition wait_for :: "put_env \<Rightarrow> nat list \<Rightarrow> rat \<Rightarrow> put_queue \<Rightarrow> put_result" where
  "wait_for env fs timeout q =
     (let q1 = q\<lparr>pq_tick := pq_tick q + pv_wait env fs timeout (pq_tick q)\<rparr> in
      if list_ex (\<lambda>f. \<not> pv_done env f (pq_tick q1)) fs
      then (Inl put_timeout_error, q1\<lparr>pq_error := Some put_timeout_error\<rparr>)
      else (Inr (), q1))"

definition wait_first :: "put_env \<Rightarrow> rat \<Rightarrow> put_queue \<Rightarrow> put_result" where
  "wait_first env deadline q =
     (case pq_pending q of
        [] \<Rightarrow> (Inl IndexError, q)
      | (_, fs) # _ \<Rightarrow>
          (case wait_for env fs (max 0 (deadline - pv_clock env (pq_tick q))) q of
             (Inl e, q1) \<Rightarrow> (Inl e, q1)
           | (Inr _, q1) \<Rightarrow> put_poll env q1))"

text \<open>\<open>while self.pending and busy: self._wait_first(deadline)\<close>; a loop that never ends has no result.\<close>

partial_function (option) wait_while ::
  "put_env \<Rightarrow> rat \<Rightarrow> (put_queue \<Rightarrow> bool) \<Rightarrow> put_queue \<Rightarrow> put_result option" where
  "wait_while env deadline busy q =
     (if pq_pending q = [] \<or> \<not> busy q then Some (Inr (), q)
      else case wait_first env deadline q of
        (Inl e, q1) \<Rightarrow> Some (Inl e, q1)
      | (Inr _, q1) \<Rightarrow> wait_while env deadline busy q1)"

definition over_limits :: "int \<Rightarrow> put_queue \<Rightarrow> bool" where
  "over_limits n q \<longleftrightarrow> int (length (pq_pending q)) \<ge> pq_max_batches q \<or>
     pq_pending_bytes q + n > pq_max_bytes q"

definition put_reserve :: "put_env \<Rightarrow> int \<Rightarrow> put_queue \<Rightarrow> put_result option" where
  "put_reserve env n q =
     (case put_poll env q of
        (Inl e, q1) \<Rightarrow> Some (Inl e, q1)
      | (Inr _, q1) \<Rightarrow> wait_while env (pv_clock env (pq_tick q1) + pq_timeout q1) (over_limits n) q1)"

text \<open>\<open>deps.setdefault(k, set()).update(futures)\<close>\<close>

definition depend :: "string \<Rightarrow> nat list \<Rightarrow> (string \<times> nat list) list \<Rightarrow> (string \<times> nat list) list" where
  "depend k fs deps =
     AList.update k ((case map_of deps k of None \<Rightarrow> [] | Some old \<Rightarrow> old) @ fs) deps"

definition put_add :: "int \<Rightarrow> nat list \<Rightarrow> string \<Rightarrow> string list \<Rightarrow> put_queue \<Rightarrow> put_queue" where
  "put_add n fs req_id keys q =
     (if fs = [] then q
      else q\<lparr>pq_pending := pq_pending q @ [(n, fs)], pq_pending_bytes := pq_pending_bytes q + n,
             pq_request_futures := (if req_id = [] then pq_request_futures q
               else depend req_id fs (pq_request_futures q)),
             pq_key_futures := fold (\<lambda>k. depend k fs) keys (pq_key_futures q)\<rparr>)"

definition futures_of :: "(string \<times> nat list) list \<Rightarrow> string \<Rightarrow> nat list" where
  "futures_of deps k = (case map_of deps k of None \<Rightarrow> [] | Some fs \<Rightarrow> fs)"

definition track_keys :: "string \<Rightarrow> string list \<Rightarrow> put_queue \<Rightarrow> put_queue" where
  "track_keys req_id keys q =
     (if req_id = [] \<or> pq_key_futures q = [] then q
      else q\<lparr>pq_request_futures := fold (\<lambda>k deps. if futures_of (pq_key_futures q) k = [] then deps
               else depend req_id (futures_of (pq_key_futures q) k) deps) keys (pq_request_futures q)\<rparr>)"

definition drain_requests :: "put_env \<Rightarrow> string list \<Rightarrow> put_queue \<Rightarrow> put_result" where
  "drain_requests env req_ids q =
     (case put_poll env q of
        (Inl e, q1) \<Rightarrow> (Inl e, q1)
      | (Inr _, q1) \<Rightarrow>
          let fs = concat (map (futures_of (pq_request_futures q1)) req_ids) in
          (case (if fs = [] then (Inr (), q1) else wait_for env fs (pq_timeout q1) q1) of
             (Inl e, q2) \<Rightarrow> (Inl e, q2)
           | (Inr _, q2) \<Rightarrow> put_poll env q2))"

definition put_drain :: "put_env \<Rightarrow> put_queue \<Rightarrow> put_result option" where
  "put_drain env q =
     (case put_poll env q of
        (Inl e, q1) \<Rightarrow> Some (Inl e, q1)
      | (Inr _, q1) \<Rightarrow>
          (case wait_while env (pv_clock env (pq_tick q1) + pq_timeout q1) (\<lambda>_. True) q1 of
             None \<Rightarrow> None
           | Some (Inl e, q2) \<Rightarrow> Some (Inl e, q2)
           | Some (Inr _, q2) \<Rightarrow> Some (put_poll env q2)))"

section \<open>Runs\<close>

text \<open>
  The calls a client makes: a batch is added right after its capacity was reserved, as \<open>add\<close> demands.
  The history holds what was really added.
\<close>

datatype put_call =
    PutSubmit int "nat list" string "string list"
  | PutTrack string "string list"
  | PutDrainRequests "string list"
  | PutDrain
  | PutPoll
  | PutFail exn

datatype put_event = Added "nat list" string "string list" | Tracked string "string list"

definition put_step :: "put_env \<Rightarrow> put_call \<Rightarrow> put_queue \<Rightarrow> put_result option" where
  "put_step env x q =
     (case x of
        PutSubmit n fs req_id keys \<Rightarrow>
          (case put_reserve env n q of
             None \<Rightarrow> None
           | Some (Inl e, q1) \<Rightarrow> Some (Inl e, q1)
           | Some (Inr _, q1) \<Rightarrow> Some (Inr (), put_add n fs req_id keys q1))
      | PutTrack req_id keys \<Rightarrow> Some (Inr (), track_keys req_id keys q)
      | PutDrainRequests req_ids \<Rightarrow> Some (drain_requests env req_ids q)
      | PutDrain \<Rightarrow> put_drain env q
      | PutPoll \<Rightarrow> Some (put_poll env q)
      | PutFail e \<Rightarrow> Some (Inr (), put_fail e q))"

definition put_events :: "put_call \<Rightarrow> unit res \<Rightarrow> put_event list" where
  "put_events x r =
     (case (x, r) of
        (PutSubmit _ fs req_id keys, Inr _) \<Rightarrow> [Added fs req_id keys]
      | (PutTrack req_id keys, Inr _) \<Rightarrow> [Tracked req_id keys]
      | _ \<Rightarrow> [])"

fun put_run ::
  "put_env \<Rightarrow> put_call list \<Rightarrow> put_queue \<times> put_event list \<Rightarrow> (put_queue \<times> put_event list) option" where
  "put_run env [] qh = Some qh"
| "put_run env (x # xs) (q, h) =
     (case put_step env x q of
        None \<Rightarrow> None
      | Some (r, q1) \<Rightarrow> put_run env xs (q1, h @ put_events x r))"

text \<open>
  What a request must wait for: the futures added for it, and those added under a key it tracked
  afterwards.
\<close>

definition owe :: "put_event \<Rightarrow> (string \<times> nat) set \<times> (string \<times> nat) set \<Rightarrow>
    (string \<times> nat) set \<times> (string \<times> nat) set" where
  "owe ev rk =
     (case (ev, rk) of
        (Added fs r ks, (R, K)) \<Rightarrow> (R \<union> (if r = [] then {} else {r} \<times> set fs), K \<union> set ks \<times> set fs)
      | (Tracked r ks, (R, K)) \<Rightarrow> (R \<union> (if r = [] then {} else {r} \<times> (K `` set ks)), K))"

definition owed :: "put_event list \<Rightarrow> (string \<times> nat) set \<times> (string \<times> nat) set" where
  "owed h = fold owe h ({}, {})"

definition added :: "put_event list \<Rightarrow> nat set" where
  "added h = (\<Union>ev \<in> set h. case ev of Added fs _ _ \<Rightarrow> set fs | Tracked _ _ \<Rightarrow> {})"

text \<open>A future that is done stays done.\<close>

definition stable :: "put_env \<Rightarrow> bool" where
  "stable env \<longleftrightarrow> (\<forall>f t u. pv_done env f t \<longrightarrow> t \<le> u \<longrightarrow> pv_done env f u)"

section \<open>Waiting terminates\<close>

lemma poll_pending:
  "put_poll env q = (Inr (), q1) \<Longrightarrow> pq_error q = None \<and> pq_error q1 = None \<and> first_error env q = None \<and>
     pq_pending q1 = remaining_batches env q \<and> pq_tick q1 = Suc (pq_tick q) \<and>
     pq_pending_bytes q1 = sum_list (map fst (pq_pending q1)) \<and> pq_max_batches q1 = pq_max_batches q \<and>
     pq_max_bytes q1 = pq_max_bytes q"
  by (auto simp: put_poll_def Let_def split: option.splits if_splits)

lemma wait_for_done:
  "wait_for env fs timeout q = (Inr (), q1) \<Longrightarrow>
     q1 = q\<lparr>pq_tick := pq_tick q1\<rparr> \<and> pq_tick q \<le> pq_tick q1 \<and> (\<forall>f \<in> set fs. pv_done env f (pq_tick q1))"
  by (auto simp: wait_for_def Let_def list_ex_iff split: if_splits)

lemma wait_first_shrinks:
  assumes "wait_first env deadline q = (Inr (), q1)"
  shows "length (pq_pending q1) < length (pq_pending q)"
proof -
  obtain n fs rest where p: "pq_pending q = (n, fs) # rest"
    using assms by (auto simp: wait_first_def split: list.splits)
  obtain q2 where w: "wait_for env fs (max 0 (deadline - pv_clock env (pq_tick q))) q = (Inr (), q2)"
    and poll: "put_poll env q2 = (Inr (), q1)"
    using assms p by (auto simp: wait_first_def split: prod.splits sum.splits)
  have "pq_pending q2 = (n, fs) # rest" "\<not> list_ex (\<lambda>f. \<not> pv_done env f (pq_tick q2)) fs"
    using wait_for_done [OF w] p by (auto simp: list_ex_iff) (metis put_queue.select_convs(4) put_queue.surjective put_queue.update_convs(9))
  then have "remaining_batches env q2 = filter (\<lambda>(n, fs). list_ex (\<lambda>f. \<not> pv_done env f (pq_tick q2)) fs) rest"
    by (simp add: remaining_batches_def)
  then show ?thesis using poll_pending [OF poll] p by (simp add: le_imp_less_Suc)
qed

lemma wait_while_terminates: "\<exists>r. wait_while env deadline busy q = Some r"
proof (induction "length (pq_pending q)" arbitrary: q rule: less_induct)
  case less
  show ?case
  proof (cases "pq_pending q = [] \<or> \<not> busy q")
    case True
    then show ?thesis by (subst wait_while.simps) simp
  next
    case False
    obtain r q1 where w: "wait_first env deadline q = (r, q1)" by (metis surj_pair)
    show ?thesis
    proof (cases r)
      case (Inl e)
      then show ?thesis using False w by (subst wait_while.simps) simp
    next
      case (Inr u)
      then have "length (pq_pending q1) < length (pq_pending q)" using wait_first_shrinks w by simp
      from less [OF this] show ?thesis using False w Inr by (subst wait_while.simps) simp
    qed
  qed
qed

lemma reserve_result: "\<exists>r. put_reserve env n q = Some r"
  using wait_while_terminates by (auto simp: put_reserve_def split: prod.split sum.split)

lemma drain_result: "\<exists>r. put_drain env q = Some r"
proof -
  obtain r q1 where p: "put_poll env q = (r, q1)" by (metis surj_pair)
  obtain y where "wait_while env (pv_clock env (pq_tick q1) + pq_timeout q1) (\<lambda>_. True) q1 = Some y"
    using wait_while_terminates by blast
  then show ?thesis using p by (cases r; cases y; cases "fst y") (auto simp: put_drain_def)
qed

lemma step_result: "\<exists>r. put_step env x q = Some r"
proof (cases x)
  case (PutSubmit n fs r ks)
  obtain y q1 where "put_reserve env n q = Some (y, q1)" using reserve_result by fast
  then show ?thesis using PutSubmit by (cases y) (simp_all add: put_step_def)
next
  case PutDrain
  then show ?thesis using drain_result by (simp add: put_step_def)
qed (simp_all add: put_step_def)

lemma run_result: "\<exists>qh. put_run env xs qh0 = Some qh"
proof (induction xs arbitrary: qh0)
  case (Cons x xs)
  obtain q h where qh: "qh0 = (q, h)" by fastforce
  obtain r q1 where "put_step env x q = Some (r, q1)" using step_result by fast
  then show ?case using Cons [of "(q1, h @ put_events x r)"] qh by simp
qed simp

section \<open>Invariants of the loop\<close>

text \<open>A relation that polls and waits respect is respected by every call built from them.\<close>

locale put_invariant =
  fixes env :: put_env and P :: "put_queue \<Rightarrow> bool"
  assumes poll_keeps: "P q \<Longrightarrow> put_poll env q = (r, q1) \<Longrightarrow> P q1"
    and wait_keeps: "P q \<Longrightarrow> pq_error q = None \<Longrightarrow> wait_for env fs timeout q = (r, q1) \<Longrightarrow> P q1"
begin

lemma wait_first_keeps:
  assumes "P q" "pq_error q = None" "wait_first env deadline q = (r, q1)"
  shows "P q1"
proof (cases "pq_pending q")
  case Nil
  then show ?thesis using assms by (simp add: wait_first_def)
next
  case (Cons x rest)
  obtain y q2 where w: "wait_for env (snd x) (max 0 (deadline - pv_clock env (pq_tick q))) q = (y, q2)" by (metis surj_pair)
  have "P q2" by (rule wait_keeps [OF assms(1,2) w])
  then show ?thesis using poll_keeps assms(3) Cons w
    by (cases x; cases y) (auto simp: wait_first_def)
qed

lemma wait_first_clean: "wait_first env deadline q = (Inr u, q1) \<Longrightarrow> pq_error q1 = None"
  using poll_pending by (auto simp: wait_first_def split: list.splits prod.splits sum.splits)

lemma wait_while_keeps:
  assumes "P q" "pq_error q = None" "wait_while env deadline busy q = Some (r, q')"
  shows "P q' \<and> (r = Inr () \<longrightarrow> pq_error q' = None \<and> (pq_pending q' = [] \<or> \<not> busy q'))"
  using assms
proof (induction "length (pq_pending q)" arbitrary: q rule: less_induct)
  case less
  show ?case
  proof (cases "pq_pending q = [] \<or> \<not> busy q")
    case True
    then show ?thesis using less.prems by (subst (asm) wait_while.simps) auto
  next
    case False
    obtain y q1 where w: "wait_first env deadline q = (y, q1)" by (metis surj_pair)
    have p1: "P q1" by (rule wait_first_keeps [OF less.prems(1,2) w])
    show ?thesis
    proof (cases y)
      case (Inl e)
      then show ?thesis using False w less.prems(3) p1 by (subst (asm) wait_while.simps) auto
    next
      case (Inr u)
      have shrink: "length (pq_pending q1) < length (pq_pending q)" using wait_first_shrinks w Inr by simp
      have "wait_while env deadline busy q1 = Some (r, q')"
        using False w Inr less.prems(3) by (subst (asm) wait_while.simps) auto
      moreover have "pq_error q1 = None" using wait_first_clean [of deadline q u q1] w Inr by simp
      ultimately show ?thesis using less.hyps [OF shrink p1] by blast
    qed
  qed
qed

lemma reserve_keeps:
  assumes "P q" "put_reserve env n q = Some (r, q')"
  shows "P q' \<and> (r = Inr () \<longrightarrow> pq_error q' = None \<and> (pq_pending q' = [] \<or> \<not> over_limits n q'))"
proof -
  obtain y q1 where p: "put_poll env q = (y, q1)" by (metis surj_pair)
  have p1: "P q1" by (rule poll_keeps [OF assms(1) p])
  show ?thesis
  proof (cases y)
    case (Inl e)
    then show ?thesis using assms(2) p p1 by (auto simp: put_reserve_def)
  next
    case (Inr u)
    then have "pq_error q1 = None" using poll_pending p by simp
    moreover have "wait_while env (pv_clock env (pq_tick q1) + pq_timeout q1) (over_limits n) q1 = Some (r, q')"
      using assms(2) p Inr by (simp add: put_reserve_def)
    ultimately show ?thesis using wait_while_keeps [OF p1] by blast
  qed
qed

lemma drain_requests_keeps:
  assumes "P q" "drain_requests env rs q = (r, q')"
  shows "P q'"
proof -
  obtain y q1 where p: "put_poll env q = (y, q1)" by (metis surj_pair)
  have p1: "P q1" by (rule poll_keeps [OF assms(1) p])
  show ?thesis
  proof (cases y)
    case (Inl e)
    then show ?thesis using assms(2) p p1 by (auto simp: drain_requests_def)
  next
    case (Inr u)
    then have e: "pq_error q1 = None" using poll_pending p by simp
    let ?fs = "concat (map (futures_of (pq_request_futures q1)) rs)"
    obtain z q2 where w: "(if ?fs = [] then (Inr (), q1) else wait_for env ?fs (pq_timeout q1) q1) = (z, q2)"
      by (metis surj_pair)
    have "P q2" using w p1 wait_keeps [OF p1 e, of ?fs "pq_timeout q1" z q2] by (auto split: if_splits)
    then show ?thesis using assms(2) p Inr w poll_keeps by (cases z) (auto simp: drain_requests_def Let_def)
  qed
qed

lemma drain_keeps:
  assumes "P q" "put_drain env q = Some (r, q')"
  shows "P q' \<and> (r = Inr () \<longrightarrow> pq_pending q' = [])"
proof -
  obtain y q1 where p: "put_poll env q = (y, q1)" by (metis surj_pair)
  have p1: "P q1" by (rule poll_keeps [OF assms(1) p])
  show ?thesis
  proof (cases y)
    case (Inl e)
    then show ?thesis using assms(2) p p1 by (auto simp: put_drain_def)
  next
    case (Inr u)
    then have e: "pq_error q1 = None" using poll_pending p by simp
    obtain z q2 where w: "wait_while env (pv_clock env (pq_tick q1) + pq_timeout q1) (\<lambda>_. True) q1 = Some (z, q2)"
      using wait_while_terminates by fast
    have p2: "P q2 \<and> (z = Inr () \<longrightarrow> pq_error q2 = None \<and> pq_pending q2 = [])"
      using wait_while_keeps [OF p1 e w] by simp
    show ?thesis
    proof (cases z)
      case (Inl e')
      then show ?thesis using assms(2) p Inr w p2 by (simp add: put_drain_def)
    next
      case (Inr v)
      then have final: "put_poll env q2 = (r, q')" using assms(2) p \<open>y = Inr u\<close> w by (simp add: put_drain_def)
      have "r = Inr () \<Longrightarrow> pq_pending q' = []"
        using poll_pending [of env q2 q'] final p2 Inr by (simp add: remaining_batches_def)
      then show ?thesis using poll_keeps [OF _ final] p2 by blast
    qed
  qed
qed

end


section \<open>Limits\<close>

definition put_counted :: "int \<Rightarrow> int \<Rightarrow> put_queue \<Rightarrow> bool" where
  "put_counted mb mn q \<longleftrightarrow> pq_max_bytes q = mb \<and> pq_max_batches q = mn \<and> pq_pending_bytes q = sum_list (map fst (pq_pending q)) \<and>
     list_all (\<lambda>b. 0 \<le> fst b) (pq_pending q) \<and> 0 < pq_max_batches q \<and>
     int (length (pq_pending q)) \<le> pq_max_batches q \<and>
     (pq_pending_bytes q \<le> pq_max_bytes q \<or> length (pq_pending q) \<le> 1)"

lemma sum_filter_le: "list_all (\<lambda>b. 0 \<le> fst b) xs \<Longrightarrow>
    sum_list (map fst (filter P xs)) \<le> (sum_list (map fst xs) :: int)"
  by (induction xs) auto

lemma poll_counted: "put_counted mb mn q \<Longrightarrow> put_poll env q = (r, q1) \<Longrightarrow> put_counted mb mn q1"
proof -
  assume c: "put_counted mb mn q" and p: "put_poll env q = (r, q1)"
  show ?thesis
  proof (cases r)
    case (Inl e)
    then show ?thesis using c p by (auto simp: put_poll_def put_counted_def Let_def split: option.splits)
  next
    case (Inr u)
    have q1: "pq_pending q1 = remaining_batches env q" "pq_pending_bytes q1 = sum_list (map fst (pq_pending q1))"
      "pq_max_batches q1 = pq_max_batches q" "pq_max_bytes q1 = pq_max_bytes q"
      using poll_pending [of env q q1] p Inr by simp_all
    have le: "length (remaining_batches env q) \<le> length (pq_pending q)" by (simp add: remaining_batches_def)
    have "sum_list (map fst (remaining_batches env q)) \<le> sum_list (map fst (pq_pending q))"
      unfolding remaining_batches_def by (rule sum_filter_le) (use c in \<open>simp add: put_counted_def\<close>)
    moreover have "list_all (\<lambda>b. 0 \<le> fst b) (remaining_batches env q)"
      using c by (auto simp: remaining_batches_def put_counted_def list_all_iff)
    ultimately show ?thesis using c q1 le by (auto simp: put_counted_def)
  qed
qed

lemma wait_counted: "put_counted mb mn q \<Longrightarrow> wait_for env fs timeout q = (r, q1) \<Longrightarrow> put_counted mb mn q1"
  by (auto simp: wait_for_def Let_def put_counted_def split: if_splits)

interpretation counted: put_invariant env "put_counted mb mn" for env mb mn
  by unfold_locales (auto intro: poll_counted wait_counted)

lemma add_counted:
  assumes "put_counted mb mn q" "pq_pending q = [] \<or> \<not> over_limits n q" "0 \<le> n"
  shows "put_counted mb mn (put_add n fs r ks q)"
  using assms by (auto simp: put_counted_def put_add_def over_limits_def)

definition call_sizes_ok :: "put_call \<Rightarrow> bool" where
  "call_sizes_ok x = (case x of PutSubmit n _ _ _ \<Rightarrow> 0 \<le> n | _ \<Rightarrow> True)"

lemma step_counted:
  assumes "put_counted mb mn q" "call_sizes_ok x" "put_step env x q = Some (r, q1)"
  shows "put_counted mb mn q1"
proof (cases x)
  case (PutSubmit n fs req ks)
  obtain y q2 where y: "put_reserve env n q = Some (y, q2)" using reserve_result by fast
  then show ?thesis using counted.reserve_keeps [OF assms(1) y] assms(2,3) add_counted PutSubmit
    by (cases y) (auto simp: put_step_def call_sizes_ok_def)
next
  case (PutTrack req ks)
  then show ?thesis using assms by (auto simp: put_step_def track_keys_def put_counted_def)
next
  case (PutDrainRequests reqs)
  then show ?thesis using counted.drain_requests_keeps [OF assms(1)] assms(3) by (simp add: put_step_def)
next
  case PutDrain
  then show ?thesis using counted.drain_keeps [OF assms(1)] assms(3) by (simp add: put_step_def)
next
  case PutPoll
  then show ?thesis using poll_counted [OF assms(1)] assms(3) by (simp add: put_step_def)
next
  case (PutFail e)
  then show ?thesis using assms by (auto simp: put_step_def put_fail_def put_counted_def)
qed

lemma run_counted:
  "put_counted mb mn q \<Longrightarrow> list_all call_sizes_ok xs \<Longrightarrow> put_run env xs (q, h) = Some (q', h') \<Longrightarrow> put_counted mb mn q'"
proof (induction xs arbitrary: q h)
  case (Cons x xs)
  obtain r q1 where s: "put_step env x q = Some (r, q1)" using step_result by fast
  have "put_counted mb mn q1" using step_counted [OF Cons.prems(1) _ s] Cons.prems(2) by simp
  from Cons.IH [OF this] show ?case using Cons.prems s by simp
qed simp

section \<open>Fences\<close>

definition landed :: "put_env \<Rightarrow> nat \<Rightarrow> nat \<Rightarrow> bool" where
  "landed env t f \<longleftrightarrow> pv_done env f t \<and> pv_error env f = None"

definition pending_futures :: "put_queue \<Rightarrow> nat set" where
  "pending_futures q = set (concat (map snd (pq_pending q)))"

definition fenced :: "put_env \<Rightarrow> put_event list \<Rightarrow> put_queue \<Rightarrow> bool" where
  "fenced env h q \<longleftrightarrow> stable env \<and>
     distinct (map fst (pq_request_futures q)) \<and> distinct (map fst (pq_key_futures q)) \<and>
     (pq_error q = None \<longrightarrow>
       (\<forall>f \<in> added h. landed env (pq_tick q) f \<or> f \<in> pending_futures q) \<and>
       (\<forall>(r, f) \<in> fst (owed h). landed env (pq_tick q) f \<or> f \<in> set (futures_of (pq_request_futures q) r)) \<and>
       (\<forall>(k, f) \<in> snd (owed h). landed env (pq_tick q) f \<or> f \<in> set (futures_of (pq_key_futures q) k)))"

lemma landed_later: "stable env \<Longrightarrow> landed env t f \<Longrightarrow> t \<le> u \<Longrightarrow> landed env u f"
  by (auto simp: landed_def stable_def)

lemma forget_distinct: "distinct (map fst deps) \<Longrightarrow> distinct (map fst (forget_futures c deps))"
proof -
  assume "distinct (map fst deps)"
  moreover have "map fst (map (\<lambda>(k, fs). (k, filter (\<lambda>f. f \<notin> set c) fs)) deps) = map fst deps"
    by (induction deps) auto
  ultimately show ?thesis unfolding forget_futures_def by (intro distinct_map_filter) (simp only:)
qed

lemma forget_futures_of:
  "distinct (map fst deps) \<Longrightarrow> futures_of (forget_futures c deps) k = filter (\<lambda>f. f \<notin> set c) (futures_of deps k)"
proof (induction deps)
  case (Cons x deps)
  obtain j fs where x: "x = (j, fs)" by fastforce
  have ih: "futures_of (forget_futures c deps) k = filter (\<lambda>f. f \<notin> set c) (futures_of deps k)" using Cons by simp
  have absent: "j = k \<Longrightarrow> futures_of (forget_futures c deps) k = []"
  proof -
    assume "j = k"
    then have "map_of deps k = None" using Cons.prems x by (auto simp: map_of_eq_None_iff)
    then show ?thesis using ih by (simp add: futures_of_def)
  qed
  show ?case
  proof (cases "filter (\<lambda>f. f \<notin> set c) fs = []")
    case True
    then have "forget_futures c (x # deps) = forget_futures c deps" by (simp add: forget_futures_def x)
    then show ?thesis using ih absent True x by (cases "j = k") (simp_all add: futures_of_def)
  next
    case False
    then have "forget_futures c (x # deps) = (j, filter (\<lambda>f. f \<notin> set c) fs) # forget_futures c deps"
      by (simp add: forget_futures_def x)
    then show ?thesis using ih x by (cases "j = k") (simp_all add: futures_of_def)
  qed
qed (simp add: forget_futures_def futures_of_def)

lemma depend_futures_of:
  "futures_of (depend k fs deps) j = (if j = k then futures_of deps k @ fs else futures_of deps j)"
  by (simp add: depend_def futures_of_def update_conv' split: option.split)

lemma depend_distinct: "distinct (map fst deps) \<Longrightarrow> distinct (map fst (depend k fs deps))"
  unfolding depend_def by (rule distinct_update)

lemma completed_landed:
  assumes "first_error env q = None" "f \<in> set (completed_futures env q)"
  shows "landed env (pq_tick q) f"
proof -
  have "filter (\<lambda>f. pv_done env f (pq_tick q) \<and> pv_error env f \<noteq> None) (concat (map snd (pq_pending q))) = []"
    using assms(1) by (auto simp: first_error_def filter_eq_Cons_iff split: list.splits)
  then show ?thesis using assms(2) by (auto simp: completed_futures_def landed_def filter_empty_conv)
qed

lemma pending_completed:
  assumes "f \<in> pending_futures q"
  shows "f \<in> set (completed_futures env q) \<or> (\<exists>b \<in> set (remaining_batches env q). f \<in> set (snd b))"
  using assms by (fastforce simp: pending_futures_def completed_futures_def remaining_batches_def list_ex_iff)

lemma poll_fenced:
  assumes f: "fenced env h q" and p: "put_poll env q = (r, q1)"
  shows "fenced env h q1"
proof (cases r)
  case (Inl e)
  then show ?thesis using f p by (auto simp: put_poll_def fenced_def Let_def split: option.splits)
next
  case (Inr u)
  let ?c = "completed_futures env q"
  have poll: "pq_error q = None" "pq_error q1 = None" "first_error env q = None" "pq_pending q1 = remaining_batches env q"
    "pq_tick q1 = Suc (pq_tick q)" using poll_pending [of env q q1] p Inr by simp_all
  have st: "stable env" "distinct (map fst (pq_request_futures q))" "distinct (map fst (pq_key_futures q))"
    using f by (simp_all add: fenced_def)
  have later: "landed env (pq_tick q) x \<Longrightarrow> landed env (pq_tick q1) x" for x
    using landed_later [OF st(1)] poll(5) by simp
  have done_c: "x \<in> set ?c \<Longrightarrow> landed env (pq_tick q1) x" for x
    using completed_landed [OF poll(3)] later by blast
  have deps: "set (futures_of (pq_request_futures q) k) \<subseteq> set ?c \<union> set (futures_of (pq_request_futures q1) k)"
    "set (futures_of (pq_key_futures q) k) \<subseteq> set ?c \<union> set (futures_of (pq_key_futures q1) k)" for k
    using p Inr poll st(2,3) by (auto simp: put_poll_def Let_def forget_futures_of split: if_splits)
  have dist: "distinct (map fst (pq_request_futures q1))" "distinct (map fst (pq_key_futures q1))"
    using p Inr poll st(2,3) by (auto simp: put_poll_def Let_def forget_distinct split: if_splits)
  have "landed env (pq_tick q1) x \<or> x \<in> pending_futures q1" if "x \<in> added h" for x
    using f poll(1) that later done_c pending_completed [of x q env] poll(4)
    by (fastforce simp: fenced_def pending_futures_def)
  moreover have "landed env (pq_tick q1) x \<or> x \<in> set (futures_of (pq_request_futures q1) k)"
    if "(k, x) \<in> fst (owed h)" for k x
    using f poll(1) that later done_c deps(1) [of k] by (fastforce simp: fenced_def)
  moreover have "landed env (pq_tick q1) x \<or> x \<in> set (futures_of (pq_key_futures q1) k)"
    if "(k, x) \<in> snd (owed h)" for k x
    using f poll(1) that later done_c deps(2) [of k] by (fastforce simp: fenced_def)
  ultimately show ?thesis unfolding fenced_def using st(1) dist by blast
qed

lemma wait_fenced:
  assumes f: "fenced env h q" and e: "pq_error q = None" and w: "wait_for env fs timeout q = (r, q1)"
  shows "fenced env h q1"
proof (cases r)
  case (Inl x)
  then show ?thesis using f w by (auto simp: wait_for_def fenced_def Let_def split: if_splits)
next
  case (Inr u)
  then have q1: "q1 = q\<lparr>pq_tick := pq_tick q1\<rparr>" "pq_tick q \<le> pq_tick q1" using wait_for_done w by auto
  have st: "stable env" using f by (simp add: fenced_def)
  have later: "landed env (pq_tick q) x \<Longrightarrow> landed env (pq_tick q1) x" for x
    using landed_later [OF st _ q1(2)] .
  have same: "pq_request_futures q1 = pq_request_futures q" "pq_key_futures q1 = pq_key_futures q"
    "pending_futures q1 = pending_futures q"
    by (subst q1(1), simp add: pending_futures_def)+
  show ?thesis using f e later same by (fastforce simp: fenced_def)
qed

interpretation fence: put_invariant env "fenced env h" for env h
  by unfold_locales (auto intro: poll_fenced wait_fenced)

lemma fenced_same_pending:
  assumes "fenced env h q" "pq_error q1 = pq_error q \<or> pq_error q1 \<noteq> None" "pq_tick q1 = pq_tick q" "pq_pending q1 = pq_pending q"
    "pq_request_futures q1 = pq_request_futures q" "pq_key_futures q1 = pq_key_futures q"
  shows "fenced env h q1"
  using assms by (auto simp: fenced_def pending_futures_def)

lemma fold_depend_futures:
  "set (futures_of (fold (\<lambda>k. depend k fs) ks deps) j) =
     set (futures_of deps j) \<union> (if j \<in> set ks then set fs else {})"
  by (induction ks arbitrary: deps) (auto simp: depend_futures_of)

lemma fold_depend_distinct:
  "distinct (map fst deps) \<Longrightarrow> distinct (map fst (fold (\<lambda>k. depend k fs) ks deps))"
  by (induction ks arbitrary: deps) (simp_all add: depend_distinct)

lemma fold_inherit_futures:
  "set (futures_of (fold (\<lambda>k deps. if futures_of keys k = [] then deps else depend r (futures_of keys k) deps) ks deps) j) =
     set (futures_of deps j) \<union> (if j = r then (\<Union>k \<in> set ks. set (futures_of keys k)) else {})"
  by (induction ks arbitrary: deps) (auto simp: depend_futures_of)

lemma fold_inherit_distinct:
  "distinct (map fst deps) \<Longrightarrow>
   distinct (map fst (fold (\<lambda>k deps. if futures_of keys k = [] then deps else depend r (futures_of keys k) deps) ks deps))"
  by (induction ks arbitrary: deps) (simp_all add: depend_distinct)

lemma owed_snoc: "owed (h @ [ev]) = owe ev (owed h)"
  by (simp add: owed_def)

lemma added_snoc: "added (h @ [ev]) = added h \<union> (case ev of Added fs _ _ \<Rightarrow> set fs | Tracked _ _ \<Rightarrow> {})"
  by (auto simp: added_def)

lemma add_fenced:
  assumes "fenced env h q"
  shows "fenced env (h @ [Added fs r ks]) (put_add n fs r ks q)"
proof (cases "fs = []")
  case True
  then show ?thesis using assms by (cases "owed h") (auto simp: put_add_def fenced_def owed_snoc added_snoc owe_def)
next
  case False
  let ?q = "put_add n fs r ks q"
  have same: "pq_error ?q = pq_error q" "pq_tick ?q = pq_tick q" "pending_futures ?q = pending_futures q \<union> set fs"
    using False by (auto simp: put_add_def pending_futures_def)
  have req: "set (futures_of (pq_request_futures ?q) j) =
      set (futures_of (pq_request_futures q) j) \<union> (if r \<noteq> [] \<and> j = r then set fs else {})" for j
    using False by (simp add: put_add_def depend_futures_of)
  have key: "set (futures_of (pq_key_futures ?q) j) =
      set (futures_of (pq_key_futures q) j) \<union> (if j \<in> set ks then set fs else {})" for j
    using False by (simp add: put_add_def fold_depend_futures)
  have dist: "distinct (map fst (pq_request_futures ?q))" "distinct (map fst (pq_key_futures ?q))"
    using assms False by (simp_all add: put_add_def fenced_def depend_distinct fold_depend_distinct)
  obtain R K where o: "owed h = (R, K)" by fastforce
  have o': "owed (h @ [Added fs r ks]) = (R \<union> (if r = [] then {} else {r} \<times> set fs), K \<union> set ks \<times> set fs)"
    by (simp add: owed_snoc o owe_def)
  show ?thesis using assms dist unfolding fenced_def same o o' added_snoc req key
    by (auto split: if_splits)
qed

lemma track_fenced:
  assumes "fenced env h q"
  shows "fenced env (h @ [Tracked r ks]) (track_keys r ks q)"
proof -
  let ?q = "track_keys r ks q"
  obtain R K where o: "owed h = (R, K)" by fastforce
  have o': "owed (h @ [Tracked r ks]) = (R \<union> (if r = [] then {} else {r} \<times> (K `` set ks)), K)"
    by (simp add: owed_snoc o owe_def)
  have same: "pq_error ?q = pq_error q" "pq_tick ?q = pq_tick q" "pending_futures ?q = pending_futures q"
    "pq_key_futures ?q = pq_key_futures q"
    by (auto simp: track_keys_def pending_futures_def)
  have req: "set (futures_of (pq_request_futures ?q) j) =
      set (futures_of (pq_request_futures q) j) \<union>
      (if r \<noteq> [] \<and> j = r then (\<Union>k \<in> set ks. set (futures_of (pq_key_futures q) k)) else {})" for j
  proof (cases "r = [] \<or> pq_key_futures q = []")
    case True
    then show ?thesis by (auto simp: track_keys_def futures_of_def)
  next
    case False
    then show ?thesis by (simp add: track_keys_def fold_inherit_futures)
  qed
  have dist: "distinct (map fst (pq_request_futures ?q))"
    using assms by (simp add: track_keys_def fenced_def fold_inherit_distinct)
  show ?thesis using assms dist unfolding fenced_def same o o' added_snoc req
    by (fastforce split: if_splits)
qed

lemma step_fenced:
  assumes "fenced env h q" "put_step env x q = Some (r, q1)"
  shows "fenced env (h @ put_events x r) q1"
proof (cases x)
  case (PutSubmit n fs req ks)
  obtain y q2 where y: "put_reserve env n q = Some (y, q2)" using reserve_result by fast
  then show ?thesis using fence.reserve_keeps [OF assms(1) y] assms(2) add_fenced PutSubmit
    by (cases y) (auto simp: put_step_def put_events_def)
next
  case (PutTrack req ks)
  then show ?thesis using assms track_fenced by (auto simp: put_step_def put_events_def)
next
  case (PutDrainRequests reqs)
  then show ?thesis using fence.drain_requests_keeps [OF assms(1)] assms(2) by (simp add: put_step_def put_events_def)
next
  case PutDrain
  then show ?thesis using fence.drain_keeps [OF assms(1)] assms(2) by (simp add: put_step_def put_events_def)
next
  case PutPoll
  then show ?thesis using poll_fenced [OF assms(1)] assms(2) by (simp add: put_step_def put_events_def)
next
  case (PutFail e)
  then show ?thesis using assms fenced_same_pending [OF assms(1), of q1]
    by (auto simp: put_step_def put_fail_def put_events_def split: if_splits)
qed

lemma run_fenced:
  "fenced env h q \<Longrightarrow> put_run env xs (q, h) = Some (q', h') \<Longrightarrow> fenced env h' q'"
proof (induction xs arbitrary: q h)
  case (Cons x xs)
  obtain r q1 where s: "put_step env x q = Some (r, q1)" using step_result by fast
  from Cons.IH [OF step_fenced [OF Cons.prems(1) s]] show ?case using Cons.prems s by simp
qed simp

lemma made_fenced:
  "stable env \<Longrightarrow> make_put_queue mb mn t = Inr q \<Longrightarrow> fenced env [] q"
  by (auto simp: make_put_queue_def fenced_def added_def owed_def split: if_splits)

lemma made_counted: "make_put_queue mb mn t = Inr q \<Longrightarrow> put_counted mb mn q"
  by (auto simp: make_put_queue_def put_counted_def split: if_splits)

lemma owed_added: "snd ` fst (owed h) \<subseteq> added h \<and> snd ` snd (owed h) \<subseteq> added h"
proof (induction h rule: rev_induct)
  case (snoc ev h)
  obtain R K where o: "owed h = (R, K)" by fastforce
  show ?case using snoc by (cases ev) (auto simp: owed_snoc added_snoc o owe_def split: if_splits)
qed (simp add: owed_def)

lemma poll_settles:
  assumes "fenced env h q" "put_poll env q = (Inr (), q1)" "f \<in> added h" "pv_done env f (pq_tick q)"
  shows "landed env (pq_tick q1) f"
proof -
  have poll: "pq_error q = None" "first_error env q = None" "pq_tick q1 = Suc (pq_tick q)"
    using poll_pending [OF assms(2)] by simp_all
  have "landed env (pq_tick q) f"
  proof (cases "f \<in> pending_futures q")
    case True
    then have "f \<in> set (completed_futures env q)"
      using assms(4) by (auto simp: pending_futures_def completed_futures_def)
    then show ?thesis using completed_landed [OF poll(2)] by simp
  next
    case False
    then show ?thesis using assms(1,3) poll(1) by (auto simp: fenced_def)
  qed
  then show ?thesis using landed_later [of env "pq_tick q" f] assms(1) poll(3) by (simp add: fenced_def)
qed

lemma drain_requests_settles:
  assumes f: "fenced env h q" and d: "drain_requests env rs q = (Inr (), q')"
    and r: "r \<in> set rs" "(r, f) \<in> fst (owed h)"
  shows "landed env (pq_tick q') f"
proof -
  obtain q1 where p: "put_poll env q = (Inr (), q1)"
    using d by (auto simp: drain_requests_def split: prod.splits sum.splits)
  have f1: "fenced env h q1" by (rule poll_fenced [OF f p])
  have e1: "pq_error q1 = None" using poll_pending [OF p] by simp
  let ?fs = "concat (map (futures_of (pq_request_futures q1)) rs)"
  obtain q2 where w: "(if ?fs = [] then (Inr (), q1) else wait_for env ?fs (pq_timeout q1) q1) = (Inr (), q2)"
    and p2: "put_poll env q2 = (Inr (), q')"
    using d p by (auto simp: drain_requests_def Let_def split: prod.splits sum.splits if_splits)
  have q2: "fenced env h q2 \<and> pq_tick q1 \<le> pq_tick q2 \<and> (\<forall>f \<in> set ?fs. pv_done env f (pq_tick q2))"
  proof (cases "?fs = []")
    case True
    then show ?thesis using w f1 by simp
  next
    case False
    then have "wait_for env ?fs (pq_timeout q1) q1 = (Inr (), q2)" using w by (simp only: if_False)
    then show ?thesis using wait_for_done wait_fenced [OF f1 e1] by blast
  qed
  have tick: "pq_tick q2 \<le> pq_tick q'" using poll_pending [OF p2] by simp
  have "landed env (pq_tick q1) f \<or> f \<in> set (futures_of (pq_request_futures q1) r)"
    using f1 e1 r(2) by (auto simp: fenced_def)
  then show ?thesis
  proof
    assume "landed env (pq_tick q1) f"
    then show ?thesis using landed_later q2 tick f by (meson fenced_def le_trans)
  next
    assume "f \<in> set (futures_of (pq_request_futures q1) r)"
    then have "pv_done env f (pq_tick q2)" using q2 r(1) by auto
    moreover have "f \<in> added h" using owed_added r(2) by force
    ultimately show ?thesis using poll_settles p2 q2 by blast
  qed
qed

lemma put_drain_settles:
  assumes f: "fenced env h q" and d: "put_drain env q = Some (Inr (), q')" and a: "f \<in> added h"
  shows "landed env (pq_tick q') f"
proof -
  have k: "fenced env h q'" "pq_pending q' = []" using fence.drain_keeps [OF f d] by simp_all
  have "pq_error q' = None" using d by (auto simp: put_drain_def dest: poll_pending split: prod.splits sum.splits option.splits)
  then show ?thesis using k a by (auto simp: fenced_def pending_futures_def)
qed

definition puts_checked :: "put_call \<Rightarrow> bool" where
  "puts_checked x = (case x of PutTrack _ _ \<Rightarrow> False | PutFail _ \<Rightarrow> False | _ \<Rightarrow> True)"

section \<open>The queue's promises\<close>

text \<open>Every run of a queue ends, and bounds what is outstanding: never more than the configured
  number of batches, and no more bytes than allowed unless a single oversized batch is alone.\<close>

theorem put_queue_bounded:
  assumes "make_put_queue max_bytes max_batches timeout = Inr q" "list_all call_sizes_ok xs"
  shows "\<exists>q' h. put_run env xs (q, []) = Some (q', h) \<and> int (length (pq_pending q')) \<le> max_batches \<and>
     (sum_list (map fst (pq_pending q')) \<le> max_bytes \<or> length (pq_pending q') \<le> 1)"
proof -
  obtain q' h where r: "put_run env xs (q, []) = Some (q', h)" using run_result by fast
  have "put_counted max_bytes max_batches q'" using run_counted [OF made_counted [OF assms(1)] assms(2) r] .
  then show ?thesis using r by (auto simp: put_counted_def)
qed

definition example_puts :: put_env where
  "example_puts = \<lparr>pv_done = (\<lambda>f t. f + 2 \<le> t), pv_error = (\<lambda>f. if f = 7 then Some IndexError else None),
     pv_clock = (\<lambda>t. of_nat t), pv_wait = (\<lambda>fs timeout t. 3)\<rparr>"

theorem put_queue_bounded_witness:
  "\<exists>q q' h. make_put_queue 100 2 10 = Inr q \<and>
     put_run example_puts [PutSubmit 60 [1] ''a'' [''k''], PutSubmit 60 [2] ''b'' []] (q, []) = Some (q', h) \<and>
     int (length (pq_pending q')) \<le> 2 \<and>
     (sum_list (map fst (pq_pending q')) \<le> 100 \<or> length (pq_pending q') \<le> 1)"
proof -
  obtain q where q: "make_put_queue 100 2 10 = Inr q" by (simp add: make_put_queue_def)
  show ?thesis using q put_queue_bounded [OF q, of "[PutSubmit 60 [1] ''a'' [''k''], PutSubmit 60 [2] ''b'' []]" example_puts]
    by (simp add: call_sizes_ok_def)
qed

text \<open>C28. Draining requests fences them: when it returns, every put submitted for such a request, or
  published earlier under a key the request then reused, is done and did not fail.\<close>

theorem drained_requests_are_persisted:
  assumes "stable env" "make_put_queue max_bytes max_batches timeout = Inr q"
    "put_run env xs (q, []) = Some (q1, h)" "drain_requests env rs q1 = (Inr (), q2)"
    "r \<in> set rs" "(r, f) \<in> fst (owed h)"
  shows "pv_done env f (pq_tick q2) \<and> pv_error env f = None"
  using drain_requests_settles [OF run_fenced [OF made_fenced [OF assms(1,2)] assms(3)] assms(4-6)]
  by (simp add: landed_def)

theorem drained_requests_are_persisted_witness:
  "\<exists>q q1 h q2. make_put_queue 100 2 10 = Inr q \<and>
     put_run example_puts [PutSubmit 60 [1] ''a'' [''k''], PutTrack ''b'' [''k'']] (q, []) = Some (q1, h) \<and>
     drain_requests example_puts [''b''] q1 = (Inr (), q2) \<and> (''b'', 1) \<in> fst (owed h) \<and>
     pv_done example_puts 1 (pq_tick q2)"
proof -
  let ?xs = "[PutSubmit 60 [1] ''a'' [''k''], PutTrack ''b'' [''k'']]"
  obtain q where q: "make_put_queue 100 2 10 = Inr q" by (simp add: make_put_queue_def)
  have st: "stable example_puts" by (simp add: stable_def example_puts_def)
  obtain q1 where r: "put_run example_puts ?xs (q, []) = Some (q1, [Added [1] ''a'' [''k''], Tracked ''b'' [''k'']])"
    and q1: "pq_error q1 = None" "pq_pending q1 = [(60, [1])]" "pq_request_futures q1 = [(''a'', [1]), (''b'', [1])]"
      "pq_key_futures q1 = [(''k'', [1])]" "pq_tick q1 = 1" "pq_timeout q1 = 10"
    using q by (auto simp: make_put_queue_def put_step_def put_reserve_def put_poll_def Let_def first_error_def
      completed_futures_def remaining_batches_def wait_while.simps put_add_def depend_def track_keys_def
      futures_of_def put_events_def)
  obtain q2 where d: "drain_requests example_puts [''b''] q1 = (Inr (), q2)"
    using q1 by (auto simp: drain_requests_def put_poll_def Let_def first_error_def
      completed_futures_def remaining_batches_def futures_of_def wait_for_def example_puts_def)
  have o: "(''b'', 1) \<in> fst (owed [Added [1] ''a'' [''k''], Tracked ''b'' [''k'']])"
    by (simp add: owed_def owe_def)
  show ?thesis using q r d o drained_requests_are_persisted [OF st q r d _ o] by auto
qed

text \<open>A failure is sticky: after any failed put or submission every further polling, reserving or
  draining raises that same error, and nothing clears it.\<close>

theorem put_failure_sticky:
  assumes "pq_error q = Some e"
  shows "\<exists>q'. put_step env x q = Some (if puts_checked x then Inl e else Inr (), q') \<and> pq_error q' = Some e"
  using assms by (cases x) (simp_all add: put_step_def puts_checked_def put_reserve_def put_poll_def
      put_drain_def drain_requests_def track_keys_def put_fail_def)

theorem put_failure_sticky_witness:
  "\<exists>q q'. make_put_queue 100 2 10 = Inr q \<and> pq_error (put_fail IndexError q) = Some IndexError \<and>
     put_step example_puts (PutSubmit 60 [1] ''a'' []) (put_fail IndexError q) = Some (Inl IndexError, q')"
proof -
  obtain q where q: "make_put_queue 100 2 10 = Inr q" "pq_error q = None" by (auto simp: make_put_queue_def)
  then have e: "pq_error (put_fail IndexError q) = Some IndexError" by (simp add: put_fail_def)
  show ?thesis using q e put_failure_sticky [OF e, of example_puts "PutSubmit 60 [1] ''a'' []"]
    by (auto simp: puts_checked_def)
qed

section \<open>Page lease\<close>

text \<open>
  Pages are named by their identity.  The \<open>MemoryObj\<close> methods are parameters; a call may raise.
\<close>

record 'w page_api =
  pg_valid :: "nat \<Rightarrow> ('w, bool) act"
  pg_device :: "nat \<Rightarrow> ('w, string) act"
  pg_up :: "nat \<Rightarrow> ('w, unit) act"
  pg_down :: "nat \<Rightarrow> ('w, unit) act"

type_synonym 'w lease_state = "nat list \<times> 'w"

definition hold_page :: "'w page_api \<Rightarrow> nat \<Rightarrow> ('w lease_state, unit) act" where
  "hold_page api p =
     bindA (innerA (pg_valid api p)) (\<lambda>valid.
     bindA (if valid then bindA (innerA (pg_device api p)) (\<lambda>d. retA (d \<noteq> ''cpu'')) else retA True) (\<lambda>bad.
     if bad then raiseA (ValueError ''Layerwise RemoteFill needs valid CPU pages'')
     else seqA (innerA (pg_up api p)) (writeA (\<lambda>(ps, w). (ps @ [p], w)))))"

definition lease_release :: "'w page_api \<Rightarrow> ('w lease_state, unit) act" where
  "lease_release api =
     bindA (readA fst) (\<lambda>pages.
     seqA (writeA (\<lambda>(_, w). ([], w)))
     (eachA (\<lambda>p. innerA (pg_down api p)) pages))"

definition make_lease :: "'w page_api \<Rightarrow> nat list \<Rightarrow> ('w lease_state, unit) act" where
  "make_lease api pages =
     seqA (writeA (\<lambda>(_, w). ([], w)))
     (bindA (attemptA (eachA (hold_page api) (py_unique pages))) (\<lambda>r.
      case r of Inr _ \<Rightarrow> retA () | Inl e \<Rightarrow> seqA (lease_release api) (raiseA e)))"

text \<open>
  What the lease relies on: asking changes no count, a reference that is taken counts once and
  one that is refused not at all, and giving back does not raise.
\<close>

definition counts_refs :: "'w page_api \<Rightarrow> ('w \<Rightarrow> nat \<Rightarrow> int) \<Rightarrow> bool" where
  "counts_refs api refs \<longleftrightarrow>
     (\<forall>p w. refs (snd (pg_valid api p w)) = refs w \<and> refs (snd (pg_device api p w)) = refs w \<and>
       refs (snd (pg_up api p w)) =
         (case fst (pg_up api p w) of Inl _ \<Rightarrow> refs w | Inr _ \<Rightarrow> (refs w)(p := refs w p + 1)) \<and>
       fst (pg_down api p w) = Inr () \<and> refs (snd (pg_down api p w)) = (refs w)(p := refs w p - 1))"

definition lease_balance :: "('w \<Rightarrow> nat \<Rightarrow> int) \<Rightarrow> 'w lease_state \<Rightarrow> nat \<Rightarrow> int" where
  "lease_balance refs s p = refs (snd s) p - int (count_list (fst s) p)"

lemma innerA_held:
  assumes "\<And>w. refs (snd (m w)) = refs w"
  shows "fst (snd (innerA m s)) = fst s \<and> lease_balance refs (snd (innerA m s)) = lease_balance refs s"
proof (cases s)
  case (Pair ps w)
  then show ?thesis using assms [of w] by (cases "m w") (auto simp: innerA_def lease_balance_def)
qed

lemma hold_page_held:
  assumes c: "counts_refs api refs"
  shows "lease_balance refs (snd (hold_page api p s)) = lease_balance refs s \<and>
    (\<forall>u. fst (hold_page api p s) = Inr u \<longrightarrow> fst (snd (hold_page api p s)) = fst s @ [p])"
proof -
  obtain ps w where s: "s = (ps, w)" by fastforce
  obtain v w1 where v: "pg_valid api p w = (v, w1)" by fastforce
  obtain d w2 where d: "pg_device api p w1 = (d, w2)" by fastforce
  obtain y w3 where u: "pg_up api p w2 = (y, w3)" by fastforce
  have r: "refs w1 = refs w" "refs w2 = refs w1"
      "refs w3 = (case y of Inl _ \<Rightarrow> refs w2 | Inr _ \<Rightarrow> (refs w2)(p := refs w2 p + 1))"
    using c v d u unfolding counts_refs_def by (metis snd_conv, metis snd_conv, metis fst_conv snd_conv)
  show ?thesis
    using v d u r by (cases v; cases d; cases y)
      (auto simp: s hold_page_def innerA_def act_defs lease_balance_def fun_eq_iff)
qed

lemma each_hold_held:
  assumes c: "counts_refs api refs"
  shows "lease_balance refs (snd (eachA (hold_page api) ps s)) = lease_balance refs s \<and>
    (\<forall>u. fst (eachA (hold_page api) ps s) = Inr u \<longrightarrow> fst (snd (eachA (hold_page api) ps s)) = fst s @ ps)"
proof (induction ps arbitrary: s)
  case (Cons p ps)
  obtain y t where h: "hold_page api p s = (y, t)" by (metis surj_pair)
  show ?case using hold_page_held [OF c, of p s] Cons [of t] h
    by (cases y) (auto simp: seqA_def bindA_def)
qed (simp add: retA_def)

lemma each_down_refs:
  assumes c: "counts_refs api refs"
  shows "\<exists>w'. eachA (\<lambda>p. innerA (pg_down api p)) ps (qs, w) = (Inr (), (qs, w')) \<and>
    (\<forall>p. refs w' p = refs w p - int (count_list ps p))"
proof (induction ps arbitrary: w)
  case (Cons p ps)
  obtain y w1 where d: "pg_down api p w = (y, w1)" by fastforce
  have r: "y = Inr ()" "refs w1 = (refs w)(p := refs w p - 1)"
    using c d unfolding counts_refs_def by (metis fst_conv, metis snd_conv)
  obtain w2 where w2: "eachA (\<lambda>p. innerA (pg_down api p)) ps (qs, w1) = (Inr (), (qs, w2))"
      "\<forall>p. refs w2 p = refs w1 p - int (count_list ps p)" using Cons [of w1] by blast
  show ?case using d r w2 by (auto simp: seqA_def bindA_def innerA_def)
qed (simp add: retA_def)

lemma release_refs:
  assumes c: "counts_refs api refs"
  shows "\<exists>w'. lease_release api (ps, w) = (Inr (), ([], w')) \<and> refs w' = lease_balance refs (ps, w)"
  using each_down_refs [OF c, of ps "[]" w]
  by (auto simp: lease_release_def act_defs lease_balance_def fun_eq_iff)

lemma page_count: "distinct xs \<Longrightarrow> count_list xs p = (if p \<in> set xs then 1 else 0)"
  by (induction xs) auto

lemma made_lease_refs:
  assumes c: "counts_refs api refs" and m: "make_lease api pages (qs, w) = (r, (ps, w'))"
  shows "refs w' = (if r = Inr () then (\<lambda>p. refs w p + (if p \<in> set pages then 1 else 0)) else refs w) \<and>
     ps = (if r = Inr () then py_unique pages else [])"
proof -
  obtain y ps1 w1 where h: "eachA (hold_page api) (py_unique pages) ([], w) = (y, (ps1, w1))"
    by (metis surj_pair)
  have held: "lease_balance refs (ps1, w1) = lease_balance refs ([], w)"
    and all: "\<forall>u. y = Inr u \<longrightarrow> ps1 = py_unique pages"
    using each_hold_held [OF c, of "py_unique pages" "([], w)"] h by simp_all
  show ?thesis
  proof (cases y)
    case (Inl e)
    obtain w2 where w2: "lease_release api (ps1, w1) = (Inr (), ([], w2))" "refs w2 = lease_balance refs (ps1, w1)"
      using release_refs [OF c] by blast
    show ?thesis using m h Inl w2 held by (auto simp: make_lease_def act_defs lease_balance_def fun_eq_iff)
  next
    case (Inr u)
    have count: "int (count_list (py_unique pages) p) = (if p \<in> set pages then 1 else 0)" for p
      using py_unique_props [of pages] page_count [of "py_unique pages" p] by simp
    have "refs w1 p = refs w p + int (count_list ps1 p)" for p using fun_cong [OF held, of p] by (simp add: lease_balance_def)
    then show ?thesis using m h Inr all count by (auto simp: make_lease_def act_defs fun_eq_iff)
  qed
qed

text \<open>The lease balances the references of the pages it holds: a lease holds each different page
  once, releasing it restores every count and releasing again changes nothing; when the constructor
  raises, every reference it took is given back.\<close>

theorem lease_balances_references:
  assumes "counts_refs api refs" "make_lease api pages (qs, w) = (r, (ps, w1))"
  shows "case r of
      Inl e \<Rightarrow> refs w1 = refs w \<and> ps = []
    | Inr _ \<Rightarrow> distinct ps \<and> set ps = set pages \<and> refs w1 = (\<lambda>p. refs w p + (if p \<in> set pages then 1 else 0)) \<and>
        (\<exists>w2. lease_release api (ps, w1) = (Inr (), ([], w2)) \<and> refs w2 = refs w \<and>
          lease_release api ([], w2) = (Inr (), ([], w2)))"
proof (cases r)
  case (Inl e)
  then show ?thesis using made_lease_refs [OF assms] by simp
next
  case (Inr u)
  have m: "refs w1 = (\<lambda>p. refs w p + (if p \<in> set pages then 1 else 0))" "ps = py_unique pages"
    using made_lease_refs [OF assms] Inr by simp_all
  obtain w2 where w2: "lease_release api (ps, w1) = (Inr (), ([], w2))" "refs w2 = lease_balance refs (ps, w1)"
    using release_refs [OF assms(1)] by blast
  have "refs w2 = refs w"
    using w2(2) m py_unique_props [of pages] by (auto simp: lease_balance_def page_count fun_eq_iff)
  then show ?thesis using Inr m py_unique_props [of pages] w2(1) by (auto simp: lease_release_def act_defs)
qed

text \<open>Pages with plain counters, of which page 9 is on the device.\<close>

definition counting_pages :: "(nat \<Rightarrow> int) page_api" where
  "counting_pages = \<lparr>pg_valid = (\<lambda>p. retA True), pg_device = (\<lambda>p. retA (if p = 9 then ''npu'' else ''cpu'')),
     pg_up = (\<lambda>p. writeA (\<lambda>w. w(p := w p + 1))), pg_down = (\<lambda>p. writeA (\<lambda>w. w(p := w p - 1)))\<rparr>"

theorem lease_balances_references_witness:
  "\<exists>ps w1. make_lease counting_pages [1, 2, 1] ([], \<lambda>_. 0) = (Inr (), (ps, w1)) \<and> distinct ps \<and> set ps = {1, 2} \<and> w1 1 = 1"
proof -
  have c: "counts_refs counting_pages (\<lambda>w. w)" by (simp add: counts_refs_def counting_pages_def act_defs)
  obtain ps w1 where m: "make_lease counting_pages [1, 2, 1] ([], \<lambda>_. 0) = (Inr (), (ps, w1))"
    by (simp add: make_lease_def py_unique_def hold_page_def innerA_def counting_pages_def act_defs)
  show ?thesis using m lease_balances_references [OF c m] by auto
qed

end
