(* ===== verification/LocalCheckpoint.thy ===== *)
theory LocalCheckpoint
  imports Effects "HOL-Library.Sublist"
begin

text \<open>
  \<open>local_checkpoint.py\<close>: the store of local checkpoint offers.  Pages are named by their
  identity.  The engine is a record of its methods, which may change anything, the store's manifests
  included, and may raise.
\<close>

record 'k checkpoint_page =
  cp_start :: int
  cp_end :: int
  cp_key :: "'k option"

record ('k, 'c) local_checkpoint =
  lm_tokens :: "int list"
  lm_prefix_end :: int
  lm_groups :: "'k checkpoint_page list \<times> 'k checkpoint_page list"
  lm_configs :: 'c
  lm_identity :: "(string \<times> int) option"
  lm_retention :: "nat option"

text \<open>A manifest is stored with its object identity, which \<open>is\<close> compares.\<close>

record ('k, 'c, 'w) store_state =
  ls_manifests :: "((string \<times> int) \<times> (nat \<times> ('k, 'c) local_checkpoint)) list"
  ls_next :: nat
  ls_world :: 'w

datatype plane_widths = FlatWidths "int list" | LayerWidths "int list list"

record ('k, 'c, 'v, 's) checkpoint_engine =
  ce_chunk_size :: int
  ce_prefix :: "'k option list \<Rightarrow> ('s, nat list \<times> nat) act"
  ce_valid :: "nat \<Rightarrow> 's \<Rightarrow> bool"
  ce_valid_tokens :: "nat \<Rightarrow> 's \<Rightarrow> int"
  ce_validate :: "nat \<Rightarrow> nat \<Rightarrow> ('s, unit) act"
  ce_up :: "nat \<Rightarrow> ('s, unit) act"
  ce_down :: "nat \<Rightarrow> ('s, unit) act"
  ce_cached :: "'k \<Rightarrow> nat \<Rightarrow> int \<Rightarrow> ('s, nat option) act"
  ce_load_prefix :: "int list \<Rightarrow> nat \<Rightarrow> 'c \<Rightarrow> ('s, nat) act"
  ce_allocate :: "nat \<Rightarrow> int \<Rightarrow> ('s, nat \<times> plane_widths) act"
  ce_reclaim :: "int \<Rightarrow> nat \<Rightarrow> ('s, bool) act"
  ce_token_results :: "int list \<Rightarrow> 'c \<Rightarrow> nat \<Rightarrow> int \<Rightarrow> ('s, (int \<times> int \<times> 'k) list \<times> exn option) act"
  ce_submit :: "'k list \<Rightarrow> nat list \<Rightarrow> ('s, unit) act"
  ce_is_checkpoint_key :: "'k option \<Rightarrow> bool"
  ce_remove :: "'k option \<Rightarrow> ('s, unit) act"
  ce_layers :: "nat \<Rightarrow> 's \<Rightarrow> nat"
  ce_tensor :: "nat \<Rightarrow> nat \<Rightarrow> 's \<Rightarrow> 'v list"
  ce_write_tensor :: "nat \<Rightarrow> nat \<Rightarrow> 'v list \<Rightarrow> 's \<Rightarrow> 's"

text \<open>A retained source: the manifest's page and the cache page that holds it.\<close>

type_synonym 'k source = "'k checkpoint_page \<times> nat"

section \<open>Offers\<close>

definition publish :: "string \<Rightarrow> int \<Rightarrow> nat \<times> ('k, 'c) local_checkpoint \<Rightarrow>
    (('k, 'c, 'w, 'z) store_state_scheme, unit) act" where
  "publish req generation m = writeA (\<lambda>s. s\<lparr>ls_manifests := AList.update (req, generation) m (ls_manifests s)\<rparr>)"

definition forget :: "string \<Rightarrow> int option \<Rightarrow> (('k, 'c, 'w, 'z) store_state_scheme, unit) act" where
  "forget req generation =
     writeA (\<lambda>s. s\<lparr>ls_manifests := filter (\<lambda>((r, g), _). \<not> (r = req \<and> (generation = None \<or> generation = Some g)))
       (ls_manifests s)\<rparr>)"

definition offer :: "string \<Rightarrow> int \<Rightarrow> ('k, 'c, 'w, 'z) store_state_scheme \<Rightarrow> (nat \<times> ('k, 'c) local_checkpoint) option" where
  "offer req generation s = map_of (ls_manifests s) (req, generation)"

section \<open>Acquiring\<close>

definition page_fits :: "('k, 'c, 'v, 's) checkpoint_engine \<Rightarrow> nat \<Rightarrow> 'k checkpoint_page \<Rightarrow> nat \<Rightarrow> ('s, unit) act" where
  "page_fits eng g src page =
     bindA (readA (\<lambda>s. \<not> ce_valid eng page s \<or> ce_valid_tokens eng page s < cp_end src - cp_start src)) (\<lambda>bad.
     if bad then raiseA (ValueError ''Invalid local checkpoint page'') else ce_validate eng g page)"

definition keep_fitting :: "('k, 'c, 'v, 's) checkpoint_engine \<Rightarrow> nat \<Rightarrow> 'k checkpoint_page \<Rightarrow> nat \<Rightarrow> ('s, nat option) act" where
  "keep_fitting eng g src page =
     bindA (attemptA (page_fits eng g src page)) (\<lambda>r.
     case r of Inr _ \<Rightarrow> retA (Some page) | Inl e \<Rightarrow> seqA (ce_down eng page) (raiseA e))"

definition get_page :: "('k, 'c, 'v, 's) checkpoint_engine \<Rightarrow> nat \<Rightarrow> 'k checkpoint_page \<Rightarrow> ('s, nat option) act" where
  "get_page eng g src =
     bindA (ce_prefix eng [cp_key src]) (\<lambda>(pages, amount).
     if amount = 0 then retA None
     else case pages of [] \<Rightarrow> raiseA IndexError | page # _ \<Rightarrow> keep_fitting eng g src page)"

text \<open>One group's loop; the exception of a page is returned with what was held before.\<close>

fun acquire_group :: "('k checkpoint_page \<Rightarrow> ('s, nat option) act) \<Rightarrow> int \<Rightarrow> 'k checkpoint_page list \<Rightarrow> int \<Rightarrow>
    'k source list \<Rightarrow> ('s, exn option \<times> int \<times> 'k source list) act" where
  "acquire_group get stop [] cursor held = retA (None, cursor, held)"
| "acquire_group get stop (src # rest) cursor held =
     (if cp_end src \<le> cursor then acquire_group get stop rest cursor held
      else if cp_start src > cursor \<or> cursor \<ge> stop then retA (None, cursor, held)
      else bindA (attemptA (get src)) (\<lambda>r.
        case r of
          Inl e \<Rightarrow> retA (Some e, cursor, held)
        | Inr None \<Rightarrow> retA (None, cursor, held)
        | Inr (Some page) \<Rightarrow>
            acquire_group get stop rest (min (cp_end src) stop) (held @ [(src, page)])))"

definition release_sources :: "('k, 'c, 'v, 's) checkpoint_engine \<Rightarrow> 'k source list \<times> 'k source list \<Rightarrow> ('s, unit) act" where
  "release_sources eng groups =
     seqA (eachA (\<lambda>(_, page). ce_down eng page) (fst groups)) (eachA (\<lambda>(_, page). ce_down eng page) (snd groups))"

text \<open>\<open>while held and held[-1][0].start >= common: held.pop()[1].ref_count_down()\<close>, on the reversed list.\<close>

fun trim_held :: "('k, 'c, 'v, 's) checkpoint_engine \<Rightarrow> int \<Rightarrow> 'k source list \<Rightarrow>
    ('s, exn option \<times> 'k source list) act" where
  "trim_held eng common [] = retA (None, [])"
| "trim_held eng common ((src, page) # held) =
     (if cp_start src < common then retA (None, (src, page) # held)
      else bindA (attemptA (ce_down eng page)) (\<lambda>r.
        case r of Inl e \<Rightarrow> retA (Some e, held) | Inr _ \<Rightarrow> trim_held eng common held))"

definition release_and_raise :: "('k, 'c, 'v, 's) checkpoint_engine \<Rightarrow> 'k source list \<times> 'k source list \<Rightarrow>
    exn \<Rightarrow> ('s, 'a) act" where
  "release_and_raise eng groups e = seqA (release_sources eng groups) (raiseA e)"

definition trim_group :: "('k, 'c, 'v, 's) checkpoint_engine \<Rightarrow> int \<Rightarrow> 'k source list \<Rightarrow>
    ('s, exn option \<times> 'k source list) act" where
  "trim_group eng common held =
     bindA (trim_held eng common (rev held)) (\<lambda>(e, kept). retA (e, rev kept))"

definition trim_groups :: "('k, 'c, 'v, 's) checkpoint_engine \<Rightarrow> int \<Rightarrow> 'k source list \<Rightarrow> 'k source list \<Rightarrow>
    ('s, int \<times> ('k source list \<times> 'k source list)) act" where
  "trim_groups eng common held0 held1 =
     bindA (trim_group eng common held0) (\<lambda>(e0, kept0).
     case e0 of Some e \<Rightarrow> release_and_raise eng (kept0, held1) e
     | None \<Rightarrow>
     bindA (trim_group eng common held1) (\<lambda>(e1, kept1).
     case e1 of Some e \<Rightarrow> release_and_raise eng (kept0, kept1) e
     | None \<Rightarrow> retA (common, (kept0, kept1))))"

definition acquire_second :: "('k, 'c, 'v, 's) checkpoint_engine \<Rightarrow> (nat \<Rightarrow> 'k checkpoint_page \<Rightarrow> ('s, nat option) act) \<Rightarrow>
    ('k, 'c) local_checkpoint \<Rightarrow> int \<Rightarrow> int \<times> 'k source list \<Rightarrow> ('s, int \<times> ('k source list \<times> 'k source list)) act" where
  "acquire_second eng get m stop x =
     bindA (acquire_group (get 1) stop (snd (lm_groups m)) (lm_prefix_end m) []) (\<lambda>(e, y).
     case e of Some e \<Rightarrow> release_and_raise eng (snd x, snd y) e
     | None \<Rightarrow> trim_groups eng (min (fst x) (fst y)) (snd x) (snd y))"

text \<open>\<open>get\<close> is the method \<open>self.get_page\<close>, which a subclass overrides.\<close>

definition acquire_with :: "('k, 'c, 'v, 's) checkpoint_engine \<Rightarrow> (nat \<Rightarrow> 'k checkpoint_page \<Rightarrow> ('s, nat option) act) \<Rightarrow>
    ('k, 'c) local_checkpoint \<Rightarrow> int \<Rightarrow> ('s, int \<times> ('k source list \<times> 'k source list)) act" where
  "acquire_with eng get m stop =
     bindA (acquire_group (get 0) stop (fst (lm_groups m)) (lm_prefix_end m) []) (\<lambda>(e, x).
     case e of Some e \<Rightarrow> release_and_raise eng (snd x, []) e
     | None \<Rightarrow> acquire_second eng get m stop x)"

definition acquire :: "('k, 'c, 'v, 's) checkpoint_engine \<Rightarrow> ('k, 'c) local_checkpoint \<Rightarrow> int \<Rightarrow>
    ('s, int \<times> ('k source list \<times> 'k source list)) act" where
  "acquire eng m stop = acquire_with eng (get_page eng) m stop"

definition available :: "(('k, 'c, 'v, ('k, 'c, 'w, 'z) store_state_scheme) checkpoint_engine) \<Rightarrow> string \<Rightarrow> int \<Rightarrow> int \<Rightarrow>
    (('k, 'c, 'w, 'z) store_state_scheme, int) act" where
  "available eng req generation stop =
     bindA (readA (offer req generation)) (\<lambda>m.
     case m of
       None \<Rightarrow> retA 0
     | Some (_, m) \<Rightarrow>
         bindA (acquire eng m (min stop (int (length (lm_tokens m))))) (\<lambda>(common, groups).
         seqA (release_sources eng groups) (retA common)))"

section \<open>Selecting sources\<close>

text \<open>\<open>_source_selector\<close>: the closure's index is passed along.\<close>

definition select_overlaps :: "'k source list \<Rightarrow> nat \<Rightarrow> int \<Rightarrow> int \<Rightarrow> nat \<times> 'k source list" where
  "select_overlaps sources index start stop =
     (let rest = drop index sources;
          skipped = length (takeWhile (\<lambda>(s, _). cp_end s \<le> start) rest)
      in (index + skipped, takeWhile (\<lambda>(s, _). cp_start s < stop) (drop skipped rest)))"

section \<open>Assembling\<close>

text \<open>The positions a Python slice \<open>[a:b]\<close> of a sequence of length \<open>n\<close> covers.\<close>

definition py_index :: "nat \<Rightarrow> int \<Rightarrow> nat" where
  "py_index n i = (if i < 0 then nat (int n + i) else min n (nat i))"

definition py_slice :: "'a list \<Rightarrow> int \<Rightarrow> int \<Rightarrow> 'a list" where
  "py_slice xs a b = take (py_index (length xs) b - py_index (length xs) a) (drop (py_index (length xs) a) xs)"

text \<open>\<open>target[b : b + n].copy_(src[a : a + n])\<close>: slices of equal length, or a single value for all.\<close>

definition copy_slice :: "int \<Rightarrow> 'v list \<Rightarrow> int \<Rightarrow> int \<Rightarrow> ('v list, unit) act" where
  "copy_slice b src a n = (\<lambda>target.
     let part = py_slice src a (a + n); i = py_index (length target) b;
         m = py_index (length target) (b + n) - i
     in if length part = m then (Inr (), take i target @ part @ drop (i + m) target)
        else if length part = 1 then (Inr (), take i target @ replicate m (hd part) @ drop (i + m) target)
        else (Inl (RuntimeError ''The size of tensor a must match the size of tensor b''), target))"

type_synonym span = "nat \<times> int \<times> int \<times> int"

fun assemble_spans :: "int \<Rightarrow> int \<Rightarrow> int \<Rightarrow> 'k source list \<Rightarrow> span list res" where
  "assemble_spans start stop cursor [] =
     (if cursor \<noteq> stop then Inl (ValueError ''Local checkpoint boundary is incomplete'') else Inr [])"
| "assemble_spans start stop cursor ((src, page) # rest) =
     (let left = max start (cp_start src); right = min stop (cp_end src) in
      if left \<noteq> cursor then Inl (ValueError ''Local checkpoint boundary has a hole or overlap'')
      else bindR (assemble_spans start stop right rest) (\<lambda>spans.
        Inr ((page, left - cp_start src, left - start, right - left) # spans)))"

definition layer_widths :: "plane_widths \<Rightarrow> nat \<Rightarrow> int list res" where
  "layer_widths ws layer =
     (case ws of
        FlatWidths w \<Rightarrow> Inr w
      | LayerWidths ws \<Rightarrow>
          if ws = [] then Inr [] else if layer < length ws then Inr (ws ! layer) else Inl IndexError)"

text \<open>
  The planes of one span in one layer; \<open>valid\<close> is the source page's token amount.  A raising copy
  leaves the copies before it in the target.
\<close>

fun copy_planes :: "int \<Rightarrow> int \<Rightarrow> int \<Rightarrow> int \<Rightarrow> int \<Rightarrow> 'v list \<Rightarrow> int \<Rightarrow> int list \<Rightarrow> ('v list, unit) act" where
  "copy_planes valid whole source_offset target_offset amount src preceding [] = retA ()"
| "copy_planes valid whole source_offset target_offset amount src preceding (width # widths) =
     seqA (copy_slice (whole * preceding + target_offset * width) src
             (valid * preceding + source_offset * width) (amount * width))
       (copy_planes valid whole source_offset target_offset amount src (preceding + width) widths)"

definition copy_layer :: "(nat \<Rightarrow> int) \<Rightarrow> (nat \<Rightarrow> 'v list) \<Rightarrow> int \<Rightarrow> int list \<Rightarrow> span list \<Rightarrow> ('v list, unit) act" where
  "copy_layer valid_tokens tensor whole widths spans =
     eachA (\<lambda>(page, source_offset, target_offset, amount).
       copy_planes (valid_tokens page) whole source_offset target_offset amount (tensor page) 0 widths) spans"

definition assemble_layer :: "('k, 'c, 'v, 's) checkpoint_engine \<Rightarrow> nat \<Rightarrow> plane_widths \<Rightarrow> span list \<Rightarrow> int \<Rightarrow> nat \<Rightarrow>
    ('s, unit) act" where
  "assemble_layer eng page widths spans whole layer =
     bindA (liftA (layer_widths widths layer)) (\<lambda>ws.
     bindA (readA (\<lambda>s. copy_layer (\<lambda>p. ce_valid_tokens eng p s) (\<lambda>p. ce_tensor eng p layer s) whole ws spans
                        (ce_tensor eng page layer s))) (\<lambda>(r, target).
     seqA (writeA (ce_write_tensor eng page layer target)) (liftA r)))"

definition assemble :: "('k, 'c, 'v, 's) checkpoint_engine \<Rightarrow> nat \<Rightarrow> plane_widths \<Rightarrow> 'k source list \<Rightarrow> int \<Rightarrow> int \<Rightarrow>
    ('s, unit) act" where
  "assemble eng page widths sources start stop =
     bindA (liftA (assemble_spans start stop start sources)) (\<lambda>spans.
     bindA (readA (ce_layers eng page)) (\<lambda>layers.
     eachA (assemble_layer eng page widths spans (stop - start)) [0..<layers]))"

section \<open>Building a page\<close>

definition is_memory_error :: "exn \<Rightarrow> bool" where
  "is_memory_error e = (case e of MemoryError _ \<Rightarrow> True | _ \<Rightarrow> False)"

text \<open>\<open>_allocation_retry\<close>: the closure's flag is passed along.\<close>

definition reserve_once :: "('k, 'c, 'v, 's) checkpoint_engine \<Rightarrow> bool \<Rightarrow> ('s, 'a) act \<Rightarrow> nat \<Rightarrow> int \<Rightarrow>
    ('s, 'a \<times> bool) act" where
  "reserve_once eng reclaimed factory g amount =
     bindA (attemptA factory) (\<lambda>r.
     case r of
       Inr x \<Rightarrow> retA (x, reclaimed)
     | Inl e \<Rightarrow>
         if \<not> is_memory_error e \<or> reclaimed then raiseA e
         else bindA (ce_reclaim eng amount g) (\<lambda>freed.
           if \<not> freed then raiseA e else bindA factory (\<lambda>x. retA (x, True))))"

definition py_take :: "int \<Rightarrow> 'a list \<Rightarrow> 'a list" where
  "py_take n xs = take (py_index (length xs) n) xs"

definition page_exact :: "('k, 'c, 'v, 's) checkpoint_engine \<Rightarrow> 'k source list \<Rightarrow> int \<Rightarrow> int \<Rightarrow> 's \<Rightarrow> nat option" where
  "page_exact eng selected start stop s =
     (case selected of
        [(src, page)] \<Rightarrow> if cp_start src = start \<and> cp_end src = stop \<and> ce_valid_tokens eng page s = stop - start
          then Some page else None
      | _ \<Rightarrow> None)"

text \<open>The owner of the missing prefix, when the first source begins after the chunk's base.\<close>

definition load_missing_prefix :: "('k, 'c, 'v, 's) checkpoint_engine \<Rightarrow> ('k, 'c) local_checkpoint \<Rightarrow>
    'k source list \<Rightarrow> nat \<Rightarrow> int \<Rightarrow> 'c \<Rightarrow> bool \<Rightarrow> ('s, nat option \<times> 'k source list \<times> bool) act" where
  "load_missing_prefix eng m selected g start configs reclaimed =
     (if ce_chunk_size eng = 0 then raiseA (OtherError ''ZeroDivisionError'')
      else let base = lm_prefix_end m div ce_chunk_size eng * ce_chunk_size eng in
      case selected of
        [] \<Rightarrow> retA (None, [], reclaimed)
      | (src, _) # _ \<Rightarrow>
          if start = base \<and> cp_start src > base then
            bindA (reserve_once eng reclaimed (ce_load_prefix eng (py_take (lm_prefix_end m) (lm_tokens m)) g configs)
                     g (lm_prefix_end m - base)) (\<lambda>(prefix, used).
            retA (Some prefix,
              (\<lparr>cp_start = base, cp_end = min (lm_prefix_end m) (cp_start src), cp_key = None\<rparr>, prefix) # selected, used))
          else retA (None, selected, reclaimed))"

definition drop_owner :: "('k, 'c, 'v, 's) checkpoint_engine \<Rightarrow> nat option \<Rightarrow> ('s, unit) act" where
  "drop_owner eng page = (case page of None \<Rightarrow> retA () | Some p \<Rightarrow> ce_down eng p)"

text \<open>The allocated page, given back when assembling raises.\<close>

definition assemble_page :: "('k, 'c, 'v, 's) checkpoint_engine \<Rightarrow> 'k source list \<Rightarrow> nat \<Rightarrow> int \<Rightarrow> int \<Rightarrow> bool \<Rightarrow>
    ('s, nat \<times> bool) act" where
  "assemble_page eng selected g start stop reclaimed =
     bindA (reserve_once eng reclaimed (ce_allocate eng g (stop - start)) g (stop - start)) (\<lambda>((page, widths), used).
     bindA (attemptA (assemble eng page widths selected start stop)) (\<lambda>r.
     case r of
       Inl e \<Rightarrow> seqA (ce_down eng page) (raiseA e)
     | Inr _ \<Rightarrow> retA (page, used)))"

definition build_page :: "('k, 'c, 'v, 's) checkpoint_engine \<Rightarrow> ('k, 'c) local_checkpoint \<Rightarrow> 'k source list \<Rightarrow> nat \<Rightarrow>
    int \<Rightarrow> int \<Rightarrow> 'k \<Rightarrow> 'c \<Rightarrow> bool \<Rightarrow> ('s, nat \<times> bool) act" where
  "build_page eng m sources g start stop key configs reclaimed =
     (let selected = filter (\<lambda>(s, _). cp_start s < stop \<and> cp_end s > start) sources in
      bindA (readA (page_exact eng selected start stop)) (\<lambda>exact.
      case exact of
        Some page \<Rightarrow> seqA (ce_up eng page) (retA (page, reclaimed))
      | None \<Rightarrow>
      bindA (ce_cached eng key g (stop - start)) (\<lambda>cached.
      case cached of
        Some page \<Rightarrow> retA (page, reclaimed)
      | None \<Rightarrow>
      bindA (load_missing_prefix eng m selected g start configs reclaimed) (\<lambda>(prefix, filled, used).
      bindA (attemptA (assemble_page eng filled g start stop used)) (\<lambda>r.
      seqA (drop_owner eng prefix) (liftA r))))))"


section \<open>Normalizing\<close>

text \<open>What \<open>normalize\<close> has in local variables when it raises.\<close>

record ('k, 'c) normal_locals =
  nz_owners :: "nat list"
  nz_covered :: int
  nz_manifest :: "nat \<times> ('k, 'c) local_checkpoint"
  nz_reclaimed :: bool

type_synonym ('k, 'c, 'w, 'z) normal_state = "('k, 'c) normal_locals \<times> ('k, 'c, 'w, 'z) store_state_scheme"

definition own_page :: "nat \<Rightarrow> (('k, 'c, 'w, 'z) normal_state, unit) act" where
  "own_page page = writeA (\<lambda>(l, s). (l\<lparr>nz_owners := nz_owners l @ [page]\<rparr>, s))"

text \<open>The keys, pages and manifest pages of a group's chunks; the selector's index is passed along.\<close>

fun normalize_chunks :: "('k, 'c, 'v, ('k, 'c, 'w, 'z) store_state_scheme) checkpoint_engine \<Rightarrow> 'k source list \<Rightarrow> nat \<Rightarrow> 'c \<Rightarrow> int \<Rightarrow>
    nat \<Rightarrow> (int \<times> int \<times> 'k) list \<Rightarrow> ('k \<times> nat \<times> 'k checkpoint_page) list \<Rightarrow>
    (('k, 'c, 'w, 'z) normal_state, ('k \<times> nat \<times> 'k checkpoint_page) list) act" where
  "normalize_chunks eng sources g configs n index [] rows = retA rows"
| "normalize_chunks eng sources g configs n index ((start, stop, key) # chunks) rows =
     bindA (readA (nz_covered \<circ> fst)) (\<lambda>covered.
     if start \<noteq> covered \<or> \<not> (start < stop \<and> stop \<le> n)
     then raiseA (ValueError ''Normalized checkpoint coverage has a gap or overlap'')
     else case select_overlaps sources index start stop of (index', selected) \<Rightarrow>
     bindA (readA (\<lambda>(l, s). (snd (nz_manifest l), nz_reclaimed l))) (\<lambda>(m, reclaimed).
     bindA (innerA (build_page eng m selected g start stop key configs reclaimed)) (\<lambda>(page, used).
     seqA (own_page page)
     (seqA (writeA (\<lambda>(l, s). (l\<lparr>nz_reclaimed := used, nz_covered := stop\<rparr>, s)))
     (normalize_chunks eng sources g configs n index' chunks
        (rows @ [(key, page, \<lparr>cp_start = start, cp_end = stop, cp_key = Some key\<rparr>)]))))))"

definition with_group :: "nat \<Rightarrow> 'k checkpoint_page list \<Rightarrow> ('k, 'c) local_checkpoint \<Rightarrow> ('k, 'c) local_checkpoint" where
  "with_group g pages m = m\<lparr>lm_groups := (if g = 0 then (pages, snd (lm_groups m)) else (fst (lm_groups m), pages))\<rparr>"

text \<open>The manifest is a new object; it is published only if the old one still is the offer.\<close>

definition install_group :: "string \<Rightarrow> int \<Rightarrow> nat \<Rightarrow> 'k checkpoint_page list \<Rightarrow> (('k, 'c, 'w, 'z) normal_state, unit) act" where
  "install_group req generation g pages =
     writeA (\<lambda>(l, s).
       let previous = nz_manifest l; updated = (ls_next s, with_group g pages (snd previous));
           s1 = s\<lparr>ls_next := Suc (ls_next s)\<rparr>
       in (l\<lparr>nz_manifest := updated\<rparr>,
           if map_option fst (offer req generation s) = Some (fst previous)
           then s1\<lparr>ls_manifests := AList.update (req, generation) updated (ls_manifests s)\<rparr> else s1))"

definition remove_moved :: "('k, 'c, 'v, 's) checkpoint_engine \<Rightarrow> 'k source list \<Rightarrow> ('s, unit) act" where
  "remove_moved eng sources =
     eachA (\<lambda>(src, _). if ce_is_checkpoint_key eng (cp_key src) then ce_remove eng (cp_key src) else retA ()) sources"

definition retain_installed :: "('k, 'c, 'v, ('k, 'c, 'w, 'z) store_state_scheme) checkpoint_engine \<Rightarrow> nat \<Rightarrow>
    ('k \<times> nat \<times> 'k checkpoint_page) list \<Rightarrow> (('k, 'c, 'w, 'z) normal_state, unit) act" where
  "retain_installed eng g rows =
     bindA (innerA (ce_prefix eng (map (Some \<circ> fst) rows))) (\<lambda>(installed, amount).
     seqA (writeA (\<lambda>(l, s). (l\<lparr>nz_owners := nz_owners l @ installed\<rparr>, s)))
     (if amount \<noteq> length rows
      then raiseA (if amount < length rows
        then CheckpointRestoreMiss (cp_start (snd (snd (rows ! amount)))) ''Normalized checkpoint was evicted during admission''
        else IndexError)
      else innerA (eachA (ce_validate eng g) installed)))"

definition normalize_group :: "('k, 'c, 'v, ('k, 'c, 'w, 'z) store_state_scheme) checkpoint_engine \<Rightarrow> string \<Rightarrow> int \<Rightarrow> int list \<Rightarrow> 'c \<Rightarrow>
    int \<Rightarrow> nat \<Rightarrow> 'k source list \<Rightarrow> (('k, 'c, 'w, 'z) normal_state, unit) act" where
  "normalize_group eng req generation tokens configs base g sources =
     seqA (writeA (\<lambda>(l, s). (l\<lparr>nz_covered := base\<rparr>, s)))
     (bindA (innerA (ce_token_results eng tokens configs g base)) (\<lambda>(chunks, failure).
      bindA (normalize_chunks eng sources g configs (int (length tokens)) 0 chunks []) (\<lambda>rows.
      case failure of Some e \<Rightarrow> raiseA e | None \<Rightarrow>
      bindA (readA (nz_covered \<circ> fst)) (\<lambda>covered.
      if covered \<noteq> int (length tokens) then raiseA (ValueError ''Normalized checkpoint coverage omits the partial tail'')
      else
        seqA (innerA (ce_submit eng (map fst rows) (map (fst \<circ> snd) rows)))
        (seqA (install_group req generation g (map (snd \<circ> snd) rows))
        (seqA (innerA (remove_moved eng sources))
        (retain_installed eng g rows)))))))"

definition normalize_body :: "('k, 'c, 'v, ('k, 'c, 'w, 'z) store_state_scheme) checkpoint_engine \<Rightarrow> string \<Rightarrow> int \<Rightarrow> int list \<Rightarrow> 'c \<Rightarrow>
    ('k, 'c) local_checkpoint \<Rightarrow> int \<Rightarrow> 'k source list \<times> 'k source list \<Rightarrow> (('k, 'c, 'w, 'z) normal_state, int) act" where
  "normalize_body eng req generation tokens configs m common groups =
     (if common \<noteq> int (length tokens)
      then raiseA (CheckpointRestoreMiss common ''Local checkpoint was evicted before restore'')
      else if ce_chunk_size eng = 0 then raiseA (OtherError ''ZeroDivisionError'')
      else let base = lm_prefix_end m div ce_chunk_size eng * ce_chunk_size eng in
        seqA (normalize_group eng req generation tokens configs base 0 (fst groups))
        (seqA (normalize_group eng req generation tokens configs base 1 (snd groups))
         (retA base)))"

text \<open>The handler: owners are given back, and a lack of memory becomes a miss before the failed boundary.\<close>

definition normalize_failed :: "('k, 'c, 'v, 's) checkpoint_engine \<Rightarrow> int \<Rightarrow> int \<Rightarrow> ('k, 'c) normal_locals \<Rightarrow> exn \<Rightarrow> ('s, 'a) act" where
  "normalize_failed eng common n l e =
     seqA (eachA (ce_down eng) (nz_owners l))
     (if is_memory_error e
      then raiseA (CheckpointRestoreMiss (min (nz_covered l) (min common (n - 1)))
             ''Local checkpoint boundary workspace is unavailable'')
      else raiseA e)"

definition normalize_owned :: "('k, 'c, 'v, ('k, 'c, 'w, 'z) store_state_scheme) checkpoint_engine \<Rightarrow> string \<Rightarrow> int \<Rightarrow> int list \<Rightarrow> 'c \<Rightarrow>
    nat \<times> ('k, 'c) local_checkpoint \<Rightarrow> int \<Rightarrow> 'k source list \<times> 'k source list \<Rightarrow>
    (('k, 'c, 'w, 'z) store_state_scheme, int \<times> nat list) act" where
  "normalize_owned eng req generation tokens configs m common groups = (\<lambda>s.
     case normalize_body eng req generation tokens configs (snd m) common groups
            (\<lparr>nz_owners = [], nz_covered = lm_prefix_end (snd m), nz_manifest = m, nz_reclaimed = False\<rparr>, s) of
       (Inr base, (l, s1)) \<Rightarrow> (Inr (base, nz_owners l), s1)
     | (Inl e, (l, s1)) \<Rightarrow> normalize_failed eng common (int (length tokens)) l e s1)"

text \<open>\<open>acq\<close> is the method \<open>self.acquire\<close>.\<close>

definition normalize_with :: "('k, 'c, 'v, ('k, 'c, 'w, 'z) store_state_scheme) checkpoint_engine \<Rightarrow>
    (('k, 'c) local_checkpoint \<Rightarrow> int \<Rightarrow> (('k, 'c, 'w, 'z) store_state_scheme, int \<times> ('k source list \<times> 'k source list)) act) \<Rightarrow> string \<Rightarrow> int \<Rightarrow> int list \<Rightarrow> 'c \<Rightarrow>
    (('k, 'c, 'w, 'z) store_state_scheme, int \<times> nat list) act" where
  "normalize_with eng acq req generation tokens configs =
     bindA (readA (offer req generation)) (\<lambda>found.
     case found of
       None \<Rightarrow> raiseA (CheckpointRestoreMiss 0 ''Local checkpoint offer is unavailable'')
     | Some m \<Rightarrow>
         if tokens \<noteq> take (length tokens) (lm_tokens (snd m))
         then raiseA (ValueError ''Local checkpoint generation/history is unavailable'')
         else bindA (acq (snd m) (int (length tokens))) (\<lambda>(common, groups).
           bindA (attemptA (normalize_owned eng req generation tokens configs m common groups)) (\<lambda>r.
           seqA (release_sources eng groups) (liftA r))))"

definition normalize :: "('k, 'c, 'v, ('k, 'c, 'w, 'z) store_state_scheme) checkpoint_engine \<Rightarrow> string \<Rightarrow> int \<Rightarrow> int list \<Rightarrow> 'c \<Rightarrow>
    (('k, 'c, 'w, 'z) store_state_scheme, int \<times> nat list) act" where
  "normalize eng req generation tokens configs = normalize_with eng (acquire eng) req generation tokens configs"

end
