(* ===== verification/CheckpointReferences.thy ===== *)
theory CheckpointReferences
  imports LocalCheckpoint
begin

text \<open>
  The references of the local checkpoint store (\<open>local_checkpoint.py\<close>): each operation is a calculation in the
  accounting of \<open>Effects\<close>, from what the engine's methods do to the counts.
\<close>

section \<open>Balance of references\<close>

interpretation refs: accounting refs for refs .

definition once :: "nat \<Rightarrow> nat \<Rightarrow> int" where
  "once q p = (if p = q then 1 else 0)"

definition held :: "'k source list \<Rightarrow> nat \<Rightarrow> int" where
  "held h p = int (count_list (map snd h) p)"

lemma held_simps [simp]: "held [] p = 0" "held ((s, q) # h) p = once q p + held h p" "held (h @ h') p = held h p + held h' p"
  "held (rev h) p = held h p"
  by (auto simp: held_def once_def simp flip: rev_map)

text \<open>
  What the store relies on: a prefix of the keys answers with one reference to each page, the pages
  that are obtained singly are counted once, giving back does not raise, and the rest changes no count.
\<close>

definition engine_counts :: "('k, 'c, 'v, 's) checkpoint_engine \<Rightarrow> ('s \<Rightarrow> nat \<Rightarrow> int) \<Rightarrow> bool" where
  "engine_counts eng refs \<longleftrightarrow>
     (\<forall>ks. refs.changes refs (ce_prefix eng ks) (\<lambda>_. 0) (\<lambda>(ps, n) p. int (count_list ps p))) \<and>
     (\<forall>ks s ps n t. ce_prefix eng ks s = (Inr (ps, n), t) \<longrightarrow> length ps = n \<and> n \<le> length ks) \<and>
     (\<forall>g p. refs.changes refs (ce_validate eng g p) (\<lambda>_. 0) (\<lambda>_ _. 0)) \<and>
     (\<forall>q. refs.changes refs (ce_up eng q) (\<lambda>_. 0) (\<lambda>_. once q)) \<and>
     (\<forall>q lost. refs.changes refs (ce_down eng q) lost (\<lambda>_ p. - once q p)) \<and>
     (\<forall>k g n. refs.changes refs (ce_cached eng k g n) (\<lambda>_. 0) (\<lambda>r. case r of None \<Rightarrow> \<lambda>_. 0 | Some q \<Rightarrow> once q)) \<and>
     (\<forall>ts g c. refs.changes refs (ce_load_prefix eng ts g c) (\<lambda>_. 0) once) \<and>
     (\<forall>g n. refs.changes refs (ce_allocate eng g n) (\<lambda>_. 0) (\<lambda>(q, _). once q)) \<and>
     (\<forall>n g. refs.changes refs (ce_reclaim eng n g) (\<lambda>_. 0) (\<lambda>_ _. 0)) \<and>
     (\<forall>ts c g b. refs.changes refs (ce_token_results eng ts c g b) (\<lambda>_. 0) (\<lambda>_ _. 0)) \<and>
     (\<forall>ks ps. refs.changes refs (ce_submit eng ks ps) (\<lambda>_. 0) (\<lambda>_ _. 0)) \<and>
     (\<forall>k. refs.changes refs (ce_remove eng k) (\<lambda>_. 0) (\<lambda>_ _. 0)) \<and>
     (\<forall>q l v s. refs (ce_write_tensor eng q l v s) = refs s)"

lemma engine_counts_rules:
  assumes "engine_counts eng refs"
  shows "refs.changes refs (ce_prefix eng ks) (\<lambda>_. 0) (\<lambda>(ps, n) p. int (count_list ps p))"
    "ce_prefix eng ks s = (Inr (ps, n), t) \<Longrightarrow> length ps = n \<and> n \<le> length ks"
    "refs.changes refs (ce_validate eng g q) (\<lambda>_. 0) (\<lambda>_ _. 0)"
    "refs.changes refs (ce_up eng q) (\<lambda>_. 0) (\<lambda>_. once q)"
    "refs.changes refs (ce_down eng q) lost (\<lambda>_ p. - once q p)"
    "refs.changes refs (ce_cached eng k g a) (\<lambda>_. 0) (\<lambda>r. case r of None \<Rightarrow> \<lambda>_. 0 | Some q \<Rightarrow> once q)"
    "refs.changes refs (ce_load_prefix eng ts g c) (\<lambda>_. 0) once"
    "refs.changes refs (ce_allocate eng g a) (\<lambda>_. 0) (\<lambda>(q, _). once q)"
    "refs.changes refs (ce_reclaim eng a g) (\<lambda>_. 0) (\<lambda>_ _. 0)"
    "refs.changes refs (ce_token_results eng ts c g b) (\<lambda>_. 0) (\<lambda>_ _. 0)"
    "refs.changes refs (ce_submit eng ks' qs) (\<lambda>_. 0) (\<lambda>_ _. 0)"
    "refs.changes refs (ce_remove eng k') (\<lambda>_. 0) (\<lambda>_ _. 0)"
    "refs (ce_write_tensor eng q l v s') = refs s'"
  using assms unfolding engine_counts_def by metis+

lemma page_fits_counts:
  assumes e: "engine_counts eng refs"
  shows "refs.changes refs (page_fits eng g src page) (\<lambda>_. 0) (\<lambda>_ _. 0)"
  unfolding page_fits_def
  by (rule refs.changes_bind [OF refs.changes_read]) (auto intro!: refs.changes_raise engine_counts_rules(3) [OF e])

lemma raise_after_down:
  assumes e: "engine_counts eng refs" and l: "\<And>p. lost p = - once page p"
  shows "refs.changes refs (seqA (ce_down eng page) (raiseA x)) lost gained"
  by (rule refs.changes_seq [OF engine_counts_rules(5) [OF e]], rule refs.changes_raise) (simp add: l)

lemma keep_fitting_counts:
  assumes e: "engine_counts eng refs"
  shows "refs.changes refs (keep_fitting eng g src page) (\<lambda>p. - once page p)
     (\<lambda>r p. (case r of None \<Rightarrow> 0 | Some q \<Rightarrow> once q p) - once page p)"
  unfolding keep_fitting_def
  by (rule refs.changes_bind [OF refs.changes_attempt [OF page_fits_counts [OF e]]], rule refs.changes_case_res)
    (auto intro!: raise_after_down [OF e] refs.changes_ret)

lemma get_page_counts:
  assumes e: "engine_counts eng refs"
  shows "refs.changes refs (get_page eng g src) (\<lambda>_. 0) (\<lambda>r p. case r of None \<Rightarrow> 0 | Some q \<Rightarrow> once q p)"
  unfolding get_page_def
proof (rule refs.changes_bind [OF engine_counts_rules(1) [OF e]])
  fix x s t
  assume "ce_prefix eng [cp_key src] s = (Inr x, t)"
  moreover obtain ps n where x: "x = (ps, n)" by fastforce
  ultimately have len: "length ps = n" "n \<le> 1" using engine_counts_rules(2) [OF e] by fastforce+
  show "refs.changes refs (case x of (pages, n) \<Rightarrow> if n = 0 then retA None
       else case pages of [] \<Rightarrow> raiseA IndexError | page # _ \<Rightarrow> keep_fitting eng g src page)
     (\<lambda>p. 0 - (case x of (ps, n) \<Rightarrow> \<lambda>p. int (count_list ps p)) p)
     (\<lambda>r p. (case r of None \<Rightarrow> 0 | Some q \<Rightarrow> once q p) - (case x of (ps, n) \<Rightarrow> \<lambda>p. int (count_list ps p)) p)"
  proof (cases ps)
    case Nil
    then show ?thesis using len x by (simp add: refs.changes_ret)
  next
    case (Cons page rest)
    then have "n = 1" "rest = []" using len by auto
    then show ?thesis using x Cons
      by (auto intro!: refs.changes_cong [OF keep_fitting_counts [OF e]] simp: once_def)
  qed
qed

definition gets_once :: "('s \<Rightarrow> nat \<Rightarrow> int) \<Rightarrow> ('s, nat option) act \<Rightarrow> bool" where
  "gets_once refs m \<longleftrightarrow> refs.changes refs m (\<lambda>_. 0) (\<lambda>r p. case r of None \<Rightarrow> 0 | Some q \<Rightarrow> once q p)"

lemma acquire_group_counts:
  assumes e: "\<And>src. gets_once refs (get src)"
  shows "refs.changes refs (acquire_group get stop pages cursor h) lost (\<lambda>(_, _, h') p. held h' p - held h p)"
proof (induction pages arbitrary: cursor h lost)
  case Nil
  then show ?case by (simp add: refs.changes_ret)
next
  case (Cons src pages)
  show ?case unfolding acquire_group.simps
    by (intro refs.changes_if Cons refs.changes_ret refs.changes_bind [OF refs.changes_attempt [OF e [unfolded gets_once_def]]]
        refs.changes_case_res refs.changes_case_option)
      (auto intro!: refs.changes_ret refs.changes_cong [OF Cons])
qed

lemma trim_held_counts:
  assumes e: "engine_counts eng refs"
  shows "refs.changes refs (trim_held eng common h) lost (\<lambda>(_, h') p. held h' p - held h p)"
  using e
proof (induction eng common h arbitrary: lost rule: trim_held.induct)
  case (1 eng common)
  then show ?case by (simp add: refs.changes_ret)
next
  case (2 eng common src page h)
  have down: "refs.changes refs (ce_down eng page) (\<lambda>p. - once page p) (\<lambda>_ p. - once page p)"
    by (rule engine_counts_rules(5) [OF 2(2)])
  show ?case unfolding trim_held.simps
    by (intro refs.changes_if refs.changes_bind [OF refs.changes_attempt [OF down]] refs.changes_case_res)
      (auto intro!: refs.changes_ret refs.changes_cong [OF 2(1) [OF _ 2(2)]])
qed

lemma trim_group_counts:
  assumes e: "engine_counts eng refs"
  shows "refs.changes refs (trim_group eng common h) lost (\<lambda>(_, h') p. held h' p - held h p)"
  unfolding trim_group_def
  by (rule refs.changes_bind [OF trim_held_counts [OF e]]) (auto intro!: refs.changes_ret)

lemma sum_once: "sum_list (map (\<lambda>(_, q). - once q p) h) = - held h p"
  by (induction h) (auto simp: once_def held_def)

lemma each_source_down:
  assumes e: "engine_counts eng refs"
  shows "refs.changes refs (eachA (\<lambda>(_, page). ce_down eng page) h) lost (\<lambda>_ p. - held h p)"
proof -
  have "refs.changes refs ((\<lambda>(_, page). ce_down eng page) x) lost' (\<lambda>_. (\<lambda>(_, q) p. - once q p) x)" for x lost'
    by (cases x) (simp add: engine_counts_rules(5) [OF e])
  from refs.changes_each_down [OF this] show ?thesis
    by (rule refs.changes_cong) (simp_all add: sum_once case_prod_beta' flip: sum_once)
qed

lemma release_sources_counts:
  assumes e: "engine_counts eng refs"
  shows "refs.changes refs (release_sources eng groups) lost (\<lambda>_ p. - held (fst groups) p - held (snd groups) p)"
  unfolding release_sources_def
  by (rule refs.changes_seq [OF each_source_down [OF e]], rule refs.changes_cong [OF each_source_down [OF e]]) auto

lemma release_and_raise_counts:
  assumes e: "engine_counts eng refs" and l: "\<And>p. lost p = - held (fst groups) p - held (snd groups) p"
  shows "refs.changes refs (release_and_raise eng groups x) lost gained"
  unfolding release_and_raise_def
  by (rule refs.changes_seq [OF release_sources_counts [OF e]], rule refs.changes_raise) (simp add: l)

lemma trim_groups_counts:
  assumes e: "engine_counts eng refs"
  shows "refs.changes refs (trim_groups eng common held0 held1) (\<lambda>p. - held held0 p - held held1 p)
    (\<lambda>(_, h0, h1) p. held h0 p + held h1 p - held held0 p - held held1 p)"
  unfolding trim_groups_def
  apply (rule refs.changes_bind [OF trim_group_counts [OF e]])
  apply (simp only: split_paired_all prod.case)
  apply (rule refs.changes_case_option)
   prefer 2
   apply (rule release_and_raise_counts [OF e], simp)
  apply (rule refs.changes_bind [OF trim_group_counts [OF e]])
  apply (simp only: split_paired_all prod.case)
  apply (rule refs.changes_case_option)
   prefer 2
   apply (rule release_and_raise_counts [OF e], simp)
  apply (rule refs.changes_ret)
  apply simp
  done

lemma acquire_with_counts:
  assumes e: "engine_counts eng refs" and get: "\<And>g src. gets_once refs (get g src)"
  shows "refs.changes refs (acquire_with eng get m stop) (\<lambda>_. 0) (\<lambda>(_, h0, h1) p. held h0 p + held h1 p)"
  unfolding acquire_with_def acquire_second_def
  apply (rule refs.changes_bind [OF acquire_group_counts [OF get]])
  apply (simp only: split_paired_all prod.case)
  apply (rule refs.changes_case_option)
   prefer 2
   apply (rule release_and_raise_counts [OF e], simp)
  apply (rule refs.changes_bind [OF acquire_group_counts [OF get]])
  apply (simp only: split_paired_all prod.case)
  apply (rule refs.changes_case_option)
   prefer 2
   apply (rule release_and_raise_counts [OF e], simp)
  apply (rule refs.changes_cong [OF trim_groups_counts [OF e]])
   apply auto
  done

lemma acquire_counts:
  assumes e: "engine_counts eng refs"
  shows "refs.changes refs (acquire eng m stop) (\<lambda>_. 0) (\<lambda>(_, h0, h1) p. held h0 p + held h1 p)"
  unfolding acquire_def
  by (rule acquire_with_counts [OF e]) (simp add: gets_once_def get_page_counts [OF e])

lemma available_counts:
  fixes eng :: "('k, 'c, 'v, ('k, 'c, 'w, 'z) store_state_scheme) checkpoint_engine"
  assumes e: "engine_counts eng refs"
  shows "refs.changes refs (available eng req generation stop) (\<lambda>_. 0) (\<lambda>_ _. 0)"
  unfolding available_def
  apply (rule refs.changes_bind [OF refs.changes_read])
   apply simp
  apply (rule refs.changes_case_option)
   apply (rule refs.changes_ret, simp)
  apply clarsimp
  apply (rule refs.changes_bind [OF acquire_counts [OF e]])
  apply clarsimp
  apply (rule refs.changes_seq [OF release_sources_counts [OF e]])
  apply (rule refs.changes_ret)
  apply simp
  done

lemma reserve_once_counts:
  assumes e: "engine_counts eng refs" and f: "refs.changes refs factory (\<lambda>_. 0) gained"
  shows "refs.changes refs (reserve_once eng reclaimed factory g a) (\<lambda>_. 0) (\<lambda>(x, _). gained x)"
  unfolding reserve_once_def
  apply (rule refs.changes_bind [OF refs.changes_attempt [OF f]])
  apply (rule refs.changes_case_res)
   apply (rule refs.changes_if)
    apply (rule refs.changes_raise, simp)
   apply (rule refs.changes_bind [OF engine_counts_rules(9) [OF e, THEN refs.changes_cong]])
     apply simp
    apply (rule refl)
   apply (rule refs.changes_if)
    apply (rule refs.changes_raise, simp)
   apply (rule refs.changes_bind [OF f [THEN refs.changes_cong]])
     apply simp
    apply (rule refl)
   apply (rule refs.changes_ret, simp)
  apply (rule refs.changes_ret, simp)
  done

lemma assemble_counts:
  assumes e: "engine_counts eng refs"
  shows "refs.changes refs (assemble eng page ws sources start stop) (\<lambda>_. 0) (\<lambda>_ _. 0)"
proof -
  have "refs.changes refs (assemble_layer eng page ws spans n layer) (\<lambda>_. 0) (\<lambda>_ _. 0)" for spans n layer
    unfolding assemble_layer_def
    by (rule refs.changes_bind [OF refs.changes_lift], simp, simp,
        rule refs.changes_bind [OF refs.changes_read], simp, clarsimp,
        rule refs.changes_seq [OF refs.changes_write], simp add: engine_counts_rules(13) [OF e],
        auto intro!: refs.changes_lift)
  then show ?thesis unfolding assemble_def
    by (intro refs.changes_bind [OF refs.changes_lift] refs.changes_bind [OF refs.changes_read])
      (auto intro!: refs.changes_each)
qed

lemma drop_owner_counts:
  assumes e: "engine_counts eng refs"
  shows "refs.changes refs (drop_owner eng q) lost (\<lambda>_ p. - (case q of None \<Rightarrow> 0 | Some q \<Rightarrow> once q p))"
  unfolding drop_owner_def
  by (rule refs.changes_case_option) (auto intro!: refs.changes_ret engine_counts_rules(5) [OF e])

lemma load_missing_prefix_counts:
  assumes e: "engine_counts eng refs"
  shows "refs.changes refs (load_missing_prefix eng m selected g start configs reclaimed) (\<lambda>_. 0)
     (\<lambda>(prefix, _, _) p. case prefix of None \<Rightarrow> 0 | Some q \<Rightarrow> once q p)"
proof -
  have load: "refs.changes refs (reserve_once eng reclaimed (ce_load_prefix eng ts g configs) g a) (\<lambda>_. 0) (\<lambda>(q, _). once q)" for ts a
    by (rule reserve_once_counts [OF e engine_counts_rules(7) [OF e]])
  show ?thesis unfolding load_missing_prefix_def Let_def
    by (cases selected) (auto intro!: refs.changes_ret refs.changes_raise refs.changes_bind [OF load])
qed

lemma assemble_page_counts:
  assumes e: "engine_counts eng refs"
  shows "refs.changes refs (assemble_page eng selected g start stop reclaimed) (\<lambda>_. 0) (\<lambda>(q, _). once q)"
  unfolding assemble_page_def
  apply (rule refs.changes_bind [OF reserve_once_counts [OF e engine_counts_rules(8) [OF e]]])
  apply clarsimp
  apply (rule refs.changes_bind [OF refs.changes_attempt [OF assemble_counts [OF e]]])
  apply (rule refs.changes_case_res)
   apply (rule raise_after_down [OF e], simp)
  apply (rule refs.changes_ret)
  apply simp
  done

lemma build_page_counts:
  assumes e: "engine_counts eng refs"
  shows "refs.changes refs (build_page eng m sources g start stop key configs reclaimed) (\<lambda>_. 0) (\<lambda>(q, _). once q)"
  unfolding build_page_def Let_def
  apply (rule refs.changes_bind [OF refs.changes_read])
   apply simp
  apply (rule refs.changes_case_option)
   prefer 2
   apply (rule refs.changes_seq [OF engine_counts_rules(4) [OF e, THEN refs.changes_cong]])
     apply simp
    apply (rule refl)
   apply (rule refs.changes_ret)
   apply simp
  apply (rule refs.changes_bind [OF engine_counts_rules(6) [OF e, THEN refs.changes_cong]])
    apply simp
   apply (rule refl)
  apply (rule refs.changes_case_option)
   prefer 2
   apply (rule refs.changes_ret)
   apply simp
  apply (rule refs.changes_bind [OF load_missing_prefix_counts [OF e, THEN refs.changes_cong]])
    apply simp
   apply (rule refl)
  apply (clarsimp simp del: split_paired_All)
  apply (rule refs.changes_bind [OF refs.changes_attempt [OF assemble_page_counts [OF e]]])
  apply (rule refs.changes_seq [OF drop_owner_counts [OF e]])
  apply (rename_tac r s3 t3, case_tac r)
   apply (simp add: liftA_def flip: raiseA_def)
   apply (rule refs.changes_raise, simp)
  apply (simp add: liftA_def flip: retA_def)
  apply (rule refs.changes_ret)
  apply (auto split: prod.split)
  done

text \<open>What the caller's references are worth, less the owners \<open>normalize\<close> holds for it.\<close>

definition balance :: "('w \<Rightarrow> nat \<Rightarrow> int) \<Rightarrow> ('k, 'c, 'w, 'z) normal_state \<Rightarrow> nat \<Rightarrow> int" where
  "balance wrefs = (\<lambda>(l, s) p. wrefs (ls_world s) p - int (count_list (nz_owners l) p))"

abbreviation (input) of_world :: "('w \<Rightarrow> nat \<Rightarrow> int) \<Rightarrow> ('k, 'c, 'w, 'z) store_state_scheme \<Rightarrow> nat \<Rightarrow> int" where
  "of_world wrefs s \<equiv> wrefs (ls_world s)"

lemma inner_counts:
  "refs.changes (of_world wrefs) m lost gained \<Longrightarrow> refs.changes (balance wrefs) (innerA m) lost gained"
  unfolding refs.changes_def
  by (auto simp: innerA_def balance_def split: prod.splits) (metis diff_add_eq fst_conv snd_conv)

lemma own_page_counts: "refs.changes (balance wrefs) (own_page q) lost (\<lambda>_ p. - once q p)"
  unfolding own_page_def by (rule refs.changes_write) (auto simp: balance_def once_def)

lemma locals_counts:
  assumes "\<And>l s. nz_owners (fst (f (l, s))) = nz_owners l \<and> ls_world (snd (f (l, s))) = ls_world s"
  shows "refs.changes (balance wrefs) (writeA f) lost (\<lambda>_ _. 0)"
proof (rule refs.changes_write)
  fix s p
  show "balance wrefs (f s) p = balance wrefs s p + 0"
    using assms [of "fst s" "snd s"] by (auto simp: balance_def split: prod.splits)
qed

lemma normalize_chunks_counts:
  assumes e: "engine_counts eng (of_world wrefs)"
  shows "refs.changes (balance wrefs) (normalize_chunks eng sources g configs n index chunks rows) (\<lambda>_. 0) (\<lambda>_ _. 0)"
proof (induction chunks arbitrary: index rows)
  case Nil
  then show ?case by (simp add: refs.changes_ret)
next
  case (Cons c chunks)
  obtain start stop key where c: "c = (start, stop, key)" using prod_cases3 by blast
  show ?case unfolding c normalize_chunks.simps
    apply (rule refs.changes_bind [OF refs.changes_read])
     apply simp
    apply (rule refs.changes_if)
     apply (rule refs.changes_raise, simp)
    apply (clarsimp simp del: split_paired_All split: prod.split)
    apply (rule refs.changes_bind [OF refs.changes_read])
     apply simp
    apply (clarsimp simp del: split_paired_All split: prod.split)
    apply (rule refs.changes_bind [OF inner_counts [OF build_page_counts [OF e]]])
    apply (clarsimp simp del: split_paired_All split: prod.split)
    apply (rule refs.changes_seq [OF own_page_counts])
    apply (rule refs.changes_seq [OF locals_counts])
     apply simp
    apply (rule refs.changes_cong [OF Cons])
     apply simp_all
    done
qed

lemma each_zero:
  assumes "\<And>x. refs.changes refs (f x) (\<lambda>_. 0) (\<lambda>_ _. 0)"
  shows "refs.changes refs (eachA f xs) (\<lambda>_. 0) (\<lambda>_ _. 0)"
  by (rule refs.changes_each) (rule assms)

lemma remove_moved_counts:
  assumes e: "engine_counts eng refs"
  shows "refs.changes refs (remove_moved eng sources) (\<lambda>_. 0) (\<lambda>_ _. 0)"
  unfolding remove_moved_def
  by (rule refs.changes_each) (auto intro!: refs.changes_if engine_counts_rules(12) [OF e] refs.changes_ret split: prod.split)

lemma retain_installed_counts:
  assumes e: "engine_counts eng (of_world wrefs)"
  shows "refs.changes (balance wrefs) (retain_installed eng g rows) (\<lambda>_. 0) (\<lambda>_ _. 0)"
proof -
  have own: "refs.changes (balance wrefs) (writeA (\<lambda>(l, s). (l\<lparr>nz_owners := nz_owners l @ qs\<rparr>, s)))
      lost (\<lambda>_ p. - int (count_list qs p))" for qs lost
    by (rule refs.changes_write) (auto simp: balance_def)
  have valid: "refs.changes (balance wrefs) (innerA (eachA (ce_validate eng g) qs)) (\<lambda>_. 0) (\<lambda>_ _. 0)" for qs
    by (rule inner_counts, rule refs.changes_each, rule engine_counts_rules(3) [OF e])
  show ?thesis unfolding retain_installed_def
    apply (rule refs.changes_bind [OF inner_counts [OF engine_counts_rules(1) [OF e]]])
    apply (simp only: split_paired_all prod.case)
    apply (rule refs.changes_seq [OF own])
    apply (rule refs.changes_if)
     apply (rule refs.changes_raise, simp)
    apply (rule refs.changes_cong [OF valid])
     apply simp_all
    done
qed

lemma install_group_counts: "refs.changes (balance wrefs) (install_group req generation g pages) lost (\<lambda>_ _. 0)"
  unfolding install_group_def by (rule locals_counts) (simp add: Let_def)

lemma zero_seq:
  fixes m :: "('s, unit) act"
  assumes "refs.changes refs m (\<lambda>_. 0) (\<lambda>_ _. 0)" "refs.changes refs n (\<lambda>_. 0) (\<lambda>_ _. 0)"
  shows "refs.changes refs (seqA m n) (\<lambda>_. 0) (\<lambda>_ _. 0)"
  by (rule refs.changes_seq [OF assms(1)]) (simp add: assms(2))

lemma zero_bind:
  assumes "refs.changes refs m (\<lambda>_. 0) (\<lambda>_ _. 0)" "\<And>x. refs.changes refs (f x) (\<lambda>_. 0) (\<lambda>_ _. 0)"
  shows "refs.changes refs (bindA m f) (\<lambda>_. 0) (\<lambda>_ _. 0)"
  by (rule refs.changes_bind [OF assms(1)]) (simp add: assms(2))

lemma normalize_group_counts:
  assumes e: "engine_counts eng (of_world wrefs)"
  shows "refs.changes (balance wrefs) (normalize_group eng req generation tokens configs base g sources) (\<lambda>_. 0) (\<lambda>_ _. 0)"
  unfolding normalize_group_def
  by (auto intro!: zero_seq zero_bind locals_counts inner_counts [OF engine_counts_rules(10) [OF e]]
      normalize_chunks_counts [OF e] refs.changes_case_option refs.changes_raise refs.changes_read refs.changes_if
      inner_counts [OF engine_counts_rules(11) [OF e]] install_group_counts inner_counts [OF remove_moved_counts [OF e]]
      retain_installed_counts [OF e] split: prod.split)

lemma normalize_body_counts:
  assumes e: "engine_counts eng (of_world wrefs)"
  shows "refs.changes (balance wrefs) (normalize_body eng req generation tokens configs m common groups) (\<lambda>_. 0) (\<lambda>_ _. 0)"
  unfolding normalize_body_def Let_def
  by (auto intro!: zero_seq normalize_group_counts [OF e] refs.changes_if refs.changes_raise refs.changes_ret)

lemma normalize_failed_counts:
  assumes e: "engine_counts eng refs"
  shows "refs.changes refs (normalize_failed eng common n l x) (\<lambda>p. - int (count_list (nz_owners l) p)) gained"
proof -
  have "sum_list (map (\<lambda>q. - once q p) qs) = - int (count_list qs p)" for qs p
    by (induction qs) (auto simp: once_def)
  then have down: "refs.changes refs (eachA (ce_down eng) qs) lost (\<lambda>_ p. - int (count_list qs p))" for qs lost
    using refs.changes_each_down [of refs "ce_down eng" "\<lambda>q p. - once q p" qs lost, OF engine_counts_rules(5) [OF e]]
    by (rule_tac refs.changes_cong) (assumption, simp_all)
  show ?thesis unfolding normalize_failed_def
    by (rule refs.changes_seq [OF down]) (auto intro!: refs.changes_if refs.changes_raise)
qed

lemma normalize_owned_counts:
  assumes e: "engine_counts eng (of_world wrefs)"
  shows "refs.changes (of_world wrefs) (normalize_owned eng req generation tokens configs m common groups)
     (\<lambda>_. 0) (\<lambda>(_, owners) p. int (count_list owners p))"
  unfolding refs.changes_def
proof (intro allI)
  fix s p
  let ?l = "\<lparr>nz_owners = [], nz_covered = lm_prefix_end (snd m), nz_manifest = m, nz_reclaimed = False\<rparr>"
  obtain r l s1 where b: "normalize_body eng req generation tokens configs (snd m) common groups (?l, s) = (r, (l, s1))"
    using prod_cases3 by blast
  have bal: "balance wrefs (l, s1) q = balance wrefs (?l, s) q" for q
    using refs.changesD [OF normalize_body_counts [OF e] b, of q] by (simp split: sum.splits)
  show "wrefs (ls_world (snd (normalize_owned eng req generation tokens configs m common groups s))) p =
      wrefs (ls_world s) p + (case fst (normalize_owned eng req generation tokens configs m common groups s) of
        Inl _ \<Rightarrow> 0 | Inr x \<Rightarrow> (\<lambda>(_, owners) p. int (count_list owners p)) x p)"
  proof (cases r)
    case (Inr base)
    then show ?thesis using bal [of p] b by (simp add: normalize_owned_def balance_def)
  next
    case (Inl x)
    obtain y :: "(int \<times> nat list) res" and s2 where f: "normalize_failed eng common (int (length tokens)) l x s1 = (y, s2)" by (metis surj_pair)
    have raised: "\<exists>z. y = Inl z"
      using f by (auto simp: normalize_failed_def seqA_def bindA_def raiseA_def split: prod.splits sum.splits if_splits)
    then show ?thesis
      using bal [of p] b Inl f refs.changesD [OF normalize_failed_counts [OF e] f, of p]
      by (auto simp: normalize_owned_def balance_def)
  qed
qed

lemma normalize_with_counts:
  assumes e: "engine_counts eng (of_world wrefs)"
    and acq: "\<And>m stop. refs.changes (of_world wrefs) (acq m stop) (\<lambda>_. 0) (\<lambda>(_, h0, h1) p. held h0 p + held h1 p)"
  shows "refs.changes (of_world wrefs) (normalize_with eng acq req generation tokens configs) (\<lambda>_. 0)
     (\<lambda>(_, owners) p. int (count_list owners p))"
  unfolding normalize_with_def
  apply (rule refs.changes_bind [OF refs.changes_read])
   apply simp
  apply (rule refs.changes_case_option)
   apply (rule refs.changes_raise, simp)
  apply (rule refs.changes_if)
   apply (rule refs.changes_raise, simp)
  apply (rule refs.changes_bind [OF acq [THEN refs.changes_cong]])
    apply simp
   apply (rule refl)
  apply (clarsimp simp del: split_paired_All)
  apply (rule refs.changes_bind [OF refs.changes_attempt [OF normalize_owned_counts [OF e]]])
  apply (rule refs.changes_seq [OF release_sources_counts [OF e]])
  apply (rename_tac r s3 t3, case_tac r)
   apply (simp add: liftA_def flip: raiseA_def)
   apply (rule refs.changes_raise, simp)
  apply (simp add: liftA_def flip: retA_def)
  apply (rule refs.changes_ret)
  apply (auto split: prod.split)
  done

lemma normalize_counts:
  assumes e: "engine_counts eng (of_world wrefs)"
  shows "refs.changes (of_world wrefs) (normalize eng req generation tokens configs) (\<lambda>_. 0)
     (\<lambda>(_, owners) p. int (count_list owners p))"
  unfolding normalize_def by (rule normalize_with_counts [OF e acquire_counts [OF e]])

end
