(* ===== verification/CheckpointPages.thy ===== *)
theory CheckpointPages
  imports LocalCheckpoint
begin

text \<open>
  The pages of the local checkpoint store: which sources a window selects, which tokens an acquired prefix
  covers, and what \<open>_assemble\<close> copies where.
\<close>

section \<open>Selection is the overlap filter\<close>

text \<open>One selector used for a list of windows, as in the loop of \<open>normalize\<close>.\<close>

fun select_windows :: "'k source list \<Rightarrow> nat \<Rightarrow> (int \<times> int) list \<Rightarrow> 'k source list list" where
  "select_windows sources index [] = []"
| "select_windows sources index ((start, stop) # windows) =
     (case select_overlaps sources index start stop of
        (index', selected) \<Rightarrow> selected # select_windows sources index' windows)"

definition ordered_sources :: "'k source list \<Rightarrow> bool" where
  "ordered_sources sources \<longleftrightarrow>
     sorted_wrt (\<lambda>(a, _) (b, _). cp_start a \<le> cp_start b \<and> cp_end a \<le> cp_end b) sources"

lemma while_is_filter:
  "sorted_wrt (\<lambda>a b. P b \<longrightarrow> P a) xs \<Longrightarrow> takeWhile P xs = filter P xs \<and> dropWhile P xs = filter (\<lambda>x. \<not> P x) xs"
proof (induction xs)
  case (Cons x xs)
  then show ?case by (cases "P x") (auto simp: filter_id_conv filter_empty_conv)
qed simp

lemma select_overlaps_eq:
  assumes o: "ordered_sources sources" and i: "list_all (\<lambda>(s, _). cp_end s \<le> start) (take index sources)"
    and s: "select_overlaps sources index start stop = (index', selected)"
  shows "selected = filter (\<lambda>(s, _). cp_start s < stop \<and> cp_end s > start) sources \<and>
     list_all (\<lambda>(s, _). cp_end s \<le> start) (take index' sources)"
proof -
  let ?P = "\<lambda>(s :: 'a checkpoint_page, _ :: nat). cp_end s \<le> start" and ?Q = "\<lambda>(s :: 'a checkpoint_page, _ :: nat). cp_start s < stop"
  let ?rest = "drop index sources"
  let ?n = "length (takeWhile ?P ?rest)"
  have sub: "sorted_wrt (\<lambda>(a, _) (b, _). cp_start a \<le> cp_start b \<and> cp_end a \<le> cp_end b) ?rest"
    using o unfolding ordered_sources_def by (rule sorted_wrt_drop)
  then have sorted: "sorted_wrt (\<lambda>a b. ?P b \<longrightarrow> ?P a) ?rest" "sorted_wrt (\<lambda>a b. ?Q b \<longrightarrow> ?Q a) ?rest"
    by (auto elim!: sorted_wrt_mono_rel [rotated])
  have dropped: "drop ?n ?rest = filter (\<lambda>x. \<not> ?P x) ?rest"
    using while_is_filter [OF sorted(1)] by (metis dropWhile_eq_drop)
  have sorted': "sorted_wrt (\<lambda>a b. ?Q b \<longrightarrow> ?Q a) (filter (\<lambda>x. \<not> ?P x) ?rest)"
    using sorted(2) by (rule sorted_wrt_filter)
  have sel: "selected = filter ?Q (filter (\<lambda>x. \<not> ?P x) ?rest)" "index' = index + ?n"
    using s while_is_filter [OF sorted'] dropped by (auto simp: select_overlaps_def Let_def)
  have gone: "filter (\<lambda>x. ?Q x \<and> \<not> ?P x) (take index sources) = []"
    using i by (auto simp: filter_empty_conv list_all_iff)
  have "filter (\<lambda>x. ?Q x \<and> \<not> ?P x) sources = filter (\<lambda>x. ?Q x \<and> \<not> ?P x) (take index sources @ ?rest)" by simp
  also have "\<dots> = selected" unfolding filter_append gone using sel(1) by (simp add: conj_commute)
  finally have "selected = filter (\<lambda>x. ?Q x \<and> \<not> ?P x) sources" by simp
  moreover have "list_all ?P (take ?n ?rest)"
    by (auto simp: list_all_iff takeWhile_eq_take [symmetric] dest: set_takeWhileD)
  then have "list_all ?P (take index' sources)" using i by (simp add: sel(2) take_add)
  ultimately show ?thesis by (auto intro!: filter_cong)
qed

lemma select_windows_from:
  assumes o: "ordered_sources sources" and w: "sorted (map fst windows)"
    and i: "case windows of [] \<Rightarrow> True | (start, _) # _ \<Rightarrow> list_all (\<lambda>(s, _). cp_end s \<le> start) (take index sources)"
  shows "select_windows sources index windows =
    map (\<lambda>(start, stop). filter (\<lambda>(s, _). cp_start s < stop \<and> cp_end s > start) sources) windows"
  using w i
proof (induction windows arbitrary: index)
  case (Cons x windows)
  obtain start stop where x: "x = (start, stop)" by fastforce
  obtain index' selected where s: "select_overlaps sources index start stop = (index', selected)" by fastforce
  have eq: "selected = filter (\<lambda>(s, _). cp_start s < stop \<and> cp_end s > start) sources"
      "list_all (\<lambda>(s, _). cp_end s \<le> start) (take index' sources)"
    using select_overlaps_eq [OF o _ s] Cons.prems(2) x by simp_all
  have "case windows of [] \<Rightarrow> True | (start, _) # _ \<Rightarrow> list_all (\<lambda>(s, _). cp_end s \<le> start) (take index' sources)"
    using eq(2) Cons.prems(1) x by (cases windows) (auto simp: list_all_iff intro: order_trans)
  from Cons.IH [OF _ this] show ?case using Cons.prems(1) x s eq(1) by simp
qed simp

lemma select_windows_exact:
  assumes "ordered_sources sources" "sorted (map fst windows)"
  shows "select_windows sources 0 windows =
    map (\<lambda>(start, stop). filter (\<lambda>(s, _). cp_start s < stop \<and> cp_end s > start) sources) windows"
  by (rule select_windows_from [OF assms]) (auto split: list.split)

section \<open>Coverage of an acquired prefix\<close>

text \<open>The sources tile the tokens from \<open>cursor\<close> to \<open>final\<close> without a hole.\<close>

fun tile :: "int \<Rightarrow> int \<Rightarrow> 'k source list \<Rightarrow> int \<Rightarrow> bool" where
  "tile stop cursor [] final \<longleftrightarrow> cursor = final"
| "tile stop cursor ((s, _) # h) final \<longleftrightarrow>
     cp_start s \<le> cursor \<and> cursor < cp_end s \<and> cursor < stop \<and> tile stop (min (cp_end s) stop) h final"

lemma tile_append: "tile stop c (h @ h') final \<longleftrightarrow> (\<exists>d. tile stop c h d \<and> tile stop d h' final)"
  by (induction h arbitrary: c) auto

lemma tile_le: "tile stop c h d \<Longrightarrow> c \<le> d \<and> d \<le> max c stop"
  by (induction h arbitrary: c) force+

text \<open>Every token before the end of the tiles lies in one of them.\<close>

lemma tile_covers: "tile stop c h d \<Longrightarrow> c \<le> t \<Longrightarrow> t < d \<Longrightarrow> \<exists>(s, _) \<in> set h. cp_start s \<le> t \<and> t < cp_end s"
proof (induction h arbitrary: c)
  case (Cons x h)
  obtain s p where x: "x = (s, p)" by fastforce
  show ?case
  proof (cases "t < min (cp_end s) stop")
    case True
    then show ?thesis using Cons.prems x by auto
  next
    case False
    then show ?thesis using Cons x by fastforce
  qed
qed simp

lemma acquire_group_tiles:
  assumes "acquire_group get stop pages cursor h s = (Inr (x, c, h'), t)" "tile stop start h cursor"
  shows "tile stop start h' c \<and> (\<exists>taken. map fst h' = map fst h @ taken \<and> subseq taken pages)"
  using assms
proof (induction pages arbitrary: cursor h s)
  case Nil
  then show ?case by (auto simp: act_defs)
next
  case (Cons src pages)
  show ?case
  proof (cases "cp_end src \<le> cursor")
    case True
    then show ?thesis using Cons by fastforce
  next
    case inside: False
    show ?thesis
    proof (cases "cp_start src > cursor \<or> cursor \<ge> stop")
      case True
      then show ?thesis using Cons.prems inside by (auto simp: act_defs)
    next
      case False
      obtain r s1 where g: "get src s = (r, s1)" by (metis surj_pair)
      show ?thesis
      proof (cases r)
        case (Inl e)
        then show ?thesis using Cons.prems inside False g by (auto simp: act_defs)
      next
        case (Inr page)
        show ?thesis
        proof (cases page)
          case None
          then show ?thesis using Cons.prems inside False g Inr by (auto simp: act_defs)
        next
          case (Some p)
          have run: "acquire_group get stop pages (min (cp_end src) stop) (h @ [(src, p)]) s1 = (Inr (x, c, h'), t)"
            using Cons.prems(1) inside False g Inr Some by (simp add: act_defs)
          have "tile stop start (h @ [(src, p)]) (min (cp_end src) stop)"
            using Cons.prems(2) inside False by (auto simp: tile_append)
          from Cons.IH [OF run this] show ?thesis by (metis append.assoc append_Cons append_Nil map_append list.simps(8,9) fst_conv subseq_Cons2)
        qed
      qed
    qed
  qed
qed

lemma trim_held_result:
  assumes "trim_held eng common h s = (Inr (None, h'), t)"
  shows "h' = dropWhile (\<lambda>(s, _). \<not> cp_start s < common) h"
  using assms
proof (induction eng common h arbitrary: s rule: trim_held.induct)
  case (1 eng common)
  then show ?case by (simp add: act_defs)
next
  case (2 eng common src page h)
  obtain r s1 where d: "ce_down eng page s = (r, s1)" by (metis surj_pair)
  show ?case using 2 d by (cases r) (auto simp: act_defs split: if_splits)
qed

lemma trim_group_result:
  assumes "trim_group eng common h s = (Inr (None, h'), t)"
  shows "\<exists>gone. h = h' @ gone \<and> (\<forall>(s, _) \<in> set gone. common \<le> cp_start s) \<and>
    (h' = [] \<or> cp_start (fst (last h')) < common)"
proof -
  obtain k where k: "trim_held eng common (rev h) s = (Inr (None, k), t)" "h' = rev k"
    using assms by (auto simp: trim_group_def bindA_Inr retA_def split: prod.splits)
  let ?P = "\<lambda>(s, _ :: nat). \<not> cp_start s < common"
  have k': "k = dropWhile ?P (rev h)" by (rule trim_held_result [OF k(1)])
  have "rev h = takeWhile ?P (rev h) @ k" unfolding k' by simp
  then have "h = rev k @ rev (takeWhile ?P (rev h))" by (metis rev_append rev_rev_ident)
  moreover have "\<forall>(s, _) \<in> set (rev (takeWhile ?P (rev h))). common \<le> cp_start s"
    by (auto dest!: set_takeWhileD)
  moreover have "h' = [] \<or> cp_start (fst (last h')) < common"
  proof (cases "k = []")
    case False
    then have "\<not> ?P (hd k)" using hd_dropWhile [of ?P "rev h"] k' by simp
    then show ?thesis using False k(2) by (auto simp: last_rev case_prod_beta')
  qed (simp add: k(2))
  ultimately show ?thesis by (intro exI [of _ "rev (takeWhile ?P (rev h))"] conjI) (simp_all only: k(2))
qed

lemma unless_failed_Inr:
  assumes "bindA m (\<lambda>(e, x). case e of Some e \<Rightarrow> release_and_raise eng (g x) e | None \<Rightarrow> f x) s = (Inr y, t)"
  shows "\<exists>x u. m s = (Inr (None, x), u) \<and> f x u = (Inr y, t)"
proof -
  obtain e x u where m: "m s = (Inr (e, x), u)" using assms unfolding bindA_Inr by auto
  then have "(case e of Some e \<Rightarrow> release_and_raise eng (g x) e | None \<Rightarrow> f x) u = (Inr y, t)"
    using assms by (simp add: bindA_def)
  then show ?thesis using m by (cases e) (auto simp: release_and_raise_def seqA_Inr simple_Inr)
qed

lemma acquire_result:
  assumes a: "acquire_with eng get m stop s = (Inr (common, h0, h1), t)"
  shows "\<exists>g0 g1 c0 c1. tile stop (lm_prefix_end m) (h0 @ g0) c0 \<and> tile stop (lm_prefix_end m) (h1 @ g1) c1 \<and>
    common = min c0 c1 \<and> subseq (map fst (h0 @ g0)) (fst (lm_groups m)) \<and> subseq (map fst (h1 @ g1)) (snd (lm_groups m)) \<and>
    (\<forall>(s, _) \<in> set (g0 @ g1). common \<le> cp_start s) \<and>
    (h0 = [] \<or> cp_start (fst (last h0)) < common) \<and> (h1 = [] \<or> cp_start (fst (last h1)) < common)"
proof -
  obtain c0 k0 s1 where a0: "acquire_group (get 0) stop (fst (lm_groups m)) (lm_prefix_end m) [] s = (Inr (None, c0, k0), s1)"
    and rest: "acquire_second eng get m stop (c0, k0) s1 = (Inr (common, h0, h1), t)"
    using unless_failed_Inr [OF a [unfolded acquire_with_def]] by auto
  obtain c1 k1 s2 where a1: "acquire_group (get 1) stop (snd (lm_groups m)) (lm_prefix_end m) [] s1 = (Inr (None, c1, k1), s2)"
    and rest2: "trim_groups eng (min c0 c1) k0 k1 s2 = (Inr (common, h0, h1), t)"
    using unless_failed_Inr [OF rest [unfolded acquire_second_def]] by auto
  obtain k0' s3 where t0: "trim_group eng (min c0 c1) k0 s2 = (Inr (None, k0'), s3)"
    and rest3: "bindA (trim_group eng (min c0 c1) k1) (\<lambda>(e1, kept1).
      case e1 of Some e \<Rightarrow> release_and_raise eng (k0', kept1) e | None \<Rightarrow> retA (min c0 c1, (k0', kept1))) s3 =
      (Inr (common, h0, h1), t)"
    using unless_failed_Inr [OF rest2 [unfolded trim_groups_def]] by auto
  have t1: "trim_group eng (min c0 c1) k1 s3 = (Inr (None, h1), t)" and common: "common = min c0 c1" and k0': "k0' = h0"
    using unless_failed_Inr [OF rest3] by (auto simp: simple_Inr)
  obtain g0 where g0: "k0 = h0 @ g0" "\<forall>(s, _) \<in> set g0. common \<le> cp_start s" "h0 = [] \<or> cp_start (fst (last h0)) < common"
    using trim_group_result [OF t0] common k0' by blast
  obtain g1 where g1: "k1 = h1 @ g1" "\<forall>(s, _) \<in> set g1. common \<le> cp_start s" "h1 = [] \<or> cp_start (fst (last h1)) < common"
    using trim_group_result [OF t1] common by blast
  have "tile stop (lm_prefix_end m) k0 c0 \<and> subseq (map fst k0) (fst (lm_groups m))"
    using acquire_group_tiles [OF a0] by simp
  moreover have "tile stop (lm_prefix_end m) k1 c1 \<and> subseq (map fst k1) (snd (lm_groups m))"
    using acquire_group_tiles [OF a1] by simp
  ultimately show ?thesis
    using g0 g1 common by (intro exI [of _ g0] exI [of _ g1] exI [of _ c0] exI [of _ c1]) (simp add: ball_Un)
qed

section \<open>Assembling copies every token\<close>

lemma copy_slice_in_range:
  assumes "b + n \<le> length target" "a + n \<le> length src"
  shows "copy_slice (int b) src (int a) (int n) target = (Inr (), take b target @ take n (drop a src) @ drop (b + n) target)"
proof -
  have "py_index (length src) (int a) = a" "py_index (length src) (int a + int n) = a + n"
    "py_index (length target) (int b) = b" "py_index (length target) (int b + int n) = b + n"
    using assms by (auto simp: py_index_def nat_add_distrib)
  then show ?thesis using assms by (simp add: copy_slice_def Let_def py_slice_def)
qed

lemma copy_slice_nth:
  assumes "b + n \<le> length target" "a + n \<le> length src"
  shows "\<exists>t. copy_slice (int b) src (int a) (int n) target = (Inr (), t) \<and> length t = length target \<and>
    (\<forall>k < length target. t ! k = (if b \<le> k \<and> k < b + n then src ! (a + (k - b)) else target ! k))"
proof -
  have "(take b target @ take n (drop a src) @ drop (b + n) target) ! k =
      (if b \<le> k \<and> k < b + n then src ! (a + (k - b)) else target ! k)" if "k < length target" for k
  proof -
    have len: "length (take b target) = b" "length (take n (drop a src)) = n" using assms by auto
    consider "k < b" | "b \<le> k" "k < b + n" | "b + n \<le> k" by linarith
    then show ?thesis
    proof cases
      case 1
      then show ?thesis using len by (simp add: nth_append)
    next
      case 2
      then have "k - b < n" by simp
      then show ?thesis using 2 len assms by (simp add: nth_append)
    next
      case 3
      then have "\<not> k - b < n" "k - b - n = k - (b + n)" by auto
      then show ?thesis using 3 len assms that by (simp add: nth_append)
    qed
  qed
  moreover have "length (take b target @ take n (drop a src) @ drop (b + n) target) = length target"
    using assms by simp
  ultimately show ?thesis using copy_slice_in_range [OF assms] by blast
qed

text \<open>Where plane \<open>i\<close> keeps element \<open>j\<close> of token \<open>t\<close>, in a page of \<open>n\<close> tokens.\<close>

definition place :: "nat \<Rightarrow> nat list \<Rightarrow> nat \<Rightarrow> nat \<Rightarrow> nat \<Rightarrow> nat" where
  "place n ws i t j = n * sum_list (take i ws) + t * ws ! i + j"

lemma place_0: "place n (w # ws) 0 t j = t * w + j"
  by (simp add: place_def)

lemma place_Suc: "place n (w # ws) (Suc i) t j = n * w + place n ws i t j"
  by (simp add: place_def algebra_simps)

lemma cell_less: "t < n \<Longrightarrow> j < (w :: nat) \<Longrightarrow> t * w + j < n * w"
proof -
  assume "t < n" "j < w"
  then have "t * w + j < Suc t * w" by simp
  also have "\<dots> \<le> n * w" using \<open>t < n\<close> by (intro mult_le_mono1) simp
  finally show ?thesis .
qed

lemma cell_in_range:
  assumes "j < (w :: nat)"
  shows "to * w \<le> t * w + j \<and> t * w + j < to * w + n * w \<longleftrightarrow> to \<le> t \<and> t < to + n"
proof
  assume "to * w \<le> t * w + j \<and> t * w + j < to * w + n * w"
  then have "to * w < Suc t * w" "t * w < (to + n) * w" using assms by (auto simp: algebra_simps)
  then have "to < Suc t" "t < to + n" using mult_less_cancel2 by blast+
  then show "to \<le> t \<and> t < to + n" by simp
next
  assume a: "to \<le> t \<and> t < to + n"
  then have "to \<le> t" "Suc t \<le> to + n" by simp_all
  then have "to * w \<le> t * w" "Suc t * w \<le> (to + n) * w" by (simp_all only: mult_le_mono1)
  moreover have "(to + n) * w = to * w + n * w" "Suc t * w = t * w + w" by (simp_all add: distrib_right)
  ultimately show "to * w \<le> t * w + j \<and> t * w + j < to * w + n * w" using assms by linarith
qed

lemma place_bound:
  "i < length ws \<Longrightarrow> t < n \<Longrightarrow> j < ws ! i \<Longrightarrow> place n ws i t j < n * sum_list ws"
proof (induction ws arbitrary: i)
  case (Cons w ws)
  show ?case
  proof (cases i)
    case 0
    then show ?thesis using Cons.prems cell_less [of t n j w] by (simp add: place_0 distrib_left)
  next
    case (Suc k)
    then show ?thesis using Cons by (simp add: place_Suc distrib_left)
  qed
qed simp

text \<open>
  One span in one layer: tokens \<open>to\<close> to \<open>to + n\<close> of every plane come from the page, the rest of the
  target stays.
\<close>

lemma copy_planes_cells:
  assumes "to + n \<le> whole" "so + n \<le> valid"
    "base + whole * sum_list ws = length target" "sbase + valid * sum_list ws = length src"
    "base = whole * pre" "sbase = valid * pre"
  shows "\<exists>t'. copy_planes (int valid) (int whole) (int so) (int to) (int n) src (int pre) (map int ws) target = (Inr (), t') \<and>
    length t' = length target \<and> (\<forall>k < base. t' ! k = target ! k) \<and>
    (\<forall>i < length ws. \<forall>t < whole. \<forall>j < ws ! i. t' ! (base + place whole ws i t j) =
       (if to \<le> t \<and> t < to + n then src ! (sbase + place valid ws i (so + t - to) j)
        else target ! (base + place whole ws i t j)))"
  using assms
proof (induction ws arbitrary: pre base sbase target)
  case Nil
  then show ?case by (simp add: retA_def)
next
  case (Cons w ws)
  have r1: "base + to * w + n * w \<le> length target"
  proof -
    have "(to + n) * w \<le> whole * w" using Cons.prems(1) by (rule mult_le_mono1)
    then show ?thesis using Cons.prems(3) by (simp add: algebra_simps)
  qed
  have r2: "sbase + so * w + n * w \<le> length src"
  proof -
    have "(so + n) * w \<le> valid * w" using Cons.prems(2) by (rule mult_le_mono1)
    then show ?thesis using Cons.prems(4) by (simp add: algebra_simps)
  qed
  obtain t1 where c: "copy_slice (int (base + to * w)) src (int (sbase + so * w)) (int (n * w)) target = (Inr (), t1)"
    and len1: "length t1 = length target"
    and n1: "\<And>k. k < length target \<Longrightarrow> t1 ! k = (if base + to * w \<le> k \<and> k < base + to * w + n * w
      then src ! (sbase + so * w + (k - (base + to * w))) else target ! k)"
    using copy_slice_nth [OF r1 r2] by blast
  have ih: "\<exists>t'. copy_planes (int valid) (int whole) (int so) (int to) (int n) src (int (pre + w)) (map int ws) t1 = (Inr (), t') \<and>
    length t' = length t1 \<and> (\<forall>k < base + whole * w. t' ! k = t1 ! k) \<and>
    (\<forall>i < length ws. \<forall>t < whole. \<forall>j < ws ! i. t' ! (base + whole * w + place whole ws i t j) =
       (if to \<le> t \<and> t < to + n then src ! (sbase + valid * w + place valid ws i (so + t - to) j)
        else t1 ! (base + whole * w + place whole ws i t j)))"
    by (rule Cons.IH) (use Cons.prems len1 in \<open>simp_all add: algebra_simps\<close>)
  then obtain t' where t': "copy_planes (int valid) (int whole) (int so) (int to) (int n) src (int (pre + w)) (map int ws) t1 = (Inr (), t')"
    "length t' = length t1" "\<And>k. k < base + whole * w \<Longrightarrow> t' ! k = t1 ! k"
    "\<And>i t j. i < length ws \<Longrightarrow> t < whole \<Longrightarrow> j < ws ! i \<Longrightarrow> t' ! (base + whole * w + place whole ws i t j) =
       (if to \<le> t \<and> t < to + n then src ! (sbase + valid * w + place valid ws i (so + t - to) j)
        else t1 ! (base + whole * w + place whole ws i t j))"
    by blast
  have run: "copy_planes (int valid) (int whole) (int so) (int to) (int n) src (int pre) (map int (w # ws)) target = (Inr (), t')"
    using c t'(1) Cons.prems(5,6) by (simp add: seqA_def bindA_def algebra_simps)
  have below: "t' ! k = target ! k" if "k < base" for k
    using that t'(3) n1 Cons.prems(3) by simp
  have cells: "t' ! (base + place whole (w # ws) i t j) =
      (if to \<le> t \<and> t < to + n then src ! (sbase + place valid (w # ws) i (so + t - to) j)
       else target ! (base + place whole (w # ws) i t j))"
    if "i < length (w # ws)" "t < whole" "j < (w # ws) ! i" for i t j
  proof (cases i)
    case 0
    then have j: "j < w" using that by simp
    let ?k = "base + (t * w + j)"
    have lt: "t * w + j < whole * w" using cell_less that(2) j by simp
    then have k: "?k < base + whole * w" "?k < length target" using Cons.prems(3) by (auto simp: algebra_simps)
    have range: "base + to * w \<le> ?k \<and> ?k < base + to * w + n * w \<longleftrightarrow> to \<le> t \<and> t < to + n"
      using cell_in_range [OF j, of to t n] by auto
    have idx: "sbase + so * w + (?k - (base + to * w)) = sbase + ((so + t - to) * w + j)" if "to \<le> t"
    proof -
      have "t = to + (t - to)" "so + t - to = so + (t - to)" using that by simp_all
      then have "t * w = to * w + (t - to) * w" "(so + t - to) * w = so * w + (t - to) * w"
        by (metis distrib_right)+
      then show ?thesis by linarith
    qed
    show ?thesis
    proof (cases "to \<le> t \<and> t < to + n")
      case True
      have "t' ! ?k = src ! (sbase + so * w + (?k - (base + to * w)))"
        using t'(3) [OF k(1)] n1 [OF k(2)] range True by (simp only: if_True simp_thms)
      then show ?thesis unfolding 0 place_0 idx [OF conjunct1 [OF True]] using True by (simp only: if_True simp_thms)
    next
      case False
      have "t' ! ?k = target ! ?k" using t'(3) [OF k(1)] n1 [OF k(2)] range False by (simp only: if_False simp_thms)
      then show ?thesis unfolding 0 place_0 using False by (simp only: if_False simp_thms)
    qed
  next
    case (Suc i')
    then have i': "i' < length ws" "j < ws ! i'" using that by auto
    let ?k = "base + whole * w + place whole ws i' t j"
    have kl: "?k < length target" using place_bound [OF i'(1) that(2) i'(2)] Cons.prems(3) by (simp add: algebra_simps)
    have above: "\<not> ?k < base + to * w + n * w"
    proof -
      have "(to + n) * w \<le> whole * w" using Cons.prems(1) by (rule mult_le_mono1)
      then show ?thesis by (simp add: algebra_simps)
    qed
    have "t1 ! ?k = target ! ?k" using n1 [OF kl] above by simp
    then show ?thesis using t'(4) [OF i'(1) that(2) i'(2)] Suc by (simp add: place_Suc add.assoc)
  qed
  show ?case using run t'(2) len1 below cells by (intro exI [of _ t']) simp
qed


text \<open>Spans that follow one another from \<open>at\<close> on and end with the target.\<close>

fun spans_from :: "nat \<Rightarrow> nat \<Rightarrow> (nat \<Rightarrow> nat) \<Rightarrow> (nat \<times> nat \<times> nat \<times> nat) list \<Rightarrow> bool" where
  "spans_from whole at valid [] \<longleftrightarrow> at = whole"
| "spans_from whole at valid ((page, so, to, n) # spans) \<longleftrightarrow>
     to = at \<and> so + n \<le> valid page \<and> at + n \<le> whole \<and> spans_from whole (at + n) valid spans"

definition int_span :: "nat \<times> nat \<times> nat \<times> nat \<Rightarrow> span" where
  "int_span = (\<lambda>(page, so, to, n). (page, int so, int to, int n))"

text \<open>The source cell of token \<open>t\<close>.\<close>

fun span_source :: "(nat \<times> nat \<times> nat \<times> nat) list \<Rightarrow> nat \<Rightarrow> nat \<times> nat" where
  "span_source [] t = (0, 0)"
| "span_source ((page, so, to, n) # spans) t = (if t < to + n then (page, so + t - to) else span_source spans t)"

lemma copy_layer_cells:
  assumes "spans_from whole at valid spans" "length target = whole * sum_list ws"
    "\<And>page. page \<in> fst ` set spans \<Longrightarrow> length (tensor page) = valid page * sum_list ws"
  shows "\<exists>t'. copy_layer (\<lambda>p. int (valid p)) tensor (int whole) (map int ws) (map int_span spans) target = (Inr (), t') \<and>
    length t' = length target \<and>
    (\<forall>i < length ws. \<forall>t < whole. \<forall>j < ws ! i. t' ! place whole ws i t j =
       (if at \<le> t then case span_source spans t of (page, u) \<Rightarrow> tensor page ! place (valid page) ws i u j
        else target ! place whole ws i t j))"
  using assms
proof (induction spans arbitrary: at target)
  case Nil
  then show ?case by (simp add: copy_layer_def retA_def)
next
  case (Cons x spans)
  obtain page so to n where x: "x = (page, so, to, n)" using prod_cases4 by blast
  have s: "to = at" "so + n \<le> valid page" "at + n \<le> whole" "spans_from whole (at + n) valid spans"
    using Cons.prems(1) x by simp_all
  have "\<exists>t1. copy_planes (int (valid page)) (int whole) (int so) (int at) (int n) (tensor page) (int 0) (map int ws) target = (Inr (), t1) \<and>
    length t1 = length target \<and> (\<forall>k < 0. t1 ! k = target ! k) \<and>
    (\<forall>i < length ws. \<forall>t < whole. \<forall>j < ws ! i. t1 ! (0 + place whole ws i t j) =
       (if at \<le> t \<and> t < at + n then tensor page ! (0 + place (valid page) ws i (so + t - at) j)
        else target ! (0 + place whole ws i t j)))"
    by (rule copy_planes_cells) (use s Cons.prems(2,3) x in simp_all)
  then obtain t1 where t1: "copy_planes (int (valid page)) (int whole) (int so) (int at) (int n) (tensor page) 0 (map int ws) target = (Inr (), t1)"
    "length t1 = length target"
    "\<And>i t j. i < length ws \<Longrightarrow> t < whole \<Longrightarrow> j < ws ! i \<Longrightarrow> t1 ! place whole ws i t j =
       (if at \<le> t \<and> t < at + n then tensor page ! place (valid page) ws i (so + t - at) j else target ! place whole ws i t j)"
    by auto
  have "\<exists>t'. copy_layer (\<lambda>p. int (valid p)) tensor (int whole) (map int ws) (map int_span spans) t1 = (Inr (), t') \<and>
    length t' = length t1 \<and>
    (\<forall>i < length ws. \<forall>t < whole. \<forall>j < ws ! i. t' ! place whole ws i t j =
       (if at + n \<le> t then case span_source spans t of (page, u) \<Rightarrow> tensor page ! place (valid page) ws i u j
        else t1 ! place whole ws i t j))"
    by (rule Cons.IH) (use s Cons.prems(2,3) t1(2) in auto)
  then obtain t' where t': "copy_layer (\<lambda>p. int (valid p)) tensor (int whole) (map int ws) (map int_span spans) t1 = (Inr (), t')"
    "length t' = length t1"
    "\<And>i t j. i < length ws \<Longrightarrow> t < whole \<Longrightarrow> j < ws ! i \<Longrightarrow> t' ! place whole ws i t j =
       (if at + n \<le> t then case span_source spans t of (page, u) \<Rightarrow> tensor page ! place (valid page) ws i u j
        else t1 ! place whole ws i t j)"
    by blast
  have run: "copy_layer (\<lambda>p. int (valid p)) tensor (int whole) (map int ws) (map int_span (x # spans)) target = (Inr (), t')"
    using t1(1) t'(1) s(1) x by (simp add: copy_layer_def int_span_def seqA_def bindA_def)
  have "t' ! place whole ws i t j =
      (if at \<le> t then case span_source (x # spans) t of (page, u) \<Rightarrow> tensor page ! place (valid page) ws i u j
       else target ! place whole ws i t j)"
    if "i < length ws" "t < whole" "j < ws ! i" for i t j
    unfolding t'(3) [OF that] t1(3) [OF that] using x s(1) by auto
  then show ?case using run t'(2) t1(2) by (intro exI [of _ t']) simp
qed

text \<open>The sources that \<open>_assemble\<close> accepts: consecutive pieces from \<open>cursor\<close> to \<open>stop\<close>.\<close>

fun pieces :: "int \<Rightarrow> int \<Rightarrow> int \<Rightarrow> 'k source list \<Rightarrow> bool" where
  "pieces start stop cursor [] \<longleftrightarrow> cursor = stop"
| "pieces start stop cursor ((s, _) # sources) \<longleftrightarrow>
     max start (cp_start s) = cursor \<and> pieces start stop (min stop (cp_end s)) sources"

lemma assemble_spans_iff: "(\<exists>spans. assemble_spans start stop cursor sources = Inr spans) \<longleftrightarrow> pieces start stop cursor sources"
  by (induction start stop cursor sources rule: assemble_spans.induct) (auto simp: Let_def bindR_Inr_iff)

definition nat_spans :: "int \<Rightarrow> int \<Rightarrow> 'k source list \<Rightarrow> (nat \<times> nat \<times> nat \<times> nat) list" where
  "nat_spans start stop sources = map (\<lambda>(s, p). (p, nat (max start (cp_start s) - cp_start s), nat (max start (cp_start s) - start),
     nat (min stop (cp_end s) - max start (cp_start s)))) sources"

text \<open>What the pages must satisfy: they overlap the window, and hold as many tokens as the manifest says.\<close>

definition window_pages :: "int \<Rightarrow> int \<Rightarrow> (nat \<Rightarrow> int) \<Rightarrow> 'k source list \<Rightarrow> bool" where
  "window_pages start stop valid sources \<longleftrightarrow>
     list_all (\<lambda>(s, p). cp_start s < stop \<and> start < cp_end s \<and> cp_start s < cp_end s \<and> cp_end s - cp_start s \<le> valid p) sources"

lemma spans_are_nat:
  assumes "pieces start stop cursor sources" "window_pages start stop valid sources" "start < stop" "start \<le> cursor"
  shows "assemble_spans start stop cursor sources = Inr (map int_span (nat_spans start stop sources)) \<and>
    spans_from (nat (stop - start)) (nat (cursor - start)) (\<lambda>p. nat (valid p)) (nat_spans start stop sources) \<and> cursor \<le> stop"
  using assms
proof (induction sources arbitrary: cursor)
  case (Cons x sources)
  obtain s p where x: "x = (s, p)" by fastforce
  have w: "cp_start s < stop" "start < cp_end s" "cp_start s < cp_end s" "cp_end s - cp_start s \<le> valid p"
    and c: "max start (cp_start s) = cursor" and rest: "pieces start stop (min stop (cp_end s)) sources"
    using Cons.prems x by (simp_all add: window_pages_def)
  have ih: "assemble_spans start stop (min stop (cp_end s)) sources = Inr (map int_span (nat_spans start stop sources))"
    "spans_from (nat (stop - start)) (nat (min stop (cp_end s) - start)) (\<lambda>p. nat (valid p)) (nat_spans start stop sources)"
    using Cons.IH [OF rest] Cons.prems w by (simp_all add: window_pages_def)
  have next_at: "nat (cursor - start) + nat (min stop (cp_end s) - cursor) = nat (min stop (cp_end s) - start)"
    using c w Cons.prems(3) by auto
  have le: "start \<le> cursor" "cp_start s \<le> cursor" "cursor \<le> min stop (cp_end s)" "cursor \<le> stop" using c w Cons.prems(3) by auto
  have ints: "int (nat (cursor - cp_start s)) = cursor - cp_start s" "int (nat (cursor - start)) = cursor - start"
    "int (nat (min stop (cp_end s) - cursor)) = min stop (cp_end s) - cursor" using le by simp_all
  have span: "nat_spans start stop (x # sources) =
      (p, nat (cursor - cp_start s), nat (cursor - start), nat (min stop (cp_end s) - cursor)) # nat_spans start stop sources"
    by (simp add: nat_spans_def x c)
  have fits: "nat (cursor - cp_start s) + nat (min stop (cp_end s) - cursor) \<le> nat (valid p)"
    "nat (cursor - start) + nat (min stop (cp_end s) - cursor) \<le> nat (stop - start)" using le w by auto
  have spans: "assemble_spans start stop cursor (x # sources) = Inr (map int_span (nat_spans start stop (x # sources)))"
    unfolding span unfolding x assemble_spans.simps Let_def c ih(1)
    by (simp only: bindR_simps not_True_eq_False if_False list.map int_span_def prod.case ints refl)
  show ?case unfolding spans unfolding span using ih(2) fits next_at le(4) by simp
qed (simp add: nat_spans_def)

lemma span_source_cell:
  assumes "pieces start stop cursor sources" "window_pages start stop valid sources" "start < stop" "start \<le> cursor"
    "(s, p) \<in> set sources" "max start (cp_start s) \<le> x" "x < min stop (cp_end s)"
  shows "cursor \<le> x \<and> span_source (nat_spans start stop sources) (nat (x - start)) = (p, nat (x - cp_start s))"
  using assms
proof (induction sources arbitrary: cursor)
  case (Cons y sources)
  obtain s' p' where y: "y = (s', p')" by fastforce
  have w: "cp_start s' < stop" "start < cp_end s'" "cp_start s' < cp_end s'"
    and c: "max start (cp_start s') = cursor" and rest: "pieces start stop (min stop (cp_end s')) sources"
    using Cons.prems y by (simp_all add: window_pages_def)
  have window: "window_pages start stop valid sources" using Cons.prems(2) by (simp add: window_pages_def)
  show ?case
  proof (cases "x < min stop (cp_end s')")
    case True
    have same: "(s, p) = (s', p')"
    proof (rule ccontr)
      assume "(s, p) \<noteq> (s', p')"
      then have "(s, p) \<in> set sources" using Cons.prems(5) y by auto
      then show False using Cons.IH [OF rest window Cons.prems(3) _ _ Cons.prems(6,7)] True w Cons.prems(3) by auto
    qed
    then have s: "s = s'" "p = p'" by simp_all
    have le: "start \<le> cursor" "cp_start s' \<le> cursor" "cursor \<le> x" using c Cons.prems(6) s(1) by auto
    have "nat (cursor - cp_start s') + nat (x - start) - nat (cursor - start) = nat (x - cp_start s')" using le by arith
    moreover have "nat (x - start) < nat (cursor - start) + nat (min stop (cp_end s') - cursor)" using le True by auto
    ultimately show ?thesis using le(3) s y by (simp add: nat_spans_def c)
  next
    case False
    then have m: "(s, p) \<in> set sources" using Cons.prems(5,7) y by auto
    have ih: "span_source (nat_spans start stop sources) (nat (x - start)) = (p, nat (x - cp_start s))"
      using Cons.IH [OF rest window Cons.prems(3) _ m Cons.prems(6,7)] w Cons.prems(3) by simp
    have "\<not> nat (x - start) < nat (max start (cp_start s') - start) + nat (min stop (cp_end s') - max start (cp_start s'))"
      using False c w Cons.prems(3) by auto
    then show ?thesis using ih y False c w Cons.prems(6) by (auto simp: nat_spans_def)
  qed
qed simp

text \<open>What assembling relies on: writing a tensor changes that tensor only.\<close>

definition tensor_store :: "('k, 'c, 'v, 's) checkpoint_engine \<Rightarrow> bool" where
  "tensor_store eng \<longleftrightarrow> (\<forall>p l v s.
     (\<forall>q k. ce_tensor eng q k (ce_write_tensor eng p l v s) = (if q = p \<and> k = l then v else ce_tensor eng q k s)) \<and>
     (\<forall>q. ce_valid_tokens eng q (ce_write_tensor eng p l v s) = ce_valid_tokens eng q s) \<and>
     (\<forall>q. ce_layers eng q (ce_write_tensor eng p l v s) = ce_layers eng q s))"

lemma eachA_cong: "(\<And>x. x \<in> set xs \<Longrightarrow> f x = g x) \<Longrightarrow> eachA f xs = eachA g xs"
  by (induction xs) simp_all

definition same_pages :: "('k, 'c, 'v, 's) checkpoint_engine \<Rightarrow> nat \<Rightarrow> nat \<Rightarrow> 's \<Rightarrow> 's \<Rightarrow> bool" where
  "same_pages eng page layer s t \<longleftrightarrow>
     (\<forall>q k. (q, k) \<noteq> (page, layer) \<longrightarrow> ce_tensor eng q k t = ce_tensor eng q k s) \<and>
     (\<forall>q. ce_valid_tokens eng q t = ce_valid_tokens eng q s)"

text \<open>The cell of token \<open>x\<close> in the assembled page is the cell of that token in its source.\<close>

definition cells_copied :: "('k, 'c, 'v, 's) checkpoint_engine \<Rightarrow> nat \<Rightarrow> nat list \<Rightarrow> 'k source list \<Rightarrow> int \<Rightarrow> int \<Rightarrow>
    nat \<Rightarrow> 's \<Rightarrow> 's \<Rightarrow> bool" where
  "cells_copied eng page ws sources start stop layer s t \<longleftrightarrow>
     (\<forall>(src, p) \<in> set sources. \<forall>x i j. max start (cp_start src) \<le> x \<longrightarrow> x < min stop (cp_end src) \<longrightarrow>
        i < length ws \<longrightarrow> j < ws ! i \<longrightarrow>
        ce_tensor eng page layer t ! place (nat (stop - start)) ws i (nat (x - start)) j =
        ce_tensor eng p layer s ! place (nat (ce_valid_tokens eng p s)) ws i (nat (x - cp_start src)) j)"

lemma assemble_layer_cells:
  assumes store: "tensor_store eng" and ws: "layer_widths widths layer = Inr (map int ws)"
    and pieces: "pieces start stop start sources" and window: "window_pages start stop (\<lambda>p. ce_valid_tokens eng p s) sources"
    and window_nonempty: "start < stop" and target: "length (ce_tensor eng page layer s) = nat (stop - start) * sum_list ws"
    and srcs: "\<And>p. p \<in> snd ` set sources \<Longrightarrow> length (ce_tensor eng p layer s) = nat (ce_valid_tokens eng p s) * sum_list ws"
  shows "\<exists>t. assemble_layer eng page widths (map int_span (nat_spans start stop sources)) (stop - start) layer s = (Inr (), t) \<and>
    same_pages eng page layer s t \<and> ce_layers eng page t = ce_layers eng page s \<and>
    cells_copied eng page ws sources start stop layer s t"
proof -
  let ?spans = "nat_spans start stop sources" and ?valid = "\<lambda>p. nat (ce_valid_tokens eng p s)"
  have pages: "fst ` set ?spans = snd ` set sources" by (force simp: nat_spans_def)
  have consecutive: "spans_from (nat (stop - start)) 0 ?valid ?spans"
    using spans_are_nat [OF pieces window window_nonempty] by simp
  obtain t' where t': "copy_layer (\<lambda>p. int (?valid p)) (\<lambda>p. ce_tensor eng p layer s) (int (nat (stop - start))) (map int ws)
      (map int_span ?spans) (ce_tensor eng page layer s) = (Inr (), t')"
    and cells: "\<And>i t j. i < length ws \<Longrightarrow> t < nat (stop - start) \<Longrightarrow> j < ws ! i \<Longrightarrow> t' ! place (nat (stop - start)) ws i t j =
       (case span_source ?spans t of (p, u) \<Rightarrow> ce_tensor eng p layer s ! place (?valid p) ws i u j)"
    using copy_layer_cells [OF consecutive target, of "\<lambda>p. ce_tensor eng p layer s"] srcs pages by auto
  have valid: "0 \<le> ce_valid_tokens eng p s" if "p \<in> fst ` set ?spans" for p
    using that window unfolding pages by (force simp: window_pages_def list_all_iff)
  have copy: "copy_layer (\<lambda>p. ce_valid_tokens eng p s) (\<lambda>p. ce_tensor eng p layer s) (stop - start) (map int ws)
      (map int_span ?spans) (ce_tensor eng page layer s) = (Inr (), t')"
  proof -
    have "copy_layer (\<lambda>p. ce_valid_tokens eng p s) (\<lambda>p. ce_tensor eng p layer s) (stop - start) (map int ws) (map int_span ?spans) =
        copy_layer (\<lambda>p. int (?valid p)) (\<lambda>p. ce_tensor eng p layer s) (int (nat (stop - start))) (map int ws) (map int_span ?spans)"
      unfolding copy_layer_def using valid window_nonempty by (intro eachA_cong) (force simp: int_span_def)
    then show ?thesis using t' by simp
  qed
  let ?t = "ce_write_tensor eng page layer t' s"
  have run: "assemble_layer eng page widths (map int_span ?spans) (stop - start) layer s = (Inr (), ?t)"
    unfolding assemble_layer_def ws using copy by (simp add: act_defs)
  have "cells_copied eng page ws sources start stop layer s ?t"
    unfolding cells_copied_def
  proof (clarify, goal_cases)
    case (1 src p x i j)
    have "span_source ?spans (nat (x - start)) = (p, nat (x - cp_start src))"
      using span_source_cell [OF pieces window window_nonempty _ 1(1,2,3)] by simp
    moreover have "nat (x - start) < nat (stop - start)" using 1(2,3) by simp
    ultimately show ?case using cells [OF 1(4) _ 1(5), of "nat (x - start)"] store by (simp add: tensor_store_def)
  qed
  then show ?thesis using run store by (intro exI [of _ ?t]) (simp add: same_pages_def tensor_store_def)
qed

lemma assemble_layers:
  assumes store: "tensor_store eng" and ws: "\<And>layer. layer \<in> set layers \<Longrightarrow> layer_widths widths layer = Inr (map int (ws layer))"
    and pieces: "pieces start stop start sources" and window: "window_pages start stop (\<lambda>p. ce_valid_tokens eng p s) sources"
    and window_nonempty: "start < stop"
    and target: "\<And>layer. layer \<in> set layers \<Longrightarrow> length (ce_tensor eng page layer s) = nat (stop - start) * sum_list (ws layer)"
    and srcs: "\<And>p layer. p \<in> snd ` set sources \<Longrightarrow> layer \<in> set layers \<Longrightarrow>
      length (ce_tensor eng p layer s) = nat (ce_valid_tokens eng p s) * sum_list (ws layer)"
    and fresh: "page \<notin> snd ` set sources" and "distinct layers"
  shows "\<exists>t. eachA (assemble_layer eng page widths (map int_span (nat_spans start stop sources)) (stop - start)) layers s = (Inr (), t) \<and>
    (\<forall>q k. q \<noteq> page \<or> k \<notin> set layers \<longrightarrow> ce_tensor eng q k t = ce_tensor eng q k s) \<and>
    (\<forall>layer \<in> set layers. cells_copied eng page (ws layer) sources start stop layer s t)"
  using assms(2,4,6,7,9)
proof (induction layers arbitrary: s)
  case Nil
  then show ?case by (simp add: retA_def)
next
  case (Cons layer layers)
  obtain s1 where s1: "assemble_layer eng page widths (map int_span (nat_spans start stop sources)) (stop - start) layer s = (Inr (), s1)"
    and same: "same_pages eng page layer s s1" and cells: "cells_copied eng page (ws layer) sources start stop layer s s1"
    using assemble_layer_cells [OF store Cons.prems(1) pieces Cons.prems(2) window_nonempty Cons.prems(3)
        Cons.prems(4), of layer] by auto
  have keep: "ce_valid_tokens eng q s1 = ce_valid_tokens eng q s" "k \<noteq> layer \<or> q \<noteq> page \<Longrightarrow> ce_tensor eng q k s1 = ce_tensor eng q k s" for q k
    using same by (auto simp: same_pages_def)
  have notin: "layer \<notin> set layers" using Cons.prems(5) by simp
  have src_page: "p \<noteq> page" if "p \<in> snd ` set sources" for p using fresh that by auto
  have "\<exists>t. eachA (assemble_layer eng page widths (map int_span (nat_spans start stop sources)) (stop - start)) layers s1 = (Inr (), t) \<and>
    (\<forall>q k. q \<noteq> page \<or> k \<notin> set layers \<longrightarrow> ce_tensor eng q k t = ce_tensor eng q k s1) \<and>
    (\<forall>layer \<in> set layers. cells_copied eng page (ws layer) sources start stop layer s1 t)"
  proof (rule Cons.IH)
    fix l
    assume "l \<in> set layers"
    then have "l \<noteq> layer" using notin by auto
    then show "length (ce_tensor eng page l s1) = nat (stop - start) * sum_list (ws l)"
      using Cons.prems(3) [of l] \<open>l \<in> set layers\<close> keep(2) by simp
  next
    fix p l
    assume "p \<in> snd ` set sources" "l \<in> set layers"
    then show "length (ce_tensor eng p l s1) = nat (ce_valid_tokens eng p s1) * sum_list (ws l)"
      using Cons.prems(4) [of p l] src_page [of p] keep by simp
  qed (use Cons.prems keep in simp_all)
  then obtain t where t: "eachA (assemble_layer eng page widths (map int_span (nat_spans start stop sources)) (stop - start)) layers s1 = (Inr (), t)"
    "\<And>q k. q \<noteq> page \<or> k \<notin> set layers \<Longrightarrow> ce_tensor eng q k t = ce_tensor eng q k s1"
    "\<And>layer. layer \<in> set layers \<Longrightarrow> cells_copied eng page (ws layer) sources start stop layer s1 t" by blast
  have first: "cells_copied eng page (ws layer) sources start stop layer s t"
    using cells t(2) [of page layer] notin by (simp add: cells_copied_def)
  have rest: "cells_copied eng page (ws l) sources start stop l s t" if "l \<in> set layers" for l
  proof -
    have "\<forall>(src, p) \<in> set sources. ce_tensor eng p l s1 = ce_tensor eng p l s \<and> ce_valid_tokens eng p s1 = ce_valid_tokens eng p s"
      using src_page keep by force
    then show ?thesis using t(3) [OF that] by (fastforce simp: cells_copied_def)
  qed
  show ?case using s1 t(1,2) keep(2) first rest by (intro exI [of _ t]) (auto simp: seqA_def bindA_def)
qed

end
