(* ===== verification/CheckpointProperties.thy ===== *)
theory CheckpointProperties
  imports CheckpointReferences CheckpointPages
begin

text \<open>
  What the local checkpoint store promises, with a small engine on which the promises are tried.
\<close>

record demo_world =
  dm_refs :: "nat \<Rightarrow> int"
  dm_tensors :: "nat \<Rightarrow> nat \<Rightarrow> nat list"

type_synonym demo_state = "(nat, unit, demo_world) store_state"

definition demo_count :: "nat list \<Rightarrow> int \<Rightarrow> demo_state \<Rightarrow> demo_state" where
  "demo_count ps d s = s\<lparr>ls_world := (ls_world s)\<lparr>dm_refs := \<lambda>p. dm_refs (ls_world s) p + d * int (count_list ps p)\<rparr>\<rparr>"

text \<open>An engine whose page of four tokens has the number of its key; key 9 is evicted.\<close>

definition demo_engine :: "(nat, unit, nat, demo_state) checkpoint_engine" where
  "demo_engine = \<lparr>ce_chunk_size = 4,
     ce_prefix = (\<lambda>ks s. let ps = map the (takeWhile (\<lambda>k. k \<noteq> None \<and> k \<noteq> Some 9) ks) in (Inr (ps, length ps), demo_count ps 1 s)),
     ce_valid = (\<lambda>_ _. True), ce_valid_tokens = (\<lambda>_ _. 4), ce_validate = (\<lambda>_ _. retA ()),
     ce_up = (\<lambda>p. writeA (demo_count [p] 1)), ce_down = (\<lambda>p. writeA (demo_count [p] (- 1))),
     ce_cached = (\<lambda>_ _ _. retA None), ce_load_prefix = (\<lambda>_ _ _ s. (Inr 90, demo_count [90] 1 s)),
     ce_allocate = (\<lambda>_ _ s. (Inr (91, FlatWidths [1, 2]), demo_count [91] 1 s)),
     ce_reclaim = (\<lambda>_ _. retA False),
     ce_token_results = (\<lambda>_ _ _ _. retA ([(0, 4, 50), (4, 8, 51)], None)),
     ce_submit = (\<lambda>_ _. retA ()), ce_is_checkpoint_key = (\<lambda>_. True), ce_remove = (\<lambda>_. retA ()),
     ce_layers = (\<lambda>_ _. 1), ce_tensor = (\<lambda>p l s. dm_tensors (ls_world s) p l),
     ce_write_tensor = (\<lambda>p l v s. s\<lparr>ls_world := (ls_world s)\<lparr>dm_tensors := (dm_tensors (ls_world s))(p := (dm_tensors (ls_world s) p)(l := v))\<rparr>\<rparr>)\<rparr>"

definition demo_page :: "int \<Rightarrow> int \<Rightarrow> nat \<Rightarrow> nat checkpoint_page" where
  "demo_page a b k = \<lparr>cp_start = a, cp_end = b, cp_key = Some k\<rparr>"

text \<open>Group 1 misses its second page, so group 0 gives its second page back.\<close>

definition demo_manifest :: "(nat, unit) local_checkpoint" where
  "demo_manifest = \<lparr>lm_tokens = [1, 2, 3, 4, 5, 6, 7, 8], lm_prefix_end = 0,
     lm_groups = ([demo_page 0 4 1, demo_page 4 8 2], [demo_page 0 4 3, demo_page 4 8 9]),
     lm_configs = (), lm_identity = None, lm_retention = None\<rparr>"

definition demo_start :: demo_state where
  "demo_start = \<lparr>ls_manifests = [((''r'', 0), (0, demo_manifest))], ls_next = 1,
     ls_world = \<lparr>dm_refs = \<lambda>_. 0, dm_tensors = \<lambda>p _. map ((+) (100 * p)) [0..<12]\<rparr>\<rparr>"

lemma demo_counts: "engine_counts demo_engine (\<lambda>s. dm_refs (ls_world s))"
  by (auto simp: engine_counts_def refs.changes_def demo_engine_def demo_count_def act_defs once_def Let_def
      length_takeWhile_le)

lemma demo_acquire:
  "\<exists>t. acquire demo_engine demo_manifest 8 demo_start = (Inr (4, [(demo_page 0 4 1, 1)], [(demo_page 0 4 3, 3)]), t)"
  by (simp add: acquire_def acquire_with_def acquire_second_def trim_groups_def trim_group_def get_page_def keep_fitting_def page_fits_def
      demo_manifest_def demo_page_def demo_engine_def act_defs Let_def)

text \<open>Acquiring holds the paired contiguous prefix: both groups keep pages, taken from the manifest in
  its order, that cover every token from the prefix to the common end, and no group keeps a last page that
  begins after that end.\<close>

theorem acquire_holds_paired_prefix:
  assumes "acquire eng m stop s = (Inr (common, held0, held1), t)"
  shows "lm_prefix_end m \<le> common \<and> common \<le> max (lm_prefix_end m) stop \<and>
    subseq (map fst held0) (fst (lm_groups m)) \<and> subseq (map fst held1) (snd (lm_groups m)) \<and>
    (held0 = [] \<or> cp_start (fst (last held0)) < common) \<and> (held1 = [] \<or> cp_start (fst (last held1)) < common) \<and>
    (\<forall>x. lm_prefix_end m \<le> x \<longrightarrow> x < common \<longrightarrow>
      list_ex (\<lambda>(src, _). cp_start src \<le> x \<and> x < cp_end src) held0 \<and>
      list_ex (\<lambda>(src, _). cp_start src \<le> x \<and> x < cp_end src) held1)"
proof -
  obtain g0 g1 c0 c1 where r: "tile stop (lm_prefix_end m) (held0 @ g0) c0" "tile stop (lm_prefix_end m) (held1 @ g1) c1"
    "common = min c0 c1" "subseq (map fst (held0 @ g0)) (fst (lm_groups m))" "subseq (map fst (held1 @ g1)) (snd (lm_groups m))"
    "\<forall>(s, _) \<in> set (g0 @ g1). common \<le> cp_start s"
    "held0 = [] \<or> cp_start (fst (last held0)) < common" "held1 = [] \<or> cp_start (fst (last held1)) < common"
    using acquire_result [OF assms [unfolded acquire_def]] by blast
  have cover: "list_ex (\<lambda>(src, _). cp_start src \<le> x \<and> x < cp_end src) h"
    if "tile stop (lm_prefix_end m) (h @ g) c" "\<forall>(s, _) \<in> set g. common \<le> cp_start s" "common \<le> c"
      "lm_prefix_end m \<le> x" "x < common" for h g c x
  proof -
    have "x < c" using that(3,5) by simp
    from tile_covers [OF that(1,4) this] have "\<exists>(src, p) \<in> set (h @ g). cp_start src \<le> x \<and> x < cp_end src" .
    then show ?thesis using that(2,5) by (force simp: list_ex_iff)
  qed
  have "subseq (map fst held0) (fst (lm_groups m))" "subseq (map fst held1) (snd (lm_groups m))"
    using r(4,5) by (auto intro: subseq_order.trans [OF list_emb_prefix [OF subseq_order.refl]])
  then show ?thesis
    using r tile_le [OF r(1)] tile_le [OF r(2)] cover [OF r(1)] cover [OF r(2)] by auto
qed

theorem acquire_holds_paired_prefix_witness:
  "\<exists>t. acquire demo_engine demo_manifest 8 demo_start = (Inr (4, [(demo_page 0 4 1, 1)], [(demo_page 0 4 3, 3)]), t) \<and>
    subseq [demo_page 0 4 1] (fst (lm_groups demo_manifest)) \<and>
    list_ex (\<lambda>(src, _). cp_start src \<le> 3 \<and> 3 < cp_end src) [(demo_page 0 4 1, 1)]"
proof -
  obtain t where t: "acquire demo_engine demo_manifest 8 demo_start = (Inr (4, [(demo_page 0 4 1, 1)], [(demo_page 0 4 3, 3)]), t)"
    using demo_acquire by blast
  show ?thesis using t acquire_holds_paired_prefix [OF t] by (auto simp: demo_manifest_def)
qed

text \<open>Selecting sources chunk by chunk with one moving index gives, for windows in increasing order,
  exactly the sources that overlap each window.\<close>

theorem source_selection_is_overlap_filter:
  assumes "ordered_sources sources" "sorted (map fst windows)"
  shows "select_windows sources 0 windows =
    map (\<lambda>(start, stop). filter (\<lambda>(s, _). cp_start s < stop \<and> cp_end s > start) sources) windows"
  by (rule select_windows_from [OF assms]) (auto split: list.split)

theorem source_selection_is_overlap_filter_witness:
  "select_windows [(demo_page 0 4 1, 1), (demo_page 4 8 2, 2)] 0 [(0, 6), (6, 8)] =
     [[(demo_page 0 4 1, 1), (demo_page 4 8 2, 2)], [(demo_page 4 8 2, 2)]]"
  by (subst source_selection_is_overlap_filter) (simp_all add: ordered_sources_def demo_page_def)

text \<open>C30. Assembling copies exactly: if the sources are consecutive pieces of the window, assembling
  succeeds, and in every layer and plane each token of the new page is that token of its source; other
  pages are untouched.  Sources that leave a hole or overlap are refused and nothing is written.\<close>

theorem assemble_copies_every_token:
  assumes "tensor_store eng" "start < stop" "window_pages start stop (\<lambda>p. ce_valid_tokens eng p s) sources"
    "page \<notin> snd ` set sources"
    "\<And>layer. layer < ce_layers eng page s \<Longrightarrow> layer_widths widths layer = Inr (map int (ws layer))"
    "\<And>layer. layer < ce_layers eng page s \<Longrightarrow>
      length (ce_tensor eng page layer s) = nat (stop - start) * sum_list (ws layer)"
    "\<And>p layer. p \<in> snd ` set sources \<Longrightarrow> layer < ce_layers eng page s \<Longrightarrow>
      length (ce_tensor eng p layer s) = nat (ce_valid_tokens eng p s) * sum_list (ws layer)"
  shows "if pieces start stop start sources
    then \<exists>t. assemble eng page widths sources start stop s = (Inr (), t) \<and>
      (\<forall>q k. q \<noteq> page \<longrightarrow> ce_tensor eng q k t = ce_tensor eng q k s) \<and>
      (\<forall>layer < ce_layers eng page s. cells_copied eng page (ws layer) sources start stop layer s t)
    else \<exists>e. assemble eng page widths sources start stop s = (Inl e, s)"
proof (cases "pieces start stop start sources")
  case True
  have "assemble_spans start stop start sources = Inr (map int_span (nat_spans start stop sources))"
    using spans_are_nat [OF True assms(3,2)] by simp
  then have "assemble eng page widths sources start stop s =
      eachA (assemble_layer eng page widths (map int_span (nat_spans start stop sources)) (stop - start)) [0..<ce_layers eng page s] s"
    by (simp add: assemble_def act_defs)
  then show ?thesis
    using assemble_layers [OF assms(1) _ True assms(3,2) _ _ assms(4), of "[0..<ce_layers eng page s]" widths ws] assms(5-7) True
    by auto
next
  case False
  then obtain e where "assemble_spans start stop start sources = Inl e"
    using assemble_spans_iff [of start stop start sources] by (cases "assemble_spans start stop start sources") auto
  then show ?thesis using False by (simp add: assemble_def act_defs)
qed

theorem assemble_copies_every_token_witness:
  "\<exists>t. assemble demo_engine 91 (FlatWidths [1, 2]) [(demo_page 0 4 1, 1), (demo_page 4 8 2, 2)] 2 6 demo_start = (Inr (), t) \<and>
     cells_copied demo_engine 91 [1, 2] [(demo_page 0 4 1, 1), (demo_page 4 8 2, 2)] 2 6 0 demo_start t"
proof -
  have "tensor_store demo_engine" by (simp add: tensor_store_def demo_engine_def)
  note copied = assemble_copies_every_token [OF this, of 2 6 demo_start "[(demo_page 0 4 1, 1), (demo_page 4 8 2, 2)]" 91
      "FlatWidths [1, 2]" "\<lambda>_. [1, 2]"]
  have layers: "ce_layers demo_engine q demo_start = 1" "ce_valid_tokens demo_engine q demo_start = 4"
    "length (ce_tensor demo_engine q l demo_start) = 12" for q l
    by (simp_all add: demo_engine_def demo_start_def)
  have "pieces 2 6 2 [(demo_page 0 4 1, 1 :: nat), (demo_page 4 8 2, 2)]" by (simp add: demo_page_def)
  then have "\<exists>t. assemble demo_engine 91 (FlatWidths [1, 2]) [(demo_page 0 4 1, 1), (demo_page 4 8 2, 2)] 2 6 demo_start = (Inr (), t) \<and>
      (\<forall>q k. q \<noteq> 91 \<longrightarrow> ce_tensor demo_engine q k t = ce_tensor demo_engine q k demo_start) \<and>
      (\<forall>layer < ce_layers demo_engine 91 demo_start.
        cells_copied demo_engine 91 [1, 2] [(demo_page 0 4 1, 1), (demo_page 4 8 2, 2)] 2 6 layer demo_start t)"
    using copied by (simp add: layers window_pages_def layer_widths_def demo_page_def)
  then show ?thesis by (auto simp: layers)
qed

text \<open>C29. References are balanced on every path: acquiring hands the caller exactly the references of the
  pages it returns, probing none, normalizing exactly those of the owners it returns, and each of them
  none when it raises.\<close>

theorem checkpoint_references_balanced:
  assumes "engine_counts eng (\<lambda>s. wrefs (ls_world s))"
  shows "(case acquire eng m stop s of (r, t) \<Rightarrow> wrefs (ls_world t) p = wrefs (ls_world s) p +
      (case r of Inl _ \<Rightarrow> 0 | Inr (_, held0, held1) \<Rightarrow> int (count_list (map snd (held0 @ held1)) p))) \<and>
    (case available eng req generation stop s of (r, t) \<Rightarrow> wrefs (ls_world t) p = wrefs (ls_world s) p) \<and>
    (case normalize eng req generation tokens configs s of (r, t) \<Rightarrow> wrefs (ls_world t) p = wrefs (ls_world s) p +
      (case r of Inl _ \<Rightarrow> 0 | Inr (_, owners) \<Rightarrow> int (count_list owners p)))"
proof (intro conjI)
  obtain r t where a: "acquire eng m stop s = (r, t)" by fastforce
  show "case acquire eng m stop s of (r, t) \<Rightarrow> wrefs (ls_world t) p = wrefs (ls_world s) p +
      (case r of Inl _ \<Rightarrow> 0 | Inr (_, held0, held1) \<Rightarrow> int (count_list (map snd (held0 @ held1)) p))"
    using refs.changesD [OF acquire_counts [OF assms] a, of p] by (auto simp: a held_def split: sum.splits prod.splits)
  obtain r' t' where b: "available eng req generation stop s = (r', t')" by fastforce
  show "case available eng req generation stop s of (r, t) \<Rightarrow> wrefs (ls_world t) p = wrefs (ls_world s) p"
    using refs.changesD [OF available_counts [OF assms] b, of p] by (auto simp: b split: sum.splits)
  obtain r'' t'' where c: "normalize eng req generation tokens configs s = (r'', t'')" by fastforce
  show "case normalize eng req generation tokens configs s of (r, t) \<Rightarrow> wrefs (ls_world t) p = wrefs (ls_world s) p +
      (case r of Inl _ \<Rightarrow> 0 | Inr (_, owners) \<Rightarrow> int (count_list owners p))"
    using refs.changesD [OF normalize_counts [OF assms] c, of p] by (auto simp: c split: sum.splits prod.splits)
qed

theorem checkpoint_references_balanced_witness:
  "\<exists>t. acquire demo_engine demo_manifest 8 demo_start = (Inr (4, [(demo_page 0 4 1, 1)], [(demo_page 0 4 3, 3)]), t) \<and>
     dm_refs (ls_world t) 1 = 1 \<and> dm_refs (ls_world t) 2 = 0"
proof -
  obtain t where t: "acquire demo_engine demo_manifest 8 demo_start = (Inr (4, [(demo_page 0 4 1, 1)], [(demo_page 0 4 3, 3)]), t)"
    using demo_acquire by blast
  show ?thesis
    using t checkpoint_references_balanced [OF demo_counts, where m = demo_manifest and stop = 8 and s = demo_start and p = 1]
      checkpoint_references_balanced [OF demo_counts, where m = demo_manifest and stop = 8 and s = demo_start and p = 2]
    by (simp add: demo_start_def)
qed

end
