(* ===== verification/CheckpointWriteback.thy ===== *)
theory CheckpointWriteback
  imports LocalCheckpoint Complex_Main
begin

text \<open>
  \<open>checkpoint_writeback.py\<close>: retention of local checkpoints and their background write-back.
  Retention records are objects in a heap, because the monitor keeps one across a release of the lock.
  The executor is a queue of groups to retire; the event that wakes the monitor is left out, since a
  monitor turn may happen at any time.  Thresholds are rationals where the code uses floats.
\<close>

type_synonym 'k held_groups = "'k source list \<times> 'k source list"
type_synonym 'k remote_groups = "'k checkpoint_page list \<times> 'k checkpoint_page list"

record ('k, 'c) retention =
  rt_manifest :: "('k, 'c) local_checkpoint"
  rt_groups :: "'k held_groups"
  rt_remote :: "'k remote_groups option"
  rt_attempts :: "(int \<times> string list) list"
  rt_cancelled :: bool
  rt_retry_at :: rat
  rt_pages :: "((nat \<times> 'k checkpoint_page) \<times> nat) list"

record ('k, 'c, 'w) writeback_state = "('k, 'c, 'w) store_state" +
  wb_limit :: int
  wb_reserve :: int
  wb_records :: "((string \<times> int) \<times> nat) list"
  wb_heap :: "nat \<Rightarrow> ('k, 'c) retention"
  wb_next :: nat
  wb_charges :: "(nat \<times> nat) list"
  wb_used :: int
  wb_retiring :: "'k held_groups list"
  wb_thread :: bool
  wb_closed :: bool
  wb_fatal :: "exn option"
  wb_quarantine :: "nat list"
  wb_quarantined_groups :: "'k held_groups list"

text \<open>What the write-back store uses besides the engine of the local store.\<close>

record ('k, 's) writeback_env =
  we_size :: "nat \<Rightarrow> int"
  we_capacity :: "'s \<Rightarrow> int \<times> int"
  we_frozen :: "'s \<Rightarrow> bool"
  we_now :: "'s \<Rightarrow> rat"
  we_thread_starts :: "'s \<Rightarrow> bool"
  we_probe :: "'k option list \<Rightarrow> ('s, bool list) act"
  we_load :: "'k option \<Rightarrow> nat \<Rightarrow> int \<Rightarrow> string \<Rightarrow> ('s, nat option) act"
  we_persist :: "'k \<Rightarrow> nat \<Rightarrow> string \<Rightarrow> ('s, unit) act"

section \<open>Charges\<close>

text \<open>\<open>{id(p): p for g in groups for _, p in g}\<close>\<close>

definition owner_ids :: "'k held_groups \<Rightarrow> nat list" where
  "owner_ids groups = py_unique (map snd (fst groups @ snd groups))"

definition charge_one :: "(nat \<Rightarrow> int) \<Rightarrow> nat \<Rightarrow> (nat \<times> nat) list \<times> int \<Rightarrow> (nat \<times> nat) list \<times> int" where
  "charge_one size_of i cu =
     (case map_of (fst cu) i of
        None \<Rightarrow> (AList.update i 1 (fst cu), snd cu + size_of i)
      | Some n \<Rightarrow> (AList.update i (n + 1) (fst cu), snd cu))"

definition charge_locked :: "(nat \<Rightarrow> int) \<Rightarrow> nat list \<Rightarrow> ('k, 'c, 'w) writeback_state \<Rightarrow> ('k, 'c, 'w) writeback_state" where
  "charge_locked size_of ids s =
     (case fold (charge_one size_of) ids (wb_charges s, wb_used s) of
        (charges, used) \<Rightarrow> s\<lparr>wb_charges := charges, wb_used := used\<rparr>)"

text \<open>The released bytes; a page without a charge is a \<open>KeyError\<close>.\<close>

fun uncharge_locked :: "(nat \<Rightarrow> int) \<Rightarrow> nat list \<Rightarrow> int \<Rightarrow> (('k, 'c, 'w) writeback_state, int) act" where
  "uncharge_locked size_of [] released = retA released"
| "uncharge_locked size_of (i # ids) released =
     bindA (readA (\<lambda>s. map_of (wb_charges s) i)) (\<lambda>n.
     case n of
       None \<Rightarrow> raiseA KeyError
     | Some n \<Rightarrow>
         if n = 1
         then seqA (writeA (\<lambda>s. s\<lparr>wb_charges := AList.delete i (wb_charges s), wb_used := wb_used s - size_of i\<rparr>))
              (uncharge_locked size_of ids (released + size_of i))
         else seqA (writeA (\<lambda>s. s\<lparr>wb_charges := AList.update i (n - 1) (wb_charges s)\<rparr>))
              (uncharge_locked size_of ids released))"

definition retire :: "('k, 'c, 'v, ('k, 'c, 'w) writeback_state) checkpoint_engine \<Rightarrow> (nat \<Rightarrow> int) \<Rightarrow> 'k held_groups \<Rightarrow>
    (('k, 'c, 'w) writeback_state, int) act" where
  "retire eng size_of groups = seqA (release_sources eng groups) (uncharge_locked size_of (owner_ids groups) 0)"

definition validate_capacity :: "('k, ('k, 'c, 'w) writeback_state) writeback_env \<Rightarrow> (('k, 'c, 'w) writeback_state, unit) act" where
  "validate_capacity env =
     bindA (readA (\<lambda>s. let t = snd (we_capacity env s) in
       \<not> (0 < wb_limit s \<and> wb_limit s < t) \<or> \<not> (0 < wb_reserve s \<and> wb_reserve s < t))) (\<lambda>bad.
     if bad then raiseA (ValueError ''Checkpoint retention and reserve must be positive and smaller than the CPU heap'')
     else retA ())"

section \<open>Offers\<close>

definition retained_page :: "('k, 'c) local_checkpoint \<Rightarrow> nat \<Rightarrow> 'k checkpoint_page \<Rightarrow> ('k, 'c, 'w) writeback_state \<Rightarrow> nat option" where
  "retained_page m g src s =
     (case lm_identity m of
        None \<Rightarrow> None
      | Some identity \<Rightarrow>
          (case map_of (wb_records s) identity of
             None \<Rightarrow> None
           | Some r \<Rightarrow>
               if lm_retention (rt_manifest (wb_heap s r)) = lm_retention m
               then py_dict (rt_pages (wb_heap s r)) (g, src) else None))"

definition retained_get_page :: "('k, 'c, 'v, ('k, 'c, 'w) writeback_state) checkpoint_engine \<Rightarrow> ('k, 'c) local_checkpoint \<Rightarrow>
    nat \<Rightarrow> 'k checkpoint_page \<Rightarrow> (('k, 'c, 'w) writeback_state, nat option) act" where
  "retained_get_page eng m g src =
     bindA (readA (retained_page m g src)) (\<lambda>p.
     case p of Some page \<Rightarrow> seqA (ce_up eng page) (retA (Some page)) | None \<Rightarrow> get_page eng g src)"

definition page_table :: "'k held_groups \<Rightarrow> ((nat \<times> 'k checkpoint_page) \<times> nat) list" where
  "page_table groups = map (\<lambda>(s, p). ((0, s), p)) (fst groups) @ map (\<lambda>(s, p). ((1, s), p)) (snd groups)"

definition make_retention :: "('k, 'c) local_checkpoint \<Rightarrow> 'k held_groups \<Rightarrow> ('k, 'c) retention" where
  "make_retention m groups = \<lparr>rt_manifest = m, rt_groups = groups, rt_remote = None, rt_attempts = [],
     rt_cancelled = False, rt_retry_at = 0, rt_pages = page_table groups\<rparr>"

text \<open>The locked part of \<open>publish\<close>: the answer says whether the owners are kept.\<close>

definition retain_offer :: "('k, ('k, 'c, 'w) writeback_state) writeback_env \<Rightarrow> string \<times> int \<Rightarrow>
    nat \<times> ('k, 'c) local_checkpoint \<Rightarrow> int \<Rightarrow> 'k held_groups \<Rightarrow> (('k, 'c, 'w) writeback_state, bool) act" where
  "retain_offer env identity m stop groups = (\<lambda>s.
     if wb_closed s \<or> map_of (wb_records s) identity \<noteq> None then (Inr False, s)
     else
       let s1 = s\<lparr>ls_manifests := AList.update identity m (ls_manifests s)\<rparr>;
           owners = owner_ids groups;
           added = sum_list (map (we_size env) (filter (\<lambda>i. map_of (wb_charges s) i = None) owners))
       in if stop = int (length (lm_tokens (snd m))) \<and> wb_used s1 + added \<le> wb_limit s1
          then let s2 = charge_locked (we_size env) owners s1; r = wb_next s2;
                   s3 = s2\<lparr>wb_heap := (wb_heap s2)(r := make_retention (snd m) groups), wb_next := Suc r,
                           wb_records := AList.update identity r (wb_records s2)\<rparr>
               in if wb_thread s3 then (Inr True, s3)
                  else if we_thread_starts env s3 then (Inr True, s3\<lparr>wb_thread := True\<rparr>)
                  else (case uncharge_locked (we_size env) owners 0 (s3\<lparr>wb_records := AList.delete identity (wb_records s3)\<rparr>) of
                          (Inl e, s4) \<Rightarrow> (Inl e, s4)
                        | (Inr _, s4) \<Rightarrow> (Inr False, s4))
          else (Inr False, s1))"

definition fresh_offer :: "string \<times> int \<Rightarrow> ('k, 'c) local_checkpoint \<Rightarrow>
    (('k, 'c, 'w) writeback_state, nat \<times> ('k, 'c) local_checkpoint) act" where
  "fresh_offer identity m = (\<lambda>s.
     (Inr (Suc (ls_next s), m\<lparr>lm_identity := Some identity, lm_retention := Some (ls_next s)\<rparr>),
      s\<lparr>ls_next := ls_next s + 2\<rparr>))"

definition publish_retained :: "('k, ('k, 'c, 'w) writeback_state) writeback_env \<Rightarrow>
    ('k, 'c, 'v, ('k, 'c, 'w) writeback_state) checkpoint_engine \<Rightarrow> string \<Rightarrow> int \<Rightarrow> ('k, 'c) local_checkpoint \<Rightarrow>
    (('k, 'c, 'w) writeback_state, unit) act" where
  "publish_retained env eng req generation manifest =
     bindA (fresh_offer (req, generation) manifest) (\<lambda>m.
     bindA (acquire_with eng (retained_get_page eng (snd m)) (snd m) (int (length (lm_tokens manifest)))) (\<lambda>(stop, groups).
     bindA (attemptA (retain_offer env (req, generation) m stop groups)) (\<lambda>accepted.
     seqA (if accepted = Inr True then retA () else release_sources eng groups)
     (bindA (liftA accepted) (\<lambda>_. retA ())))))"

definition forget_key :: "string \<times> int \<Rightarrow> ('k, 'c, 'w) writeback_state \<Rightarrow> ('k, 'c, 'w) writeback_state" where
  "forget_key identity s =
     (let s1 = s\<lparr>ls_manifests := AList.delete identity (ls_manifests s)\<rparr> in
      case map_of (wb_records s) identity of
        None \<Rightarrow> s1
      | Some r \<Rightarrow> s1\<lparr>wb_records := AList.delete identity (wb_records s),
          wb_heap := (wb_heap s)(r := (wb_heap s r)\<lparr>rt_cancelled := True, rt_groups := ([], []), rt_pages := []\<rparr>),
          wb_retiring := wb_retiring s @ [rt_groups (wb_heap s r)]\<rparr>)"

definition forget_retained :: "string \<Rightarrow> int option \<Rightarrow> ('k, 'c, 'w) writeback_state \<Rightarrow> ('k, 'c, 'w) writeback_state" where
  "forget_retained req generation s =
     fold forget_key (filter (\<lambda>(r, g). r = req \<and> (generation = None \<or> generation = Some g)) (map fst (ls_manifests s))) s"

text \<open>The executor takes the first submitted groups.\<close>

definition run_retire :: "('k, ('k, 'c, 'w) writeback_state) writeback_env \<Rightarrow>
    ('k, 'c, 'v, ('k, 'c, 'w) writeback_state) checkpoint_engine \<Rightarrow> (('k, 'c, 'w) writeback_state, int) act" where
  "run_retire env eng =
     bindA (readA wb_retiring) (\<lambda>gs.
     case gs of
       [] \<Rightarrow> retA 0
     | groups # rest \<Rightarrow> seqA (writeA (\<lambda>s. s\<lparr>wb_retiring := rest\<rparr>)) (retire eng (we_size env) groups))"

definition set_attempts :: "nat \<Rightarrow> (int \<times> string list) list \<Rightarrow> ('k, 'c, 'w) writeback_state \<Rightarrow> ('k, 'c, 'w) writeback_state" where
  "set_attempts r attempts s = s\<lparr>wb_heap := (wb_heap s)(r := (wb_heap s r)\<lparr>rt_attempts := attempts\<rparr>)\<rparr>"

definition restore_event :: "string \<times> int \<Rightarrow> int \<Rightarrow> string \<Rightarrow> ('k, 'c, 'w) writeback_state \<Rightarrow> ('k, 'c, 'w) writeback_state" where
  "restore_event identity attempt event s =
     (case map_of (wb_records s) identity of
        None \<Rightarrow> s
      | Some r \<Rightarrow>
          let attempts = rt_attempts (wb_heap s r);
              known = (if event = ''begin'' then Some (case map_of attempts attempt of None \<Rightarrow> [] | Some es \<Rightarrow> es)
                       else map_of attempts attempt)
          in case known of
               None \<Rightarrow> s
             | Some es \<Rightarrow>
                 let events = event # es;
                     s1 = set_attempts r (if {''failed'', ''ack''} \<subseteq> set events then AList.delete attempt attempts
                                          else AList.update attempt events attempts) s
                 in if {''admitted'', ''ack''} \<subseteq> set events \<and> ''failed'' \<notin> set events
                    then forget_retained (fst identity) (Some (snd identity)) s1 else s1)"

section \<open>The pressure monitor\<close>

record monitor_locals =
  mo_credit :: int
  mo_previous_free :: "int option"
  mo_draining :: bool
  mo_credit_until :: rat

definition monitor_start :: monitor_locals where
  "monitor_start = \<lparr>mo_credit = 0, mo_previous_free = None, mo_draining = False, mo_credit_until = 0\<rparr>"

text \<open>The credit that released bytes still give, less the free bytes lost since the last turn.\<close>

definition next_credit :: "int \<Rightarrow> int \<Rightarrow> rat \<Rightarrow> monitor_locals \<Rightarrow> int" where
  "next_credit free reserve now mo =
     (if free \<ge> reserve \<or> now \<ge> mo_credit_until mo then 0
      else max 0 (mo_credit mo - max 0 ((case mo_previous_free mo of None \<Rightarrow> free | Some f \<Rightarrow> f) - free)))"

definition over_watermark :: "int \<Rightarrow> int \<Rightarrow> bool \<Rightarrow> bool" where
  "over_watermark used limit draining \<longleftrightarrow> of_int used \<ge> of_int limit * (if draining then 6 / 10 else 8 / 10 :: rat)"

definition spillable :: "rat \<Rightarrow> ('k, 'c) retention \<Rightarrow> bool" where
  "spillable now rec \<longleftrightarrow> rt_remote rec = None \<and> \<not> rt_cancelled rec \<and> rt_attempts rec = [] \<and> rt_retry_at rec \<le> now"

datatype 'k monitor_choice = MonitorStops | MonitorIdles monitor_locals | MonitorSpills monitor_locals nat "'k held_groups"

definition monitor_select :: "('k, ('k, 'c, 'w) writeback_state) writeback_env \<Rightarrow>
    ('k, 'c, 'v, ('k, 'c, 'w) writeback_state) checkpoint_engine \<Rightarrow> monitor_locals \<Rightarrow>
    (('k, 'c, 'w) writeback_state, 'k monitor_choice) act" where
  "monitor_select env eng mo = (\<lambda>s.
     if wb_closed s \<or> wb_fatal s \<noteq> None then (Inr MonitorStops, s)
     else if we_frozen env s then (Inr (MonitorIdles mo), s)
     else
       let free = fst (we_capacity env s);
           credit = next_credit free (wb_reserve s) (we_now env s) mo;
           draining = over_watermark (wb_used s) (wb_limit s) (mo_draining mo);
           mo1 = mo\<lparr>mo_credit := credit, mo_previous_free := Some free, mo_draining := draining\<rparr>
       in if \<not> draining \<and> free + credit \<ge> wb_reserve s then (Inr (MonitorIdles mo1), s)
          else (case filter (\<lambda>r. spillable (we_now env s) (wb_heap s r)) (map snd (wb_records s)) of
                  [] \<Rightarrow> (Inr (MonitorIdles mo1), s)
                | r # _ \<Rightarrow>
                    let groups = rt_groups (wb_heap s r) in
                    (case eachA (\<lambda>(_, page). ce_up eng page) (fst groups @ snd groups) s of
                       (Inl e, s1) \<Rightarrow> (Inl e, s1)
                     | (Inr _, s1) \<Rightarrow>
                         (Inr (MonitorSpills mo1 r groups), charge_locked (we_size env) (owner_ids groups) s1))))"

text \<open>\<open>_spill\<close> returns \<open>None\<close> for \<open>()\<close>.\<close>

definition settle_remote :: "('k, ('k, 'c, 'w) writeback_state) writeback_env \<Rightarrow>
    ('k, 'c, 'v, ('k, 'c, 'w) writeback_state) checkpoint_engine \<Rightarrow> nat \<Rightarrow> 'k remote_groups option \<Rightarrow>
    (('k, 'c, 'w) writeback_state, unit) act" where
  "settle_remote env eng r remote =
     bindA (\<lambda>s. if remote \<noteq> None \<and> \<not> rt_cancelled (wb_heap s r)
       then (Inr (rt_groups (wb_heap s r)),
             s\<lparr>wb_heap := (wb_heap s)(r := (wb_heap s r)\<lparr>rt_remote := remote, rt_groups := ([], []), rt_pages := []\<rparr>)\<rparr>)
       else (Inr ([], []), s)) (\<lambda>retired.
     bindA (retire eng (we_size env) retired) (\<lambda>_. retA ()))"

definition set_retry :: "nat \<Rightarrow> rat \<Rightarrow> ('k, 'c, 'w) writeback_state \<Rightarrow> ('k, 'c, 'w) writeback_state" where
  "set_retry r t s = s\<lparr>wb_heap := (wb_heap s)(r := (wb_heap s r)\<lparr>rt_retry_at := t\<rparr>)\<rparr>"

text \<open>The \<open>finally\<close> of a spill: the copied owners are retired, and what that frees is credit for a second.\<close>

definition settle_owners :: "('k, ('k, 'c, 'w) writeback_state) writeback_env \<Rightarrow>
    ('k, 'c, 'v, ('k, 'c, 'w) writeback_state) checkpoint_engine \<Rightarrow> monitor_locals \<Rightarrow> 'k held_groups \<Rightarrow>
    (('k, 'c, 'w) writeback_state, monitor_locals option) act" where
  "settle_owners env eng mo groups =
     bindA (readA wb_fatal) (\<lambda>fatal.
     if fatal \<noteq> None then retA (Some mo)
     else bindA (retire eng (we_size env) groups) (\<lambda>released.
       bindA (readA (we_now env)) (\<lambda>now.
       retA (Some (if released \<noteq> 0 then mo\<lparr>mo_credit := mo_credit mo + released, mo_credit_until := now + 1\<rparr> else mo)))))"

text \<open>What the monitor does with the outcome of a spill; \<open>None\<close> ends it.\<close>

definition monitor_settle :: "('k, ('k, 'c, 'w) writeback_state) writeback_env \<Rightarrow>
    ('k, 'c, 'v, ('k, 'c, 'w) writeback_state) checkpoint_engine \<Rightarrow> monitor_locals \<Rightarrow> nat \<Rightarrow> 'k held_groups \<Rightarrow>
    'k remote_groups option res \<Rightarrow> (('k, 'c, 'w) writeback_state, monitor_locals option) act" where
  "monitor_settle env eng mo r groups outcome =
     bindA (attemptA (bindA (liftA outcome) (settle_remote env eng r))) (\<lambda>result.
     case result of
       Inl NativeExternalPageTransferUnknownError \<Rightarrow>
         seqA (writeA (\<lambda>s. s\<lparr>wb_quarantined_groups := wb_quarantined_groups s @ [groups],
                            wb_fatal := Some NativeExternalPageTransferUnknownError\<rparr>)) (retA None)
     | Inl e \<Rightarrow> seqA (bindA (readA (we_now env)) (\<lambda>now. writeA (set_retry r (now + 1)))) (settle_owners env eng mo groups)
     | Inr _ \<Rightarrow> settle_owners env eng mo groups)"

definition close_retained :: "('k, 'c, 'w) writeback_state \<Rightarrow> ('k, 'c, 'w) writeback_state" where
  "close_retained s =
     (let s1 = s\<lparr>wb_closed := True\<rparr>
      in fold (\<lambda>(req, generation). forget_retained req (Some generation)) (map fst (ls_manifests s)) s1)"

text \<open>After joining the monitor.\<close>

definition close_joined :: "(('k, 'c, 'w) writeback_state, unit) act" where
  "close_joined =
     bindA (readA wb_fatal) (\<lambda>fatal.
     if fatal \<noteq> None then raiseA (RuntimeError ''Checkpoint write-back has quarantined native owners'') else retA ())"

section \<open>Spilling one record\<close>

definition withdrawn :: "('k, ('k, 'c, 'w) writeback_state) writeback_env \<Rightarrow> nat \<Rightarrow> ('k, 'c, 'w) writeback_state \<Rightarrow> bool" where
  "withdrawn env r s \<longleftrightarrow> rt_cancelled (wb_heap s r) \<or> rt_attempts (wb_heap s r) \<noteq> [] \<or> wb_closed s \<or> we_frozen env s"

text \<open>The \<open>try\<close> that persists one built page; \<open>False\<close> when the record was withdrawn.\<close>

definition persist_built :: "('k, ('k, 'c, 'w) writeback_state) writeback_env \<Rightarrow>
    ('k, 'c, 'v, ('k, 'c, 'w) writeback_state) checkpoint_engine \<Rightarrow> nat \<Rightarrow> string \<Rightarrow> 'k \<Rightarrow> nat \<Rightarrow>
    (('k, 'c, 'w) writeback_state, bool) act" where
  "persist_built env eng r req key page =
     bindA (attemptA (bindA (readA (withdrawn env r)) (\<lambda>gone.
        if gone then retA False else seqA (we_persist env key page req) (retA True)))) (\<lambda>result.
     seqA (if result = Inl NativeExternalPageTransferUnknownError
           then writeA (\<lambda>s. s\<lparr>wb_quarantine := wb_quarantine s @ [page]\<rparr>) else retA ())
     (bindA (readA (\<lambda>s. page \<in> set (wb_quarantine s))) (\<lambda>kept.
      seqA (if kept then retA () else ce_down eng page) (liftA result))))"

text \<open>\<open>None\<close> when the record was withdrawn, otherwise the rows, the covered end and the allocation budget.\<close>

fun spill_chunks :: "('k, ('k, 'c, 'w) writeback_state) writeback_env \<Rightarrow>
    ('k, 'c, 'v, ('k, 'c, 'w) writeback_state) checkpoint_engine \<Rightarrow> nat \<Rightarrow> ('k, 'c) local_checkpoint \<Rightarrow> string \<Rightarrow> nat \<Rightarrow>
    'k source list \<Rightarrow> nat \<Rightarrow> (int \<times> int \<times> 'k) list \<Rightarrow> int \<Rightarrow> bool \<Rightarrow> 'k checkpoint_page list \<Rightarrow>
    (('k, 'c, 'w) writeback_state, ('k checkpoint_page list \<times> int \<times> bool) option) act" where
  "spill_chunks env eng r m req g sources index [] covered reclaimed rows = retA (Some (rows, covered, reclaimed))"
| "spill_chunks env eng r m req g sources index ((start, stop, key) # chunks) covered reclaimed rows =
     bindA (readA (withdrawn env r)) (\<lambda>gone.
     if gone then retA None
     else if start \<noteq> covered \<or> \<not> (start < stop \<and> stop \<le> int (length (lm_tokens m)))
     then raiseA (ValueError ''Checkpoint persistence has a range gap'')
     else case select_overlaps sources index start stop of (index', selected) \<Rightarrow>
       bindA (build_page eng m selected g start stop key (lm_configs m) reclaimed) (\<lambda>(page, used).
       bindA (persist_built env eng r req key page) (\<lambda>persisted.
       if \<not> persisted then retA None
       else spill_chunks env eng r m req g sources index' chunks stop used
              (rows @ [\<lparr>cp_start = start, cp_end = stop, cp_key = Some key\<rparr>]))))"

definition spill_group :: "('k, ('k, 'c, 'w) writeback_state) writeback_env \<Rightarrow>
    ('k, 'c, 'v, ('k, 'c, 'w) writeback_state) checkpoint_engine \<Rightarrow> nat \<Rightarrow> ('k, 'c) local_checkpoint \<Rightarrow> string \<Rightarrow> int \<Rightarrow> nat \<Rightarrow>
    'k source list \<Rightarrow> bool \<Rightarrow> (('k, 'c, 'w) writeback_state, ('k checkpoint_page list \<times> bool) option) act" where
  "spill_group env eng r m req base g sources reclaimed =
     bindA (ce_token_results eng (lm_tokens m) (lm_configs m) g base) (\<lambda>(chunks, failure).
     bindA (spill_chunks env eng r m req g sources 0 chunks base reclaimed []) (\<lambda>result.
     case result of
       None \<Rightarrow> retA None
     | Some (rows, covered, used) \<Rightarrow>
         (case failure of
            Some e \<Rightarrow> raiseA e
          | None \<Rightarrow>
              if covered \<noteq> int (length (lm_tokens m))
              then raiseA (ValueError ''Checkpoint persistence omits the accepted tail'')
              else retA (Some (rows, used)))))"

definition spill :: "('k, ('k, 'c, 'w) writeback_state) writeback_env \<Rightarrow>
    ('k, 'c, 'v, ('k, 'c, 'w) writeback_state) checkpoint_engine \<Rightarrow> nat \<Rightarrow> 'k held_groups \<Rightarrow>
    (('k, 'c, 'w) writeback_state, 'k remote_groups option) act" where
  "spill env eng r groups =
     bindA (readA (\<lambda>s. (withdrawn env r s, rt_manifest (wb_heap s r)))) (\<lambda>(gone, m).
     if gone then retA None
     else if ce_chunk_size eng = 0 then raiseA (OtherError ''ZeroDivisionError'')
     else let base = lm_prefix_end m div ce_chunk_size eng * ce_chunk_size eng;
              req = (case lm_identity m of None \<Rightarrow> [] | Some (req, _) \<Rightarrow> req)
       in bindA (spill_group env eng r m req base 0 (fst groups) False) (\<lambda>first.
          case first of
            None \<Rightarrow> retA None
          | Some (rows0, reclaimed) \<Rightarrow>
              bindA (spill_group env eng r m req base 1 (snd groups) reclaimed) (\<lambda>second.
              case second of None \<Rightarrow> retA None | Some (rows1, _) \<Rightarrow> retA (Some (rows0, rows1)))))"

section \<open>Acquiring from retained, cached and remote pages\<close>

text \<open>The pages of one canonical window; the exception of a page is returned with what was held before.\<close>

fun gather_window :: "('k checkpoint_page \<Rightarrow> ('s, nat option) act) \<Rightarrow> int \<Rightarrow> 'k checkpoint_page list \<Rightarrow> int \<Rightarrow> 'k source list \<Rightarrow>
    ('s, exn option \<times> 'k checkpoint_page list \<times> int \<times> 'k source list) act" where
  "gather_window get right [] cursor held = retA (None, [], cursor, held)"
| "gather_window get right (src # rest) cursor held =
     (if cp_end src \<le> cursor then gather_window get right rest cursor held
      else if cp_start src > cursor \<or> cursor \<ge> right then retA (None, src # rest, cursor, held)
      else bindA (attemptA (get src)) (\<lambda>p.
        case p of
          Inl e \<Rightarrow> retA (Some e, src # rest, cursor, held)
        | Inr None \<Rightarrow> retA (None, src # rest, cursor, held)
        | Inr (Some page) \<Rightarrow>
            if cp_end src \<le> min right (cp_end src)
            then gather_window get right rest (min right (cp_end src)) (held @ [(src, page)])
            else retA (None, src # rest, min right (cp_end src), held @ [(src, page)])))"

text \<open>A window with the pages held for it and the end of its use.\<close>

type_synonym 'k window_plan = "'k checkpoint_page \<times> 'k source list \<times> int"

definition release_plan :: "('k, 'c, 'v, 's) checkpoint_engine \<Rightarrow> 'k window_plan list \<Rightarrow> ('s, unit) act" where
  "release_plan eng plan = eachA (\<lambda>(_, held, _). eachA (\<lambda>(_, page). ce_down eng page) held) plan"

text \<open>The windows of a group: a window that is not covered gives its pages back and is missing.\<close>

fun plan_windows :: "('k, 'c, 'v, 's) checkpoint_engine \<Rightarrow> ('k checkpoint_page \<Rightarrow> ('s, nat option) act) \<Rightarrow> int \<Rightarrow> int \<Rightarrow>
    'k checkpoint_page list \<Rightarrow> 'k checkpoint_page list \<Rightarrow> 'k window_plan list \<Rightarrow> 'k option list \<Rightarrow>
    ('s, exn option \<times> 'k window_plan list \<times> 'k option list) act" where
  "plan_windows eng get prefix_end stop sources [] plan missing = retA (None, plan, missing)"
| "plan_windows eng get prefix_end stop sources (d # ds) plan missing =
     (let left = max prefix_end (cp_start d); right = min stop (cp_end d) in
      if left \<ge> right then plan_windows eng get prefix_end stop sources ds plan missing
      else bindA (gather_window get right sources left []) (\<lambda>(e, rest, cursor, held).
        case e of
          Some e \<Rightarrow> retA (Some e, plan @ [(d, held, right)], missing)
        | None \<Rightarrow>
            if cursor = right
            then plan_windows eng get prefix_end stop rest ds (plan @ [(d, held, right)]) missing
            else bindA (attemptA (eachA (\<lambda>(_, page). ce_down eng page) held)) (\<lambda>released.
              case released of
                Inl e \<Rightarrow> retA (Some e, plan @ [(d, held, right)], missing)
              | Inr _ \<Rightarrow> plan_windows eng get prefix_end stop rest ds (plan @ [(d, [], right)]) (missing @ [cp_key d]))))"

text \<open>One group's pages: held ones are taken over, missing ones are loaded (unless only probed).\<close>

fun join_windows :: "(nat \<Rightarrow> 'k checkpoint_page \<Rightarrow> ('s, nat option) act) \<Rightarrow> ('k option \<Rightarrow> bool) \<Rightarrow> bool \<Rightarrow> nat \<Rightarrow>
    'k window_plan list \<Rightarrow> int \<Rightarrow> 'k source list \<Rightarrow>
    ('s, exn option \<times> 'k window_plan list \<times> int \<times> 'k source list) act" where
  "join_windows load present probe g [] cursor taken = retA (None, [], cursor, taken)"
| "join_windows load present probe g ((d, held, right) # plan) cursor taken =
     (if held \<noteq> [] then join_windows load present probe g plan right (taken @ held)
      else if \<not> present (cp_key d) then retA (None, plan, cursor, taken)
      else if probe then join_windows load present probe g plan right taken
      else bindA (attemptA (load g d)) (\<lambda>p.
        case p of
          Inl e \<Rightarrow> if is_memory_error e then retA (None, plan, cursor, taken) else retA (Some e, plan, cursor, taken)
        | Inr None \<Rightarrow> retA (None, plan, cursor, taken)
        | Inr (Some page) \<Rightarrow> join_windows load present probe g plan right (taken @ [(d, page)])))"

text \<open>\<open>except BaseException: self.release(groups); raise\<close> and the \<open>finally\<close> that empties the plans.\<close>

definition abandon_join :: "('k, 'c, 'v, 's) checkpoint_engine \<Rightarrow> 'k held_groups \<Rightarrow> 'k window_plan list \<Rightarrow> exn \<Rightarrow> ('s, 'a) act" where
  "abandon_join eng groups plans e =
     bindA (attemptA (release_and_raise eng groups e)) (\<lambda>r.
     seqA (release_plan eng plans) (liftA r))"

definition finish_join :: "('k, 'c, 'v, 's) checkpoint_engine \<Rightarrow> int \<Rightarrow> 'k source list \<Rightarrow> 'k source list \<Rightarrow> 'k window_plan list \<Rightarrow>
    ('s, int \<times> 'k held_groups) act" where
  "finish_join eng common held0 held1 plans =
     bindA (attemptA (trim_groups eng common held0 held1)) (\<lambda>r.
     seqA (release_plan eng plans) (liftA r))"

definition join_plans :: "('k, 'c, 'v, 's) checkpoint_engine \<Rightarrow> (nat \<Rightarrow> 'k checkpoint_page \<Rightarrow> ('s, nat option) act) \<Rightarrow>
    ('k option \<Rightarrow> bool) \<Rightarrow> bool \<Rightarrow> int \<Rightarrow> 'k window_plan list \<Rightarrow> 'k window_plan list \<Rightarrow> ('s, int \<times> 'k held_groups) act" where
  "join_plans eng load present probe prefix_end plan0 plan1 =
     bindA (join_windows load present probe 0 plan0 prefix_end []) (\<lambda>(e0, rest0, end0, held0).
     case e0 of Some e \<Rightarrow> abandon_join eng (held0, []) (rest0 @ plan1) e
     | None \<Rightarrow>
     bindA (join_windows load present probe 1 plan1 prefix_end []) (\<lambda>(e1, rest1, end1, held1).
     case e1 of Some e \<Rightarrow> abandon_join eng (held0, held1) (rest0 @ rest1) e
     | None \<Rightarrow> finish_join eng (min end0 end1) held0 held1 (rest0 @ rest1)))"

text \<open>\<open>dict(zip(missing, probed, strict=True))\<close>\<close>

definition probe_missing :: "('k option list \<Rightarrow> ('s, bool list) act) \<Rightarrow> 'k option list \<Rightarrow> ('s, ('k option \<times> bool) list) act" where
  "probe_missing probe missing =
     (if missing = [] then retA []
      else bindA (probe missing) (\<lambda>answers.
        if length answers \<noteq> length missing then raiseA (ValueError ''zip() argument length mismatch'')
        else retA (zip missing answers)))"

definition join_remote :: "('k, 'c, 'v, 's) checkpoint_engine \<Rightarrow> (nat \<Rightarrow> 'k checkpoint_page \<Rightarrow> ('s, nat option) act) \<Rightarrow>
    (nat \<Rightarrow> 'k checkpoint_page \<Rightarrow> ('s, nat option) act) \<Rightarrow> ('k option list \<Rightarrow> ('s, bool list) act) \<Rightarrow>
    ('k, 'c) local_checkpoint \<Rightarrow> 'k remote_groups \<Rightarrow> int \<Rightarrow> bool \<Rightarrow> ('s, int \<times> 'k held_groups) act" where
  "join_remote eng get load probe_keys m remote stop probe =
     bindA (plan_windows eng (get 0) (lm_prefix_end m) stop (fst (lm_groups m)) (fst remote) [] []) (\<lambda>(e0, plan0, missing0).
     case e0 of Some e \<Rightarrow> abandon_join eng ([], []) plan0 e
     | None \<Rightarrow>
     bindA (plan_windows eng (get 1) (lm_prefix_end m) stop (snd (lm_groups m)) (snd remote) [] missing0) (\<lambda>(e1, plan1, missing).
     case e1 of Some e \<Rightarrow> abandon_join eng ([], []) (plan0 @ plan1) e
     | None \<Rightarrow>
     bindA (attemptA (probe_missing probe_keys missing)) (\<lambda>answers.
     case answers of Inl e \<Rightarrow> abandon_join eng ([], []) (plan0 @ plan1) e
     | Inr present \<Rightarrow>
         join_plans eng load (\<lambda>k. py_dict present k = Some True) probe (lm_prefix_end m) plan0 plan1)))"

text \<open>The record that retains this very offer.\<close>

definition retaining_record :: "('k, 'c) local_checkpoint \<Rightarrow> ('k, 'c, 'w) writeback_state \<Rightarrow> nat option" where
  "retaining_record m s =
     (case lm_identity m of
        None \<Rightarrow> None
      | Some identity \<Rightarrow>
          (case map_of (wb_records s) identity of
             None \<Rightarrow> None
           | Some r \<Rightarrow> if lm_retention (rt_manifest (wb_heap s r)) = lm_retention m then Some r else None))"

definition authoritative :: "('k, 'c) local_checkpoint \<Rightarrow> nat option \<Rightarrow> ('k, 'c, 'w) writeback_state \<Rightarrow> ('k, 'c) local_checkpoint" where
  "authoritative m r s =
     (case r of
        None \<Rightarrow> m
      | Some r \<Rightarrow> let rec = wb_heap s r in
          if fst (rt_groups rec) \<noteq> [] \<and> snd (rt_groups rec) \<noteq> [] then rt_manifest rec else m)"

text \<open>The remote pages, if the record still is the one that was looked up.\<close>

definition confirmed_remote :: "('k, 'c) local_checkpoint \<Rightarrow> nat option \<Rightarrow> ('k, 'c, 'w) writeback_state \<Rightarrow> 'k remote_groups option" where
  "confirmed_remote m r s =
     (case (r, lm_identity m) of
        (Some r, Some identity) \<Rightarrow> if map_of (wb_records s) identity = Some r then rt_remote (wb_heap s r) else None
      | _ \<Rightarrow> None)"

definition acquire_retained :: "('k, ('k, 'c, 'w) writeback_state) writeback_env \<Rightarrow>
    ('k, 'c, 'v, ('k, 'c, 'w) writeback_state) checkpoint_engine \<Rightarrow> bool \<Rightarrow> ('k, 'c) local_checkpoint \<Rightarrow> int \<Rightarrow>
    (('k, 'c, 'w) writeback_state, int \<times> 'k held_groups) act" where
  "acquire_retained env eng probe m stop =
     bindA (readA (\<lambda>s. let r = retaining_record m s in
       (r, authoritative m r s, (case r of None \<Rightarrow> None | Some r \<Rightarrow> rt_remote (wb_heap s r)), we_frozen env s)))
     (\<lambda>(r, m, remote, frozen).
      let get = retained_get_page eng m;
          load = (\<lambda>g d. we_load env (cp_key d) g (cp_end d - cp_start d) (case lm_identity m of None \<Rightarrow> [] | Some (req, _) \<Rightarrow> req));
          join = (\<lambda>remote. join_remote eng get load (we_probe env) m remote stop probe)
      in if frozen then acquire_with eng get m stop
         else case remote of
           Some remote \<Rightarrow> join remote
         | None \<Rightarrow>
             bindA (acquire_with eng get m stop) (\<lambda>(common, held).
             if common = stop then retA (common, held)
             else bindA (readA (confirmed_remote m r)) (\<lambda>late.
               case late of
                 None \<Rightarrow> retA (common, held)
               | Some remote \<Rightarrow> seqA (release_sources eng held) (join remote))))"

definition available_retained :: "('k, ('k, 'c, 'w) writeback_state) writeback_env \<Rightarrow>
    ('k, 'c, 'v, ('k, 'c, 'w) writeback_state) checkpoint_engine \<Rightarrow> string \<Rightarrow> int \<Rightarrow> int \<Rightarrow>
    (('k, 'c, 'w) writeback_state, int) act" where
  "available_retained env eng req generation stop =
     bindA (readA (offer req generation)) (\<lambda>m.
     case m of
       None \<Rightarrow> retA 0
     | Some (_, m) \<Rightarrow>
         bindA (acquire_retained env eng True m (min stop (int (length (lm_tokens m))))) (\<lambda>(common, groups).
         seqA (release_sources eng groups) (retA common)))"

end
