(* ===== verification/WritebackBooks.thy ===== *)
theory WritebackBooks
  imports CheckpointWriteback
begin

text \<open>
  Runs of the write-back store (\<open>checkpoint_writeback.py\<close>) and their invariant: the charges count, page by
  page, the groups that are held.
\<close>

section \<open>Runs of the store\<close>

text \<open>
  Between choosing a record and settling its spill the monitor holds copied owners; other operations may
  happen meanwhile, and the outcome of the spill is arbitrary.  \<open>WEngine\<close> is any change of the engine.
\<close>

datatype ('k, 'c, 'w) writeback_op =
    WPublish string int "('k, 'c) local_checkpoint"
  | WForget string "int option"
  | WRetire
  | WEvent "string \<times> int" int string
  | WSelect
  | WSettle "'k remote_groups option res"
  | WClose
  | WEngine 'w

type_synonym 'k monitor_state = "monitor_locals \<times> (nat \<times> 'k held_groups) option"

definition monitor_fails :: "exn \<Rightarrow> ('k, 'c, 'w) writeback_state \<Rightarrow> ('k, 'c, 'w) writeback_state" where
  "monitor_fails e s = s\<lparr>wb_fatal := Some e\<rparr>"

definition select_step :: "('k, ('k, 'c, 'w) writeback_state) writeback_env \<Rightarrow>
    ('k, 'c, 'v, ('k, 'c, 'w) writeback_state) checkpoint_engine \<Rightarrow> 'k monitor_state \<Rightarrow> ('k, 'c, 'w) writeback_state \<Rightarrow>
    'k monitor_state \<times> ('k, 'c, 'w) writeback_state" where
  "select_step env eng mon s =
     (if \<not> wb_thread s \<or> snd mon \<noteq> None then (mon, s)
      else case monitor_select env eng (fst mon) s of
        (Inl e, s1) \<Rightarrow> (mon, monitor_fails e s1)
      | (Inr MonitorStops, s1) \<Rightarrow> (mon, s1)
      | (Inr (MonitorIdles mo), s1) \<Rightarrow> ((mo, None), s1)
      | (Inr (MonitorSpills mo r groups), s1) \<Rightarrow> ((mo, Some (r, groups)), s1))"

definition settle_step :: "('k, ('k, 'c, 'w) writeback_state) writeback_env \<Rightarrow>
    ('k, 'c, 'v, ('k, 'c, 'w) writeback_state) checkpoint_engine \<Rightarrow> 'k remote_groups option res \<Rightarrow> 'k monitor_state \<Rightarrow>
    ('k, 'c, 'w) writeback_state \<Rightarrow> 'k monitor_state \<times> ('k, 'c, 'w) writeback_state" where
  "settle_step env eng outcome mon s =
     (case snd mon of
        None \<Rightarrow> (mon, s)
      | Some (r, groups) \<Rightarrow>
          (case monitor_settle env eng (fst mon) r groups outcome s of
             (Inl e, s1) \<Rightarrow> ((fst mon, None), monitor_fails e s1)
           | (Inr None, s1) \<Rightarrow> ((fst mon, None), s1)
           | (Inr (Some mo), s1) \<Rightarrow> ((mo, None), s1)))"

definition writeback_step :: "('k, ('k, 'c, 'w) writeback_state) writeback_env \<Rightarrow>
    ('k, 'c, 'v, ('k, 'c, 'w) writeback_state) checkpoint_engine \<Rightarrow> ('k, 'c, 'w) writeback_op \<Rightarrow>
    'k monitor_state \<times> ('k, 'c, 'w) writeback_state \<Rightarrow> 'k monitor_state \<times> ('k, 'c, 'w) writeback_state" where
  "writeback_step env eng op ms =
     (case ms of (mon, s) \<Rightarrow>
       case op of
         WPublish req generation m \<Rightarrow> (mon, snd (publish_retained env eng req generation m s))
       | WForget req generation \<Rightarrow> (mon, forget_retained req generation s)
       | WRetire \<Rightarrow> (mon, snd (run_retire env eng s))
       | WEvent identity attempt event \<Rightarrow> (mon, restore_event identity attempt event s)
       | WSelect \<Rightarrow> select_step env eng mon s
       | WSettle outcome \<Rightarrow> settle_step env eng outcome mon s
       | WClose \<Rightarrow> (mon, close_retained s)
       | WEngine w \<Rightarrow> (mon, s\<lparr>ls_world := w\<rparr>))"

definition writeback_run :: "('k, ('k, 'c, 'w) writeback_state) writeback_env \<Rightarrow>
    ('k, 'c, 'v, ('k, 'c, 'w) writeback_state) checkpoint_engine \<Rightarrow> ('k, 'c, 'w) writeback_op list \<Rightarrow>
    'k monitor_state \<times> ('k, 'c, 'w) writeback_state \<Rightarrow> 'k monitor_state \<times> ('k, 'c, 'w) writeback_state" where
  "writeback_run env eng ops ms = fold (writeback_step env eng) ops ms"

definition make_writeback :: "int \<Rightarrow> int \<Rightarrow> 'w \<Rightarrow> ('k, 'c) retention \<Rightarrow> ('k, 'c, 'w) writeback_state" where
  "make_writeback limit reserve w junk =
     \<lparr>ls_manifests = [], ls_next = 0, ls_world = w, wb_limit = limit, wb_reserve = reserve, wb_records = [],
      wb_heap = (\<lambda>_. junk), wb_next = 0, wb_charges = [], wb_used = 0, wb_retiring = [], wb_thread = False,
      wb_closed = False, wb_fatal = None, wb_quarantine = [], wb_quarantined_groups = []\<rparr>"

section \<open>What is charged\<close>

text \<open>The groups whose owners are held: by records, by submitted retirements, by the monitor, in quarantine.\<close>

definition stakes :: "'k monitor_state \<Rightarrow> ('k, 'c, 'w) writeback_state \<Rightarrow> 'k held_groups list" where
  "stakes mon s = map (\<lambda>(_, r). rt_groups (wb_heap s r)) (wb_records s) @ wb_retiring s @
     (case snd mon of None \<Rightarrow> [] | Some (_, groups) \<Rightarrow> [groups]) @ wb_quarantined_groups s"

definition stake :: "'k held_groups list \<Rightarrow> nat \<Rightarrow> nat" where
  "stake gs i = length (filter (\<lambda>g. i \<in> set (owner_ids g)) gs)"

definition charged :: "(nat \<Rightarrow> int) \<Rightarrow> (nat \<Rightarrow> nat) \<Rightarrow> (nat \<times> nat) list \<Rightarrow> int \<Rightarrow> bool" where
  "charged size_of n charges used \<longleftrightarrow>
     distinct (map fst charges) \<and> (\<forall>i. map_of charges i = (if n i = 0 then None else Some (n i))) \<and>
     used = (\<Sum>i \<in> fst ` set charges. size_of i)"

lemma stake_simps [simp]: "stake [] i = 0" "stake (g # gs) i = (if i \<in> set (owner_ids g) then 1 else 0) + stake gs i"
  "stake (gs @ hs) i = stake gs i + stake hs i"
  by (simp_all add: stake_def)

lemma charged_None: "charged size_of n charges used \<Longrightarrow> map_of charges i = None \<longleftrightarrow> n i = 0"
  by (simp add: charged_def)

lemma keys_charged: "charged size_of n charges used \<Longrightarrow> fst ` set charges = {i. n i \<noteq> 0}"
proof -
  assume "charged size_of n charges used"
  then have "i \<in> fst ` set charges \<longleftrightarrow> n i \<noteq> 0" for i
    using charged_None [of size_of n charges used i] map_of_eq_None_iff [of charges i] by auto
  then show ?thesis by blast
qed

lemma charge_one_charged:
  assumes "charged size_of n charges used"
  shows "(case charge_one size_of i (charges, used) of (c, u) \<Rightarrow> charged size_of (n(i := n i + 1)) c u)"
proof (cases "map_of charges i")
  case None
  then have n: "n i = 0" "i \<notin> fst ` set charges"
    using charged_None [OF assms, of i] map_of_eq_None_iff [of charges i] by simp_all
  have keys: "fst ` set (AList.update i 1 charges) = insert i (fst ` set charges)"
    using dom_update [of i 1 charges] by (auto simp: dom_map_of_conv_image_fst)
  have "distinct (map fst (AList.update i 1 charges))" using assms by (simp add: charged_def distinct_update)
  moreover have "map_of (AList.update i 1 charges) j = (if (n(i := n i + 1)) j = 0 then None else Some ((n(i := n i + 1)) j))" for j
    using assms n(1) by (simp add: charged_def update_conv')
  moreover have "used + size_of i = (\<Sum>i \<in> fst ` set (AList.update i 1 charges). size_of i)"
    using assms n(2) unfolding keys by (simp add: charged_def)
  ultimately show ?thesis using None by (simp add: charge_one_def charged_def)
next
  case (Some m)
  then have n: "m = n i" "n i \<noteq> 0" "i \<in> fst ` set charges"
    using assms by (auto simp: charged_def split: if_splits) (metis Some image_eqI map_of_SomeD fst_conv)
  have keys: "fst ` set (AList.update i (m + 1) charges) = fst ` set charges"
    using n(3) dom_update [of i "m + 1" charges] by (auto simp: dom_map_of_conv_image_fst)
  have "distinct (map fst (AList.update i (m + 1) charges))" using assms by (simp add: charged_def distinct_update)
  moreover have "map_of (AList.update i (m + 1) charges) j = (if (n(i := n i + 1)) j = 0 then None else Some ((n(i := n i + 1)) j))" for j
    using assms n(1) by (simp add: charged_def update_conv')
  ultimately show ?thesis using Some assms keys by (simp add: charged_def charge_one_def)
qed

lemma charge_fold_charged:
  assumes "charged size_of n charges used" "distinct ids"
  shows "(case fold (charge_one size_of) ids (charges, used) of (c, u) \<Rightarrow>
    charged size_of (\<lambda>i. n i + (if i \<in> set ids then 1 else 0)) c u)"
  using assms
proof (induction ids arbitrary: n charges used)
  case (Cons i ids)
  obtain c u where cu: "charge_one size_of i (charges, used) = (c, u)" by fastforce
  have c1: "charged size_of (n(i := n i + 1)) c u" using charge_one_charged [OF Cons.prems(1), of i] cu by simp
  have same: "(\<lambda>j. (n(i := n i + 1)) j + (if j \<in> set ids then 1 else 0)) = (\<lambda>j. n j + (if j \<in> set (i # ids) then 1 else 0))"
    using Cons.prems(2) by auto
  show ?case using Cons.IH [OF c1] Cons.prems(2) cu unfolding same by simp
qed simp

lemma charge_locked_charged:
  assumes "charged size_of n (wb_charges s) (wb_used s)" "distinct ids"
  shows "charged size_of (\<lambda>i. n i + (if i \<in> set ids then 1 else 0)) (wb_charges (charge_locked size_of ids s)) (wb_used (charge_locked size_of ids s))"
  using charge_fold_charged [OF assms] by (auto simp: charge_locked_def split: prod.splits)

lemma charge_locked_other:
  "\<exists>c u. charge_locked size_of ids s = s\<lparr>wb_charges := c, wb_used := u\<rparr>"
  by (auto simp: charge_locked_def split: prod.splits)

lemma uncharge_one:
  assumes "charged size_of n charges used" "n i = 1"
  shows "charged size_of (n(i := n i - 1)) (AList.delete i charges) (used - size_of i)"
proof -
  have keys: "fst ` set (AList.delete i charges) = fst ` set charges - {i}"
    by (metis delete_keys list.set_map set_removeAll)
  have i: "i \<in> fst ` set charges" using keys_charged [OF assms(1)] assms(2) by simp
  have m: "map_of (AList.delete i charges) j = (if (n(i := n i - 1)) j = 0 then None else Some ((n(i := n i - 1)) j))" for j
    using assms by (simp add: charged_def delete_conv')
  have d: "distinct (map fst (AList.delete i charges))" using assms by (simp add: charged_def distinct_delete)
  have "used - size_of i = sum size_of (fst ` set charges - {i})"
    using assms i by (simp add: charged_def sum_diff1)
  then show ?thesis using m d keys by (simp add: charged_def)
qed

lemma uncharge_more:
  assumes "charged size_of n charges used" "n i \<noteq> 0" "n i \<noteq> 1"
  shows "charged size_of (n(i := n i - 1)) (AList.update i (n i - 1) charges) used"
proof -
  have i: "i \<in> fst ` set charges" using keys_charged [OF assms(1)] assms(2) by simp
  have keys: "fst ` set (AList.update i (n i - 1) charges) = fst ` set charges"
    using i dom_update [of i "n i - 1" charges] by (auto simp: dom_map_of_conv_image_fst)
  have m: "map_of (AList.update i (n i - 1) charges) j = (if (n(i := n i - 1)) j = 0 then None else Some ((n(i := n i - 1)) j))" for j
    using assms by (simp add: charged_def update_conv')
  have d: "distinct (map fst (AList.update i (n i - 1) charges))" using assms by (simp add: charged_def distinct_update)
  show ?thesis using assms m d keys by (simp add: charged_def)
qed

lemma uncharge_charged:
  assumes "charged size_of n (wb_charges s) (wb_used s)" "distinct ids" "\<forall>i \<in> set ids. n i \<noteq> 0"
  shows "\<exists>b c u. uncharge_locked size_of ids released s = (Inr b, s\<lparr>wb_charges := c, wb_used := u\<rparr>) \<and>
    charged size_of (\<lambda>i. n i - (if i \<in> set ids then 1 else 0)) c u"
  using assms
proof (induction ids arbitrary: n s released)
  case Nil
  have "s\<lparr>wb_charges := wb_charges s, wb_used := wb_used s\<rparr> = s" by simp
  then have "uncharge_locked size_of [] released s = (Inr released, s\<lparr>wb_charges := wb_charges s, wb_used := wb_used s\<rparr>)"
    by (simp only: uncharge_locked.simps retA_def)
  moreover have "charged size_of (\<lambda>i. n i - (if i \<in> set [] then 1 else 0)) (wb_charges s) (wb_used s)"
    using Nil(1) by simp
  ultimately show ?case by blast
next
  case (Cons i ids)
  have m: "map_of (wb_charges s) i = Some (n i)" using Cons.prems(1,3) by (simp add: charged_def)
  have pos: "\<forall>j \<in> set ids. (n(i := n i - 1)) j \<noteq> 0" and d: "distinct ids" using Cons.prems(2,3) by auto
  have same: "(\<lambda>j. (n(i := n i - 1)) j - (if j \<in> set ids then 1 else 0)) = (\<lambda>j. n j - (if j \<in> set (i # ids) then 1 else 0))"
    using Cons.prems(2) by auto
  show ?case
  proof (cases "n i = 1")
    case True
    let ?s = "s\<lparr>wb_charges := AList.delete i (wb_charges s), wb_used := wb_used s - size_of i\<rparr>"
    have "charged size_of (n(i := n i - 1)) (wb_charges ?s) (wb_used ?s)"
      using uncharge_one [OF Cons.prems(1) True] by simp
    from Cons.IH [OF this d pos, of "released + size_of i", unfolded same]
    obtain b c u where r: "uncharge_locked size_of ids (released + size_of i) ?s = (Inr b, ?s\<lparr>wb_charges := c, wb_used := u\<rparr>)"
      "charged size_of (\<lambda>j. n j - (if j \<in> set (i # ids) then 1 else 0)) c u" by blast
    have "uncharge_locked size_of (i # ids) released s = (Inr b, s\<lparr>wb_charges := c, wb_used := u\<rparr>)"
      using r(1) by (simp add: act_defs m True)
    then show ?thesis using r(2) by blast
  next
    case False
    let ?s = "s\<lparr>wb_charges := AList.update i (n i - 1) (wb_charges s)\<rparr>"
    have "charged size_of (n(i := n i - 1)) (wb_charges ?s) (wb_used ?s)"
      using uncharge_more [OF Cons.prems(1) _ False] Cons.prems(3) by simp
    from Cons.IH [OF this d pos, of released, unfolded same]
    obtain b c u where r: "uncharge_locked size_of ids released ?s = (Inr b, ?s\<lparr>wb_charges := c, wb_used := u\<rparr>)"
      "charged size_of (\<lambda>j. n j - (if j \<in> set (i # ids) then 1 else 0)) c u" by blast
    have "uncharge_locked size_of (i # ids) released s = (Inr b, s\<lparr>wb_charges := c, wb_used := u\<rparr>)"
      using r(1) False by (simp add: act_defs m)
    then show ?thesis using r(2) by blast
  qed
qed

text \<open>
  What is relied on: the engine's methods do not reach into the store, and giving a page back does not raise.
\<close>

definition apart_from :: "('k, 'c, 'w) writeback_state \<Rightarrow> ('k, 'c, 'w) writeback_state \<Rightarrow> bool" where
  "apart_from s t \<longleftrightarrow> (\<exists>w. t = s\<lparr>ls_world := w\<rparr>)"

lemma apart_refl: "apart_from s s"
  unfolding apart_from_def by (rule exI [of _ "ls_world s"]) simp

lemma apart_trans: "apart_from s t \<Longrightarrow> apart_from t u \<Longrightarrow> apart_from s u"
  by (auto simp: apart_from_def)

interpretation apart: frame apart_from
  by unfold_locales (fact apart_refl, fact apart_trans)

definition engine_apart :: "('k, 'c, 'v, ('k, 'c, 'w) writeback_state) checkpoint_engine \<Rightarrow> bool" where
  "engine_apart eng \<longleftrightarrow>
     (\<forall>ks. apart.keeps (ce_prefix eng ks)) \<and> (\<forall>g p. apart.keeps (ce_validate eng g p)) \<and>
     (\<forall>p. apart.keeps (ce_up eng p)) \<and> (\<forall>p. apart.keeps (ce_down eng p)) \<and>
     (\<forall>p s. fst (ce_down eng p s) = Inr ())"

lemma engine_apart_rules:
  assumes "engine_apart eng"
  shows "apart.keeps (ce_prefix eng ks)" "apart.keeps (ce_validate eng g p)" "apart.keeps (ce_up eng p)"
    "apart.keeps (ce_down eng p)" "fst (ce_down eng p s) = Inr ()"
  using assms unfolding engine_apart_def by blast+

lemma each_apart: "(\<And>x. apart.keeps (f x)) \<Longrightarrow> apart.keeps (eachA f xs)"
  by (induction xs) (auto intro!: apart.keeps_ret apart.keeps_seq)

lemma release_apart:
  assumes "engine_apart eng"
  shows "\<exists>w. release_sources eng groups s = (Inr (), s\<lparr>ls_world := w\<rparr>)"
proof -
  have each: "fst (eachA (\<lambda>(_, page). ce_down eng page) xs t) = Inr ()" for xs :: "'a source list" and t
  proof (induction xs arbitrary: t)
    case (Cons x xs)
    obtain a p where x: "x = (a, p)" by fastforce
    obtain r u where d: "ce_down eng p t = (r, u)" by fastforce
    then have "r = Inr ()" using engine_apart_rules(5) [OF assms, of p t] by simp
    then show ?case using Cons d x by (simp add: seqA_def bindA_def)
  qed (simp add: retA_def)
  obtain r1 s1 where a: "eachA (\<lambda>(_, page). ce_down eng page) (fst groups) s = (r1, s1)" by fastforce
  have "fst (release_sources eng groups s) = Inr ()"
    using each [of "fst groups" s] each [of "snd groups" s1] a by (simp add: release_sources_def seqA_def bindA_def)
  moreover have "apart.keeps (release_sources eng groups)"
    unfolding release_sources_def
    by (auto intro!: apart.keeps_seq each_apart engine_apart_rules(4) [OF assms] split: prod.split)
  then have "apart_from s (snd (release_sources eng groups s))" by (rule apart.keeps_at)
  ultimately show ?thesis by (cases "release_sources eng groups s") (auto simp: apart_from_def)
qed

lemma get_page_apart:
  assumes "engine_apart eng"
  shows "apart.keeps (retained_get_page eng m g src)"
proof -
  have "apart.keeps (get_page eng g src)"
    unfolding get_page_def keep_fitting_def page_fits_def
    by (intro apart.keeps_intros engine_apart_rules [OF assms]) (auto intro!: apart.keeps_intros engine_apart_rules [OF assms] split: list.split)
  then show ?thesis unfolding retained_get_page_def
    by (intro apart.keeps_intros engine_apart_rules [OF assms])
qed

lemma acquire_group_apart:
  assumes "\<And>src. apart.keeps (get src)"
  shows "apart.keeps (acquire_group get stop pages cursor h)"
proof (induction pages arbitrary: cursor h)
  case (Cons src pages)
  show ?case unfolding acquire_group.simps by (intro apart.keeps_intros assms Cons)
qed (simp add: apart.keeps_ret)

lemma trim_held_apart:
  assumes "engine_apart eng"
  shows "apart.keeps (trim_held eng common h)"
  using assms
proof (induction eng common h rule: trim_held.induct)
  case (2 eng common src page h)
  show ?case unfolding trim_held.simps
    by (intro apart.keeps_intros engine_apart_rules [OF 2(2)] 2(1) [OF _ 2(2)])
qed (simp add: apart.keeps_ret)

lemma acquire_apart:
  assumes "engine_apart eng" "\<And>g src. apart.keeps (get g src)"
  shows "apart.keeps (acquire_with eng get m stop)"
proof -
  have rel: "apart.keeps (release_sources eng groups)" for groups
    unfolding release_sources_def
    by (auto intro!: apart.keeps_seq each_apart engine_apart_rules(4) [OF assms(1)] split: prod.split)
  show ?thesis
    unfolding acquire_with_def acquire_second_def trim_groups_def trim_group_def release_and_raise_def
    by (intro apart.keeps_intros rel acquire_group_apart assms(2) trim_held_apart [OF assms(1)])
qed

section \<open>Charges are exact\<close>

definition books :: "(nat \<Rightarrow> int) \<Rightarrow> int \<Rightarrow> 'k monitor_state \<Rightarrow> ('k, 'c, 'w) writeback_state \<Rightarrow> bool" where
  "books size_of limit mon s \<longleftrightarrow>
     charged size_of (stake (stakes mon s)) (wb_charges s) (wb_used s) \<and> wb_limit s = limit \<and> wb_used s \<le> limit \<and>
     distinct (map fst (wb_records s)) \<and> distinct (map snd (wb_records s)) \<and> (\<forall>r \<in> snd ` set (wb_records s). r < wb_next s) \<and>
     (case snd mon of None \<Rightarrow> True
      | Some (r, _) \<Rightarrow> r < wb_next s \<and> (r \<in> snd ` set (wb_records s) \<or> rt_cancelled (wb_heap s r)) \<and> wb_fatal s = None \<and> wb_thread s)"

definition wb_part :: "('k, 'c, 'w) writeback_state \<Rightarrow>
    ((string \<times> int) \<times> nat) list \<times> (nat \<Rightarrow> ('k, 'c) retention) \<times> nat \<times> (nat \<times> nat) list \<times> int \<times> 'k held_groups list \<times>
    'k held_groups list \<times> int \<times> exn option \<times> bool" where
  "wb_part s = (wb_records s, wb_heap s, wb_next s, wb_charges s, wb_used s, wb_retiring s, wb_quarantined_groups s, wb_limit s,
     wb_fatal s, wb_thread s)"

lemma books_part: "books size_of limit mon s \<Longrightarrow> wb_part t = wb_part s \<Longrightarrow> books size_of limit mon t"
  by (cases "snd mon") (auto simp: books_def wb_part_def stakes_def)

lemma apart_part: "apart_from s t \<Longrightarrow> wb_part t = wb_part s"
  by (auto simp: apart_from_def wb_part_def)

text \<open>Charges that count more than one stake may lose it; fewer stakes never use more.\<close>

lemma charged_used_mono:
  assumes "charged size_of n c u" "charged size_of n' c' u'" "\<And>i. n' i \<noteq> 0 \<Longrightarrow> n i \<noteq> 0" "\<And>i. 0 \<le> size_of i"
  shows "u' \<le> u"
proof -
  have "fst ` set c' \<subseteq> fst ` set c" using keys_charged [OF assms(1)] keys_charged [OF assms(2)] assms(3) by auto
  then show ?thesis using assms(1,2,4) by (simp add: charged_def sum_mono2)
qed

lemma retire_charged:
  assumes "engine_apart eng" "charged size_of (\<lambda>i. n i + (if i \<in> set (owner_ids g) then 1 else 0)) (wb_charges s) (wb_used s)"
  shows "\<exists>b w c u. retire eng size_of g s = (Inr b, s\<lparr>ls_world := w, wb_charges := c, wb_used := u\<rparr>) \<and> charged size_of n c u"
proof -
  obtain w where w: "release_sources eng g s = (Inr (), s\<lparr>ls_world := w\<rparr>)" using release_apart [OF assms(1)] by blast
  let ?s = "s\<lparr>ls_world := w\<rparr>"
  have "distinct (owner_ids g)" by (simp add: owner_ids_def)
  moreover have "\<forall>i \<in> set (owner_ids g). n i + (if i \<in> set (owner_ids g) then 1 else 0) \<noteq> 0" by simp
  ultimately obtain b c u where u: "uncharge_locked size_of (owner_ids g) 0 ?s = (Inr b, ?s\<lparr>wb_charges := c, wb_used := u\<rparr>)"
    and ch: "charged size_of (\<lambda>i. n i + (if i \<in> set (owner_ids g) then 1 else 0) - (if i \<in> set (owner_ids g) then 1 else 0)) c u"
    using uncharge_charged [of size_of _ ?s "owner_ids g" 0] assms(2) by fastforce
  have "charged size_of n c u" using ch by simp
  moreover have "retire eng size_of g s = (Inr b, s\<lparr>ls_world := w, wb_charges := c, wb_used := u\<rparr>)"
    using w u by (simp add: retire_def seqA_def bindA_def)
  ultimately show ?thesis by blast
qed

lemma delete_split:
  "distinct (map fst (xs @ (k, v) # ys)) \<Longrightarrow> AList.delete k (xs @ (k, v) # ys) = xs @ ys"
proof (induction xs)
  case Nil
  then show ?case by simp
qed auto

lemma record_split:
  assumes "map_of records k = Some r" "distinct (map fst records)"
  shows "\<exists>xs ys. records = xs @ (k, r) # ys \<and> AList.delete k records = xs @ ys"
proof -
  obtain xs ys where "records = xs @ (k, r) # ys" using map_of_SomeD [OF assms(1)] split_list by fastforce
  then show ?thesis using delete_split [of xs k r ys] assms(2) by blast
qed

lemma charge_bytes:
  assumes "charged size_of n c u" "charged size_of (\<lambda>i. n i + (if i \<in> set ids then 1 else 0)) c' u'" "distinct ids"
  shows "u' = u + sum_list (map size_of (filter (\<lambda>i. map_of c i = None) ids))"
proof -
  let ?new = "{i \<in> set ids. n i = 0}"
  have k: "fst ` set c = {i. n i \<noteq> 0}" "fst ` set c' = {i. n i \<noteq> 0} \<union> set ids"
    using keys_charged [OF assms(1)] keys_charged [OF assms(2)] by auto
  have fin: "finite {i. n i \<noteq> 0}" by (metis k(1) finite_imageI finite_set)
  have "{i. n i \<noteq> 0} \<union> set ids = {i. n i \<noteq> 0} \<union> ?new" by auto
  then have "u' = sum size_of ({i. n i \<noteq> 0} \<union> ?new)" using assms(2) k(2) by (simp add: charged_def)
  also have "\<dots> = u + sum size_of ?new" using assms(1) fin k(1)
    by (subst sum.union_disjoint) (auto simp: charged_def)
  also have "sum size_of ?new = sum_list (map size_of (filter (\<lambda>i. map_of c i = None) ids))"
  proof -
    have "set (filter (\<lambda>i. map_of c i = None) ids) = ?new"
      using charged_None [OF assms(1)] by auto
    then show ?thesis using assms(3) by (metis distinct_filter sum.distinct_set_conv_list)
  qed
  finally show ?thesis .
qed

lemma books_used:
  assumes "books size_of limit mon s"
  shows "charged size_of (stake (stakes mon s)) (wb_charges s) (wb_used s)" "wb_used s \<le> limit" "wb_limit s = limit"
  using assms by (simp_all add: books_def)

lemma retain_books:
  assumes b: "books (we_size env) limit mon s" and r: "retain_offer env identity m stop groups s = (r, t)"
  shows "books (we_size env) limit mon t \<and> (\<exists>a. r = Inr a)"
proof (cases "wb_closed s \<or> map_of (wb_records s) identity \<noteq> None")
  case True
  then show ?thesis using r b by (auto simp: retain_offer_def split: if_splits)
next
  case open_new: False
  define s1 where "s1 = s\<lparr>ls_manifests := AList.update identity m (ls_manifests s)\<rparr>"
  define ids where "ids = owner_ids groups"
  have b1: "books (we_size env) limit mon s1"
    using books_part [OF b, of s1] by (simp add: s1_def wb_part_def)
  show ?thesis
  proof (cases "stop = int (length (lm_tokens (snd m))) \<and>
      wb_used s1 + sum_list (map (we_size env) (filter (\<lambda>i. map_of (wb_charges s) i = None) ids)) \<le> wb_limit s1")
    case False
    then have "(r, t) = (Inr False, s1)"
      using r open_new by (auto simp: retain_offer_def Let_def s1_def ids_def)
    then show ?thesis using b1 by auto
  next
    case True
    have new: "identity \<notin> fst ` set (wb_records s)" using open_new by (simp add: map_of_eq_None_iff)
    obtain c u where cu: "charge_locked (we_size env) ids s1 = s1\<lparr>wb_charges := c, wb_used := u\<rparr>"
      using charge_locked_other by blast
    have ids: "distinct ids" by (simp add: ids_def owner_ids_def)
    let ?n = "stake (stakes mon s)"
    have ch0: "charged (we_size env) ?n (wb_charges s) (wb_used s)" using b by (simp add: books_def)
    have ch: "charged (we_size env) (\<lambda>i. ?n i + (if i \<in> set ids then 1 else 0)) c u"
      using charge_locked_charged [of "we_size env" ?n s1 ids] ch0 ids cu by (simp add: s1_def)
    have u: "u \<le> limit" using charge_bytes [OF ch0 ch ids] True b by (simp add: s1_def books_def)
    define r0 where "r0 = wb_next s"
    define s3 where "s3 = s1\<lparr>wb_charges := c, wb_used := u, wb_heap := (wb_heap s)(r0 := make_retention (snd m) groups),
      wb_next := Suc r0, wb_records := wb_records s @ [(identity, r0)]\<rparr>"
    have fresh: "r0 \<notin> snd ` set (wb_records s)" using b by (auto simp: books_def r0_def)
    have inflight: "case snd mon of None \<Rightarrow> True | Some (r, _) \<Rightarrow> r \<noteq> r0" using b by (auto simp: books_def r0_def split: option.splits)
    have heap: "map (\<lambda>(_, r). rt_groups (if r = r0 then x else wb_heap s r)) (wb_records s) =
        map (\<lambda>(_, r). rt_groups (wb_heap s r)) (wb_records s)" for x
      using fresh by (force intro!: map_cong)
    have stakes3: "stake (stakes mon s3) = (\<lambda>i. ?n i + (if i \<in> set ids then 1 else 0))"
      by (rule ext) (simp add: stakes_def s3_def s1_def make_retention_def heap ids_def)
    have b3: "books (we_size env) limit mon (s3\<lparr>wb_thread := th\<rparr>)" if "wb_thread s \<longrightarrow> th" for th
    proof -
      have "stakes mon (s3\<lparr>wb_thread := th\<rparr>) = stakes mon s3" by (simp add: stakes_def)
      then show ?thesis using ch u b new fresh inflight stakes3 that
        by (auto simp: books_def s3_def s1_def r0_def less_Suc_eq split: option.splits prod.splits)
    qed
    have run: "retain_offer env identity m stop groups s =
       (if wb_thread s3 then (Inr True, s3)
        else if we_thread_starts env s3 then (Inr True, s3\<lparr>wb_thread := True\<rparr>)
        else (case uncharge_locked (we_size env) ids 0 (s3\<lparr>wb_records := AList.delete identity (wb_records s3)\<rparr>) of
                (Inl e, s4) \<Rightarrow> (Inl e, s4) | (Inr _, s4) \<Rightarrow> (Inr False, s4)))"
      using open_new True cu new by (simp add: retain_offer_def Let_def s1_def s3_def ids_def r0_def alist_update_new)
    show ?thesis
    proof (cases "wb_thread s3")
      case True
      then have "s3\<lparr>wb_thread := True\<rparr> = s3" by simp
      then have "books (we_size env) limit mon s3" using b3 [of True] by metis
      then show ?thesis using run r True by auto
    next
      case no_thread: False
      show ?thesis
      proof (cases "we_thread_starts env s3")
        case True
        then show ?thesis using run r no_thread b3 [of True] by auto
      next
        case False
        have del: "AList.delete identity (wb_records s3) = wb_records s"
          using delete_split [of "wb_records s" identity r0 "[]"] new b by (simp add: s3_def books_def)
        let ?s = "s3\<lparr>wb_records := wb_records s\<rparr>"
        obtain x c' u' where un: "uncharge_locked (we_size env) ids 0 ?s = (Inr x, ?s\<lparr>wb_charges := c', wb_used := u'\<rparr>)"
          and ch': "charged (we_size env) (\<lambda>i. ?n i + (if i \<in> set ids then 1 else 0) - (if i \<in> set ids then 1 else 0)) c' u'"
          using uncharge_charged [of "we_size env" "\<lambda>i. ?n i + (if i \<in> set ids then 1 else 0)" ?s ids 0] ch ids
          by (fastforce simp: s3_def)
        have ch'': "charged (we_size env) ?n c' u'" using ch' by simp
        have "u' = wb_used s" using ch'' ch0 keys_charged [OF ch''] keys_charged [OF ch0] by (simp add: charged_def)
        moreover have "stakes mon (?s\<lparr>wb_charges := c', wb_used := u'\<rparr>) = stakes mon s"
          by (simp add: stakes_def s3_def s1_def heap)
        ultimately have "books (we_size env) limit mon (?s\<lparr>wb_charges := c', wb_used := u'\<rparr>)"
          using ch'' b inflight by (auto simp: books_def s3_def s1_def r0_def less_SucI split: option.splits)
        then show ?thesis using run r no_thread False del un by auto
      qed
    qed
  qed
qed

lemma publish_books:
  assumes e: "engine_apart eng" and b: "books (we_size env) limit mon s"
  shows "books (we_size env) limit mon (snd (publish_retained env eng req generation m s))"
proof -
  obtain f s1 where f: "fresh_offer (req, generation) m s = (Inr f, s1)" and p1: "wb_part s1 = wb_part s"
    by (simp add: fresh_offer_def wb_part_def)
  have b1: "books (we_size env) limit mon s1" by (rule books_part [OF b p1])
  obtain x s2 where a: "acquire_with eng (retained_get_page eng (snd f)) (snd f) (int (length (lm_tokens m))) s1 = (x, s2)"
    by (metis surj_pair)
  have "apart_from s1 s2"
    by (rule apart.keepsD [OF acquire_apart [OF e get_page_apart [OF e]] a])
  then have b2: "books (we_size env) limit mon s2" using books_part [OF b1 apart_part] by blast
  show ?thesis
  proof (cases x)
    case (Inl y)
    then show ?thesis using f a b2 by (simp add: publish_retained_def bindA_def)
  next
    case (Inr sg)
    obtain stop groups where sg: "sg = (stop, groups)" by (metis surj_pair)
    obtain r s3 where ro: "retain_offer env (req, generation) f stop groups s2 = (r, s3)" by (metis surj_pair)
    obtain acc where acc: "r = Inr acc" and b3: "books (we_size env) limit mon s3" using retain_books [OF b2 ro] by blast
    obtain w where w: "release_sources eng groups s3 = (Inr (), s3\<lparr>ls_world := w\<rparr>)" using release_apart [OF e] by blast
    have "books (we_size env) limit mon (s3\<lparr>ls_world := w\<rparr>)" by (rule books_part [OF b3]) (simp add: wb_part_def)
    then show ?thesis using f a Inr sg ro acc b3 w by (cases acc) (auto simp: publish_retained_def act_defs)
  qed
qed

lemma forget_key_books:
  assumes b: "books size_of limit mon s"
  shows "books size_of limit mon (forget_key identity s)"
proof (cases "map_of (wb_records s) identity")
  case None
  then show ?thesis by (intro books_part [OF b]) (simp add: forget_key_def wb_part_def)
next
  case (Some r)
  obtain xs ys where sp: "wb_records s = xs @ (identity, r) # ys" "AList.delete identity (wb_records s) = xs @ ys"
    using record_split [OF Some] b by (auto simp: books_def)
  let ?t = "forget_key identity s"
  have t: "wb_records ?t = xs @ ys" "wb_retiring ?t = wb_retiring s @ [rt_groups (wb_heap s r)]"
    "wb_charges ?t = wb_charges s" "wb_used ?t = wb_used s" "wb_limit ?t = wb_limit s" "wb_next ?t = wb_next s"
    "wb_quarantined_groups ?t = wb_quarantined_groups s" "wb_fatal ?t = wb_fatal s" "wb_thread ?t = wb_thread s"
    "wb_heap ?t = (wb_heap s)(r := (wb_heap s r)\<lparr>rt_cancelled := True, rt_groups := ([], []), rt_pages := []\<rparr>)"
    using Some sp(2) by (simp_all add: forget_key_def Let_def)
  have r: "r \<notin> snd ` set xs" "r \<notin> snd ` set ys" using b sp(1) by (auto simp: books_def)
  have same: "map (\<lambda>(_, r). rt_groups (wb_heap ?t r)) zs = map (\<lambda>(_, r). rt_groups (wb_heap s r)) zs" if "r \<notin> snd ` set zs" for zs
    using that unfolding t by (force intro!: map_cong)
  have "stake (stakes mon ?t) = stake (stakes mon s)"
    by (rule ext) (simp add: stakes_def t(1,2,7) sp(1) same [OF r(1)] same [OF r(2)])
  moreover have "case snd mon of None \<Rightarrow> True
      | Some (q, _) \<Rightarrow> q < wb_next ?t \<and> (q \<in> snd ` set (wb_records ?t) \<or> rt_cancelled (wb_heap ?t q)) \<and> wb_fatal ?t = None \<and> wb_thread ?t"
    using b sp(1) unfolding books_def t by (auto split: option.splits)
  moreover have "distinct (map fst (xs @ ys))" "distinct (map snd (xs @ ys))" "\<forall>r \<in> snd ` set (xs @ ys). r < wb_next s"
    using b sp(1) by (auto simp: books_def)
  ultimately show ?thesis using b unfolding books_def t by (auto split: option.splits)
qed

lemma fold_books:
  "(\<And>x s. books size_of limit mon s \<Longrightarrow> books size_of limit mon (f x s)) \<Longrightarrow> books size_of limit mon s \<Longrightarrow>
   books size_of limit mon (fold f xs s)"
  by (induction xs arbitrary: s) auto

lemma forget_books: "books size_of limit mon s \<Longrightarrow> books size_of limit mon (forget_retained req generation s)"
  unfolding forget_retained_def by (rule fold_books [OF forget_key_books])

lemma set_attempts_books: "books size_of limit mon s \<Longrightarrow> books size_of limit mon (set_attempts r attempts s)"
proof -
  assume b: "books size_of limit mon s"
  let ?t = "set_attempts r attempts s"
  have "rt_groups (wb_heap ?t q) = rt_groups (wb_heap s q)" "rt_cancelled (wb_heap ?t q) = rt_cancelled (wb_heap s q)" for q
    by (simp_all add: set_attempts_def)
  then have "stakes mon ?t = stakes mon s" "\<And>q. rt_cancelled (wb_heap ?t q) = rt_cancelled (wb_heap s q)"
    by (simp_all add: stakes_def, simp_all add: set_attempts_def)
  then show ?thesis using b by (auto simp: books_def set_attempts_def split: option.splits)
qed

lemma restore_event_books: "books size_of limit mon s \<Longrightarrow> books size_of limit mon (restore_event identity attempt event s)"
  by (auto simp: restore_event_def Let_def split: option.split intro!: forget_books set_attempts_books)

lemma close_books: "books size_of limit mon s \<Longrightarrow> books size_of limit mon (close_retained s)"
proof -
  assume b: "books size_of limit mon s"
  have "books size_of limit mon (s\<lparr>wb_closed := True\<rparr>)" by (rule books_part [OF b]) (simp add: wb_part_def)
  then show ?thesis unfolding close_retained_def Let_def
    by (intro fold_books) (auto intro: forget_books split: prod.split)
qed

text \<open>Taking groups out of the stakes and retiring them keeps the books.\<close>

lemma retire_books:
  assumes e: "engine_apart eng" and size: "\<And>i. 0 \<le> size_of i" and b: "books size_of limit mon s"
    and t: "wb_charges t = wb_charges s" "wb_used t = wb_used s"
    and st: "\<And>i. stake (stakes mon s) i = stake (stakes mon' t) i + (if i \<in> set (owner_ids g) then 1 else 0)"
    and rest: "wb_limit t = limit" "distinct (map fst (wb_records t))" "distinct (map snd (wb_records t))"
      "\<forall>r \<in> snd ` set (wb_records t). r < wb_next t"
      "case snd mon' of None \<Rightarrow> True
       | Some (r, _) \<Rightarrow> r < wb_next t \<and> (r \<in> snd ` set (wb_records t) \<or> rt_cancelled (wb_heap t r)) \<and> wb_fatal t = None \<and> wb_thread t"
  shows "\<exists>b u. retire eng size_of g t = (Inr b, u) \<and> books size_of limit mon' u"
proof -
  have ch: "charged size_of (stake (stakes mon s)) (wb_charges s) (wb_used s)" using b by (simp add: books_def)
  have "stake (stakes mon s) = (\<lambda>i. stake (stakes mon' t) i + (if i \<in> set (owner_ids g) then 1 else 0))"
    by (rule ext) (rule st)
  then have "charged size_of (\<lambda>i. stake (stakes mon' t) i + (if i \<in> set (owner_ids g) then 1 else 0)) (wb_charges t) (wb_used t)"
    using ch unfolding t by (simp only:)
  from retire_charged [OF e this] obtain b w c u where
    r: "retire eng size_of g t = (Inr b, t\<lparr>ls_world := w, wb_charges := c, wb_used := u\<rparr>)"
    and ch': "charged size_of (stake (stakes mon' t)) c u" by blast
  have "u \<le> wb_used s" by (rule charged_used_mono [OF ch ch' _ size]) (simp add: st)
  then have "u \<le> limit" using b by (simp add: books_def)
  moreover have "stakes mon' (t\<lparr>ls_world := w, wb_charges := c, wb_used := u\<rparr>) = stakes mon' t" by (simp add: stakes_def)
  ultimately have "books size_of limit mon' (t\<lparr>ls_world := w, wb_charges := c, wb_used := u\<rparr>)"
    using ch' rest by (auto simp: books_def split: option.splits)
  then show ?thesis using r by blast
qed

lemma run_retire_books:
  assumes e: "engine_apart eng" and size: "\<And>i. 0 \<le> we_size env i" and b: "books (we_size env) limit mon s"
  shows "books (we_size env) limit mon (snd (run_retire env eng s))"
proof (cases "wb_retiring s")
  case Nil
  then show ?thesis using b by (simp add: run_retire_def act_defs)
next
  case (Cons g rest)
  let ?t = "s\<lparr>wb_retiring := rest\<rparr>"
  have "\<exists>x u. retire eng (we_size env) g ?t = (Inr x, u) \<and> books (we_size env) limit mon u"
    by (rule retire_books [OF e size b]) (use b Cons in \<open>auto simp: books_def stakes_def split: option.splits\<close>)
  then show ?thesis using Cons by (auto simp: run_retire_def act_defs)
qed

lemma books_idle: "books size_of limit (mo, None) s \<Longrightarrow> books size_of limit (mo', None) s"
  by (simp add: books_def stakes_def)

lemma books_locals: "books size_of limit mon s \<Longrightarrow> books size_of limit (mo', snd mon) s"
  by (simp add: books_def stakes_def)

lemma monitor_fails_books: "books size_of limit (mo, None) s \<Longrightarrow> books size_of limit (mo, None) (monitor_fails e s)"
  by (simp add: books_def stakes_def monitor_fails_def)

lemma staked_record:
  assumes "(k, r) \<in> set (wb_records s)" "i \<in> set (owner_ids (rt_groups (wb_heap s r)))"
  shows "stake (stakes mon s) i \<noteq> 0"
proof -
  have "rt_groups (wb_heap s r) \<in> set (filter (\<lambda>g. i \<in> set (owner_ids g)) (stakes mon s))"
    using assms by (force simp: stakes_def)
  then show ?thesis unfolding stake_def by (metis length_0_conv list.set_cases list.distinct(1))
qed

lemma select_books:
  assumes e: "engine_apart eng" and size: "\<And>i. 0 \<le> we_size env i" and b: "books (we_size env) limit mon s"
    and st: "select_step env eng mon s = (mon', t)"
  shows "books (we_size env) limit mon' t"
proof (cases "\<not> wb_thread s \<or> snd mon \<noteq> None")
  case True
  then show ?thesis using st b by (auto simp: select_step_def)
next
  case False
  then have "snd mon = None" by blast
  then have "mon = (fst mon, None)" by (metis prod.collapse)
  then obtain mo where mon: "mon = (mo, None)" by blast
  obtain x s1 where x: "monitor_select env eng mo s = (x, s1)" by (metis surj_pair)
  consider (same) "s1 = s" "\<And>mo' r g. x \<noteq> Inr (MonitorSpills mo' r g)"
    | (raised) e where "x = Inl e" "apart_from s s1"
    | (spills) mo' r s2 where "x = Inr (MonitorSpills mo' r (rt_groups (wb_heap s r)))" "r \<in> snd ` set (wb_records s)"
        "apart_from s s2" "s1 = charge_locked (we_size env) (owner_ids (rt_groups (wb_heap s r))) s2" "wb_fatal s = None"
  proof (cases "wb_closed s \<or> wb_fatal s \<noteq> None \<or> we_frozen env s \<or>
      (\<not> over_watermark (wb_used s) (wb_limit s) (mo_draining mo) \<and>
        wb_reserve s \<le> fst (we_capacity env s) + next_credit (fst (we_capacity env s)) (wb_reserve s) (we_now env s) mo) \<or>
      filter (\<lambda>r. spillable (we_now env s) (wb_heap s r)) (map snd (wb_records s)) = []")
    case True
    then show ?thesis using x same by (auto simp: monitor_select_def Let_def split: if_splits)
  next
    case False
    then obtain r rs where r: "filter (\<lambda>r. spillable (we_now env s) (wb_heap s r)) (map snd (wb_records s)) = r # rs"
      by (cases "filter (\<lambda>r. spillable (we_now env s) (wb_heap s r)) (map snd (wb_records s))") auto
    then have "r \<in> set (filter (\<lambda>r. spillable (we_now env s) (wb_heap s r)) (map snd (wb_records s)))" by simp
    then have rin: "r \<in> snd ` set (wb_records s)" by auto
    let ?g = "rt_groups (wb_heap s r)"
    obtain y s2 where y: "eachA (\<lambda>(_, page). ce_up eng page) (fst ?g @ snd ?g) s = (y, s2)" by (metis surj_pair)
    have "apart.keeps (eachA (\<lambda>(_, page). ce_up eng page) (fst ?g @ snd ?g))"
      by (auto intro!: each_apart engine_apart_rules(3) [OF e] split: prod.split)
    then have ap: "apart_from s s2" using y by (rule apart.keepsD)
    show ?thesis
    proof (cases y)
      case (Inl z)
      then show ?thesis using x False r y ap raised by (auto simp: monitor_select_def Let_def)
    next
      case (Inr u)
      then show ?thesis using x False r y ap rin spills [of _ r s2] by (auto simp: monitor_select_def Let_def)
    qed
  qed
  then show ?thesis
  proof cases
    case same
    have step: "select_step env eng mon s = (case x of Inl e \<Rightarrow> (mon, monitor_fails e s) | Inr MonitorStops \<Rightarrow> (mon, s)
        | Inr (MonitorIdles mo') \<Rightarrow> ((mo', None), s) | Inr (MonitorSpills mo' r g) \<Rightarrow> ((mo', Some (r, g)), s))"
      using False x mon same by (auto simp: select_step_def split: sum.splits monitor_choice.splits)
    show ?thesis
    proof (cases x)
      case (Inl z)
      then show ?thesis using step st mon b monitor_fails_books by auto
    next
      case (Inr c)
      then show ?thesis using step st mon b same(2) books_idle by (cases c) auto
    qed
  next
    case (raised z)
    have "books (we_size env) limit (mo, None) s1" using books_part [OF b apart_part [OF raised(2)]] mon by simp
    then show ?thesis using raised(1) st False x mon monitor_fails_books by (auto simp: select_step_def)
  next
    case (spills mo' r s2)
    let ?g = "rt_groups (wb_heap s r)" and ?ids = "owner_ids (rt_groups (wb_heap s r))"
    have b2: "books (we_size env) limit mon s2" by (rule books_part [OF b apart_part [OF spills(3)]])
    have heap2: "wb_heap s2 = wb_heap s" "wb_records s2 = wb_records s" "wb_fatal s2 = wb_fatal s" "wb_thread s2 = wb_thread s"
      using apart_part [OF spills(3)] by (simp_all add: wb_part_def)
    obtain c u where cu: "s1 = s2\<lparr>wb_charges := c, wb_used := u\<rparr>" using spills(4) charge_locked_other by metis
    have ch0: "charged (we_size env) (stake (stakes mon s2)) (wb_charges s2) (wb_used s2)" using b2 by (simp add: books_def)
    have ch: "charged (we_size env) (\<lambda>i. stake (stakes mon s2) i + (if i \<in> set ?ids then 1 else 0)) c u"
    proof -
      have "distinct ?ids" by (simp add: owner_ids_def)
      from charge_locked_charged [OF ch0 this] show ?thesis unfolding spills(4) [symmetric] cu by simp
    qed
    obtain k where k: "(k, r) \<in> set (wb_records s2)" using spills(2) heap2 by force
    have staked: "i \<in> set ?ids \<Longrightarrow> stake (stakes mon s2) i \<noteq> 0" for i
      using staked_record [OF k, of i mon] heap2 by simp
    have "u \<le> wb_used s2"
      by (rule charged_used_mono [OF ch0 ch _ size]) (use staked in \<open>auto split: if_splits\<close>)
    then have u: "u \<le> limit" using b2 by (simp add: books_def)
    have "stake (stakes (mo', Some (r, ?g)) s1) = (\<lambda>i. stake (stakes mon s2) i + (if i \<in> set ?ids then 1 else 0))"
      by (rule ext) (simp add: stakes_def cu mon)
    then have "books (we_size env) limit (mo', Some (r, ?g)) s1"
      using ch u b2 heap2 spills(2,5) False by (auto simp: books_def cu)
    then show ?thesis using spills(1) st False x mon by (auto simp: select_step_def)
  qed
qed

lemma set_retry_books: "books size_of limit mon s \<Longrightarrow> books size_of limit mon (set_retry r t s)"
proof -
  assume b: "books size_of limit mon s"
  let ?t = "set_retry r t s"
  have same: "rt_groups (wb_heap ?t q) = rt_groups (wb_heap s q)" "rt_cancelled (wb_heap ?t q) = rt_cancelled (wb_heap s q)" for q
    by (simp_all add: set_retry_def)
  then have "stakes mon ?t = stakes mon s" by (simp add: stakes_def set_retry_def)
  then show ?thesis using b by (auto simp: books_def set_retry_def split: option.splits)
qed

lemma settle_remote_books:
  assumes e: "engine_apart eng" and size: "\<And>i. 0 \<le> we_size env i"
    and b: "books (we_size env) limit (mo, Some (r, g)) s"
  shows "\<exists>u. settle_remote env eng r remote s = (Inr (), u) \<and> books (we_size env) limit (mo, Some (r, g)) u"
proof -
  define taken where "taken \<longleftrightarrow> remote \<noteq> None \<and> \<not> rt_cancelled (wb_heap s r)"
  define retired where "retired = (if taken then rt_groups (wb_heap s r) else ([], []))"
  define t where "t = (if taken then s\<lparr>wb_heap := (wb_heap s)(r := (wb_heap s r)\<lparr>rt_remote := remote, rt_groups := ([], []), rt_pages := []\<rparr>)\<rparr> else s)"
  have run: "settle_remote env eng r remote s = (case retire eng (we_size env) retired t of (Inl e, u) \<Rightarrow> (Inl e, u) | (Inr _, u) \<Rightarrow> (Inr (), u))"
    by (simp add: settle_remote_def bindA_def retA_def taken_def retired_def t_def)
  have none: "owner_ids ([], []) = []" by (simp add: owner_ids_def py_unique_def)
  have stk: "stake (stakes (mo, Some (r, g)) s) i = stake (stakes (mo, Some (r, g)) t) i + (if i \<in> set (owner_ids retired) then 1 else 0)" for i
  proof (cases taken)
    case False
    then show ?thesis by (simp add: t_def retired_def none)
  next
    case True
    then have "r \<in> snd ` set (wb_records s)" using b by (auto simp: books_def taken_def)
    then obtain k where "(k, r) \<in> set (wb_records s)" by force
    then obtain xs ys where sp: "wb_records s = xs @ (k, r) # ys" by (meson split_list)
    have r: "r \<notin> snd ` set xs" "r \<notin> snd ` set ys" using b sp by (auto simp: books_def)
    have same: "map (\<lambda>(_, q). rt_groups (if q = r then z else wb_heap s q)) zs = map (\<lambda>(_, q). rt_groups (wb_heap s q)) zs"
      if "r \<notin> snd ` set zs" for zs z
      using that by (force intro!: map_cong)
    show ?thesis using True by (simp add: stakes_def t_def sp same [OF r(1)] same [OF r(2)] retired_def none)
  qed
  have "\<exists>x u. retire eng (we_size env) retired t = (Inr x, u) \<and> books (we_size env) limit (mo, Some (r, g)) u"
    by (rule retire_books [OF e size b _ _ stk]) (use b in \<open>auto simp: t_def books_def\<close>)
  then show ?thesis unfolding run by auto
qed

lemma settle_owners_books:
  assumes e: "engine_apart eng" and size: "\<And>i. 0 \<le> we_size env i"
    and b: "books (we_size env) limit (mo, Some (r, g)) s"
  shows "\<exists>mo' u. settle_owners env eng mo g s = (Inr (Some mo'), u) \<and> books (we_size env) limit (mo', None) u"
proof -
  have "\<exists>x u. retire eng (we_size env) g s = (Inr x, u) \<and> books (we_size env) limit (mo, None) u"
    by (rule retire_books [OF e size b]) (use b in \<open>auto simp: books_def stakes_def\<close>)
  moreover have "wb_fatal s = None" using b by (simp add: books_def)
  ultimately show ?thesis using books_idle by (fastforce simp: settle_owners_def act_defs)
qed

lemma settle_books:
  assumes e: "engine_apart eng" and size: "\<And>i. 0 \<le> we_size env i" and b: "books (we_size env) limit mon s"
    and st: "settle_step env eng outcome mon s = (mon', t)"
  shows "books (we_size env) limit mon' t"
proof (cases "snd mon")
  case None
  then show ?thesis using st b by (simp add: settle_step_def)
next
  case (Some rg)
  obtain r g where rg: "rg = (r, g)" by (metis surj_pair)
  obtain mo where mon: "mon = (mo, Some (r, g))" using Some rg by (cases mon) simp
  have b: "books (we_size env) limit (mo, Some (r, g)) s" using b mon by simp
  obtain y s1 where y: "bindA (liftA outcome) (settle_remote env eng r) s = (y, s1)" by (metis surj_pair)
  have b1: "books (we_size env) limit (mo, Some (r, g)) s1"
  proof (cases outcome)
    case (Inl z)
    then show ?thesis using y b by (simp add: act_defs)
  next
    case (Inr remote)
    then show ?thesis using y settle_remote_books [OF e size b, of remote] by (auto simp: bindA_def liftA_def)
  qed
  show ?thesis
  proof (cases y)
    case (Inr u)
    obtain mo' v where "settle_owners env eng mo g s1 = (Inr (Some mo'), v)" "books (we_size env) limit (mo', None) v"
      using settle_owners_books [OF e size b1] by blast
    then show ?thesis using st mon y Inr by (simp add: settle_step_def monitor_settle_def bindA_def attemptA_def)
  next
    case (Inl z)
    show ?thesis
    proof (cases "z = NativeExternalPageTransferUnknownError")
      case True
      have "books (we_size env) limit (mo, None) (s1\<lparr>wb_quarantined_groups := wb_quarantined_groups s1 @ [g],
          wb_fatal := Some NativeExternalPageTransferUnknownError\<rparr>)"
      proof -
        have "stake (stakes (mo, None) (s1\<lparr>wb_quarantined_groups := wb_quarantined_groups s1 @ [g],
          wb_fatal := Some NativeExternalPageTransferUnknownError\<rparr>)) = stake (stakes (mo, Some (r, g)) s1)"
          by (rule ext) (simp add: stakes_def)
        then show ?thesis using b1 by (simp add: books_def)
      qed
      then show ?thesis using st mon y Inl True by (simp add: settle_step_def monitor_settle_def act_defs)
    next
      case False
      let ?s = "set_retry r (we_now env s1 + 1) s1"
      obtain mo' v where v: "settle_owners env eng mo g ?s = (Inr (Some mo'), v)" "books (we_size env) limit (mo', None) v"
        using settle_owners_books [OF e size set_retry_books [OF b1]] by blast
      have "monitor_settle env eng mo r g outcome s = settle_owners env eng mo g ?s"
        using y Inl False by (cases z) (simp_all add: monitor_settle_def bindA_def attemptA_def seqA_def readA_def writeA_def)
      then show ?thesis using st mon v by (simp add: settle_step_def)
    qed
  qed
qed

lemma step_books:
  assumes e: "engine_apart eng" and size: "\<And>i. 0 \<le> we_size env i" and b: "books (we_size env) limit (fst ms) (snd ms)"
  shows "books (we_size env) limit (fst (writeback_step env eng op ms)) (snd (writeback_step env eng op ms))"
proof -
  obtain mon s where ms: "ms = (mon, s)" by fastforce
  have b: "books (we_size env) limit mon s" using b ms by simp
  show ?thesis
  proof (cases op)
    case WSelect
    then show ?thesis using select_books [OF e size b, of "fst (select_step env eng mon s)" "snd (select_step env eng mon s)"] ms
      by (simp add: writeback_step_def)
  next
    case (WSettle outcome)
    then show ?thesis using settle_books [OF e size b, of outcome "fst (settle_step env eng outcome mon s)" "snd (settle_step env eng outcome mon s)"] ms
      by (simp add: writeback_step_def)
  next
    case (WEngine w)
    have "books (we_size env) limit mon (s\<lparr>ls_world := w\<rparr>)" by (rule books_part [OF b]) (simp add: wb_part_def)
    then show ?thesis using WEngine ms by (simp add: writeback_step_def)
  qed (use publish_books [OF e b] forget_books [OF b] run_retire_books [OF e size b] restore_event_books [OF b] close_books [OF b] ms
        in \<open>simp_all add: writeback_step_def\<close>)
qed

lemma run_books:
  assumes e: "engine_apart eng" and size: "\<And>i. 0 \<le> we_size env i" and "0 \<le> limit"
  shows "books (we_size env) limit (fst (writeback_run env eng ops ((monitor_start, None), make_writeback limit reserve w junk)))
     (snd (writeback_run env eng ops ((monitor_start, None), make_writeback limit reserve w junk)))"
proof -
  have start: "books (we_size env) limit (monitor_start, None) (make_writeback limit reserve w junk)"
    using assms(3) by (simp add: books_def make_writeback_def stakes_def charged_def)
  have "books (we_size env) limit (fst ms) (snd ms) \<Longrightarrow>
    books (we_size env) limit (fst (writeback_run env eng ops ms)) (snd (writeback_run env eng ops ms))" for ms
    unfolding writeback_run_def
  proof (induction ops arbitrary: ms)
    case (Cons op ops)
    from Cons.IH [OF step_books [OF e size Cons.prems, of op]] show ?case by simp
  qed simp
  from this [of "((monitor_start, None), make_writeback limit reserve w junk)"] start show ?thesis by simp
qed

end
