(* ===== verification/WritebackProperties.thy ===== *)
theory WritebackProperties
  imports WritebackBooks CheckpointReferences
begin

text \<open>
  What the write-back store promises: its charges, the references it hands out, and what a finished spill
  has persisted.
\<close>

section \<open>References\<close>

text \<open>As \<open>engine_counts\<close>, for what the write-back adds: only loading takes a reference.\<close>

definition writeback_counts :: "('k, ('k, 'c, 'w) writeback_state) writeback_env \<Rightarrow>
    ('k, 'c, 'v, ('k, 'c, 'w) writeback_state) checkpoint_engine \<Rightarrow> ('w \<Rightarrow> nat \<Rightarrow> int) \<Rightarrow> bool" where
  "writeback_counts env eng wrefs \<longleftrightarrow>
     engine_counts eng (\<lambda>s. wrefs (ls_world s)) \<and>
     (\<forall>ks. refs.changes (\<lambda>s. wrefs (ls_world s)) (we_probe env ks) (\<lambda>_. 0) (\<lambda>_ _. 0)) \<and>
     (\<forall>k g n req. gets_once (\<lambda>s. wrefs (ls_world s)) (we_load env k g n req)) \<and>
     (\<forall>k page req. refs.changes (\<lambda>s. wrefs (ls_world s)) (we_persist env k page req) (\<lambda>_. 0) (\<lambda>_ _. 0))"

lemma retained_get_page_counts:
  assumes e: "engine_counts eng refs"
  shows "gets_once refs (retained_get_page eng m g src)"
  unfolding gets_once_def retained_get_page_def
  apply (rule refs.changes_bind [OF refs.changes_read])
   apply simp
  apply (rule refs.changes_case_option)
   apply (simp add: get_page_counts [OF e])
  apply (rule refs.changes_seq [OF engine_counts_rules(4) [OF e, THEN refs.changes_cong]])
    apply simp
   apply (rule refl)
  apply (rule refs.changes_ret)
  apply simp
  done

lemma gather_window_counts:
  assumes get: "\<And>src. gets_once refs (get src)"
  shows "refs.changes refs (gather_window get right sources cursor h) lost (\<lambda>(_, _, _, h') p. held h' p - held h p)"
proof (induction sources arbitrary: cursor h lost)
  case Nil
  then show ?case by (simp add: refs.changes_ret)
next
  case (Cons src sources)
  show ?case unfolding gather_window.simps
    by (intro refs.changes_if Cons refs.changes_ret refs.changes_bind [OF refs.changes_attempt [OF get [unfolded gets_once_def]]]
        refs.changes_case_res refs.changes_case_option)
      (auto intro!: refs.changes_ret refs.changes_cong [OF Cons])
qed

definition plan_held :: "'k window_plan list \<Rightarrow> nat \<Rightarrow> int" where
  "plan_held plan p = (\<Sum>(_, h, _) \<leftarrow> plan. held h p)"

lemma plan_held_simps [simp]: "plan_held [] p = 0" "plan_held ((d, h, right) # plan) p = held h p + plan_held plan p"
  "plan_held (plan @ plan') p = plan_held plan p + plan_held plan' p"
  by (simp_all add: plan_held_def)

lemma plan_windows_counts:
  assumes e: "engine_counts eng refs" and get: "\<And>src. gets_once refs (get src)"
  shows "refs.changes refs (plan_windows eng get prefix_end stop sources ds plan missing) lost
    (\<lambda>(_, plan', _) p. plan_held plan' p - plan_held plan p)"
proof (induction ds arbitrary: sources plan missing lost)
  case Nil
  then show ?case by (simp add: refs.changes_ret)
next
  case (Cons d ds)
  show ?case unfolding plan_windows.simps Let_def
    apply (rule refs.changes_if)
     apply (rule Cons)
    apply (rule refs.changes_bind [OF gather_window_counts [OF get]])
    apply (simp only: split_paired_all prod.case)
    apply (rule refs.changes_case_option)
     prefer 2
     apply (rule refs.changes_ret, simp)
    apply (rule refs.changes_if)
     apply (rule refs.changes_cong [OF Cons])
      apply simp
     apply (auto)[1]
    apply (rule refs.changes_bind [OF refs.changes_attempt [OF each_source_down [OF e, of _ "\<lambda>_. 0"]]])
    apply (rule refs.changes_case_res)
     apply (rule refs.changes_ret, simp)
    apply (rule refs.changes_cong [OF Cons])
     apply simp
    apply auto
    done
qed

lemma join_windows_counts:
  assumes load: "\<And>g d. gets_once refs (load g d)"
  shows "refs.changes refs (join_windows load present probe g plan cursor taken) lost
    (\<lambda>(_, plan', _, taken') p. plan_held plan' p + held taken' p - plan_held plan p - held taken p)"
proof (induction plan arbitrary: cursor taken lost)
  case Nil
  then show ?case by (simp add: refs.changes_ret)
next
  case (Cons x plan)
  obtain d h right where x: "x = (d, h, right)" using prod_cases3 by blast
  show ?case unfolding x join_windows.simps
    apply (rule refs.changes_if)
     apply (rule refs.changes_cong [OF Cons])
      apply simp
     apply (auto)[1]
    apply (rule refs.changes_if)
     apply (rule refs.changes_ret, simp)
    apply (rule refs.changes_if)
     apply (rule refs.changes_cong [OF Cons])
      apply simp
     apply (auto)[1]
    apply (rule refs.changes_bind [OF refs.changes_attempt [OF load [unfolded gets_once_def]]])
    apply (rule refs.changes_case_res)
     apply (rule refs.changes_if)
      apply (rule refs.changes_ret, simp)
     apply (rule refs.changes_ret, simp)
    apply (rule refs.changes_case_option)
     apply (rule refs.changes_ret, simp)
    apply (rule refs.changes_cong [OF Cons])
     apply simp
    apply auto
    done
qed

lemma sum_plan_held: "sum_list (map (\<lambda>x. (\<lambda>(_, h, _) p. - held h p) x p) plan) = - plan_held plan p"
  by (induction plan) auto

lemma release_plan_counts:
  assumes e: "engine_counts eng refs"
  shows "refs.changes refs (release_plan eng plan) lost (\<lambda>_ p. - plan_held plan p)"
proof -
  have "refs.changes refs ((\<lambda>(_, h, _). eachA (\<lambda>(_, page). ce_down eng page) h) x) lost' (\<lambda>_. (\<lambda>(_, h, _) p. - held h p) x)" for x lost'
    by (cases x) (simp add: each_source_down [OF e])
  from refs.changes_each_down [OF this] show ?thesis unfolding release_plan_def
    by (rule refs.changes_cong) (simp_all only: sum_plan_held)
qed

lemma finish_counts:
  fixes n :: "('s, unit) act"
  assumes r: "refs.changes refs m lost mid" and plan: "\<And>lost. refs.changes refs n lost (\<lambda>_ p. - out p)"
    and l: "\<And>p. lost p = lost' p + out p" and g: "\<And>x p. mid x p = gained x p + out p"
  shows "refs.changes refs (bindA (attemptA m) (\<lambda>r. seqA n (liftA r))) lost' gained"
proof (rule refs.changes_bind [OF refs.changes_attempt [OF r]])
  fix x s t
  show "refs.changes refs (seqA n (liftA x)) (\<lambda>p. lost' p - (case x of Inl _ \<Rightarrow> lost | Inr x \<Rightarrow> mid x) p)
     (\<lambda>y p. gained y p - (case x of Inl _ \<Rightarrow> lost | Inr x \<Rightarrow> mid x) p)"
    apply (rule refs.changes_seq [OF plan])
    apply (cases x)
     apply (simp add: liftA_def flip: raiseA_def)
     apply (rule refs.changes_raise, simp add: l)
    apply (simp add: liftA_def flip: retA_def)
    apply (rule refs.changes_ret, simp add: g)
    done
qed

lemma abandon_join_counts:
  assumes e: "engine_counts eng refs" and l: "\<And>p. lost p = - held (fst groups) p - held (snd groups) p - plan_held plans p"
  shows "refs.changes refs (abandon_join eng groups plans x) lost gained"
  unfolding abandon_join_def
  by (rule finish_counts [OF release_and_raise_counts [OF e, of "\<lambda>p. lost p + plan_held plans p" _ _ "\<lambda>y p. gained y p + plan_held plans p"]
        release_plan_counts [OF e]]) (simp_all add: l)

lemma join_plans_counts:
  assumes e: "engine_counts eng refs" and load: "\<And>g d. gets_once refs (load g d)"
  shows "refs.changes refs (join_plans eng load present probe prefix_end plan0 plan1) (\<lambda>p. - plan_held plan0 p - plan_held plan1 p)
    (\<lambda>(_, h0, h1) p. held h0 p + held h1 p - plan_held plan0 p - plan_held plan1 p)"
  unfolding join_plans_def
  apply (rule refs.changes_bind [OF join_windows_counts [OF load]])
  apply (simp only: split_paired_all prod.case)
  apply (rule refs.changes_case_option)
   prefer 2
   apply (rule abandon_join_counts [OF e], simp)
  apply (rule refs.changes_bind [OF join_windows_counts [OF load]])
  apply (simp only: split_paired_all prod.case)
  apply (rule refs.changes_case_option)
   prefer 2
   apply (rule abandon_join_counts [OF e], simp)
  unfolding finish_join_def
  apply (rule finish_counts [OF trim_groups_counts [OF e] release_plan_counts [OF e]])
   apply simp
  apply (auto split: prod.split)
  done

lemma probe_missing_counts:
  assumes "\<And>ks. refs.changes refs (probe ks) (\<lambda>_. 0) (\<lambda>_ _. 0)"
  shows "refs.changes refs (probe_missing probe missing) (\<lambda>_. 0) (\<lambda>_ _. 0)"
  unfolding probe_missing_def
  by (intro refs.changes_if refs.changes_ret zero_bind assms refs.changes_raise) simp_all

lemma join_remote_counts:
  assumes e: "engine_counts eng refs" and get: "\<And>g src. gets_once refs (get g src)" and load: "\<And>g d. gets_once refs (load g d)"
    and probe: "\<And>ks. refs.changes refs (probe_keys ks) (\<lambda>_. 0) (\<lambda>_ _. 0)"
  shows "refs.changes refs (join_remote eng get load probe_keys m remote stop probe) (\<lambda>_. 0) (\<lambda>(_, h0, h1) p. held h0 p + held h1 p)"
  unfolding join_remote_def
  apply (rule refs.changes_bind [OF plan_windows_counts [OF e get]])
  apply (simp only: split_paired_all prod.case)
  apply (rule refs.changes_case_option)
   prefer 2
   apply (rule abandon_join_counts [OF e], simp)
  apply (rule refs.changes_bind [OF plan_windows_counts [OF e get]])
  apply (simp only: split_paired_all prod.case)
  apply (rule refs.changes_case_option)
   prefer 2
   apply (rule abandon_join_counts [OF e], simp)
  apply (rule refs.changes_bind [OF refs.changes_attempt [OF probe_missing_counts [OF probe]]])
  apply (rule refs.changes_case_res)
   apply (rule abandon_join_counts [OF e], simp)
  apply (rule refs.changes_cong [OF join_plans_counts [OF e load]])
   apply simp
  apply auto
  done

lemma writeback_counts_rules:
  assumes "writeback_counts env eng wrefs"
  shows "engine_counts eng (of_world wrefs)" "refs.changes (of_world wrefs) (we_probe env ks) (\<lambda>_. 0) (\<lambda>_ _. 0)"
    "gets_once (of_world wrefs) (we_load env k g n req)" "refs.changes (of_world wrefs) (we_persist env k' page req) (\<lambda>_. 0) (\<lambda>_ _. 0)"
  using assms by (simp_all add: writeback_counts_def)

lemma acquire_retained_counts:
  assumes w: "writeback_counts env eng wrefs"
  shows "refs.changes (of_world wrefs) (acquire_retained env eng probe m stop) (\<lambda>_. 0) (\<lambda>(_, h0, h1) p. held h0 p + held h1 p)"
proof -
  note e = writeback_counts_rules(1) [OF w]
  have join: "refs.changes (of_world wrefs) (join_remote eng (retained_get_page eng m') (\<lambda>g d. we_load env (cp_key d) g (n d) req)
      (we_probe env) m' remote stop probe) (\<lambda>_. 0) (\<lambda>(_, h0, h1) p. held h0 p + held h1 p)" for m' n req remote
    by (rule join_remote_counts [OF e retained_get_page_counts [OF e] writeback_counts_rules(3) [OF w] writeback_counts_rules(2) [OF w]])
  have acq: "refs.changes (of_world wrefs) (acquire_with eng (retained_get_page eng m') m' stop) (\<lambda>_. 0)
      (\<lambda>(_, h0, h1) p. held h0 p + held h1 p)" for m'
    by (rule acquire_with_counts [OF e retained_get_page_counts [OF e]])
  show ?thesis unfolding acquire_retained_def Let_def
    apply (rule refs.changes_bind [OF refs.changes_read])
     apply simp
    apply (simp only: split_paired_all prod.case)
    apply (rule refs.changes_if)
     apply (rule refs.changes_cong [OF acq], simp, simp)
    apply (rule refs.changes_case_option)
     apply (rule refs.changes_bind [OF acq [THEN refs.changes_cong]])
       apply simp
      apply (rule refl)
     apply (simp only: split_paired_all prod.case)
     apply (rule refs.changes_if)
      apply (rule refs.changes_ret, simp)
     apply (rule refs.changes_bind [OF refs.changes_read])
      apply simp
     apply (rule refs.changes_case_option)
      apply (rule refs.changes_ret, simp)
     apply (rule refs.changes_seq [OF release_sources_counts [OF e]])
     apply (rule refs.changes_cong [OF join])
      apply simp
     apply simp
    apply (rule refs.changes_cong [OF join], simp, simp)
    done
qed

lemma available_retained_counts:
  assumes w: "writeback_counts env eng wrefs"
  shows "refs.changes (of_world wrefs) (available_retained env eng req generation stop) (\<lambda>_. 0) (\<lambda>_ _. 0)"
  unfolding available_retained_def
  apply (rule refs.changes_bind [OF refs.changes_read])
   apply simp
  apply (rule refs.changes_case_option)
   apply (rule refs.changes_ret, simp)
  apply clarsimp
  apply (rule refs.changes_bind [OF acquire_retained_counts [OF w, THEN refs.changes_cong]])
    apply simp
   apply (rule refl)
  apply clarsimp
  apply (rule refs.changes_seq [OF release_sources_counts [OF writeback_counts_rules(1) [OF w]]])
  apply (rule refs.changes_ret)
  apply simp
  done

lemma persist_built_True:
  "persist_built env eng r req key page s = (Inr True, t) \<Longrightarrow> \<exists>u v. \<not> withdrawn env r s \<and> we_persist env key page req s = (Inr u, v)"
  by (auto simp: persist_built_def act_defs split: if_splits prod.splits sum.splits)






text \<open>C31. Retention is charged exactly and within its limit: after any sequence of offers, withdrawals,
  retirements, restore events, monitor turns with any outcome of the spills, and closing, the charged
  bytes are the sizes of the pages that some record, submitted retirement, running spill or quarantine
  holds, each counted as often as it is held so that no uncharging fails, and they never exceed the limit.\<close>

theorem retention_is_charged_exactly:
  assumes "engine_apart eng" "\<And>i. 0 \<le> we_size env i" "0 \<le> limit"
    "writeback_run env eng ops ((monitor_start, None), make_writeback limit reserve w junk) = (mon, s)"
  shows "wb_used s \<le> limit \<and> wb_used s = (\<Sum>i \<in> {i. list_ex (\<lambda>g. i \<in> set (owner_ids g)) (stakes mon s)}. we_size env i) \<and>
    map_of (wb_charges s) i =
      (if stake (stakes mon s) i = 0 then None else Some (stake (stakes mon s) i))"
proof -
  have b: "books (we_size env) limit mon s"
    using run_books [OF assms(1-3), of ops reserve w junk] assms(4) by simp
  then have ch: "charged (we_size env) (stake (stakes mon s)) (wb_charges s) (wb_used s)" by (simp add: books_def)
  have "{i. stake (stakes mon s) i \<noteq> 0} = {i. list_ex (\<lambda>g. i \<in> set (owner_ids g)) (stakes mon s)}"
    by (auto simp: stake_def list_ex_iff filter_empty_conv)
  then have "wb_used s = (\<Sum>i \<in> {i. list_ex (\<lambda>g. i \<in> set (owner_ids g)) (stakes mon s)}. we_size env i)"
    using keys_charged [OF ch] ch by (simp add: charged_def)
  then show ?thesis using b ch by (simp add: books_def charged_def)
qed

text \<open>An engine with a page of four tokens and eight bytes for every key, whose world is the references.\<close>

type_synonym plain_state = "(nat, unit, nat \<Rightarrow> int) writeback_state"

definition plain_count :: "nat list \<Rightarrow> int \<Rightarrow> plain_state \<Rightarrow> plain_state" where
  "plain_count ps d s = s\<lparr>ls_world := (\<lambda>p. ls_world s p + d * int (count_list ps p))\<rparr>"

definition plain_engine :: "(nat, unit, nat, plain_state) checkpoint_engine" where
  "plain_engine = \<lparr>ce_chunk_size = 4,
     ce_prefix = (\<lambda>ks s. let ps = map the (takeWhile (\<lambda>k. k \<noteq> None) ks) in (Inr (ps, length ps), plain_count ps 1 s)),
     ce_valid = (\<lambda>_ _. True), ce_valid_tokens = (\<lambda>_ _. 4), ce_validate = (\<lambda>_ _. retA ()),
     ce_up = (\<lambda>p. writeA (plain_count [p] 1)), ce_down = (\<lambda>p. writeA (plain_count [p] (- 1))),
     ce_cached = (\<lambda>_ _ _. retA None), ce_load_prefix = (\<lambda>_ _ _ s. (Inr 90, plain_count [90] 1 s)),
     ce_allocate = (\<lambda>_ _ s. (Inr (91, FlatWidths [1]), plain_count [91] 1 s)),
     ce_reclaim = (\<lambda>_ _. retA False),
     ce_token_results = (\<lambda>_ _ _ _. retA ([(0, 4, 50)], None)),
     ce_submit = (\<lambda>_ _. retA ()), ce_is_checkpoint_key = (\<lambda>_. True), ce_remove = (\<lambda>_. retA ()),
     ce_layers = (\<lambda>_ _. 1), ce_tensor = (\<lambda>p l s. []), ce_write_tensor = (\<lambda>p l v s. s)\<rparr>"

definition plain_env :: "(nat, plain_state) writeback_env" where
  "plain_env = \<lparr>we_size = (\<lambda>_. 8), we_capacity = (\<lambda>_. (100, 200)), we_frozen = (\<lambda>_. False), we_now = (\<lambda>_. 0),
     we_thread_starts = (\<lambda>_. True), we_probe = (\<lambda>ks. retA (map (\<lambda>_. True) ks)),
     we_load = (\<lambda>k _ _ _ s. (Inr k, case k of None \<Rightarrow> s | Some p \<Rightarrow> plain_count [p] 1 s)), we_persist = (\<lambda>_ _ _. retA ())\<rparr>"

definition plain_offer :: "(nat, unit) local_checkpoint" where
  "plain_offer = \<lparr>lm_tokens = [1, 2, 3, 4], lm_prefix_end = 0,
     lm_groups = ([\<lparr>cp_start = 0, cp_end = 4, cp_key = Some 1\<rparr>], [\<lparr>cp_start = 0, cp_end = 4, cp_key = Some 2\<rparr>]),
     lm_configs = (), lm_identity = None, lm_retention = None\<rparr>"

definition plain_start :: "int \<Rightarrow> plain_state" where
  "plain_start limit = make_writeback limit 10 (\<lambda>_. 0) (make_retention plain_offer ([], []))"

lemma plain_apart: "engine_apart plain_engine"
  by (auto simp: engine_apart_def apart.keeps_def apart_from_def plain_engine_def plain_count_def act_defs Let_def
      intro: exI [of _ "ls_world _"] ) (metis (no_types) store_state.select_convs(3) store_state.surjective store_state.update_convs(3))+

lemma plain_counts: "writeback_counts plain_env plain_engine (\<lambda>w. w)"
  by (auto simp: writeback_counts_def engine_counts_def gets_once_def refs.changes_def plain_engine_def plain_env_def plain_count_def
      act_defs once_def Let_def length_takeWhile_le split: option.split)

theorem retention_is_charged_exactly_witness:
  "\<exists>mon s. writeback_run plain_env plain_engine [WPublish ''a'' 0 plain_offer, WSelect, WForget ''a'' None, WRetire]
      ((monitor_start, None), plain_start 20) = (mon, s) \<and> wb_used s \<le> 20"
proof -
  obtain mon s where r: "writeback_run plain_env plain_engine [WPublish ''a'' 0 plain_offer, WSelect, WForget ''a'' None, WRetire]
      ((monitor_start, None), plain_start 20) = (mon, s)" by (metis surj_pair)
  have size: "0 \<le> we_size plain_env i" for i by (simp add: plain_env_def)
  show ?thesis using r retention_is_charged_exactly [OF plain_apart size _ r [unfolded plain_start_def]] by fastforce
qed

text \<open>C32. With write-back, too, references are balanced: acquiring hands the caller exactly the references of
  the pages it returns, whether retained, cached or loaded, probing and failing leave none, and
  normalizing hands over exactly those of its owners.\<close>

theorem retained_references_balanced:
  assumes "writeback_counts env eng wrefs"
  shows "(case acquire_retained env eng probe m stop s of (r, t) \<Rightarrow> wrefs (ls_world t) p = wrefs (ls_world s) p +
      (case r of Inl _ \<Rightarrow> 0 | Inr (_, held0, held1) \<Rightarrow> int (count_list (map snd (held0 @ held1)) p))) \<and>
    (case available_retained env eng req generation stop s of (r, t) \<Rightarrow> wrefs (ls_world t) p = wrefs (ls_world s) p) \<and>
    (case normalize_with eng (acquire_retained env eng False) req generation tokens configs s of (r, t) \<Rightarrow>
      wrefs (ls_world t) p = wrefs (ls_world s) p + (case r of Inl _ \<Rightarrow> 0 | Inr (_, owners) \<Rightarrow> int (count_list owners p)))"
proof (intro conjI)
  obtain r t where a: "acquire_retained env eng probe m stop s = (r, t)" by fastforce
  show "case acquire_retained env eng probe m stop s of (r, t) \<Rightarrow> wrefs (ls_world t) p = wrefs (ls_world s) p +
      (case r of Inl _ \<Rightarrow> 0 | Inr (_, held0, held1) \<Rightarrow> int (count_list (map snd (held0 @ held1)) p))"
    using refs.changesD [OF acquire_retained_counts [OF assms] a, of p] by (auto simp: a held_def split: sum.splits prod.splits)
  obtain r' t' where b: "available_retained env eng req generation stop s = (r', t')" by fastforce
  show "case available_retained env eng req generation stop s of (r, t) \<Rightarrow> wrefs (ls_world t) p = wrefs (ls_world s) p"
    using refs.changesD [OF available_retained_counts [OF assms] b, of p] by (auto simp: b split: sum.splits)
  obtain r'' t'' where c: "normalize_with eng (acquire_retained env eng False) req generation tokens configs s = (r'', t'')" by fastforce
  show "case normalize_with eng (acquire_retained env eng False) req generation tokens configs s of (r, t) \<Rightarrow>
      wrefs (ls_world t) p = wrefs (ls_world s) p + (case r of Inl _ \<Rightarrow> 0 | Inr (_, owners) \<Rightarrow> int (count_list owners p))"
    using refs.changesD [OF normalize_with_counts [OF writeback_counts_rules(1) [OF assms] acquire_retained_counts [OF assms]] c, of p]
    by (auto simp: c split: sum.splits prod.splits)
qed

theorem retained_references_balanced_witness:
  "case acquire_retained plain_env plain_engine False plain_offer 4 (plain_start 20) of
     (r, t) \<Rightarrow> (\<exists>held0 held1. r = Inr (4, held0, held1) \<and> ls_world t 1 = int (count_list (map snd (held0 @ held1)) 1))"
proof -
  obtain held0 held1 t where r: "acquire_retained plain_env plain_engine False plain_offer 4 (plain_start 20) = (Inr (4, held0, held1), t)"
    by (simp add: acquire_retained_def retaining_record_def authoritative_def plain_offer_def plain_env_def acquire_with_def
        acquire_second_def trim_groups_def trim_group_def retained_get_page_def retained_page_def get_page_def keep_fitting_def page_fits_def
        plain_engine_def act_defs Let_def)
  have "ls_world (plain_start 20) 1 = 0" by (simp add: plain_start_def make_writeback_def)
  then show ?thesis
    using r retained_references_balanced [OF plain_counts, where probe = False and m = plain_offer and stop = 4 and s = "plain_start 20" and p = 1]
    by simp
qed


end
