(* ===== verification/PreemptionCapture.thy ===== *)
theory PreemptionCapture
  imports LocalCheckpoint Complex_Main "HOL-Library.Word"
begin

text \<open>
  \<open>preemption_checkpoint.py\<close>: capturing a preempted request's KV pages, publishing the accepted part
  and retiring the owners.  Pages, plans and events are object identities.  The cache engine, the
  connector and the store that receives the offers are parameters; the single publishing thread is a queue.
\<close>

section \<open>Slots\<close>

definition int64_max :: int where
  "int64_max = 2 ^ 63 - 1"

definition wrap64 :: "int \<Rightarrow> int" where
  "wrap64 x = sint (word_of_int x :: 64 word)"

text \<open>\<open>_checkpoint_slots\<close>: NumPy's arithmetic wraps, the checks are made on Python integers.\<close>

definition checkpoint_slots :: "int list \<Rightarrow> nat \<Rightarrow> nat \<Rightarrow> nat \<Rightarrow> int list res" where
  "checkpoint_slots blocks start stop block_size =
     (let ids = take ((stop + block_size - 1) div block_size - start div block_size) (drop (start div block_size) blocks) in
      if list_ex (\<lambda>i. i > int64_max \<or> i < - int64_max - 1) ids then Inl (OverflowError ''Python int too large to convert to C long'')
      else if ids = [] then Inl IndexError
      else if (length ids > 1 \<and> Max (set (butlast ids)) * int block_size + int block_size - 1 > int64_max) \<or>
              last ids * int block_size + int ((stop - 1) mod block_size) > int64_max
      then Inl (OverflowError ''Checkpoint slot exceeds int64'')
      else let storage = concat (map (\<lambda>i. map (\<lambda>j. wrap64 (wrap64 (i * int block_size) + int j)) [0..<block_size]) ids)
           in Inr (take (stop - start) (drop (start mod block_size) storage)))"

section \<open>Jobs\<close>

record 'c capture_spec =
  cs_req_id :: string
  cs_generation :: int
  cs_base :: int
  cs_end :: int
  cs_resident_start :: int
  cs_prefix_end :: int
  cs_blocks :: "int list \<times> int list"
  cs_configs :: 'c

text \<open>A fragment is \<open>(start, end, page)\<close>; the fragments are a dict from the group.\<close>

type_synonym fragment = "int \<times> int \<times> nat"

datatype job_future = NoFuture | Submitted "int list" | Finished "int res"

record ('k, 'c) capture_job =
  cj_spec :: "'c capture_spec"
  cj_fragments :: "(nat \<times> fragment list) list"
  cj_plans :: "nat list"
  cj_prefix_sources :: "'k checkpoint_page list"
  cj_prefix_owners :: "nat list"
  cj_captured_end :: int
  cj_future :: job_future
  cj_cancelled :: bool
  cj_started :: rat
  cj_quarantined :: bool

definition new_job :: "'c capture_spec \<Rightarrow> rat \<Rightarrow> ('k, 'c) capture_job" where
  "new_job spec started = \<lparr>cj_spec = spec, cj_fragments = [], cj_plans = [], cj_prefix_sources = [], cj_prefix_owners = [],
     cj_captured_end = 0, cj_future = NoFuture, cj_cancelled = False, cj_started = started, cj_quarantined = False\<rparr>"

text \<open>A result is \<open>(key, status, end, reason)\<close>; the times it also carries are left out.\<close>

datatype checkpoint_status = CaptureFailed | Captured | CheckpointReady

datatype reason = NoReason | Because string | ErrorText exn

type_synonym checkpoint_result = "(string \<times> int) \<times> checkpoint_status \<times> int option \<times> reason"

record ('k, 'c, 'w) worker_state =
  cw_jobs :: "((string \<times> int) \<times> ('k, 'c) capture_job) list"
  cw_results :: "checkpoint_result list"
  cw_restore_owners :: "((string \<times> int \<times> int) \<times> nat list) list"
  cw_queue :: "(string \<times> int) list"
  cw_chunk_size :: nat
  cw_world :: 'w

text \<open>The cached prefix that the connector hands over: the keys are per layer.\<close>

record 'k prefix_state =
  ps_starts :: "int list"
  ps_ends :: "int list"
  ps_keys :: "'k list list"

record ('k, 'c, 'w) worker_env =
  ke_max_jobs :: int
  ke_timeout :: rat
  ke_writeback :: bool
  ke_now :: "'w \<Rightarrow> rat"
  ke_frozen :: "'w \<Rightarrow> bool"
  ke_without_layer :: "'k \<Rightarrow> 'k"
  ke_prefix :: "'k option list \<Rightarrow> ('w, nat list \<times> nat) act"
  ke_validate :: "nat \<Rightarrow> nat \<Rightarrow> ('w, unit) act"
  ke_prepare_allocator :: "nat \<Rightarrow> ('w, unit) act"
  ke_allocate :: "nat \<Rightarrow> int \<Rightarrow> ('w, nat) act"
  ke_reclaim :: "int \<Rightarrow> nat list \<Rightarrow> ('w, bool) act"
  ke_down :: "nat \<Rightarrow> ('w, unit) act"
  ke_prepare :: "nat \<Rightarrow> fragment list \<Rightarrow> int list \<Rightarrow> ('w, nat) act"
  ke_enqueue :: "nat \<Rightarrow> ('w, nat) act"
  ke_synchronize :: "nat \<Rightarrow> ('w, unit) act"
  ke_finish_capture :: "('w, unit) act"
  ke_page_key :: "'c capture_spec \<Rightarrow> nat \<Rightarrow> int \<Rightarrow> int \<Rightarrow> 'k"
  ke_submit :: "'k list \<Rightarrow> nat list \<Rightarrow> ('w, unit) act"
  ke_publish :: "string \<Rightarrow> int \<Rightarrow> ('k, 'c) local_checkpoint \<Rightarrow> ('w, unit) act"
  ke_forget :: "string \<Rightarrow> int option \<Rightarrow> ('w, unit) act"
  ke_restore_event :: "string \<times> int \<Rightarrow> int \<Rightarrow> string \<Rightarrow> ('w, unit) act"
  ke_close_store :: "('w, unit) act"
  ke_fatal :: "'w \<Rightarrow> bool"

definition on_world :: "('w, 'a) act \<Rightarrow> (('k, 'c, 'w) worker_state, 'a) act" where
  "on_world m = (\<lambda>s. case m (cw_world s) of (r, w) \<Rightarrow> (r, s\<lparr>cw_world := w\<rparr>))"

section \<open>Restores\<close>

definition begin_restore :: "('k, 'c, 'w) worker_env \<Rightarrow> string \<Rightarrow> int \<Rightarrow> int \<Rightarrow> (('k, 'c, 'w) worker_state, unit) act" where
  "begin_restore env req generation load =
     seqA (writeA (\<lambda>s. if map_of (cw_restore_owners s) (req, generation, load) = None
             then s\<lparr>cw_restore_owners := AList.update (req, generation, load) [] (cw_restore_owners s)\<rparr> else s))
     (on_world (ke_restore_event env (req, generation) load ''begin''))"

definition hold_restore :: "string \<Rightarrow> int \<Rightarrow> int \<Rightarrow> nat list \<Rightarrow> (('k, 'c, 'w) worker_state, unit) act" where
  "hold_restore req generation load owners =
     bindA (readA (\<lambda>s. map_of (cw_restore_owners s) (req, generation, load))) (\<lambda>held.
     case held of
       None \<Rightarrow> raiseA KeyError
     | Some ps \<Rightarrow> writeA (\<lambda>s. s\<lparr>cw_restore_owners := AList.update (req, generation, load) (ps @ owners) (cw_restore_owners s)\<rparr>))"

definition release_restore :: "('k, 'c, 'w) worker_env \<Rightarrow> string \<Rightarrow> int \<Rightarrow> int \<Rightarrow> (('k, 'c, 'w) worker_state, unit) act" where
  "release_restore env req generation load =
     bindA (readA (\<lambda>s. case map_of (cw_restore_owners s) (req, generation, load) of None \<Rightarrow> [] | Some ps \<Rightarrow> ps)) (\<lambda>ps.
     seqA (writeA (\<lambda>s. s\<lparr>cw_restore_owners := AList.delete (req, generation, load) (cw_restore_owners s)\<rparr>))
     (seqA (on_world (eachA (ke_down env) ps))
     (on_world (ke_restore_event env (req, generation) load ''ack''))))"

section \<open>Staging\<close>

text \<open>The memory for one group of a range, with one reclaim per capture; the flag is passed along.\<close>

definition allocate_fragment :: "('k, 'c, 'w) worker_env \<Rightarrow> int \<Rightarrow> nat \<Rightarrow> int \<Rightarrow> ('w, nat) act" where
  "allocate_fragment env chunk g tokens =
     (if \<not> (0 < tokens \<and> tokens \<le> chunk) then raiseA (MemoryError ''Checkpoint fragment exceeds one chunk'')
      else ke_allocate env g tokens)"

definition missing_groups :: "nat \<Rightarrow> (nat \<times> fragment) list \<Rightarrow> nat list" where
  "missing_groups g candidate = filter (\<lambda>k. k \<notin> fst ` set candidate) (py_unique [g, 1])"

definition group_start :: "'c capture_spec \<Rightarrow> nat \<Rightarrow> int \<Rightarrow> int" where
  "group_start spec g cursor = (if g = 0 then max cursor (cs_resident_start spec) else cursor)"

definition reclaim_fragment :: "('k, 'c, 'w) worker_env \<Rightarrow> int \<Rightarrow> nat \<Rightarrow> int \<Rightarrow> int \<Rightarrow> (nat \<times> fragment) list \<Rightarrow> bool \<Rightarrow>
    ('w, nat res \<times> bool) act" where
  "reclaim_fragment env chunk g tokens width candidate reclaimed =
     bindA (attemptA (allocate_fragment env chunk g tokens)) (\<lambda>r.
     case r of
       Inr page \<Rightarrow> retA (Inr page, reclaimed)
     | Inl e \<Rightarrow>
         if \<not> is_memory_error e \<or> reclaimed then retA (Inl e, reclaimed)
         else bindA (attemptA (bindA (ke_reclaim env width (missing_groups g candidate)) (\<lambda>freed.
                if \<not> freed then raiseA e else allocate_fragment env chunk g tokens))) (\<lambda>r2. retA (r2, True)))"

text \<open>The candidate of both groups; an exception comes with what was allocated before it.\<close>

fun allocate_groups :: "('k, 'c, 'w) worker_env \<Rightarrow> 'c capture_spec \<Rightarrow> int \<Rightarrow> int \<Rightarrow> int \<Rightarrow> nat list \<Rightarrow>
    (nat \<times> fragment) list \<Rightarrow> bool \<Rightarrow> ('w, exn option \<times> (nat \<times> fragment) list \<times> bool) act" where
  "allocate_groups env spec chunk cursor stop [] candidate reclaimed = retA (None, candidate, reclaimed)"
| "allocate_groups env spec chunk cursor stop (g # gs) candidate reclaimed =
     (let start = group_start spec g cursor in
      if start \<ge> stop then allocate_groups env spec chunk cursor stop gs candidate reclaimed
      else bindA (reclaim_fragment env chunk g (stop - start) (stop - cursor) candidate reclaimed) (\<lambda>(r, used).
        case r of
          Inl e \<Rightarrow> retA (Some e, candidate, used)
        | Inr page \<Rightarrow> allocate_groups env spec chunk cursor stop gs (candidate @ [(g, start, stop, page)]) used))"

definition drop_candidate :: "('k, 'c, 'w) worker_env \<Rightarrow> (nat \<times> fragment) list \<Rightarrow> ('w, unit) act" where
  "drop_candidate env candidate = eachA (\<lambda>(_, _, _, page). ke_down env page) candidate"

text \<open>\<open>while end > cursor\<close>: a range that does not fit is halved.\<close>

function stage_range :: "('k, 'c, 'w) worker_env \<Rightarrow> 'c capture_spec \<Rightarrow> int \<Rightarrow> int \<Rightarrow> int \<Rightarrow> bool \<Rightarrow>
    ('w, int \<times> (nat \<times> fragment) list \<times> bool) act" where
  "stage_range env spec chunk cursor stop reclaimed =
     (if stop \<le> cursor then retA (stop, [], reclaimed)
      else bindA (allocate_groups env spec chunk cursor stop [0, 1] [] reclaimed) (\<lambda>(e, candidate, used).
        case e of
          None \<Rightarrow> retA (stop, candidate, used)
        | Some e \<Rightarrow>
            seqA (drop_candidate env candidate)
            (if is_memory_error e then stage_range env spec chunk cursor (cursor + (stop - cursor) div 2) used else raiseA e)))"
  by pat_completeness auto

termination
  by (relation "measure (\<lambda>(env, spec, chunk, cursor, stop, reclaimed). nat (stop - cursor))") auto

definition add_fragments :: "(nat \<times> fragment) list \<Rightarrow> ('k, 'c) capture_job \<Rightarrow> ('k, 'c) capture_job" where
  "add_fragments candidate job =
     fold (\<lambda>(g, f) job. job\<lparr>cj_fragments := AList.update g
       ((case map_of (cj_fragments job) g of None \<Rightarrow> [] | Some fs \<Rightarrow> fs) @ [f]) (cj_fragments job)\<rparr>) candidate job"

lemma next_chunk: "0 < c \<Longrightarrow> x < (x div c + 1) * (c :: int)"
proof -
  assume "0 < c"
  then have "x mod c < c" by (rule pos_mod_bound)
  moreover have "x = x div c * c + x mod c" by simp
  moreover have "(x div c + 1) * c = x div c * c + c" by (simp only: distrib_right mult_1)
  ultimately show ?thesis by linarith
qed

text \<open>
  \<open>while cursor < spec.end\<close>: chunk by chunk, until a chunk does not fit whole.  The state is the job
  being captured and the world.
\<close>

function stage_chunks :: "('k, 'c, 'w) worker_env \<Rightarrow> 'c capture_spec \<Rightarrow> nat \<Rightarrow> int \<Rightarrow> bool \<Rightarrow>
    (('k, 'c) capture_job \<times> 'w, int) act" where
  "stage_chunks env spec chunk cursor reclaimed =
     (if cs_end spec \<le> cursor then retA cursor
      else if chunk = 0 then raiseA (OtherError ''ZeroDivisionError'')
      else let desired = min (cs_end spec) ((cursor div int chunk + 1) * int chunk) in
        bindA (innerA (stage_range env spec (int chunk) cursor desired reclaimed)) (\<lambda>(stop, candidate, used).
        seqA (writeA (\<lambda>(job, w). (add_fragments candidate job, w)))
        (if stop \<noteq> desired then retA (if stop > cursor then stop else cursor)
         else stage_chunks env spec chunk desired used)))"
  by pat_completeness auto

termination
proof (relation "measure (\<lambda>(env, spec, chunk, cursor, reclaimed). nat (cs_end spec - cursor))", goal_cases)
  case (2 env spec chunk cursor reclaimed desired)
  then show ?case using next_chunk [of "int chunk" cursor] by auto
qed simp

section \<open>Capturing\<close>

text \<open>The state of a capture is \<open>((job, device_work_started), world)\<close>.\<close>

type_synonym ('k, 'c, 'w) capture_state = "(('k, 'c) capture_job \<times> bool) \<times> 'w"

definition update_job :: "(('k, 'c) capture_job \<Rightarrow> ('k, 'c) capture_job) \<Rightarrow> (('k, 'c, 'w) capture_state, unit) act" where
  "update_job f = writeA (\<lambda>((job, started), w). ((f job, started), w))"

definition prefix_pages :: "('k, 'c, 'w) worker_env \<Rightarrow> 'c capture_spec \<Rightarrow> 'k prefix_state \<Rightarrow> 'k checkpoint_page list res" where
  "prefix_pages env spec ps =
     (if length (ps_starts ps) \<noteq> length (ps_ends ps) \<or> length (ps_ends ps) \<noteq> length (hd (ps_keys ps))
      then Inl (ValueError ''zip() arguments have different lengths'')
      else Inr (map (\<lambda>(a, b, key). \<lparr>cp_start = a, cp_end = min b (cs_resident_start spec), cp_key = Some (ke_without_layer env key)\<rparr>)
        (filter (\<lambda>(a, b, key). b > cs_prefix_end spec \<and> a < cs_resident_start spec)
          (zip (ps_starts ps) (zip (ps_ends ps) (hd (ps_keys ps)))))))"

text \<open>With write-back the pages of the prefix are held while the capture waits for its seal.\<close>

definition hold_prefix_page :: "('k, 'c, 'w) worker_env \<Rightarrow> 'k checkpoint_page \<Rightarrow> (('k, 'c, 'w) capture_state, unit) act" where
  "hold_prefix_page env src =
     bindA (innerA (ke_prefix env [cp_key src])) (\<lambda>(pages, amount).
     seqA (update_job (\<lambda>job. job\<lparr>cj_prefix_owners := cj_prefix_owners job @ pages\<rparr>))
     (if amount = 0 then retA ()
      else case pages of [] \<Rightarrow> raiseA IndexError | page # _ \<Rightarrow> innerA (ke_validate env 0 page)))"

definition capture_prefix :: "('k, 'c, 'w) worker_env \<Rightarrow> 'c capture_spec \<Rightarrow> 'k prefix_state option \<Rightarrow>
    (('k, 'c, 'w) capture_state, unit) act" where
  "capture_prefix env spec cached =
     (case cached of
        None \<Rightarrow> retA ()
      | Some ps \<Rightarrow>
          if ps_keys ps = [] then retA ()
          else bindA (liftA (prefix_pages env spec ps)) (\<lambda>sources.
            seqA (update_job (\<lambda>job. job\<lparr>cj_prefix_sources := sources\<rparr>))
            (if ke_writeback env then eachA (hold_prefix_page env) sources else retA ())))"

definition frontiers_ok :: "'c capture_spec \<Rightarrow> bool" where
  "frontiers_ok spec \<longleftrightarrow> 0 \<le> cs_base spec \<and> cs_base spec \<le> cs_prefix_end spec \<and> cs_prefix_end spec \<le> cs_end spec \<and>
     cs_base spec \<le> cs_resident_start spec \<and> cs_resident_start spec \<le> cs_end spec"

definition group_first :: "'c capture_spec \<Rightarrow> nat \<Rightarrow> int" where
  "group_first spec g = (if g = 0 then cs_resident_start spec else cs_base spec)"

definition group_blocks :: "'c capture_spec \<Rightarrow> nat \<Rightarrow> int list" where
  "group_blocks spec g = (if g = 0 then fst (cs_blocks spec) else snd (cs_blocks spec))"

definition blocks_held :: "'c capture_spec \<Rightarrow> nat \<Rightarrow> nat \<Rightarrow> bool" where
  "blocks_held spec block_size g =
     (let start = nat (group_first spec g); blocks = group_blocks spec g;
          stop = (nat (cs_end spec) + block_size - 1) div block_size
      in stop \<le> length blocks \<and>
         \<not> (start < nat (cs_end spec) \<and> list_ex (\<lambda>i. blocks ! i \<le> 0) [start div block_size..<stop]))"

definition prepare_allocators :: "('k, 'c, 'w) worker_env \<Rightarrow> 'c capture_spec \<Rightarrow> (('k, 'c, 'w) capture_state, unit) act" where
  "prepare_allocators env spec =
     eachA (\<lambda>g. if group_first spec g < cs_end spec then innerA (ke_prepare_allocator env g) else retA ()) [0, 1]"

text \<open>The checks before staging.\<close>

definition admit_capture :: "('k, 'c, 'w) worker_env \<Rightarrow> 'c capture_spec \<Rightarrow> nat \<Rightarrow> nat list \<Rightarrow> nat \<Rightarrow> 'k prefix_state option \<Rightarrow>
    (('k, 'c, 'w) capture_state, unit) act" where
  "admit_capture env spec jobs caches block_size cached =
     bindA (readA (\<lambda>(_, w). ke_frozen env w)) (\<lambda>frozen.
     if frozen then raiseA (ValueError ''checkpoint capture refused while cache is frozen'')
     else if int jobs \<ge> ke_max_jobs env then raiseA (ValueError ''checkpoint staging is busy'')
     else if set caches \<noteq> {0, 1} then raiseA (ValueError ''checkpoint requires both KV groups'')
     else if \<not> frontiers_ok spec then raiseA (ValueError ''Invalid checkpoint frontiers'')
     else seqA (capture_prefix env spec cached)
       (if block_size = 0 then raiseA (OtherError ''ZeroDivisionError'')
        else if \<not> (blocks_held spec block_size 0 \<and> blocks_held spec block_size 1)
        then raiseA (ValueError ''Checkpoint source includes released/null blocks'')
        else prepare_allocators env spec))"

text \<open>\<open>stage_chunks\<close> on the job of the capture, and the frontier it must have passed.\<close>

definition stage_capture :: "('k, 'c, 'w) worker_env \<Rightarrow> 'c capture_spec \<Rightarrow> nat \<Rightarrow> (('k, 'c, 'w) capture_state, unit) act" where
  "stage_capture env spec chunk =
     bindA (\<lambda>((job, started), w). case stage_chunks env spec chunk (cs_base spec) False (job, w) of
         (r, (job, w)) \<Rightarrow> (r, ((job, started), w))) (\<lambda>cursor.
     if cursor \<le> cs_prefix_end spec then raiseA (MemoryError ''Checkpoint CPU staging allocation refused'')
     else update_job (\<lambda>job. job\<lparr>cj_captured_end := cursor\<rparr>))"

definition plan_group :: "('k, 'c, 'w) worker_env \<Rightarrow> 'c capture_spec \<Rightarrow> nat \<Rightarrow> nat \<times> fragment list \<Rightarrow>
    (('k, 'c, 'w) capture_state, unit) act" where
  "plan_group env spec block_size x = (case x of (g, fragments) \<Rightarrow>
     if fragments = [] then raiseA IndexError
     else bindA (liftA (checkpoint_slots (group_blocks spec g) (nat (fst (hd fragments))) (nat (fst (snd (last fragments)))) block_size)) (\<lambda>slots.
     seqA (writeA (\<lambda>((job, _), w). ((job, True), w)))
     (bindA (innerA (ke_prepare env g fragments slots)) (\<lambda>plan.
      update_job (\<lambda>job. job\<lparr>cj_plans := cj_plans job @ [plan]\<rparr>)))))"

fun enqueue_plans :: "('k, 'c, 'w) worker_env \<Rightarrow> nat list \<Rightarrow> nat list \<Rightarrow> ('w, nat list) act" where
  "enqueue_plans env [] events = retA events"
| "enqueue_plans env (plan # plans) events =
     bindA (ke_enqueue env plan) (\<lambda>event. enqueue_plans env plans (events @ [event]))"

definition run_capture :: "('k, 'c, 'w) worker_env \<Rightarrow> 'c capture_spec \<Rightarrow> nat \<Rightarrow> (('k, 'c, 'w) capture_state, unit) act" where
  "run_capture env spec block_size =
     bindA (readA (\<lambda>((job, _), _). cj_fragments job)) (\<lambda>groups.
     seqA (eachA (plan_group env spec block_size) groups)
     (bindA (readA (\<lambda>((job, _), _). cj_plans job)) (\<lambda>plans.
     bindA (innerA (enqueue_plans env plans [])) (\<lambda>events.
     if events = [] then raiseA IndexError
     else seqA (innerA (ke_synchronize env (last events))) (update_job (\<lambda>job. job\<lparr>cj_plans := []\<rparr>))))))"

definition capture_body :: "('k, 'c, 'w) worker_env \<Rightarrow> 'c capture_spec \<Rightarrow> nat \<Rightarrow> nat \<Rightarrow> nat list \<Rightarrow> nat \<Rightarrow> 'k prefix_state option \<Rightarrow>
    (('k, 'c, 'w) capture_state, unit) act" where
  "capture_body env spec chunk jobs caches block_size cached =
     seqA (admit_capture env spec jobs caches block_size cached)
     (seqA (stage_capture env spec chunk) (run_capture env spec block_size))"

section \<open>Releasing a job\<close>

definition job_pages :: "('k, 'c) capture_job \<Rightarrow> nat list" where
  "job_pages job = concat (map (\<lambda>(_, fs). map (\<lambda>(_, _, p). p) fs) (cj_fragments job))"

definition release_job :: "('k, 'c, 'w) worker_env \<Rightarrow> (('k, 'c) capture_job \<times> 'w, unit) act" where
  "release_job env =
     bindA (readA fst) (\<lambda>job.
     if cj_quarantined job then retA ()
     else seqA (innerA (eachA (ke_down env) (job_pages job)))
       (seqA (writeA (\<lambda>(job, w). (job\<lparr>cj_fragments := [], cj_plans := []\<rparr>, w)))
       (seqA (innerA (eachA (ke_down env) (cj_prefix_owners job)))
       (writeA (\<lambda>(job, w). (job\<lparr>cj_prefix_owners := []\<rparr>, w))))))"

text \<open>A job of the table.\<close>

definition on_job :: "string \<times> int \<Rightarrow> (('k, 'c) capture_job \<times> 'w, 'a) act \<Rightarrow> (('k, 'c, 'w) worker_state, 'a) act" where
  "on_job key m = (\<lambda>s. case map_of (cw_jobs s) key of
       None \<Rightarrow> (Inl KeyError, s)
     | Some job \<Rightarrow> (case m (job, cw_world s) of (r, (job, w)) \<Rightarrow>
         (r, s\<lparr>cw_jobs := AList.update key job (cw_jobs s), cw_world := w\<rparr>)))"

definition add_result :: "checkpoint_result \<Rightarrow> (('k, 'c, 'w) worker_state, unit) act" where
  "add_result r = writeA (\<lambda>s. s\<lparr>cw_results := cw_results s @ [r]\<rparr>)"

definition drop_job :: "('k, 'c, 'w) worker_env \<Rightarrow> string \<times> int \<Rightarrow> (('k, 'c, 'w) worker_state, unit) act" where
  "drop_job env key =
     seqA (on_job key (release_job env)) (writeA (\<lambda>s. s\<lparr>cw_jobs := AList.delete key (cw_jobs s)\<rparr>))"

section \<open>The operations of the worker\<close>

definition settle_capture :: "('k, 'c, 'w) worker_env \<Rightarrow> string \<times> int \<Rightarrow> unit res \<Rightarrow> ('k, 'c, 'w) capture_state \<Rightarrow>
    (('k, 'c, 'w) worker_state, unit) act" where
  "settle_capture env key r c = (case c of ((job, started), w) \<Rightarrow>
     seqA (writeA (\<lambda>s. s\<lparr>cw_world := w\<rparr>))
     (case r of
        Inr _ \<Rightarrow>
          seqA (writeA (\<lambda>s. s\<lparr>cw_jobs := AList.update key job (cw_jobs s)\<rparr>))
          (add_result (key, Captured, Some (cj_captured_end job), NoReason))
      | Inl e \<Rightarrow>
          bindA (if started then attemptA (on_world (ke_finish_capture env)) else retA (Inr ())) (\<lambda>fence.
          case fence of
            Inl _ \<Rightarrow>
              seqA (writeA (\<lambda>s. s\<lparr>cw_jobs := AList.update key (job\<lparr>cj_quarantined := True\<rparr>) (cw_jobs s)\<rparr>))
              (raiseA (RuntimeError ''Checkpoint capture fence failed; source owners retained''))
          | Inr _ \<Rightarrow>
              seqA (on_world (\<lambda>w. case release_job env (job, w) of (r, (_, w)) \<Rightarrow> (r, w)))
              (add_result (key, CaptureFailed, None, ErrorText e)))))"

definition capture :: "('k, 'c, 'w) worker_env \<Rightarrow> 'c capture_spec \<Rightarrow> nat list \<Rightarrow> nat \<Rightarrow> 'k prefix_state option \<Rightarrow>
    (('k, 'c, 'w) worker_state, unit) act" where
  "capture env spec caches block_size cached =
     (\<lambda>s. let key = (cs_req_id spec, cs_generation spec) in
       case map_of (cw_jobs s) key of
         Some job \<Rightarrow>
           add_result (key, if cj_cancelled job then CaptureFailed else Captured, Some (cj_captured_end job), Because ''duplicate generation'') s
       | None \<Rightarrow>
           (case capture_body env spec (cw_chunk_size s) (length (cw_jobs s)) caches block_size cached
              ((new_job spec (ke_now env (cw_world s)), False), cw_world s) of
            (r, c) \<Rightarrow> settle_capture env key r c s))"

definition cancel_job :: "('k, 'c, 'w) worker_env \<Rightarrow> string \<Rightarrow> int option \<Rightarrow> string \<times> int \<Rightarrow> (('k, 'c, 'w) worker_state, unit) act" where
  "cancel_job env req generation key =
     (if fst key \<noteq> req \<or> (generation \<noteq> None \<and> generation \<noteq> Some (snd key)) then retA ()
      else bindA (on_job key (seqA (writeA (\<lambda>(job, w). (job\<lparr>cj_cancelled := True\<rparr>, w))) (readA fst))) (\<lambda>job.
        if cj_quarantined job then retA ()
        else if cj_future job = NoFuture then drop_job env key else retA ()))"

definition cancel :: "('k, 'c, 'w) worker_env \<Rightarrow> string \<Rightarrow> int option \<Rightarrow> (('k, 'c, 'w) worker_state, unit) act" where
  "cancel env req generation =
     seqA (on_world (ke_forget env req generation))
     (bindA (readA (\<lambda>s. map fst (cw_jobs s))) (eachA (cancel_job env req generation)))"

definition seal_job :: "('k, 'c, 'w) worker_env \<Rightarrow> string \<Rightarrow> int \<Rightarrow> int list \<Rightarrow> (('k, 'c, 'w) worker_state, unit) act" where
  "seal_job env req generation tokens =
     bindA (readA (\<lambda>s. map_of (cw_jobs s) (req, generation))) (\<lambda>found.
     case found of
       None \<Rightarrow> retA ()
     | Some job \<Rightarrow>
         if cj_cancelled job \<or> cj_future job \<noteq> NoFuture then retA ()
         else if \<not> (max (cs_base (cj_spec job)) (cs_prefix_end (cj_spec job)) < int (length tokens) \<and>
                     int (length tokens) \<le> cj_captured_end job)
         then seqA (cancel env req (Some generation))
           (add_result ((req, generation), CaptureFailed, None, Because ''invalid seal frontier''))
         else writeA (\<lambda>s. s\<lparr>cw_jobs := AList.update (req, generation) (job\<lparr>cj_future := Submitted tokens\<rparr>) (cw_jobs s),
                cw_queue := cw_queue s @ [(req, generation)]\<rparr>))"

definition configure_capacity :: "nat \<Rightarrow> (('k, 'c, 'w) worker_state, unit) act" where
  "configure_capacity chunk =
     bindA (readA (\<lambda>s. cw_jobs s \<noteq> [])) (\<lambda>busy.
     if busy then raiseA (RuntimeError ''Cannot resize checkpoint chunks during capture'')
     else writeA (\<lambda>s. s\<lparr>cw_chunk_size := chunk\<rparr>))"

section \<open>Publishing\<close>

text \<open>The pages of one group below the accepted end, with their keys.\<close>

definition published_pages :: "('k, 'c, 'w) worker_env \<Rightarrow> 'c capture_spec \<Rightarrow> int \<Rightarrow> nat \<times> fragment list \<Rightarrow> ('k checkpoint_page \<times> 'k \<times> nat) list" where
  "published_pages env spec stop x = (case x of (g, fragments) \<Rightarrow>
     map (\<lambda>(a, b, page). let key = ke_page_key env spec g a b in
         (\<lparr>cp_start = a, cp_end = min b stop, cp_key = Some key\<rparr>, key, page))
       (filter (\<lambda>(a, _, _). a < stop) fragments))"

definition checkpoint_groups :: "('k, 'c, 'w) worker_env \<Rightarrow> ('k, 'c) capture_job \<Rightarrow> int \<Rightarrow> 'k checkpoint_page list \<times> 'k checkpoint_page list" where
  "checkpoint_groups env job stop =
     (let pages = (\<lambda>g. concat (map (\<lambda>x. map fst (published_pages env (cj_spec job) stop x)) (filter (\<lambda>x. fst x = g) (cj_fragments job))))
      in (sort_key cp_start (cj_prefix_sources job @ pages 0), sort_key cp_start (pages 1)))"

definition publish_local :: "('k, 'c, 'w) worker_env \<Rightarrow> ('k, 'c) capture_job \<Rightarrow> int list \<Rightarrow> ('w, int) act" where
  "publish_local env job tokens =
     bindA (readA (ke_frozen env)) (\<lambda>frozen.
     if frozen then raiseA (ValueError ''checkpoint publication refused while cache is frozen'')
     else let spec = cj_spec job; stop = int (length tokens);
              stored = concat (map (published_pages env spec stop) (cj_fragments job))
       in if cj_cancelled job then retA 0
          else seqA (ke_submit env (rev (map (fst \<circ> snd) stored)) (rev (map (snd \<circ> snd) stored)))
            (seqA (ke_publish env (cs_req_id spec) (cs_generation spec)
              \<lparr>lm_tokens = tokens, lm_prefix_end = cs_prefix_end spec, lm_groups = checkpoint_groups env job stop,
               lm_configs = cs_configs spec, lm_identity = None, lm_retention = None\<rparr>)
            (retA stop)))"

text \<open>The executor's thread: it takes the next submitted job and keeps its result in the future.\<close>

definition run_publisher :: "('k, 'c, 'w) worker_env \<Rightarrow> (('k, 'c, 'w) worker_state, unit) act" where
  "run_publisher env = (\<lambda>s. case cw_queue s of
     [] \<Rightarrow> (Inr (), s)
   | key # queue \<Rightarrow> (case map_of (cw_jobs s) key of
       None \<Rightarrow> (Inr (), s\<lparr>cw_queue := queue\<rparr>)
     | Some job \<Rightarrow> (case cj_future job of
         Submitted tokens \<Rightarrow> (case publish_local env job tokens (cw_world s) of (r, w) \<Rightarrow>
           (Inr (), s\<lparr>cw_queue := queue, cw_jobs := AList.update key (job\<lparr>cj_future := Finished r\<rparr>) (cw_jobs s), cw_world := w\<rparr>))
       | _ \<Rightarrow> (Inr (), s\<lparr>cw_queue := queue\<rparr>))))"

section \<open>Polling and closing\<close>

definition retire_job :: "('k, 'c, 'w) worker_env \<Rightarrow> string \<times> int \<Rightarrow> (('k, 'c, 'w) worker_state, unit) act" where
  "retire_job env key =
     bindA (on_job key (seqA (writeA (\<lambda>(job, w). (job\<lparr>cj_future := NoFuture\<rparr>, w))) (readA fst))) (\<lambda>job.
     seqA (if cj_cancelled job then on_world (ke_forget env (fst key) (Some (snd key))) else retA ())
     (drop_job env key))"

definition poll_job :: "('k, 'c, 'w) worker_env \<Rightarrow> string \<times> int \<Rightarrow> (('k, 'c, 'w) worker_state, unit) act" where
  "poll_job env key =
     bindA (on_job key (readA (\<lambda>(job, w). (job, ke_now env w - cj_started job > ke_timeout env)))) (\<lambda>(job, late).
     if cj_quarantined job then raiseA (RuntimeError ''Checkpoint has an unresolved native transfer'')
     else case cj_future job of
       Finished (Inr stop) \<Rightarrow>
         seqA (if cj_cancelled job then retA () else add_result (key, CheckpointReady, Some stop, NoReason)) (retire_job env key)
     | Finished (Inl e) \<Rightarrow>
         if e = NativeExternalPageTransferUnknownError
         then raiseA (RuntimeError ''Checkpoint DMA completion is unknown; owners quarantined'')
         else seqA (if cj_cancelled job then retA () else add_result (key, CaptureFailed, None, ErrorText e)) (retire_job env key)
     | future \<Rightarrow>
         if late \<and> \<not> cj_cancelled job then
           seqA (on_job key (writeA (\<lambda>(job, w). (job\<lparr>cj_cancelled := True\<rparr>, w))))
           (seqA (add_result (key, CaptureFailed, None, Because ''checkpoint deadline''))
           (if future = NoFuture then drop_job env key else retA ()))
         else retA ())"

definition poll :: "('k, 'c, 'w) worker_env \<Rightarrow> (('k, 'c, 'w) worker_state, checkpoint_result list) act" where
  "poll env =
     bindA (readA (\<lambda>s. ke_fatal env (cw_world s))) (\<lambda>fatal.
     if fatal then raiseA (RuntimeError ''Checkpoint write-back requires restart'')
     else bindA (readA (\<lambda>s. map fst (cw_jobs s))) (\<lambda>keys.
       seqA (eachA (poll_job env) keys)
       (bindA (readA cw_results) (\<lambda>results.
        seqA (writeA (\<lambda>s. s\<lparr>cw_results := []\<rparr>)) (retA results)))))"

text \<open>\<open>shutdown(wait=True)\<close> lets the thread finish what is queued.\<close>

fun drain_publisher :: "('k, 'c, 'w) worker_env \<Rightarrow> nat \<Rightarrow> (('k, 'c, 'w) worker_state, unit) act" where
  "drain_publisher env 0 = retA ()"
| "drain_publisher env (Suc n) = seqA (run_publisher env) (drain_publisher env n)"

definition close_worker :: "('k, 'c, 'w) worker_env \<Rightarrow> (('k, 'c, 'w) worker_state, unit) act" where
  "close_worker env =
     bindA (readA (\<lambda>s. cw_restore_owners s \<noteq> [])) (\<lambda>waiting.
     if waiting then raiseA (RuntimeError ''Checkpoint restores still await all-worker acknowledgement'')
     else bindA (readA (\<lambda>s. map fst (cw_jobs s))) (\<lambda>keys.
       seqA (eachA (\<lambda>key. cancel env (fst key) (Some (snd key))) keys)
       (seqA (on_world (ke_close_store env))
       (bindA (readA (\<lambda>s. length (cw_queue s))) (\<lambda>queued.
        seqA (drain_publisher env queued)
        (bindA (poll env) (\<lambda>_. retA ())))))))"

declare allocate_groups.simps [simp del] stage_range.simps [simp del] stage_chunks.simps [simp del]

end
