(* ===== verification/PreemptionSlots.thy ===== *)
theory PreemptionSlots
  imports PreemptionCapture
begin

text \<open>
  The pinned slots of a capture (\<open>_checkpoint_slots\<close>): NumPy's wrapping arithmetic against the block offsets.
\<close>

section \<open>Slots\<close>

definition slot_of :: "int list \<Rightarrow> nat \<Rightarrow> nat \<Rightarrow> int" where
  "slot_of blocks block_size p = blocks ! (p div block_size) * int block_size + int (p mod block_size)"

lemma wrap64_id: "0 \<le> x \<Longrightarrow> x \<le> int64_max \<Longrightarrow> wrap64 x = x"
  by (simp add: wrap64_def int64_max_def signed_of_int signed_take_bit_int_eq_self)

lemma concat_blocks:
  assumes "0 < n"
  shows "a \<le> b \<Longrightarrow> concat (map (\<lambda>i. map (f i) [0..<n]) [a..<b]) = map (\<lambda>p. f (p div n) (p mod n)) [a * n..<b * n]"
proof (induction b)
  case 0
  then show ?case by simp
next
  case (Suc b)
  show ?case
  proof (cases "a \<le> b")
    case True
    then have "[a * n..<Suc b * n] = [a * n..<b * n] @ [b * n..<b * n + n]"
      by (metis add.commute mult_Suc mult_le_mono1 upt_add_eq_append)
    moreover have "map (\<lambda>p. f (p div n) (p mod n)) [b * n..<b * n + n] = map (f b) [0..<n]"
      using assms by (intro nth_equalityI) auto
    ultimately show ?thesis using Suc True by simp
  next
    case False
    then have "a = Suc b" using Suc by simp
    then show ?thesis by simp
  qed
qed

lemma slices_of_blocks:
  assumes "0 < n" "start < stop"
  shows "take (stop - start) (drop (start mod n) [start div n * n..<(stop + n - 1) div n * n]) = [start..<stop]"
proof -
  have s: "start div n * n + start mod n = start" by (rule div_mult_mod_eq)
  have "stop \<le> (stop + n - 1) div n * n"
  proof -
    have "(stop + n - 1) mod n < n" using assms(1) by simp
    moreover have "(stop + n - 1) div n * n + (stop + n - 1) mod n = stop + n - 1" by simp
    ultimately show ?thesis by linarith
  qed
  then show ?thesis using assms s by (simp add: drop_upt take_upt)
qed

lemma last_block: "0 < n \<Longrightarrow> 0 < stop \<Longrightarrow> (stop + n - 1) div n = Suc ((stop - 1) div n)"
proof -
  assume "0 < n" "0 < stop"
  then have "stop + n - 1 = (stop - 1) + n" by linarith
  then have "(stop + n - 1) div n = ((stop - 1) + n) div n" by (simp only:)
  then show ?thesis using div_add_self2 [of n "stop - 1"] \<open>0 < n\<close> by linarith
qed

lemma slots_fit:
  assumes n: "0 < n" and r: "start < stop" "stop \<le> n * length blocks" and nn: "list_all (\<lambda>i. 0 \<le> i) blocks"
    and ids: "ids = map ((!) blocks) [start div n..<(stop + n - 1) div n]"
  shows "((length ids > 1 \<and> Max (set (butlast ids)) * int n + int n - 1 > int64_max) \<or>
      last ids * int n + int ((stop - 1) mod n) > int64_max) \<longleftrightarrow> \<not> list_all (\<lambda>p. slot_of blocks n p \<le> int64_max) [start..<stop]"
    (is "?l \<or> ?r \<longleftrightarrow> \<not> ?all")
proof -
  define a b where "a = start div n" and "b = (stop - 1) div n"
  have ab: "a \<le> b" using r by (simp add: a_def b_def div_le_mono)
  have ids': "ids = map ((!) blocks) [a..<b] @ [blocks ! b]"
    using ab ids last_block [OF n, of stop] r by (simp add: a_def b_def)
  have last: "last ids = blocks ! b" "butlast ids = map ((!) blocks) [a..<b]" "length ids > 1 \<longleftrightarrow> a < b"
    using ab by (auto simp: ids')
  have mono: "slot_of blocks n p \<le> blocks ! (p div n) * int n + int n - 1" for p
    using n by (simp add: slot_of_def)
  have edge: "slot_of blocks n (k * n + (n - 1)) = blocks ! k * int n + int n - 1" for k
  proof -
    have m: "(n - 1) div n = 0" "(n - 1) mod n = n - 1" using n by simp_all
    have "(k * n + (n - 1)) div n = k" using n m div_mult_self3 [of n k "n - 1"] by linarith
    moreover have "(k * n + (n - 1)) mod n = n - 1" using m mod_mult_self3 [of k n "n - 1"] by linarith
    ultimately show ?thesis using n by (simp add: slot_of_def of_nat_diff)
  qed
  have inside: "k * n + (n - 1) \<in> {start..<stop}" if "k \<in> {a..<b}" for k
  proof -
    have "start div n * n + start mod n = start" "start mod n < n" using n by simp_all
    moreover have "start div n * n \<le> k * n" using that by (auto simp: a_def)
    moreover have "(k + 1) * n \<le> (stop - 1) div n * n" using that by (intro mult_le_mono1) (simp add: b_def)
    moreover have "(stop - 1) div n * n \<le> stop - 1" by simp
    moreover have "(k + 1) * n = k * n + n" by simp
    ultimately have "start \<le> k * n + (n - 1)" "k * n + (n - 1) < stop" using r n by linarith+
    then show ?thesis by simp
  qed
  have l: "?l \<longleftrightarrow> (\<exists>k \<in> {a..<b}. blocks ! k * int n + int n - 1 > int64_max)"
  proof (cases "a < b")
    case True
    then have fin: "finite (set (butlast ids))" "set (butlast ids) \<noteq> {}" by (auto simp: last)
    have "?l \<longleftrightarrow> Max (set (butlast ids)) * int n + int n - 1 > int64_max" using True last by simp
    also have "\<dots> \<longleftrightarrow> (\<exists>x \<in> set (butlast ids). x * int n + int n - 1 > int64_max)"
    proof
      assume "Max (set (butlast ids)) * int n + int n - 1 > int64_max"
      then show "\<exists>x \<in> set (butlast ids). x * int n + int n - 1 > int64_max" using Max_in [OF fin] by blast
    next
      assume "\<exists>x \<in> set (butlast ids). x * int n + int n - 1 > int64_max"
      then obtain x where x: "x \<in> set (butlast ids)" "x * int n + int n - 1 > int64_max" by blast
      have "x * int n \<le> Max (set (butlast ids)) * int n" using Max_ge [OF fin(1) x(1)] by (simp add: mult_right_mono)
      then show "Max (set (butlast ids)) * int n + int n - 1 > int64_max" using x by linarith
    qed
    finally show ?thesis by (auto simp: last)
  qed (use last(3) in simp)
  have at_last: "(stop - 1) \<in> {start..<stop}" "slot_of blocks n (stop - 1) = last ids * int n + int ((stop - 1) mod n)"
    using r by (auto simp: slot_of_def last b_def)
  have below: "slot_of blocks n p \<le> slot_of blocks n (stop - 1)" if "p < stop" "p div n = b" for p
  proof -
    have "p \<le> stop - 1" using that by simp
    have "b * n + p mod n = p" "b * n + (stop - 1) mod n = stop - 1" using div_mult_mod_eq [of p n] div_mult_mod_eq [of "stop - 1" n] that(2) by (simp_all only: b_def)
    then have "p mod n \<le> (stop - 1) mod n" using \<open>p \<le> stop - 1\<close> by linarith
    then show ?thesis using that by (simp add: slot_of_def b_def)
  qed
  show ?thesis
  proof
    assume "?l \<or> ?r"
    then have "\<exists>p \<in> {start..<stop}. slot_of blocks n p > int64_max"
    proof
      assume ?l
      then obtain k where "k \<in> {a..<b}" "blocks ! k * int n + int n - 1 > int64_max" using l by blast
      then show ?thesis using edge [of k] inside [of k] by metis
    next
      assume ?r
      then show ?thesis using at_last by metis
    qed
    then show "\<not> ?all" by (force simp: list_all_iff)
  next
    assume "\<not> ?all"
    then obtain p where p: "start \<le> p" "p < stop" "slot_of blocks n p > int64_max" by (auto simp: list_all_iff)
    show "?l \<or> ?r"
    proof (cases "p div n = b")
      case True
      then show ?thesis using below [OF p(2) True] p at_last by simp
    next
      case False
      have "p div n \<le> b" "a \<le> p div n" using p by (auto simp: b_def a_def div_le_mono)
      then have "p div n \<in> {a..<b}" using False by simp
      moreover have "int64_max < blocks ! (p div n) * int n + int n - 1" using mono [of p] p(3) by linarith
      ultimately show ?thesis using l by blast
    qed
  qed
qed

lemma slice_ids: "k \<le> length xs \<Longrightarrow> take (k - j) (drop j xs) = map ((!) xs) [j..<k]"
  by (intro nth_equalityI) auto

lemma block_ids_fit:
  assumes n: "0 < n" and r: "start < stop" and nn: "list_all (\<lambda>i. 0 \<le> i) ids"
    and ids: "ids = map ((!) blocks) [start div n..<(stop + n - 1) div n]"
    and fit: "list_all (\<lambda>p. slot_of blocks n p \<le> int64_max) [start..<stop]"
  shows "\<not> list_ex (\<lambda>i. i > int64_max \<or> i < - int64_max - 1) ids"
proof -
  have "i \<le> int64_max" if "i \<in> set ids" for i
  proof -
    have "\<exists>k. i = blocks ! k \<and> start div n \<le> k \<and> k \<le> (stop - 1) div n"
    proof -
      have "i \<in> (!) blocks ` {start div n..<Suc ((stop - 1) div n)}"
        using that last_block [OF n, of stop] r unfolding ids by simp
      then show ?thesis by (auto simp: less_Suc_eq_le)
    qed
    then obtain k where k: "i = blocks ! k" "start div n \<le> k" "k \<le> (stop - 1) div n" by blast
    define p where "p = max start (k * n)"
    have "k * n \<le> stop - 1" using k(3) n by (metis div_le_dividend div_times_less_eq_dividend le_trans mult_le_mono1)
    then have "start \<le> p" "p < stop" using r by (auto simp: p_def)
    moreover have "p div n = k"
    proof (cases "start \<le> k * n")
      case True
      then show ?thesis using n by (simp add: p_def max_def)
    next
      case False
      then have "k \<le> start div n" using n by (simp add: less_eq_div_iff_mult_less_eq)
      then show ?thesis using False k(2) by (simp add: p_def max_def)
    qed
    ultimately have "i * int n + int (p mod n) \<le> int64_max"
      using fit k(1) by (auto simp: list_all_iff slot_of_def)
    moreover have "i * 1 \<le> i * int n" using nn that n by (intro mult_left_mono) (auto simp: list_all_iff)
    ultimately show ?thesis by linarith
  qed
  then show ?thesis using nn by (force simp: list_ex_iff list_all_iff int64_max_def)
qed

lemma storage_slice:
  assumes n: "0 < n" and r: "start < stop"
    and ids: "ids = map ((!) blocks) [start div n..<(stop + n - 1) div n]"
  shows "take (stop - start) (drop (start mod n) (concat (map (\<lambda>i. map (\<lambda>j. wrap64 (wrap64 (i * int n) + int j)) [0..<n]) ids))) =
    map (\<lambda>p. wrap64 (wrap64 (blocks ! (p div n) * int n) + int (p mod n))) [start..<stop]"
proof -
  have "concat (map (\<lambda>i. map (\<lambda>j. wrap64 (wrap64 (i * int n) + int j)) [0..<n]) ids) =
      map (\<lambda>p. wrap64 (wrap64 (blocks ! (p div n) * int n) + int (p mod n))) [start div n * n..<(stop + n - 1) div n * n]"
    unfolding ids map_map comp_def
    by (rule concat_blocks [OF n]) (use n r in \<open>simp add: div_le_mono\<close>)
  then show ?thesis by (simp only: drop_map take_map slices_of_blocks [OF n r])
qed

text \<open>C37. The slots of a captured range are exact: for blocks that are not negative and cover the range, the slot of
  every position is its block's base plus its offset, despite NumPy's wrapping arithmetic, and the range is
  refused precisely when one of its slots does not fit a signed 64-bit integer.\<close>

theorem slots_are_block_offsets:
  assumes "0 < block_size" "start < stop" "stop \<le> block_size * length blocks" "list_all (\<lambda>i. 0 \<le> i) blocks"
  shows "if list_all (\<lambda>p. slot_of blocks block_size p \<le> int64_max) [start..<stop]
    then checkpoint_slots blocks start stop block_size = Inr (map (slot_of blocks block_size) [start..<stop])
    else \<exists>m. checkpoint_slots blocks start stop block_size = Inl (OverflowError m)"
proof -
  define ids where "ids = map ((!) blocks) [start div block_size..<(stop + block_size - 1) div block_size]"
  have len: "(stop + block_size - 1) div block_size \<le> length blocks"
  proof -
    have "(stop - 1) div block_size < length blocks"
      using assms by (metis div_less_iff_less_mult less_imp_diff_less less_nat_zero_code linorder_not_less mult.commute not_less_zero order_le_less_trans diff_less gr0I zero_less_one)
    then show ?thesis using last_block [OF assms(1), of stop] assms(2) by simp
  qed
  have ids: "take ((stop + block_size - 1) div block_size - start div block_size) (drop (start div block_size) blocks) = ids"
    unfolding ids_def using len by (rule slice_ids)
  have ne: "ids \<noteq> []" using last_block [OF assms(1), of stop] assms(2) by (simp add: ids_def div_le_mono less_Suc_eq_le)
  have nn: "list_all (\<lambda>i. 0 \<le> i) ids"
    using assms(4) len by (auto simp: ids_def list_all_iff list_all_length)
  note fit = slots_fit [OF assms ids_def]
  define storage where
    "storage = concat (map (\<lambda>i. map (\<lambda>j. wrap64 (wrap64 (i * int block_size) + int j)) [0..<block_size]) ids)"
  note slice = storage_slice [OF assms(1,2) ids_def, folded storage_def]
  have covered: "p div block_size < length blocks" if "p < stop" for p
    using that assms(1,3) by (simp add: div_less_iff_less_mult mult.commute)
  show ?thesis
  proof (cases "list_all (\<lambda>p. slot_of blocks block_size p \<le> int64_max) [start..<stop]")
    case True
    have each: "wrap64 (wrap64 (blocks ! (p div block_size) * int block_size) + int (p mod block_size)) = slot_of blocks block_size p"
      if "start \<le> p" "p < stop" for p
    proof -
      have "0 \<le> blocks ! (p div block_size)" using assms(4) covered [OF that(2)] by (simp add: list_all_length)
      moreover have "slot_of blocks block_size p \<le> int64_max" using True that by (simp add: list_all_iff)
      ultimately show ?thesis by (simp add: slot_of_def wrap64_id)
    qed
    have small: "\<not> list_ex (\<lambda>i. i > int64_max \<or> i < - int64_max - 1) ids"
      by (rule block_ids_fit [OF assms(1,2) nn ids_def True])
    have "checkpoint_slots blocks start stop block_size = Inr (map (slot_of blocks block_size) [start..<stop])"
      unfolding checkpoint_slots_def ids Let_def storage_def [symmetric] slice
      using small ne fit True each by auto
    then show ?thesis using True by simp
  next
    case False
    then show ?thesis
      unfolding checkpoint_slots_def ids Let_def using ne fit by auto
  qed
qed

theorem slots_are_block_offsets_witness:
  "checkpoint_slots [7, 0, 2 ^ 61 - 1] 3 9 4 = Inr [31, 0, 1, 2, 3, 2 ^ 63 - 4]"
  using slots_are_block_offsets [of 4 3 9 "[7, 0, 2 ^ 61 - 1]"]
  by (simp add: slot_of_def int64_max_def upt_conv_Cons)

end
