(* ===== verification/PreemptionStaging.thy ===== *)
theory PreemptionStaging
  imports PreemptionCapture
begin

text \<open>
  The staging loops of a capture: what a successful staging has allocated.
\<close>

section \<open>Staged fragments\<close>

definition fragments_of :: "('k, 'c) capture_job \<Rightarrow> nat \<Rightarrow> fragment list" where
  "fragments_of job g = (case map_of (cj_fragments job) g of None \<Rightarrow> [] | Some fs \<Rightarrow> fs)"

text \<open>Nonempty consecutive fragments from \<open>a\<close> to \<open>b\<close>, each within one chunk.\<close>

fun chain :: "int \<Rightarrow> int \<Rightarrow> fragment list \<Rightarrow> int \<Rightarrow> bool" where
  "chain c a [] b \<longleftrightarrow> a = b"
| "chain c a ((x, y, _) # fs) b \<longleftrightarrow> x = a \<and> x < y \<and> x div c = (y - 1) div c \<and> chain c y fs b"

lemma chain_append: "chain c a (fs @ gs) b \<longleftrightarrow> (\<exists>m. chain c a fs m \<and> chain c m gs b)"
  by (induction c a fs b rule: chain.induct) auto

lemma chain_le: "chain c a fs b \<Longrightarrow> a \<le> b"
  by (induction c a fs b rule: chain.induct) auto

definition both_candidates :: "'c capture_spec \<Rightarrow> int \<Rightarrow> int \<Rightarrow> (nat \<times> fragment) list \<Rightarrow> bool" where
  "both_candidates spec cursor stop candidate \<longleftrightarrow>
     (\<exists>p0 p1. candidate = (if max cursor (cs_resident_start spec) < stop then [(0, max cursor (cs_resident_start spec), stop, p0)] else [])
        @ [(1, cursor, stop, p1)])"

lemma allocate_groups_result:
  assumes "allocate_groups env spec chunk cursor stop gs candidate reclaimed s = (Inr (None, candidate', used), t)"
  shows "\<exists>pages. candidate' = candidate @ map2 (\<lambda>g p. (g, group_start spec g cursor, stop, p)) (filter (\<lambda>g. group_start spec g cursor < stop) gs) pages
    \<and> length pages = length (filter (\<lambda>g. group_start spec g cursor < stop) gs)"
  using assms
proof (induction gs arbitrary: candidate reclaimed s)
  case Nil
  then show ?case by (simp add: act_runs allocate_groups.simps)
next
  case (Cons g gs)
  show ?case
  proof (cases "group_start spec g cursor \<ge> stop")
    case True
    then show ?thesis using Cons by (simp add: allocate_groups.simps)
  next
    case False
    have "\<exists>r u t'. (case r of Inl e \<Rightarrow> retA (Some e, candidate, u)
        | Inr page \<Rightarrow> allocate_groups env spec chunk cursor stop gs (candidate @ [(g, group_start spec g cursor, stop, page)]) u) t' =
        (Inr (None, candidate', used), t)"
      using Cons.prems False by (auto simp: act_runs Let_def allocate_groups.simps)
    then obtain r u t' where
      r: "(case r of Inl e \<Rightarrow> retA (Some e, candidate, u)
        | Inr page \<Rightarrow> allocate_groups env spec chunk cursor stop gs (candidate @ [(g, group_start spec g cursor, stop, page)]) u) t' =
        (Inr (None, candidate', used), t)" by blast
    then obtain page where "r = Inr page" by (cases r) (auto simp: act_runs)
    with r have
      "allocate_groups env spec chunk cursor stop gs (candidate @ [(g, group_start spec g cursor, stop, page)]) u t' = (Inr (None, candidate', used), t)"
      by simp
    from Cons.IH [OF this] obtain pages where
      "candidate' = (candidate @ [(g, group_start spec g cursor, stop, page)]) @
        map2 (\<lambda>g p. (g, group_start spec g cursor, stop, p)) (filter (\<lambda>g. group_start spec g cursor < stop) gs) pages"
      "length pages = length (filter (\<lambda>g. group_start spec g cursor < stop) gs)" by blast
    then show ?thesis using False by (intro exI [of _ "page # pages"]) simp
  qed
qed

lemma allocate_both:
  assumes "allocate_groups env spec chunk cursor stop [0, 1] [] reclaimed s = (Inr (None, candidate, used), t)" "cursor < stop"
  shows "both_candidates spec cursor stop candidate"
proof -
  obtain pages where p: "candidate = map2 (\<lambda>g p. (g, group_start spec g cursor, stop, p)) (filter (\<lambda>g. group_start spec g cursor < stop) [0, 1]) pages"
    "length pages = length (filter (\<lambda>g. group_start spec g cursor < stop) [0, 1])"
    using allocate_groups_result [OF assms(1)] by auto
  have g: "group_start spec 0 cursor = max cursor (cs_resident_start spec)" "group_start spec 1 cursor = cursor"
    by (simp_all add: group_start_def)
  then have g': "group_start spec (Suc 0) cursor = cursor" by simp
  show ?thesis
  proof (cases "max cursor (cs_resident_start spec) < stop")
    case True
    then have "length pages = 2" using p(2) assms(2) by (simp add: g g' del: max_less_iff_conj)
    then obtain p0 p1 where "pages = [p0, p1]" by (auto simp: length_Suc_conv numeral_2_eq_2)
    then show ?thesis using p(1) True assms(2) by (simp add: both_candidates_def g g' del: max_less_iff_conj)
  next
    case False
    then have "length pages = 1" using p(2) assms(2) by (simp add: g g' del: max_less_iff_conj)
    then obtain p1 where "pages = [p1]" by (auto simp: length_Suc_conv)
    then show ?thesis using p(1) False assms(2) by (simp add: both_candidates_def g g' del: max_less_iff_conj)
  qed
qed

lemma stage_range_result:
  assumes "stage_range env spec chunk cursor stop reclaimed s = (Inr (stop', candidate, used), t)" "cursor \<le> stop"
  shows "cursor \<le> stop' \<and> stop' \<le> stop \<and>
    (if stop' = cursor then candidate = [] else both_candidates spec cursor stop' candidate)"
  using assms
proof (induction env spec chunk cursor stop reclaimed arbitrary: s rule: stage_range.induct)
  case (1 env spec chunk cursor stop reclaimed)
  show ?case
  proof (cases "stop \<le> cursor")
    case True
    then show ?thesis using 1(2,3) by (simp add: stage_range.simps [of env spec chunk cursor] act_runs)
  next
    case False
    obtain e cand u t' where a: "allocate_groups env spec chunk cursor stop [0, 1] [] reclaimed s = (Inr (e, cand, u), t')"
      and rest: "(case e of None \<Rightarrow> retA (stop, cand, u)
        | Some e \<Rightarrow> seqA (drop_candidate env cand)
            (if is_memory_error e then stage_range env spec chunk cursor (cursor + (stop - cursor) div 2) u else raiseA e)) t'
         = (Inr (stop', candidate, used), t)"
      using 1(2) False by (auto simp: stage_range.simps [of env spec chunk cursor stop] act_runs)
    show ?thesis
    proof (cases e)
      case None
      then show ?thesis using rest allocate_both [OF a [unfolded None]] False by (auto simp: act_runs)
    next
      case (Some x)
      obtain t2 where mem: "is_memory_error x"
        "stage_range env spec chunk cursor (cursor + (stop - cursor) div 2) u t2 = (Inr (stop', candidate, used), t)"
        using rest Some by (auto simp: act_runs split: if_splits)
      have "cursor \<le> cursor + (stop - cursor) div 2" "cursor + (stop - cursor) div 2 \<le> stop" using False by auto
      then show ?thesis using 1(1) [OF False Some mem] by auto
    qed
  qed
qed

definition staged :: "'c capture_spec \<Rightarrow> int \<Rightarrow> ('k, 'c) capture_job \<Rightarrow> int \<Rightarrow> bool" where
  "staged spec c job cursor \<longleftrightarrow> chain c (cs_base spec) (fragments_of job 1) cursor \<and>
     (if cursor \<le> cs_resident_start spec then fragments_of job 0 = []
      else chain c (cs_resident_start spec) (fragments_of job 0) cursor)"

lemma same_chunk: "0 < c \<Longrightarrow> (x :: int) < y \<Longrightarrow> y \<le> (x div c + 1) * c \<Longrightarrow> x div c = (y - 1) div c"
proof -
  assume c: "0 < c" and y: "x < y" "y \<le> (x div c + 1) * c"
  have "x div c \<le> (y - 1) div c" using c y(1) by (simp add: zdiv_mono1)
  moreover have "(y - 1) div c < x div c + 1"
  proof (rule ccontr)
    assume "\<not> (y - 1) div c < x div c + 1"
    then have "(x div c + 1) * c \<le> (y - 1) div c * c" using c by (intro mult_right_mono) auto
    also have "\<dots> \<le> y - 1" using c pos_mod_sign [of c "y - 1"] div_mult_mod_eq [of "y - 1" c] by linarith
    finally show False using y(2) by linarith
  qed
  ultimately show ?thesis by linarith
qed

lemma staged_range:
  assumes "staged spec c job cursor" "both_candidates spec cursor stop candidate" "0 < c" "cursor < stop"
    "stop \<le> (cursor div c + 1) * c"
  shows "staged spec c (add_fragments candidate job) stop"
proof -
  define r where "r = max cursor (cs_resident_start spec)"
  obtain p0 p1 where c: "candidate = (if r < stop then [(0, r, stop, p0)] else []) @ [(1, cursor, stop, p1)]"
    using assms(2) unfolding both_candidates_def r_def [symmetric] by blast
  have f: "fragments_of (add_fragments candidate job) 0 = fragments_of job 0 @ (if r < stop then [(r, stop, p0)] else [])"
    "fragments_of (add_fragments candidate job) 1 = fragments_of job 1 @ [(cursor, stop, p1)]"
    by (auto simp: c fragments_of_def add_fragments_def update_conv' split: option.split)
  have "chain c cursor [(cursor, stop, p1)] stop" using same_chunk [OF assms(3,4,5)] assms(4) by simp
  moreover have "r \<ge> cursor" by (simp add: r_def)
  moreover have "chain c r [(r, stop, p0)] stop" if "r < stop"
  proof -
    have "cursor div c \<le> r div c" using assms(3) \<open>r \<ge> cursor\<close> by (simp add: zdiv_mono1)
    then have "(cursor div c + 1) * c \<le> (r div c + 1) * c" using assms(3) by (simp add: mult_right_mono)
    then show ?thesis using same_chunk [OF assms(3) that] assms(5) that by simp
  qed
  ultimately show ?thesis
    using assms(1,4) unfolding staged_def f chain_append
    by (cases "cursor \<le> cs_resident_start spec"; cases "stop \<le> cs_resident_start spec") (auto simp: r_def max_def)
qed

lemma add_fragments_keeps: "add_fragments candidate job = job\<lparr>cj_fragments := cj_fragments (add_fragments candidate job)\<rparr>"
proof -
  have "\<exists>x. add_fragments candidate j = j\<lparr>cj_fragments := x\<rparr>" for j :: "('k, 'c) capture_job"
  proof (induction candidate arbitrary: j)
    case Nil
    have "add_fragments [] j = j\<lparr>cj_fragments := cj_fragments j\<rparr>" by (simp add: add_fragments_def)
    then show ?case by (rule exI)
  next
    case (Cons x candidate)
    obtain g f where x: "x = (g, f)" by (cases x)
    define j' where "j' = j\<lparr>cj_fragments := AList.update g
     ((case map_of (cj_fragments j) g of None \<Rightarrow> [] | Some fs \<Rightarrow> fs) @ [f]) (cj_fragments j)\<rparr>"
    have "add_fragments (x # candidate) j = add_fragments candidate j'" by (simp add: add_fragments_def x j'_def)
    then show ?case using Cons [of j'] by (auto simp: j'_def)
  qed
  then obtain x where "add_fragments candidate job = job\<lparr>cj_fragments := x\<rparr>" by blast
  then show ?thesis by simp
qed

lemma stage_chunks_result:
  assumes "stage_chunks env spec chunk cursor reclaimed (job, w) = (Inr cursor', (job', w'))"
    "staged spec (int chunk) job cursor" "cursor \<le> cs_end spec"
  shows "staged spec (int chunk) job' cursor' \<and> cursor \<le> cursor' \<and> cursor' \<le> cs_end spec \<and>
    job' = job\<lparr>cj_fragments := cj_fragments job'\<rparr>"
  using assms
proof (induction env spec chunk cursor reclaimed arbitrary: job w rule: stage_chunks.induct)
  case (1 env spec chunk cursor reclaimed)
  show ?case
  proof (cases "cs_end spec \<le> cursor")
    case True
    then show ?thesis using 1(2,3,4) by (simp add: stage_chunks.simps [of env spec chunk cursor] act_runs)
  next
    case False
    define desired where "desired = min (cs_end spec) ((cursor div int chunk + 1) * int chunk)"
    have c0: "chunk \<noteq> 0" 
    proof
      assume "chunk = 0"
      then show False using 1(2) False by (simp add: stage_chunks.simps [of env spec 0 cursor] act_runs)
    qed
    have next_le: "cursor < desired" using False next_chunk [of "int chunk" cursor] c0 by (simp add: desired_def)
    obtain stop candidate used w2 where r: "stage_range env spec (int chunk) cursor desired reclaimed w = (Inr (stop, candidate, used), w2)"
      and rest: "(if stop \<noteq> desired then retA (if stop > cursor then stop else cursor)
         else stage_chunks env spec chunk desired used) (add_fragments candidate job, w2) = (Inr cursor', (job', w'))"
      using 1(2) False c0 unfolding stage_chunks.simps [of env spec chunk cursor]
      by (auto simp: act_runs innerA_def desired_def [symmetric] Let_def split: prod.splits)
    have res: "cursor \<le> stop" "stop \<le> desired" "if stop = cursor then candidate = [] else both_candidates spec cursor stop candidate"
      using stage_range_result [OF r] next_le by auto
    note keep = add_fragments_keeps [of candidate job]
    have staged': "staged spec (int chunk) (add_fragments candidate job) stop"
    proof (cases "stop = cursor")
      case True
      then show ?thesis using res(3) 1(3) by (simp add: add_fragments_def)
    next
      case ne: False
      show ?thesis
        by (rule staged_range [OF 1(3)]) (use res ne c0 in \<open>auto simp: desired_def\<close>)
    qed
    show ?thesis
    proof (cases "stop = desired")
      case True
      have run: "stage_chunks env spec chunk desired used (add_fragments candidate job, w2) = (Inr cursor', (job', w'))"
        using rest True by simp
      have "desired \<le> cs_end spec" by (simp add: desired_def)
      have "staged spec (int chunk) job' cursor' \<and> desired \<le> cursor' \<and> cursor' \<le> cs_end spec \<and>
          job' = (add_fragments candidate job)\<lparr>cj_fragments := cj_fragments job'\<rparr>"
        by (rule 1(1) [OF False c0 desired_def _ run]) (use True staged' \<open>desired \<le> cs_end spec\<close> in auto)
      moreover from this have "job' = job\<lparr>cj_fragments := cj_fragments job'\<rparr>"
        by (subst (asm) keep) simp
      ultimately show ?thesis using next_le by simp
    next
      case ne: False
      then have "cursor' = stop" "job' = add_fragments candidate job" using rest res(1) by (auto simp: act_runs split: if_splits)
      then show ?thesis using staged' res keep by (auto simp: desired_def)
    qed
  qed
qed

end
