(* ===== verification/PreemptionReferences.thy ===== *)
theory PreemptionReferences
  imports PreemptionStaging CheckpointReferences
begin

text \<open>
  The references of the checkpoint worker (\<open>preemption_checkpoint.py\<close>): no operation loses or invents a page
  of the jobs and of the restores.
\<close>

section \<open>References of a capture\<close>

text \<open>
  What the worker relies on: allocating gives one reference, a prefix one to each page it returns, giving
  back takes one and does not raise, and the other methods change no count (a cache that stores a page
  counts its own reference).
\<close>

definition worker_counts :: "('k, 'c, 'w) worker_env \<Rightarrow> ('w \<Rightarrow> nat \<Rightarrow> int) \<Rightarrow> bool" where
  "worker_counts env refs \<longleftrightarrow>
     (\<forall>ks. refs.changes refs (ke_prefix env ks) (\<lambda>_. 0) (\<lambda>(ps, n) p. int (count_list ps p))) \<and>
     (\<forall>g p. refs.changes refs (ke_validate env g p) (\<lambda>_. 0) (\<lambda>_ _. 0)) \<and>
     (\<forall>g. refs.changes refs (ke_prepare_allocator env g) (\<lambda>_. 0) (\<lambda>_ _. 0)) \<and>
     (\<forall>g n. refs.changes refs (ke_allocate env g n) (\<lambda>_. 0) once) \<and>
     (\<forall>n gs. refs.changes refs (ke_reclaim env n gs) (\<lambda>_. 0) (\<lambda>_ _. 0)) \<and>
     (\<forall>q s. fst (ke_down env q s) = Inr ()) \<and>
     (\<forall>q s p. refs (snd (ke_down env q s)) p = refs s p - once q p) \<and>
     (\<forall>g fs sl. refs.changes refs (ke_prepare env g fs sl) (\<lambda>_. 0) (\<lambda>_ _. 0)) \<and>
     (\<forall>x. refs.changes refs (ke_enqueue env x) (\<lambda>_. 0) (\<lambda>_ _. 0)) \<and>
     (\<forall>x. refs.changes refs (ke_synchronize env x) (\<lambda>_. 0) (\<lambda>_ _. 0)) \<and>
     refs.changes refs (ke_finish_capture env) (\<lambda>_. 0) (\<lambda>_ _. 0) \<and>
     (\<forall>ks ps. refs.changes refs (ke_submit env ks ps) (\<lambda>_. 0) (\<lambda>_ _. 0)) \<and>
     (\<forall>r g m. refs.changes refs (ke_publish env r g m) (\<lambda>_. 0) (\<lambda>_ _. 0)) \<and>
     (\<forall>r g. refs.changes refs (ke_forget env r g) (\<lambda>_. 0) (\<lambda>_ _. 0)) \<and>
     (\<forall>k l e. refs.changes refs (ke_restore_event env k l e) (\<lambda>_. 0) (\<lambda>_ _. 0)) \<and>
     refs.changes refs (ke_close_store env) (\<lambda>_. 0) (\<lambda>_ _. 0)"

lemma worker_counts_rules:
  assumes "worker_counts env refs"
  shows "refs.changes refs (ke_prefix env ks) (\<lambda>_. 0) (\<lambda>(ps, n) p. int (count_list ps p))"
    "refs.changes refs (ke_validate env g q) (\<lambda>_. 0) (\<lambda>_ _. 0)"
    "refs.changes refs (ke_prepare_allocator env g) (\<lambda>_. 0) (\<lambda>_ _. 0)"
    "refs.changes refs (ke_allocate env g n) (\<lambda>_. 0) once"
    "refs.changes refs (ke_reclaim env n gs) (\<lambda>_. 0) (\<lambda>_ _. 0)"
    "refs.changes refs (ke_prepare env g fs sl) (\<lambda>_. 0) (\<lambda>_ _. 0)"
    "refs.changes refs (ke_enqueue env x) (\<lambda>_. 0) (\<lambda>_ _. 0)"
    "refs.changes refs (ke_synchronize env x) (\<lambda>_. 0) (\<lambda>_ _. 0)"
    "refs.changes refs (ke_finish_capture env) (\<lambda>_. 0) (\<lambda>_ _. 0)"
    "refs.changes refs (ke_submit env ks' ps) (\<lambda>_. 0) (\<lambda>_ _. 0)"
    "refs.changes refs (ke_publish env r g' m) (\<lambda>_. 0) (\<lambda>_ _. 0)"
    "refs.changes refs (ke_forget env r go) (\<lambda>_. 0) (\<lambda>_ _. 0)"
    "refs.changes refs (ke_restore_event env k l e) (\<lambda>_. 0) (\<lambda>_ _. 0)"
    "refs.changes refs (ke_close_store env) (\<lambda>_. 0) (\<lambda>_ _. 0)"
  using assms unfolding worker_counts_def by metis+

lemma down_counts:
  assumes "worker_counts env refs"
  obtains t where "ke_down env q s = (Inr (), t)" "\<And>p. refs t p = refs s p - once q p"
  using assms unfolding worker_counts_def by (metis prod.collapse)

lemma each_down:
  assumes "worker_counts env refs"
  shows "\<exists>t. eachA (ke_down env) qs s = (Inr (), t) \<and> (\<forall>p. refs t p = refs s p - int (count_list qs p))"
proof (induction qs arbitrary: s)
  case Nil
  then show ?case by (simp add: retA_def)
next
  case (Cons q qs)
  obtain u where u: "ke_down env q s = (Inr (), u)" "\<And>p. refs u p = refs s p - once q p" using down_counts [OF assms] by blast
  from Cons [of u] obtain t where "eachA (ke_down env) qs u = (Inr (), t)" "\<forall>p. refs t p = refs u p - int (count_list qs p)" by blast
  then show ?case using u by (intro exI [of _ t]) (auto simp: seqA_def bindA_def once_def)
qed

lemma changes_zero_iff: "refs.changes f m (\<lambda>_. 0) (\<lambda>_ _. 0) \<longleftrightarrow> (\<forall>s p. f (snd (m s)) p = f s p)"
  unfolding refs.changes_def by (auto split: sum.split)

lemma zero_bind': "refs.changes f m (\<lambda>_. 0) (\<lambda>_ _. 0) \<Longrightarrow> (\<And>x. refs.changes f (k x) (\<lambda>_. 0) (\<lambda>_ _. 0)) \<Longrightarrow>
    refs.changes f (bindA m k) (\<lambda>_. 0) (\<lambda>_ _. 0)"
  by (rule refs.changes_bind) auto

lemma zero_seq': "refs.changes f m (\<lambda>_. 0) (\<lambda>_ _. 0) \<Longrightarrow> refs.changes f k (\<lambda>_. 0) (\<lambda>_ _. 0) \<Longrightarrow>
    refs.changes f (seqA m k) (\<lambda>_. 0) (\<lambda>_ _. 0)"
  unfolding seqA_def by (rule zero_bind')

lemma zero_attempt: "refs.changes f m (\<lambda>_. 0) (\<lambda>_ _. 0) \<Longrightarrow> refs.changes f (attemptA m) (\<lambda>_. 0) (\<lambda>_ _. 0)"
  unfolding changes_zero_iff attemptA_def by (auto split: prod.split) (metis snd_conv)

lemma zero_leaf:
  "refs.changes f (retA x) (\<lambda>_. 0) (\<lambda>_ _. 0)" "refs.changes f (raiseA e) (\<lambda>_. 0) (\<lambda>_ _. 0)"
  "refs.changes f (readA g) (\<lambda>_. 0) (\<lambda>_ _. 0)" "refs.changes f (liftA r) (\<lambda>_. 0) (\<lambda>_ _. 0)"
  by (simp_all add: changes_zero_iff act_defs)

lemma zero_write: "(\<And>s p. f (h s) p = f s p) \<Longrightarrow> refs.changes f (writeA h) (\<lambda>_. 0) (\<lambda>_ _. 0)"
  by (simp add: changes_zero_iff writeA_def)

lemmas zero_intros = zero_leaf zero_bind' zero_seq' zero_attempt refs.changes_if refs.changes_case_option
  refs.changes_case_res refs.changes_each

text \<open>A world beside something that owns pages.\<close>

definition beside :: "('l \<Rightarrow> nat \<Rightarrow> int) \<Rightarrow> ('w \<Rightarrow> nat \<Rightarrow> int) \<Rightarrow> 'l \<times> 'w \<Rightarrow> nat \<Rightarrow> int" where
  "beside owned refs x p = refs (snd x) p - owned (fst x) p"

lemma inner_changes: "refs.changes refs m lost gained \<Longrightarrow> refs.changes (beside owned refs) (innerA m) lost gained"
  unfolding refs.changes_def beside_def innerA_def by (auto split: prod.split sum.splits) (metis fst_conv snd_conv sum.case)+

definition candidate_count :: "(nat \<times> fragment) list \<Rightarrow> nat \<Rightarrow> int" where
  "candidate_count c p = int (count_list (map (\<lambda>(_, _, _, q). q) c) p)"

lemma candidate_count_simps [simp]: "candidate_count [] p = 0"
  "candidate_count ((g, a, b, q) # c) p = once q p + candidate_count c p"
  "candidate_count (c @ c') p = candidate_count c p + candidate_count c' p"
  by (auto simp: candidate_count_def once_def)

lemma allocate_fragment_counts:
  assumes e: "worker_counts env refs"
  shows "refs.changes refs (allocate_fragment env chunk g tokens) (\<lambda>_. 0) once"
  unfolding allocate_fragment_def by (rule refs.changes_if [OF refs.changes_raise worker_counts_rules(4) [OF e]]) simp

lemma reclaim_fragment_counts:
  assumes e: "worker_counts env refs"
  shows "refs.changes refs (reclaim_fragment env chunk g tokens width candidate reclaimed) lost
    (\<lambda>(r, _) p. case r of Inl _ \<Rightarrow> 0 | Inr q \<Rightarrow> once q p)"
proof -
  have retry: "refs.changes refs (bindA (ke_reclaim env width (missing_groups g candidate)) (\<lambda>freed.
      if \<not> freed then raiseA x else allocate_fragment env chunk g tokens)) (\<lambda>_. 0) once" for x
    by (rule refs.changes_bind [OF worker_counts_rules(5) [OF e]])
      (auto intro!: refs.changes_raise refs.changes_cong [OF allocate_fragment_counts [OF e]])
  show ?thesis unfolding reclaim_fragment_def
    apply (rule refs.changes_bind [OF refs.changes_attempt [OF allocate_fragment_counts [OF e]]])
    apply (rule refs.changes_case_res)
     apply (rule refs.changes_if)
      apply (rule refs.changes_ret, simp)
     apply (rule refs.changes_bind [OF refs.changes_attempt [OF retry]])
     apply (rule refs.changes_ret, simp split: sum.split)
    apply (rule refs.changes_ret, simp)
    done
qed

lemma allocate_groups_counts:
  assumes e: "worker_counts env refs"
  shows "refs.changes refs (allocate_groups env spec chunk cursor stop gs candidate reclaimed) lost
    (\<lambda>(_, c, _) p. candidate_count c p - candidate_count candidate p)"
proof (induction gs arbitrary: candidate reclaimed lost)
  case Nil
  then show ?case by (simp add: allocate_groups.simps refs.changes_ret)
next
  case (Cons g gs)
  show ?case unfolding allocate_groups.simps Let_def
    apply (rule refs.changes_if [OF Cons])
    apply (rule refs.changes_bind [OF reclaim_fragment_counts [OF e]])
    apply (simp only: split_paired_all prod.case)
    apply (rule refs.changes_case_res)
     apply (rule refs.changes_ret, simp)
    apply (rule refs.changes_cong [OF Cons], simp_all split: prod.split)
    done
qed

lemma drop_candidate_counts:
  assumes e: "worker_counts env refs"
  shows "\<exists>t. drop_candidate env c s = (Inr (), t) \<and> (\<forall>p. refs t p = refs s p - candidate_count c p)"
proof -
  have "drop_candidate env c = eachA (ke_down env) (map (\<lambda>(_, _, _, q). q) c)"
    unfolding drop_candidate_def by (induction c) auto
  then show ?thesis using each_down [OF e] by (simp add: candidate_count_def)
qed

lemma stage_range_counts:
  assumes e: "worker_counts env refs"
  shows "refs.changes refs (stage_range env spec chunk cursor stop reclaimed) (\<lambda>_. 0) (\<lambda>(_, c, _). candidate_count c)"
  using e
proof (induction env spec chunk cursor stop reclaimed rule: stage_range.induct)
  case (1 env spec chunk cursor stop reclaimed)
  have drop: "refs.changes refs (drop_candidate env c) (\<lambda>p. - candidate_count c p) (\<lambda>_ p. - candidate_count c p)" for c
    unfolding refs.changes_def using drop_candidate_counts [OF 1(2), of c] by (metis add_uminus_conv_diff fst_conv snd_conv sum.case(2))
  show ?case
    apply (subst stage_range.simps)
    apply (rule refs.changes_if)
     apply (rule refs.changes_ret, simp)
    apply (rule refs.changes_bind [OF allocate_groups_counts [OF 1(2)]])
    apply (simp only: split_paired_all prod.case)
    apply (rule refs.changes_case_option)
     apply (rule refs.changes_ret, simp)
    apply (rule refs.changes_seq [OF drop [THEN refs.changes_cong]])
      apply simp
     apply (rule refl)
    apply (rule refs.changes_if)
     apply (rule refs.changes_cong [OF 1(1)])
          apply (simp_all add: 1(2) split: prod.split)
    apply (rule refs.changes_raise, simp)
    done
qed

text \<open>What a job owns.\<close>

definition job_count :: "('k, 'c) capture_job \<Rightarrow> nat \<Rightarrow> int" where
  "job_count job p = int (count_list (job_pages job @ cj_prefix_owners job) p)"

lemma fragments_append:
  "int (count_list (concat (map (\<lambda>(_, fs). map (\<lambda>(_, _, p). p) fs)
      (AList.update g ((case map_of d g of None \<Rightarrow> [] | Some fs \<Rightarrow> fs) @ [(a, b, q)]) d))) p) =
    int (count_list (concat (map (\<lambda>(_, fs). map (\<lambda>(_, _, p). p) fs) d)) p) + once q p"
  by (induction d) (auto simp: once_def)

lemma add_fragments_counts: "job_count (add_fragments c job) p = job_count job p + candidate_count c p"
proof (induction c arbitrary: job)
  case Nil
  then show ?case by (simp add: add_fragments_def)
next
  case (Cons x c)
  obtain g a b q where x: "x = (g, a, b, q)" by (metis surj_pair)
  define j where "j = job\<lparr>cj_fragments := AList.update g
    ((case map_of (cj_fragments job) g of None \<Rightarrow> [] | Some fs \<Rightarrow> fs) @ [(a, b, q)]) (cj_fragments job)\<rparr>"
  have "add_fragments (x # c) job = add_fragments c j" by (simp add: add_fragments_def x j_def)
  moreover have "job_count j p = job_count job p + once q p"
    using fragments_append [of g "cj_fragments job" a b q p] by (simp add: job_count_def job_pages_def j_def)
  ultimately show ?case using Cons [of j] by (simp add: x)
qed

lemma stage_chunks_counts:
  assumes e: "worker_counts env refs"
  shows "refs.changes (beside job_count refs) (stage_chunks env spec chunk cursor reclaimed) (\<lambda>_. 0) (\<lambda>_ _. 0)"
  using e
proof (induction env spec chunk cursor reclaimed rule: stage_chunks.induct)
  case (1 env spec chunk cursor reclaimed)
  show ?case unfolding stage_chunks.simps [of env spec chunk cursor] Let_def
    apply (rule refs.changes_if)
     apply (rule refs.changes_ret, simp)
    apply (rule refs.changes_if)
     apply (rule refs.changes_raise, simp)
    apply (rule refs.changes_bind [OF inner_changes [OF stage_range_counts [OF 1(2)]]])
    apply (simp only: split_paired_all prod.case)
    apply (rule refs.changes_seq [OF refs.changes_write])
     apply (simp add: split_paired_all beside_def add_fragments_counts)
    apply (rule refs.changes_cong [where lost = "\<lambda>_. 0" and gained = "\<lambda>_ _. 0"])
      apply (rule refs.changes_if)
       apply (rule refs.changes_ret, simp)
      apply (rule 1(1))
           apply (simp_all add: 1(2))
    done
qed

definition capture_count :: "('k, 'c) capture_job \<times> bool \<Rightarrow> nat \<Rightarrow> int" where
  "capture_count x = job_count (fst x)"

lemma update_job_zero: "(\<And>j. job_count (f j) = job_count j) \<Longrightarrow>
    refs.changes (beside capture_count refs) (update_job f) (\<lambda>_. 0) (\<lambda>_ _. 0)"
  unfolding update_job_def by (rule zero_write) (auto simp: beside_def capture_count_def)

lemma same_pages: "job_pages j' = job_pages j \<Longrightarrow> cj_prefix_owners j' = cj_prefix_owners j \<Longrightarrow> job_count j' = job_count j"
  by (simp add: job_count_def fun_eq_iff)

lemma hold_prefix_counts:
  assumes e: "worker_counts env refs"
  shows "refs.changes (beside capture_count refs) (hold_prefix_page env src) (\<lambda>_. 0) (\<lambda>_ _. 0)"
  unfolding hold_prefix_page_def
  apply (rule refs.changes_bind [OF inner_changes [OF worker_counts_rules(1) [OF e]]])
  apply (simp only: split_paired_all prod.case update_job_def)
  apply (rule refs.changes_seq [OF refs.changes_write])
   apply (simp add: split_paired_all beside_def capture_count_def job_count_def job_pages_def)
  apply (rule refs.changes_cong [where lost = "\<lambda>_. 0" and gained = "\<lambda>_ _. 0"])
    apply (rule refs.changes_if)
     apply (rule refs.changes_ret, simp)
    subgoal for pages n by (cases pages) (simp_all add: zero_leaf inner_changes [OF worker_counts_rules(2) [OF e]])
   apply simp_all
  done

lemma admit_counts:
  assumes e: "worker_counts env refs"
  shows "refs.changes (beside capture_count refs) (admit_capture env spec jobs caches block_size cached) (\<lambda>_. 0) (\<lambda>_ _. 0)"
proof -
  have allocators: "refs.changes (beside capture_count refs) (prepare_allocators env spec) (\<lambda>_. 0) (\<lambda>_ _. 0)"
    unfolding prepare_allocators_def
    by (rule refs.changes_each, rule refs.changes_if) (auto intro!: inner_changes worker_counts_rules(3) [OF e] refs.changes_ret)
  have cached: "refs.changes (beside capture_count refs) (capture_prefix env spec cached) (\<lambda>_. 0) (\<lambda>_ _. 0)"
    unfolding capture_prefix_def
    by (intro zero_intros update_job_zero hold_prefix_counts [OF e] same_pages) (simp_all add: job_pages_def)
  show ?thesis unfolding admit_capture_def by (intro zero_intros allocators cached)
qed

lemma enqueue_counts:
  assumes e: "worker_counts env refs"
  shows "refs.changes refs (enqueue_plans env plans events) (\<lambda>_. 0) (\<lambda>_ _. 0)"
proof (induction plans arbitrary: events)
  case Nil
  then show ?case by (simp add: zero_leaf)
next
  case (Cons x plans)
  show ?case unfolding enqueue_plans.simps by (rule zero_bind' [OF worker_counts_rules(7) [OF e] Cons])
qed

lemma run_capture_counts:
  assumes e: "worker_counts env refs"
  shows "refs.changes (beside capture_count refs) (run_capture env spec block_size) (\<lambda>_. 0) (\<lambda>_ _. 0)"
proof -
  have plan: "refs.changes (beside capture_count refs) (plan_group env spec block_size x) (\<lambda>_. 0) (\<lambda>_ _. 0)" for x
  proof (cases x)
    case (Pair g fs)
    show ?thesis unfolding plan_group_def Pair prod.case
      by (intro zero_intros zero_write update_job_zero same_pages inner_changes worker_counts_rules(6) [OF e])
        (auto simp: beside_def capture_count_def job_pages_def)
  qed
  show ?thesis unfolding run_capture_def
    by (intro zero_intros plan inner_changes enqueue_counts [OF e] worker_counts_rules(8) [OF e] update_job_zero same_pages)
      (simp_all add: job_pages_def)
qed

lemma stage_capture_counts:
  assumes e: "worker_counts env refs"
  shows "refs.changes (beside capture_count refs) (stage_capture env spec chunk) (\<lambda>_. 0) (\<lambda>_ _. 0)"
proof -
  have inner: "refs.changes (beside capture_count refs) (\<lambda>((job, started), w).
      case stage_chunks env spec chunk (cs_base spec) False (job, w) of (r, (job, w)) \<Rightarrow> (r, ((job, started), w))) (\<lambda>_. 0) (\<lambda>_ _. 0)"
    unfolding changes_zero_iff
  proof (intro allI)
    fix s :: "('a, 'b, 'c) capture_state" and p
    obtain job started w where s: "s = ((job, started), w)" by (metis surj_pair)
    obtain r job' w' where r: "stage_chunks env spec chunk (cs_base spec) False (job, w) = (r, (job', w'))" by (metis surj_pair)
    have "beside job_count refs (snd (stage_chunks env spec chunk (cs_base spec) False (job, w))) p = beside job_count refs (job, w) p"
      using stage_chunks_counts [OF e, of spec chunk "cs_base spec" False] unfolding changes_zero_iff by blast
    then show "beside capture_count refs (snd ((\<lambda>((job, started), w).
        case stage_chunks env spec chunk (cs_base spec) False (job, w) of (r, (job, w)) \<Rightarrow> (r, ((job, started), w))) s)) p =
      beside capture_count refs s p"
      by (simp add: s r beside_def capture_count_def)
  qed
  show ?thesis unfolding stage_capture_def
    by (intro zero_intros inner update_job_zero same_pages) (simp_all add: job_pages_def)
qed

lemma capture_body_counts:
  assumes "worker_counts env refs"
  shows "refs.changes (beside capture_count refs) (capture_body env spec chunk jobs caches block_size cached) (\<lambda>_. 0) (\<lambda>_ _. 0)"
  unfolding capture_body_def
  by (intro zero_intros admit_counts [OF assms] stage_capture_counts [OF assms] run_capture_counts [OF assms])

section \<open>References of the worker\<close>

definition owned_pages :: "('k, 'c, 'w) worker_state \<Rightarrow> nat \<Rightarrow> int" where
  "owned_pages s p = dict_total (\<lambda>job. job_count job p) (cw_jobs s) + dict_total (\<lambda>ps. int (count_list ps p)) (cw_restore_owners s)"

definition unowned :: "('w \<Rightarrow> nat \<Rightarrow> int) \<Rightarrow> ('k, 'c, 'w) worker_state \<Rightarrow> nat \<Rightarrow> int" where
  "unowned refs s p = refs (cw_world s) p - owned_pages s p"

lemmas unowned_defs = unowned_def owned_pages_def

lemma on_world_counts: "refs.changes refs m lost gained \<Longrightarrow> refs.changes (unowned refs) (on_world m) lost gained"
  unfolding refs.changes_def unowned_defs on_world_def by (auto split: prod.split sum.splits) (metis fst_conv snd_conv sum.case)+

lemma on_job_counts:
  assumes "refs.changes (beside job_count refs) m (\<lambda>_. 0) (\<lambda>_ _. 0)"
  shows "refs.changes (unowned refs) (on_job key m) (\<lambda>_. 0) (\<lambda>_ _. 0)"
  unfolding changes_zero_iff
proof (intro allI)
  fix s p
  show "unowned refs (snd (on_job key m s)) p = unowned refs s p"
  proof (cases "map_of (cw_jobs s) key")
    case None
    then show ?thesis by (simp add: on_job_def)
  next
    case (Some job)
    obtain r job' w where m: "m (job, cw_world s) = (r, (job', w))" by (metis surj_pair)
    have "refs w p - job_count job' p = refs (cw_world s) p - job_count job p"
      using assms m unfolding changes_zero_iff beside_def by (metis fst_conv snd_conv)
    then show ?thesis using Some m by (simp add: on_job_def unowned_defs dict_total_update)
  qed
qed

lemma release_job_result:
  assumes e: "worker_counts env refs"
  shows "\<exists>job' w'. release_job env (job, w) = (Inr (), (job', w')) \<and> (\<forall>p. refs w' p - job_count job' p = refs w p - job_count job p) \<and>
    (if cj_quarantined job then job' = job \<and> w' = w
     else job' = job\<lparr>cj_fragments := [], cj_plans := [], cj_prefix_owners := []\<rparr>)"
proof (cases "cj_quarantined job")
  case True
  then show ?thesis by (simp add: release_job_def act_defs)
next
  case False
  obtain w1 where w1: "eachA (ke_down env) (job_pages job) w = (Inr (), w1)"
    "\<forall>p. refs w1 p = refs w p - int (count_list (job_pages job) p)" using each_down [OF e] by blast
  obtain w2 where w2: "eachA (ke_down env) (cj_prefix_owners job) w1 = (Inr (), w2)"
    "\<forall>p. refs w2 p = refs w1 p - int (count_list (cj_prefix_owners job) p)" using each_down [OF e] by blast
  have "release_job env (job, w) = (Inr (), (job\<lparr>cj_fragments := [], cj_plans := [], cj_prefix_owners := []\<rparr>, w2))"
    using False w1(1) w2(1) by (simp add: release_job_def act_defs innerA_def)
  then show ?thesis using False w1(2) w2(2) by (simp add: job_count_def job_pages_def)
qed

lemma drop_job_result:
  assumes e: "worker_counts env refs" and j: "map_of (cw_jobs s) key = Some job" "\<not> cj_quarantined job"
  shows "unowned refs (snd (drop_job env key s)) p = unowned refs s p"
proof -
  obtain job' w' where r: "release_job env (job, cw_world s) = (Inr (), (job', w'))"
    "\<forall>p. refs w' p - job_count job' p = refs (cw_world s) p - job_count job p"
    "job' = job\<lparr>cj_fragments := [], cj_plans := [], cj_prefix_owners := []\<rparr>"
    using release_job_result [OF e, of job "cw_world s"] j(2) by auto
  have zero: "job_count job' p = 0" by (simp add: r(3) job_count_def job_pages_def)
  show ?thesis
    using spec [OF r(2), of p] zero by (simp add: drop_job_def on_job_def j(1) r(1) act_defs unowned_defs dict_total_delete dict_total_update update_conv')
qed

lemma add_result_zero: "refs.changes (unowned refs) (add_result r) (\<lambda>_. 0) (\<lambda>_ _. 0)"
  unfolding add_result_def by (rule zero_write) (simp add: unowned_defs)

lemma cancel_job_counts:
  assumes e: "worker_counts env refs"
  shows "refs.changes (unowned refs) (cancel_job env req generation key) (\<lambda>_. 0) (\<lambda>_ _. 0)"
  unfolding changes_zero_iff
proof (intro allI)
  fix s :: "('a, 'b, 'c) worker_state" and p
  show "unowned refs (snd (cancel_job env req generation key s)) p = unowned refs s p"
  proof (cases "map_of (cw_jobs s) key")
    case None
    then show ?thesis by (simp add: cancel_job_def act_defs on_job_def)
  next
    case (Some job)
    define s1 where "s1 = s\<lparr>cw_jobs := AList.update key (job\<lparr>cj_cancelled := True\<rparr>) (cw_jobs s)\<rparr>"
    have m: "map_of (cw_jobs s1) key = Some (job\<lparr>cj_cancelled := True\<rparr>)" by (simp add: s1_def update_conv')
    have "unowned refs s1 p = unowned refs s p"
      by (simp add: s1_def unowned_defs dict_total_update Some same_pages [of "job\<lparr>cj_cancelled := True\<rparr>" job] job_pages_def)
    moreover have w: "s1\<lparr>cw_world := cw_world s\<rparr> = s1" by (simp add: s1_def)
    ultimately show ?thesis using drop_job_result [OF e m]
      by (simp add: cancel_job_def act_defs on_job_def Some w flip: s1_def)
  qed
qed

lemma cancel_counts:
  assumes e: "worker_counts env refs"
  shows "refs.changes (unowned refs) (cancel env req generation) (\<lambda>_. 0) (\<lambda>_ _. 0)"
  unfolding cancel_def
  by (intro zero_intros on_world_counts worker_counts_rules(12) [OF e] cancel_job_counts [OF e])

lemma seal_counts:
  assumes e: "worker_counts env refs"
  shows "refs.changes (unowned refs) (seal_job env req generation tokens) (\<lambda>_. 0) (\<lambda>_ _. 0)"
  unfolding changes_zero_iff
proof (intro allI)
  fix s :: "('a, 'b, 'c) worker_state" and p
  have bad: "refs.changes (unowned refs) (seqA (cancel env req (Some generation)) (add_result r)) (\<lambda>_. 0) (\<lambda>_ _. 0)" for r
    by (intro zero_intros cancel_counts [OF e] add_result_zero)
  show "unowned refs (snd (seal_job env req generation tokens s)) p = unowned refs s p"
  proof (cases "map_of (cw_jobs s) (req, generation)")
    case None
    then show ?thesis by (simp add: seal_job_def act_defs)
  next
    case (Some job)
    have "job_count (job\<lparr>cj_future := x\<rparr>) = job_count job" for x by (rule same_pages) (simp_all add: job_pages_def)
    then show ?thesis using bad [unfolded changes_zero_iff]
      by (auto simp: seal_job_def bindA_readA Some retA_def writeA_def unowned_defs dict_total_update)
  qed
qed

lemma publish_counts:
  assumes e: "worker_counts env refs"
  shows "refs.changes refs (publish_local env job tokens) (\<lambda>_. 0) (\<lambda>_ _. 0)"
  unfolding publish_local_def Let_def
  by (intro zero_intros worker_counts_rules(10,11) [OF e])

lemma run_publisher_counts:
  assumes e: "worker_counts env refs"
  shows "refs.changes (unowned refs) (run_publisher env) (\<lambda>_. 0) (\<lambda>_ _. 0)"
  unfolding changes_zero_iff
proof (intro allI)
  fix s :: "('a, 'b, 'c) worker_state" and p
  have same: "job_count (job\<lparr>cj_future := x\<rparr>) = job_count job" for x and job :: "('a, 'b) capture_job"
    by (rule same_pages) (simp_all add: job_pages_def)
  have world: "refs w p = refs (cw_world s) p" if "publish_local env job tokens (cw_world s) = (r, w)" for job tokens r w
    using publish_counts [OF e, unfolded changes_zero_iff] that by (metis snd_conv)
  show "unowned refs (snd (run_publisher env s)) p = unowned refs s p"
    by (auto simp: run_publisher_def unowned_defs dict_total_update same world split: list.split option.split job_future.split prod.split)
qed

lemma retire_counts:
  fixes s :: "('k, 'c, 'w) worker_state"
  assumes e: "worker_counts env refs" and j: "map_of (cw_jobs s) key = Some job" "\<not> cj_quarantined job"
  shows "unowned refs (snd (retire_job env key s)) p = unowned refs s p"
proof -
  define s1 where "s1 = s\<lparr>cw_jobs := AList.update key (job\<lparr>cj_future := NoFuture\<rparr>) (cw_jobs s)\<rparr>"
  have m: "map_of (cw_jobs s1) key = Some (job\<lparr>cj_future := NoFuture\<rparr>)" by (simp add: s1_def update_conv')
  have s1: "unowned refs s1 p = unowned refs s p"
    by (simp add: s1_def unowned_defs dict_total_update j same_pages [of "job\<lparr>cj_future := NoFuture\<rparr>" job] job_pages_def)
  define f :: "(('k, 'c, 'w) worker_state, unit) act" where "f = (if cj_cancelled job then on_world (ke_forget env (fst key) (Some (snd key))) else retA ())"
  obtain r s2 where f: "f s1 = (r, s2)" by fastforce
  have "refs.changes (unowned refs) f (\<lambda>_. 0) (\<lambda>_ _. 0)"
    unfolding f_def by (intro zero_intros on_world_counts worker_counts_rules(12) [OF e])
  then have s2: "unowned refs s2 p = unowned refs s1 p" using f unfolding changes_zero_iff by (metis snd_conv)
  have "cw_jobs s2 = cw_jobs s1" using f by (auto simp: f_def on_world_def retA_def split: if_splits prod.splits)
  then have m2: "map_of (cw_jobs s2) key = Some (job\<lparr>cj_future := NoFuture\<rparr>)" using m by simp
  have "retire_job env key s = seqA f (drop_job env key) s1"
    by (simp add: retire_job_def on_job_def j(1) act_defs f_def s1_def)
  also have "\<dots> = (case r of Inl e \<Rightarrow> (Inl e, s2) | Inr _ \<Rightarrow> drop_job env key s2)"
    by (simp add: seqA_def bindA_def f split: sum.split)
  finally show ?thesis using drop_job_result [OF e m2] s1 s2 j(2) by (auto split: sum.split)
qed

lemma settle_counts:
  assumes e: "worker_counts env refs" and absent: "map_of (cw_jobs s) key = None"
    and body: "refs w p - job_count job p = refs (cw_world s) p" and open_job: "\<not> cj_quarantined job"
  shows "unowned refs (snd (settle_capture env key r ((job, started), w) s)) p = unowned refs s p"
proof (cases r)
  case (Inr u)
  then show ?thesis using body absent
    by (simp add: settle_capture_def add_result_def act_defs unowned_defs dict_total_update)
next
  case (Inl x)
  obtain f w1 where f: "(if started then ke_finish_capture env else retA ()) w = (f, w1)" by (metis surj_pair)
  have "refs.changes refs (if started then ke_finish_capture env else retA ()) (\<lambda>_. 0) (\<lambda>_ _. 0)"
    by (intro zero_intros worker_counts_rules(9) [OF e])
  then have w1: "refs w1 p = refs w p" using f unfolding changes_zero_iff by (metis snd_conv)
  have fence: "(if started then attemptA (on_world (ke_finish_capture env)) else retA (Inr ())) (s\<lparr>cw_world := w\<rparr>) =
      (Inr f, s\<lparr>cw_world := w1\<rparr>)"
    using f by (auto simp: attemptA_def on_world_def retA_def split: if_splits prod.splits)
  show ?thesis
  proof (cases f)
    case fail: (Inl y)
    have "job_count (job\<lparr>cj_quarantined := True\<rparr>) = job_count job" by (rule same_pages) (simp_all add: job_pages_def)
    then show ?thesis using body absent w1 fail Inl
      by (simp add: settle_capture_def seqA_def bindA_def writeA_def fence raiseA_def unowned_defs dict_total_update)
  next
    case ok: (Inr u)
    obtain job' w' where rel: "release_job env (job, w1) = (Inr (), (job', w'))"
      "\<forall>p. refs w' p - job_count job' p = refs w1 p - job_count job p"
      "if cj_quarantined job then job' = job \<and> w' = w1 else job' = job\<lparr>cj_fragments := [], cj_plans := [], cj_prefix_owners := []\<rparr>"
      using release_job_result [OF e] by blast
    have out: "settle_capture env key r ((job, started), w) s =
        (Inr (), s\<lparr>cw_world := w', cw_results := cw_results s @ [(key, CaptureFailed, None, ErrorText x)]\<rparr>)"
      by (simp add: settle_capture_def Inl seqA_def bindA_def writeA_def fence ok on_world_def rel(1) add_result_def)
    have "job_count job' p = 0" using rel(3) open_job by (simp add: job_count_def job_pages_def)
    then show ?thesis using spec [OF rel(2), of p] body w1 by (simp add: out unowned_defs)
  qed
qed

text \<open>A capture does not mark its job quarantined before it fails.\<close>

definition marked :: "('k, 'c, 'w) capture_state \<Rightarrow> bool" where
  "marked s = cj_quarantined (fst (fst s))"

interpretation unmarked: frame "\<lambda>s t. cj_quarantined (fst t) = cj_quarantined (fst s)"
  by unfold_locales auto

interpretation unmarked_capture: frame "\<lambda>s t. marked t = marked s"
  by unfold_locales auto

lemma inner_unmarked: "unmarked.keeps (innerA m)" "unmarked_capture.keeps (innerA m)"
  unfolding unmarked.keeps_def unmarked_capture.keeps_def by (auto simp: marked_def innerA_def split: prod.splits)

lemma update_unmarked: "(\<And>j. cj_quarantined (f j) = cj_quarantined j) \<Longrightarrow> unmarked_capture.keeps (update_job f)"
  unfolding update_job_def by (rule unmarked_capture.keeps_write) (simp add: marked_def case_prod_beta)

lemma add_fragments_unmarked: "cj_quarantined (add_fragments c j) = cj_quarantined j"
  using arg_cong [OF add_fragments_keeps, of cj_quarantined c j] by simp

lemma stage_chunks_unmarked: "unmarked.keeps (stage_chunks env spec chunk cursor reclaimed)"
proof (induction env spec chunk cursor reclaimed rule: stage_chunks.induct)
  case (1 env spec chunk cursor reclaimed)
  show ?case unfolding stage_chunks.simps [of env spec chunk cursor] Let_def
    apply (intro unmarked.keeps_if unmarked.keeps_ret unmarked.keeps_raise unmarked.keeps_bind inner_unmarked unmarked.keeps_case_prod
        unmarked.keeps_seq unmarked.keeps_write)
     apply (simp add: add_fragments_unmarked split_paired_all)
    apply (rule 1)
       apply simp_all
    done
qed

lemma capture_body_unmarked: "unmarked_capture.keeps (capture_body env spec chunk jobs caches block_size cached)"
proof -
  have hold: "unmarked_capture.keeps (hold_prefix_page env src)" for src
    unfolding hold_prefix_page_def
    by (intro unmarked_capture.keeps_intros inner_unmarked update_unmarked)
      (auto intro!: unmarked_capture.keeps_intros inner_unmarked split: list.splits)
  have admit: "unmarked_capture.keeps (admit_capture env spec jobs caches block_size cached)"
    unfolding admit_capture_def capture_prefix_def prepare_allocators_def
    by (intro unmarked_capture.keeps_intros inner_unmarked update_unmarked hold) auto
  have chunks: "unmarked_capture.keeps (\<lambda>((job, started), w).
      case stage_chunks env spec chunk (cs_base spec) False (job, w) of (r, (job, w)) \<Rightarrow> (r, ((job, started), w)))"
    unfolding unmarked_capture.keeps_def
  proof
    fix s :: "('a, 'b, 'c) capture_state"
    obtain job started w where s: "s = ((job, started), w)" by (metis surj_pair)
    obtain r job' w' where r: "stage_chunks env spec chunk (cs_base spec) False (job, w) = (r, (job', w'))" by (metis surj_pair)
    show "marked (snd ((\<lambda>((job, started), w). case stage_chunks env spec chunk (cs_base spec) False (job, w) of
        (r, (job, w)) \<Rightarrow> (r, ((job, started), w))) s)) = marked s"
      using unmarked.keepsD [OF stage_chunks_unmarked r] by (simp add: s r marked_def)
  qed
  have stage: "unmarked_capture.keeps (stage_capture env spec chunk)"
    unfolding stage_capture_def by (intro unmarked_capture.keeps_intros chunks update_unmarked) auto
  have plan: "unmarked_capture.keeps (plan_group env spec block_size x)" for x
    unfolding plan_group_def
    by (intro unmarked_capture.keeps_intros unmarked_capture.keeps_write inner_unmarked update_unmarked) (auto simp: marked_def)
  have run: "unmarked_capture.keeps (run_capture env spec block_size)"
    unfolding run_capture_def by (intro unmarked_capture.keeps_intros plan inner_unmarked update_unmarked) auto
  show ?thesis unfolding capture_body_def by (intro unmarked_capture.keeps_intros admit stage run)
qed

lemma capture_counts:
  assumes e: "worker_counts env refs"
  shows "refs.changes (unowned refs) (capture env spec caches block_size cached) (\<lambda>_. 0) (\<lambda>_ _. 0)"
  unfolding changes_zero_iff
proof (intro allI)
  fix s :: "('a, 'b, 'c) worker_state" and p
  show "unowned refs (snd (capture env spec caches block_size cached s)) p = unowned refs s p"
  proof (cases "map_of (cw_jobs s) (cs_req_id spec, cs_generation spec)")
    case None
    obtain r job started w where b: "capture_body env spec (cw_chunk_size s) (length (cw_jobs s)) caches block_size cached
        ((new_job spec (ke_now env (cw_world s)), False), cw_world s) = (r, ((job, started), w))" by (metis surj_pair)
    have "beside capture_count refs (snd (capture_body env spec (cw_chunk_size s) (length (cw_jobs s)) caches block_size cached x)) p =
        beside capture_count refs x p" for x
      using capture_body_counts [OF e] unfolding changes_zero_iff by blast
    from this [of "((new_job spec (ke_now env (cw_world s)), False), cw_world s)"]
    have "beside capture_count refs ((job, started), w) p =
        beside capture_count refs ((new_job spec (ke_now env (cw_world s)) :: ('a, 'b) capture_job, False), cw_world s) p"
      unfolding b by simp
    then have body: "refs w p - job_count job p = refs (cw_world s) p"
      by (simp add: beside_def capture_count_def job_count_def job_pages_def new_job_def)
    have "\<not> cj_quarantined job"
      using unmarked_capture.keepsD [OF capture_body_unmarked b] by (simp add: new_job_def marked_def)
    note settled = settle_counts [where started = started and r = r, OF e None body this]
    have "capture env spec caches block_size cached s =
        settle_capture env (cs_req_id spec, cs_generation spec) r ((job, started), w) s"
      by (simp add: capture_def None b)
    then show ?thesis using settled by simp
  next
    case (Some job)
    then show ?thesis by (simp add: capture_def add_result_def writeA_def unowned_defs)
  qed
qed

lemma poll_job_counts:
  assumes e: "worker_counts env refs"
  shows "refs.changes (unowned refs) (poll_job env key) (\<lambda>_. 0) (\<lambda>_ _. 0)"
  unfolding changes_zero_iff
proof (intro allI)
  fix s :: "('a, 'b, 'c) worker_state" and p
  show "unowned refs (snd (poll_job env key s)) p = unowned refs s p"
  proof (cases "map_of (cw_jobs s) key")
    case None
    then show ?thesis by (simp add: poll_job_def act_defs on_job_def)
  next
    case (Some job)
    define late where "late = (ke_now env (cw_world s) - cj_started job > ke_timeout env)"
    have same: "s\<lparr>cw_jobs := AList.update key job (cw_jobs s), cw_world := cw_world s\<rparr> = s"
    proof -
      have "AList.update key job d = d" if "map_of d key = Some job" for d :: "((string \<times> int) \<times> ('a, 'b) capture_job) list"
        using that by (induction d) (auto split: if_splits)
      then show ?thesis using Some by simp
    qed
    have at_job: "poll_job env key s =
       (if cj_quarantined job then raiseA (RuntimeError ''Checkpoint has an unresolved native transfer'')
     else case cj_future job of
       Finished (Inr stop) \<Rightarrow>
         seqA (if cj_cancelled job then retA () else add_result (key, CheckpointReady, Some stop, NoReason)) (retire_job env key)
     | Finished (Inl e) \<Rightarrow>
         if e = NativeExternalPageTransferUnknownError
         then raiseA (RuntimeError ''Checkpoint DMA completion is unknown; owners quarantined'')
         else seqA (if cj_cancelled job then retA () else add_result (key, CaptureFailed, None, ErrorText e)) (retire_job env key)
     | future \<Rightarrow>
         if late \<and> \<not> cj_cancelled job then
           seqA (on_job key (writeA (\<lambda>(job, w). (job\<lparr>cj_cancelled := True\<rparr>, w))))
           (seqA (add_result (key, CaptureFailed, None, Because ''checkpoint deadline''))
           (if future = NoFuture then drop_job env key else retA ()))
         else retA ()) s"
    proof -
      have "on_job key (readA f) s = (Inr (f (job, cw_world s)), s)" for f :: "('a, 'b) capture_job \<times> 'c \<Rightarrow> ('a, 'b) capture_job \<times> bool"
        by (simp add: on_job_def Some readA_def same)
      then show ?thesis unfolding poll_job_def bindA_def by (simp only: prod.case sum.case late_def)
    qed
    have add: "unowned refs (snd (seqA (if c then retA () else add_result r) (retire_job env key) s)) p = unowned refs s p"
      if "\<not> cj_quarantined job" for c r
    proof -
      have "map_of (cw_jobs (snd (add_result r s))) key = Some job" using Some by (simp add: add_result_def writeA_def)
      from retire_counts [OF e this that] have "unowned refs (snd (retire_job env key (snd (add_result r s)))) p = unowned refs s p"
        by (simp add: add_result_def writeA_def unowned_defs)
      then show ?thesis using retire_counts [OF e Some that] by (simp add: seqA_def bindA_def retA_def add_result_def writeA_def)
    qed
    have deadline: "unowned refs (snd (seqA (on_job key (writeA (\<lambda>(job, w). (job\<lparr>cj_cancelled := True\<rparr>, w))))
           (seqA (add_result r) (if c then drop_job env key else retA ())) s)) p = unowned refs s p"
      if "\<not> cj_quarantined job" for c r
    proof -
      define s1 where "s1 = s\<lparr>cw_jobs := AList.update key (job\<lparr>cj_cancelled := True\<rparr>) (cw_jobs s), cw_results := cw_results s @ [r]\<rparr>"
      have m: "map_of (cw_jobs s1) key = Some (job\<lparr>cj_cancelled := True\<rparr>)" by (simp add: s1_def update_conv')
      have w: "s1\<lparr>cw_world := cw_world s\<rparr> = s1" by (simp add: s1_def)
      have "unowned refs s1 p = unowned refs s p"
        by (simp add: s1_def unowned_defs dict_total_update Some same_pages [of "job\<lparr>cj_cancelled := True\<rparr>" job] job_pages_def)
      moreover have "unowned refs (snd (drop_job env key s1)) p = unowned refs s1 p"
        using drop_job_result [OF e m] that by simp
      moreover have "seqA (on_job key (writeA (\<lambda>(job, w). (job\<lparr>cj_cancelled := True\<rparr>, w))))
           (seqA (add_result r) (if c then drop_job env key else retA ())) s = (if c then drop_job env key s1 else (Inr (), s1))"
        by (simp add: seqA_def bindA_def on_job_def Some writeA_def add_result_def retA_def s1_def)
      ultimately show ?thesis by simp
    qed
    show ?thesis
    proof (cases "cj_quarantined job")
      case True
      then show ?thesis by (simp add: at_job raiseA_def)
    next
      case False
      note timeout = deadline [OF False, where r = "(key, CaptureFailed, None, Because ''checkpoint deadline'')"]
      show ?thesis
      proof (cases "cj_future job")
        case NoFuture
        then show ?thesis using False timeout [where c = True] by (simp add: at_job retA_def)
      next
        case (Submitted tokens)
        then show ?thesis using False timeout [where c = False] by (simp add: at_job retA_def)
      next
        case (Finished r)
        then show ?thesis
          using False add [OF False, where c = "cj_cancelled job"] by (cases r) (simp_all add: at_job raiseA_def)
      qed
    qed
  qed
qed

lemma poll_counts:
  assumes e: "worker_counts env refs"
  shows "refs.changes (unowned refs) (poll env) (\<lambda>_. 0) (\<lambda>_ _. 0)"
  unfolding poll_def by (intro zero_intros poll_job_counts [OF e] zero_write) (simp add: unowned_defs)

lemma close_counts:
  assumes e: "worker_counts env refs"
  shows "refs.changes (unowned refs) (close_worker env) (\<lambda>_. 0) (\<lambda>_ _. 0)"
proof -
  have "refs.changes (unowned refs) (drain_publisher env n) (\<lambda>_. 0) (\<lambda>_ _. 0)" for n
    by (induction n) (auto intro: zero_intros run_publisher_counts [OF e])
  then show ?thesis unfolding close_worker_def
    by (intro zero_intros cancel_counts [OF e] on_world_counts worker_counts_rules(14) [OF e] poll_counts [OF e])
qed

lemma begin_restore_counts:
  assumes e: "worker_counts env refs"
  shows "refs.changes (unowned refs) (begin_restore env req generation load) (\<lambda>_. 0) (\<lambda>_ _. 0)"
  unfolding begin_restore_def
  by (intro zero_intros zero_write on_world_counts worker_counts_rules(13) [OF e]) (simp add: unowned_defs dict_total_update)

lemma release_restore_counts:
  assumes e: "worker_counts env refs"
  shows "refs.changes (unowned refs) (release_restore env req generation load) (\<lambda>_. 0) (\<lambda>_ _. 0)"
  unfolding changes_zero_iff
proof (intro allI)
  fix s :: "('a, 'b, 'c) worker_state" and p
  define ps where "ps = (case map_of (cw_restore_owners s) (req, generation, load) of None \<Rightarrow> [] | Some ps \<Rightarrow> ps)"
  define s1 where "s1 = s\<lparr>cw_restore_owners := AList.delete (req, generation, load) (cw_restore_owners s)\<rparr>"
  obtain w where w: "eachA (ke_down env) ps (cw_world s1) = (Inr (), w)" "\<forall>p. refs w p = refs (cw_world s1) p - int (count_list ps p)"
    using each_down [OF e] by blast
  have "release_restore env req generation load s = on_world (ke_restore_event env (req, generation) load ''ack'') (s1\<lparr>cw_world := w\<rparr>)"
  proof -
    have "release_restore env req generation load s =
        seqA (on_world (eachA (ke_down env) ps)) (on_world (ke_restore_event env (req, generation) load ''ack'')) s1"
      by (simp add: release_restore_def bindA_readA flip: ps_def) (simp add: seqA_def bindA_def writeA_def s1_def)
    then show ?thesis by (simp add: seqA_def bindA_def on_world_def [of "eachA (ke_down env) ps"] w(1))
  qed
  moreover have "unowned refs (snd (on_world (ke_restore_event env (req, generation) load ''ack'') t)) p = unowned refs t p"
    for t :: "('a, 'b, 'c) worker_state"
    using on_world_counts [OF worker_counts_rules(13) [OF e]] unfolding changes_zero_iff by blast
  moreover have "unowned refs (s1\<lparr>cw_world := w\<rparr>) p = unowned refs s p"
    using w(2) by (auto simp: s1_def unowned_defs dict_total_delete ps_def split: option.split)
  ultimately show "unowned refs (snd (release_restore env req generation load s)) p = unowned refs s p" by simp
qed

end
