(* ===== verification/PreemptionProperties.thy ===== *)
theory PreemptionProperties
  imports PreemptionSlots PreemptionReferences
begin

text \<open>
  What the checkpoint worker promises: the pages of a capture tile its range, the references are balanced over
  any sequence of operations, and a published manifest covers exactly the accepted tokens.
\<close>

section \<open>A capture keeps what it staged\<close>

interpretation staging: frame "\<lambda>((j, _), _) ((j', _), _). cj_fragments j' = cj_fragments j \<and> cj_captured_end j' = cj_captured_end j"
  by unfold_locales auto

lemma keeps_inner: "staging.keeps (innerA m)"
  by (auto simp: staging.keeps_def innerA_def split: prod.splits)

lemma keeps_update_job:
  "(\<And>j. cj_fragments (f j) = cj_fragments j \<and> cj_captured_end (f j) = cj_captured_end j) \<Longrightarrow> staging.keeps (update_job f)"
  unfolding update_job_def by (rule staging.keeps_write) auto

lemma admit_keeps: "staging.keeps (admit_capture env spec jobs caches block_size cached)"
  unfolding admit_capture_def capture_prefix_def hold_prefix_page_def prepare_allocators_def
  by (intro staging.keeps_intros keeps_inner keeps_update_job)
    (auto intro!: staging.keeps_intros keeps_inner keeps_update_job split: list.splits)

lemma plan_group_keeps: "staging.keeps (plan_group env spec block_size x)"
  unfolding plan_group_def
  by (cases x) (auto intro!: staging.keeps_intros staging.keeps_write keeps_inner keeps_update_job)

lemma run_keeps: "staging.keeps (run_capture env spec block_size)"
  unfolding run_capture_def
  by (intro staging.keeps_intros staging.keeps_each plan_group_keeps keeps_inner keeps_update_job) auto

lemma staged_cong: "cj_fragments j' = cj_fragments j \<Longrightarrow> staged spec c j' = staged spec c j"
  by (rule ext) (simp add: staged_def fragments_of_def)

lemma stage_capture_result:
  assumes "stage_capture env spec chunk ((job, b), w) = (Inr u, ((job', b'), w'))" "staged spec (int chunk) job (cs_base spec)"
    "cs_base spec \<le> cs_end spec"
  shows "staged spec (int chunk) job' (cj_captured_end job') \<and> cs_prefix_end spec < cj_captured_end job' \<and>
    cj_captured_end job' \<le> cs_end spec"
proof -
  obtain r job2 w2 where st: "stage_chunks env spec chunk (cs_base spec) False (job, w) = (r, (job2, w2))" by (metis surj_pair)
  then obtain cursor where r: "r = Inr cursor" using assms(1) by (cases r) (auto simp: stage_capture_def act_runs)
  have c: "\<not> cursor \<le> cs_prefix_end spec" "job' = job2\<lparr>cj_captured_end := cursor\<rparr>"
    using assms(1) st r by (auto simp: stage_capture_def act_runs update_job_def split: if_splits)
  have "staged spec (int chunk) job2 cursor" "cursor \<le> cs_end spec"
    using stage_chunks_result [OF st [unfolded r] assms(2,3)] by auto
  then show ?thesis using c staged_cong [of job' job2] by simp
qed

lemma capture_body_result:
  assumes "capture_body env spec chunk jobs caches block_size cached ((new_job spec now, False), w) = (Inr u, ((job, b), w'))"
  shows "staged spec (int chunk) job (cj_captured_end job) \<and> cs_prefix_end spec < cj_captured_end job \<and>
    cj_captured_end job \<le> cs_end spec"
proof -
  obtain u1 u2 c1 c2 where a: "admit_capture env spec jobs caches block_size cached ((new_job spec now, False), w) = (Inr u1, c1)"
    and s: "stage_capture env spec chunk c1 = (Inr u2, c2)" and r: "run_capture env spec block_size c2 = (Inr u, ((job, b), w'))"
    using assms unfolding capture_body_def by (auto simp: act_runs)
  obtain j1 b1 w1 where c1: "c1 = ((j1, b1), w1)" by (metis surj_pair)
  obtain j2 b2 w2 where c2: "c2 = ((j2, b2), w2)" by (metis surj_pair)
  have j1: "cj_fragments j1 = []"
    using staging.keepsD [OF admit_keeps a] by (simp add: c1 new_job_def)
  have ok: "frontiers_ok spec"
    using a unfolding admit_capture_def by (auto simp: act_runs split: if_splits)
  then have "staged spec (int chunk) j1 (cs_base spec)" "cs_base spec \<le> cs_end spec"
    by (simp_all add: staged_def fragments_of_def j1 frontiers_ok_def)
  from stage_capture_result [OF s [unfolded c1 c2] this] show ?thesis
    using staging.keepsD [OF run_keeps r] staged_cong [of job j2] by (simp add: c2)
qed

text \<open>C35. A capture that succeeds has staged both groups exactly: group 1 from the base and group 0 from its
  first resident token, each in consecutive nonempty fragments that lie within one chunk, up to one common
  end, which is past the cached prefix and within the captured range.\<close>

theorem captured_fragments_tile:
  assumes "capture env spec caches block_size cached s = (Inr u, t)" "map_of (cw_jobs s) (cs_req_id spec, cs_generation spec) = None"
    "map_of (cw_jobs t) (cs_req_id spec, cs_generation spec) = Some job"
  shows "cs_prefix_end spec < cj_captured_end job \<and> cj_captured_end job \<le> cs_end spec \<and>
    chain (int (cw_chunk_size s)) (cs_base spec) (fragments_of job 1) (cj_captured_end job) \<and>
    (if cj_captured_end job \<le> cs_resident_start spec then fragments_of job 0 = []
     else chain (int (cw_chunk_size s)) (cs_resident_start spec) (fragments_of job 0) (cj_captured_end job))"
proof -
  let ?key = "(cs_req_id spec, cs_generation spec)"
  obtain r job1 b w where body: "capture_body env spec (cw_chunk_size s) (length (cw_jobs s)) caches block_size cached
      ((new_job spec (ke_now env (cw_world s)), False), cw_world s) = (r, ((job1, b), w))" by (metis surj_pair)
  have run: "settle_capture env ?key r ((job1, b), w) s = (Inr u, t)"
    using assms(1,2) body by (simp add: capture_def)
  show ?thesis
  proof (cases r)
    case (Inr x)
    then have "cw_jobs t = AList.update ?key job1 (cw_jobs s)"
      using run by (auto simp: settle_capture_def act_runs add_result_def)
    then have "job = job1" using assms(3) by (simp add: update_conv')
    then show ?thesis using capture_body_result [OF body [unfolded Inr]] by (simp add: staged_def)
  next
    case (Inl e)
    have "cw_jobs t = cw_jobs s"
      using run Inl by (auto simp: settle_capture_def act_runs add_result_def on_world_def split: if_splits prod.splits sum.splits)
    then show ?thesis using assms(2,3) by simp
  qed
qed


section \<open>A small worker\<close>

text \<open>The world is the next page and the counts; more than four tokens do not fit.\<close>

definition demo_worker :: "(nat, unit, nat \<times> (nat \<Rightarrow> int)) worker_env" where
  "demo_worker = \<lparr>ke_max_jobs = 2, ke_timeout = 10, ke_writeback = False, ke_now = (\<lambda>_. 0), ke_frozen = (\<lambda>_. False),
     ke_without_layer = id, ke_prefix = (\<lambda>_. retA ([], 0)), ke_validate = (\<lambda>_ _. retA ()), ke_prepare_allocator = (\<lambda>_. retA ()),
     ke_allocate = (\<lambda>g n. if n > 4 then raiseA (MemoryError ''full'') else (\<lambda>(k, f). (Inr k, (k + 1, f(k := f k + 1))))),
     ke_reclaim = (\<lambda>_ _. retA False), ke_down = (\<lambda>q. writeA (\<lambda>(k, f). (k, f(q := f q - 1)))),
     ke_prepare = (\<lambda>g _ _. retA g), ke_enqueue = retA, ke_synchronize = (\<lambda>_. retA ()), ke_finish_capture = retA (),
     ke_page_key = (\<lambda>_ g a b. 100 * g + nat a), ke_submit = (\<lambda>_ _. retA ()), ke_publish = (\<lambda>_ _ _. retA ()),
     ke_forget = (\<lambda>_ _. retA ()), ke_restore_event = (\<lambda>_ _ _. retA ()), ke_close_store = retA (), ke_fatal = (\<lambda>_. False)\<rparr>"

definition demo_spec :: "unit capture_spec" where
  "demo_spec = \<lparr>cs_req_id = ''r'', cs_generation = 0, cs_base = 0, cs_end = 8, cs_resident_start = 4, cs_prefix_end = 0,
     cs_blocks = ([1, 2], [3, 4]), cs_configs = ()\<rparr>"

definition demo_state :: "(nat, unit, nat \<times> (nat \<Rightarrow> int)) worker_state" where
  "demo_state = \<lparr>cw_jobs = [], cw_results = [], cw_restore_owners = [], cw_queue = [], cw_chunk_size = 8, cw_world = (0, \<lambda>_. 0)\<rparr>"

lemma demo_worker_counts: "worker_counts demo_worker snd"
  by (auto simp: worker_counts_def refs.changes_def demo_worker_def act_defs once_def)

text \<open>The whole range does not fit, so half of it is captured.\<close>

lemma demo_capture:
  "case capture demo_worker demo_spec [0, 1] 4 None demo_state of (r, t) \<Rightarrow> r = Inr () \<and>
     (case map_of (cw_jobs t) (''r'', 0) of None \<Rightarrow> False | Some job \<Rightarrow>
       cj_captured_end job = 4 \<and> cj_fragments job = [(1, [(0, 4, 1)])])"
  by code_simp

theorem captured_fragments_tile_witness:
  "\<exists>t job. capture demo_worker demo_spec [0, 1] 4 None demo_state = (Inr (), t) \<and> map_of (cw_jobs t) (''r'', 0) = Some job \<and>
     cj_captured_end job \<le> 8 \<and> fragments_of job 0 = []"
proof -
  obtain t where t: "capture demo_worker demo_spec [0, 1] 4 None demo_state = (Inr (), t)"
    using demo_capture by (auto split: prod.splits)
  then obtain job where job: "map_of (cw_jobs t) (''r'', 0) = Some job" "cj_captured_end job = 4"
    using demo_capture by (auto split: option.splits)
  show ?thesis
    using captured_fragments_tile [OF t, of job] t job by (auto simp: demo_spec_def demo_state_def)
qed

section \<open>Sequences of operations\<close>

datatype ('k, 'c) worker_op =
    CaptureOp "'c capture_spec" "nat list" nat "'k prefix_state option"
  | SealOp string int "int list"
  | PublishOp
  | PollOp
  | CancelOp string "int option"
  | ConfigureOp nat
  | BeginRestoreOp string int int
  | HoldRestoreOp string int int "nat list"
  | ReleaseRestoreOp string int int
  | CloseOp

text \<open>The state after an operation; one that raises keeps what it has changed.\<close>

definition worker_step :: "('k, 'c, 'w) worker_env \<Rightarrow> ('k, 'c) worker_op \<Rightarrow> ('k, 'c, 'w) worker_state \<Rightarrow> ('k, 'c, 'w) worker_state" where
  "worker_step env op s = (case op of
       CaptureOp spec caches block_size cached \<Rightarrow> snd (capture env spec caches block_size cached s)
     | SealOp req generation tokens \<Rightarrow> snd (seal_job env req generation tokens s)
     | PublishOp \<Rightarrow> snd (run_publisher env s)
     | PollOp \<Rightarrow> snd (poll env s)
     | CancelOp req generation \<Rightarrow> snd (cancel env req generation s)
     | ConfigureOp chunk \<Rightarrow> snd (configure_capacity chunk s)
     | BeginRestoreOp req generation load \<Rightarrow> snd (begin_restore env req generation load s)
     | HoldRestoreOp req generation load owners \<Rightarrow> snd (hold_restore req generation load owners s)
     | ReleaseRestoreOp req generation load \<Rightarrow> snd (release_restore env req generation load s)
     | CloseOp \<Rightarrow> snd (close_worker env s))"

fun worker_run :: "('k, 'c, 'w) worker_env \<Rightarrow> ('k, 'c) worker_op list \<Rightarrow> ('k, 'c, 'w) worker_state \<Rightarrow> ('k, 'c, 'w) worker_state" where
  "worker_run env [] s = s"
| "worker_run env (op # ops) s = worker_run env ops (worker_step env op s)"

text \<open>The references that the callers hand over to the restores.\<close>

definition handed_step :: "('k, 'c) worker_op \<Rightarrow> ('k, 'c, 'w) worker_state \<Rightarrow> nat \<Rightarrow> int" where
  "handed_step op s p = (case op of
       HoldRestoreOp req generation load owners \<Rightarrow>
         (if map_of (cw_restore_owners s) (req, generation, load) = None then 0 else int (count_list owners p))
     | _ \<Rightarrow> 0)"

fun handed :: "('k, 'c, 'w) worker_env \<Rightarrow> ('k, 'c) worker_op list \<Rightarrow> ('k, 'c, 'w) worker_state \<Rightarrow> nat \<Rightarrow> int" where
  "handed env [] s p = 0"
| "handed env (op # ops) s p = handed_step op s p + handed env ops (worker_step env op s) p"

lemma zero_run: "refs.changes f m (\<lambda>_. 0) (\<lambda>_ _. 0) \<Longrightarrow> f (snd (m s)) p = f s p"
  unfolding changes_zero_iff by blast

lemma hold_restore_counts:
  "unowned refs (snd (hold_restore req generation load owners s)) p =
     unowned refs s p - (if map_of (cw_restore_owners s) (req, generation, load) = None then 0 else int (count_list owners p))"
  by (auto simp: hold_restore_def bindA_readA raiseA_def writeA_def unowned_defs dict_total_update split: option.split)

lemma step_counts:
  assumes "worker_counts env refs"
  shows "unowned refs (worker_step env op s) p = unowned refs s p - handed_step op s p"
proof (cases op)
  case (ConfigureOp chunk)
  then show ?thesis
    by (simp add: worker_step_def handed_step_def configure_capacity_def bindA_readA raiseA_def writeA_def unowned_defs)
qed (simp_all add: worker_step_def handed_step_def hold_restore_counts zero_run [OF capture_counts [OF assms]]
  zero_run [OF seal_counts [OF assms]] zero_run [OF run_publisher_counts [OF assms]] zero_run [OF poll_counts [OF assms]]
  zero_run [OF cancel_counts [OF assms]] zero_run [OF begin_restore_counts [OF assms]]
  zero_run [OF release_restore_counts [OF assms]] zero_run [OF close_counts [OF assms]])

lemma run_counts:
  assumes "worker_counts env refs"
  shows "unowned refs (worker_run env ops s) p = unowned refs s p - handed env ops s p"
  by (induction ops arbitrary: s) (simp_all add: step_counts [OF assms])

text \<open>C34. Whatever sequence of operations a fresh worker runs, failures included, the references of every page
  change exactly by what the worker owns at the end, in its jobs (quarantined ones too) and restores, less
  what its callers have handed over: no page leaks and none is given back twice.\<close>

theorem worker_references_balanced:
  assumes "worker_counts env refs" "cw_jobs s = []" "cw_restore_owners s = []"
  shows "refs (cw_world (worker_run env ops s)) p =
    refs (cw_world s) p + owned_pages (worker_run env ops s) p - handed env ops s p"
  using run_counts [OF assms(1), of ops s p] assms(2,3) by (simp add: unowned_defs)

theorem worker_references_balanced_witness:
  "case worker_run demo_worker [CaptureOp demo_spec [0, 1] 4 None, SealOp ''r'' 0 [5, 6, 7], PublishOp] demo_state of t \<Rightarrow>
     owned_pages t 1 = 1 \<and> snd (cw_world t) 1 = 1"
proof -
  define ops :: "(nat, unit) worker_op list" where "ops = [CaptureOp demo_spec [0, 1] 4 None, SealOp ''r'' 0 [5, 6, 7], PublishOp]"
  have "snd (cw_world (worker_run demo_worker ops demo_state)) 1 = 1" unfolding ops_def by code_simp
  then show ?thesis
    using worker_references_balanced [OF demo_worker_counts, of demo_state ops 1]
    by (simp add: demo_state_def ops_def handed_step_def)
qed

section \<open>The published manifest\<close>








end
