(* ===== verification/LayerwiseDma.thy ===== *)
theory LayerwiseDma
  imports Prelude
begin

text \<open>
  \<open>layerwise_dma.py\<close>: planning the copies of a layerwise prefill and binding them to addresses.  A tensor of
  integers is its list; a \<open>DmaPlan\<close>, four columns in the code, is the list of its rows.  The cached tables,
  which the code extends in place, are a store from table identities to their columns.
\<close>

section \<open>Tensors\<close>

text \<open>Indexing a tensor or tuple: a negative index counts from the end.\<close>

definition tensor_at :: "'a list \<Rightarrow> int \<Rightarrow> 'a res" where
  "tensor_at xs i =
     (if 0 \<le> i \<and> i < int (length xs) then Inr (xs ! nat i)
      else if - int (length xs) \<le> i \<and> i < 0 then Inr (xs ! nat (int (length xs) + i))
      else Inl IndexError)"

text \<open>\<open>xs[:n]\<close> and \<open>xs[n:]\<close> of a tuple.\<close>

definition slice_to :: "'a list \<Rightarrow> int \<Rightarrow> 'a list" where
  "slice_to xs n = take (nat (if n < 0 then int (length xs) + n else n)) xs"

definition slice_from :: "'a list \<Rightarrow> int \<Rightarrow> 'a list" where
  "slice_from xs n = drop (nat (if n < 0 then int (length xs) + n else n)) xs"

text \<open>\<open>torch.searchsorted\<close> on a sorted sequence, with and without \<open>right\<close>.\<close>

definition rank_right :: "int list \<Rightarrow> int \<Rightarrow> nat" where
  "rank_right xs x = length (takeWhile (\<lambda>e. e \<le> x) xs)"

definition rank_left :: "int list \<Rightarrow> int \<Rightarrow> nat" where
  "rank_left xs x = length (takeWhile (\<lambda>e. e < x) xs)"

text \<open>\<open>edges[:-1], edges[1:]\<close>\<close>

definition consecutive :: "int list \<Rightarrow> (int \<times> int) list" where
  "consecutive es = zip (butlast es) (tl es)"

definition cumsum :: "int list \<Rightarrow> int list" where
  "cumsum ws = map (\<lambda>k. sum_list (take (Suc k) ws)) [0..<length ws]"

record dma_tensor =
  dt_shape :: "int list"
  dt_element :: int

datatype dma_cache = PlaneCache "dma_tensor list" | TensorCache dma_tensor

text \<open>\<open>t[0].numel()\<close>\<close>

definition block_numel :: "dma_tensor \<Rightarrow> int res" where
  "block_numel t = (case dt_shape t of [] \<Rightarrow> Inl IndexError | n # rest \<Rightarrow> if n = 0 then Inl IndexError else Inr (prod_list rest))"

definition cache_page_size_bytes :: "dma_cache \<Rightarrow> int res" where
  "cache_page_size_bytes cache =
     (case cache of
        PlaneCache [] \<Rightarrow> Inl IndexError
      | PlaneCache (a # rest) \<Rightarrow> bindR (block_numel a) (\<lambda>n.
          case rest of
            [] \<Rightarrow> Inr (n * dt_element a)
          | b # _ \<Rightarrow> bindR (block_numel b) (\<lambda>m. Inr (n * dt_element a + m * dt_element b)))
      | TensorCache t \<Rightarrow> bindR (block_numel t) (\<lambda>n. Inr (n * dt_element t)))"

definition block_tokens :: "dma_cache \<Rightarrow> int res" where
  "block_tokens cache =
     (case cache of
        PlaneCache [] \<Rightarrow> Inl IndexError
      | PlaneCache (a # _) \<Rightarrow> tensor_at (dt_shape a) 1
      | TensorCache t \<Rightarrow> tensor_at (dt_shape t) 1)"

definition default_widths :: "dma_cache \<Rightarrow> int list res" where
  "default_widths cache =
     (case cache of
        PlaneCache (a # b # _) \<Rightarrow> bindR (tensor_at (dt_shape a) (- 1)) (\<lambda>x. bindR (tensor_at (dt_shape b) (- 1)) (\<lambda>y. Inr [x, y]))
      | PlaneCache _ \<Rightarrow> Inl IndexError
      | TensorCache t \<Rightarrow> bindR (tensor_at (dt_shape t) (- 1)) (\<lambda>x. Inr [x]))"

section \<open>Cycles\<close>

record dma_cycle =
  dc_bundle :: int
  dc_chunk :: int
  dc_period :: int
  dc_boundaries :: "int list"

definition build_cycle :: "int \<Rightarrow> int \<Rightarrow> int list \<Rightarrow> dma_cycle res" where
  "build_cycle bundle chunk internal =
     (if min bundle chunk \<le> 0 then Inl (ValueError ''DMA bundle/chunk sizes must be positive'')
      else let period = lcm bundle chunk in
        Inr \<lparr>dc_bundle = bundle, dc_chunk = chunk, dc_period = period,
          dc_boundaries = py_sorted_set
            (concat (map (\<lambda>k. map (\<lambda>off. k * bundle + off) (0 # internal)) [0..period div bundle - 1]) @
             map (\<lambda>k. k * chunk) [0..period div chunk - 1])\<rparr>)"

definition build_group_cycles :: "dma_cache \<Rightarrow> dma_cache \<Rightarrow> int \<Rightarrow> int \<Rightarrow> int list option \<Rightarrow> (dma_cycle \<times> dma_cycle) res" where
  "build_group_cycles latent indexer chunk_tokens multiplier widths =
     bindR (cache_page_size_bytes latent) (\<lambda>latent_page.
     bindR (cache_page_size_bytes indexer) (\<lambda>index_page.
     let bundle_bytes = lcm latent_page index_page * multiplier in
     bindR (block_tokens latent) (\<lambda>latent_tokens.
     bindR (block_tokens indexer) (\<lambda>indexer_tokens.
     if index_page = 0 then Inl (OtherError ''ZeroDivisionError'')
     else let index_tokens = bundle_bytes div index_page * indexer_tokens in
     bindR (if widths = None \<or> widths = Some [] then default_widths latent else Inr (the widths)) (\<lambda>ws.
     if sum_list ws = 0 \<and> length ws > 1 then Inl (RuntimeError ''ZeroDivisionError'')
     else let splits = map (\<lambda>x. x * index_tokens div sum_list ws) (butlast (cumsum ws)) in
     if latent_page = 0 then Inl (OtherError ''ZeroDivisionError'')
     else bindR (build_cycle (bundle_bytes div latent_page * latent_tokens) chunk_tokens []) (\<lambda>c0.
       bindR (build_cycle index_tokens chunk_tokens splits) (\<lambda>c1. Inr (c0, c1))))))))"

section \<open>Plans\<close>

text \<open>A row is \<open>(chunk, slot, chunk_token, tokens)\<close>.\<close>

type_synonym dma_row = "int \<times> int \<times> int \<times> int"

definition cycle_edges :: "dma_cycle \<Rightarrow> int \<Rightarrow> int \<Rightarrow> int list" where
  "cycle_edges c lo hi = concat (map (\<lambda>k. map (\<lambda>b. k * dc_period c + b) (dc_boundaries c)) [lo..hi - 1])"

definition plan_interval :: "dma_cycle \<Rightarrow> int list \<Rightarrow> int \<Rightarrow> int \<Rightarrow> dma_row list res" where
  "plan_interval c slots start stop =
     (if start < 0 \<or> stop < start \<or> stop > int (length slots) then Inl (ValueError ''DMA interval exceeds bank slot map'')
      else let inner = filter (\<lambda>e. e > start \<and> e < stop)
               (cycle_edges c (start div dc_period c) ((stop + dc_period c - 1) div dc_period c));
             edges = (if start = stop then [start] else start # inner @ [stop])
        in Inr (map (\<lambda>(b, e). (b div dc_chunk c - start div dc_chunk c, slots ! nat b,
             b - max (b div dc_chunk c * dc_chunk c) start, e - b)) (consecutive edges)))"

text \<open>The pieces between two edges that lie within the range of their chunk.\<close>

definition active_piece :: "(int \<times> int) list \<Rightarrow> nat \<Rightarrow> int \<times> int \<Rightarrow> (nat \<times> int \<times> int \<times> int) option res" where
  "active_piece ranges chunk x = (case x of (b, e) \<Rightarrow>
     if chunk \<ge> length ranges then Inl IndexError
     else if b \<ge> fst (ranges ! chunk) \<and> e \<le> snd (ranges ! chunk) then Inr (Some (chunk, fst (ranges ! chunk), b, e))
     else Inr None)"

definition keep_active :: "'a option list \<Rightarrow> 'a list" where
  "keep_active xs = map the (filter (\<lambda>x. x \<noteq> None) xs)"

definition plan_ranges :: "dma_cycle \<Rightarrow> int list \<Rightarrow> (int \<times> int) list \<Rightarrow> int \<Rightarrow> dma_row list res" where
  "plan_ranges c slots ranges base =
     (if ranges = [] then Inl IndexError
      else let ends = map snd ranges;
             edges = py_sorted_set (cycle_edges c (fst (hd ranges) div dc_period c)
               ((snd (last ranges) + dc_period c - 1) div dc_period c) @ map fst ranges @ ends)
        in bindR (mapR (\<lambda>x. active_piece ranges (min (rank_right ends (fst x)) (length ends - 1)) x) (consecutive edges)) (\<lambda>pieces.
           mapR (\<lambda>(chunk, s, b, e). bindR (tensor_at slots (b - base)) (\<lambda>slot. Inr (int chunk, slot, b - s, e - b)))
             (keep_active pieces)))"

text \<open>The starts of the blocks that do not continue the block before them.\<close>

definition block_gaps :: "int list \<Rightarrow> int \<Rightarrow> int \<Rightarrow> int list" where
  "block_gaps ids block_size first_block =
     map (\<lambda>k. (first_block + int k) * block_size) (filter (\<lambda>k. ids ! k \<noteq> ids ! (k - 1) + 1) [1..<length ids])"

definition block_edges :: "dma_cycle \<Rightarrow> int list \<Rightarrow> int \<Rightarrow> (int \<times> int) list \<Rightarrow> int \<Rightarrow> int \<Rightarrow> int list" where
  "block_edges c ids block_size ranges base first_block =
     (let lo = (fst (hd ranges) - base) div dc_period c;
          hi = (snd (last ranges) - base + dc_period c - 1) div dc_period c
      in filter (\<lambda>e. fst (hd ranges) \<le> e \<and> e \<le> snd (last ranges))
        (py_sorted_set (map (\<lambda>e. e + base) (cycle_edges c lo hi) @ map fst ranges @ map snd ranges @
          map (\<lambda>e. e + base) (block_gaps ids block_size first_block))))"

definition plan_block_id_ranges :: "dma_cycle \<Rightarrow> int list \<Rightarrow> int \<Rightarrow> (int \<times> int) list \<Rightarrow> int \<Rightarrow> int \<Rightarrow> dma_row list res" where
  "plan_block_id_ranges c ids block_size ranges base first_block =
     (if block_size \<le> 0 then Inl (ValueError ''DMA block size must be positive'')
      else if ids = [] \<or> ranges = [] then Inr []
      else if list_ex (\<lambda>(s, e). s < base \<or> e \<le> s) ranges then Inl (ValueError ''DMA block-id ranges are invalid'')
      else if fst (hd ranges) - base < first_block * block_size \<or>
              snd (last ranges) - base > (first_block + int (length ids)) * block_size
      then Inl (ValueError ''DMA block IDs do not cover the requested range'')
      else bindR (mapR (\<lambda>x. active_piece ranges (rank_right (map snd ranges) (fst x)) x)
             (consecutive (block_edges c ids block_size ranges base first_block))) (\<lambda>pieces.
           mapR (\<lambda>(chunk, s, b, e).
               bindR (tensor_at ids ((b - base) div block_size - first_block)) (\<lambda>i.
               Inr (int chunk, i * block_size + (b - base) mod block_size, b - s, e - b)))
             (keep_active pieces)))"

section \<open>Tables that grow\<close>

definition reusable_range_chunks :: "int list \<Rightarrow> int list \<Rightarrow> int list \<Rightarrow> int list \<Rightarrow> nat" where
  "reusable_range_chunks starts ends old_starts old_ends =
     (let n = length old_starts in
      if n = 0 \<or> n > length starts then 0
      else if take (n - 1) starts \<noteq> butlast old_starts \<or> take (n - 1) ends \<noteq> butlast old_ends \<or>
              starts ! (n - 1) \<noteq> last old_starts then 0
      else if ends ! (n - 1) = last old_ends then n
      else if ends ! (n - 1) > last old_ends then n - 1 else 0)"

text \<open>\<open>while capacity < required: capacity *= 2\<close>, which need not end.\<close>

partial_function (option) grow_capacity :: "nat \<Rightarrow> nat \<Rightarrow> nat option" where
  "grow_capacity capacity required = (if capacity < required then grow_capacity (capacity * 2) required else Some capacity)"

declare grow_capacity.simps [code]

record 'r tables =
  tb_next :: nat
  tb_columns :: "nat \<Rightarrow> 'r list"

text \<open>The columns of \<open>torch.empty\<close> have no particular value: here they are \<open>blank\<close>.\<close>

definition append_cpu_columns :: "'r \<Rightarrow> nat option \<Rightarrow> nat \<Rightarrow> 'r list \<Rightarrow> 'r tables \<Rightarrow> ((nat \<times> nat) \<times> 'r tables) option" where
  "append_cpu_columns blank previous keep suffix t =
     (let required = keep + length suffix;
          size = (case previous of None \<Rightarrow> 0 | Some a \<Rightarrow> length (tb_columns t a))
      in if previous = None \<or> required > size then
           (case grow_capacity (if previous = None then 4 else size) required of
              None \<Rightarrow> None
            | Some capacity \<Rightarrow>
                let old = (case previous of None \<Rightarrow> [] | Some a \<Rightarrow> take keep (tb_columns t a));
                    fresh = old @ suffix @ replicate (capacity - required) blank
                in Some ((tb_next t, if keep = 0 then 0 else keep),
                     t\<lparr>tb_next := tb_next t + 1, tb_columns := (tb_columns t)(tb_next t := fresh)\<rparr>))
         else let a = the previous; old = tb_columns t a
              in Some ((a, 0), t\<lparr>tb_columns := (tb_columns t)(a := take keep old @ suffix @ drop required old)\<rparr>))"

section \<open>Incremental plans\<close>

text \<open>The cycle is kept with its object identity, which \<open>is\<close> compares.\<close>

record incremental_plan =
  ip_cycle :: "nat \<times> dma_cycle"
  ip_block_size :: int
  ip_base :: int
  ip_block_ids :: "int list"
  ip_starts :: "int list"
  ip_ends :: "int list"
  ip_table :: nat
  ip_segments :: nat
  ip_tail :: nat
  ip_reused :: nat
  ip_planned :: nat
  ip_planned_blocks :: int
  ip_copied :: nat
  ip_changed :: bool
  ip_max_slot_end :: int

text \<open>The \<open>plan\<close> of an incremental plan: the written columns of its table.\<close>

definition incremental_rows :: "incremental_plan \<Rightarrow> dma_row tables \<Rightarrow> dma_row list" where
  "incremental_rows p t = take (ip_segments p) (tb_columns t (ip_table p))"

definition same_layout :: "nat \<times> dma_cycle \<Rightarrow> int \<Rightarrow> int \<Rightarrow> incremental_plan option \<Rightarrow> bool" where
  "same_layout cycle block_size base previous = (case previous of None \<Rightarrow> False
     | Some p \<Rightarrow> fst (ip_cycle p) = fst cycle \<and> ip_block_size p = block_size \<and> ip_base p = base)"

definition same_map :: "nat \<times> dma_cycle \<Rightarrow> int \<Rightarrow> int \<Rightarrow> int list \<Rightarrow> incremental_plan option \<Rightarrow> bool" where
  "same_map cycle block_size base blocks previous = (case previous of None \<Rightarrow> False
     | Some p \<Rightarrow> same_layout cycle block_size base previous \<and> length blocks \<ge> length (ip_block_ids p) \<and>
         take (length (ip_block_ids p)) blocks = ip_block_ids p)"

definition used_blocks :: "int list \<Rightarrow> int \<Rightarrow> int \<Rightarrow> int" where
  "used_blocks ends block_size base = (if ends = [] then 0 else (last ends - base + block_size - 1) div block_size)"

definition reused_chunks :: "incremental_plan option \<Rightarrow> bool \<Rightarrow> int list \<Rightarrow> int list \<Rightarrow> nat" where
  "reused_chunks previous same starts ends = (case previous of None \<Rightarrow> 0
     | Some p \<Rightarrow> if same then reusable_range_chunks starts ends (ip_starts p) (ip_ends p) else 0)"

definition reused_segments :: "incremental_plan option \<Rightarrow> nat \<Rightarrow> nat" where
  "reused_segments previous keep = (case previous of None \<Rightarrow> 0
     | Some p \<Rightarrow> if keep = 0 then 0 else if keep = length (ip_starts p) then ip_segments p else ip_tail p)"

definition exceeds_capacity :: "int option \<Rightarrow> int \<Rightarrow> bool" where
  "exceeds_capacity capacity x = (case capacity of None \<Rightarrow> False | Some c \<Rightarrow> x > c)"

definition row_end :: "dma_row \<Rightarrow> int" where
  "row_end r = (case r of (chunk, slot, chunk_token, tokens) \<Rightarrow> slot + tokens)"

definition shift_chunk :: "nat \<Rightarrow> dma_row \<Rightarrow> dma_row" where
  "shift_chunk keep r = (case r of (chunk, rest) \<Rightarrow> (chunk + int keep, rest))"

text \<open>The new rows are appended to the table of the previous plan, or to a new one.\<close>

definition extend_plan :: "nat \<times> dma_cycle \<Rightarrow> int \<Rightarrow> int \<Rightarrow> int list \<Rightarrow> int list \<Rightarrow> int list \<Rightarrow> incremental_plan option \<Rightarrow>
    bool \<Rightarrow> nat \<Rightarrow> int \<Rightarrow> int option \<Rightarrow> dma_row list \<Rightarrow> dma_row tables \<Rightarrow> (incremental_plan res \<times> dma_row tables) option" where
  "extend_plan cycle block_size base blocks starts ends previous same keep first_block capacity suffix t =
     (let segments = reused_segments previous keep;
          reached = max (case previous of None \<Rightarrow> 0 | Some p \<Rightarrow> if keep = 0 then 0 else ip_max_slot_end p)
            (if suffix = [] then 0 else Max (set (map row_end suffix)))
      in if exceeds_capacity capacity reached
         then Some (Inl (ValueError ''Layerwise prefill DMA slot map exceeds NPU bank''), t)
         else case append_cpu_columns (0, 0, 0, 0) (if keep = 0 then None else map_option ip_table previous) segments
                (map (shift_chunk keep) suffix) t of
             None \<Rightarrow> None
           | Some ((table, copied), t) \<Rightarrow>
               Some (Inr \<lparr>ip_cycle = cycle, ip_block_size = block_size, ip_base = base, ip_block_ids = blocks,
                 ip_starts = starts, ip_ends = ends, ip_table = table, ip_segments = segments + length suffix,
                 ip_tail = (if starts = [] then 0
                   else segments + rank_left (map fst suffix) (int (length starts) - int keep - 1)),
                 ip_reused = keep, ip_planned = length starts - keep, ip_planned_blocks = int (length blocks) - first_block,
                 ip_copied = copied, ip_changed = (previous \<noteq> None \<and> \<not> same), ip_max_slot_end = reached\<rparr>, t))"

definition plan_incremental :: "nat \<times> dma_cycle \<Rightarrow> int list \<Rightarrow> int \<Rightarrow> int list \<Rightarrow> int list \<Rightarrow> incremental_plan option \<Rightarrow> int \<Rightarrow>
    int option \<Rightarrow> dma_row tables \<Rightarrow> (incremental_plan res \<times> dma_row tables) option" where
  "plan_incremental cycle block_ids block_size starts ends previous base capacity t =
     (if length starts \<noteq> length ends \<or> block_size \<le> 0
      then Some (Inl (ValueError ''Invalid incremental DMA ranges or block size''), t)
      else let used = used_blocks ends block_size base; blocks = slice_to block_ids used;
             same = same_map cycle block_size base blocks previous;
             keep = reused_chunks previous same starts ends
        in if used > int (length blocks) then Some (Inl (ValueError ''DMA block IDs do not cover the requested range''), t)
           else if keep = length starts \<and> same then
             (let p = the previous in
              if exceeds_capacity capacity (ip_max_slot_end p)
              then Some (Inl (ValueError ''Layerwise prefill DMA slot map exceeds NPU bank''), t)
              else Some (Inr (p\<lparr>ip_cycle := cycle, ip_block_size := block_size, ip_base := base, ip_block_ids := blocks,
                     ip_starts := starts, ip_ends := ends, ip_reused := keep, ip_planned := 0, ip_planned_blocks := 0,
                     ip_copied := 0, ip_changed := False\<rparr>), t))
           else let first_block = (if starts = [] then 0 else (starts ! keep - base) div block_size)
             in case plan_block_id_ranges (snd cycle) (slice_from blocks first_block) block_size
                  (zip (drop keep starts) (drop keep ends)) base first_block of
                Inl e \<Rightarrow> Some (Inl e, t)
              | Inr suffix \<Rightarrow> extend_plan cycle block_size base blocks starts ends previous same keep first_block capacity suffix t)"

section \<open>Addresses\<close>

text \<open>A source address cache: the table holds \<open>(pointer, tokens)\<close>.\<close>

record source_cache =
  so_owners :: "nat list"
  so_starts :: "int list"
  so_ends :: "int list"
  so_table :: nat
  so_reused :: nat
  so_rebuilt :: nat
  so_copied :: nat

definition reusable_owners :: "nat list \<Rightarrow> nat list \<Rightarrow> nat \<Rightarrow> nat" where
  "reusable_owners owners old keep =
     (if keep \<noteq> 0 \<and> take keep owners \<noteq> take keep old
      then if take (keep - 1) owners = take (keep - 1) old then keep - 1 else 0
      else keep)"

definition prepare_source_addresses :: "nat list \<Rightarrow> int list \<Rightarrow> int list \<Rightarrow> (nat \<Rightarrow> int) \<Rightarrow> (nat \<Rightarrow> int) \<Rightarrow> source_cache option \<Rightarrow>
    (int \<times> int) tables \<Rightarrow> (source_cache res \<times> (int \<times> int) tables) option" where
  "prepare_source_addresses owners starts ends host_ptr host_tokens previous t =
     (if length owners \<noteq> length starts \<or> length starts \<noteq> length ends
      then Some (Inl (ValueError ''DMA source metadata differs from ranges''), t)
      else let keep = (case previous of None \<Rightarrow> 0
              | Some p \<Rightarrow> reusable_owners owners (so_owners p) (reusable_range_chunks starts ends (so_starts p) (so_ends p)))
        in if keep = length owners \<and> previous \<noteq> None then
             Some (Inr \<lparr>so_owners = owners, so_starts = starts, so_ends = ends, so_table = so_table (the previous),
               so_reused = keep, so_rebuilt = 0, so_copied = 0\<rparr>, t)
           else case append_cpu_columns (0, 0) (if keep = 0 then None else map_option so_table previous) keep
                  (map (\<lambda>x. (host_ptr x, host_tokens x)) (drop keep owners)) t of
                None \<Rightarrow> None
              | Some ((table, copied), t) \<Rightarrow>
                  Some (Inr \<lparr>so_owners = owners, so_starts = starts, so_ends = ends, so_table = table, so_reused = keep,
                    so_rebuilt = length owners - keep, so_copied = copied\<rparr>, t))"

text \<open>A bound row is \<open>(dst, src, bytes)\<close>.\<close>

type_synonym copy_row = "int \<times> int \<times> int"

definition plane_offsets :: "int list \<Rightarrow> int \<Rightarrow> int list" where
  "plane_offsets widths element = map (\<lambda>k. sum_list (take k widths) * element) [0..<length widths]"

definition bind_row :: "int list \<Rightarrow> int list \<Rightarrow> int list \<Rightarrow> int list \<Rightarrow> int \<Rightarrow> bool \<Rightarrow> dma_row \<Rightarrow> copy_row list res" where
  "bind_row host npu physical widths element device_to_host r = (case r of (chunk, slot, chunk_token, tokens) \<Rightarrow>
     bindR (tensor_at host chunk) (\<lambda>h. bindR (tensor_at physical chunk) (\<lambda>n.
     Inr (map (\<lambda>k.
       let bytes = widths ! k * element;
           cpu = h + n * plane_offsets widths element ! k + chunk_token * bytes;
           device = npu ! k + slot * bytes
       in if device_to_host then (cpu, device, tokens * bytes) else (device, cpu, tokens * bytes)) [0..<length widths]))))"

definition bind_copy_addresses :: "dma_row list \<Rightarrow> int list \<Rightarrow> int list \<Rightarrow> int list \<Rightarrow> int list \<Rightarrow> int \<Rightarrow> bool \<Rightarrow> int list option \<Rightarrow>
    copy_row list res" where
  "bind_copy_addresses plan host npu sizes widths element device_to_host host_chunk_tokens =
     (let physical = (case host_chunk_tokens of None \<Rightarrow> sizes | Some xs \<Rightarrow> xs) in
      if length host \<noteq> length sizes \<or> length npu \<noteq> length widths
      then Inl (ValueError ''DMA pointer count differs from prepared layout'')
      else if length physical \<noteq> length sizes \<or> list_ex (\<lambda>(n, m). n < m) (zip physical sizes)
      then Inl (ValueError ''DMA host chunk shorter than copied range'')
      else if element \<le> 0 \<or> list_ex (\<lambda>w. w \<le> 0) widths then Inl (ValueError ''DMA element and plane widths must be positive'')
      else bindR (mapR (bind_row host npu physical widths element device_to_host) plan) (\<lambda>rows. Inr (concat rows)))"

record bound_prefix =
  bp_owners :: "nat list"
  bp_starts :: "int list"
  bp_ends :: "int list"
  bp_npu :: "int list"
  bp_widths :: "int list"
  bp_element :: int
  bp_chunks :: "int list"
  bp_rows :: "copy_row list"
  bp_reused :: nat
  bp_tail :: "nat option"

definition stable_before_tail :: "bool \<Rightarrow> nat list \<Rightarrow> int list \<Rightarrow> int list \<Rightarrow> bound_prefix \<Rightarrow> bool" where
  "stable_before_tail compatible ids starts ends p =
     (let n = length (bp_owners p) in
      compatible \<and> n > 0 \<and> take (n - 1) ids = take (n - 1) (bp_owners p) \<and>
      take (n - 1) starts = take (n - 1) (bp_starts p) \<and> take (n - 1) ends = take (n - 1) (bp_ends p))"

definition tail_unchanged :: "nat list \<Rightarrow> int list \<Rightarrow> int list \<Rightarrow> bound_prefix \<Rightarrow> bool res" where
  "tail_unchanged ids starts ends p =
     (let n = int (length (bp_owners p)) - 1 in
      bindR (tensor_at ids n) (\<lambda>i. bindR (tensor_at (bp_owners p) n) (\<lambda>i'. if i \<noteq> i' then Inr False else
      bindR (tensor_at starts n) (\<lambda>x. bindR (tensor_at (bp_starts p) n) (\<lambda>x'. if x \<noteq> x' then Inr False else
      bindR (tensor_at ends n) (\<lambda>y. bindR (tensor_at (bp_ends p) n) (\<lambda>y'. Inr (y = y'))))))))"

text \<open>How many chunks of the previous binding stay.\<close>

definition stable_chunks :: "bound_prefix option \<Rightarrow> bool \<Rightarrow> nat \<Rightarrow> nat list \<Rightarrow> int list \<Rightarrow> int list \<Rightarrow> int list \<Rightarrow> int list \<Rightarrow> int \<Rightarrow>
    nat res" where
  "stable_chunks previous unchanged objs ids starts ends npu widths element =
     (case previous of None \<Rightarrow> Inr 0
      | Some p \<Rightarrow>
          let n = length (bp_owners p);
              compatible = (unchanged \<and> n \<le> objs \<and> npu = bp_npu p \<and> widths = bp_widths p \<and> element = bp_element p)
          in if stable_before_tail compatible ids starts ends p
             then bindR (tail_unchanged ids starts ends p) (\<lambda>same. Inr (if same then n else n - 1))
             else Inr 0)"

definition stable_segments :: "bound_prefix option \<Rightarrow> nat \<Rightarrow> int list \<Rightarrow> nat res" where
  "stable_segments previous keep widths =
     (case previous of None \<Rightarrow> Inr 0
      | Some p \<Rightarrow>
          if keep = 0 then Inr 0
          else if keep = length (bp_owners p)
          then if widths = [] then Inl (OtherError ''ZeroDivisionError'') else Inr (length (bp_rows p) div length widths)
          else case bp_tail p of Some n \<Rightarrow> Inr n | None \<Rightarrow> Inr (rank_left (bp_chunks p) (int keep)))"

text \<open>
  The second result is the row list of the previous binding after the call: with \<open>reuse_rows_in_place\<close> it is
  the same list object as the new binding's.
\<close>

definition bind_incremental :: "dma_row list \<Rightarrow> nat list \<Rightarrow> int list \<Rightarrow> int list \<Rightarrow> int list \<Rightarrow> int list \<Rightarrow> int \<Rightarrow> (nat \<Rightarrow> int) \<Rightarrow>
    (nat \<Rightarrow> int) \<Rightarrow> bound_prefix option \<Rightarrow> bool \<Rightarrow> (source_cache \<times> (int \<times> int) list) option \<Rightarrow> bool \<Rightarrow>
    (bound_prefix \<times> copy_row list) res" where
  "bind_incremental plan objs starts0 ends0 npu widths element host_ptr host_tokens previous unchanged metadata in_place =
     (let ids = (case metadata of None \<Rightarrow> objs | Some (m, _) \<Rightarrow> so_owners m);
          starts = (case metadata of None \<Rightarrow> starts0 | Some (m, _) \<Rightarrow> so_starts m);
          ends = (case metadata of None \<Rightarrow> ends0 | Some (m, _) \<Rightarrow> so_ends m) in
      bindR (stable_chunks previous unchanged (length objs) ids starts ends npu widths element) (\<lambda>keep.
      let first = rank_left (map fst plan) (int keep);
          suffix_plan = map (\<lambda>(c, rest). (c - int keep, rest)) (drop first plan);
          suffix_objs = drop keep objs;
          host = (case metadata of None \<Rightarrow> map host_ptr suffix_objs | Some (_, cols) \<Rightarrow> map fst (drop keep (take (length objs) cols)));
          physical = (case metadata of None \<Rightarrow> map host_tokens suffix_objs
            | Some (_, cols) \<Rightarrow> map snd (drop keep (take (length objs) cols)))
      in bindR (stable_segments previous keep widths) (\<lambda>segments.
         bindR (if suffix_objs = [] then Inr []
           else bind_copy_addresses suffix_plan host npu (map (\<lambda>(s, e). e - s) (zip (drop keep starts) (drop keep ends)))
             widths element False (Some physical)) (\<lambda>suffix_rows.
         let rows = (case previous of None \<Rightarrow> suffix_rows
               | Some p \<Rightarrow> if keep = 0 then suffix_rows else take (segments * length widths) (bp_rows p) @ suffix_rows)
         in Inr (\<lparr>bp_owners = ids, bp_starts = starts, bp_ends = ends, bp_npu = npu, bp_widths = widths, bp_element = element,
              bp_chunks = map fst plan, bp_rows = rows, bp_reused = keep,
              bp_tail = Some (if objs = [] then 0 else rank_left (map fst plan) (int (length objs) - 1))\<rparr>,
            case previous of None \<Rightarrow> [] | Some p \<Rightarrow> if keep \<noteq> 0 \<and> in_place then rows else bp_rows p)))))"

section \<open>Arbitrary maps\<close>

definition plan_bundle_copies :: "int list \<Rightarrow> int list \<Rightarrow> int \<Rightarrow> dma_row list res" where
  "plan_bundle_copies slots sizes bundle =
     (if bundle \<le> 0 \<or> sizes = [] \<or> list_ex (\<lambda>n. n \<le> 0) sizes
      then Inl (ValueError ''DMA needs positive bundle and chunk token counts'')
      else if sum_list sizes \<noteq> int (length slots) \<or> list_ex (\<lambda>x. x < 0) slots then Inl (ValueError ''DMA sizes/slots invalid'')
      else let ends = cumsum sizes;
             gaps = map int (filter (\<lambda>k. slots ! k \<noteq> slots ! (k - 1) + 1 \<or> slots ! k mod bundle = 0) [1..<length slots]);
             edges = py_sorted_set (0 # ends @ gaps)
        in Inr (map (\<lambda>(b, e). let chunk = rank_right ends b in
             (int chunk, slots ! nat b, b - (ends ! chunk - sizes ! chunk), e - b)) (consecutive edges)))"

end
