(* ===== verification/DmaPlans.thy ===== *)
theory DmaPlans
  imports LayerwiseDma
begin

text \<open>
  The planner of \<open>layerwise_dma.py\<close> against a reference: the tokens of a plan, one by one, are the tokens of
  the ranges in order, each with its chunk, its place in the chunk and the slot of its block.
\<close>


section \<open>Pieces\<close>

definition range_tokens :: "(int \<times> int) list \<Rightarrow> int list" where
  "range_tokens rs = concat (map (\<lambda>(s, e). [s..e - 1]) rs)"

definition spread :: "(int \<times> int) list \<Rightarrow> bool" where
  "spread rs \<longleftrightarrow> sorted_wrt (\<lambda>x y. snd x \<le> fst y) rs"

definition ranges_ok :: "(int \<times> int) list \<Rightarrow> bool" where
  "ranges_ok rs \<longleftrightarrow> spread rs \<and> list_all (\<lambda>(s, e). s < e) rs"

lemma range_tokens_simps [simp]: "range_tokens [] = []" "range_tokens ((s, e) # rs) = [s..e - 1] @ range_tokens rs"
  "range_tokens (rs @ rs') = range_tokens rs @ range_tokens rs'"
  by (simp_all add: range_tokens_def)

lemma in_range_tokens: "t \<in> set (range_tokens rs) \<longleftrightarrow> (\<exists>(s, e) \<in> set rs. s \<le> t \<and> t < e)"
  by (auto simp: range_tokens_def)

lemma sorted_upto: "sorted_wrt (<) [i..j]"
  by (simp add: strict_sorted_iff)

lemma spread_tokens: "spread rs \<Longrightarrow> sorted_wrt (<) (range_tokens rs)"
proof (induction rs)
  case Nil
  then show ?case by simp
next
  case (Cons r rs)
  obtain s e where r: "r = (s, e)" by (cases r)
  have "spread rs" "\<forall>y \<in> set rs. e \<le> fst y" using Cons.prems by (auto simp: spread_def r)
  then have "x < y" if "x \<in> set [s..e - 1]" "y \<in> set (range_tokens rs)" for x y
    using that unfolding in_range_tokens by fastforce
  then show ?case using Cons.IH \<open>spread rs\<close> by (simp add: r sorted_wrt_append sorted_upto)
qed

lemma same_tokens: "spread rs \<Longrightarrow> spread rs' \<Longrightarrow> set (range_tokens rs) = set (range_tokens rs') \<Longrightarrow> range_tokens rs = range_tokens rs'"
  by (rule strict_sorted_equal) (auto dest: spread_tokens)

lemma spread_filter: "spread rs \<Longrightarrow> spread (filter P rs)"
  by (simp add: spread_def sorted_wrt_filter)

lemma consecutive_simps [simp]: "consecutive [] = []" "consecutive [x] = []" "consecutive (x # y # zs) = (x, y) # consecutive (y # zs)"
  by (simp_all add: consecutive_def)

lemma consecutive_members: "(b, e) \<in> set (consecutive es) \<Longrightarrow> b \<in> set es \<and> e \<in> set es"
proof -
  assume "(b, e) \<in> set (consecutive es)"
  then have "b \<in> set (butlast es)" "e \<in> set (tl es)"
    unfolding consecutive_def by (fact set_zip_leftD, fact set_zip_rightD)
  then show ?thesis by (cases es) (auto dest: in_set_butlastD split: if_splits)
qed

lemma consecutive_spread: "sorted_wrt (<) es \<Longrightarrow> spread (consecutive es) \<and> (\<forall>(b, e) \<in> set (consecutive es). b < e)"
proof (induction es rule: induct_list012)
  case (3 x y zs)
  have "y \<le> fst q" if "q \<in> set (consecutive (y # zs))" for q
    using consecutive_members [of "fst q" "snd q" "y # zs"] that 3(3) by auto
  then show ?case using 3 by (auto simp: spread_def)
qed (simp_all add: spread_def)

lemma consecutive_at:
  "sorted_wrt (<) es \<Longrightarrow> a \<in> set es \<Longrightarrow> c \<in> set es \<Longrightarrow> a \<le> t \<Longrightarrow> t < c \<Longrightarrow>
    \<exists>(b, e) \<in> set (consecutive es). a \<le> b \<and> b \<le> t \<and> t < e \<and> e \<le> c"
proof (induction es arbitrary: a rule: induct_list012)
  case (3 x y zs)
  show ?case
  proof (cases "t < y")
    case True
    then have "a = x" "y \<le> c" using 3(3-7) by auto
    then show ?thesis using True 3(6) by auto
  next
    case False
    then have t: "y \<le> t" by simp
    have c: "c \<in> set (y # zs)" using t 3(3,5,7) by auto
    define a' where "a' = (if a = x then y else a)"
    have a': "a' \<in> set (y # zs)" "a \<le> a'" "a' \<le> t" using t 3(3,4,6) by (auto simp: a'_def)
    have "sorted_wrt (<) (y # zs)" using 3(3) by simp
    from 3(2) [OF this a'(1) c a'(3) 3(7)] obtain b e where
      "(b, e) \<in> set (consecutive (y # zs))" "a' \<le> b" "b \<le> t" "t < e" "e \<le> c" by blast
    then show ?thesis using a'(2) by (intro bexI [of _ "(b, e)"]) auto
  qed
qed auto

lemma consecutive_gap:
  "sorted_wrt (<) es \<Longrightarrow> (b, e) \<in> set (consecutive es) \<Longrightarrow> b < x \<Longrightarrow> x < e \<Longrightarrow> x \<notin> set es"
proof (induction es rule: induct_list012)
  case (3 u v zs)
  show ?case
  proof (cases "(b, e) = (u, v)")
    case True
    then show ?thesis using 3(3,5,6) by auto
  next
    case False
    then have m: "(b, e) \<in> set (consecutive (v # zs))" using 3(4) by (simp only: consecutive_simps set_simps insert_iff simp_thms)
    then have "x \<notin> set (v # zs)" using 3 by simp
    moreover have "x \<noteq> u" using consecutive_members [OF m] 3(3,5) by auto
    ultimately show ?thesis by simp
  qed
qed auto

lemma sorted_edges: "sorted_wrt (<) (py_sorted_set xs)"
  by (simp add: py_sorted_set_def strict_sorted_iff)

lemma rank_right_at: "k < length xs \<Longrightarrow> (\<And>j. j < k \<Longrightarrow> xs ! j \<le> t) \<Longrightarrow> t < xs ! k \<Longrightarrow> rank_right xs t = k"
  unfolding rank_right_def by (subst takeWhile_eq_take_P_nth [of k]) auto

lemma spread_le: "spread rs \<Longrightarrow> j < k \<Longrightarrow> k < length rs \<Longrightarrow> snd (rs ! j) \<le> fst (rs ! k)"
  by (simp add: spread_def sorted_wrt_iff_nth_less)

lemma rank_of_range:
  assumes "ranges_ok rs" "k < length rs" "fst (rs ! k) \<le> t" "t < snd (rs ! k)"
  shows "rank_right (map snd rs) t = k"
proof (rule rank_right_at)
  show "map snd rs ! j \<le> t" if "j < k" for j
    using spread_le [OF _ that assms(2)] assms that by (force simp: ranges_ok_def)
qed (use assms in auto)

lemma keep_active_map: "mapR f xs = Inr ys \<Longrightarrow> (\<And>x. x \<in> set xs \<Longrightarrow> f x = Inr (if P x then Some (g x) else None)) \<Longrightarrow>
    keep_active ys = map g (filter P xs)"
proof -
  assume m: "mapR f xs = Inr ys" and f: "\<And>x. x \<in> set xs \<Longrightarrow> f x = Inr (if P x then Some (g x) else None)"
  have "ys = map (\<lambda>x. if P x then Some (g x) else None) xs" using mapR_map [of xs, OF f] m by simp
  moreover have "keep_active (map (\<lambda>x. if P x then Some (g x) else None) xs) = map g (filter P xs)"
    by (induction xs) (simp_all add: keep_active_def)
  ultimately show ?thesis by simp
qed

text \<open>The pieces that lie in their ranges tile the ranges, in order.\<close>

lemma pieces_tile:
  assumes rs: "ranges_ok rs" and es: "sorted_wrt (<) es" and ends: "\<And>s e. (s, e) \<in> set rs \<Longrightarrow> s \<in> set es \<and> e \<in> set es"
    and chunk: "\<And>b. b \<in> set (butlast es) \<Longrightarrow> chunk b < length rs"
      "\<And>b k. b \<in> set (butlast es) \<Longrightarrow> k < length rs \<Longrightarrow> fst (rs ! k) \<le> b \<Longrightarrow> b < snd (rs ! k) \<Longrightarrow> chunk b = k"
  defines "P \<equiv> \<lambda>(b, e). b \<ge> fst (rs ! chunk b) \<and> e \<le> snd (rs ! chunk b)"
  shows "\<exists>pieces. mapR (\<lambda>x. active_piece rs (chunk (fst x)) x) (consecutive es) = Inr pieces \<and>
    keep_active pieces = map (\<lambda>(b, e). (chunk b, fst (rs ! chunk b), b, e)) (filter P (consecutive es)) \<and>
    range_tokens (filter P (consecutive es)) = range_tokens rs"
proof -
  have butlast: "b \<in> set (butlast es)" if "(b, e) \<in> set (consecutive es)" for b e
    using that unfolding consecutive_def by (rule set_zip_leftD)
  have piece: "active_piece rs (chunk (fst x)) x =
      Inr (if P x then Some ((\<lambda>(b, e). (chunk b, fst (rs ! chunk b), b, e)) x) else None)" if "x \<in> set (consecutive es)" for x
  proof -
    obtain b e where x: "x = (b, e)" by (cases x)
    have "chunk b < length rs" using chunk(1) [OF butlast] that x by blast
    then show ?thesis by (simp add: x active_piece_def P_def)
  qed
  have "\<exists>pieces. mapR (\<lambda>x. active_piece rs (chunk (fst x)) x) (consecutive es) = Inr pieces"
    by (rule exI, rule mapR_map, rule piece)
  then obtain pieces where m: "mapR (\<lambda>x. active_piece rs (chunk (fst x)) x) (consecutive es) = Inr pieces" by blast
  have "set (range_tokens (filter P (consecutive es))) = set (range_tokens rs)"
  proof (rule set_eqI)
    fix t
    show "t \<in> set (range_tokens (filter P (consecutive es))) \<longleftrightarrow> t \<in> set (range_tokens rs)"
    proof
      assume "t \<in> set (range_tokens (filter P (consecutive es)))"
      then obtain b e where be: "(b, e) \<in> set (consecutive es)" "P (b, e)" "b \<le> t" "t < e" unfolding in_range_tokens by auto
      then have "rs ! chunk b \<in> set rs" using chunk(1) [OF butlast] by auto
      moreover have "fst (rs ! chunk b) \<le> t" "t < snd (rs ! chunk b)" using be by (auto simp: P_def)
      ultimately show "t \<in> set (range_tokens rs)" unfolding in_range_tokens by (metis (mono_tags, lifting) case_prod_beta')
    next
      assume "t \<in> set (range_tokens rs)"
      then obtain s e where se: "(s, e) \<in> set rs" "s \<le> t" "t < e" unfolding in_range_tokens by auto
      then obtain k where k: "k < length rs" "rs ! k = (s, e)" by (auto simp: in_set_conv_nth)
      obtain b c where bc: "(b, c) \<in> set (consecutive es)" "s \<le> b" "b \<le> t" "t < c" "c \<le> e"
        using consecutive_at [OF es, of s e t] ends [OF se(1)] se by auto
      have "chunk b = k" using chunk(2) [OF butlast [OF bc(1)] k(1)] bc k(2) se by simp
      then have "P (b, c)" using bc k(2) by (simp add: P_def)
      then show "t \<in> set (range_tokens (filter P (consecutive es)))" using bc unfolding in_range_tokens by auto
    qed
  qed
  then have "range_tokens (filter P (consecutive es)) = range_tokens rs"
    using consecutive_spread [OF es] rs by (intro same_tokens spread_filter) (auto simp: ranges_ok_def)
  then show ?thesis using m keep_active_map [OF m piece] by blast
qed

section \<open>The tokens of a plan\<close>

text \<open>A copied token is \<open>(chunk, token in the chunk, slot)\<close>.\<close>

definition row_tokens :: "dma_row \<Rightarrow> (int \<times> int \<times> int) list" where
  "row_tokens r = (case r of (chunk, slot, chunk_token, tokens) \<Rightarrow> map (\<lambda>k. (chunk, chunk_token + k, slot + k)) [0..tokens - 1])"

definition plan_tokens :: "dma_row list \<Rightarrow> (int \<times> int \<times> int) list" where
  "plan_tokens rows = concat (map row_tokens rows)"

definition reference_token :: "(int \<times> int) list \<Rightarrow> (int \<Rightarrow> int) \<Rightarrow> int \<Rightarrow> int \<times> int \<times> int" where
  "reference_token rs slot t = (let k = rank_right (map snd rs) t in (int k, t - fst (rs ! k), slot t))"

definition reference_tokens :: "(int \<times> int) list \<Rightarrow> (int \<Rightarrow> int) \<Rightarrow> (int \<times> int \<times> int) list" where
  "reference_tokens rs slot = map (reference_token rs slot) (range_tokens rs)"

lemma plan_tokens_simps [simp]: "plan_tokens [] = []" "plan_tokens (r # rs) = row_tokens r @ plan_tokens rs"
  "plan_tokens (rs @ rs') = plan_tokens rs @ plan_tokens rs'"
  by (simp_all add: plan_tokens_def)

lemma shift_upto: "map f [b..e - 1] = map (\<lambda>k. f (b + k)) [0..e - b - 1]"
  by (rule nth_equalityI) auto

lemma planned_pieces:
  assumes rs: "ranges_ok rs" and tile: "range_tokens ps = range_tokens rs"
    and piece: "\<And>b e. (b, e) \<in> set ps \<Longrightarrow> b < e \<and> chunk b < length rs \<and> fst (rs ! chunk b) \<le> b \<and> e \<le> snd (rs ! chunk b)"
    and slot: "\<And>b e k. (b, e) \<in> set ps \<Longrightarrow> 0 \<le> k \<Longrightarrow> b + k < e \<Longrightarrow> slot (b + k) = slot b + k"
  shows "plan_tokens (map (\<lambda>(b, e). (int (chunk b), slot b, b - fst (rs ! chunk b), e - b)) ps) = reference_tokens rs slot"
proof -
  have "row_tokens (int (chunk b), slot b, b - fst (rs ! chunk b), e - b) = map (reference_token rs slot) [b..e - 1]"
    if p: "(b, e) \<in> set ps" for b e
  proof -
    have "reference_token rs slot (b + k) = (int (chunk b), b - fst (rs ! chunk b) + k, slot b + k)" if "k \<in> {0..e - b - 1}" for k
    proof -
      have "rank_right (map snd rs) (b + k) = chunk b"
        using piece [OF p] that by (intro rank_of_range [OF rs]) auto
      then show ?thesis using slot [OF p, of k] that by (simp add: reference_token_def Let_def)
    qed
    then show ?thesis unfolding row_tokens_def shift_upto [of "reference_token rs slot"] by simp
  qed
  then have "plan_tokens (map (\<lambda>(b, e). (int (chunk b), slot b, b - fst (rs ! chunk b), e - b)) ps) =
      map (reference_token rs slot) (range_tokens ps)"
  proof (induction ps)
    case (Cons x ps)
    then show ?case by (cases x) simp
  qed simp
  then show ?thesis by (simp add: reference_tokens_def tile)
qed


section \<open>Plans from block ids\<close>

definition block_slot :: "int list \<Rightarrow> int \<Rightarrow> int \<Rightarrow> int \<Rightarrow> int \<Rightarrow> int" where
  "block_slot ids block_size base first_block t =
     ids ! nat ((t - base) div block_size - first_block) * block_size + (t - base) mod block_size"

definition blocks_cover :: "int list \<Rightarrow> int \<Rightarrow> (int \<times> int) list \<Rightarrow> int \<Rightarrow> int \<Rightarrow> bool" where
  "blocks_cover ids block_size ranges base first_block \<longleftrightarrow> 0 < block_size \<and> ranges_ok ranges \<and>
     (ranges = [] \<or> base \<le> fst (hd ranges) \<and> first_block * block_size \<le> fst (hd ranges) - base \<and>
       snd (last ranges) - base \<le> (first_block + int (length ids)) * block_size)"

lemma ranges_within:
  assumes "ranges_ok rs" "(s, e) \<in> set rs"
  shows "fst (hd rs) \<le> s \<and> s < e \<and> e \<le> snd (last rs)"
proof -
  have se: "s < e" using assms by (auto simp: ranges_ok_def list_all_iff)
  obtain k where k: "k < length rs" "rs ! k = (s, e)" using assms(2) by (auto simp: in_set_conv_nth)
  have sp: "spread rs" and pos: "\<And>j. j < length rs \<Longrightarrow> fst (rs ! j) < snd (rs ! j)"
    using assms(1) by (auto simp: ranges_ok_def list_all_length case_prod_beta)
  have "fst (hd rs) \<le> s"
  proof (cases "k = 0")
    case True
    then show ?thesis using k by (cases rs) auto
  next
    case False
    have "snd (rs ! 0) \<le> fst (rs ! k)" using spread_le [OF sp _ k(1), of 0] False by simp
    moreover have "rs ! 0 = hd rs" using k by (cases rs) auto
    moreover have "rs \<noteq> []" using k by auto
    ultimately show ?thesis using pos [of 0] k by simp
  qed
  moreover have "e \<le> snd (last rs)"
  proof (cases "k = length rs - 1")
    case True
    then show ?thesis using k by (cases "rs = []") (auto simp: last_conv_nth)
  next
    case False
    have "snd (rs ! k) \<le> fst (rs ! (length rs - 1))" using spread_le [OF sp, of k "length rs - 1"] False k by simp
    moreover have "rs ! (length rs - 1) = last rs" using k by (cases "rs = []") (auto simp: last_conv_nth)
    moreover have "rs \<noteq> []" using k by auto
    ultimately show ?thesis using pos [of "length rs - 1"] k by simp
  qed
  ultimately show ?thesis using se by simp
qed

lemma rank_right_less: "e \<in> set xs \<Longrightarrow> x < e \<Longrightarrow> rank_right xs x < length xs"
proof -
  assume "e \<in> set xs" "x < e"
  then have "takeWhile (\<lambda>e. e \<le> x) xs \<noteq> xs" unfolding takeWhile_eq_all_conv using linorder_not_le by blast
  then show ?thesis unfolding rank_right_def
    by (metis le_neq_implies_less length_takeWhile_le takeWhile_eq_take take_all_iff order_refl)
qed

lemma le_div: "0 < n \<Longrightarrow> a * n \<le> x \<Longrightarrow> a \<le> x div (n :: int)"
  using zdiv_mono1 [of "a * n" x n] by simp

lemma div_lt: "0 < n \<Longrightarrow> x < a * n \<Longrightarrow> x div (n :: int) < a"
proof (rule ccontr)
  assume n: "0 < n" and x: "x < a * n" and "\<not> x div n < a"
  then have "a * n \<le> x div n * n" by (intro mult_right_mono) auto
  moreover have "x div n * n + x mod n = x" "0 \<le> x mod n" using n by simp_all
  ultimately show False using x by linarith
qed

lemma next_divmod:
  assumes "0 < (n :: int)"
  shows "if x mod n + 1 < n then (x + 1) div n = x div n \<and> (x + 1) mod n = x mod n + 1
    else (x + 1) div n = x div n + 1 \<and> (x + 1) mod n = 0"
proof -
  define q r where "q = x div n" and "r = x mod n"
  have x: "x = q * n + r" and r: "0 \<le> r" "r < n" using assms by (simp_all add: q_def r_def)
  show ?thesis
  proof (cases "r + 1 < n")
    case True
    have "(x + 1) div n = q" "(x + 1) mod n = r + 1"
      using True r unfolding x by (auto simp: add.assoc intro!: int_div_pos_eq int_mod_pos_eq)
    then show ?thesis using True by (simp add: q_def r_def)
  next
    case False
    then have "x + 1 = (q + 1) * n" using r unfolding x by (simp add: distrib_right)
    then have "(x + 1) div n = q + 1" "(x + 1) mod n = 0" using assms by simp_all
    then show ?thesis using False by (simp add: q_def r_def)
  qed
qed

lemma block_step:
  assumes bs: "0 < bs" and t: "fb * bs \<le> t - base" "t + 1 - base < (fb + int (length ids)) * bs"
    and gap: "t + 1 \<notin> (\<lambda>e. e + base) ` set (block_gaps ids bs fb)"
  shows "block_slot ids bs base fb (t + 1) = block_slot ids bs base fb t + 1"
proof -
  define u where "u = t - base"
  have u1: "t + 1 - base = u + 1" by (simp add: u_def)
  define k where "k = nat (u div bs - fb)"
  have q: "fb \<le> u div bs" using le_div [OF bs t(1)] by (simp add: u_def)
  show ?thesis
  proof (cases "u mod bs + 1 < bs")
    case True
    then show ?thesis using next_divmod [OF bs, of u] by (simp add: block_slot_def u1 flip: u_def)
  next
    case False
    then have n: "(u + 1) div bs = u div bs + 1" "(u + 1) mod bs = 0" using next_divmod [OF bs, of u] by simp_all
    have "(u + 1) div bs < fb + int (length ids)" using div_lt [OF bs, of "u + 1"] t(2) by (simp add: u1)
    then have len: "k + 1 < length ids" using q n(1) by (simp add: k_def)
    have at: "u + 1 = (u div bs + 1) * bs" using n div_mult_mod_eq [of "u + 1" bs] by simp
    have "ids ! (k + 1) = ids ! k + 1"
    proof (rule ccontr)
      assume "ids ! (k + 1) \<noteq> ids ! k + 1"
      then have "(fb + int (k + 1)) * bs \<in> set (block_gaps ids bs fb)"
        using len by (auto simp: block_gaps_def intro!: image_eqI [where x = "k + 1"])
      moreover have "(fb + int (k + 1)) * bs = u + 1" using at q by (simp add: k_def)
      ultimately have "u + 1 + base \<in> (\<lambda>e. e + base) ` set (block_gaps ids bs fb)" by (metis imageI)
      then show False using gap by (simp add: u_def)
    qed
    moreover have "nat (u div bs + 1 - fb) = k + 1" using q by (simp add: k_def)
    moreover have "u mod bs = bs - 1" using False bs pos_mod_bound [of bs u] by linarith
    ultimately show ?thesis
      by (simp add: block_slot_def u1 n flip: u_def k_def) (simp add: algebra_simps)
  qed
qed

lemma block_run:
  assumes bs: "0 < bs" and lo: "fb * bs \<le> b - base" and hi: "e - base \<le> (fb + int (length ids)) * bs"
    and gap: "\<And>x. b < x \<Longrightarrow> x < e \<Longrightarrow> x \<notin> (\<lambda>e. e + base) ` set (block_gaps ids bs fb)"
  shows "b + int k < e \<Longrightarrow> block_slot ids bs base fb (b + int k) = block_slot ids bs base fb b + int k"
proof (induction k)
  case (Suc k)
  have "block_slot ids bs base fb (b + int k + 1) = block_slot ids bs base fb (b + int k) + 1"
  proof (rule block_step [OF bs])
    show "b + int k + 1 \<notin> (\<lambda>e. e + base) ` set (block_gaps ids bs fb)" by (rule gap) (use Suc.prems in auto)
  qed (use lo hi Suc.prems in auto)
  then show ?case using Suc by (simp add: algebra_simps)
qed simp

lemma mapR_of_map: "mapR f (map g xs) = mapR (\<lambda>x. f (g x)) xs"
  by (induction xs) (simp_all split: sum.split)

lemma plan_block_reference:
  assumes cover: "blocks_cover ids bs rs base fb" and ne: "ids \<noteq> []"
  shows "\<exists>rows. plan_block_id_ranges c ids bs rs base fb = Inr rows \<and>
    plan_tokens rows = reference_tokens rs (block_slot ids bs base fb) \<and> list_all (\<lambda>(c, s, ct, n). 0 < n) rows"
proof (cases "rs = []")
  case True
  then show ?thesis using cover by (simp add: plan_block_id_ranges_def blocks_cover_def reference_tokens_def)
next
  case False
  have bs: "0 < bs" and ok: "ranges_ok rs" and lo: "base \<le> fst (hd rs)" "fb * bs \<le> fst (hd rs) - base"
    and hi: "snd (last rs) - base \<le> (fb + int (length ids)) * bs"
    using cover False by (auto simp: blocks_cover_def)
  define es where "es = block_edges c ids bs rs base fb"
  have es: "sorted_wrt (<) es" unfolding es_def block_edges_def Let_def by (rule sorted_wrt_filter [OF sorted_edges])
  have ends: "s \<in> set es \<and> e \<in> set es" if "(s, e) \<in> set rs" for s e
    using ranges_within [OF ok that] that by (force simp: es_def block_edges_def Let_def)
  have inside: "fst (hd rs) \<le> x \<and> x \<le> snd (last rs)" if "x \<in> set es" for x
    using that by (auto simp: es_def block_edges_def Let_def)
  have gaps: "x \<notin> (\<lambda>e. e + base) ` set (block_gaps ids bs fb)" if "x \<notin> set es" "fst (hd rs) \<le> x" "x \<le> snd (last rs)" for x
    using that by (auto simp: es_def block_edges_def Let_def)
  define chunk where "chunk = rank_right (map snd rs)"
  have last_edge: "snd (last rs) \<in> set (map snd rs)" using False by simp
  have before_end: "b < snd (last rs)" if "b \<in> set (butlast es)" for b
  proof -
    have "es = butlast es @ [last es]" using that by (cases es rule: rev_cases) auto
    then have "b < last es" using es that by (metis sorted_wrt_append list.set_intros(1))
    moreover have "last es \<le> snd (last rs)" using inside that by (metis empty_iff in_set_butlastD last_in_set list.set(1))
    ultimately show ?thesis by simp
  qed
  define P where "P = (\<lambda>(b, e). b \<ge> fst (rs ! chunk b) \<and> e \<le> snd (rs ! chunk b))"
  have tile: "\<exists>pieces. mapR (\<lambda>x. active_piece rs (chunk (fst x)) x) (consecutive es) = Inr pieces \<and>
    keep_active pieces = map (\<lambda>(b, e). (chunk b, fst (rs ! chunk b), b, e)) (filter P (consecutive es)) \<and>
    range_tokens (filter P (consecutive es)) = range_tokens rs"
    unfolding P_def
  proof (rule pieces_tile [OF ok es ends])
    show "chunk b < length rs" if "b \<in> set (butlast es)" for b
      using rank_right_less [OF last_edge before_end [OF that]] by (simp add: chunk_def)
    show "chunk b = k" if "k < length rs" "fst (rs ! k) \<le> b" "b < snd (rs ! k)" for b k
      using rank_of_range [OF ok that] by (simp add: chunk_def)
  qed auto
  then obtain pieces where m: "mapR (\<lambda>x. active_piece rs (chunk (fst x)) x) (consecutive es) = Inr pieces"
    and keep: "keep_active pieces = map (\<lambda>(b, e). (chunk b, fst (rs ! chunk b), b, e)) (filter P (consecutive es))"
    and cov: "range_tokens (filter P (consecutive es)) = range_tokens rs" by blast
  have piece: "b < e \<and> chunk b < length rs \<and> fst (rs ! chunk b) \<le> b \<and> e \<le> snd (rs ! chunk b) \<and>
      fst (hd rs) \<le> b \<and> e \<le> snd (last rs) \<and> (b, e) \<in> set (consecutive es)"
    if "(b, e) \<in> set (filter P (consecutive es))" for b e
  proof -
    have be: "(b, e) \<in> set (consecutive es)" using that by simp
    have "b \<in> set (butlast es)" using be unfolding consecutive_def by (rule set_zip_leftD)
    then have "chunk b < length rs" using rank_right_less [OF last_edge before_end] by (simp add: chunk_def)
    then show ?thesis
      using that be consecutive_spread [OF es] inside consecutive_members [OF be] by (auto simp: P_def)
  qed
  have slot: "block_slot ids bs base fb (b + k) = block_slot ids bs base fb b + k"
    if "(b, e) \<in> set (filter P (consecutive es))" "0 \<le> k" "b + k < e" for b e k
  proof -
    have "block_slot ids bs base fb (b + int (nat k)) = block_slot ids bs base fb b + int (nat k)"
    proof (rule block_run [OF bs])
      show "x \<notin> (\<lambda>e. e + base) ` set (block_gaps ids bs fb)" if "b < x" "x < e" for x
        using gaps [OF consecutive_gap [OF es _ that]] piece [OF \<open>(b, e) \<in> _\<close>] that by auto
    qed (use piece [OF that(1)] lo hi that in auto)
    then show ?thesis using that by simp
  qed
  have at: "tensor_at ids ((b - base) div bs - fb) = Inr (ids ! nat ((b - base) div bs - fb))"
    if "(b, e) \<in> set (filter P (consecutive es))" for b e
  proof -
    have "fb \<le> (b - base) div bs" by (rule le_div [OF bs]) (use piece [OF that] lo in auto)
    moreover have "(b - base) div bs < fb + int (length ids)" by (rule div_lt [OF bs]) (use piece [OF that] hi in auto)
    ultimately show ?thesis by (simp add: tensor_at_def)
  qed
  define rows where "rows = map (\<lambda>(b, e). (int (chunk b), block_slot ids bs base fb b, b - fst (rs ! chunk b), e - b))
    (filter P (consecutive es))"
  have "mapR (\<lambda>(chunk, s, b, e).
      bindR (tensor_at ids ((b - base) div bs - fb)) (\<lambda>i. Inr (int chunk, i * bs + (b - base) mod bs, b - s, e - b)))
      (keep_active pieces) = Inr rows"
    unfolding keep rows_def mapR_of_map
  proof (rule mapR_map)
    fix x
    assume x: "x \<in> set (filter P (consecutive es))"
    obtain b e where be: "x = (b, e)" by (cases x)
    show "(case (case x of (b, e) \<Rightarrow> (chunk b, fst (rs ! chunk b), b, e)) of (chunk, s, b, e) \<Rightarrow>
        bindR (tensor_at ids ((b - base) div bs - fb)) (\<lambda>i. Inr (int chunk, i * bs + (b - base) mod bs, b - s, e - b))) =
      Inr (case x of (b, e) \<Rightarrow> (int (chunk b), block_slot ids bs base fb b, b - fst (rs ! chunk b), e - b))"
      using at [OF x [unfolded be]] by (simp add: be block_slot_def)
  qed
  moreover have "\<not> list_ex (\<lambda>(s, e). s < base \<or> e \<le> s) rs"
    using ranges_within [OF ok] lo(1) by (force simp: list_ex_iff)
  ultimately have plan: "plan_block_id_ranges c ids bs rs base fb = Inr rows"
    using bs ne False lo hi m by (simp add: plan_block_id_ranges_def chunk_def flip: es_def)
  have "plan_tokens rows = reference_tokens rs (block_slot ids bs base fb)"
    unfolding rows_def by (rule planned_pieces [OF ok cov]) (use piece slot in blast)+
  moreover have "list_all (\<lambda>(c, s, ct, n). 0 < n) rows"
    using piece by (fastforce simp: rows_def list_all_iff)
  ultimately show ?thesis using plan by blast
qed


section \<open>Growing a table\<close>

lemma grow_capacity_ends: "0 < c \<Longrightarrow> \<exists>k \<ge> n. \<exists>j \<ge> c. grow_capacity c n = Some k \<and> k = j"
proof (induction "n - c" arbitrary: c rule: less_induct)
  case less
  show ?case
  proof (cases "c < n")
    case True
    then have "n - c * 2 < n - c" "0 < c * 2" using less.prems by auto
    then obtain k where "n \<le> k" "c * 2 \<le> k" "grow_capacity (c * 2) n = Some k" using less.hyps [of "c * 2"] by blast
    then show ?thesis using True by (subst grow_capacity.simps) auto
  next
    case False
    then show ?thesis by (subst grow_capacity.simps) auto
  qed
qed

definition table_ok :: "'r tables \<Rightarrow> nat \<Rightarrow> bool" where
  "table_ok t a \<longleftrightarrow> a < tb_next t \<and> tb_columns t a \<noteq> []"

lemma append_result:
  assumes prev: "case previous of None \<Rightarrow> keep = 0 | Some a \<Rightarrow> table_ok t a \<and> keep \<le> length (tb_columns t a)"
  shows "\<exists>a copied t'. append_cpu_columns blank previous keep suffix t = Some ((a, copied), t') \<and>
    take (keep + length suffix) (tb_columns t' a) = take keep (case previous of None \<Rightarrow> [] | Some b \<Rightarrow> tb_columns t b) @ suffix \<and>
    keep + length suffix \<le> length (tb_columns t' a) \<and> table_ok t' a \<and>
    (\<forall>b. table_ok t b \<longrightarrow> table_ok t' b \<and> length (tb_columns t b) \<le> length (tb_columns t' b) \<and>
      take (if previous = Some b then keep else length (tb_columns t b)) (tb_columns t' b) =
      take (if previous = Some b then keep else length (tb_columns t b)) (tb_columns t b))"
proof -
  define required where "required = keep + length suffix"
  define columns where "columns = (case previous of None \<Rightarrow> 0 | Some a \<Rightarrow> length (tb_columns t a))"
  show ?thesis
  proof (cases "previous = None \<or> required > columns")
    case True
    define c where "c = (if previous = None then 4 else columns)"
    have "0 < c" using prev by (auto simp: c_def columns_def table_ok_def split: option.splits)
    then obtain capacity where cap: "grow_capacity c required = Some capacity" "required \<le> capacity" "c \<le> capacity"
      using grow_capacity_ends [of c required] by blast
    define old where "old = (case previous of None \<Rightarrow> [] | Some a \<Rightarrow> take keep (tb_columns t a))"
    have old: "length old = keep" "old = take keep (case previous of None \<Rightarrow> [] | Some b \<Rightarrow> tb_columns t b)"
      using prev by (auto simp: old_def split: option.splits)
    define fresh where "fresh = old @ suffix @ replicate (capacity - required) blank"
    have len: "length fresh = capacity" using cap old by (simp add: fresh_def required_def)
    have "append_cpu_columns blank previous keep suffix t = Some ((tb_next t, if keep = 0 then 0 else keep),
        t\<lparr>tb_next := tb_next t + 1, tb_columns := (tb_columns t)(tb_next t := fresh)\<rparr>)"
      using True cap(1) by (simp add: append_cpu_columns_def Let_def fresh_def old_def c_def flip: required_def columns_def)
    moreover have "fresh \<noteq> []" using len \<open>0 < c\<close> cap(3) by auto
    moreover have "take required fresh = old @ suffix" using old by (simp add: fresh_def required_def)
    ultimately show ?thesis using cap len old(2)
      by (intro exI [of _ "tb_next t"] exI conjI) (auto simp: table_ok_def required_def)
  next
    case False
    then obtain a where a: "previous = Some a" by auto
    have len: "required \<le> length (tb_columns t a)" using False by (simp add: columns_def a)
    define new where "new = take keep (tb_columns t a) @ suffix @ drop required (tb_columns t a)"
    have run: "append_cpu_columns blank previous keep suffix t = Some ((a, 0), t\<lparr>tb_columns := (tb_columns t)(a := new)\<rparr>)"
      using len by (simp add: append_cpu_columns_def Let_def new_def a flip: required_def)
    have keep: "keep \<le> length (tb_columns t a)" "table_ok t a" using prev by (simp_all add: a)
    have "length new = length (tb_columns t a)" "take required new = take keep (tb_columns t a) @ suffix"
      "take keep new = take keep (tb_columns t a)"
      using len keep by (simp_all add: new_def required_def)
    then show ?thesis using run len keep
      by (intro exI [of _ a] exI [of _ 0] exI [of _ "t\<lparr>tb_columns := (tb_columns t)(a := new)\<rparr>"] conjI) (auto simp: a table_ok_def required_def)
  qed
qed

section \<open>Tokens of parts of a plan\<close>

definition shift_token :: "nat \<Rightarrow> int \<times> int \<times> int \<Rightarrow> int \<times> int \<times> int" where
  "shift_token n x = (case x of (c, rest) \<Rightarrow> (c + int n, rest))"

lemma shifted_plan: "plan_tokens (map (shift_chunk n) rows) = map (shift_token n) (plan_tokens rows)"
  by (induction rows) (auto simp: row_tokens_def shift_chunk_def shift_token_def)

lemma in_range_index: "t \<in> set (range_tokens rs) \<Longrightarrow> \<exists>k < length rs. fst (rs ! k) \<le> t \<and> t < snd (rs ! k)"
  unfolding in_range_tokens by (auto simp: in_set_conv_nth) (metis fst_conv snd_conv)

lemma reference_append:
  assumes "ranges_ok (rs @ rs')"
  shows "reference_tokens (rs @ rs') f = reference_tokens rs f @ map (shift_token (length rs)) (reference_tokens rs' f)"
proof -
  have ok: "ranges_ok rs" "ranges_ok rs'" using assms by (auto simp: ranges_ok_def spread_def sorted_wrt_append)
  have "reference_token (rs @ rs') f t = reference_token rs f t" if "t \<in> set (range_tokens rs)" for t
  proof -
    obtain k where k: "k < length rs" "fst (rs ! k) \<le> t" "t < snd (rs ! k)"
      using in_range_index [OF \<open>t \<in> set _\<close>] by blast
    have "rank_right (map snd (rs @ rs')) t = k" using k by (intro rank_of_range [OF assms]) (auto simp: nth_append)
    then show ?thesis using rank_of_range [OF ok(1) k] k(1) by (simp add: reference_token_def Let_def nth_append)
  qed
  moreover have "reference_token (rs @ rs') f t = shift_token (length rs) (reference_token rs' f t)" if "t \<in> set (range_tokens rs')" for t
  proof -
    obtain k where k: "k < length rs'" "fst (rs' ! k) \<le> t" "t < snd (rs' ! k)"
      using in_range_index [OF \<open>t \<in> set _\<close>] by blast
    have "rank_right (map snd (rs @ rs')) t = length rs + k" using k by (intro rank_of_range [OF assms]) (auto simp: nth_append)
    then show ?thesis using rank_of_range [OF ok(2) k] by (simp add: reference_token_def shift_token_def Let_def)
  qed
  ultimately show ?thesis by (simp add: reference_tokens_def)
qed

lemma reference_cong: "(\<And>t. t \<in> set (range_tokens rs) \<Longrightarrow> f t = g t) \<Longrightarrow> reference_tokens rs f = reference_tokens rs g"
  by (simp add: reference_tokens_def reference_token_def Let_def)

lemma tokens_before_chunk:
  assumes "list_all (\<lambda>(c, s, ct, n). 0 < n) rows"
  shows "plan_tokens (take (rank_left (map fst rows) m) rows) = takeWhile (\<lambda>x. fst x < m) (plan_tokens rows)"
  using assms
proof (induction rows)
  case Nil
  then show ?case by simp
next
  case (Cons r rows)
  obtain c s ct n where r: "r = (c, s, ct, n)" by (metis surj_pair)
  have n: "0 < n" using Cons.prems by (simp add: r)
  show ?case
  proof (cases "c < m")
    case True
    then have "\<forall>x \<in> set (row_tokens r). fst x < m" by (auto simp: row_tokens_def r)
    then show ?thesis using Cons True by (simp add: rank_left_def r takeWhile_append2)
  next
    case False
    obtain x xs where x: "row_tokens r = x # xs" "fst x = c"
    proof -
      have "[0..n - 1] = 0 # [1..n - 1]" using n by (simp add: upto_rec1)
      then show ?thesis using that by (simp add: row_tokens_def r)
    qed
    then show ?thesis using False by (simp add: rank_left_def r)
  qed
qed

lemma reference_last:
  assumes "ranges_ok rs" "rs \<noteq> []"
  shows "takeWhile (\<lambda>x. fst x < int (length rs) - 1) (reference_tokens rs f) = reference_tokens (butlast rs) f"
proof -
  obtain s e where rs: "rs = butlast rs @ [(s, e)]" using assms(2) by (metis append_butlast_last_id surj_pair)
  have "ranges_ok (butlast rs @ [(s, e)])" using assms(1) rs by simp
  then have ok: "ranges_ok (butlast rs)" "ranges_ok [(s, e)]" "s < e"
    by (auto simp: ranges_ok_def spread_def sorted_wrt_append)
  have low: "fst x < int (length rs) - 1" if "x \<in> set (reference_tokens (butlast rs) f)" for x
  proof -
    have "x \<in> reference_token (butlast rs) f ` set (range_tokens (butlast rs))" using that by (simp add: reference_tokens_def)
    then obtain t where t: "t \<in> set (range_tokens (butlast rs))" "x = reference_token (butlast rs) f t" by blast
    obtain k where k: "k < length (butlast rs)" "fst (butlast rs ! k) \<le> t" "t < snd (butlast rs ! k)"
      using in_range_index [OF t(1)] by blast
    then show ?thesis using rank_of_range [OF ok(1) k] by (simp add: t(2) reference_token_def Let_def)
  qed
  have "range_tokens [(s, e)] = s # [s + 1..e - 1]" using ok(3) by (simp add: upto_rec1)
  then obtain x xs where x: "reference_tokens [(s, e)] f = x # xs" "x = reference_token [(s, e)] f s"
    by (simp add: reference_tokens_def)
  have "fst x = 0" using rank_of_range [OF ok(2), of 0 s] ok(3) by (simp add: x(2) reference_token_def Let_def)
  then have "\<not> fst (shift_token (length (butlast rs)) x) < int (length rs) - 1"
    using assms(2) by (cases x) (simp add: shift_token_def)
  moreover have "reference_tokens rs f = reference_tokens (butlast rs) f @ map (shift_token (length (butlast rs))) (x # xs)"
    using reference_append [of "butlast rs" "[(s, e)]" f] assms(1) rs x(1) by simp
  ultimately show ?thesis using low by (simp add: takeWhile_append2)
qed

end
