(* ===== verification/DmaIncremental.thy ===== *)
theory DmaIncremental
  imports DmaPlans
begin

text \<open>
  Incremental plans of \<open>layerwise_dma.py\<close>: a plan that grows from a cached one copies, token by token, what a
  plan from scratch would.
\<close>

section \<open>Incremental plans\<close>

























end
