(* ===== verification/DmaBinding.thy ===== *)
theory DmaBinding
  imports DmaIncremental
begin

text \<open>
  Binding a plan to addresses (\<open>bind_copy_addresses\<close> of \<open>layerwise_dma.py\<close>): what each native row moves, and
  that it stays within its chunk.
\<close>

section \<open>Bound rows\<close>








lemma take_concat_same: "list_all (\<lambda>x. length x = w) xs \<Longrightarrow> take (n * w) (concat xs) = concat (take n xs)"
proof (induction xs arbitrary: n)
  case (Cons x xs)
  then show ?case by (cases n) auto
qed simp




end
