(* ===== verification/DirectStore.thy ===== *)
theory DirectStore
  imports DirectStorePlan Effects
begin

text \<open>
  The direct store of \<open>cache_engine.py\<close>: pages of a prefill are put to external storage straight from the NPU,
  a request's puts are tracked until they are done, failed puts are repaired through the CPU, and the ends up to
  which each group is stored (\<open>committed_end\<close>) are published.  Futures are numbers whose state the surroundings
  decide; other threads (future callbacks, the background store worker) take turns while a call blocks.
\<close>

section \<open>The state of a request\<close>

datatype future_state = Running | Cancelled | Failed exn | Succeeded

text \<open>What a page batch is stored with again when its put failed: the tuple of \<open>_direct_retry_args\<close>.\<close>

record retry_args =
  ra_tokens :: "int list"
  ra_caches :: "(int \<times> nat) list"
  ra_slots :: "(int \<times> nat) list"
  ra_configs :: pyval
  ra_base :: int
  ra_keys :: "string list"
  ra_ends :: "(int \<times> int) list"

record direct_state =
  rs_futures :: "nat list"
  rs_pending_keys :: "string list"
  rs_submitted :: "(int \<times> int) list"
  rs_committed :: "(int \<times> int) list"
  rs_planned_end :: int
  rs_planned_hash :: chunk_hash
  rs_accepted :: "int option"
  rs_jobs :: int
  rs_pages :: int
  rs_legacy :: int
  rs_bytes :: int
  rs_event :: "nat option"
  rs_event_source :: string
  rs_event_end :: int
  rs_events :: "nat list"
  rs_events_end :: int
  rs_finalized :: bool
  rs_remote :: "nat option"

definition fresh_state :: direct_state where
  "fresh_state = \<lparr>rs_futures = [], rs_pending_keys = [], rs_submitted = [], rs_committed = [], rs_planned_end = 0,
     rs_planned_hash = HashI 0, rs_accepted = None, rs_jobs = 0, rs_pages = 0, rs_legacy = 0, rs_bytes = 0,
     rs_event = None, rs_event_source = ''missing'', rs_event_end = 0, rs_events = [], rs_events_end = 0,
     rs_finalized = False, rs_remote = None\<rparr>"

text \<open>
  The engine's part: callbacks that are registered and have not run, and the queue of the background store
  worker.  The worker's queue holds request and work, or the poison pill.
\<close>

record 'w direct_engine =
  de_states :: "(string \<times> direct_state) list"
  de_jobs :: "nat list"
  de_retry :: "(nat \<times> retry_args) list"
  de_completed :: "nat list"
  de_callbacks :: "(nat \<times> string \<times> string list) list"
  de_pending :: "(string \<times> int) list"
  de_require :: bool
  de_queue :: "(string \<times> nat) option list"
  de_worker :: bool
  de_deferred :: "string list"
  de_reported :: "string list"
  de_world :: 'w

datatype turn = CallbackTurn nat | WorkerTurn

text \<open>
  The surroundings: the futures of the storage manager, the layerwise store, the remote-fill coordinator, the
  store pipeline, and the turns that other threads take while a call blocks.
\<close>

record 'w direct_env =
  dv_queue_max :: nat
  dv_async :: bool
  dv_force_layerwise :: bool
  dv_status :: "nat \<Rightarrow> 'w \<Rightarrow> future_state"
  dv_turns :: "'w \<Rightarrow> turn list"
  dv_wait_job :: "nat \<Rightarrow> ('w, bool) act"
  dv_result :: "nat \<Rightarrow> ('w, unit) act"
  dv_put :: "page_batch \<Rightarrow> ('w, nat) act"
  dv_key_string :: "cache_key \<Rightarrow> string"
  dv_layer_key :: "cache_key \<Rightarrow> bool"
  dv_store_layer :: "string \<Rightarrow> int list \<Rightarrow> nat \<Rightarrow> nat \<Rightarrow> int \<Rightarrow> int \<Rightarrow> pyval \<Rightarrow> int \<Rightarrow> ('w, int option) act"
  dv_sync_wait :: "('w, unit) act"
  dv_poll_layerwise :: "string list \<Rightarrow> ('w, unit) act"
  dv_latch_fatal :: "nat option \<Rightarrow> ('w, unit) act"
  dv_remote_wait :: "nat \<Rightarrow> ('w, unit) act"
  dv_has_handoff :: "nat \<Rightarrow> 'w \<Rightarrow> bool"
  dv_terminal :: "nat \<Rightarrow> 'w \<Rightarrow> string option"
  dv_remote_finish :: "string \<Rightarrow> nat \<Rightarrow> int \<Rightarrow> int \<Rightarrow> ('w, unit) act"
  dv_remote_release :: "string \<Rightarrow> nat \<Rightarrow> bool \<Rightarrow> ('w, bool) act"
  dv_release_leases :: "string \<Rightarrow> ('w, unit) act"
  dv_forget_live :: "string \<Rightarrow> ('w, unit) act"
  dv_queue_put :: "string \<times> nat \<Rightarrow> ('w, unit) act"
  dv_pipeline :: "string \<times> nat \<Rightarrow> ('w, unit) act"
  dv_record_event :: "('w, nat) act"

type_synonym ('w, 'a) de_act = "('w direct_engine, 'a) act"

definition in_world :: "('w, 'a) act \<Rightarrow> ('w, 'a) de_act" where
  "in_world m = (\<lambda>s. case m (de_world s) of (r, w) \<Rightarrow> (r, s\<lparr>de_world := w\<rparr>))"

definition state_of :: "string \<Rightarrow> 'w direct_engine \<Rightarrow> direct_state" where
  "state_of req s = (case map_of (de_states s) req of None \<Rightarrow> fresh_state | Some st \<Rightarrow> st)"

definition on_state :: "string \<Rightarrow> (direct_state \<Rightarrow> direct_state) \<Rightarrow> ('w, unit) de_act" where
  "on_state req f = writeA (\<lambda>s. s\<lparr>de_states := AList.update req (f (state_of req s)) (de_states s)\<rparr>)"

definition finallyA :: "('s, 'a) act \<Rightarrow> ('s, unit) act \<Rightarrow> ('s, 'a) act" where
  "finallyA m n = bindA (attemptA m) (\<lambda>r. seqA n (liftA r))"

section \<open>Pending counts\<close>

definition pending_of :: "string \<Rightarrow> (string \<times> int) list \<Rightarrow> int" where
  "pending_of r d = (case map_of d r of None \<Rightarrow> 0 | Some n \<Rightarrow> n)"

definition pending_add :: "string \<Rightarrow> (string \<times> int) list \<Rightarrow> (string \<times> int) list" where
  "pending_add r d = AList.update r (pending_of r d + 1) d"

text \<open>\<open>count = d.get(r, 1) - 1\<close>; the entry is removed when it reaches zero.\<close>

definition pending_drop :: "string \<Rightarrow> (string \<times> int) list \<Rightarrow> (string \<times> int) list" where
  "pending_drop r d = (let n = (case map_of d r of None \<Rightarrow> 1 | Some n \<Rightarrow> n) - 1 in
     if n \<le> 0 then AList.delete r d else AList.update r n d)"

definition add_pending :: "string \<Rightarrow> ('w, unit) de_act" where
  "add_pending r = writeA (\<lambda>s. s\<lparr>de_pending := pending_add r (de_pending s)\<rparr>)"

definition drop_pending :: "string \<Rightarrow> ('w, unit) de_act" where
  "drop_pending r = writeA (\<lambda>s. s\<lparr>de_pending := pending_drop r (de_pending s)\<rparr>)"

definition without :: "'a list \<Rightarrow> 'a list \<Rightarrow> 'a list" where
  "without xs ys = filter (\<lambda>y. y \<notin> set xs) ys"

section \<open>Futures\<close>

definition forget_keys :: "string \<Rightarrow> string list \<Rightarrow> ('w, unit) de_act" where
  "forget_keys req keys = bindA (readA (\<lambda>s. map_of (de_states s) req)) (\<lambda>st.
     if st = None then retA () else on_state req (\<lambda>st. st\<lparr>rs_pending_keys := without keys (rs_pending_keys st)\<rparr>))"

definition mark_completed :: "nat \<Rightarrow> ('w, unit) de_act" where
  "mark_completed f = writeA (\<lambda>s. s\<lparr>de_completed := List.insert f (de_completed s)\<rparr>)"

definition direct_store_done :: "'w direct_env \<Rightarrow> string \<Rightarrow> string list \<Rightarrow> nat \<Rightarrow> ('w, unit) de_act" where
  "direct_store_done env req keys f = bindA (readA (\<lambda>s. f \<in> set (de_completed s))) (\<lambda>known.
     if known then retA ()
     else bindA (readA (\<lambda>s. dv_status env f (de_world s))) (\<lambda>status.
       if status \<noteq> Succeeded then retA ()
       else seqA (forget_keys req keys) (seqA (mark_completed f) (drop_pending req))))"

definition callback_turn :: "'w direct_env \<Rightarrow> nat \<Rightarrow> ('w, unit) de_act" where
  "callback_turn env f = bindA (readA (\<lambda>s. (map_of (de_callbacks s) f, dv_status env f (de_world s)))) (\<lambda>(c, status).
     case c of None \<Rightarrow> retA ()
     | Some (req, keys) \<Rightarrow> if status = Running then retA ()
         else seqA (writeA (\<lambda>s. s\<lparr>de_callbacks := AList.delete f (de_callbacks s)\<rparr>)) (direct_store_done env req keys f))"

text \<open>One turn of \<open>_store_worker_loop\<close>: an exception of the pipeline is logged only.\<close>

definition worker_turn :: "'w direct_env \<Rightarrow> ('w, unit) de_act" where
  "worker_turn env = bindA (readA (\<lambda>s. (de_worker s, de_queue s))) (\<lambda>(alive, queue).
     if \<not> alive then retA ()
     else case queue of [] \<Rightarrow> retA ()
     | None # rest \<Rightarrow> writeA (\<lambda>s. s\<lparr>de_queue := rest, de_worker := False\<rparr>)
     | Some work # rest \<Rightarrow> seqA (writeA (\<lambda>s. s\<lparr>de_queue := rest\<rparr>))
         (bindA (attemptA (in_world (dv_pipeline env work))) (\<lambda>_. drop_pending (fst work))))"

definition take_turn :: "'w direct_env \<Rightarrow> turn \<Rightarrow> ('w, unit) de_act" where
  "take_turn env t = (case t of CallbackTurn f \<Rightarrow> callback_turn env f | WorkerTurn \<Rightarrow> worker_turn env)"

text \<open>A call that blocks: other threads take turns before it returns or raises.\<close>

definition blocking :: "'w direct_env \<Rightarrow> ('w, 'a) act \<Rightarrow> ('w, 'a) de_act" where
  "blocking env m = bindA (attemptA (in_world m)) (\<lambda>r.
     bindA (readA (\<lambda>s. dv_turns env (de_world s))) (\<lambda>ts. seqA (eachA (take_turn env) ts) (liftA r)))"

section \<open>Submitting a batch\<close>

definition queue_limit :: "'w direct_env \<Rightarrow> nat" where
  "queue_limit env = (if dv_queue_max env = 0 then 2 else dv_queue_max env)"

definition direct_timeout :: exn where
  "direct_timeout = TimeoutError ''Timed out waiting for direct-store queue space''"

fun wait_backpressure :: "'w direct_env \<Rightarrow> nat list \<Rightarrow> ('w, unit) de_act" where
  "wait_backpressure env [] = retA ()"
| "wait_backpressure env (f # fs) =
     (if length (f # fs) \<ge> queue_limit env
      then bindA (blocking env (dv_wait_job env f)) (\<lambda>pending.
        if pending then raiseA direct_timeout
        else seqA (writeA (\<lambda>s. s\<lparr>de_jobs := fs\<rparr>)) (wait_backpressure env fs))
      else retA ())"

definition batch_total :: "page_batch \<Rightarrow> int" where
  "batch_total b = sum_list (map sum_list (db_sizes b))"

definition legacy_count :: "'w direct_env \<Rightarrow> page_batch \<Rightarrow> int" where
  "legacy_count env b = int (length (filter (dv_layer_key env) (db_keys b)))"

definition submit_batch :: "'w direct_env \<Rightarrow> page_batch \<Rightarrow> ('w, nat) de_act" where
  "submit_batch env b =
     (let req = db_req_id b; keys = map (dv_key_string env) (db_keys b); legacy = legacy_count env b in
      bindA (readA de_jobs) (\<lambda>jobs. seqA (wait_backpressure env jobs)
     (seqA (on_state req (\<lambda>st. st\<lparr>rs_pending_keys := py_unique (rs_pending_keys st @ keys)\<rparr>))
     (seqA (add_pending req)
     (bindA (attemptA (in_world (dv_put env b))) (\<lambda>r.
        case r of
          Inl e \<Rightarrow> seqA (on_state req (\<lambda>st. st\<lparr>rs_pending_keys := without keys (rs_pending_keys st)\<rparr>))
            (seqA (drop_pending req) (raiseA e))
        | Inr f \<Rightarrow> seqA (on_state req (\<lambda>st. st\<lparr>rs_futures := rs_futures st @ [f], rs_jobs := rs_jobs st + 1,
              rs_pages := rs_pages st + (int (length (db_keys b)) - legacy), rs_legacy := rs_legacy st + legacy,
              rs_bytes := rs_bytes st + batch_total b\<rparr>))
            (seqA (writeA (\<lambda>s. s\<lparr>de_jobs := de_jobs s @ [f]\<rparr>)) (retA f))))))))"

definition add_callback :: "'w direct_env \<Rightarrow> string \<Rightarrow> string list \<Rightarrow> nat \<Rightarrow> ('w, unit) de_act" where
  "add_callback env req keys f = bindA (readA (\<lambda>s. dv_status env f (de_world s))) (\<lambda>status.
     if status = Running then writeA (\<lambda>s. s\<lparr>de_callbacks := (f, req, keys) # de_callbacks s\<rparr>)
     else direct_store_done env req keys f)"

definition track_batch :: "'w direct_env \<Rightarrow> page_batch \<Rightarrow> retry_args \<Rightarrow> ('w, nat) de_act" where
  "track_batch env b retry =
     (let req = db_req_id b; keys = map (dv_key_string env) (db_keys b) in
      bindA (submit_batch env b) (\<lambda>f.
      seqA (on_state req (\<lambda>st. st\<lparr>rs_submitted := fold raise_end (db_group_ends b) (rs_submitted st)\<rparr>))
     (seqA (writeA (\<lambda>s. s\<lparr>de_retry := AList.update f (retry\<lparr>ra_keys := keys, ra_ends := db_group_ends b\<rparr>) (de_retry s)\<rparr>))
     (seqA (add_callback env req keys f) (retA f)))))"

section \<open>Storing through the CPU\<close>

definition set_require :: "bool \<Rightarrow> ('w, unit) de_act" where
  "set_require b = writeA (\<lambda>s. s\<lparr>de_require := b\<rparr>)"

definition lookup :: "(int \<times> 'a) list \<Rightarrow> int \<Rightarrow> 'a res" where
  "lookup d g = (case map_of d g of None \<Rightarrow> Inl KeyError | Some x \<Rightarrow> Inr x)"

definition unaddressable :: exn where
  "unaddressable = RuntimeError ''Direct prefill CPU fallback cannot address an uncommitted prefix''"

text \<open>\<open>int(getattr(result, "committed_end", start) or start)\<close>\<close>

definition committed_or :: "int \<Rightarrow> int option \<Rightarrow> int" where
  "committed_or start r = (case r of None \<Rightarrow> start | Some c \<Rightarrow> if c = 0 then start else c)"

definition store_cpu_group :: "'w direct_env \<Rightarrow> string \<Rightarrow> int list \<Rightarrow> nat \<Rightarrow> nat \<Rightarrow> int \<Rightarrow> int \<Rightarrow> pyval \<Rightarrow> int \<Rightarrow>
    ('w, int) de_act" where
  "store_cpu_group env req tokens caches slots g start configs base =
     (if start \<ge> int (length tokens) then retA start
      else if start < base then raiseA unaddressable
      else seqA (set_require True)
        (finallyA (bindA (blocking env (dv_store_layer env req tokens caches slots g start configs base)) (\<lambda>c.
             seqA (blocking env (dv_sync_wait env)) (retA (committed_or start c))))
           (set_require False)))"

definition set_ends :: "string \<Rightarrow> int \<Rightarrow> int \<Rightarrow> ('w, unit) de_act" where
  "set_ends req g c = on_state req (\<lambda>st. st\<lparr>rs_committed := AList.update g c (rs_committed st),
     rs_submitted := AList.update g c (rs_submitted st)\<rparr>)"

definition retry_cpu_group :: "'w direct_env \<Rightarrow> string \<Rightarrow> retry_args \<Rightarrow> int \<times> nat \<Rightarrow> ('w, unit) de_act" where
  "retry_cpu_group env req ra gc = (case gc of (g, caches) \<Rightarrow>
     bindA (liftA (lookup (ra_slots ra) g)) (\<lambda>slots.
     bindA (readA (\<lambda>s. group_end (rs_committed (state_of req s)) g)) (\<lambda>start.
     bindA (store_cpu_group env req (ra_tokens ra) caches slots g start (ra_configs ra) (ra_base ra)) (\<lambda>c.
       set_ends req g c))))"

definition retry_direct_cpu :: "'w direct_env \<Rightarrow> string \<Rightarrow> retry_args \<Rightarrow> ('w, unit) de_act" where
  "retry_direct_cpu env req ra = eachA (retry_cpu_group env req ra) (ra_caches ra)"

section \<open>Waiting for the puts of a request\<close>

definition deadline_exceeded :: exn where
  "deadline_exceeded = FatalError ''persistent external-page DMA exceeded its hard deadline''"

definition pop_retry :: "nat \<Rightarrow> ('w, retry_args option) de_act" where
  "pop_retry f = bindA (readA (\<lambda>s. map_of (de_retry s) f)) (\<lambda>r.
     seqA (writeA (\<lambda>s. s\<lparr>de_retry := AList.delete f (de_retry s)\<rparr>)) (retA r))"

type_synonym drained = "nat \<times> retry_args \<times> exn option"

fun drain_futures :: "'w direct_env \<Rightarrow> string \<Rightarrow> nat list \<Rightarrow> ('w, drained list) de_act" where
  "drain_futures env req [] = retA []"
| "drain_futures env req (f # fs) =
     seqA (on_state req (\<lambda>st. st\<lparr>rs_futures := fs\<rparr>))
     (bindA (attemptA (blocking env (dv_result env f))) (\<lambda>r.
        let error = (case r of Inl e \<Rightarrow> Some e | Inr _ \<Rightarrow> None) in
        if error = Some NativeExternalPageTransferUnknownError
        then seqA (bindA (readA (\<lambda>s. rs_remote (state_of req s))) (\<lambda>i. in_world (dv_latch_fatal env i)))
          (raiseA deadline_exceeded)
        else bindA (pop_retry f) (\<lambda>retry.
          case retry of
            None \<Rightarrow> (case error of Some e \<Rightarrow> raiseA e | None \<Rightarrow> drain_futures env req fs)
          | Some ra \<Rightarrow>
              seqA (if error = None then direct_store_done env req (ra_keys ra) f else retA ())
              (bindA (drain_futures env req fs) (\<lambda>rest. retA ((f, ra, error) # rest))))))"

definition prefix_gap :: exn where
  "prefix_gap = RuntimeError ''Direct-store completion cannot bridge an unverified prefix gap''"

definition not_restored :: exn where
  "not_restored = RuntimeError ''CPU retry did not restore direct-store coverage''"

text \<open>One job in submission order: a success advances the verified ends, a failure is stored through the CPU.\<close>

fun repair_groups :: "'w direct_env \<Rightarrow> string \<Rightarrow> retry_args \<Rightarrow> exn option \<Rightarrow> (int \<times> int) list \<Rightarrow> (int \<times> int) list \<Rightarrow>
    ('w, (int \<times> int) list) de_act" where
  "repair_groups env req ra error [] verified = retA verified"
| "repair_groups env req ra error ((g, end_g) # rest) verified =
     (let start = group_end verified g in
      if start < ra_base ra then raiseA prefix_gap
      else if error = None then repair_groups env req ra error rest (AList.update g (max start end_g) verified)
      else if start \<ge> end_g then repair_groups env req ra error rest verified
      else bindA (liftA (lookup (ra_caches ra) g)) (\<lambda>caches. bindA (liftA (lookup (ra_slots ra) g)) (\<lambda>slots.
        bindA (store_cpu_group env req (ra_tokens ra) caches slots g start (ra_configs ra) (ra_base ra)) (\<lambda>c.
          if c < end_g then raiseA not_restored
          else repair_groups env req ra error rest (AList.update g c verified)))))"

fun repair_jobs :: "'w direct_env \<Rightarrow> string \<Rightarrow> drained list \<Rightarrow> (int \<times> int) list \<Rightarrow> ('w, (int \<times> int) list) de_act" where
  "repair_jobs env req [] verified = retA verified"
| "repair_jobs env req ((f, ra, error) # jobs) verified =
     bindA (repair_groups env req ra error (ra_ends ra) verified) (repair_jobs env req jobs)"

text \<open>\<open>committed_end[g] = max(verified.get(g, 0), submitted_end[g])\<close> for every submitted group.\<close>

definition commit_submitted :: "string \<Rightarrow> (int \<times> int) list option \<Rightarrow> ('w, unit) de_act" where
  "commit_submitted req verified = on_state req (\<lambda>st. st\<lparr>rs_committed :=
     fold (\<lambda>(g, e) d. AList.update g (max (group_end (case verified of None \<Rightarrow> d | Some v \<Rightarrow> v) g) e) d)
       (rs_submitted st) (rs_committed st)\<rparr>)"

definition settle_failed :: "string \<Rightarrow> drained \<Rightarrow> ('w, unit) de_act" where
  "settle_failed req job = (case job of (f, ra, _) \<Rightarrow>
     seqA (mark_completed f) (seqA (on_state req (\<lambda>st. st\<lparr>rs_pending_keys := without (ra_keys ra) (rs_pending_keys st)\<rparr>))
       (drop_pending req)))"

definition failed_jobs :: "drained list \<Rightarrow> drained list" where
  "failed_jobs jobs = filter (\<lambda>(f, ra, error). error \<noteq> None) jobs"

definition settle_jobs :: "'w direct_env \<Rightarrow> string \<Rightarrow> drained list \<Rightarrow> (int \<times> int) list \<Rightarrow> ('w, unit) de_act" where
  "settle_jobs env req jobs verified =
     (if failed_jobs jobs = [] then commit_submitted req None
      else finallyA (bindA (repair_jobs env req jobs verified) (\<lambda>v. commit_submitted req (Some v)))
        (eachA (settle_failed req) (failed_jobs jobs)))"

definition wait_remote_windows :: "'w direct_env \<Rightarrow> string \<Rightarrow> ('w, unit) de_act" where
  "wait_remote_windows env req = bindA (readA (\<lambda>s. rs_remote (state_of req s))) (\<lambda>i.
     case i of None \<Rightarrow> retA () | Some i \<Rightarrow> blocking env (dv_remote_wait env i))"

definition wait_request_stores :: "'w direct_env \<Rightarrow> string \<Rightarrow> ('w, bool) de_act" where
  "wait_request_stores env req = bindA (readA (\<lambda>s. map_of (de_states s) req)) (\<lambda>st.
     case st of None \<Rightarrow> retA False
     | Some st \<Rightarrow> bindA (drain_futures env req (rs_futures st)) (\<lambda>jobs.
         seqA (settle_jobs env req jobs (rs_committed st)) (seqA (wait_remote_windows env req) (retA True))))"

fun wait_each :: "'w direct_env \<Rightarrow> string list \<Rightarrow> ('w, string list) de_act" where
  "wait_each env [] = retA []"
| "wait_each env (req # reqs) = bindA (wait_request_stores env req) (\<lambda>found.
     bindA (wait_each env reqs) (\<lambda>waited. retA (if found then List.insert req waited else waited)))"

definition wait_for_direct_stores :: "'w direct_env \<Rightarrow> string list \<Rightarrow> ('w, string list) de_act" where
  "wait_for_direct_stores env reqs =
     seqA (if dv_force_layerwise env \<and> reqs \<noteq> [] then blocking env (dv_poll_layerwise env reqs) else retA ())
       (wait_each env reqs)"

section \<open>Finalization\<close>

definition finish_remote_fill :: "'w direct_env \<Rightarrow> string \<Rightarrow> int \<Rightarrow> ('w, unit) de_act" where
  "finish_remote_fill env req required = bindA (readA (\<lambda>s. rs_remote (state_of req s))) (\<lambda>i.
     case i of None \<Rightarrow> retA ()
     | Some i \<Rightarrow> bindA (readA (\<lambda>s. dv_has_handoff env i (de_world s) \<and> dv_terminal env i (de_world s) = None)) (\<lambda>open_remote.
         if \<not> open_remote then retA ()
         else seqA (blocking env (dv_remote_wait env i))
           (bindA (readA (\<lambda>s. rs_committed (state_of req s))) (\<lambda>c.
              blocking env (dv_remote_finish env req i required (min (group_end c 0) (group_end c 1)))))))"

definition no_accepted_end :: exn where
  "no_accepted_end = RuntimeError ''direct store has no authoritative accepted end''"

definition invalid_frontier :: exn where
  "invalid_frontier = RuntimeError ''Direct prefill store published an invalid final frontier''"

definition rejected_forwarding :: exn where
  "rejected_forwarding = RuntimeError ''Remote-fill finalization rejected request forwarding''"

definition remote_outcome :: "'w direct_env \<Rightarrow> string \<Rightarrow> 'w direct_engine \<Rightarrow> string option" where
  "remote_outcome env req s = (case rs_remote (state_of req s) of None \<Rightarrow> None | Some i \<Rightarrow> dv_terminal env i (de_world s))"

definition finalize_direct_store :: "'w direct_env \<Rightarrow> string \<Rightarrow> int list \<Rightarrow> bool \<Rightarrow> ('w, unit) de_act" where
  "finalize_direct_store env req groups final =
     (if \<not> final then retA ()
      else bindA (readA (state_of req)) (\<lambda>st.
        if rs_finalized st then retA ()
        else case rs_accepted st of
          None \<Rightarrow> raiseA no_accepted_end
        | Some required \<Rightarrow>
            if list_ex (\<lambda>g. group_end (rs_committed st) g \<noteq> required) groups then raiseA invalid_frontier
            else seqA (finish_remote_fill env req required)
              (bindA (readA (remote_outcome env req)) (\<lambda>outcome.
                 if outcome = Some ''PERSISTENCE_FAILED'' \<or> outcome = Some ''FATAL_RESTART''
                 then raiseA rejected_forwarding
                 else on_state req (\<lambda>st. st\<lparr>rs_finalized := True\<rparr>)))))"

text \<open>The final publication of \<open>store_direct_prefill\<close>: the groups that lack tokens go through the CPU.\<close>

definition default_end :: "int \<Rightarrow> int \<Rightarrow> (int \<times> int) list \<Rightarrow> (int \<times> int) list" where
  "default_end g e d = (if map_of d g = None then AList.update g e d else d)"

definition complete_group :: "'w direct_env \<Rightarrow> string \<Rightarrow> retry_args \<Rightarrow> int \<Rightarrow> int \<times> nat \<Rightarrow> ('w, unit) de_act" where
  "complete_group env req ra required gc = (case gc of (g, caches) \<Rightarrow>
     bindA (readA (\<lambda>s. group_end (rs_committed (state_of req s)) g)) (\<lambda>committed.
       if committed \<ge> required
       then on_state req (\<lambda>st. st\<lparr>rs_committed := default_end g required (rs_committed st),
              rs_submitted := default_end g required (rs_submitted st)\<rparr>)
       else bindA (liftA (lookup (ra_slots ra) g)) (\<lambda>slots.
         bindA (store_cpu_group env req (ra_tokens ra) caches slots g committed (ra_configs ra) (ra_base ra)) (\<lambda>c.
           set_ends req g c))))"

definition publish_final :: "'w direct_env \<Rightarrow> string \<Rightarrow> retry_args \<Rightarrow> int \<Rightarrow> ('w, unit) de_act" where
  "publish_final env req ra required =
     seqA (add_pending req)
       (finallyA (seqA (wait_for_direct_stores env [req]) (seqA (eachA (complete_group env req ra required) (ra_caches ra))
           (finalize_direct_store env req (map fst (ra_caches ra)) True)))
         (drop_pending req))"

text \<open>The recovery when a page lookup or a submission raises.\<close>

definition fall_back :: "'w direct_env \<Rightarrow> string \<Rightarrow> retry_args \<Rightarrow> bool \<Rightarrow> ('w, unit) de_act" where
  "fall_back env req ra final =
     seqA (wait_for_direct_stores env [req]) (seqA (retry_direct_cpu env req ra)
       (finalize_direct_store env req (map fst (ra_caches ra)) final))"

section \<open>Planning the chunks of a forward\<close>

type_synonym chunk = "int \<times> int \<times> cache_key"

text \<open>LMCache's token database: the chunks of tokens, those after a hashed prefix, and those of given hashes.\<close>

record token_db =
  td_chunk_size :: int
  td_process :: "int list \<Rightarrow> pyval \<Rightarrow> chunk list res"
  td_from_prefix :: "int list \<Rightarrow> int \<Rightarrow> chunk_hash \<Rightarrow> pyval \<Rightarrow> chunk list res"
  td_from_hashes :: "chunk_hash list \<Rightarrow> int list \<Rightarrow> pyval \<Rightarrow> int \<Rightarrow> chunk list res"

definition chunk_identity :: "chunk \<Rightarrow> int \<times> int \<times> chunk_hash" where
  "chunk_identity c = (case c of (s, e, k) \<Rightarrow> (s, e, ck_chunk_hash k))"

definition different_plans :: exn where
  "different_plans = RuntimeError ''Direct prefill KV groups produced different chunk plans''"

definition group_plan :: "token_db \<Rightarrow> pyval \<Rightarrow> int \<Rightarrow> chunk list \<Rightarrow> int \<Rightarrow> chunk list res" where
  "group_plan db configs base plan0 g =
     (if plan0 = [] then Inr []
      else bindR (td_from_hashes db (map (\<lambda>(s, e, k). ck_chunk_hash k) plan0) (map (\<lambda>(s, e, k). e - s) plan0) configs g) (\<lambda>cs.
        let plan = map (\<lambda>(s, e, k). (s + base, e + base, k)) cs in
        if map chunk_identity plan \<noteq> map chunk_identity plan0 then Inl different_plans else Inr plan))"

fun group_plans :: "token_db \<Rightarrow> pyval \<Rightarrow> int \<Rightarrow> chunk list \<Rightarrow> int list \<Rightarrow> (int \<times> chunk list) list \<Rightarrow>
    (int \<times> chunk list) list res" where
  "group_plans db configs base plan0 [] plans = Inr plans"
| "group_plans db configs base plan0 (g # gs) plans =
     (if g = 0 then group_plans db configs base plan0 gs plans
      else bindR (group_plan db configs base plan0 g) (\<lambda>plan.
        group_plans db configs base plan0 gs (AList.update g plan plans)))"

definition full_end :: "token_db \<Rightarrow> int list \<Rightarrow> int" where
  "full_end db tokens = int (length tokens) div td_chunk_size db * td_chunk_size db"

definition plan_base :: "direct_state \<Rightarrow> int \<Rightarrow> int list \<Rightarrow> int" where
  "plan_base st full gs =
     (if rs_planned_end st \<le> full \<and> list_all (\<lambda>g. rs_planned_end st \<le> group_end (rs_submitted st) g) gs
      then rs_planned_end st else 0)"

definition direct_suffix_plans :: "token_db \<Rightarrow> direct_state \<Rightarrow> int list \<Rightarrow> int list \<Rightarrow> pyval \<Rightarrow>
    ((int \<times> chunk list) list \<times> direct_state) res" where
  "direct_suffix_plans db st tokens gs configs =
     (if td_chunk_size db = 0 then Inl (OtherError ''ZeroDivisionError'')
      else let full = full_end db tokens;
          full_tokens = (if full = int (length tokens) then tokens else take (nat full) tokens)
      in if list_all (\<lambda>g. full \<le> group_end (rs_submitted st) g) gs then Inr (map (\<lambda>g. (g, [])) gs, st)
      else let base = plan_base st full gs in
        bindR (if base = full then Inr []
           else if base \<noteq> 0 then td_from_prefix db full_tokens base (rs_planned_hash st) configs
           else td_process db full_tokens configs) (\<lambda>plan0.
        bindR (group_plans db configs base plan0 gs [(0, plan0)]) (\<lambda>plans.
          Inr (plans, if plan0 = [] then st
            else (case last plan0 of (s, e, k) \<Rightarrow> st\<lparr>rs_planned_end := e, rs_planned_hash := ck_chunk_hash k\<rparr>)))))"

text \<open>A completed layerwise store, reused as progress of the direct store.\<close>

record layerwise_result =
  lr_request :: string
  lr_group :: int
  lr_end :: int
  lr_starts :: "int list"
  lr_ends :: "int list"
  lr_keys :: "cache_key list list"

definition last_full_chunk :: "int \<Rightarrow> layerwise_result \<Rightarrow> (int \<times> chunk_hash) option res" where
  "last_full_chunk chunk_size r = (case lr_keys r of
       [] \<Rightarrow> Inr None
     | keys # _ \<Rightarrow>
         if length (lr_starts r) \<noteq> length (lr_ends r) \<or> length (lr_ends r) \<noteq> length keys then Inl zip_error
         else Inr (fold (\<lambda>(s, e, k) found. if e - s = chunk_size then Some (e, ck_chunk_hash k) else found)
           (zip (lr_starts r) (zip (lr_ends r) keys)) None))"

definition frontier_disagrees :: exn where
  "frontier_disagrees = RuntimeError ''Completed latent/index stores disagree on their hash frontier''"

definition adopt_result :: "int \<Rightarrow> layerwise_result \<Rightarrow> ('w, unit) de_act" where
  "adopt_result chunk_size r =
     (if lr_end r \<le> 0 then retA ()
      else seqA (on_state (lr_request r) (\<lambda>st. st))
     (bindA (liftA (last_full_chunk chunk_size r)) (\<lambda>latest.
      bindA (readA (state_of (lr_request r))) (\<lambda>st.
      seqA (case latest of None \<Rightarrow> retA ()
          | Some (e, h) \<Rightarrow>
              if e = rs_planned_end st \<and> h \<noteq> rs_planned_hash st then raiseA frontier_disagrees
              else if e > rs_planned_end st
              then on_state (lr_request r) (\<lambda>st. st\<lparr>rs_planned_end := e, rs_planned_hash := h\<rparr>)
              else retA ())
        (on_state (lr_request r) (\<lambda>st. st\<lparr>rs_submitted := raise_end (lr_group r, lr_end r) (rs_submitted st),
           rs_committed := raise_end (lr_group r, lr_end r) (rs_committed st)\<rparr>))))))"

section \<open>Producer events\<close>

definition remember_readiness :: "int \<Rightarrow> nat option \<Rightarrow> string \<Rightarrow> nat option list \<Rightarrow> direct_state \<Rightarrow> direct_state" where
  "remember_readiness token_end event source events st =
     (let st = (if event \<noteq> None \<and> token_end \<ge> rs_event_end st
          then st\<lparr>rs_event := event, rs_event_source := (if source \<noteq> '''' \<and> source \<noteq> ''missing'' then source else ''caller_supplied''),
            rs_event_end := token_end\<rparr>
          else st)
      in if events \<noteq> [] \<and> token_end \<ge> rs_events_end st
         then st\<lparr>rs_events := py_unique (map the (filter (\<lambda>e. e \<noteq> None) events)), rs_events_end := token_end\<rparr>
         else st)"

definition source_ready_events :: "direct_state \<Rightarrow> int \<Rightarrow> nat list" where
  "source_ready_events st token_end = (if rs_events_end st < token_end then [] else rs_events st)"

definition handoff_event_source :: string where
  "handoff_event_source = ''forward_context.sfa_reshape_cache_event''"

definition remote_ready_events :: "direct_state \<Rightarrow> int \<Rightarrow> nat list" where
  "remote_ready_events st token_end =
     (if rs_event st = None \<or> rs_event_source st \<noteq> handoff_event_source \<or> rs_event_end st < token_end then []
      else let events = source_ready_events st token_end in
        if \<not> list_ex (\<lambda>e. Some e = rs_event st) events then [] else events)"

definition no_producer_event :: exn where
  "no_producer_event = RuntimeError ''Direct DSA NPU store has no attention producer event''"

definition record_fallback :: "'w direct_env \<Rightarrow> string \<Rightarrow> int \<Rightarrow> ('w, nat \<times> string) de_act" where
  "record_fallback env req token_end = bindA (in_world (dv_record_event env)) (\<lambda>e.
     let source = ''engine_current_stream_fallback_non_dsa'' in
     seqA (on_state req (\<lambda>st. st\<lparr>rs_event := Some e, rs_event_source := source, rs_event_end := token_end\<rparr>)) (retA (e, source)))"

definition source_ready_event :: "'w direct_env \<Rightarrow> string \<Rightarrow> int \<Rightarrow> bool \<Rightarrow> ('w, nat \<times> string) de_act" where
  "source_ready_event env req token_end required = bindA (readA (state_of req)) (\<lambda>st.
     case rs_event st of
       Some e \<Rightarrow> if rs_event_end st \<ge> token_end then retA (e, rs_event_source st)
         else if required then raiseA no_producer_event
         else record_fallback env req token_end
     | None \<Rightarrow> if required then raiseA no_producer_event else record_fallback env req token_end)"

definition addressable_source_page :: "int \<Rightarrow> int \<Rightarrow> int \<Rightarrow> bool" where
  "addressable_source_page token_end base chunk_size =
     (if token_end \<le> 0 \<or> chunk_size \<le> 0 then False else (token_end - 1) div chunk_size * chunk_size \<ge> base)"

section \<open>Admission\<close>

definition moved_backwards :: exn where
  "moved_backwards = RuntimeError ''Direct prefill accepted store frontier moved backwards''"

text \<open>The head of \<open>store_direct_prefill\<close>: the ranges are checked and the accepted end is remembered.\<close>

definition accept_store :: "string \<Rightarrow> int \<Rightarrow> int option \<Rightarrow> int \<Rightarrow> int \<Rightarrow> ('w, int) de_act" where
  "accept_store req n given base verified =
     (let stop = (case given of None \<Rightarrow> n | Some a \<Rightarrow> a) in
      if \<not> (0 \<le> stop \<and> stop \<le> n)
      then raiseA (ValueError ''Direct prefill accepted store end is outside the token range'')
      else if \<not> (0 \<le> base \<and> base \<le> stop)
      then raiseA (ValueError ''Direct prefill slot-mapping base is outside the token range'')
      else if \<not> (0 \<le> verified \<and> verified \<le> base)
      then raiseA (ValueError ''Direct prefill verified prefix is outside the addressable prefix'')
      else seqA (on_state req (\<lambda>st. st))
       (bindA (readA (state_of req)) (\<lambda>st.
          if (case rs_accepted st of None \<Rightarrow> False | Some a \<Rightarrow> stop < a) then raiseA moved_backwards
          else seqA (on_state req (\<lambda>st. st\<lparr>rs_accepted := Some stop\<rparr>)) (retA stop))))"

definition register_group :: "int \<Rightarrow> int \<Rightarrow> direct_state \<Rightarrow> direct_state" where
  "register_group verified g st = (if map_of (rs_submitted st) g \<noteq> None then st
     else st\<lparr>rs_submitted := AList.update g verified (rs_submitted st), rs_committed := AList.update g verified (rs_committed st)\<rparr>)"

text \<open>A group none of whose candidate pages is missing.\<close>

definition advance_present :: "(int \<times> int) list \<Rightarrow> int \<Rightarrow> direct_state \<Rightarrow> direct_state" where
  "advance_present candidate_ends g st =
     (let st = (case map_of candidate_ends g of None \<Rightarrow> st
          | Some e \<Rightarrow> st\<lparr>rs_submitted := raise_end (g, e) (rs_submitted st)\<rparr>)
      in if rs_futures st \<noteq> [] then st
         else st\<lparr>rs_committed := AList.update g (max (group_end (rs_committed st) g) (group_end (rs_submitted st) g)) (rs_committed st)\<rparr>)"

section \<open>The background store and finished requests\<close>

definition enqueue_store :: "'w direct_env \<Rightarrow> string \<times> nat \<Rightarrow> ('w, unit) de_act" where
  "enqueue_store env work = seqA (add_pending (fst work))
     (bindA (attemptA (blocking env (dv_queue_put env work))) (\<lambda>r. case r of
        Inl e \<Rightarrow> seqA (drop_pending (fst work)) (raiseA e)
      | Inr _ \<Rightarrow> writeA (\<lambda>s. s\<lparr>de_queue := de_queue s @ [Some work]\<rparr>)))"

definition is_pending :: "string \<Rightarrow> 'w direct_engine \<Rightarrow> bool" where
  "is_pending r s \<longleftrightarrow> map_of (de_pending s) r \<noteq> None"

definition get_finished_stores :: "'w direct_env \<Rightarrow> string list \<Rightarrow> ('w, string list option) de_act" where
  "get_finished_stores env finished =
     (if \<not> dv_async env then retA None
      else bindA (readA (\<lambda>s. s)) (\<lambda>s.
        let reported = filter (\<lambda>r. r \<in> set finished) (de_reported s);
            drained = filter (\<lambda>r. \<not> is_pending r s) (de_deferred s);
            unreported = filter (\<lambda>r. r \<notin> set reported) finished;
            found = py_unique (drained @ filter (\<lambda>r. \<not> is_pending r s) unreported);
            deferred = py_unique (filter (\<lambda>r. is_pending r s) (de_deferred s) @ filter (\<lambda>r. is_pending r s) unreported)
        in seqA (writeA (\<lambda>s. s\<lparr>de_reported := py_unique (reported @ found), de_deferred := deferred\<rparr>)) (retA (Some found))))"

text \<open>
  \<open>wait_for_pending_stores\<close>: after the direct puts, other threads run until no count of the requests is left;
  \<open>schedule\<close> is who runs next.  A wait that never ends has no result.
\<close>

partial_function (option) await_stores :: "'w direct_env \<Rightarrow> ('w direct_engine \<Rightarrow> turn) \<Rightarrow> string list \<Rightarrow>
    'w direct_engine \<Rightarrow> 'w direct_engine option" where
  "await_stores env schedule reqs s =
     (if \<not> list_ex (\<lambda>r. is_pending r s) reqs then Some s
      else await_stores env schedule reqs (snd (take_turn env (schedule s) s)))"

definition wait_for_pending_stores :: "'w direct_env \<Rightarrow> ('w direct_engine \<Rightarrow> turn) \<Rightarrow> string list \<Rightarrow> 'w direct_engine \<Rightarrow>
    (string list res \<times> 'w direct_engine) option" where
  "wait_for_pending_stores env schedule reqs s =
     (case wait_for_direct_stores env reqs s of
        (Inl e, s) \<Rightarrow> Some (Inl e, s)
      | (Inr waited, s) \<Rightarrow>
          if \<not> dv_async env \<or> reqs = [] then Some (Inr [], s)
          else let pending = filter (\<lambda>r. is_pending r s) reqs in
            if pending = [] then Some (Inr waited, s)
            else map_option (\<lambda>s. (Inr (py_unique (pending @ waited)), s)) (await_stores env schedule reqs s))"

section \<open>Forgetting a request\<close>

definition drop_state :: "'w direct_env \<Rightarrow> string \<Rightarrow> ('w, unit) de_act" where
  "drop_state env req =
     seqA (if dv_force_layerwise env then in_world (dv_release_leases env req) else retA ())
     (seqA (bindA (readA (\<lambda>s. map_of (de_states s) req)) (\<lambda>st. case st of
         None \<Rightarrow> retA ()
       | Some st \<Rightarrow>
           let idle = (rs_futures st = [] \<and> rs_pending_keys st = []) in
           bindA (case rs_remote st of None \<Rightarrow> retA idle | Some i \<Rightarrow> blocking env (dv_remote_release env req i idle)) (\<lambda>releasable.
             if releasable then writeA (\<lambda>s. s\<lparr>de_states := AList.delete req (de_states s)\<rparr>) else retA ())))
      (in_world (dv_forget_live env req)))"

definition drop_direct_store_states :: "'w direct_env \<Rightarrow> string list \<Rightarrow> ('w, unit) de_act" where
  "drop_direct_store_states env reqs = eachA (drop_state env) reqs"

definition committed_ends :: "string \<Rightarrow> 'w direct_engine \<Rightarrow> (int \<times> int) list" where
  "committed_ends req s = (case map_of (de_states s) req of None \<Rightarrow> [] | Some st \<Rightarrow> rs_committed st)"

end
