(* ===== verification/DirectStoreBooks.thy ===== *)
theory DirectStoreBooks
  imports DirectStore
begin

text \<open>
  The counts of pending stores (\<open>_pending_store_counts\<close>) against the futures they stand for: what the
  surroundings promise about futures, the frames of the engine's calls, and that every call of the direct
  store, whatever its result, leaves the books balanced.
\<close>

section \<open>The surroundings' contract\<close>

text \<open>
  Which batch a future stands for, and which futures exist in a world.  A future that has ended stays as it
  ended; only a put makes a future, a new one; \<open>result()\<close> returns on success and raises otherwise.
\<close>

record 'w future_model =
  fm_batch :: "nat \<Rightarrow> page_batch"
  fm_issued :: "'w \<Rightarrow> nat set"

definition owner :: "'w future_model \<Rightarrow> nat \<Rightarrow> string" where
  "owner fm f = db_req_id (fm_batch fm f)"

definition settled_stay :: "'w direct_env \<Rightarrow> 'w future_model \<Rightarrow> 'w \<Rightarrow> 'w \<Rightarrow> bool" where
  "settled_stay env fm w w' \<longleftrightarrow> (\<forall>f \<in> fm_issued fm w. dv_status env f w \<noteq> Running \<longrightarrow> dv_status env f w' = dv_status env f w)"

definition world_step :: "'w direct_env \<Rightarrow> 'w future_model \<Rightarrow> 'w \<Rightarrow> 'w \<Rightarrow> bool" where
  "world_step env fm w w' \<longleftrightarrow> fm_issued fm w' = fm_issued fm w \<and> settled_stay env fm w w'"

definition harmless :: "'w direct_env \<Rightarrow> 'w future_model \<Rightarrow> ('w, 'a) act \<Rightarrow> bool" where
  "harmless env fm m \<longleftrightarrow> (\<forall>w. world_step env fm w (snd (m w)))"

definition future_laws :: "'w direct_env \<Rightarrow> 'w future_model \<Rightarrow> bool" where
  "future_laws env fm \<longleftrightarrow>
     (\<forall>w. finite (fm_issued fm w)) \<and>
     (\<forall>f. harmless env fm (dv_wait_job env f)) \<and> (\<forall>f. harmless env fm (dv_result env f)) \<and>
     (\<forall>a b c d e g h k. harmless env fm (dv_store_layer env a b c d e g h k)) \<and> harmless env fm (dv_sync_wait env) \<and>
     (\<forall>rs. harmless env fm (dv_poll_layerwise env rs)) \<and> (\<forall>i. harmless env fm (dv_latch_fatal env i)) \<and>
     (\<forall>i. harmless env fm (dv_remote_wait env i)) \<and> (\<forall>a b c d. harmless env fm (dv_remote_finish env a b c d)) \<and>
     (\<forall>a b c. harmless env fm (dv_remote_release env a b c)) \<and> (\<forall>r. harmless env fm (dv_release_leases env r)) \<and>
     (\<forall>r. harmless env fm (dv_forget_live env r)) \<and> (\<forall>x. harmless env fm (dv_queue_put env x)) \<and>
     (\<forall>x. harmless env fm (dv_pipeline env x)) \<and> harmless env fm (dv_record_event env) \<and>
     (\<forall>f w. f \<in> fm_issued fm w \<longrightarrow> (case dv_result env f w of (r, w') \<Rightarrow> case r of
        Inl _ \<Rightarrow> dv_status env f w' \<noteq> Running \<and> dv_status env f w' \<noteq> Succeeded | Inr _ \<Rightarrow> dv_status env f w' = Succeeded)) \<and>
     (\<forall>b w. case dv_put env b w of (r, w') \<Rightarrow> settled_stay env fm w w' \<and> (case r of
        Inl _ \<Rightarrow> fm_issued fm w' = fm_issued fm w
      | Inr f \<Rightarrow> f \<notin> fm_issued fm w \<and> fm_issued fm w' = insert f (fm_issued fm w) \<and> fm_batch fm f = b))"

section \<open>The books\<close>

definition unfinished :: "'w future_model \<Rightarrow> string \<Rightarrow> 'w direct_engine \<Rightarrow> nat set" where
  "unfinished fm r s = {f \<in> fm_issued fm (de_world s). owner fm f = r \<and> f \<notin> set (de_completed s)}"

definition queued :: "string \<Rightarrow> 'w direct_engine \<Rightarrow> nat" where
  "queued r s = length (filter (\<lambda>x. case x of None \<Rightarrow> False | Some work \<Rightarrow> fst work = r) (de_queue s))"

text \<open>
  The books are balanced when each request's count is its puts that are not completed, its queued background
  stores, and what calls in progress hold for it.
\<close>

definition balanced :: "'w direct_env \<Rightarrow> 'w future_model \<Rightarrow> (string \<Rightarrow> nat) \<Rightarrow> 'w direct_engine \<Rightarrow> bool" where
  "balanced env fm extra s \<longleftrightarrow>
     (\<forall>r. pending_of r (de_pending s) = int (card (unfinished fm r s)) + int (queued r s) + int (extra r)) \<and>
     (\<forall>r n. map_of (de_pending s) r = Some n \<longrightarrow> 0 < n) \<and>
     (\<forall>f \<in> set (de_completed s). f \<in> fm_issued fm (de_world s) \<and> dv_status env f (de_world s) \<noteq> Running) \<and>
     (\<forall>f r ks. map_of (de_callbacks s) f = Some (r, ks) \<longrightarrow> f \<in> fm_issued fm (de_world s) \<and> owner fm f = r) \<and>
     (\<forall>f ra. map_of (de_retry s) f = Some ra \<longrightarrow> f \<in> fm_issued fm (de_world s)) \<and>
     (\<forall>req st. map_of (de_states s) req = Some st \<longrightarrow> distinct (rs_futures st) \<and>
        (\<forall>f \<in> set (rs_futures st). f \<in> fm_issued fm (de_world s) \<and> owner fm f = req \<and>
           (f \<in> set (de_completed s) \<longrightarrow> dv_status env f (de_world s) = Succeeded)))"

lemma pending_of_add:
  "pending_of r' (pending_add r d) = pending_of r' d + (if r' = r then 1 else 0)"
  by (simp add: pending_add_def pending_of_def update_conv')

lemma pending_of_drop:
  assumes "\<And>r n. map_of d r = Some n \<Longrightarrow> 0 < n" "1 \<le> pending_of r d"
  shows "pending_of r' (pending_drop r d) = pending_of r' d - (if r' = r then 1 else 0) \<and>
    (map_of (pending_drop r d) r' = Some n \<longrightarrow> 0 < n)"
  using assms by (auto simp: pending_drop_def pending_of_def Let_def update_conv' delete_conv' split: option.splits)

lemma finite_unfinished: "future_laws env fm \<Longrightarrow> finite (unfinished fm r s)"
  by (simp add: future_laws_def unfinished_def)

lemma balanced_less:
  assumes "balanced env fm extra s" "0 < extra r" "s' = s\<lparr>de_pending := pending_drop r (de_pending s)\<rparr>"
  shows "balanced env fm (extra(r := extra r - 1)) s'"
proof -
  have pos: "\<And>r n. map_of (de_pending s) r = Some n \<Longrightarrow> 0 < n" using assms(1) by (simp add: balanced_def)
  have "1 \<le> pending_of r (de_pending s)" using assms(1,2) by (simp add: balanced_def)
  note drop = pending_of_drop [OF pos this]
  show ?thesis
    using assms(1,2) drop by (auto simp: balanced_def assms(3) unfinished_def queued_def of_nat_diff)
qed

lemma balanced_more:
  assumes "balanced env fm extra s" "s' = s\<lparr>de_pending := pending_add r (de_pending s)\<rparr>"
  shows "balanced env fm (extra(r := extra r + 1)) s'"
proof -
  have "0 \<le> pending_of r (de_pending s)" using assms(1) by (simp add: balanced_def)
  then have "map_of (pending_add r (de_pending s)) r' = Some n \<Longrightarrow> 0 < n" for r' n
    using assms(1) by (auto simp: pending_add_def update_conv' balanced_def split: if_splits)
  then show ?thesis
    using assms(1) by (auto simp: balanced_def assms(2) pending_of_add unfinished_def queued_def)
qed

lemma complete_card:
  assumes "future_laws env fm" "f \<in> fm_issued fm (de_world s)" "owner fm f = r" "f \<notin> set (de_completed s)"
  shows "int (card (unfinished fm r' (s\<lparr>de_completed := List.insert f (de_completed s)\<rparr>))) =
    int (card (unfinished fm r' s)) - (if r' = r then 1 else 0)"
proof (cases "r' = r")
  case True
  have "unfinished fm r' (s\<lparr>de_completed := List.insert f (de_completed s)\<rparr>) = unfinished fm r' s - {f}"
    by (auto simp: unfinished_def)
  moreover have "f \<in> unfinished fm r' s" using assms(2,3,4) True by (simp add: unfinished_def)
  moreover have "0 < card (unfinished fm r' s)"
    using calculation(2) finite_unfinished [OF assms(1)] by (auto simp: card_gt_0_iff)
  ultimately show ?thesis using True by (simp add: card_Diff_singleton of_nat_diff)
next
  case False
  then have "unfinished fm r' (s\<lparr>de_completed := List.insert f (de_completed s)\<rparr>) = unfinished fm r' s"
    using assms(3) by (auto simp: unfinished_def)
  then show ?thesis using False by simp
qed

text \<open>A future is completed: its unit of the count becomes the caller's to give back.\<close>

lemma balanced_complete:
  assumes laws: "future_laws env fm" and b: "balanced env fm extra s"
    and f: "f \<in> fm_issued fm (de_world s)" "owner fm f = r" "f \<notin> set (de_completed s)"
      "dv_status env f (de_world s) \<noteq> Running"
    and fut: "dv_status env f (de_world s) = Succeeded \<or> (\<forall>st. map_of (de_states s) r = Some st \<longrightarrow> f \<notin> set (rs_futures st))"
    and s': "s' = s\<lparr>de_completed := List.insert f (de_completed s), de_pending := pending_drop r (de_pending s)\<rparr>"
  shows "balanced env fm extra s'"
proof -
  define s1 where "s1 = s\<lparr>de_completed := List.insert f (de_completed s)\<rparr>"
  have "balanced env fm (extra(r := extra r + 1)) s1"
    unfolding balanced_def
  proof (intro conjI)
    show "\<forall>r'. pending_of r' (de_pending s1) = int (card (unfinished fm r' s1)) + int (queued r' s1) + int ((extra(r := extra r + 1)) r')"
      using b complete_card [OF laws f(1,2,3)] by (auto simp: balanced_def s1_def queued_def)
    show "\<forall>req st. map_of (de_states s1) req = Some st \<longrightarrow> distinct (rs_futures st) \<and>
        (\<forall>f \<in> set (rs_futures st). f \<in> fm_issued fm (de_world s1) \<and> owner fm f = req \<and>
           (f \<in> set (de_completed s1) \<longrightarrow> dv_status env f (de_world s1) = Succeeded))"
      using b fut f(2) by (auto simp: balanced_def s1_def)
  qed (use b f in \<open>auto simp: balanced_def s1_def\<close>)
  from balanced_less [OF this, of r s'] show ?thesis by (simp add: s' s1_def)
qed

section \<open>What other threads may do\<close>

definition kept :: "direct_state \<Rightarrow> direct_state" where
  "kept st = st\<lparr>rs_pending_keys := []\<rparr>"

lemma kept_fields: "kept st = kept st' \<Longrightarrow> rs_futures st = rs_futures st' \<and> rs_submitted st = rs_submitted st' \<and>
    rs_committed st = rs_committed st' \<and> rs_remote st = rs_remote st' \<and> rs_accepted st = rs_accepted st' \<and>
    rs_finalized st = rs_finalized st'"
  by (cases st; cases st') (simp add: kept_def)

text \<open>
  A bookkept change: the books stay balanced and futures are only completed after a success.  A quiet change
  leaves, of the requests' states, all but the pending keys; a loose one may also take futures off one request.
\<close>

definition bookkept :: "'w direct_env \<Rightarrow> 'w future_model \<Rightarrow> 'w direct_engine \<Rightarrow> 'w direct_engine \<Rightarrow> bool" where
  "bookkept env fm s t \<longleftrightarrow> world_step env fm (de_world s) (de_world t) \<and>
     (\<forall>x. balanced env fm x s \<longrightarrow> balanced env fm x t \<and>
        (\<forall>f \<in> set (de_completed t). f \<in> set (de_completed s) \<or> dv_status env f (de_world t) = Succeeded))"

definition quiet :: "'w direct_env \<Rightarrow> 'w future_model \<Rightarrow> 'w direct_engine \<Rightarrow> 'w direct_engine \<Rightarrow> bool" where
  "quiet env fm s t \<longleftrightarrow> bookkept env fm s t \<and> de_retry t = de_retry s \<and> de_jobs t = de_jobs s \<and>
     (\<forall>req. map_option kept (map_of (de_states t) req) = map_option kept (map_of (de_states s) req))"

definition unfutured :: "direct_state \<Rightarrow> direct_state" where
  "unfutured st = (kept st)\<lparr>rs_futures := []\<rparr>"

definition loose :: "'w direct_env \<Rightarrow> 'w future_model \<Rightarrow> string \<Rightarrow> 'w direct_engine \<Rightarrow> 'w direct_engine \<Rightarrow> bool" where
  "loose env fm req s t \<longleftrightarrow> bookkept env fm s t \<and> de_jobs t = de_jobs s \<and>
     (\<forall>r. map_option unfutured (map_of (de_states t) r) = map_option unfutured (map_of (de_states s) r)) \<and>
     (\<forall>r. r \<noteq> req \<longrightarrow> map_option kept (map_of (de_states t) r) = map_option kept (map_of (de_states s) r))"

lemma world_step_refl: "world_step env fm w w"
  by (simp add: world_step_def settled_stay_def)

lemma world_step_trans: "world_step env fm w w' \<Longrightarrow> world_step env fm w' w'' \<Longrightarrow> world_step env fm w w''"
  by (auto simp: world_step_def settled_stay_def)

lemma bookkept_refl: "bookkept env fm s s"
  by (simp add: bookkept_def world_step_refl)

lemma bookkept_trans:
  assumes st: "bookkept env fm s t" and tu: "bookkept env fm t u"
  shows "bookkept env fm s u"
proof -
  have "balanced env fm x u \<and> (\<forall>f \<in> set (de_completed u). f \<in> set (de_completed s) \<or> dv_status env f (de_world u) = Succeeded)"
    if b: "balanced env fm x s" for x
  proof -
    have t: "balanced env fm x t" "\<forall>f \<in> set (de_completed t). f \<in> set (de_completed s) \<or> dv_status env f (de_world t) = Succeeded"
      using st b by (auto simp: bookkept_def)
    have u: "balanced env fm x u" "\<forall>f \<in> set (de_completed u). f \<in> set (de_completed t) \<or> dv_status env f (de_world u) = Succeeded"
      using tu t(1) by (auto simp: bookkept_def)
    have "dv_status env f (de_world u) = Succeeded" if "f \<in> set (de_completed t)" "dv_status env f (de_world t) = Succeeded" for f
    proof -
      have "f \<in> fm_issued fm (de_world t)" using t(1) that(1) by (simp add: balanced_def)
      then show ?thesis using tu that(2) by (auto simp: bookkept_def world_step_def settled_stay_def)
    qed
    then show ?thesis using t(2) u by blast
  qed
  moreover have "world_step env fm (de_world s) (de_world u)"
    using st tu by (auto simp: bookkept_def intro: world_step_trans)
  ultimately show ?thesis by (simp add: bookkept_def)
qed

interpretation quiet: frame "quiet env fm" for env :: "'w direct_env" and fm :: "'w future_model"
proof
  show "quiet env fm s s" for s by (simp add: quiet_def bookkept_refl)
  show "quiet env fm s u" if st: "quiet env fm s t" and tu: "quiet env fm t u" for s t u
  proof -
    have "bookkept env fm s u" using st tu bookkept_trans [of env fm s t u] by (simp add: quiet_def)
    then show ?thesis using st tu by (simp add: quiet_def)
  qed
qed

lemma loose_trans:
  assumes st: "loose env fm req s t" and tu: "loose env fm req t u"
  shows "loose env fm req s u"
  unfolding loose_def
proof (intro conjI allI impI)
  show "bookkept env fm s u" using st tu unfolding loose_def by (blast intro: bookkept_trans)
  show "de_jobs u = de_jobs s" using st tu unfolding loose_def by (blast intro: trans)
  show "map_option unfutured (map_of (de_states u) r) = map_option unfutured (map_of (de_states s) r)" for r
    using st tu unfolding loose_def by (blast intro: trans)
  show "r \<noteq> req \<Longrightarrow> map_option kept (map_of (de_states u) r) = map_option kept (map_of (de_states s) r)" for r
    using st tu unfolding loose_def by (blast intro: trans)
qed

interpretation loose: frame "loose env fm req" for env :: "'w direct_env" and fm :: "'w future_model" and req
proof
  show "loose env fm req s s" for s by (simp add: loose_def bookkept_refl)
  show "loose env fm req s t \<Longrightarrow> loose env fm req t u \<Longrightarrow> loose env fm req s u" for s t u by (rule loose_trans)
qed

lemma kept_unfutured: "map_option kept a = map_option kept b \<Longrightarrow> map_option unfutured a = map_option unfutured b"
  by (cases a; cases b) (auto simp: unfutured_def)

lemma quiet_loose: "quiet env fm s t \<Longrightarrow> loose env fm req s t"
  unfolding quiet_def loose_def by (blast intro: kept_unfutured)

lemma loosely: "quiet.keeps env fm m \<Longrightarrow> loose.keeps env fm req m"
  unfolding quiet.keeps_def loose.keeps_def by (blast intro: quiet_loose)

text \<open>The world moves on.\<close>

lemma quiet_world:
  assumes "world_step env fm (de_world s) w"
  shows "quiet env fm s (s\<lparr>de_world := w\<rparr>)"
proof -
  have "balanced env fm x (s\<lparr>de_world := w\<rparr>)" if "balanced env fm x s" for x
    using that assms by (force simp: balanced_def world_step_def settled_stay_def unfinished_def queued_def)
  then show ?thesis using assms by (simp add: quiet_def bookkept_def)
qed

lemma keeps_in_world: "harmless env fm m \<Longrightarrow> quiet.keeps env fm (in_world m)"
  by (auto simp: quiet.keeps_def in_world_def harmless_def split: prod.split intro!: quiet_world) (metis snd_conv)

lemma map_of_update_same: "map_of (AList.update k v d) j = (if j = k then Some v else map_of d j)"
  by (simp add: update_conv')

lemma done_effect:
  assumes laws: "future_laws env fm" and f: "f \<in> fm_issued fm (de_world s)" "owner fm f = req"
  shows "quiet env fm s (snd (direct_store_done env req keys f s))"
proof (cases "f \<in> set (de_completed s) \<or> dv_status env f (de_world s) \<noteq> Succeeded")
  case True
  then show ?thesis by (auto simp: direct_store_done_def act_defs quiet.frame_refl)
next
  case False
  define states where "states = (case map_of (de_states s) req of None \<Rightarrow> de_states s
    | Some st \<Rightarrow> AList.update req (st\<lparr>rs_pending_keys := without keys (rs_pending_keys st)\<rparr>) (de_states s))"
  define s0 where "s0 = s\<lparr>de_states := states\<rparr>"
  have res: "snd (direct_store_done env req keys f s) =
      s0\<lparr>de_completed := List.insert f (de_completed s0), de_pending := pending_drop req (de_pending s0)\<rparr>"
    using False by (auto simp: direct_store_done_def act_defs forget_keys_def on_state_def state_of_def mark_completed_def
      drop_pending_def s0_def states_def split: option.split)
  have look: "map_of states r = (case map_of (de_states s) r of None \<Rightarrow> None
      | Some st \<Rightarrow> Some (if r = req then st\<lparr>rs_pending_keys := without keys (rs_pending_keys st)\<rparr> else st))" for r
    by (auto simp: states_def map_of_update_same split: option.splits)
  have "balanced env fm x (s0\<lparr>de_completed := List.insert f (de_completed s0), de_pending := pending_drop req (de_pending s0)\<rparr>)"
    if "balanced env fm x s" for x
  proof (rule balanced_complete [OF laws, of x s0 f req])
    show "balanced env fm x s0"
      using that look by (auto simp: balanced_def s0_def unfinished_def queued_def split: option.splits if_splits)
  qed (use f False in \<open>auto simp: s0_def\<close>)
  moreover have "map_option kept (map_of states r) = map_option kept (map_of (de_states s) r)" for r
    by (simp add: look kept_def split: option.split)
  ultimately show ?thesis using False
    unfolding res by (auto simp: quiet_def bookkept_def s0_def world_step_refl)
qed

text \<open>On an unbalanced state nothing is promised of the books, so one balanced witness suffices below.\<close>

lemma quietI:
  assumes "world_step env fm (de_world s) (de_world t)" "de_retry t = de_retry s" "de_jobs t = de_jobs s"
    "\<And>req. map_option kept (map_of (de_states t) req) = map_option kept (map_of (de_states s) req)"
    "\<And>x. balanced env fm x s \<Longrightarrow> balanced env fm x t \<and>
        (\<forall>f \<in> set (de_completed t). f \<in> set (de_completed s) \<or> dv_status env f (de_world t) = Succeeded)"
  shows "quiet env fm s t"
  using assms by (simp add: quiet_def bookkept_def)

lemma done_always:
  "de_retry (snd (direct_store_done env req keys f s)) = de_retry s \<and> de_jobs (snd (direct_store_done env req keys f s)) = de_jobs s \<and>
   de_world (snd (direct_store_done env req keys f s)) = de_world s \<and>
   map_option kept (map_of (de_states (snd (direct_store_done env req keys f s))) r) = map_option kept (map_of (de_states s) r)"
  by (auto simp: direct_store_done_def act_defs forget_keys_def on_state_def state_of_def mark_completed_def
      drop_pending_def map_of_update_same kept_def split: option.split)

lemma keeps_callback: 
  assumes laws: "future_laws env fm"
  shows "quiet.keeps env fm (callback_turn env f)"
  unfolding quiet.keeps_def
proof
  fix s
  show "quiet env fm s (snd (callback_turn env f s))"
  proof (cases "map_of (de_callbacks s) f = None \<or> dv_status env f (de_world s) = Running")
    case True
    then have "snd (callback_turn env f s) = s"
      by (cases "map_of (de_callbacks s) f") (auto simp: callback_turn_def act_defs)
    then show ?thesis by (simp add: quiet.frame_refl)
  next
    case False
    then obtain req keys where c: "map_of (de_callbacks s) f = Some (req, keys)" by auto
    define s1 where "s1 = s\<lparr>de_callbacks := AList.delete f (de_callbacks s)\<rparr>"
    have run: "snd (callback_turn env f s) = snd (direct_store_done env req keys f s1)"
      using False c by (simp add: callback_turn_def act_defs s1_def)
    have "balanced env fm x (snd (direct_store_done env req keys f s1)) \<and>
        (\<forall>g \<in> set (de_completed (snd (direct_store_done env req keys f s1))). g \<in> set (de_completed s) \<or>
          dv_status env g (de_world (snd (direct_store_done env req keys f s1))) = Succeeded)"
      if b: "balanced env fm x s" for x
    proof -
      have "balanced env fm x s1" using b by (simp add: balanced_def s1_def unfinished_def queued_def delete_conv')
      moreover have "f \<in> fm_issued fm (de_world s1)" "owner fm f = req" using b c by (auto simp: balanced_def s1_def)
      ultimately have "quiet env fm s1 (snd (direct_store_done env req keys f s1))" "balanced env fm x s1"
        using done_effect [OF laws] by blast+
      moreover have "de_completed s1 = de_completed s" by (simp add: s1_def)
      ultimately show ?thesis unfolding quiet_def bookkept_def by metis
    qed
    then show ?thesis unfolding run
      by (intro quietI) (simp_all add: done_always s1_def world_step_refl)
  qed
qed

lemma keeps_worker:
  assumes laws: "future_laws env fm"
  shows "quiet.keeps env fm (worker_turn env)"
  unfolding quiet.keeps_def
proof
  fix s
  show "quiet env fm s (snd (worker_turn env s))"
  proof (cases "\<not> de_worker s \<or> de_queue s = [] \<or> (\<exists>rest. de_queue s = None # rest)")
    case True
    have "quiet env fm s (s\<lparr>de_queue := rest, de_worker := False\<rparr>)" if "de_queue s = None # rest" for rest
      using that by (intro quietI) (auto simp: world_step_refl balanced_def unfinished_def queued_def)
    then show ?thesis using True
      by (auto simp: worker_turn_def act_defs quiet.frame_refl split: list.split option.split)
  next
    case False
    then obtain work rest where q: "de_queue s = Some work # rest" "de_worker s" by (metis list.exhaust option.exhaust)
    define s1 where "s1 = s\<lparr>de_queue := rest\<rparr>"
    obtain r w where m: "dv_pipeline env work (de_world s1) = (r, w)" by (metis surj_pair)
    define s2 where "s2 = s1\<lparr>de_world := w\<rparr>"
    have run: "snd (worker_turn env s) = s2\<lparr>de_pending := pending_drop (fst work) (de_pending s2)\<rparr>"
      using q m by (simp add: worker_turn_def act_defs in_world_def drop_pending_def s1_def s2_def)
    have "harmless env fm (dv_pipeline env work)" using laws by (simp add: future_laws_def del: split_paired_All)
    then have step: "world_step env fm (de_world s1) w" using m by (metis harmless_def snd_conv)
    note q2 = quiet_world [OF step, folded s2_def]
    have "balanced env fm x (s2\<lparr>de_pending := pending_drop (fst work) (de_pending s2)\<rparr>) \<and>
        (\<forall>f \<in> set (de_completed s2). f \<in> set (de_completed s) \<or> dv_status env f (de_world s2) = Succeeded)"
      if b: "balanced env fm x s" for x
    proof -
      have "balanced env fm (x(fst work := x (fst work) + 1)) s1"
        using b q by (auto simp: balanced_def s1_def unfinished_def queued_def)
      then have "balanced env fm (x(fst work := x (fst work) + 1)) s2" using q2 by (simp add: quiet_def bookkept_def)
      from balanced_less [OF this, of "fst work"] show ?thesis by (simp add: s2_def s1_def)
    qed
    then show ?thesis unfolding run
      by (intro quietI) (use step in \<open>simp_all add: s2_def s1_def\<close>)
  qed
qed

lemma keeps_turn: "future_laws env fm \<Longrightarrow> quiet.keeps env fm (take_turn env t)"
  by (cases t) (simp_all add: take_turn_def keeps_callback keeps_worker)

lemma keeps_blocking:
  assumes "future_laws env fm" "harmless env fm m"
  shows "quiet.keeps env fm (blocking env m)"
  unfolding blocking_def by (intro quiet.keeps_intros keeps_in_world keeps_turn assms)

lemma harmless_calls:
  assumes "future_laws env fm"
  shows "harmless env fm (dv_wait_job env f)" "harmless env fm (dv_result env f)" "harmless env fm (dv_store_layer env a b c d e g h k)"
    "harmless env fm (dv_sync_wait env)" "harmless env fm (dv_poll_layerwise env rs)" "harmless env fm (dv_latch_fatal env i)"
    "harmless env fm (dv_remote_wait env n)" "harmless env fm (dv_remote_finish env a n x y)" "harmless env fm (dv_remote_release env a n y')"
    "harmless env fm (dv_release_leases env a)" "harmless env fm (dv_forget_live env a)" "harmless env fm (dv_queue_put env work)"
    "harmless env fm (dv_pipeline env work)" "harmless env fm (dv_record_event env)"
  using assms by (simp_all add: future_laws_def del: split_paired_All)

lemma keeps_require: "quiet.keeps env fm (set_require b)"
  unfolding set_require_def
  by (rule quiet.keeps_write, intro quietI) (auto simp: world_step_refl balanced_def unfinished_def queued_def)

lemma keeps_finally: "quiet.keeps env fm m \<Longrightarrow> quiet.keeps env fm n \<Longrightarrow> quiet.keeps env fm (finallyA m n)"
  unfolding finallyA_def by (intro quiet.keeps_intros)

lemma keeps_store_cpu:
  assumes "future_laws env fm"
  shows "quiet.keeps env fm (store_cpu_group env req tokens caches slots g start configs base)"
  unfolding store_cpu_group_def
  by (intro quiet.keeps_intros keeps_require keeps_finally keeps_blocking assms harmless_calls [OF assms])

lemma keeps_repair_groups:
  assumes "future_laws env fm"
  shows "quiet.keeps env fm (repair_groups env req ra error ends verified)"
proof (induction ends arbitrary: verified)
  case Nil
  then show ?case by (simp add: quiet.keeps_ret)
next
  case (Cons ge ends)
  obtain g e where "ge = (g, e)" by (metis surj_pair)
  then show ?case
    by (simp only: repair_groups.simps) (intro quiet.keeps_intros keeps_store_cpu assms Cons)
qed

lemma keeps_repair:
  assumes "future_laws env fm"
  shows "quiet.keeps env fm (repair_jobs env req jobs verified)"
proof (induction jobs arbitrary: verified)
  case Nil
  then show ?case by (simp add: quiet.keeps_ret)
next
  case (Cons j jobs)
  obtain f ra e where "j = (f, ra, e)" by (metis surj_pair)
  then show ?case by (simp only: repair_jobs.simps) (intro quiet.keeps_intros keeps_repair_groups assms Cons)
qed

lemma keeps_remote_windows: "future_laws env fm \<Longrightarrow> quiet.keeps env fm (wait_remote_windows env req)"
  unfolding wait_remote_windows_def by (intro quiet.keeps_intros keeps_blocking harmless_calls)

lemma keeps_finish_remote: "future_laws env fm \<Longrightarrow> quiet.keeps env fm (finish_remote_fill env req required)"
  unfolding finish_remote_fill_def by (intro quiet.keeps_intros keeps_blocking harmless_calls)

section \<open>Draining the futures of a request\<close>

lemma quiet_statesD:
  assumes "quiet env fm s t" "map_of (de_states s) req = Some st"
  shows "\<exists>st'. map_of (de_states t) req = Some st' \<and> kept st' = kept st"
proof -
  have "map_option kept (map_of (de_states t) req) = map_option kept (map_of (de_states s) req)"
    using assms(1) unfolding quiet_def by blast
  then show ?thesis unfolding assms(2) by (cases "map_of (de_states t) req") auto
qed

lemma status_stays:
  assumes "world_step env fm w w'" "f \<in> fm_issued fm w" "dv_status env f w \<noteq> Running"
  shows "dv_status env f w' = dv_status env f w \<and> f \<in> fm_issued fm w'"
  using assms by (simp add: world_step_def settled_stay_def)

definition ended :: "'w direct_env \<Rightarrow> nat \<Rightarrow> bool \<Rightarrow> 'w \<Rightarrow> bool" where
  "ended env f ok w \<longleftrightarrow> (if ok then dv_status env f w = Succeeded else dv_status env f w \<noteq> Running \<and> dv_status env f w \<noteq> Succeeded)"

lemma ended_stays: "world_step env fm w w' \<Longrightarrow> f \<in> fm_issued fm w \<Longrightarrow> ended env f ok w \<Longrightarrow> ended env f ok w'"
  using status_stays by (fastforce simp: ended_def split: if_splits)

lemma quiet_world_step: "quiet env fm s t \<Longrightarrow> world_step env fm (de_world s) (de_world t)"
  by (simp add: quiet_def bookkept_def)

lemma result_ended:
  assumes laws: "future_laws env fm" and f: "f \<in> fm_issued fm (de_world s)"
    and run: "blocking env (dv_result env f) s = (r, t)"
  shows "ended env f (\<exists>u. r = Inr u) (de_world t) \<and> quiet env fm s t"
proof -
  obtain r1 w where m: "dv_result env f (de_world s) = (r1, w)" by (metis surj_pair)
  have "harmless env fm (dv_result env f)" by (rule harmless_calls [OF laws])
  then have step: "world_step env fm (de_world s) w" using m unfolding harmless_def by (metis snd_conv)
  have e: "ended env f (\<exists>u. r1 = Inr u) w"
  proof -
    have "case dv_result env f (de_world s) of (r, w') \<Rightarrow> case r of
        Inl _ \<Rightarrow> dv_status env f w' \<noteq> Running \<and> dv_status env f w' \<noteq> Succeeded | Inr _ \<Rightarrow> dv_status env f w' = Succeeded"
      using laws f by (simp add: future_laws_def del: split_paired_All)
    then show ?thesis unfolding m by (auto simp: ended_def split: sum.splits)
  qed
  define s1 where "s1 = s\<lparr>de_world := w\<rparr>"
  obtain q t1 where turns: "eachA (take_turn env) (dv_turns env w) s1 = (q, t1)" by (metis surj_pair)
  have t: "t = t1" and r: "q = Inr () \<Longrightarrow> r = r1"
    using run turns by (auto simp: blocking_def act_defs in_world_def m s1_def split: sum.splits)
  have all_ret: "\<exists>u. take_turn env x y = (Inr (), u)" for x y
    by (auto simp: take_turn_def callback_turn_def worker_turn_def direct_store_done_def forget_keys_def on_state_def
        mark_completed_def drop_pending_def act_defs split: turn.split option.split list.split prod.split)
  have "\<exists>u. eachA (take_turn env) ts y = (Inr (), u)" for ts y
  proof (induction ts arbitrary: y)
    case Nil
    then show ?case by (simp add: act_defs)
  next
    case (Cons x ts)
    obtain u where "take_turn env x y = (Inr (), u)" using all_ret by blast
    then show ?case using Cons [of u] by (simp add: seqA_def bindA_def)
  qed
  then have "q = Inr ()" using turns by (metis fst_conv)
  have "quiet.keeps env fm (eachA (take_turn env) (dv_turns env w))" by (intro quiet.keeps_each keeps_turn laws)
  then have "quiet env fm s1 t" using turns quiet.keepsD unfolding t by blast
  then have "world_step env fm w (de_world t)" using quiet_world_step by (fastforce simp: s1_def)
  moreover have "f \<in> fm_issued fm w" using step f by (simp add: world_step_def)
  ultimately have "ended env f (\<exists>u. r = Inr u) (de_world t)" using ended_stays e r [OF \<open>q = Inr ()\<close>] by metis
  moreover have "quiet env fm s t"
    using keeps_blocking [OF laws harmless_calls(2) [OF laws]] run by (rule quiet.keepsD)
  ultimately show ?thesis by blast
qed

lemma pop_future_loose:
  assumes "map_of (de_states s) req = Some st" "rs_futures st = f # fs"
  shows "loose env fm req s (snd (on_state req (\<lambda>st. st\<lparr>rs_futures := fs\<rparr>) s))"
proof -
  define t where "t = snd (on_state req (\<lambda>st. st\<lparr>rs_futures := fs\<rparr>) s)"
  have t: "t = s\<lparr>de_states := AList.update req (st\<lparr>rs_futures := fs\<rparr>) (de_states s)\<rparr>"
    using assms by (simp add: t_def on_state_def state_of_def act_defs)
  have "balanced env fm x t" if b: "balanced env fm x s" for x
  proof -
    have "distinct (f # fs)" "\<forall>g \<in> set (f # fs). g \<in> fm_issued fm (de_world s) \<and> owner fm g = req \<and>
        (g \<in> set (de_completed s) \<longrightarrow> dv_status env g (de_world s) = Succeeded)"
      using b assms unfolding balanced_def by metis+
    then show ?thesis using b by (auto simp: balanced_def t unfinished_def queued_def map_of_update_same)
  qed
  then show ?thesis using assms unfolding t_def [symmetric]
    by (auto simp: loose_def bookkept_def t world_step_refl map_of_update_same unfutured_def kept_def)
qed

lemma pop_retry_effect:
  "pop_retry f s = (Inr (map_of (de_retry s) f), s\<lparr>de_retry := AList.delete f (de_retry s)\<rparr>)"
  "loose env fm req s (s\<lparr>de_retry := AList.delete f (de_retry s)\<rparr>)"
  by (auto simp: pop_retry_def act_defs loose_def bookkept_def world_step_refl balanced_def unfinished_def queued_def delete_conv')

lemma seq_on_state: "seqA (on_state req g) m s = m (snd (on_state req g s))"
  by (simp add: seqA_def bindA_def on_state_def writeA_def)

lemma bind_attempt: "bindA (attemptA m) k s = (case m s of (r, t) \<Rightarrow> k r t)"
  by (simp add: bindA_def attemptA_def split: prod.split)

lemma bind_pop_retry: "bindA (pop_retry f) k s = k (map_of (de_retry s) f) (s\<lparr>de_retry := AList.delete f (de_retry s)\<rparr>)"
  by (simp add: bindA_def pop_retry_effect)

definition job_ok :: "'w direct_env \<Rightarrow> (nat \<times> retry_args) list \<Rightarrow> 'w \<Rightarrow> drained \<Rightarrow> bool" where
  "job_ok env retry w job = (case job of (f, ra, e) \<Rightarrow> map_of retry f = Some ra \<and> ended env f (e = None) w)"

definition drained_all :: "'w direct_env \<Rightarrow> (nat \<times> retry_args) list \<Rightarrow> nat list \<Rightarrow> drained list \<Rightarrow> 'w \<Rightarrow> bool" where
  "drained_all env retry fs jobs w \<longleftrightarrow> map fst jobs = filter (\<lambda>f. map_of retry f \<noteq> None) fs \<and>
     list_all (job_ok env retry w) jobs \<and> (\<forall>f \<in> set fs. map_of retry f = None \<longrightarrow> ended env f True w)"

text \<open>
  Draining takes every future off the request, in submission order, and each has ended: the jobs are those that
  can be retried.  An exception leaves the books balanced too.
\<close>

lemma drained_result:
  assumes laws: "future_laws env fm"
  shows "balanced env fm x s \<Longrightarrow> map_of (de_states s) req = Some st \<Longrightarrow> rs_futures st = fs \<Longrightarrow>
    drain_futures env req fs s = (r, t) \<Longrightarrow> loose env fm req s t \<and>
      (case r of Inl _ \<Rightarrow> True | Inr jobs \<Rightarrow> drained_all env (de_retry s) fs jobs (de_world t) \<and>
         (\<exists>st'. map_of (de_states t) req = Some st' \<and> rs_futures st' = []))"
proof (induction fs arbitrary: s st r t)
  case Nil
  then show ?case by (auto simp: act_defs drained_all_def loose.frame_refl)
next
  case (Cons f fs)
  note b = Cons.prems(1) and st = Cons.prems(2,3)
  have own: "distinct (f # fs)" "\<forall>g \<in> set (f # fs). g \<in> fm_issued fm (de_world s) \<and> owner fm g = req"
    using b st unfolding balanced_def by metis+
  define s1 where "s1 = snd (on_state req (\<lambda>st. st\<lparr>rs_futures := fs\<rparr>) s)"
  have l1: "loose env fm req s s1" unfolding s1_def by (rule pop_future_loose [OF st])
  have s1: "s1 = s\<lparr>de_states := AList.update req (st\<lparr>rs_futures := fs\<rparr>) (de_states s)\<rparr>"
    using st by (simp add: s1_def on_state_def state_of_def act_defs)
  have w1: "de_world s1 = de_world s" "de_retry s1 = de_retry s" "map_of (de_states s1) req = Some (st\<lparr>rs_futures := fs\<rparr>)"
    by (simp_all add: s1 map_of_update_same)
  obtain r1 s2 where run1: "blocking env (dv_result env f) s1 = (r1, s2)" by (metis surj_pair)
  have "f \<in> fm_issued fm (de_world s1)" using own w1 by simp
  from result_ended [OF laws this run1]
  have end1: "ended env f (\<exists>u. r1 = Inr u) (de_world s2)" and q2: "quiet env fm s1 s2" by blast+
  define error where "error = (case r1 of Inl e \<Rightarrow> Some e | Inr _ \<Rightarrow> None)"
  have ok: "(\<exists>u. r1 = Inr u) = (error = None)" by (auto simp: error_def split: sum.splits)
  have l2: "loose env fm req s s2" by (rule loose_trans [OF l1 quiet_loose [OF q2]])
  have run: "drain_futures env req (f # fs) s = (if error = Some NativeExternalPageTransferUnknownError
      then seqA (bindA (readA (\<lambda>s. rs_remote (state_of req s))) (\<lambda>i. in_world (dv_latch_fatal env i))) (raiseA deadline_exceeded) s2
      else case map_of (de_retry s2) f of
          None \<Rightarrow> (case error of Some e \<Rightarrow> raiseA e | None \<Rightarrow> drain_futures env req fs) (s2\<lparr>de_retry := AList.delete f (de_retry s2)\<rparr>)
        | Some ra \<Rightarrow> seqA (if error = None then direct_store_done env req (ra_keys ra) f else retA ())
            (bindA (drain_futures env req fs) (\<lambda>rest. retA ((f, ra, error) # rest))) (s2\<lparr>de_retry := AList.delete f (de_retry s2)\<rparr>))"
    by (simp add: seq_on_state bind_attempt bind_pop_retry run1 Let_def error_def flip: s1_def split: option.split)
  define s3 where "s3 = s2\<lparr>de_retry := AList.delete f (de_retry s2)\<rparr>"
  have l3: "loose env fm req s s3" unfolding s3_def by (rule loose_trans [OF l2 pop_retry_effect(2)])
  show ?case
  proof (cases "error = Some NativeExternalPageTransferUnknownError")
    case True
    have "loose.keeps env fm req (seqA (bindA (readA (\<lambda>s. rs_remote (state_of req s))) (\<lambda>i. in_world (dv_latch_fatal env i)))
        (raiseA deadline_exceeded :: ('a, drained list) de_act))"
      by (intro loose.keeps_intros loosely keeps_in_world harmless_calls [OF laws])
    then have "loose env fm req s2 t" "\<exists>e. r = Inl e"
      using Cons.prems(4) run True by (auto simp: loose.keepsD seqA_def bindA_def raiseA_def split: prod.splits sum.splits)
    then show ?thesis using loose_trans [OF l2] by auto
  next
    case False
    have step2: "world_step env fm (de_world s) (de_world s2)" using l2 by (simp add: loose_def bookkept_def)
    have retry2: "de_retry s2 = de_retry s" using q2 w1 by (simp add: quiet_def)
    have bal3: "balanced env fm x s3" using l3 b unfolding loose_def bookkept_def by blast
    have st3: "\<exists>st'. map_of (de_states s3) req = Some st' \<and> kept st' = kept (st\<lparr>rs_futures := fs\<rparr>)"
      using quiet_statesD [OF q2 w1(3)] by (simp add: s3_def)
    have rest: "loose env fm req s t \<and> drained_all env (de_retry s) fs jobs (de_world t) \<and>
        (\<exists>st'. map_of (de_states t) req = Some st' \<and> rs_futures st' = []) \<and> ended env f (error = None) (de_world t)"
      if q4: "quiet env fm s3 s4" and run4: "drain_futures env req fs s4 = (Inr jobs, t)" for s4 jobs
    proof -
      have l4: "loose env fm req s s4" by (rule loose_trans [OF l3 quiet_loose [OF q4]])
      have b4: "balanced env fm x s4" using q4 bal3 unfolding quiet_def bookkept_def by blast
      obtain st3 where "map_of (de_states s3) req = Some st3" "kept st3 = kept (st\<lparr>rs_futures := fs\<rparr>)" using st3 by blast
      with quiet_statesD [OF q4 this(1)] obtain st4 where st4: "map_of (de_states s4) req = Some st4" "kept st4 = kept (st\<lparr>rs_futures := fs\<rparr>)"
        by auto
      have "rs_futures st4 = fs" using kept_fields [OF st4(2)] by simp
      from Cons.IH [OF b4 st4(1) this run4]
      have l5: "loose env fm req s4 t" and d: "drained_all env (de_retry s4) fs jobs (de_world t)"
        "\<exists>st'. map_of (de_states t) req = Some st' \<and> rs_futures st' = []" by auto
      have r4: "de_retry s4 = AList.delete f (de_retry s)" using q4 by (simp add: quiet_def s3_def retry2)
      have same: "map_of (de_retry s4) g = map_of (de_retry s) g" if "g \<in> set fs" for g
        using that own(1) by (auto simp: r4 delete_conv')
      have jf: "fst j \<in> set fs" if "j \<in> set jobs" for j
      proof -
        have "fst j \<in> set (map fst jobs)" using that by (simp only: set_map imageI)
        also have "map fst jobs = filter (\<lambda>f. map_of (de_retry s4) f \<noteq> None) fs" using d(1) by (simp only: drained_all_def)
        finally show ?thesis by simp
      qed
      have "filter (\<lambda>f. map_of (de_retry s4) f \<noteq> None) fs = filter (\<lambda>f. map_of (de_retry s) f \<noteq> None) fs"
        by (rule filter_cong) (auto simp: same)
      moreover have "job_ok env (de_retry s) w j" if "j \<in> set jobs" "job_ok env (de_retry s4) w j" for w j
        using that same [OF jf [OF that(1)]] by (auto simp: job_ok_def split: prod.splits)
      ultimately have "drained_all env (de_retry s) fs jobs (de_world t)"
        using d(1) same by (auto simp: drained_all_def list_all_iff)
      moreover have "ended env f (error = None) (de_world t)"
      proof -
        have "f \<in> fm_issued fm (de_world s2)" using own step2 by (simp add: world_step_def)
        moreover have "world_step env fm (de_world s2) (de_world t)"
        proof -
          have "world_step env fm (de_world s4) (de_world t)" using l5 unfolding loose_def bookkept_def by blast
          with quiet_world_step [OF q4] have "world_step env fm (de_world s3) (de_world t)" by (rule world_step_trans)
          then show ?thesis by (simp add: s3_def)
        qed
        ultimately have "ended env f (\<exists>u. r1 = Inr u) (de_world t)" by (intro ended_stays [OF _ _ end1])
        then show ?thesis unfolding ok .
      qed
      ultimately show ?thesis using loose_trans [OF l4 l5] d(2) by blast
    qed
    have fail: "loose env fm req s t" if q4: "quiet env fm s3 s4" and run4: "drain_futures env req fs s4 = (Inl e, t)" for s4 e
    proof -
      have b4: "balanced env fm x s4" using q4 bal3 unfolding quiet_def bookkept_def by blast
      obtain st3 where "map_of (de_states s3) req = Some st3" "kept st3 = kept (st\<lparr>rs_futures := fs\<rparr>)" using st3 by blast
      with quiet_statesD [OF q4 this(1)] obtain st4 where st4: "map_of (de_states s4) req = Some st4" "kept st4 = kept (st\<lparr>rs_futures := fs\<rparr>)"
        by auto
      have "rs_futures st4 = fs" using kept_fields [OF st4(2)] by simp
      from Cons.IH [OF b4 st4(1) this run4] show ?thesis using loose_trans [OF l3 quiet_loose [OF q4]] loose_trans by blast
    qed
    show ?thesis
    proof (cases "map_of (de_retry s) f")
      case None
      then have go: "drain_futures env req (f # fs) s = (case error of Some e \<Rightarrow> raiseA e | None \<Rightarrow> drain_futures env req fs) s3"
        unfolding run using False by (simp add: s3_def retry2)
      show ?thesis
      proof (cases error)
        case (Some e)
        then show ?thesis using go Cons.prems(4) l3 by (auto simp: raiseA_def)
      next
        case err: None
        have go': "drain_futures env req fs s3 = (r, t)" using go err Cons.prems(4) by simp
        show ?thesis
        proof (cases r)
          case (Inl e)
          then show ?thesis using fail [OF quiet.frame_refl] go' by simp
        next
          case (Inr jobs)
          then have "loose env fm req s t \<and> drained_all env (de_retry s) fs jobs (de_world t) \<and>
              (\<exists>st'. map_of (de_states t) req = Some st' \<and> rs_futures st' = []) \<and> ended env f (error = None) (de_world t)"
            using rest [OF quiet.frame_refl] go' by blast
          then show ?thesis using Inr None err by (simp add: drained_all_def)
        qed
      qed
    next
      case (Some ra)
      define s4 where "s4 = (if error = None then snd (direct_store_done env req (ra_keys ra) f s3) else s3)"
      have "f \<in> fm_issued fm (de_world s3)" using own step2 by (simp add: world_step_def s3_def)
      then have q4: "quiet env fm s3 s4"
        using done_effect [OF laws, of f s3 req] own by (simp add: s4_def quiet.frame_refl)
      have dn: "fst (direct_store_done env req (ra_keys ra) f s3) = Inr ()"
        by (auto simp: direct_store_done_def forget_keys_def on_state_def mark_completed_def drop_pending_def act_defs)
      then have "seqA (if error = None then direct_store_done env req (ra_keys ra) f else retA ()) m s3 = m s4"
        for m :: "('a, drained list) de_act"
        by (cases "direct_store_done env req (ra_keys ra) f s3") (auto simp: s4_def seqA_def bindA_def retA_def)
      then have go: "drain_futures env req (f # fs) s = bindA (drain_futures env req fs) (\<lambda>rest. retA ((f, ra, error) # rest)) s4"
        unfolding run using False Some by (simp add: s3_def s4_def retry2)
      obtain r5 t5 where run5: "drain_futures env req fs s4 = (r5, t5)" by (metis surj_pair)
      have t5: "t5 = t" using go run5 Cons.prems(4) by (auto simp: bindA_def retA_def split: sum.splits)
      show ?thesis
      proof (cases r5)
        case (Inl e)
        then show ?thesis using fail [OF q4] run5 go Cons.prems(4) t5 by (auto simp: bindA_def)
      next
        case (Inr jobs)
        then have "loose env fm req s t \<and> drained_all env (de_retry s) fs jobs (de_world t) \<and>
            (\<exists>st'. map_of (de_states t) req = Some st' \<and> rs_futures st' = []) \<and> ended env f (error = None) (de_world t)"
          using rest [OF q4] run5 t5 by blast
        moreover have "r = Inr ((f, ra, error) # jobs)" using go run5 Inr Cons.prems(4) by (simp add: bindA_def retA_def)
        ultimately show ?thesis using Some by (simp add: drained_all_def job_ok_def)
      qed
    qed
  qed
qed

section \<open>Every operation keeps the books\<close>

definition books :: "'w direct_env \<Rightarrow> 'w future_model \<Rightarrow> 'w direct_engine \<Rightarrow> 'w direct_engine \<Rightarrow> bool" where
  "books env fm s t \<longleftrightarrow> (\<forall>x. balanced env fm x s \<longrightarrow> balanced env fm x t)"

interpretation books: frame "books env fm" for env :: "'w direct_env" and fm :: "'w future_model"
  by unfold_locales (auto simp: books_def)

lemma quietly: "quiet.keeps env fm m \<Longrightarrow> books.keeps env fm m"
  unfolding quiet.keeps_def books.keeps_def books_def quiet_def bookkept_def by blast

lemma books_at: "books.keeps env fm m \<Longrightarrow> m s = (r, t) \<Longrightarrow> balanced env fm x s \<Longrightarrow> balanced env fm x t"
  using books.keepsD unfolding books_def by blast

lemma on_state_effect: "on_state req g s = (Inr (), s\<lparr>de_states := AList.update req (g (state_of req s)) (de_states s)\<rparr>)"
  by (simp add: on_state_def writeA_def)

lemma state_of_look: "map_of (de_states s) req = Some st \<Longrightarrow> state_of req s = st"
  by (simp add: state_of_def)

lemma balanced_state:
  assumes b: "balanced env fm x s"
    and f: "distinct (rs_futures st)" "\<And>f. f \<in> set (rs_futures st) \<Longrightarrow> f \<in> fm_issued fm (de_world s) \<and> owner fm f = req \<and>
           (f \<in> set (de_completed s) \<longrightarrow> dv_status env f (de_world s) = Succeeded)"
  shows "balanced env fm x (s\<lparr>de_states := AList.update req st (de_states s)\<rparr>)"
  using b f by (auto simp: balanced_def unfinished_def queued_def map_of_update_same)

lemma state_futures:
  assumes "balanced env fm x s"
  shows "distinct (rs_futures (state_of req s)) \<and> (\<forall>f \<in> set (rs_futures (state_of req s)).
    f \<in> fm_issued fm (de_world s) \<and> owner fm f = req \<and> (f \<in> set (de_completed s) \<longrightarrow> dv_status env f (de_world s) = Succeeded))"
proof (cases "map_of (de_states s) req")
  case None
  then show ?thesis by (simp add: state_of_def fresh_state_def)
next
  case (Some st)
  then show ?thesis using assms unfolding state_of_look [OF Some] balanced_def by metis
qed

lemma books_on_state:
  assumes "\<And>st. rs_futures (g st) = rs_futures st"
  shows "books.keeps env fm (on_state req g)"
  unfolding books.keeps_def books_def on_state_effect
proof (intro allI impI)
  fix s x assume b: "balanced env fm x s"
  show "balanced env fm x (snd (Inr (), s\<lparr>de_states := AList.update req (g (state_of req s)) (de_states s)\<rparr>))"
    unfolding snd_conv by (rule balanced_state [OF b]) (use state_futures [OF b, of req] assms in auto)
qed

lemma books_write: "(\<And>s. de_states (g s) = de_states s \<and> de_completed (g s) = de_completed s \<and> de_callbacks (g s) = de_callbacks s \<and>
     de_retry (g s) = de_retry s \<and> de_pending (g s) = de_pending s \<and> de_queue (g s) = de_queue s \<and> de_world (g s) = de_world s) \<Longrightarrow>
   books.keeps env fm (writeA g)"
  by (rule books.keeps_write) (simp add: books_def balanced_def unfinished_def queued_def)

lemma books_finally: "books.keeps env fm m \<Longrightarrow> books.keeps env fm n \<Longrightarrow> books.keeps env fm (finallyA m n)"
  unfolding finallyA_def by (intro books.keeps_intros)

text \<open>A count taken before a call and given back after it, whatever happens.\<close>

lemma books_bracket:
  assumes "books.keeps env fm m"
  shows "books.keeps env fm (seqA (add_pending r) (finallyA m (drop_pending r)))"
  unfolding books.keeps_def books_def
proof (intro allI impI)
  fix s x assume b: "balanced env fm x s"
  define s1 where "s1 = s\<lparr>de_pending := pending_add r (de_pending s)\<rparr>"
  obtain q t where run: "m s1 = (q, t)" by (metis surj_pair)
  have end_eq: "snd (seqA (add_pending r) (finallyA m (drop_pending r)) s) = t\<lparr>de_pending := pending_drop r (de_pending t)\<rparr>"
    using run by (simp add: finallyA_def act_defs add_pending_def drop_pending_def s1_def)
  have "balanced env fm (x(r := x r + 1)) s1" using balanced_more [OF b] by (simp add: s1_def)
  then have "balanced env fm (x(r := x r + 1)) t" by (rule books_at [OF assms run])
  from balanced_less [OF this, of r] show "balanced env fm x (snd (seqA (add_pending r) (finallyA m (drop_pending r)) s))"
    unfolding end_eq by simp
qed

section \<open>Submissions\<close>

lemma keeps_backpressure:
  assumes "future_laws env fm"
  shows "books.keeps env fm (wait_backpressure env jobs)"
proof (induction jobs)
  case Nil
  then show ?case by (simp add: books.keeps_ret)
next
  case (Cons f jobs)
  show ?case unfolding wait_backpressure.simps
    by (intro books.keeps_intros quietly [OF keeps_blocking] harmless_calls assms books_write Cons) auto
qed

text \<open>The put itself, with the count already taken.\<close>

lemma put_effect:
  assumes laws: "future_laws env fm" and b: "balanced env fm (x(db_req_id b := x (db_req_id b) + 1)) s"
    and put: "dv_put env b (de_world s) = (r, w)"
  shows "case r of Inl _ \<Rightarrow> balanced env fm (x(db_req_id b := x (db_req_id b) + 1)) (s\<lparr>de_world := w\<rparr>)
    | Inr f \<Rightarrow> balanced env fm x (s\<lparr>de_world := w\<rparr>) \<and> f \<in> fm_issued fm w \<and> owner fm f = db_req_id b \<and> fm_batch fm f = b \<and>
        f \<notin> fm_issued fm (de_world s)"
proof -
  have law: "case dv_put env b (de_world s) of (r, w') \<Rightarrow> settled_stay env fm (de_world s) w' \<and> (case r of
        Inl _ \<Rightarrow> fm_issued fm w' = fm_issued fm (de_world s)
      | Inr f \<Rightarrow> f \<notin> fm_issued fm (de_world s) \<and> fm_issued fm w' = insert f (fm_issued fm (de_world s)) \<and> fm_batch fm f = b)"
    using laws by (simp add: future_laws_def del: split_paired_All)
  show ?thesis
  proof (cases r)
    case (Inl e)
    then have "world_step env fm (de_world s) w" using law put by (simp add: world_step_def)
    from quiet_world [OF this] show ?thesis using b Inl by (simp add: quiet_def bookkept_def)
  next
    case (Inr f)
    define r0 where "r0 = db_req_id b"
    have f: "f \<notin> fm_issued fm (de_world s)" "fm_issued fm w = insert f (fm_issued fm (de_world s))" "owner fm f = r0"
      "settled_stay env fm (de_world s) w" "fm_batch fm f = b"
      using law put Inr by (simp_all add: owner_def r0_def)
    have nc: "f \<notin> set (de_completed s)" using b f(1) by (auto simp: balanced_def)
    have card: "int (card (unfinished fm r' (s\<lparr>de_world := w\<rparr>))) = int (card (unfinished fm r' s)) + (if r' = r0 then 1 else 0)" for r'
    proof (cases "r' = r0")
      case True
      then have "unfinished fm r' (s\<lparr>de_world := w\<rparr>) = insert f (unfinished fm r' s)"
        using f nc by (auto simp: unfinished_def)
      moreover have "f \<notin> unfinished fm r' s" using f(1) by (simp add: unfinished_def)
      ultimately show ?thesis using True finite_unfinished [OF laws] by simp
    next
      case False
      then have "unfinished fm r' (s\<lparr>de_world := w\<rparr>) = unfinished fm r' s" using f by (auto simp: unfinished_def)
      then show ?thesis using False by simp
    qed
    have "balanced env fm x (s\<lparr>de_world := w\<rparr>)"
      unfolding balanced_def
    proof (intro conjI)
      show "\<forall>r. pending_of r (de_pending (s\<lparr>de_world := w\<rparr>)) = int (card (unfinished fm r (s\<lparr>de_world := w\<rparr>))) +
          int (queued r (s\<lparr>de_world := w\<rparr>)) + int (x r)"
        using b card by (auto simp: balanced_def queued_def r0_def)
      show "\<forall>req st. map_of (de_states (s\<lparr>de_world := w\<rparr>)) req = Some st \<longrightarrow> distinct (rs_futures st) \<and>
        (\<forall>f\<in>set (rs_futures st). f \<in> fm_issued fm (de_world (s\<lparr>de_world := w\<rparr>)) \<and> owner fm f = req \<and>
          (f \<in> set (de_completed (s\<lparr>de_world := w\<rparr>)) \<longrightarrow> dv_status env f (de_world (s\<lparr>de_world := w\<rparr>)) = Succeeded))"
        using b f by (fastforce simp: balanced_def settled_stay_def)
    qed (use b f in \<open>auto simp: balanced_def settled_stay_def\<close>)
    then show ?thesis using Inr f by (simp add: r0_def)
  qed
qed

lemma seq_run: "m s = (Inr u, t) \<Longrightarrow> seqA m n s = n t"
  by (simp add: seqA_def bindA_def)

lemma seq_add_pending: "seqA (add_pending r) m s = m (s\<lparr>de_pending := pending_add r (de_pending s)\<rparr>)"
  by (simp add: seqA_def bindA_def add_pending_def writeA_def)

lemma seq_drop_pending: "seqA (drop_pending r) m s = m (s\<lparr>de_pending := pending_drop r (de_pending s)\<rparr>)"
  by (simp add: seqA_def bindA_def drop_pending_def writeA_def)

lemma seq_write: "seqA (writeA g) m s = m (g s)"
  by (simp add: seqA_def bindA_def writeA_def)

lemma bind_world: "bindA (attemptA (in_world m)) k s = (case m (de_world s) of (r, w) \<Rightarrow> k r (s\<lparr>de_world := w\<rparr>))"
  by (simp add: bind_attempt in_world_def split: prod.split)

lemma submit_result:
  assumes laws: "future_laws env fm" and b: "balanced env fm x s" and run: "submit_batch env b s = (r, t)"
  shows "balanced env fm x t \<and> (case r of Inl _ \<Rightarrow> True | Inr f \<Rightarrow> f \<in> fm_issued fm (de_world t) \<and> owner fm f = db_req_id b)"
proof -
  define req keys where "req = db_req_id b" and "keys = map (dv_key_string env) (db_keys b)"
  obtain r1 s1 where bp: "wait_backpressure env (de_jobs s) s = (r1, s1)" by (metis surj_pair)
  have b1: "balanced env fm x s1" by (rule books_at [OF keeps_backpressure [OF laws] bp b])
  show ?thesis
  proof (cases r1)
    case (Inl e)
    then show ?thesis using run bp b1 by (auto simp: submit_batch_def Let_def act_defs)
  next
    case (Inr u)
    define g where "g = (\<lambda>st :: direct_state. st\<lparr>rs_pending_keys := py_unique (rs_pending_keys st @ keys)\<rparr>)"
    define s2 where "s2 = snd (on_state req g s1)"
    have b2: "balanced env fm x s2"
      by (rule books_at [OF books_on_state _ b1, of g req]) (auto simp: g_def s2_def on_state_effect)
    define s3 where "s3 = s2\<lparr>de_pending := pending_add req (de_pending s2)\<rparr>"
    have b3: "balanced env fm (x(req := x req + 1)) s3" using balanced_more [OF b2] by (simp add: s3_def)
    obtain r4 w where put: "dv_put env b (de_world s3) = (r4, w)" by (metis surj_pair)
    define s4 where "s4 = s3\<lparr>de_world := w\<rparr>"
    note p = put_effect [OF laws b3 [unfolded req_def] put, folded req_def s4_def]
    have tail: "submit_batch env b s = (case r4 of
          Inl e \<Rightarrow> seqA (on_state req (\<lambda>st. st\<lparr>rs_pending_keys := without keys (rs_pending_keys st)\<rparr>))
            (seqA (drop_pending req) (raiseA e))
        | Inr f \<Rightarrow> seqA (on_state req (\<lambda>st. st\<lparr>rs_futures := rs_futures st @ [f], rs_jobs := rs_jobs st + 1,
              rs_pages := rs_pages st + (int (length (db_keys b)) - legacy_count env b), rs_legacy := rs_legacy st + legacy_count env b,
              rs_bytes := rs_bytes st + batch_total b\<rparr>))
            (seqA (writeA (\<lambda>s. s\<lparr>de_jobs := de_jobs s @ [f]\<rparr>)) (retA f))) s4"
    proof -
      have bp': "wait_backpressure env (de_jobs s) s = (Inr u, s1)" using bp Inr by simp
      show ?thesis
        unfolding submit_batch_def Let_def req_def [symmetric] keys_def [symmetric] bindA_readA seq_run [where m = "wait_backpressure env (de_jobs s)" and s = s, OF bp'] g_def [symmetric]
          seq_on_state [of req g] s2_def [symmetric] seq_add_pending s3_def [symmetric] bind_world put s4_def [symmetric] prod.case
        by (rule refl)
    qed
    show ?thesis
    proof (cases r4)
      case (Inl e)
      define s5 where "s5 = snd (on_state req (\<lambda>st. st\<lparr>rs_pending_keys := without keys (rs_pending_keys st)\<rparr>) s4)"
      have "balanced env fm (x(req := x req + 1)) s4" using p Inl by simp
      then have "balanced env fm (x(req := x req + 1)) s5"
        by (rule books_at [OF books_on_state, rotated -1]) (auto simp: s5_def on_state_effect)
      from balanced_less [OF this, of req] have "balanced env fm x (s5\<lparr>de_pending := pending_drop req (de_pending s5)\<rparr>)" by simp
      moreover have "(r, t) = (Inl e, s5\<lparr>de_pending := pending_drop req (de_pending s5)\<rparr>)"
        using run tail Inl by (simp only: sum.case seq_on_state s5_def [symmetric] seq_drop_pending raiseA_def)
      ultimately show ?thesis by simp
    next
      case (Inr f)
      have f: "balanced env fm x s4" "f \<in> fm_issued fm w" "owner fm f = req" "f \<notin> fm_issued fm (de_world s3)"
        using p Inr by auto
      have nc: "f \<notin> set (de_completed s4)" using b3 f(4) by (auto simp: balanced_def s4_def)
      define st where "st = state_of req s4"
      have fut: "distinct (rs_futures st @ [f]) \<and> (\<forall>g \<in> set (rs_futures st @ [f]). g \<in> fm_issued fm (de_world s4) \<and> owner fm g = req \<and>
          (g \<in> set (de_completed s4) \<longrightarrow> dv_status env g (de_world s4) = Succeeded))"
      proof -
        have "state_of req s4 = state_of req s3" by (simp add: s4_def state_of_def)
        then have "f \<notin> set (rs_futures st)" using state_futures [OF b3, of req] f(4) by (auto simp: st_def)
        then show ?thesis using state_futures [OF f(1), of req] f nc by (auto simp: st_def s4_def)
      qed
      define st' where "st' = st\<lparr>rs_futures := rs_futures st @ [f], rs_jobs := rs_jobs st + 1,
              rs_pages := rs_pages st + (int (length (db_keys b)) - legacy_count env b), rs_legacy := rs_legacy st + legacy_count env b,
              rs_bytes := rs_bytes st + batch_total b\<rparr>"
      define s5 where "s5 = s4\<lparr>de_states := AList.update req st' (de_states s4)\<rparr>"
      have "balanced env fm x s5" unfolding s5_def by (rule balanced_state [OF f(1)]) (use fut in \<open>auto simp: st'_def\<close>)
      moreover have "(r, t) = (Inr f, s5\<lparr>de_jobs := de_jobs s5 @ [f]\<rparr>)"
        using run tail Inr by (simp add: seq_on_state on_state_effect seqA_def bindA_def writeA_def retA_def s5_def st'_def st_def)
      ultimately show ?thesis using f by (auto simp: balanced_def unfinished_def queued_def s5_def s4_def req_def)
    qed
  qed
qed

lemma callback_added:
  assumes laws: "future_laws env fm" and f: "f \<in> fm_issued fm (de_world s)" "owner fm f = req"
    and b: "balanced env fm x s" and run: "add_callback env req keys f s = (r, t)"
  shows "balanced env fm x t"
proof (cases "dv_status env f (de_world s) = Running")
  case True
  then show ?thesis using run b f
    by (auto simp: add_callback_def bindA_readA writeA_def balanced_def unfinished_def queued_def split: if_splits)
next
  case False
  then have "t = snd (direct_store_done env req keys f s)" using run by (simp add: add_callback_def bindA_readA)
  then show ?thesis using done_effect [OF laws f] b unfolding quiet_def bookkept_def by blast
qed

lemma books_track:
  assumes laws: "future_laws env fm"
  shows "books.keeps env fm (track_batch env b retry)"
  unfolding books.keeps_def books_def
proof (intro allI impI)
  fix s x assume bal: "balanced env fm x s"
  define req keys where "req = db_req_id b" and "keys = map (dv_key_string env) (db_keys b)"
  obtain r t where run: "submit_batch env b s = (r, t)" by (metis surj_pair)
  note sub = submit_result [OF laws bal run]
  show "balanced env fm x (snd (track_batch env b retry s))"
  proof (cases r)
    case (Inl e)
    then show ?thesis using sub run by (simp add: track_batch_def Let_def bindA_def)
  next
    case (Inr f)
    define g where "g = (\<lambda>st :: direct_state. st\<lparr>rs_submitted := fold raise_end (db_group_ends b) (rs_submitted st)\<rparr>)"
    define t1 where "t1 = snd (on_state req g t)"
    have b1: "balanced env fm x t1"
      by (rule books_at [OF books_on_state, of g req t "Inr ()"]) (use sub in \<open>auto simp: g_def t1_def on_state_effect\<close>)
    have f: "f \<in> fm_issued fm (de_world t1)" "owner fm f = req" using sub Inr by (auto simp: t1_def on_state_effect req_def)
    define t2 where "t2 = t1\<lparr>de_retry := AList.update f (retry\<lparr>ra_keys := keys, ra_ends := db_group_ends b\<rparr>) (de_retry t1)\<rparr>"
    have b2: "balanced env fm x t2"
      using b1 f by (auto simp: balanced_def t2_def unfinished_def queued_def update_conv')
    obtain r3 t3 where cb: "add_callback env req keys f t2 = (r3, t3)" by (metis surj_pair)
    have "balanced env fm x t3" by (rule callback_added [OF laws _ f(2) b2 cb]) (use f in \<open>simp add: t2_def\<close>)
    moreover have "snd (track_batch env b retry s) = t3"
    proof -
      have "track_batch env b retry s = seqA (add_callback env req keys f) (retA f) t2"
        unfolding track_batch_def Let_def req_def [symmetric] keys_def [symmetric] bindA_def [of "submit_batch env b"] run Inr
          prod.case sum.case g_def [symmetric] seq_on_state [of req g] t1_def [symmetric]
        by (simp add: seq_write t2_def)
      then show ?thesis using cb by (simp add: seqA_def bindA_def retA_def split: sum.split)
    qed
    ultimately show ?thesis by simp
  qed
qed

text \<open>Settling the failed jobs: each is completed once and its count given back.\<close>

lemma settle_each:
  assumes laws: "future_laws env fm"
  shows "balanced env fm x s \<Longrightarrow> distinct (map fst jobs) \<Longrightarrow>
    \<forall>st. map_of (de_states s) req = Some st \<longrightarrow> rs_futures st = [] \<Longrightarrow>
    \<forall>j \<in> set jobs. fst j \<in> fm_issued fm (de_world s) \<and> owner fm (fst j) = req \<and> dv_status env (fst j) (de_world s) \<noteq> Running \<and>
       fst j \<notin> set (de_completed s) \<Longrightarrow>
    eachA (settle_failed req) jobs s = (r, t) \<Longrightarrow> balanced env fm x t \<and> r = Inr ()"
proof (induction jobs arbitrary: s)
  case Nil
  then show ?case by (simp add: retA_def)
next
  case (Cons j jobs)
  obtain f ra e where j: "j = (f, ra, e)" by (metis surj_pair)
  define s1 where "s1 = s\<lparr>de_completed := List.insert f (de_completed s)\<rparr>"
  define g where "g = (\<lambda>st :: direct_state. st\<lparr>rs_pending_keys := without (ra_keys ra) (rs_pending_keys st)\<rparr>)"
  define s2 where "s2 = s1\<lparr>de_states := AList.update req (g (state_of req s1)) (de_states s1)\<rparr>"
  define s3 where "s3 = s2\<lparr>de_pending := pending_drop req (de_pending s2)\<rparr>"
  have one: "settle_failed req j s = (Inr (), s3)"
    unfolding settle_failed_def j prod.case mark_completed_def drop_pending_def on_state_def g_def s3_def s2_def s1_def
    by (simp add: seqA_def bindA_def writeA_def)
  have f: "f \<in> fm_issued fm (de_world s)" "owner fm f = req" "dv_status env f (de_world s) \<noteq> Running" "f \<notin> set (de_completed s)"
    using Cons.prems(4) by (auto simp: j)
  define s0 where "s0 = s\<lparr>de_completed := List.insert f (de_completed s), de_pending := pending_drop req (de_pending s)\<rparr>"
  have "balanced env fm x (s\<lparr>de_completed := List.insert f (de_completed s), de_pending := pending_drop req (de_pending s)\<rparr>)"
    by (rule balanced_complete [OF laws Cons.prems(1) f(1,2,4,3) _ refl]) (use Cons.prems(3) in auto)
  then have b0: "balanced env fm x s0" by (simp add: s0_def)
  have none: "rs_futures (g (state_of req s)) = []"
    using Cons.prems(3) by (auto simp: g_def state_of_def fresh_state_def split: option.split)
  have "balanced env fm x (s0\<lparr>de_states := AList.update req (g (state_of req s)) (de_states s0)\<rparr>)"
    by (rule balanced_state [OF b0]) (simp_all add: none)
  moreover have "s3 = s0\<lparr>de_states := AList.update req (g (state_of req s)) (de_states s0)\<rparr>"
    by (simp add: s3_def s2_def s1_def s0_def state_of_def)
  ultimately have b3: "balanced env fm x s3" by simp
  have "eachA (settle_failed req) jobs s3 = (r, t)" using Cons.prems(5) one by (simp add: seqA_def bindA_def)
  moreover have "\<forall>st. map_of (de_states s3) req = Some st \<longrightarrow> rs_futures st = []"
    using Cons.prems(3) by (auto simp: s3_def s2_def s1_def g_def map_of_update_same state_of_def fresh_state_def split: option.splits)
  moreover have "\<forall>j \<in> set jobs. fst j \<in> fm_issued fm (de_world s3) \<and> owner fm (fst j) = req \<and>
      dv_status env (fst j) (de_world s3) \<noteq> Running \<and> fst j \<notin> set (de_completed s3)"
    using Cons.prems(2,4) by (auto simp: s3_def s2_def s1_def j image_iff)
  ultimately show ?case using Cons.IH [OF b3] Cons.prems(2) by simp
qed

lemma not_yet_completed:
  assumes b: "balanced env fm x s" and l: "bookkept env fm s t" and st: "map_of (de_states s) req = Some st" "f \<in> set (rs_futures st)"
    and e: "ended env f False (de_world t)"
  shows "f \<notin> set (de_completed t)"
proof
  assume f: "f \<in> set (de_completed t)"
  have issued: "f \<in> fm_issued fm (de_world s)" "f \<in> set (de_completed s) \<longrightarrow> dv_status env f (de_world s) = Succeeded"
    using b st unfolding balanced_def by metis+
  have "f \<in> set (de_completed s) \<or> dv_status env f (de_world t) = Succeeded" using b f l unfolding bookkept_def by blast
  then show False
  proof
    assume "f \<in> set (de_completed s)"
    then have "dv_status env f (de_world t) = Succeeded"
      using issued l by (auto simp: bookkept_def world_step_def settled_stay_def)
    then show False using e by (simp add: ended_def)
  qed (use e in \<open>simp add: ended_def\<close>)
qed

lemma bookkept_futures:
  assumes "quiet env fm s t" "\<forall>st. map_of (de_states s) req = Some st \<longrightarrow> rs_futures st = []"
  shows "\<forall>st. map_of (de_states t) req = Some st \<longrightarrow> rs_futures st = []"
proof (intro allI impI)
  fix st assume st: "map_of (de_states t) req = Some st"
  have "map_option kept (map_of (de_states t) req) = map_option kept (map_of (de_states s) req)"
    using assms(1) unfolding quiet_def by blast
  then obtain st' where "map_of (de_states s) req = Some st'" "kept st = kept st'" using st by (cases "map_of (de_states s) req") auto
  then show "rs_futures st = []" using assms(2) kept_fields by metis
qed

lemma books_wait_request:
  assumes laws: "future_laws env fm"
  shows "books.keeps env fm (wait_request_stores env req)"
  unfolding books.keeps_def books_def
proof (intro allI impI)
  fix s x assume b: "balanced env fm x s"
  show "balanced env fm x (snd (wait_request_stores env req s))"
  proof (cases "map_of (de_states s) req")
    case None
    then show ?thesis using b by (simp add: wait_request_stores_def bindA_readA retA_def)
  next
    case (Some st)
    obtain r t where dr: "drain_futures env req (rs_futures st) s = (r, t)" by (metis surj_pair)
    have run: "wait_request_stores env req s = bindA (drain_futures env req (rs_futures st)) (\<lambda>jobs.
        seqA (settle_jobs env req jobs (rs_committed st)) (seqA (wait_remote_windows env req) (retA True))) s"
      by (simp add: wait_request_stores_def bindA_readA Some)
    have res: "loose env fm req s t" and jobs: "\<And>jobs. r = Inr jobs \<Longrightarrow> drained_all env (de_retry s) (rs_futures st) jobs (de_world t) \<and>
         (\<exists>st'. map_of (de_states t) req = Some st' \<and> rs_futures st' = [])"
      using drained_result [OF laws b Some refl dr] by (auto split: sum.splits)
    have bt: "balanced env fm x t" using res b unfolding loose_def bookkept_def by blast
    show ?thesis
    proof (cases r)
      case (Inl e)
      then show ?thesis using run dr bt by (simp add: bindA_def)
    next
      case (Inr js)
      obtain r1 t1 where se: "settle_jobs env req js (rs_committed st) t = (r1, t1)" by (metis surj_pair)
      have run1: "wait_request_stores env req s = seqA (settle_jobs env req js (rs_committed st)) (seqA (wait_remote_windows env req) (retA True)) t"
        using run dr Inr by (simp add: bindA_def)
      have b1: "balanced env fm x t1"
      proof (cases "failed_jobs js = []")
        case True
        have "books.keeps env fm (commit_submitted req None)" unfolding commit_submitted_def by (rule books_on_state) simp
        then show ?thesis using se True bt books_at unfolding settle_jobs_def by fastforce
      next
        case False
        define m where "m = bindA (repair_jobs env req js (rs_committed st)) (\<lambda>v. commit_submitted req (Some v) :: ('a, unit) de_act)"
        obtain r2 u where mid: "m t = (r2, u)" by (metis surj_pair)
        obtain r3 v where rp: "repair_jobs env req js (rs_committed st) t = (r3, v)" by (metis surj_pair)
        have q: "quiet env fm t v" by (rule quiet.keepsD [OF keeps_repair [OF laws] rp])
        have u: "u = v \<or> (\<exists>x. u = snd (commit_submitted req (Some x) v))"
          using mid rp by (auto simp: m_def bindA_def split: sum.splits) (metis snd_conv)
        have bv: "balanced env fm x v" using q bt unfolding quiet_def bookkept_def by blast
        have eq: "de_world u = de_world v" "de_completed u = de_completed v" using u by (auto simp: commit_submitted_def on_state_effect)
        have keep: "books.keeps env fm (commit_submitted req (Some y))" for y
          unfolding commit_submitted_def by (rule books_on_state) simp
        have bu: "balanced env fm x u" using u
        proof
          assume "\<exists>x. u = snd (commit_submitted req (Some x) v)"
          then obtain y where "u = snd (commit_submitted req (Some y) v)" ..
          then show ?thesis using keep [of y] bv unfolding books.keeps_def books_def by blast
        qed (use bv in simp)
        have "\<forall>st. map_of (de_states t) req = Some st \<longrightarrow> rs_futures st = []" using jobs [OF Inr] by auto
        from bookkept_futures [OF q this] have fv: "\<forall>st. map_of (de_states v) req = Some st \<longrightarrow> rs_futures st = []" .
        have fu: "\<forall>st. map_of (de_states u) req = Some st \<longrightarrow> rs_futures st = []"
          using u fv by (auto simp: commit_submitted_def on_state_effect map_of_update_same state_of_def fresh_state_def split: option.splits)
        have bk: "bookkept env fm s v" using res q unfolding loose_def quiet_def by (blast intro: bookkept_trans)
        have own: "distinct (rs_futures st)" "\<forall>f \<in> set (rs_futures st). f \<in> fm_issued fm (de_world s) \<and> owner fm f = req"
          using b Some unfolding balanced_def by metis+
        have ja: "drained_all env (de_retry s) (rs_futures st) js (de_world t)" using jobs [OF Inr] by blast
        have ids: "map fst js = filter (\<lambda>f. map_of (de_retry s) f \<noteq> None) (rs_futures st)" using ja by (simp only: drained_all_def)
        have step: "world_step env fm (de_world s) (de_world t)" using res by (simp add: loose_def bookkept_def)
        have each: "fst j \<in> fm_issued fm (de_world u) \<and> owner fm (fst j) = req \<and> dv_status env (fst j) (de_world u) \<noteq> Running \<and>
            fst j \<notin> set (de_completed u)" if j: "j \<in> set (failed_jobs js)" for j
        proof -
          have "j \<in> set js" using j by (auto simp: failed_jobs_def)
          then have "fst j \<in> set (map fst js)" by (simp only: set_map imageI)
          then have fj: "fst j \<in> set (rs_futures st)" unfolding ids by simp
          have "ended env (fst j) False (de_world t)"
            using ja j by (auto simp: drained_all_def list_all_iff job_ok_def failed_jobs_def)
          moreover have "fst j \<in> fm_issued fm (de_world t)" using fj own step by (simp add: world_step_def)
          ultimately have ev: "ended env (fst j) False (de_world v)" by (intro ended_stays [OF quiet_world_step [OF q]])
          have "fst j \<notin> set (de_completed v)" by (rule not_yet_completed [OF b bk Some fj ev])
          moreover have "fst j \<in> fm_issued fm (de_world v)" using fj own bk by (auto simp: bookkept_def world_step_def)
          moreover have "dv_status env (fst j) (de_world v) \<noteq> Running" using ev by (simp add: ended_def)
          ultimately show ?thesis using fj own eq by simp
        qed
        have "distinct (map fst js)" unfolding ids using own(1) by simp
        then have d: "distinct (map fst (failed_jobs js))" by (simp add: failed_jobs_def distinct_map_filter)
        obtain r4 t4 where last: "eachA (settle_failed req) (failed_jobs js) u = (r4, t4)" by (metis surj_pair)
        have "balanced env fm x t4 \<and> r4 = Inr ()" by (rule settle_each [OF laws bu d fu _ last]) (use each in blast)
        moreover have "t1 = t4"
        proof -
          have "settle_jobs env req js (rs_committed st) t = finallyA m (eachA (settle_failed req) (failed_jobs js)) t"
            using False by (simp add: settle_jobs_def m_def)
          then have "(r1, t1) = seqA (eachA (settle_failed req) (failed_jobs js)) (liftA r2) u"
            using se mid by (simp add: finallyA_def bind_attempt)
          then show ?thesis using last calculation by (simp add: seqA_def bindA_def liftA_def)
        qed
        ultimately show ?thesis by simp
      qed
      have "books.keeps env fm (seqA (wait_remote_windows env req) (retA True))"
        by (intro books.keeps_intros quietly keeps_remote_windows laws)
      then have "balanced env fm x (snd (seqA (wait_remote_windows env req) (retA True) t1))"
        using b1 unfolding books.keeps_def books_def by blast
      then show ?thesis using run1 se b1 by (auto simp: seqA_def [of "settle_jobs _ _ _ _"] bindA_def [of "settle_jobs _ _ _ _"] split: sum.splits)
    qed
  qed
qed

section \<open>Calls\<close>

lemma books_wait:
  assumes "future_laws env fm"
  shows "books.keeps env fm (wait_for_direct_stores env reqs)"
proof -
  have "books.keeps env fm (wait_each env reqs)"
    by (induction reqs) (auto intro!: books.keeps_intros books_wait_request assms)
  then show ?thesis unfolding wait_for_direct_stores_def
    by (intro books.keeps_intros quietly [OF keeps_blocking] harmless_calls assms)
qed

lemma books_set_ends: "books.keeps env fm (set_ends req g c)"
  unfolding set_ends_def by (rule books_on_state) simp

lemma books_retry:
  assumes "future_laws env fm"
  shows "books.keeps env fm (retry_direct_cpu env req ra)"
  unfolding retry_direct_cpu_def retry_cpu_group_def
  by (intro books.keeps_intros books_set_ends quietly [OF keeps_store_cpu] assms)

lemma books_finalize:
  assumes "future_laws env fm"
  shows "books.keeps env fm (finalize_direct_store env req groups final)"
  unfolding finalize_direct_store_def
  by (intro books.keeps_intros books_on_state quietly [OF keeps_finish_remote] assms) simp

lemma books_complete_group:
  assumes "future_laws env fm"
  shows "books.keeps env fm (complete_group env req ra required gc)"
  unfolding complete_group_def
  by (intro books.keeps_intros books_on_state books_set_ends quietly [OF keeps_store_cpu] assms) simp

lemma books_publish:
  assumes "future_laws env fm"
  shows "books.keeps env fm (publish_final env req ra required)"
  unfolding publish_final_def
  by (intro books_bracket books.keeps_intros books_wait books_complete_group books_finalize assms)

lemma books_fall_back:
  assumes "future_laws env fm"
  shows "books.keeps env fm (fall_back env req ra final)"
  unfolding fall_back_def by (intro books.keeps_intros books_wait books_retry books_finalize assms)

lemma books_adopt: "books.keeps env fm (adopt_result chunk_size r)"
  unfolding adopt_result_def by (intro books.keeps_intros books_on_state) simp_all

lemma books_accept: "books.keeps env fm (accept_store req n given base verified)"
  unfolding accept_store_def Let_def by (intro books.keeps_intros books_on_state) simp_all

lemma books_ready_event:
  assumes "future_laws env fm"
  shows "books.keeps env fm (source_ready_event env req token_end required)"
  unfolding source_ready_event_def record_fallback_def Let_def
  by (intro books.keeps_intros books_on_state quietly [OF keeps_in_world] harmless_calls assms) simp_all

lemma books_delete: "books.keeps env fm (writeA (\<lambda>s. s\<lparr>de_states := AList.delete req (de_states s)\<rparr>))"
  by (rule books.keeps_write) (auto simp: books_def balanced_def unfinished_def queued_def delete_conv')

lemma books_drop:
  assumes "future_laws env fm"
  shows "books.keeps env fm (drop_direct_store_states env reqs)"
  unfolding drop_direct_store_states_def drop_state_def Let_def
  by (intro books.keeps_intros books_delete quietly [OF keeps_in_world] quietly [OF keeps_blocking] harmless_calls assms)

lemma books_enqueue:
  assumes laws: "future_laws env fm"
  shows "books.keeps env fm (enqueue_store env work)"
  unfolding books.keeps_def books_def
proof (intro allI impI)
  fix s x assume b: "balanced env fm x s"
  define r where "r = fst work"
  define s1 where "s1 = s\<lparr>de_pending := pending_add r (de_pending s)\<rparr>"
  have b1: "balanced env fm (x(r := x r + 1)) s1" using balanced_more [OF b] by (simp add: s1_def)
  obtain q t where run: "blocking env (dv_queue_put env work) s1 = (q, t)" by (metis surj_pair)
  have bt: "balanced env fm (x(r := x r + 1)) t"
    by (rule books_at [OF quietly [OF keeps_blocking [OF laws harmless_calls(12) [OF laws]]] run b1])
  have go: "enqueue_store env work s = (case q of
        Inl e \<Rightarrow> seqA (drop_pending r) (raiseA e)
      | Inr _ \<Rightarrow> writeA (\<lambda>s. s\<lparr>de_queue := de_queue s @ [Some work]\<rparr>)) t"
    unfolding enqueue_store_def r_def [symmetric] seq_add_pending s1_def [symmetric] bind_attempt run prod.case by (rule refl)
  show "balanced env fm x (snd (enqueue_store env work s))"
  proof (cases q)
    case (Inl e)
    then show ?thesis using balanced_less [OF bt, of r] by (simp add: go seq_drop_pending raiseA_def)
  next
    case (Inr u)
    have "balanced env fm x (t\<lparr>de_queue := de_queue t @ [Some work]\<rparr>)"
      using bt by (auto simp: balanced_def unfinished_def queued_def r_def)
    then show ?thesis using Inr by (simp add: go writeA_def)
  qed
qed

lemma books_finished: "books.keeps env fm (get_finished_stores env finished)"
  unfolding get_finished_stores_def Let_def by (intro books.keeps_intros books_write) simp

lemma await_keeps:
  assumes "await_stores env schedule reqs s = Some t"
    and turn: "\<And>s x. P s \<Longrightarrow> P (snd (take_turn env x s))" and start: "P s"
  shows "P t \<and> list_all (\<lambda>r. \<not> is_pending r t) reqs"
proof -
  have "(\<forall>s x. P s \<longrightarrow> P (snd (take_turn env x s))) \<longrightarrow> P s \<longrightarrow> P t \<and> list_all (\<lambda>r. \<not> is_pending r t) reqs"
    using assms(1)
  proof (induction rule: await_stores.raw_induct [rotated, consumes 1, case_names step])
    case (step go env schedule reqs s t)
    show ?case
    proof (cases "list_ex (\<lambda>r. is_pending r s) reqs")
      case True
      then have "go env schedule reqs (snd (take_turn env (schedule s) s)) = Some t" using step(2) by simp
      then show ?thesis using step(1) by blast
    next
      case False
      then show ?thesis using step(2) by (auto simp: list_ex_iff list_all_iff)
    qed
  qed
  then show ?thesis using turn start by blast
qed

lemma books_turn:
  assumes "future_laws env fm"
  shows "books.keeps env fm (take_turn env x)"
  by (rule quietly [OF keeps_turn [OF assms]])

text \<open>The calls of the engine and its threads, whatever their results.\<close>

inductive direct_step :: "'w direct_env \<Rightarrow> 'w direct_engine \<Rightarrow> 'w direct_engine \<Rightarrow> bool" for env where
  step_turn: "direct_step env s (snd (take_turn env x s))"
| step_accept: "direct_step env s (snd (accept_store req n given base verified s))"
| step_register: "direct_step env s (snd (on_state req (register_group verified g) s))"
| step_event: "direct_step env s (snd (source_ready_event env req token_end required s))"
| step_present: "direct_step env s (snd (on_state req (advance_present candidate_ends g) s))"
| step_track: "direct_step env s (snd (track_batch env b ra s))"
| step_wait: "direct_step env s (snd (wait_for_direct_stores env reqs s))"
| step_fall_back: "direct_step env s (snd (fall_back env req ra final s))"
| step_cpu_group: "direct_step env s (snd (retry_cpu_group env req ra gc s))"
| step_finalize: "direct_step env s (snd (finalize_direct_store env req groups final s))"
| step_publish: "direct_step env s (snd (publish_final env req ra required s))"
| step_adopt: "direct_step env s (snd (adopt_result chunk_size r s))"
| step_enqueue: "direct_step env s (snd (enqueue_store env work s))"
| step_finished: "direct_step env s (snd (get_finished_stores env finished s))"
| step_pending: "wait_for_pending_stores env schedule reqs s = Some (r, t) \<Longrightarrow> direct_step env s t"
| step_drop: "direct_step env s (snd (drop_direct_store_states env reqs s))"

inductive_cases direct_stepE: "direct_step env s t"

definition fresh_engine :: "'w \<Rightarrow> 'w direct_engine" where
  "fresh_engine w = \<lparr>de_states = [], de_jobs = [], de_retry = [], de_completed = [], de_callbacks = [], de_pending = [],
     de_require = False, de_queue = [], de_worker = True, de_deferred = [], de_reported = [], de_world = w\<rparr>"

lemma books_pending:
  assumes laws: "future_laws env fm" and run: "wait_for_pending_stores env schedule reqs s = Some (r, t)"
  shows "books env fm s t"
proof -
  obtain r1 s1 where w: "wait_for_direct_stores env reqs s = (r1, s1)" by (metis surj_pair)
  have k: "books env fm s s1" by (rule books.keepsD [OF books_wait [OF laws] w])
  have "t = s1 \<or> await_stores env schedule reqs s1 = Some t"
    using run w by (auto simp: wait_for_pending_stores_def Let_def split: sum.splits if_splits)
  then show ?thesis
  proof
    assume "await_stores env schedule reqs s1 = Some t"
    then have "books env fm s1 t \<and> list_all (\<lambda>r. \<not> is_pending r t) reqs"
      by (rule await_keeps) (auto intro: books.frame_refl books.frame_trans books.keeps_at [OF books_turn [OF laws]])
    then show ?thesis using books.frame_trans [OF k] by blast
  qed (use k in simp)
qed

lemma books_step:
  assumes laws: "future_laws env fm" and step: "direct_step env s t"
  shows "books env fm s t"
  using step
proof cases
  case (step_register req verified g)
  have "books.keeps env fm (on_state req (register_group verified g))" by (rule books_on_state) (simp add: register_group_def)
  then show ?thesis unfolding step_register by (rule books.keeps_at)
next
  case (step_present req candidate_ends g)
  have "books.keeps env fm (on_state req (advance_present candidate_ends g))"
    by (rule books_on_state) (simp add: advance_present_def Let_def split: option.split)
  then show ?thesis unfolding step_present by (rule books.keeps_at)
next
  case (step_cpu_group req ra gc)
  have "books.keeps env fm (retry_cpu_group env req ra gc)" unfolding retry_cpu_group_def
    by (intro books.keeps_intros books_set_ends quietly [OF keeps_store_cpu] laws)
  then show ?thesis unfolding step_cpu_group by (rule books.keeps_at)
next
  case (step_pending schedule reqs r)
  then show ?thesis by (intro books_pending [OF laws])
qed (simp_all add: books.keeps_at books_turn books_accept books_ready_event books_track books_wait books_fall_back books_finalize
  books_publish books_adopt books_enqueue books_finished books_drop laws)

inductive direct_reachable :: "'w direct_env \<Rightarrow> 'w \<Rightarrow> 'w direct_engine \<Rightarrow> bool" for env w where
  direct_start: "direct_reachable env w (fresh_engine w)"
| direct_next: "direct_reachable env w s \<Longrightarrow> direct_step env s t \<Longrightarrow> direct_reachable env w t"

lemma reachable_balanced:
  assumes laws: "future_laws env fm" and start: "fm_issued fm w = {}" and run: "direct_reachable env w s"
  shows "balanced env fm (\<lambda>_. 0) s"
  using run
proof induction
  case direct_start
  then show ?case using start by (simp add: balanced_def fresh_engine_def pending_of_def unfinished_def queued_def)
next
  case (direct_next s t)
  then show ?case using books_step [OF laws] unfolding books_def by blast
qed

lemma balanced_idle:
  assumes laws: "future_laws env fm" and b: "balanced env fm (\<lambda>_. 0) s"
  shows "\<not> is_pending r s \<longleftrightarrow> unfinished fm r s = {} \<and> queued r s = 0"
proof -
  have count: "pending_of r (de_pending s) = int (card (unfinished fm r s)) + int (queued r s)" using b by (simp add: balanced_def)
  have "0 < n" if "map_of (de_pending s) r = Some n" for n using b that by (simp add: balanced_def)
  then have "\<not> is_pending r s \<longleftrightarrow> pending_of r (de_pending s) = 0"
    by (force simp: is_pending_def pending_of_def split: option.splits)
  also have "\<dots> \<longleftrightarrow> unfinished fm r s = {} \<and> queued r s = 0"
  proof -
    have "pending_of r (de_pending s) = 0 \<longleftrightarrow> card (unfinished fm r s) = 0 \<and> queued r s = 0" using count by linarith
    then show ?thesis using finite_unfinished [OF laws, of r s] by (simp add: card_eq_0_iff)
  qed
  finally show ?thesis .
qed

end
