(* ===== verification/DirectStoreFrontier.thy ===== *)
theory DirectStoreFrontier
  imports DirectStoreBooks
begin

text \<open>
  Which tokens are stored: what the surroundings promise about storage, the gaps that outstanding puts close,
  what the repair of failed puts establishes, and the request states whose published ends are sound.
\<close>

section \<open>What is stored\<close>

text \<open>The tokens that a batch's pages hold; which tokens of which request and group are stored is up to the world.\<close>

definition stores_token :: "page_batch \<Rightarrow> int \<Rightarrow> int \<Rightarrow> bool" where
  "stores_token b g u \<longleftrightarrow> list_ex (\<lambda>(k, lo, hi). ck_kv_group k = g \<and> lo \<le> u \<and> u < hi) (zip (db_keys b) (db_ranges b))"

type_synonym 'w stored = "string \<Rightarrow> int \<Rightarrow> int \<Rightarrow> 'w \<Rightarrow> bool"

definition retains :: "'w stored \<Rightarrow> ('w, 'a) act \<Rightarrow> bool" where
  "retains P m \<longleftrightarrow> (\<forall>w r g u. P r g u w \<longrightarrow> P r g u (snd (m w)))"

definition later :: "'w direct_env \<Rightarrow> 'w future_model \<Rightarrow> 'w stored \<Rightarrow> 'w \<Rightarrow> 'w \<Rightarrow> bool" where
  "later env fm P w w' \<longleftrightarrow> world_step env fm w w' \<and> (\<forall>r g u. P r g u w \<longrightarrow> P r g u w')"

text \<open>
  Nothing stored is lost; a put that succeeded stored its pages; a layerwise store that returned an end has, once
  its synchronous puts were waited for, stored every token up to that end.
\<close>

definition storage_laws :: "'w direct_env \<Rightarrow> 'w future_model \<Rightarrow> 'w stored \<Rightarrow> bool" where
  "storage_laws env fm P \<longleftrightarrow>
     (\<forall>f. retains P (dv_wait_job env f)) \<and> (\<forall>f. retains P (dv_result env f)) \<and> (\<forall>b. retains P (dv_put env b)) \<and>
     (\<forall>a b c d e g h k. retains P (dv_store_layer env a b c d e g h k)) \<and> retains P (dv_sync_wait env) \<and>
     (\<forall>rs. retains P (dv_poll_layerwise env rs)) \<and> (\<forall>i. retains P (dv_latch_fatal env i)) \<and>
     (\<forall>i. retains P (dv_remote_wait env i)) \<and> (\<forall>a b c d. retains P (dv_remote_finish env a b c d)) \<and>
     (\<forall>a b c. retains P (dv_remote_release env a b c)) \<and> (\<forall>r. retains P (dv_release_leases env r)) \<and>
     (\<forall>r. retains P (dv_forget_live env r)) \<and> (\<forall>x. retains P (dv_queue_put env x)) \<and>
     (\<forall>x. retains P (dv_pipeline env x)) \<and> retains P (dv_record_event env) \<and>
     (\<forall>f w g u. f \<in> fm_issued fm w \<longrightarrow> dv_status env f w = Succeeded \<longrightarrow> stores_token (fm_batch fm f) g u \<longrightarrow> P (owner fm f) g u w) \<and>
     (\<forall>req tokens caches slots g start configs base w c w1 w2 w3 u.
        dv_store_layer env req tokens caches slots g start configs base w = (Inr (Some c), w1) \<longrightarrow>
        later env fm P w1 w2 \<longrightarrow> dv_sync_wait env w2 = (Inr (), w3) \<longrightarrow> start \<le> u \<longrightarrow> u < c \<longrightarrow> P req g u w3)"

lemma storage_calls:
  assumes "storage_laws env fm P"
  shows "retains P (dv_wait_job env f)" "retains P (dv_result env f)" "retains P (dv_put env b)"
    "retains P (dv_store_layer env a b' c d e g h k)" "retains P (dv_sync_wait env)" "retains P (dv_poll_layerwise env rs)"
    "retains P (dv_latch_fatal env i)" "retains P (dv_remote_wait env n)" "retains P (dv_remote_finish env a n x y)"
    "retains P (dv_remote_release env a n y')" "retains P (dv_release_leases env a)" "retains P (dv_forget_live env a)"
    "retains P (dv_queue_put env work)" "retains P (dv_pipeline env work)" "retains P (dv_record_event env)"
  using assms by (simp_all add: storage_laws_def del: split_paired_All)

text \<open>A call loses nothing that is stored.\<close>

interpretation hold: frame "\<lambda>s t. \<forall>r g u. P r g u (de_world s) \<longrightarrow> P r g u (de_world t)" for P :: "'w stored"
  by unfold_locales auto

lemma hold_world: "retains P m \<Longrightarrow> hold.keeps P (in_world m)"
  by (auto simp: hold.keeps_def in_world_def retains_def split: prod.split) (metis snd_conv)

lemma hold_write: "(\<And>s. de_world (g s) = de_world s) \<Longrightarrow> hold.keeps P (writeA g)"
  by (rule hold.keeps_write) simp

lemma hold_on_state: "hold.keeps P (on_state req g)"
  unfolding on_state_def by (rule hold_write) simp

lemma hold_done: "hold.keeps P (direct_store_done env req keys f)"
  unfolding direct_store_done_def forget_keys_def mark_completed_def drop_pending_def
  by (intro hold.keeps_intros hold_on_state hold_write) simp_all

lemma hold_case_list: "(xs = [] \<Longrightarrow> hold.keeps P m) \<Longrightarrow> (\<And>y ys. xs = y # ys \<Longrightarrow> hold.keeps P (f y ys)) \<Longrightarrow>
   hold.keeps P (case xs of [] \<Rightarrow> m | y # ys \<Rightarrow> f y ys)"
  by (cases xs) simp_all

lemma hold_turn:
  assumes "storage_laws env fm P"
  shows "hold.keeps P (take_turn env x)"
proof (cases x)
  case (CallbackTurn f)
  show ?thesis unfolding take_turn_def callback_turn_def CallbackTurn turn.case
    by (intro hold.keeps_intros hold_done hold_write) simp
next
  case WorkerTurn
  show ?thesis unfolding take_turn_def worker_turn_def WorkerTurn turn.case drop_pending_def
    by (intro hold.keeps_intros hold_case_list hold_write hold_world storage_calls [OF assms]) simp_all
qed

lemma hold_blocking:
  assumes "storage_laws env fm P" "retains P m"
  shows "hold.keeps P (blocking env m)"
  unfolding blocking_def by (intro hold.keeps_intros hold_world hold_turn [OF assms(1)] assms(2))

lemma hold_finally: "hold.keeps P m \<Longrightarrow> hold.keeps P n \<Longrightarrow> hold.keeps P (finallyA m n)"
  unfolding finallyA_def by (intro hold.keeps_intros)

lemma hold_store_cpu:
  assumes "storage_laws env fm P"
  shows "hold.keeps P (store_cpu_group env req tokens caches slots g start configs base)"
  unfolding store_cpu_group_def set_require_def
  by (intro hold.keeps_intros hold_finally hold_blocking [OF assms] hold_write storage_calls [OF assms]) simp_all

lemma hold_repair_groups:
  assumes "storage_laws env fm P"
  shows "hold.keeps P (repair_groups env req ra error ends verified)"
proof (induction ends arbitrary: verified)
  case Nil
  then show ?case by (simp add: hold.keeps_ret)
next
  case (Cons ge ends)
  obtain g e where "ge = (g, e)" by (metis surj_pair)
  then show ?case by (simp only: repair_groups.simps) (intro hold.keeps_intros hold_store_cpu [OF assms] Cons)
qed

lemma hold_drain:
  assumes "storage_laws env fm P"
  shows "hold.keeps P (drain_futures env req fs)"
proof (induction fs)
  case Nil
  then show ?case by (simp add: hold.keeps_ret)
next
  case (Cons f fs)
  show ?case unfolding drain_futures.simps pop_retry_def Let_def
    by (intro hold.keeps_intros hold_on_state hold_blocking [OF assms] hold_world hold_done hold_write Cons storage_calls [OF assms]) simp_all
qed

lemma blocking_run:
  assumes laws: "storage_laws env fm P" "future_laws env fm" and run: "blocking env m s = (Inr x, t)"
  shows "\<exists>w. m (de_world s) = (Inr x, w) \<and> later env fm P w (de_world t)"
proof -
  obtain r w where m: "m (de_world s) = (r, w)" by (metis surj_pair)
  define s1 where "s1 = s\<lparr>de_world := w\<rparr>"
  obtain q t1 where turns: "eachA (take_turn env) (dv_turns env w) s1 = (q, t1)" by (metis surj_pair)
  have t: "t = t1" and r: "r = Inr x"
    using run turns by (auto simp: blocking_def act_defs in_world_def m s1_def split: sum.splits)
  have "quiet env fm s1 t1"
    using turns by (rule quiet.keepsD [rotated]) (intro quiet.keeps_each keeps_turn laws)
  then have "world_step env fm w (de_world t)" using quiet_world_step by (fastforce simp: s1_def t)
  moreover have "\<forall>r g u. P r g u (de_world s1) \<longrightarrow> P r g u (de_world t1)"
    using turns by (rule hold.keepsD [rotated]) (intro hold.keeps_each hold_turn [OF laws(1)])
  ultimately show ?thesis using m r by (simp add: later_def s1_def t)
qed

text \<open>What the CPU path returns has been stored.\<close>

lemma store_cpu_stores:
  assumes laws: "storage_laws env fm P" "future_laws env fm"
    and run: "store_cpu_group env req tokens caches slots g start configs base s = (Inr c, t)" and u: "start \<le> u" "u < c"
  shows "P req g u (de_world t)"
proof -
  have lt: "\<not> start \<ge> int (length tokens)" "\<not> start < base"
    using run u by (auto simp: store_cpu_group_def retA_def raiseA_def split: if_splits)
  define s1 where "s1 = s\<lparr>de_require := True\<rparr>"
  define m where "m = bindA (blocking env (dv_store_layer env req tokens caches slots g start configs base))
    (\<lambda>c. seqA (blocking env (dv_sync_wait env)) (retA (committed_or start c)))"
  have "store_cpu_group env req tokens caches slots g start configs base s = finallyA m (set_require False) s1"
    using lt by (simp add: store_cpu_group_def m_def set_require_def seq_write s1_def)
  then obtain s4 where m: "m s1 = (Inr c, s4)" and t: "t = s4\<lparr>de_require := False\<rparr>"
    using run by (auto simp: finallyA_def bind_attempt set_require_def seq_write liftA_def split: prod.splits)
  obtain c' s2 where st: "blocking env (dv_store_layer env req tokens caches slots g start configs base) s1 = (Inr c', s2)"
    and sy: "blocking env (dv_sync_wait env) s2 = (Inr (), s4)" and c: "c = committed_or start c'"
    using m unfolding m_def act_runs by auto
  obtain n where n: "c' = Some n" "c = n" using c u by (auto simp: committed_or_def split: option.splits if_splits)
  obtain w1 where w1: "dv_store_layer env req tokens caches slots g start configs base (de_world s1) = (Inr (Some n), w1)"
    "later env fm P w1 (de_world s2)" using blocking_run [OF laws st] n by auto
  obtain w3 where w3: "dv_sync_wait env (de_world s2) = (Inr (), w3)" "later env fm P w3 (de_world s4)"
    using blocking_run [OF laws sy] by auto
  have "P req g u w3" using laws(1) w1 w3(1) u n unfolding storage_laws_def by blast
  then show ?thesis using w3(2) by (simp add: later_def t)
qed

section \<open>Outstanding puts close the gaps\<close>

text \<open>
  The puts of a request, in submission order: below each put's group ends every token is stored, or belongs to
  that put or an earlier one.
\<close>

fun chained :: "'w future_model \<Rightarrow> (int \<Rightarrow> int \<Rightarrow> bool) \<Rightarrow> nat list \<Rightarrow> bool" where
  "chained fm S [] = True"
| "chained fm S (f # fs) = ((\<forall>(g, e) \<in> set (db_group_ends (fm_batch fm f)). \<forall>u. 0 \<le> u \<longrightarrow> u < e \<longrightarrow>
       S g u \<or> stores_token (fm_batch fm f) g u) \<and> chained fm (\<lambda>g u. S g u \<or> stores_token (fm_batch fm f) g u) fs)"

lemma chained_mono: "chained fm S fs \<Longrightarrow> (\<And>g u. S g u \<Longrightarrow> T g u) \<Longrightarrow> chained fm T fs"
proof (induction fs arbitrary: S T)
  case (Cons f fs)
  have "chained fm (\<lambda>g u. T g u \<or> stores_token (fm_batch fm f) g u) fs"
    by (rule Cons.IH [of "\<lambda>g u. S g u \<or> stores_token (fm_batch fm f) g u"]) (use Cons.prems in auto)
  then show ?case using Cons.prems by fastforce
qed simp

lemma chained_snoc:
  "chained fm S (fs @ [f]) \<longleftrightarrow> chained fm S fs \<and> (\<forall>(g, e) \<in> set (db_group_ends (fm_batch fm f)). \<forall>u. 0 \<le> u \<longrightarrow> u < e \<longrightarrow>
     S g u \<or> (\<exists>h \<in> set fs. stores_token (fm_batch fm h) g u) \<or> stores_token (fm_batch fm f) g u)"
  by (induction fs arbitrary: S) auto

definition below_end :: "page_batch \<Rightarrow> bool" where
  "below_end b \<longleftrightarrow> (\<forall>g u. stores_token b g u \<longrightarrow> 0 \<le> u \<and> (\<exists>e. (g, e) \<in> set (db_group_ends b) \<and> u < e))"

definition verified_ok :: "(int \<Rightarrow> int \<Rightarrow> bool) \<Rightarrow> (int \<times> int) list \<Rightarrow> bool" where
  "verified_ok S v \<longleftrightarrow> (\<forall>g u. 0 \<le> u \<longrightarrow> u < group_end v g \<longrightarrow> S g u)"

lemma group_end_update: "group_end (AList.update g e d) h = (if h = g then e else group_end d h)"
  by (simp add: group_end_def update_conv')

section \<open>Repairing\<close>

lemma repair_groups_result:
  assumes laws: "storage_laws env fm P" "future_laws env fm"
  shows "verified_ok (\<lambda>g u. P req g u (de_world s)) v \<Longrightarrow>
    (error = None \<Longrightarrow> \<forall>(g, e) \<in> set ends. \<forall>u. 0 \<le> u \<longrightarrow> u < e \<longrightarrow> P req g u (de_world s)) \<Longrightarrow>
    repair_groups env req ra error ends v s = (Inr v', t) \<Longrightarrow>
    verified_ok (\<lambda>g u. P req g u (de_world t)) v' \<and> (\<forall>g. group_end v g \<le> group_end v' g) \<and>
    (\<forall>(g, e) \<in> set ends. e \<le> group_end v' g) \<and> (\<forall>r g u. P r g u (de_world s) \<longrightarrow> P r g u (de_world t))"
proof (induction ends arbitrary: v s)
  case Nil
  then show ?case by (simp add: retA_def)
next
  case (Cons ge ends)
  obtain g e where ge: "ge = (g, e)" by (metis surj_pair)
  define start where "start = group_end v g"
  note run = Cons.prems(3)
  have base: "\<not> start < ra_base ra" using run by (auto simp: ge Let_def start_def raiseA_def split: if_splits)
  consider (ok) "error = None" | (ahead) "error \<noteq> None" "start \<ge> e" | (repair) "error \<noteq> None" "\<not> start \<ge> e" by blast
  then show ?case
  proof cases
    case ok
    have v: "verified_ok (\<lambda>g u. P req g u (de_world s)) (AList.update g (max start e) v)"
      using Cons.prems(1,2) ok by (auto simp: verified_ok_def group_end_update ge start_def split: if_splits)
    have "repair_groups env req ra error ends (AList.update g (max start e) v) s = (Inr v', t)"
      using run base ok by (simp add: ge Let_def start_def)
    from Cons.IH [OF v _ this] Cons.prems(2)
    have r: "verified_ok (\<lambda>g u. P req g u (de_world t)) v' \<and>
        (\<forall>h. group_end (AList.update g (max start e) v) h \<le> group_end v' h) \<and>
        (\<forall>(g, e) \<in> set ends. e \<le> group_end v' g) \<and> (\<forall>r g u. P r g u (de_world s) \<longrightarrow> P r g u (de_world t))" by auto
    then have up: "\<forall>h. (if h = g then max start e else group_end v h) \<le> group_end v' h" by (simp add: group_end_update)
    have "group_end v h \<le> group_end v' h" for h
      using up [rule_format, of h] by (auto simp: start_def split: if_splits)
    moreover have "e \<le> group_end v' g" using up [rule_format, of g] by simp
    ultimately show ?thesis using r by (simp add: ge)
  next
    case ahead
    have "repair_groups env req ra error ends v s = (Inr v', t)"
      using run base ahead unfolding ge repair_groups.simps Let_def start_def [symmetric] by simp
    from Cons.IH [OF Cons.prems(1) _ this] ahead
    have r: "verified_ok (\<lambda>g u. P req g u (de_world t)) v' \<and> (\<forall>h. group_end v h \<le> group_end v' h) \<and>
        (\<forall>(g, e) \<in> set ends. e \<le> group_end v' g) \<and> (\<forall>r g u. P r g u (de_world s) \<longrightarrow> P r g u (de_world t))" by auto
    have "start \<le> group_end v' g" using r start_def by blast
    then show ?thesis using r ahead(2) by (simp add: ge)
  next
    case repair
    obtain caches slots c s1 where cpu: "store_cpu_group env req (ra_tokens ra) caches slots g start (ra_configs ra) (ra_base ra) s = (Inr c, s1)"
      and rest: "(if c < e then raiseA not_restored else repair_groups env req ra error ends (AList.update g c v)) s1 = (Inr v', t)"
      using run base repair unfolding ge repair_groups.simps Let_def start_def [symmetric]
      by (simp only: if_False act_runs) blast
    have c: "e \<le> c" "repair_groups env req ra error ends (AList.update g c v) s1 = (Inr v', t)"
      using rest by (auto simp: raiseA_def split: if_splits)
    have hold: "\<forall>r g u. P r g u (de_world s) \<longrightarrow> P r g u (de_world s1)"
      by (rule hold.keepsD [OF hold_store_cpu [OF laws(1)] cpu])
    have "P req g u (de_world s1)" if "0 \<le> u" "u < c" for u
    proof (cases "u < start")
      case True
      then show ?thesis using Cons.prems(1) that hold by (auto simp: verified_ok_def start_def)
    next
      case False
      then show ?thesis using store_cpu_stores [OF laws cpu] that by simp
    qed
    then have v: "verified_ok (\<lambda>g u. P req g u (de_world s1)) (AList.update g c v)"
      using Cons.prems(1) hold by (auto simp: verified_ok_def group_end_update)
    from Cons.IH [OF v _ c(2)] repair
    have r: "verified_ok (\<lambda>g u. P req g u (de_world t)) v' \<and> (\<forall>h. group_end (AList.update g c v) h \<le> group_end v' h) \<and>
        (\<forall>(g, e) \<in> set ends. e \<le> group_end v' g) \<and> (\<forall>r g u. P r g u (de_world s1) \<longrightarrow> P r g u (de_world t))" by auto
    then have up: "\<forall>h. (if h = g then c else group_end v h) \<le> group_end v' h" by (simp add: group_end_update)
    have "group_end v h \<le> group_end v' h" for h
      using up [rule_format, of h] c(1) repair(2) by (auto simp: start_def split: if_splits)
    moreover have "e \<le> group_end v' g" using up [rule_format, of g] c(1) by simp
    ultimately show ?thesis using r hold by (auto simp: ge)
  qed
qed

lemma repair_jobs_result:
  assumes laws: "storage_laws env fm P" "future_laws env fm"
  shows "verified_ok (\<lambda>g u. P req g u (de_world s)) v \<Longrightarrow> chained fm (\<lambda>g u. P req g u (de_world s)) (map fst jobs) \<Longrightarrow>
    \<forall>(f, ra, error) \<in> set jobs. f \<in> fm_issued fm (de_world s) \<and> owner fm f = req \<and> ra_ends ra = db_group_ends (fm_batch fm f) \<and>
       below_end (fm_batch fm f) \<and> ended env f (error = None) (de_world s) \<Longrightarrow>
    repair_jobs env req jobs v s = (Inr v', t) \<Longrightarrow>
    verified_ok (\<lambda>g u. P req g u (de_world t)) v' \<and>
    (\<forall>f \<in> set (map fst jobs). \<forall>g u. stores_token (fm_batch fm f) g u \<longrightarrow> P req g u (de_world t))"
proof (induction jobs arbitrary: v s)
  case Nil
  then show ?case by (simp add: retA_def)
next
  case (Cons j jobs)
  obtain f ra error where j: "j = (f, ra, error)" by (metis surj_pair)
  have f: "f \<in> fm_issued fm (de_world s)" "owner fm f = req" "ra_ends ra = db_group_ends (fm_batch fm f)"
    "below_end (fm_batch fm f)" "ended env f (error = None) (de_world s)"
    using Cons.prems(3) by (auto simp: j)
  obtain v1 s1 where one: "repair_groups env req ra error (ra_ends ra) v s = (Inr v1, s1)"
    and rest: "repair_jobs env req jobs v1 s1 = (Inr v', t)"
    using Cons.prems(4) by (auto simp: j act_runs)
  have done_stored: "P req g u (de_world s)" if "error = None" "stores_token (fm_batch fm f) g u" for g u
  proof -
    have "dv_status env f (de_world s) = Succeeded" using f(5) that(1) by (simp add: ended_def)
    then show ?thesis using laws(1) f(1,2) that(2) unfolding storage_laws_def by blast
  qed
  have below: "\<forall>(g, e) \<in> set (ra_ends ra). \<forall>u. 0 \<le> u \<longrightarrow> u < e \<longrightarrow> P req g u (de_world s)" if "error = None"
  proof -
    have "\<forall>(g, e) \<in> set (ra_ends ra). \<forall>u. 0 \<le> u \<longrightarrow> u < e \<longrightarrow> P req g u (de_world s) \<or> stores_token (fm_batch fm f) g u"
      using Cons.prems(2) by (simp add: j f(3))
    then show ?thesis using done_stored [OF that] by blast
  qed
  note r = repair_groups_result [OF laws Cons.prems(1) below one]
  have st: "P req g u (de_world s1)" if tok: "stores_token (fm_batch fm f) g u" for g u
  proof (cases "error = None")
    case True
    then show ?thesis using done_stored [OF True tok] r by blast
  next
    case False
    obtain e where "0 \<le> u" "(g, e) \<in> set (ra_ends ra)" "u < e" using f(4) [unfolded below_end_def, rule_format, OF tok] unfolding f(3) by blast
    moreover have "e \<le> group_end v1 g" using r calculation(2) by auto
    ultimately show ?thesis using r by (auto simp: verified_ok_def)
  qed
  have step: "world_step env fm (de_world s) (de_world s1)"
    using quiet.keepsD [OF keeps_repair_groups [OF laws(2)] one] by (simp add: quiet_def bookkept_def)
  have "chained fm (\<lambda>g u. P req g u (de_world s) \<or> stores_token (fm_batch fm f) g u) (map fst jobs)"
    using Cons.prems(2) by (simp add: j)
  then have ch: "chained fm (\<lambda>g u. P req g u (de_world s1)) (map fst jobs)"
    by (rule chained_mono) (use st r in blast)
  have ok: "\<forall>(f, ra, error) \<in> set jobs. f \<in> fm_issued fm (de_world s1) \<and> owner fm f = req \<and> ra_ends ra = db_group_ends (fm_batch fm f) \<and>
       below_end (fm_batch fm f) \<and> ended env f (error = None) (de_world s1)"
  proof -
    have "ended env h b (de_world s1) \<and> h \<in> fm_issued fm (de_world s1)" if "h \<in> fm_issued fm (de_world s)" "ended env h b (de_world s)" for h b
      using ended_stays [OF step that] that(1) step by (simp add: world_step_def)
    then show ?thesis using Cons.prems(3) by fastforce
  qed
  from r have "verified_ok (\<lambda>g u. P req g u (de_world s1)) v1" by blast
  from Cons.IH [OF this ch ok rest]
  have fin: "verified_ok (\<lambda>g u. P req g u (de_world t)) v' \<and>
    (\<forall>f \<in> set (map fst jobs). \<forall>g u. stores_token (fm_batch fm f) g u \<longrightarrow> P req g u (de_world t))" .
  have "repair_jobs env req jobs v1 s1 = (Inr v', t) \<Longrightarrow> \<forall>r g u. P r g u (de_world s1) \<longrightarrow> P r g u (de_world t)"
  proof -
    have "hold.keeps P (repair_jobs env req jobs v1)" for v1
    proof (induction jobs arbitrary: v1)
      case Nil
      then show ?case by (simp add: hold.keeps_ret)
    next
      case (Cons j jobs)
      obtain f ra e where "j = (f, ra, e)" by (metis surj_pair)
      then show ?case by (simp only: repair_jobs.simps) (intro hold.keeps_intros hold_repair_groups [OF laws(1)] Cons)
    qed
    then show "repair_jobs env req jobs v1 s1 = (Inr v', t) \<Longrightarrow> \<forall>r g u. P r g u (de_world s1) \<longrightarrow> P r g u (de_world t)"
      by (rule hold.keepsD)
  qed
  then show ?case using fin st rest by (auto simp: j)
qed

section \<open>Sound request states\<close>

definition request_ok :: "'w future_model \<Rightarrow> 'w stored \<Rightarrow> (nat \<times> retry_args) list \<Rightarrow> 'w \<Rightarrow> string \<Rightarrow> direct_state \<Rightarrow> bool" where
  "request_ok fm P retry w req st \<longleftrightarrow>
     verified_ok (\<lambda>g u. P req g u w) (rs_committed st) \<and>
     (\<forall>f \<in> set (rs_futures st). below_end (fm_batch fm f) \<and>
        (\<exists>ra. map_of retry f = Some ra \<and> ra_ends ra = db_group_ends (fm_batch fm f))) \<and>
     chained fm (\<lambda>g u. P req g u w) (rs_futures st) \<and>
     (\<forall>(g, e) \<in> set (rs_submitted st). \<forall>u. 0 \<le> u \<longrightarrow> u < e \<longrightarrow> P req g u w \<or> (\<exists>f \<in> set (rs_futures st). stores_token (fm_batch fm f) g u))"

definition all_ok :: "'w future_model \<Rightarrow> 'w stored \<Rightarrow> 'w direct_engine \<Rightarrow> bool" where
  "all_ok fm P s \<longleftrightarrow> (\<forall>req st. map_of (de_states s) req = Some st \<longrightarrow> request_ok fm P (de_retry s) (de_world s) req st)"

lemma request_ok_mono:
  assumes "request_ok fm P retry w req st" "\<And>g u. P req g u w \<Longrightarrow> P req g u w'"
    "\<And>f. f \<in> set (rs_futures st) \<Longrightarrow> map_of retry' f = map_of retry f"
    "rs_committed st' = rs_committed st" "rs_futures st' = rs_futures st" "rs_submitted st' = rs_submitted st"
  shows "request_ok fm P retry' w' req st'"
proof -
  have "chained fm (\<lambda>g u. P req g u w') (rs_futures st)"
    by (rule chained_mono [of _ "\<lambda>g u. P req g u w"]) (use assms(1,2) in \<open>auto simp: request_ok_def\<close>)
  then show ?thesis using assms(1,2,3) unfolding request_ok_def assms(4-6) verified_ok_def by (simp add: split_def) blast
qed

lemma request_ok_fresh: "request_ok fm P retry w req fresh_state"
  by (simp add: request_ok_def fresh_state_def verified_ok_def group_end_def)

lemma all_ok_state: "all_ok fm P s \<Longrightarrow> request_ok fm P (de_retry s) (de_world s) req (state_of req s)"
  by (auto simp: all_ok_def state_of_def request_ok_fresh split: option.split)

lemma all_ok_update: "all_ok fm P s \<Longrightarrow> request_ok fm P (de_retry s) (de_world s) req st \<Longrightarrow>
    all_ok fm P (s\<lparr>de_states := AList.update req st (de_states s)\<rparr>)"
  by (auto simp: all_ok_def map_of_update_same)

interpretation sound: frame "\<lambda>s t. all_ok fm P s \<longrightarrow> all_ok fm P t" for fm :: "'w future_model" and P :: "'w stored"
  by unfold_locales auto

lemma all_ok_quiet:
  assumes q: "quiet env fm s t" and h: "\<forall>r g u. P r g u (de_world s) \<longrightarrow> P r g u (de_world t)" and ok: "all_ok fm P s"
  shows "all_ok fm P t"
  unfolding all_ok_def
proof (intro allI impI)
  fix req st assume st: "map_of (de_states t) req = Some st"
  have "map_option kept (map_of (de_states t) req) = map_option kept (map_of (de_states s) req)" using q unfolding quiet_def by blast
  then obtain st0 where st0: "map_of (de_states s) req = Some st0" "kept st = kept st0"
    using st by (cases "map_of (de_states s) req") auto
  have "de_retry t = de_retry s" using q by (simp add: quiet_def)
  then show "request_ok fm P (de_retry t) (de_world t) req st"
    using request_ok_mono [of fm P "de_retry s" "de_world s" req st0 "de_world t" "de_retry t" st] st0 ok h kept_fields [OF st0(2)]
    by (auto simp: all_ok_def)
qed

lemma soundly: "quiet.keeps env fm m \<Longrightarrow> hold.keeps P m \<Longrightarrow> sound.keeps fm P m"
  unfolding quiet.keeps_def hold.keeps_def sound.keeps_def using all_ok_quiet by blast

lemma sound_write: "(\<And>s. de_states (g s) = de_states s \<and> de_retry (g s) = de_retry s \<and> de_world (g s) = de_world s) \<Longrightarrow>
    sound.keeps fm P (writeA g)"
  by (rule sound.keeps_write) (simp add: all_ok_def)

lemma sound_on_state:
  assumes "\<And>st. rs_committed (g st) = rs_committed st \<and> rs_futures (g st) = rs_futures st \<and> rs_submitted (g st) = rs_submitted st"
  shows "sound.keeps fm P (on_state req g)"
  unfolding sound.keeps_def on_state_effect
proof (intro allI impI)
  fix s assume ok: "all_ok fm P s"
  show "all_ok fm P (snd (Inr (), s\<lparr>de_states := AList.update req (g (state_of req s)) (de_states s)\<rparr>))"
    unfolding snd_conv by (rule all_ok_update [OF ok request_ok_mono [OF all_ok_state [OF ok]]]) (use assms in auto)
qed

lemma sound_at: "sound.keeps fm P m \<Longrightarrow> m s = (r, t) \<Longrightarrow> all_ok fm P s \<Longrightarrow> all_ok fm P t"
  by (drule sound.keepsD) auto

lemma sound_finally: "sound.keeps fm P m \<Longrightarrow> sound.keeps fm P n \<Longrightarrow> sound.keeps fm P (finallyA m n)"
  unfolding finallyA_def by (intro sound.keeps_intros)

lemma sound_blocking:
  assumes "storage_laws env fm P" "future_laws env fm" "harmless env fm m" "retains P m"
  shows "sound.keeps fm P (blocking env m)"
  by (rule soundly [OF keeps_blocking [OF assms(2,3)] hold_blocking [OF assms(1,4)]])

lemma sound_store_cpu: "storage_laws env fm P \<Longrightarrow> future_laws env fm \<Longrightarrow>
    sound.keeps fm P (store_cpu_group env req tokens caches slots g start configs base)"
  by (rule soundly [OF keeps_store_cpu hold_store_cpu])

section \<open>Committing\<close>

lemma update_subset: "set (AList.update k v d) \<subseteq> insert (k, v) (set d)"
  by (induction d) auto

lemma commit_ok:
  assumes "verified_ok S d" "case v of None \<Rightarrow> True | Some v \<Rightarrow> verified_ok S v"
    "\<forall>(g, e) \<in> set sub. \<forall>u. 0 \<le> u \<longrightarrow> u < e \<longrightarrow> S g u"
  shows "verified_ok S (fold (\<lambda>(g, e) d. AList.update g (max (group_end (case v of None \<Rightarrow> d | Some v \<Rightarrow> v) g) e) d) sub d)"
  using assms(1,3)
proof (induction sub arbitrary: d)
  case Nil
  then show ?case by simp
next
  case (Cons ge sub)
  obtain g e where ge: "ge = (g, e)" by (metis surj_pair)
  have "verified_ok S (AList.update g (max (group_end (case v of None \<Rightarrow> d | Some v \<Rightarrow> v) g) e) d)"
    using Cons.prems assms(2) by (cases v) (auto simp: verified_ok_def group_end_update ge)
  then show ?case using Cons.IH Cons.prems(2) by (simp add: ge)
qed

lemma raise_end_ok: "verified_ok S d \<Longrightarrow> (\<And>u. 0 \<le> u \<Longrightarrow> u < e \<Longrightarrow> S g u) \<Longrightarrow> verified_ok S (raise_end (g, e) d)"
  by (auto simp: verified_ok_def group_end_raise less_max_iff_disj)

lemma raise_end_subset:
  assumes "(h, x) \<in> set (raise_end (g, e) d)" "0 \<le> u" "u < x"
  shows "(\<exists>y. (h, y) \<in> set d \<and> u < y) \<or> h = g \<and> u < e"
proof -
  have "(h, x) \<in> insert (g, max (group_end d g) e) (set d)"
    using assms(1) update_subset [of g "max (group_end d g) e" d] by (auto simp: raise_end_def group_end_def)
  then show ?thesis using assms(2,3) by (auto simp: group_end_def dest: map_of_SomeD split: option.splits)
qed

lemma fold_raise_subset:
  "(h, x) \<in> set (fold raise_end es d) \<Longrightarrow> 0 \<le> u \<Longrightarrow> u < x \<Longrightarrow> (\<exists>y. (h, y) \<in> set d \<and> u < y) \<or> (\<exists>e. (h, e) \<in> set es \<and> u < e)"
proof (induction es arbitrary: d)
  case (Cons ge es)
  obtain g e where ge: "ge = (g, e)" by (metis surj_pair)
  have "(\<exists>y. (h, y) \<in> set (raise_end (g, e) d) \<and> u < y) \<or> (\<exists>e. (h, e) \<in> set es \<and> u < e)"
    using Cons.IH [of "raise_end (g, e) d"] Cons.prems by (simp add: ge)
  then show ?case using raise_end_subset [of h _ g e d u] Cons.prems(2) by (auto simp: ge)
qed auto

end
