(* ===== verification/DirectStoreRuns.thy ===== *)
theory DirectStoreRuns
  imports DirectStoreFrontier
begin

text \<open>
  Every operation of the direct store keeps the request states sound: waiting (drain, repair, commit),
  submitting and tracking a batch, the CPU path, the bookkeeping calls; and the runs whose waits returned.
\<close>

section \<open>Waiting\<close>

definition others_ok :: "'w future_model \<Rightarrow> 'w stored \<Rightarrow> string \<Rightarrow> 'w direct_engine \<Rightarrow> bool" where
  "others_ok fm P req s \<longleftrightarrow> (\<forall>r st. r \<noteq> req \<longrightarrow> map_of (de_states s) r = Some st \<longrightarrow> request_ok fm P (de_retry s) (de_world s) r st)"

lemma all_ok_others: "all_ok fm P s \<longleftrightarrow> others_ok fm P req s \<and>
    (\<forall>st. map_of (de_states s) req = Some st \<longrightarrow> request_ok fm P (de_retry s) (de_world s) req st)"
  by (auto simp: all_ok_def others_ok_def)

definition keeps_retry :: "nat set \<Rightarrow> 'w direct_engine \<Rightarrow> 'w direct_engine \<Rightarrow> bool" where
  "keeps_retry F s t \<longleftrightarrow> (\<forall>f. f \<notin> F \<longrightarrow> map_of (de_retry t) f = map_of (de_retry s) f)"

interpretation retry: frame "keeps_retry F" for F :: "nat set"
  by unfold_locales (auto simp: keeps_retry_def)

lemma retry_quiet: "quiet.keeps env fm m \<Longrightarrow> retry.keeps F m"
  unfolding quiet.keeps_def retry.keeps_def quiet_def keeps_retry_def by simp

lemma retry_on_state: "retry.keeps F (on_state req g)"
  unfolding on_state_def by (rule retry.keeps_write) (simp add: keeps_retry_def)

lemma retry_done: "retry.keeps F (direct_store_done env req keys f)"
  by (simp add: retry.keeps_def keeps_retry_def done_always)

lemma drain_retry:
  assumes laws: "future_laws env fm"
  shows "set fs \<subseteq> F \<Longrightarrow> retry.keeps F (drain_futures env req fs)"
proof (induction fs)
  case Nil
  then show ?case by (simp add: retry.keeps_ret)
next
  case (Cons f fs)
  have pop: "retry.keeps F (pop_retry f)"
    using Cons.prems by (simp add: retry.keeps_def pop_retry_effect keeps_retry_def delete_conv')
  show ?case unfolding drain_futures.simps Let_def
    by (intro retry.keeps_intros retry_on_state retry_quiet [OF keeps_blocking [OF laws]] retry_quiet [OF keeps_in_world [of env fm]]
        retry_done pop Cons harmless_calls [OF laws]) (use Cons.prems in auto)
qed

text \<open>A change that leaves another request's state and retries leaves it sound.\<close>

lemma others_ok_keep:
  assumes ok: "others_ok fm P req s"
    and same: "\<And>r. r \<noteq> req \<Longrightarrow> map_option kept (map_of (de_states t) r) = map_option kept (map_of (de_states s) r)"
    and hold: "\<forall>r g u. P r g u (de_world s) \<longrightarrow> P r g u (de_world t)"
    and retry: "\<And>r st f. r \<noteq> req \<Longrightarrow> map_of (de_states s) r = Some st \<Longrightarrow> f \<in> set (rs_futures st) \<Longrightarrow>
       map_of (de_retry t) f = map_of (de_retry s) f"
  shows "others_ok fm P req t"
  unfolding others_ok_def
proof (intro allI impI)
  fix r st assume r: "r \<noteq> req" and st: "map_of (de_states t) r = Some st"
  then obtain st0 where st0: "map_of (de_states s) r = Some st0" "kept st = kept st0"
    using same [OF r] by (cases "map_of (de_states s) r") auto
  have "request_ok fm P (de_retry s) (de_world s) r st0" using ok r st0(1) by (simp add: others_ok_def)
  then show "request_ok fm P (de_retry t) (de_world t) r st"
    by (rule request_ok_mono) (use hold retry [OF r st0(1)] kept_fields [OF st0(2)] in auto)
qed

lemma others_ok_quiet:
  assumes q: "quiet env fm s t" and h: "\<forall>r g u. P r g u (de_world s) \<longrightarrow> P r g u (de_world t)" and ok: "others_ok fm P req s"
  shows "others_ok fm P req t"
  by (rule others_ok_keep [OF ok _ h]) (use q in \<open>auto simp: quiet_def\<close>)

lemma others_ok_state: "others_ok fm P req (s\<lparr>de_states := AList.update req st (de_states s)\<rparr>) \<longleftrightarrow> others_ok fm P req s"
  by (auto simp: others_ok_def map_of_update_same)

lemma settle_failed_run: "settle_failed req j s = (Inr (), t) \<Longrightarrow> de_world t = de_world s \<and> de_retry t = de_retry s \<and>
    (\<forall>r. map_option kept (map_of (de_states t) r) =
       (if r = req then Some (kept (state_of req s)) else map_option kept (map_of (de_states s) r)))"
  by (auto simp: settle_failed_def mark_completed_def drop_pending_def on_state_def act_defs map_of_update_same kept_def
      state_of_def fresh_state_def split: prod.splits option.splits)

definition settled :: "'w future_model \<Rightarrow> 'w stored \<Rightarrow> string \<Rightarrow> 'w direct_engine \<Rightarrow> bool" where
  "settled fm P req s \<longleftrightarrow> others_ok fm P req s \<and> rs_futures (state_of req s) = [] \<and>
     verified_ok (\<lambda>g u. P req g u (de_world s)) (rs_committed (state_of req s)) \<and>
     (\<forall>(g, e) \<in> set (rs_submitted (state_of req s)). \<forall>u. 0 \<le> u \<longrightarrow> u < e \<longrightarrow> P req g u (de_world s))"

lemma settled_ok: "settled fm P req s \<Longrightarrow> all_ok fm P s"
  unfolding all_ok_others [of fm P s req] by (fastforce simp: settled_def request_ok_def state_of_look)

lemma settled_keep:
  assumes ok: "settled fm P req s" and eq: "de_world t = de_world s" "de_retry t = de_retry s"
    and same: "\<And>r. map_option kept (map_of (de_states t) r) =
       (if r = req then Some (kept (state_of req s)) else map_option kept (map_of (de_states s) r))"
  shows "settled fm P req t"
proof -
  obtain st where st: "map_of (de_states t) req = Some st" "kept st = kept (state_of req s)"
    using same [of req] by (cases "map_of (de_states t) req") auto
  have "others_ok fm P req t"
    by (rule others_ok_keep [of fm P req s]) (use ok eq same in \<open>auto simp: settled_def\<close>)
  then show ?thesis using ok kept_fields [OF st(2)] eq by (simp add: settled_def state_of_look [OF st(1)])
qed

lemma settle_failed_each: "settled fm P req s \<Longrightarrow> eachA (settle_failed req) jobs s = (Inr (), t) \<Longrightarrow> settled fm P req t"
proof (induction jobs arbitrary: s)
  case Nil
  then show ?case by (simp add: retA_def)
next
  case (Cons j jobs)
  obtain s1 where s1: "settle_failed req j s = (Inr (), s1)" "eachA (settle_failed req) jobs s1 = (Inr (), t)"
    using Cons.prems(2) by (auto simp: act_runs)
  have "settled fm P req s1" by (rule settled_keep [OF Cons.prems(1)]) (use settle_failed_run [OF s1(1)] in auto)
  then show ?case using Cons.IH s1(2) by blast
qed

text \<open>Committing everything that was submitted, once all of it is stored.\<close>

lemma commit_settled:
  assumes ok: "others_ok fm P req s" and st: "map_of (de_states s) req = Some st" "rs_futures st = []"
    and c: "verified_ok (\<lambda>g u. P req g u (de_world s)) (rs_committed st)"
      "case v of None \<Rightarrow> True | Some v \<Rightarrow> verified_ok (\<lambda>g u. P req g u (de_world s)) v"
    and sub: "\<forall>(g, e) \<in> set (rs_submitted st). \<forall>u. 0 \<le> u \<longrightarrow> u < e \<longrightarrow> P req g u (de_world s)"
  shows "settled fm P req (snd (commit_submitted req v s))"
proof -
  note fin = commit_ok [OF c sub]
  show ?thesis
    using ok st(2) sub fin unfolding settled_def commit_submitted_def on_state_effect state_of_look [OF st(1)] snd_conv others_ok_state
    by (simp add: state_of_def map_of_update_same)
qed

lemma hold_repair:
  assumes "storage_laws env fm P"
  shows "hold.keeps P (repair_jobs env req jobs v)"
proof (induction jobs arbitrary: v)
  case Nil
  then show ?case by (simp add: hold.keeps_ret)
next
  case (Cons j jobs)
  obtain f ra e where "j = (f, ra, e)" by (metis surj_pair)
  then show ?case by (simp only: repair_jobs.simps) (intro hold.keeps_intros hold_repair_groups [OF assms] Cons)
qed

lemma finally_Inr: "finallyA m n s = (Inr x, t) \<longleftrightarrow> (\<exists>u y. m s = (Inr x, u) \<and> n u = (Inr y, t))"
  unfolding finallyA_def bind_attempt by (cases "m s") (auto simp: seqA_def bindA_def liftA_def split: prod.splits sum.splits)

lemma commit_run: "commit_submitted req v s = (Inr (), snd (commit_submitted req v s))"
  by (simp add: commit_submitted_def on_state_effect)

lemma succeeded_stored:
  assumes "storage_laws env fm P" "f \<in> fm_issued fm w" "owner fm f = req" "ended env f True w" "stores_token (fm_batch fm f) g u"
  shows "P req g u w"
proof -
  have "dv_status env f w = Succeeded" using assms(4) by (simp add: ended_def)
  then show ?thesis using assms(1,2,3,5) unfolding storage_laws_def by blast
qed

text \<open>
  After a wait that returned, nothing of the request is outstanding and everything submitted for it is stored.
\<close>

lemma settle_jobs_settled:
  assumes laws: "storage_laws env fm P" "future_laws env fm"
    and ok: "others_ok fm P req t" and st: "map_of (de_states t) req = Some st" "rs_futures st = []"
    and v: "verified_ok (\<lambda>g u. P req g u (de_world t)) (rs_committed st)"
    and chain: "chained fm (\<lambda>g u. P req g u (de_world t)) (map fst jobs)"
    and each: "\<forall>(f, ra, error) \<in> set jobs. f \<in> fm_issued fm (de_world t) \<and> owner fm f = req \<and> ra_ends ra = db_group_ends (fm_batch fm f) \<and>
       below_end (fm_batch fm f) \<and> ended env f (error = None) (de_world t)"
    and sub: "\<forall>(g, e) \<in> set (rs_submitted st). \<forall>u. 0 \<le> u \<longrightarrow> u < e \<longrightarrow> P req g u (de_world t) \<or>
       (\<exists>f \<in> set (map fst jobs). stores_token (fm_batch fm f) g u)"
    and run: "settle_jobs env req jobs (rs_committed st) t = (Inr (), t')"
  shows "settled fm P req t'"
proof (cases "failed_jobs jobs = []")
  case True
  have "P req g u (de_world t)" if f: "f \<in> set (map fst jobs)" and tok: "stores_token (fm_batch fm f) g u" for f g u
  proof -
    obtain ra e where j: "(f, ra, e) \<in> set jobs" using f by auto
    then have "e = None" using True by (auto simp: failed_jobs_def filter_empty_conv)
    then have "f \<in> fm_issued fm (de_world t)" "owner fm f = req" "ended env f True (de_world t)" using each j by auto
    then show ?thesis by (rule succeeded_stored [OF laws(1) _ _ _ tok])
  qed
  then have "\<forall>(g, e) \<in> set (rs_submitted st). \<forall>u. 0 \<le> u \<longrightarrow> u < e \<longrightarrow> P req g u (de_world t)" using sub by blast
  from commit_settled [OF ok st v _ this, of None] show ?thesis using run True by (simp add: settle_jobs_def)
next
  case False
  obtain y u1 u2 where m: "bindA (repair_jobs env req jobs (rs_committed st)) (\<lambda>v. commit_submitted req (Some v)) t = (Inr (), u2)"
    and se: "eachA (settle_failed req) (failed_jobs jobs) u2 = (Inr y, t')"
    using run False by (auto simp: settle_jobs_def finally_Inr)
  obtain v' u1 where rp: "repair_jobs env req jobs (rs_committed st) t = (Inr v', u1)" and u2: "u2 = snd (commit_submitted req (Some v') u1)"
    using m unfolding bindA_Inr by (metis commit_run snd_conv)
  note res = repair_jobs_result [OF laws v chain each rp]
  have q: "quiet env fm t u1" by (rule quiet.keepsD [OF keeps_repair [OF laws(2)] rp])
  have "hold.keeps P (repair_jobs env req jobs (rs_committed st))" by (rule hold_repair [OF laws(1)])
  then have h: "\<forall>r g u. P r g u (de_world t) \<longrightarrow> P r g u (de_world u1)" using rp by (rule hold.keepsD)
  obtain st1 where st1: "map_of (de_states u1) req = Some st1" "kept st1 = kept st" using quiet_statesD [OF q st(1)] by blast
  note same = kept_fields [OF st1(2)]
  have "settled fm P req (snd (commit_submitted req (Some v') u1))"
  proof (rule commit_settled [OF others_ok_quiet [OF q h ok] st1(1)])
    show "rs_futures st1 = []" using same st(2) by simp
    show "verified_ok (\<lambda>g u. P req g u (de_world u1)) (rs_committed st1)" using v h same by (simp add: verified_ok_def)
    show "case Some v' of None \<Rightarrow> True | Some v \<Rightarrow> verified_ok (\<lambda>g u. P req g u (de_world u1)) v" using res by simp
    show "\<forall>(g, e) \<in> set (rs_submitted st1). \<forall>u. 0 \<le> u \<longrightarrow> u < e \<longrightarrow> P req g u (de_world u1)"
      using sub res h same by (simp add: split_def) blast
  qed
  then show ?thesis using settle_failed_each [of fm P req u2] se u2 by simp
qed

lemma hold_windows: "storage_laws env fm P \<Longrightarrow> hold.keeps P (wait_remote_windows env req)"
  unfolding wait_remote_windows_def by (intro hold.keeps_intros hold_blocking storage_calls)

lemma wait_request_ok:
  assumes laws: "storage_laws env fm P" "future_laws env fm" and b: "balanced env fm x s" and ok: "all_ok fm P s"
    and run: "wait_request_stores env req s = (Inr found, t)"
  shows "all_ok fm P t"
proof (cases "map_of (de_states s) req")
  case None
  then show ?thesis using run ok by (simp add: wait_request_stores_def bindA_readA retA_def)
next
  case (Some st)
  obtain jobs s1 s2 where dr: "drain_futures env req (rs_futures st) s = (Inr jobs, s1)"
    and se: "settle_jobs env req jobs (rs_committed st) s1 = (Inr (), s2)"
    and rw: "seqA (wait_remote_windows env req) (retA True) s2 = (Inr found, t)"
    using run unfolding wait_request_stores_def bindA_readA Some option.case by (auto simp: act_runs(1,2))
  have res: "loose env fm req s s1" "drained_all env (de_retry s) (rs_futures st) jobs (de_world s1)"
    and fut: "\<exists>st'. map_of (de_states s1) req = Some st' \<and> rs_futures st' = []"
    using drained_result [OF laws(2) b Some refl dr] by auto
  have h: "\<forall>r g u. P r g u (de_world s) \<longrightarrow> P r g u (de_world s1)" by (rule hold.keepsD [OF hold_drain [OF laws(1)] dr])
  have rt: "keeps_retry (set (rs_futures st)) s s1" by (rule retry.keepsD [OF drain_retry [OF laws(2) order_refl] dr])
  have own: "\<forall>f \<in> set (rs_futures st). f \<in> fm_issued fm (de_world s) \<and> owner fm f = req" using b Some unfolding balanced_def by metis
  have req: "request_ok fm P (de_retry s) (de_world s) req st" using ok Some by (simp add: all_ok_def)
  have others: "others_ok fm P req s1"
  proof (rule others_ok_keep [of fm P req s])
    show "others_ok fm P req s" using ok all_ok_others by blast
    show "map_option kept (map_of (de_states s1) r) = map_option kept (map_of (de_states s) r)" if "r \<noteq> req" for r
      using res(1) that unfolding loose_def by blast
    show "map_of (de_retry s1) f = map_of (de_retry s) f" if "r \<noteq> req" "map_of (de_states s) r = Some st'" "f \<in> set (rs_futures st')" for r st' f
    proof -
      have "owner fm f = r" using b that(2,3) unfolding balanced_def by metis
      then show ?thesis using rt own that(1) by (auto simp: keeps_retry_def)
    qed
  qed (rule h)
  obtain st1 where st1: "map_of (de_states s1) req = Some st1" "rs_futures st1 = []" using fut by blast
  have "map_option unfutured (map_of (de_states s1) req) = map_option unfutured (map_of (de_states s) req)"
    using res(1) unfolding loose_def by blast
  then have un: "unfutured st1 = unfutured st" by (simp add: st1 Some)
  have same: "rs_committed st1 = rs_committed st" "rs_submitted st1 = rs_submitted st"
    using un by (cases st; cases st1; simp add: unfutured_def kept_def)+
  have retry: "\<forall>f \<in> set (rs_futures st). below_end (fm_batch fm f) \<and>
        (\<exists>ra. map_of (de_retry s) f = Some ra \<and> ra_ends ra = db_group_ends (fm_batch fm f))"
    and ch: "chained fm (\<lambda>g u. P req g u (de_world s)) (rs_futures st)" and v: "verified_ok (\<lambda>g u. P req g u (de_world s)) (rs_committed st)"
    and sub: "\<forall>(g, e) \<in> set (rs_submitted st). \<forall>u. 0 \<le> u \<longrightarrow> u < e \<longrightarrow> P req g u (de_world s) \<or>
       (\<exists>f \<in> set (rs_futures st). stores_token (fm_batch fm f) g u)"
    using req unfolding request_ok_def by blast+
  have "filter (\<lambda>f. map_of (de_retry s) f \<noteq> None) (rs_futures st) = rs_futures st" using retry by (auto simp: filter_id_conv)
  then have ids: "map fst jobs = rs_futures st" using res(2) unfolding drained_all_def by metis
  have step: "world_step env fm (de_world s) (de_world s1)" using res(1) by (simp add: loose_def bookkept_def)
  have "settled fm P req s2"
  proof (rule settle_jobs_settled [OF laws others st1])
    show "verified_ok (\<lambda>g u. P req g u (de_world s1)) (rs_committed st1)" using v h by (simp add: same verified_ok_def)
    show "chained fm (\<lambda>g u. P req g u (de_world s1)) (map fst jobs)"
      unfolding ids by (rule chained_mono [OF ch]) (use h in blast)
    show "\<forall>(f, ra, error) \<in> set jobs. f \<in> fm_issued fm (de_world s1) \<and> owner fm f = req \<and> ra_ends ra = db_group_ends (fm_batch fm f) \<and>
       below_end (fm_batch fm f) \<and> ended env f (error = None) (de_world s1)"
    proof (intro ballI, clarify)
      fix f ra e assume j: "(f, ra, e) \<in> set jobs"
      have "f \<in> set (map fst jobs)" using j by force
      then have f: "f \<in> set (rs_futures st)" unfolding ids .
      have jo: "map_of (de_retry s) f = Some ra \<and> ended env f (e = None) (de_world s1)"
        using res(2) j by (auto simp: drained_all_def list_all_iff job_ok_def)
      obtain ra' where ra': "map_of (de_retry s) f = Some ra'" "ra_ends ra' = db_group_ends (fm_batch fm f)" "below_end (fm_batch fm f)"
        using retry f by blast
      have "f \<in> fm_issued fm (de_world s1)" using own f step by (simp add: world_step_def)
      then show "f \<in> fm_issued fm (de_world s1) \<and> owner fm f = req \<and> ra_ends ra = db_group_ends (fm_batch fm f) \<and>
        below_end (fm_batch fm f) \<and> ended env f (e = None) (de_world s1)" using own f jo ra' by simp
    qed
    show "\<forall>(g, e) \<in> set (rs_submitted st1). \<forall>u. 0 \<le> u \<longrightarrow> u < e \<longrightarrow> P req g u (de_world s1) \<or>
       (\<exists>f \<in> set (map fst jobs). stores_token (fm_batch fm f) g u)"
      using sub h unfolding ids same by blast
    show "settle_jobs env req jobs (rs_committed st1) s1 = (Inr (), s2)" using se by (simp add: same)
  qed
  then have "all_ok fm P s2" by (rule settled_ok)
  moreover have "sound.keeps fm P (seqA (wait_remote_windows env req) (retA True))"
    by (rule soundly [of env]) (intro quiet.keeps_intros keeps_remote_windows hold.keeps_intros hold_windows [OF laws(1)] laws(2))+
  ultimately show ?thesis using rw by (blast intro: sound_at)
qed

lemma wait_ok:
  assumes laws: "storage_laws env fm P" "future_laws env fm" and b: "balanced env fm x s" and ok: "all_ok fm P s"
    and run: "wait_for_direct_stores env reqs s = (Inr found, t)"
  shows "all_ok fm P t"
proof -
  have each: "balanced env fm x s \<Longrightarrow> all_ok fm P s \<Longrightarrow> wait_each env reqs s = (Inr found, t) \<Longrightarrow> all_ok fm P t" for s found t
  proof (induction reqs arbitrary: s found)
    case Nil
    then show ?case by (simp add: retA_def)
  next
    case (Cons req reqs)
    obtain f1 s1 f2 where one: "wait_request_stores env req s = (Inr f1, s1)" and rest: "wait_each env reqs s1 = (Inr f2, t)"
      using Cons.prems(3) by (auto simp: act_runs)
    show ?case
      by (rule Cons.IH [OF books_at [OF books_wait_request [OF laws(2)] one Cons.prems(1)]
        wait_request_ok [OF laws Cons.prems(1,2) one] rest])
  qed
  define m where "m = (if dv_force_layerwise env \<and> reqs \<noteq> [] then blocking env (dv_poll_layerwise env reqs) else retA ())"
  have q: "quiet.keeps env fm m" unfolding m_def by (intro quiet.keeps_intros keeps_blocking harmless_calls laws)
  have h: "hold.keeps P m" unfolding m_def by (intro hold.keeps_intros hold_blocking [OF laws(1)] storage_calls [OF laws(1)])
  obtain s1 where m: "m s = (Inr (), s1)" and rest: "wait_each env reqs s1 = (Inr found, t)"
    using run unfolding wait_for_direct_stores_def m_def [symmetric] by (auto simp: act_runs)
  show ?thesis
    by (rule each [OF books_at [OF quietly [OF q] m b] sound_at [OF soundly [OF q h] m ok] rest])
qed

section \<open>Submissions\<close>

definition outstanding :: "'w future_model \<Rightarrow> direct_state \<Rightarrow> int \<Rightarrow> int \<Rightarrow> bool" where
  "outstanding fm st g u \<longleftrightarrow> (\<exists>f \<in> set (rs_futures st). stores_token (fm_batch fm f) g u)"

text \<open>What the planning of a batch promises: below its group ends every token is stored, outstanding, or in the batch.\<close>

definition batch_fits :: "'w future_model \<Rightarrow> 'w stored \<Rightarrow> page_batch \<Rightarrow> 'w direct_engine \<Rightarrow> bool" where
  "batch_fits fm P b s \<longleftrightarrow> below_end b \<and> (\<forall>(g, e) \<in> set (db_group_ends b). \<forall>u. 0 \<le> u \<longrightarrow> u < e \<longrightarrow>
     P (db_req_id b) g u (de_world s) \<or> outstanding fm (state_of (db_req_id b) s) g u \<or> stores_token b g u)"

definition steady :: "'w stored \<Rightarrow> 'w direct_engine \<Rightarrow> 'w direct_engine \<Rightarrow> bool" where
  "steady P s t \<longleftrightarrow> de_retry t = de_retry s \<and> (\<forall>r g u. P r g u (de_world s) \<longrightarrow> P r g u (de_world t)) \<and>
     (\<forall>r. kept (state_of r t) = kept (state_of r s))"

interpretation steady: frame "steady P" for P :: "'w stored"
  by unfold_locales (auto simp: steady_def)

lemma state_of_kept:
  assumes "map_option kept (map_of (de_states t) r) = map_option kept (map_of (de_states s) r)"
  shows "kept (state_of r t) = kept (state_of r s)"
  using assms by (cases "map_of (de_states t) r"; cases "map_of (de_states s) r") (auto simp: state_of_def)

lemma steadily:
  fixes P :: "'a stored"
  assumes "quiet.keeps env fm m" "hold.keeps P m"
  shows "steady.keeps P m"
  unfolding steady.keeps_def steady_def
proof (intro allI conjI impI)
  fix s :: "'a direct_engine" and r
  have "quiet env fm s (snd (m s))" using assms(1) by (simp add: quiet.keeps_def)
  then show "de_retry (snd (m s)) = de_retry s" "kept (state_of r (snd (m s))) = kept (state_of r s)"
    by (auto simp: quiet_def intro: state_of_kept)
next
  fix s :: "'a direct_engine" and r g u assume "P r g u (de_world s)"
  then show "P r g u (de_world (snd (m s)))" using assms(2) by (simp add: hold.keeps_def)
qed

lemma steady_write:
  "(\<And>s. de_states (g s) = de_states s \<and> de_retry (g s) = de_retry s \<and> de_world (g s) = de_world s) \<Longrightarrow> steady.keeps P (writeA g)"
  by (rule steady.keeps_write) (simp add: steady_def state_of_def)

lemma steady_on_state: "(\<And>st. kept (g st) = kept st) \<Longrightarrow> steady.keeps P (on_state req g)"
  by (auto simp: steady.keeps_def on_state_effect steady_def state_of_def map_of_update_same)

lemma steady_world: "retains P m \<Longrightarrow> steady.keeps P (in_world m)"
  by (auto simp: steady.keeps_def steady_def in_world_def retains_def state_of_def split: prod.split) (metis snd_conv)

lemma all_ok_state_iff: "all_ok fm P s \<longleftrightarrow> (\<forall>r. request_ok fm P (de_retry s) (de_world s) r (state_of r s))"
  by (auto simp: all_ok_def state_of_def request_ok_fresh split: option.splits)

lemma all_ok_steady:
  assumes st: "steady P s t" and ok: "all_ok fm P s"
  shows "all_ok fm P t"
  unfolding all_ok_state_iff
proof
  fix r
  have "request_ok fm P (de_retry s) (de_world s) r (state_of r s)" using ok all_ok_state_iff by blast
  moreover have "kept (state_of r t) = kept (state_of r s)" using st by (simp add: steady_def)
  ultimately show "request_ok fm P (de_retry t) (de_world t) r (state_of r t)"
    using st kept_fields [of "state_of r t" "state_of r s"] by (auto simp: steady_def intro: request_ok_mono)
qed

lemma sound_steady: "steady.keeps P m \<Longrightarrow> sound.keeps fm P m"
  unfolding steady.keeps_def sound.keeps_def using all_ok_steady by blast

lemma fits_steady:
  assumes "steady P s t" "batch_fits fm P b s"
  shows "batch_fits fm P b t"
proof -
  have "kept (state_of (db_req_id b) t) = kept (state_of (db_req_id b) s)" using assms(1) by (simp add: steady_def)
  then have "rs_futures (state_of (db_req_id b) t) = rs_futures (state_of (db_req_id b) s)" using kept_fields by blast
  then show ?thesis using assms unfolding batch_fits_def outstanding_def steady_def by fastforce
qed

lemma steady_backpressure:
  assumes "storage_laws env fm P" "future_laws env fm"
  shows "steady.keeps P (wait_backpressure env jobs)"
proof (induction jobs)
  case Nil
  then show ?case by (simp add: steady.keeps_ret)
next
  case (Cons f jobs)
  have "steady.keeps P (blocking env (dv_wait_job env f))"
    by (rule steadily [OF keeps_blocking [OF assms(2)] hold_blocking [OF assms(1)]])
      (intro harmless_calls [OF assms(2)] storage_calls [OF assms(1)])+
  then show ?case unfolding wait_backpressure.simps
    by (intro steady.keeps_intros steady_write Cons) auto
qed

lemma steady_done: "steady.keeps P (direct_store_done env req keys f)"
  unfolding steady.keeps_def steady_def by (intro allI conjI impI state_of_kept) (simp_all add: done_always)

lemma steady_callback: "steady.keeps P (add_callback env req keys f)"
  unfolding add_callback_def by (intro steady.keeps_intros steady_done steady_write) simp

text \<open>A submission: all is steady up to the put, which then joins the request's puts.\<close>

lemma submit_shape:
  fixes P :: "'a stored"
  assumes laws: "storage_laws env fm P" "future_laws env fm" and run: "submit_batch env b s = (r, t)" and bal: "balanced env fm x s"
  shows "case r of Inl _ \<Rightarrow> steady P s t
    | Inr f \<Rightarrow> \<exists>s4 st'. steady P s s4 \<and> f \<notin> (\<Union>r. set (rs_futures (state_of r s4))) \<and> fm_batch fm f = b \<and>
        de_retry t = de_retry s4 \<and> de_world t = de_world s4 \<and> map_of (de_states t) = (map_of (de_states s4))(db_req_id b \<mapsto> st') \<and>
        rs_futures st' = rs_futures (state_of (db_req_id b) s4) @ [f] \<and> rs_committed st' = rs_committed (state_of (db_req_id b) s4) \<and>
        rs_submitted st' = rs_submitted (state_of (db_req_id b) s4)"
proof -
  define req keys where "req = db_req_id b" and "keys = map (dv_key_string env) (db_keys b)"
  define g where "g = (\<lambda>st :: direct_state. st\<lparr>rs_pending_keys := py_unique (rs_pending_keys st @ keys)\<rparr>)"
  define prep :: "('a, unit) de_act" where "prep = bindA (readA de_jobs) (\<lambda>jobs. seqA (wait_backpressure env jobs) (seqA (on_state req g) (add_pending req)))"
  define rest :: "exn + nat \<Rightarrow> ('a, nat) de_act" where "rest = (\<lambda>r. case r of
          Inl e \<Rightarrow> seqA (on_state req (\<lambda>st. st\<lparr>rs_pending_keys := without keys (rs_pending_keys st)\<rparr>))
            (seqA (drop_pending req) (raiseA e))
        | Inr f \<Rightarrow> seqA (on_state req (\<lambda>st. st\<lparr>rs_futures := rs_futures st @ [f], rs_jobs := rs_jobs st + 1,
              rs_pages := rs_pages st + (int (length (db_keys b)) - legacy_count env b), rs_legacy := rs_legacy st + legacy_count env b,
              rs_bytes := rs_bytes st + batch_total b\<rparr>))
            (seqA (writeA (\<lambda>s. s\<lparr>de_jobs := de_jobs s @ [f]\<rparr>)) (retA f)))"
  have shape: "submit_batch env b s = seqA prep (bindA (attemptA (in_world (dv_put env b))) rest) s"
    by (simp add: submit_batch_def Let_def prep_def rest_def g_def req_def keys_def seqA_def bindA_def split: prod.split sum.split)
  have prep: "steady.keeps P prep" unfolding prep_def add_pending_def
    by (intro steady.keeps_intros steady_backpressure [OF laws] steady_on_state steady_write) (simp_all add: g_def kept_def)
  have books: "books.keeps env fm (seqA (wait_backpressure env jobs) (on_state req g))" for jobs
    by (intro books.keeps_intros keeps_backpressure [OF laws(2)] books_on_state) (simp add: g_def)
  obtain r3 s3 where p3: "prep s = (r3, s3)" by (metis surj_pair)
  have st3: "steady P s s3" by (rule steady.keepsD [OF prep p3])
  show ?thesis
  proof (cases r3)
    case (Inl e)
    then have "(r, t) = (Inl e, s3)" using run p3 unfolding shape by (simp add: seqA_def bindA_def)
    then show ?thesis using st3 by simp
  next
    case (Inr u)
    obtain s2 where s2: "seqA (wait_backpressure env (de_jobs s)) (on_state req g) s = (Inr (), s2)"
      and s3: "s3 = s2\<lparr>de_pending := pending_add req (de_pending s2)\<rparr>"
      using p3 Inr by (auto simp: prep_def bindA_readA act_runs add_pending_def)
    have "balanced env fm x s2" by (rule books_at [OF books s2 bal])
    from balanced_more [OF this s3] have b3: "balanced env fm (x(req := x req + 1)) s3" .
    obtain r4 w where put: "dv_put env b (de_world s3) = (r4, w)" by (metis surj_pair)
    define s4 where "s4 = s3\<lparr>de_world := w\<rparr>"
    have st4: "steady P s s4"
    proof (rule steady.frame_trans [OF st3])
      have "in_world (dv_put env b) s3 = (r4, s4)" using put by (simp add: in_world_def s4_def)
      then show "steady P s3 s4" by (rule steady.keepsD [OF steady_world [OF storage_calls(3) [OF laws(1)]]])
    qed
    have go: "(r, t) = rest r4 s4" using run p3 Inr put unfolding shape by (simp add: seq_run bind_world s4_def)
    show ?thesis
    proof (cases r4)
      case (Inl e)
      have "steady.keeps P (rest (Inl e) :: ('a, nat) de_act)"
        unfolding rest_def sum.case drop_pending_def
        by (intro steady.keeps_intros steady_on_state steady_write) (simp_all add: kept_def)
      then have "steady P s4 t" using go Inl steady.keepsD by metis
      moreover have "\<exists>e. r = Inl e" using go Inl by (simp add: rest_def seq_on_state seq_drop_pending raiseA_def)
      ultimately show ?thesis using st4 steady.frame_trans by fastforce
    next
      case (Inr f)
      note pe = put_effect [OF laws(2), of x b s3, folded req_def, OF b3 put]
      have f: "fm_batch fm f = b" "f \<notin> fm_issued fm (de_world s3)" using pe Inr by auto
      have "f \<notin> set (rs_futures (state_of q s4))" for q
      proof -
        have "state_of q s4 = state_of q s3" by (simp add: s4_def state_of_def)
        then show ?thesis using state_futures [OF b3, of q] f(2) by auto
      qed
      then have fresh: "f \<notin> (\<Union>r. set (rs_futures (state_of r s4)))" by blast
      define st' where "st' = (state_of req s4)\<lparr>rs_futures := rs_futures (state_of req s4) @ [f], rs_jobs := rs_jobs (state_of req s4) + 1,
              rs_pages := rs_pages (state_of req s4) + (int (length (db_keys b)) - legacy_count env b),
              rs_legacy := rs_legacy (state_of req s4) + legacy_count env b, rs_bytes := rs_bytes (state_of req s4) + batch_total b\<rparr>"
      have t: "r = Inr f" "t = s4\<lparr>de_states := AList.update req st' (de_states s4), de_jobs := de_jobs s4 @ [f]\<rparr>"
        using go Inr by (simp_all add: rest_def seq_on_state on_state_effect seqA_def bindA_def writeA_def retA_def st'_def)
      have "de_retry t = de_retry s4 \<and> de_world t = de_world s4 \<and> map_of (de_states t) = (map_of (de_states s4))(req \<mapsto> st') \<and>
        rs_futures st' = rs_futures (state_of req s4) @ [f] \<and> rs_committed st' = rs_committed (state_of req s4) \<and>
        rs_submitted st' = rs_submitted (state_of req s4)"
        unfolding t(2) by (simp add: st'_def update_conv')
      then show ?thesis using st4 fresh f(1) unfolding t(1) sum.case req_def [symmetric] by blast
    qed
  qed
qed

lemma track_ok:
  fixes P :: "'w stored"
  assumes laws: "storage_laws env fm P" "future_laws env fm" and bal: "balanced env fm x s" and ok: "all_ok fm P s"
    and fits: "batch_fits fm P b s" and run: "track_batch env b retry s = (r, t)"
  shows "all_ok fm P t"
proof -
  define req keys where "req = db_req_id b" and "keys = map (dv_key_string env) (db_keys b)"
  obtain q u where sub: "submit_batch env b s = (q, u)" by (metis surj_pair)
  note shape = submit_shape [OF laws sub bal, folded req_def]
  show ?thesis
  proof (cases q)
    case (Inl e)
    then have "t = u" using run sub by (simp add: track_batch_def Let_def bindA_def)
    then show ?thesis using shape Inl all_ok_steady [OF _ ok] by simp
  next
    case (Inr f)
    obtain s4 st' where s4: "steady P s s4" "f \<notin> (\<Union>r. set (rs_futures (state_of r s4)))" "fm_batch fm f = b"
      and u: "de_retry u = de_retry s4" "de_world u = de_world s4" "map_of (de_states u) = (map_of (de_states s4))(req \<mapsto> st')"
        "rs_futures st' = rs_futures (state_of req s4) @ [f]" "rs_committed st' = rs_committed (state_of req s4)"
        "rs_submitted st' = rs_submitted (state_of req s4)" using shape Inr by auto
    define g where "g = (\<lambda>st :: direct_state. st\<lparr>rs_submitted := fold raise_end (db_group_ends b) (rs_submitted st)\<rparr>)"
    define ra where "ra = retry\<lparr>ra_keys := keys, ra_ends := db_group_ends b\<rparr>"
    define u1 where "u1 = snd (on_state req g u)"
    define u2 where "u2 = u1\<lparr>de_retry := AList.update f ra (de_retry u1)\<rparr>"
    have go: "track_batch env b retry s = seqA (add_callback env req keys f) (retA f) u2"
      unfolding track_batch_def Let_def req_def [symmetric] keys_def [symmetric] bindA_def [of "submit_batch env b"] sub Inr
          prod.case sum.case g_def [symmetric] seq_on_state [of req g] u1_def [symmetric]
      by (simp add: seq_write u2_def ra_def)
    have look: "state_of r u2 = (if r = req then g st' else state_of r s4)" for r
      by (simp add: u2_def u1_def on_state_effect state_of_def map_of_update_same u(3))
    have w: "de_world u2 = de_world s4" "de_retry u2 = AList.update f ra (de_retry s4)"
      by (simp_all add: u2_def u1_def on_state_effect u)
    have ok4: "all_ok fm P s4" by (rule all_ok_steady [OF s4(1) ok])
    have fits4: "batch_fits fm P b s4" by (rule fits_steady [OF s4(1) fits])
    have same: "map_of (de_retry u2) h = map_of (de_retry s4) h" if "h \<in> set (rs_futures (state_of r s4))" for h r
      using that s4(2) by (auto simp: w update_conv')
    have "all_ok fm P u2"
      unfolding all_ok_state_iff
    proof
      fix r
      have old: "request_ok fm P (de_retry s4) (de_world s4) r (state_of r s4)" using ok4 all_ok_state_iff by blast
      show "request_ok fm P (de_retry u2) (de_world u2) r (state_of r u2)"
      proof (cases "r = req")
        case False
        then show ?thesis unfolding look using old same [of _ r] by (auto simp: w(1) intro: request_ok_mono)
      next
        case True
        define st where "st = state_of req s4"
        have old: "request_ok fm P (de_retry s4) (de_world s4) req st" using old by (simp add: st_def True)
        have eqs: "rs_futures (g st') = rs_futures st @ [f]" "rs_committed (g st') = rs_committed st"
          "rs_submitted (g st') = fold raise_end (db_group_ends b) (rs_submitted st)"
          by (simp_all add: g_def u st_def)
        have bf: "below_end b" and gap: "\<And>g e u. (g, e) \<in> set (db_group_ends b) \<Longrightarrow> 0 \<le> u \<Longrightarrow> u < e \<Longrightarrow>
            P req g u (de_world s4) \<or> (\<exists>h \<in> set (rs_futures st). stores_token (fm_batch fm h) g u) \<or> stores_token b g u"
          using fits4 unfolding batch_fits_def outstanding_def req_def [symmetric] st_def [symmetric] by fast+
        have "request_ok fm P (de_retry u2) (de_world u2) req (g st')"
          unfolding request_ok_def eqs w(1)
        proof (intro conjI)
          show "verified_ok (\<lambda>g u. P req g u (de_world s4)) (rs_committed st)" using old by (simp add: request_ok_def)
          show "\<forall>h\<in>set (rs_futures st @ [f]). below_end (fm_batch fm h) \<and>
            (\<exists>ra. map_of (de_retry u2) h = Some ra \<and> ra_ends ra = db_group_ends (fm_batch fm h))"
          proof
            fix h assume "h \<in> set (rs_futures st @ [f])"
            then show "below_end (fm_batch fm h) \<and> (\<exists>ra. map_of (de_retry u2) h = Some ra \<and> ra_ends ra = db_group_ends (fm_batch fm h))"
            proof (cases "h = f")
              case True
              then show ?thesis using bf by (simp add: s4(3) w update_conv' ra_def)
            next
              case False
              then have "h \<in> set (rs_futures st)" using \<open>h \<in> set (rs_futures st @ [f])\<close> by simp
              then show ?thesis using old same [of h req] by (simp add: request_ok_def st_def)
            qed
          qed
          show "chained fm (\<lambda>g u. P req g u (de_world s4)) (rs_futures st @ [f])"
            unfolding chained_snoc using old gap s4(3) by (auto simp: request_ok_def)
          show "\<forall>(g, e)\<in>set (fold raise_end (db_group_ends b) (rs_submitted st)). \<forall>u\<ge>0. u < e \<longrightarrow>
             P req g u (de_world s4) \<or> (\<exists>f\<in>set (rs_futures st @ [f]). stores_token (fm_batch fm f) g u)"
          proof (intro ballI, clarify)
            fix g e u assume e: "(g, e) \<in> set (fold raise_end (db_group_ends b) (rs_submitted st))" and u: "0 \<le> u" "u < e"
              and no: "\<not> (\<exists>f\<in>set (rs_futures st @ [f]). stores_token (fm_batch fm f) g u)"
            from fold_raise_subset [OF e u] show "P req g u (de_world s4)"
            proof
              assume "\<exists>y. (g, y) \<in> set (rs_submitted st) \<and> u < y"
              then show ?thesis using old u(1) no unfolding request_ok_def by fastforce
            next
              assume "\<exists>y. (g, y) \<in> set (db_group_ends b) \<and> u < y"
              then show ?thesis using gap u(1) no s4(3) by fastforce
            qed
          qed
        qed
        then show ?thesis unfolding look using True by simp
      qed
    qed
    moreover have "steady.keeps P (seqA (add_callback env req keys f) (retA f))"
      by (intro steady.keeps_intros steady_callback)
    ultimately show ?thesis using all_ok_steady run unfolding go by (blast dest: steady.keepsD)
  qed
qed

section \<open>The other operations\<close>

lemma sound_set_ends:
  assumes ok: "all_ok fm P s" and c: "\<And>u. 0 \<le> u \<Longrightarrow> u < c \<Longrightarrow> P req g u (de_world s)"
  shows "all_ok fm P (snd (set_ends req g c s))"
proof -
  define st where "st = state_of req s"
  define st' where "st' = st\<lparr>rs_committed := AList.update g c (rs_committed st), rs_submitted := AList.update g c (rs_submitted st)\<rparr>"
  have old: "request_ok fm P (de_retry s) (de_world s) req st" unfolding st_def by (rule all_ok_state [OF ok])
  have sub: "set (rs_submitted st') \<subseteq> insert (g, c) (set (rs_submitted st))" by (simp add: st'_def update_subset)
  have "verified_ok (\<lambda>g u. P req g u (de_world s)) (rs_committed st')"
    using old c by (auto simp: request_ok_def verified_ok_def st'_def group_end_update)
  moreover have "\<forall>(h, e) \<in> set (rs_submitted st'). \<forall>u. 0 \<le> u \<longrightarrow> u < e \<longrightarrow> P req h u (de_world s) \<or>
      (\<exists>f \<in> set (rs_futures st). stores_token (fm_batch fm f) h u)"
    using sub old c unfolding request_ok_def by fast
  ultimately have "request_ok fm P (de_retry s) (de_world s) req st'" using old by (simp add: request_ok_def st'_def)
  from all_ok_update [OF ok this] show ?thesis by (simp add: set_ends_def on_state_effect st'_def st_def)
qed

lemma steady_store_cpu:
  "storage_laws env fm P \<Longrightarrow> future_laws env fm \<Longrightarrow> steady.keeps P (store_cpu_group env req tokens caches slots g start configs base)"
  by (rule steadily [OF keeps_store_cpu hold_store_cpu])

lemma sound_fill:
  assumes laws: "storage_laws env fm P" "future_laws env fm" and ok: "all_ok fm P s"
    and start: "start = group_end (rs_committed (state_of req s)) g"
  shows "all_ok fm P (snd (bindA (store_cpu_group env req tokens caches slots g start configs base) (set_ends req g) s))"
proof -
  obtain r t where run: "store_cpu_group env req tokens caches slots g start configs base s = (r, t)" by (metis surj_pair)
  have st: "steady P s t" by (rule steady.keepsD [OF steady_store_cpu [OF laws] run])
  have okt: "all_ok fm P t" by (rule all_ok_steady [OF st ok])
  show ?thesis
  proof (cases r)
    case (Inl e)
    then show ?thesis using run okt by (simp add: bindA_def)
  next
    case (Inr c)
    have "P req g u (de_world t)" if u: "0 \<le> u" "u < c" for u
    proof (cases "start \<le> u")
      case True
      show ?thesis by (rule store_cpu_stores [OF laws run [unfolded Inr] True u(2)])
    next
      case False
      then have "P req g u (de_world s)" using all_ok_state [OF ok, of req] u(1) start by (simp add: request_ok_def verified_ok_def)
      then show ?thesis using st by (simp add: steady_def)
    qed
    then have "all_ok fm P (snd (set_ends req g c t))" by (rule sound_set_ends [OF okt])
    then show ?thesis using run Inr by (simp add: bindA_def)
  qed
qed

lemma sound_retry_group:
  assumes "storage_laws env fm P" "future_laws env fm"
  shows "sound.keeps fm P (retry_cpu_group env req ra gc)"
proof (cases gc)
  case (Pair g caches)
  show ?thesis unfolding retry_cpu_group_def Pair prod.case
  proof (rule sound.keeps_bind [OF sound.keeps_lift])
    fix slots
    show "sound.keeps fm P (bindA (readA (\<lambda>s. group_end (rs_committed (state_of req s)) g)) (\<lambda>start.
        bindA (store_cpu_group env req (ra_tokens ra) caches slots g start (ra_configs ra) (ra_base ra)) (\<lambda>c. set_ends req g c)))"
      unfolding sound.keeps_def bindA_readA using sound_fill [OF assms] by blast
  qed
qed

lemma sound_retry:
  assumes "storage_laws env fm P" "future_laws env fm"
  shows "sound.keeps fm P (retry_direct_cpu env req ra)"
  unfolding retry_direct_cpu_def by (intro sound.keeps_intros sound_retry_group assms)

lemma bind_lift: "bindA (liftA (Inr x)) f s = f x s"
  by (simp add: bindA_def liftA_def)

lemma sound_complete_group:
  assumes laws: "storage_laws env fm P" "future_laws env fm"
  shows "sound.keeps fm P (complete_group env req ra required gc)"
proof -
  obtain g caches where gc: "gc = (g, caches)" by (metis surj_pair)
  show ?thesis unfolding sound.keeps_def complete_group_def gc prod.case bindA_readA
  proof (intro allI impI)
    fix s :: "'a direct_engine" assume ok: "all_ok fm P s"
    define st where "st = state_of req s"
    define start where "start = group_end (rs_committed st) g"
    show "all_ok fm P (snd ((if group_end (rs_committed (state_of req s)) g \<ge> required
       then on_state req (\<lambda>st. st\<lparr>rs_committed := default_end g required (rs_committed st),
              rs_submitted := default_end g required (rs_submitted st)\<rparr>)
       else bindA (liftA (lookup (ra_slots ra) g)) (\<lambda>slots.
         bindA (store_cpu_group env req (ra_tokens ra) caches slots g (group_end (rs_committed (state_of req s)) g) (ra_configs ra) (ra_base ra)) (\<lambda>c.
           set_ends req g c))) s))"
    proof (cases "start \<ge> required")
      case True
      define st' where "st' = st\<lparr>rs_committed := default_end g required (rs_committed st), rs_submitted := default_end g required (rs_submitted st)\<rparr>"
      have old: "request_ok fm P (de_retry s) (de_world s) req st" unfolding st_def by (rule all_ok_state [OF ok])
      have c: "P req g u (de_world s)" if "0 \<le> u" "u < required" for u
        using old that True by (auto simp: request_ok_def verified_ok_def start_def)
      have sub: "set (rs_submitted st') \<subseteq> insert (g, required) (set (rs_submitted st))"
        by (simp add: st'_def update_subset default_end_def) blast
      have "verified_ok (\<lambda>g u. P req g u (de_world s)) (rs_committed st')"
        using old c by (auto simp: request_ok_def verified_ok_def st'_def group_end_update default_end_def)
      moreover have "\<forall>(h, e) \<in> set (rs_submitted st'). \<forall>u. 0 \<le> u \<longrightarrow> u < e \<longrightarrow> P req h u (de_world s) \<or>
          (\<exists>f \<in> set (rs_futures st). stores_token (fm_batch fm f) h u)"
        using sub old c unfolding request_ok_def by fast
      ultimately have "request_ok fm P (de_retry s) (de_world s) req st'" using old by (simp add: request_ok_def st'_def)
      from all_ok_update [OF ok this] show ?thesis
        using True by (simp add: on_state_effect st'_def st_def start_def)
    next
      case False
      show ?thesis
      proof (cases "lookup (ra_slots ra) g")
        case (Inl e)
        then show ?thesis using False ok by (simp add: start_def st_def liftA_def bindA_def)
      next
        case (Inr slots)
        then show ?thesis using False sound_fill [OF laws ok start_def [unfolded st_def]]
          by (simp add: start_def st_def bind_lift)
      qed
    qed
  qed
qed

lemma sound_quiet_call:
  assumes "storage_laws env fm P" "future_laws env fm" "harmless env fm m" "retains P m"
  shows "sound.keeps fm P (blocking env m)"
  by (rule sound_steady [OF steadily [OF keeps_blocking [OF assms(2,3)] hold_blocking [OF assms(1,4)]]])

lemma sound_finish_remote:
  assumes "storage_laws env fm P" "future_laws env fm"
  shows "sound.keeps fm P (finish_remote_fill env req required)"
  unfolding finish_remote_fill_def
  by (intro sound.keeps_intros sound_quiet_call [OF assms] harmless_calls [OF assms(2)] storage_calls [OF assms(1)])

lemma sound_finalize:
  assumes "storage_laws env fm P" "future_laws env fm"
  shows "sound.keeps fm P (finalize_direct_store env req groups final)"
  unfolding finalize_direct_store_def
  by (intro sound.keeps_intros sound_finish_remote [OF assms] sound_on_state) simp

lemma sound_turn:
  assumes "storage_laws env fm P" "future_laws env fm"
  shows "sound.keeps fm P (take_turn env x)"
  by (rule soundly [OF keeps_turn [OF assms(2)] hold_turn [OF assms(1)]])

lemma sound_accept: "sound.keeps fm P (accept_store req n given base verified)"
  unfolding accept_store_def Let_def by (intro sound.keeps_intros sound_on_state) simp_all

lemma sound_event:
  assumes "storage_laws env fm P"
  shows "sound.keeps fm P (source_ready_event env req token_end required)"
  unfolding source_ready_event_def record_fallback_def Let_def
  by (intro sound.keeps_intros sound_on_state sound_steady [OF steady_world] storage_calls [OF assms]) simp_all

lemma sound_enqueue:
  assumes "storage_laws env fm P" "future_laws env fm"
  shows "sound.keeps fm P (enqueue_store env work)"
  unfolding enqueue_store_def add_pending_def drop_pending_def
  by (intro sound.keeps_intros sound_quiet_call [OF assms] sound_write harmless_calls [OF assms(2)] storage_calls [OF assms(1)]) simp_all

lemma sound_finished: "sound.keeps fm P (get_finished_stores env finished)"
  unfolding get_finished_stores_def Let_def by (intro sound.keeps_intros sound_write) simp

lemma sound_delete: "sound.keeps fm P (writeA (\<lambda>s. s\<lparr>de_states := AList.delete req (de_states s)\<rparr>))"
  by (rule sound.keeps_write) (auto simp: all_ok_def delete_conv')

lemma sound_drop:
  assumes "storage_laws env fm P" "future_laws env fm"
  shows "sound.keeps fm P (drop_direct_store_states env reqs)"
  unfolding drop_direct_store_states_def drop_state_def Let_def
  by (intro sound.keeps_intros sound_delete sound_steady [OF steady_world] sound_quiet_call [OF assms]
    harmless_calls [OF assms(2)] storage_calls [OF assms(1)])

text \<open>Composite calls that returned.\<close>

lemma fall_back_ok:
  assumes laws: "storage_laws env fm P" "future_laws env fm" and b: "balanced env fm x s" and ok: "all_ok fm P s"
    and run: "fall_back env req ra final s = (Inr (), t)"
  shows "all_ok fm P t"
proof -
  obtain ws s1 where one: "wait_for_direct_stores env [req] s = (Inr ws, s1)"
    and rest: "seqA (retry_direct_cpu env req ra) (finalize_direct_store env req (map fst (ra_caches ra)) final) s1 = (Inr (), t)"
    using run by (auto simp: fall_back_def act_runs(2))
  show ?thesis
    by (rule sound_at [OF sound.keeps_seq [OF sound_retry [OF laws] sound_finalize [OF laws]] rest wait_ok [OF laws b ok one]])
qed

lemma publish_ok:
  assumes laws: "storage_laws env fm P" "future_laws env fm" and b: "balanced env fm x s" and ok: "all_ok fm P s"
    and run: "publish_final env req ra required s = (Inr (), t)"
  shows "all_ok fm P t"
proof -
  define s1 where "s1 = s\<lparr>de_pending := pending_add req (de_pending s)\<rparr>"
  have b1: "balanced env fm (x(req := x req + 1)) s1" using balanced_more [OF b] by (simp add: s1_def)
  have ok1: "all_ok fm P s1" using ok by (simp add: all_ok_def s1_def)
  obtain s4 y where m: "seqA (wait_for_direct_stores env [req]) (seqA (eachA (complete_group env req ra required) (ra_caches ra))
           (finalize_direct_store env req (map fst (ra_caches ra)) True)) s1 = (Inr (), s4)" and dr: "drop_pending req s4 = (Inr y, t)"
    using run unfolding publish_final_def seq_add_pending s1_def [symmetric] finally_Inr by blast
  obtain ws s2 where one: "wait_for_direct_stores env [req] s1 = (Inr ws, s2)"
    and rest: "seqA (eachA (complete_group env req ra required) (ra_caches ra))
           (finalize_direct_store env req (map fst (ra_caches ra)) True) s2 = (Inr (), s4)"
    using m by (auto simp: act_runs(2))
  have "sound.keeps fm P (seqA (eachA (complete_group env req ra required) (ra_caches ra))
           (finalize_direct_store env req (map fst (ra_caches ra)) True))"
    by (intro sound.keeps_intros sound_complete_group sound_finalize laws)
  then have "all_ok fm P s4" using rest wait_ok [OF laws b1 ok1 one] by (rule sound_at)
  moreover have "t = s4\<lparr>de_pending := pending_drop req (de_pending s4)\<rparr>" using dr by (simp add: drop_pending_def writeA_def)
  ultimately show ?thesis by (simp add: all_ok_def)
qed

lemma pending_ok:
  assumes laws: "storage_laws env fm P" "future_laws env fm" and b: "balanced env fm x s" and ok: "all_ok fm P s"
    and run: "wait_for_pending_stores env schedule reqs s = Some (Inr found, t)"
  shows "all_ok fm P t"
proof -
  obtain r1 s1 where w: "wait_for_direct_stores env reqs s = (r1, s1)" by (metis surj_pair)
  obtain ws where r1: "r1 = Inr ws" using run w by (cases r1) (auto simp: wait_for_pending_stores_def)
  have ok1: "all_ok fm P s1" by (rule wait_ok [OF laws b ok w [unfolded r1]])
  have "t = s1 \<or> await_stores env schedule reqs s1 = Some t"
    using run w r1 by (auto simp: wait_for_pending_stores_def Let_def split: if_splits)
  then show ?thesis
  proof
    assume "await_stores env schedule reqs s1 = Some t"
    then have "all_ok fm P t \<and> list_all (\<lambda>r. \<not> is_pending r t) reqs"
      by (rule await_keeps) (use ok1 sound_turn [OF laws] in \<open>auto simp: sound.keeps_def\<close>)
    then show ?thesis ..
  qed (use ok1 in simp)
qed

section \<open>Registering, presence, adoption\<close>

lemma sound_register:
  assumes ok: "all_ok fm P s" and c: "\<forall>u. 0 \<le> u \<longrightarrow> u < verified \<longrightarrow> P req g u (de_world s)"
  shows "all_ok fm P (snd (on_state req (register_group verified g) s))"
proof -
  define st where "st = state_of req s"
  define st' where "st' = register_group verified g st"
  have old: "request_ok fm P (de_retry s) (de_world s) req st" unfolding st_def by (rule all_ok_state [OF ok])
  have sub: "set (rs_submitted st') \<subseteq> insert (g, verified) (set (rs_submitted st))"
    by (simp add: st'_def register_group_def update_subset) blast
  have "verified_ok (\<lambda>g u. P req g u (de_world s)) (rs_committed st')"
    using old c by (auto simp: request_ok_def verified_ok_def st'_def register_group_def group_end_update)
  moreover have "\<forall>(h, e) \<in> set (rs_submitted st'). \<forall>u. 0 \<le> u \<longrightarrow> u < e \<longrightarrow> P req h u (de_world s) \<or>
      (\<exists>f \<in> set (rs_futures st). stores_token (fm_batch fm f) h u)"
    using sub old c unfolding request_ok_def by fast
  ultimately have "request_ok fm P (de_retry s) (de_world s) req st'" using old by (simp add: request_ok_def st'_def register_group_def)
  from all_ok_update [OF ok this] show ?thesis by (simp add: on_state_effect st'_def st_def)
qed

lemma group_end_in: "0 < group_end d g \<Longrightarrow> (g, group_end d g) \<in> set d"
  by (auto simp: group_end_def dest: map_of_SomeD split: option.splits)

lemma sound_present:
  assumes ok: "all_ok fm P s"
    and c: "\<forall>e u. map_of candidate_ends g = Some e \<longrightarrow> 0 \<le> u \<longrightarrow> u < e \<longrightarrow>
      P req g u (de_world s) \<or> outstanding fm (state_of req s) g u"
  shows "all_ok fm P (snd (on_state req (advance_present candidate_ends g) s))"
proof -
  define st where "st = state_of req s"
  define st1 where "st1 = (case map_of candidate_ends g of None \<Rightarrow> st
          | Some e \<Rightarrow> st\<lparr>rs_submitted := raise_end (g, e) (rs_submitted st)\<rparr>)"
  define st' where "st' = advance_present candidate_ends g st"
  have old: "request_ok fm P (de_retry s) (de_world s) req st" unfolding st_def by (rule all_ok_state [OF ok])
  have sub: "P req h u (de_world s) \<or> (\<exists>f \<in> set (rs_futures st). stores_token (fm_batch fm f) h u)"
    if e: "(h, e) \<in> set (rs_submitted st1)" "0 \<le> u" "u < e" for h e u
  proof (cases "map_of candidate_ends g")
    case None
    then show ?thesis using old that by (auto simp: request_ok_def st1_def)
  next
    case (Some x)
    then have "(h, e) \<in> set (raise_end (g, x) (rs_submitted st))" using e(1) by (simp add: st1_def)
    from raise_end_subset [OF this e(2,3)] show ?thesis
      using old e(2) c Some by (auto simp: request_ok_def outstanding_def st_def)
  qed
  have st1: "rs_futures st1 = rs_futures st" "rs_committed st1 = rs_committed st" by (simp_all add: st1_def split: option.split)
  have st': "st' = (if rs_futures st1 \<noteq> [] then st1 else st1\<lparr>rs_committed :=
      AList.update g (max (group_end (rs_committed st1) g) (group_end (rs_submitted st1) g)) (rs_committed st1)\<rparr>)"
    by (simp add: st'_def advance_present_def st1_def Let_def)
  have "verified_ok (\<lambda>g u. P req g u (de_world s)) (rs_committed st')"
  proof (cases "rs_futures st = []")
    case True
    have "P req g u (de_world s)" if "0 \<le> u" "u < group_end (rs_submitted st1) g" for u
      using sub [OF group_end_in that] that True by simp
    then show ?thesis using old True by (auto simp: request_ok_def verified_ok_def st' st1 group_end_update less_max_iff_disj)
  next
    case False
    then show ?thesis using old by (simp add: request_ok_def st' st1)
  qed
  moreover have "rs_futures st' = rs_futures st" "rs_submitted st' = rs_submitted st1" by (simp_all add: st' st1)
  ultimately have "request_ok fm P (de_retry s) (de_world s) req st'" using old sub by (auto simp: request_ok_def)
  from all_ok_update [OF ok this] show ?thesis by (simp add: on_state_effect st'_def st_def)
qed

lemma sound_adopt_ends:
  assumes ok: "all_ok fm P s" and c: "\<forall>u. 0 \<le> u \<longrightarrow> u < e \<longrightarrow> P req g u (de_world s)"
  shows "all_ok fm P (snd (on_state req (\<lambda>st. st\<lparr>rs_submitted := raise_end (g, e) (rs_submitted st),
           rs_committed := raise_end (g, e) (rs_committed st)\<rparr>) s))"
proof -
  define st where "st = state_of req s"
  define st' where "st' = st\<lparr>rs_submitted := raise_end (g, e) (rs_submitted st), rs_committed := raise_end (g, e) (rs_committed st)\<rparr>"
  have old: "request_ok fm P (de_retry s) (de_world s) req st" unfolding st_def by (rule all_ok_state [OF ok])
  have "verified_ok (\<lambda>g u. P req g u (de_world s)) (rs_committed st')"
    using old c by (auto simp: request_ok_def st'_def intro: raise_end_ok)
  moreover have "P req h u (de_world s) \<or> (\<exists>f \<in> set (rs_futures st). stores_token (fm_batch fm f) h u)"
    if m: "(h, x) \<in> set (rs_submitted st')" "0 \<le> u" "u < x" for h x u
    using raise_end_subset [OF _ m(2,3), of h g e "rs_submitted st"] m(1) old c m(2) by (fastforce simp: request_ok_def st'_def)
  ultimately have "request_ok fm P (de_retry s) (de_world s) req st'" using old by (auto simp: request_ok_def st'_def)
  from all_ok_update [OF ok this] show ?thesis by (simp add: on_state_effect st'_def st_def)
qed

text \<open>What a call keeps as long as the world stands still.\<close>

interpretation still: frame "\<lambda>s t. de_world t = de_world s \<and> (C (de_world s) \<longrightarrow> all_ok fm P s \<longrightarrow> all_ok fm P t)"
  for fm :: "'w future_model" and P :: "'w stored" and C :: "'w \<Rightarrow> bool"
  by unfold_locales auto

lemma still_on_state:
  assumes "\<And>st. rs_committed (g st) = rs_committed st \<and> rs_futures (g st) = rs_futures st \<and> rs_submitted (g st) = rs_submitted st"
  shows "still.keeps C fm P (on_state req g)"
proof -
  have "sound.keeps fm P (on_state req g)" by (rule sound_on_state [OF assms])
  then show ?thesis unfolding still.keeps_def sound.keeps_def by (auto simp: on_state_effect)
qed

lemma adopt_ok:
  fixes P :: "'w stored"
  assumes ok: "all_ok fm P s" and c: "\<forall>u. 0 \<le> u \<longrightarrow> u < lr_end r \<longrightarrow> P (lr_request r) (lr_group r) u (de_world s)"
  shows "all_ok fm P (snd (adopt_result chunk_size r s))"
proof -
  define C where "C = (\<lambda>w. \<forall>u. 0 \<le> u \<longrightarrow> u < lr_end r \<longrightarrow> P (lr_request r) (lr_group r) u w)"
  have last: "still.keeps C fm P (on_state (lr_request r) (\<lambda>st. st\<lparr>rs_submitted := raise_end (lr_group r, lr_end r) (rs_submitted st),
           rs_committed := raise_end (lr_group r, lr_end r) (rs_committed st)\<rparr>))"
    unfolding still.keeps_def using sound_adopt_ends by (auto simp: C_def on_state_effect)
  have "still.keeps C fm P (adopt_result chunk_size r)"
    unfolding adopt_result_def by (intro still.keeps_intros still_on_state last) simp_all
  from still.keeps_at [OF this, of s] show ?thesis using ok c by (simp add: C_def)
qed

section \<open>Runs whose waits returned\<close>

text \<open>
  The calls of the engine, each with what its caller promises: a verified prefix is stored, present pages are
  stored or outstanding, a batch has no gap before it, an adopted store is complete.  Waiting calls appear when
  they returned; every other call with any result.
\<close>

inductive sound_step :: "'w direct_env \<Rightarrow> 'w future_model \<Rightarrow> 'w stored \<Rightarrow> 'w direct_engine \<Rightarrow> 'w direct_engine \<Rightarrow> bool"
  for env fm P where
  sound_turns: "sound_step env fm P s (snd (take_turn env x s))"
| sound_accepts: "sound_step env fm P s (snd (accept_store req n given base verified s))"
| sound_registers: "\<forall>u. 0 \<le> u \<longrightarrow> u < verified \<longrightarrow> P req g u (de_world s) \<Longrightarrow>
    sound_step env fm P s (snd (on_state req (register_group verified g) s))"
| sound_events: "sound_step env fm P s (snd (source_ready_event env req token_end required s))"
| sound_presents: "\<forall>e u. map_of candidate_ends g = Some e \<longrightarrow> 0 \<le> u \<longrightarrow> u < e \<longrightarrow>
      P req g u (de_world s) \<or> outstanding fm (state_of req s) g u \<Longrightarrow>
    sound_step env fm P s (snd (on_state req (advance_present candidate_ends g) s))"
| sound_tracks: "batch_fits fm P b s \<Longrightarrow> sound_step env fm P s (snd (track_batch env b ra s))"
| sound_waits: "wait_for_direct_stores env reqs s = (Inr found, t) \<Longrightarrow> sound_step env fm P s t"
| sound_falls: "fall_back env req ra final s = (Inr (), t) \<Longrightarrow> sound_step env fm P s t"
| sound_groups: "sound_step env fm P s (snd (retry_cpu_group env req ra gc s))"
| sound_finalizes: "sound_step env fm P s (snd (finalize_direct_store env req groups final s))"
| sound_publishes: "publish_final env req ra required s = (Inr (), t) \<Longrightarrow> sound_step env fm P s t"
| sound_adopts: "\<forall>u. 0 \<le> u \<longrightarrow> u < lr_end r \<longrightarrow> P (lr_request r) (lr_group r) u (de_world s) \<Longrightarrow>
    sound_step env fm P s (snd (adopt_result chunk_size r s))"
| sound_enqueues: "sound_step env fm P s (snd (enqueue_store env work s))"
| sound_finishes: "sound_step env fm P s (snd (get_finished_stores env finished s))"
| sound_pendings: "wait_for_pending_stores env schedule reqs s = Some (Inr found, t) \<Longrightarrow> sound_step env fm P s t"
| sound_drops: "sound_step env fm P s (snd (drop_direct_store_states env reqs s))"

lemma sound_is_direct: "sound_step env fm P s t \<Longrightarrow> direct_step env s t"
proof (induction rule: sound_step.induct)
  case (sound_waits reqs s found t)
  then show ?case using step_wait [of env s reqs] by simp
next
  case (sound_falls req ra final s t)
  then show ?case using step_fall_back [of env s req ra final] by simp
next
  case (sound_publishes req ra required s t)
  then show ?case using step_publish [of env s req ra required] by simp
qed (auto intro: direct_step.intros)

lemma sound_step_ok:
  assumes laws: "storage_laws env fm P" "future_laws env fm" and b: "balanced env fm x s" and ok: "all_ok fm P s"
    and step: "sound_step env fm P s t"
  shows "all_ok fm P t"
  using step
proof cases
  case (sound_tracks b' ra)
  show ?thesis unfolding sound_tracks
    by (rule track_ok [OF laws b ok sound_tracks(2) surjective_pairing])
next
  case (sound_waits reqs found)
  then show ?thesis by (rule wait_ok [OF laws b ok])
next
  case (sound_falls req ra final)
  then show ?thesis by (rule fall_back_ok [OF laws b ok])
next
  case (sound_publishes req ra required)
  then show ?thesis by (rule publish_ok [OF laws b ok])
next
  case (sound_pendings schedule reqs found)
  then show ?thesis by (rule pending_ok [OF laws b ok])
next
  case (sound_registers verified req g)
  show ?thesis unfolding sound_registers(1) by (rule sound_register [OF ok sound_registers(2)])
next
  case (sound_presents candidate_ends g req)
  show ?thesis unfolding sound_presents(1) by (rule sound_present [OF ok sound_presents(2)])
next
  case (sound_adopts r chunk_size)
  show ?thesis unfolding sound_adopts(1) by (rule adopt_ok [OF ok sound_adopts(2)])
qed (use ok sound_turn [OF laws] sound_accept [of fm P] sound_event [OF laws(1)] sound_retry_group [OF laws] sound_finalize [OF laws]
    sound_enqueue [OF laws] sound_finished [of fm P env] sound_drop [OF laws] in \<open>auto simp: sound.keeps_def\<close>)

inductive sound_reachable :: "'w direct_env \<Rightarrow> 'w future_model \<Rightarrow> 'w stored \<Rightarrow> 'w \<Rightarrow> 'w direct_engine \<Rightarrow> bool"
  for env fm P w where
  sound_start: "sound_reachable env fm P w (fresh_engine w)"
| sound_next: "sound_reachable env fm P w s \<Longrightarrow> sound_step env fm P s t \<Longrightarrow> sound_reachable env fm P w t"

lemma sound_is_reachable: "sound_reachable env fm P w s \<Longrightarrow> direct_reachable env w s"
  by (induction rule: sound_reachable.induct) (auto intro: direct_reachable.intros sound_is_direct)

lemma sound_reachable_ok:
  assumes laws: "storage_laws env fm P" "future_laws env fm" and start: "fm_issued fm w = {}" and run: "sound_reachable env fm P w s"
  shows "all_ok fm P s"
  using run
proof induction
  case sound_start
  then show ?case by (simp add: all_ok_def fresh_engine_def)
next
  case (sound_next s t)
  have "balanced env fm (\<lambda>_. 0) s" by (rule reachable_balanced [OF laws(2) start sound_is_reachable [OF sound_next(1)]])
  then show ?case using sound_step_ok [OF laws] sound_next by blast
qed

end
