(* ===== verification/DirectStoreProperties.thy ===== *)
theory DirectStoreProperties
  imports DirectStoreRuns
begin

text \<open>
  What the direct store promises: published ends are stored, finished requests have nothing in flight; with a
  concrete storage on which the promises are witnessed, and a run that shows why waits that raise are left out.
\<close>

section \<open>A storage that exists\<close>

text \<open>
  Puts of one request, two tokens each, that end as they are waited for, the second one with a failure; a
  layerwise store that works, or raises.  The world is the futures' states and the CPU path's stores.
\<close>

definition demo_key :: cache_key where
  "demo_key = \<lparr>ck_model_name = ''m'', ck_world_size = 1, ck_worker_id = 0, ck_chunk_hash = HashI 7, ck_dtype = \<lparr>dt_name = ''int8'', dt_itemsize = 1\<rparr>,
     ck_request_configs = [], ck_kv_group = 0, ck_tags = []\<rparr>"

definition demo_batch :: "nat \<Rightarrow> page_batch" where
  "demo_batch n = \<lparr>db_req_id = ''req'', db_keys = [demo_key], db_ptrs = [[int n]], db_sizes = [[64]], db_owners = [],
     db_ready_event = None, db_group_ends = [(0, 2 * (int n + 1))], db_ranges = [(2 * int n, 2 * (int n + 1))], db_ready_events = []\<rparr>"

type_synonym demo_world = "future_state list \<times> (string \<times> int \<times> int \<times> int) list"

definition demo_error :: exn where
  "demo_error = RuntimeError ''external storage failed''"

definition demo_put :: "page_batch \<Rightarrow> (demo_world, nat) act" where
  "demo_put b = (\<lambda>(fs, cs). if b = demo_batch (length fs) then (Inr (length fs), (fs @ [Running], cs)) else (Inl demo_error, (fs, cs)))"

definition demo_status :: "nat \<Rightarrow> demo_world \<Rightarrow> future_state" where
  "demo_status f w = (if f < length (fst w) then fst w ! f else Running)"

definition demo_result :: "nat \<Rightarrow> (demo_world, unit) act" where
  "demo_result f = (\<lambda>(fs, cs).
     if length fs \<le> f then (Inl demo_error, (fs, cs))
     else if fs ! f = Running
     then (if f = 1 then (Inl demo_error, (fs[f := Failed demo_error], cs)) else (Inr (), (fs[f := Succeeded], cs)))
     else (if fs ! f = Succeeded then Inr () else Inl demo_error, (fs, cs)))"

definition demo_layer :: "bool \<Rightarrow> string \<Rightarrow> int list \<Rightarrow> nat \<Rightarrow> nat \<Rightarrow> int \<Rightarrow> int \<Rightarrow> pyval \<Rightarrow> int \<Rightarrow> (demo_world, int option) act" where
  "demo_layer works req tokens caches slots g start configs base = (\<lambda>(fs, cs).
     if works then (Inr (Some (int (length tokens))), (fs, (req, g, start, int (length tokens)) # cs)) else (Inl demo_error, (fs, cs)))"

definition demo_env :: "bool \<Rightarrow> demo_world direct_env" where
  "demo_env works = \<lparr>dv_queue_max = 0, dv_async = True, dv_force_layerwise = False, dv_status = demo_status,
     dv_turns = \<lambda>_. [CallbackTurn 0, WorkerTurn], dv_wait_job = \<lambda>_. retA False, dv_result = demo_result, dv_put = demo_put,
     dv_key_string = \<lambda>_. ''key'', dv_layer_key = \<lambda>_. False, dv_store_layer = demo_layer works, dv_sync_wait = retA (),
     dv_poll_layerwise = \<lambda>_. retA (), dv_latch_fatal = \<lambda>_. retA (), dv_remote_wait = \<lambda>_. retA (), dv_has_handoff = \<lambda>_ _. False,
     dv_terminal = \<lambda>_ _. None, dv_remote_finish = \<lambda>_ _ _ _. retA (), dv_remote_release = \<lambda>_ _ _. retA True,
     dv_release_leases = \<lambda>_. retA (), dv_forget_live = \<lambda>_. retA (), dv_queue_put = \<lambda>_. retA (), dv_pipeline = \<lambda>_. retA (),
     dv_record_event = retA 0\<rparr>"

definition demo_model :: "demo_world future_model" where
  "demo_model = \<lparr>fm_batch = demo_batch, fm_issued = \<lambda>w. {0..<length (fst w)}\<rparr>"

definition demo_stored :: "demo_world stored" where
  "demo_stored req g u w \<longleftrightarrow> list_ex (\<lambda>(f, st). st = Succeeded \<and> req = ''req'' \<and> stores_token (demo_batch f) g u) (zip [0..<length (fst w)] (fst w)) \<or>
     list_ex (\<lambda>(r, h, lo, hi). r = req \<and> h = g \<and> lo \<le> u \<and> u < hi) (snd w)"

lemma demo_calls:
  "dv_status (demo_env works) = demo_status" "dv_wait_job (demo_env works) f = retA False" "dv_result (demo_env works) = demo_result"
  "dv_put (demo_env works) = demo_put" "dv_store_layer (demo_env works) = demo_layer works" "dv_sync_wait (demo_env works) = retA ()"
  "dv_poll_layerwise (demo_env works) rs = retA ()" "dv_latch_fatal (demo_env works) i = retA ()"
  "dv_remote_wait (demo_env works) n = retA ()" "dv_remote_finish (demo_env works) r n a b = retA ()"
  "dv_remote_release (demo_env works) r n c = retA True" "dv_release_leases (demo_env works) r = retA ()"
  "dv_forget_live (demo_env works) r = retA ()" "dv_queue_put (demo_env works) x = retA ()" "dv_pipeline (demo_env works) x = retA ()"
  "dv_record_event (demo_env works) = retA 0"
  "fm_issued demo_model w = {0..<length (fst w)}" "fm_batch demo_model = demo_batch"
  by (simp_all add: demo_env_def demo_model_def)

lemma demo_stored_iff: "demo_stored req g u (fs, cs) \<longleftrightarrow>
   (\<exists>f < length fs. fs ! f = Succeeded \<and> req = ''req'' \<and> stores_token (demo_batch f) g u) \<or>
   (\<exists>(r, h, lo, hi) \<in> set cs. r = req \<and> h = g \<and> lo \<le> u \<and> u < hi)"
  by (force simp: demo_stored_def list_ex_iff in_set_zip)

lemma demo_idle: "harmless (demo_env works) demo_model (retA x)" "retains demo_stored (retA x)"
  by (simp_all add: harmless_def retA_def world_step_refl retains_def)

lemma demo_future_laws: "future_laws (demo_env works) demo_model"
proof -
  have "harmless (demo_env works) demo_model (demo_result f)" for f
    by (auto simp: harmless_def demo_result_def world_step_def settled_stay_def demo_calls demo_status_def nth_list_update)
  moreover have "harmless (demo_env works) demo_model (demo_layer works a b c d e g h k)" for a b c d e g h k
    by (auto simp: harmless_def demo_layer_def world_step_def settled_stay_def demo_calls demo_status_def)
  moreover have "case demo_result f w of (r, w') \<Rightarrow> case r of
        Inl _ \<Rightarrow> demo_status f w' \<noteq> Running \<and> demo_status f w' \<noteq> Succeeded | Inr _ \<Rightarrow> demo_status f w' = Succeeded"
    if "f < length (fst w)" for f w
    using that by (cases w) (auto simp: demo_result_def demo_status_def)
  moreover have "case demo_put b w of (r, w') \<Rightarrow> settled_stay (demo_env works) demo_model w w' \<and> (case r of
        Inl _ \<Rightarrow> fm_issued demo_model w' = fm_issued demo_model w
      | Inr f \<Rightarrow> f \<notin> fm_issued demo_model w \<and> fm_issued demo_model w' = insert f (fm_issued demo_model w) \<and> fm_batch demo_model f = b)" for b w
    by (cases w) (auto simp: demo_put_def settled_stay_def demo_calls demo_status_def nth_append)
  ultimately show ?thesis
    unfolding future_laws_def demo_calls
    by (intro conjI allI) (simp_all add: demo_idle(1) del: split_paired_All)
qed

lemma demo_storage_laws: "storage_laws (demo_env works) demo_model demo_stored"
proof -
  have "retains demo_stored (demo_result f)" for f
    by (auto simp: retains_def demo_result_def demo_stored_iff nth_list_update) (metis future_state.distinct(5))
  moreover have "retains demo_stored (demo_put b)" for b
    by (auto simp: retains_def demo_put_def demo_stored_iff nth_append)
  moreover have "retains demo_stored (demo_layer works a b c d e g h k)" for a b c d e g h k
    by (auto simp: retains_def demo_layer_def demo_stored_iff)
  moreover have "demo_stored (owner demo_model f) g u w"
    if "f \<in> fm_issued demo_model w" "demo_status f w = Succeeded" "stores_token (fm_batch demo_model f) g u" for f g u w
    using that by (cases w) (auto simp: demo_stored_iff owner_def demo_calls demo_batch_def demo_status_def)
  moreover have "demo_stored req g u w3"
    if "demo_layer works req tokens caches slots g start configs base w = (Inr (Some c), w1)" "later (demo_env works) demo_model demo_stored w1 w2"
      "retA () w2 = (Inr (), w3)" "start \<le> u" "u < c" for req tokens caches slots g start configs base w c w1 w2 w3 u
  proof -
    have "demo_stored req g u w1" using that(1,4,5) by (cases w) (auto simp: demo_layer_def demo_stored_iff split: if_splits)
    then show ?thesis using that(2,3) by (auto simp: later_def retA_def)
  qed
  ultimately show ?thesis
    unfolding storage_laws_def demo_calls
    by (intro conjI allI impI) (simp_all add: demo_calls demo_idle(2) del: split_paired_All)
qed

definition demo_retry :: retry_args where
  "demo_retry = \<lparr>ra_tokens = [1, 2, 3, 4], ra_caches = [(0, 0)], ra_slots = [(0, 0)], ra_configs = PNone, ra_base = 0, ra_keys = [], ra_ends = []\<rparr>"

definition demo_start :: "demo_world direct_engine" where
  "demo_start = fresh_engine ([], [])"

definition demo_one :: "bool \<Rightarrow> demo_world direct_engine" where
  "demo_one works = snd (track_batch (demo_env works) (demo_batch 0) demo_retry demo_start)"

definition demo_two :: "bool \<Rightarrow> demo_world direct_engine" where
  "demo_two works = snd (track_batch (demo_env works) (demo_batch 1) demo_retry (demo_one works))"

definition demo_three :: "bool \<Rightarrow> demo_world direct_engine" where
  "demo_three works = snd (wait_for_direct_stores (demo_env works) [''req''] (demo_two works))"

definition demo_four :: "bool \<Rightarrow> demo_world direct_engine" where
  "demo_four works = snd (wait_for_direct_stores (demo_env works) [''req''] (demo_three works))"

lemma demo_waits:
  "fst (wait_for_direct_stores (demo_env True) [''req''] (demo_two True)) = Inr [''req'']"
  "committed_ends ''req'' (demo_three True) = [(0, 4)]"
  "fst (wait_for_direct_stores (demo_env False) [''req''] (demo_two False)) = Inl demo_error"
  "fst (wait_for_direct_stores (demo_env False) [''req''] (demo_three False)) = Inr [''req'']"
  "committed_ends ''req'' (demo_four False) = [(0, 4)]"
  "de_world (demo_four False) = ([Succeeded, Failed demo_error], [])"
  "rs_futures (state_of ''req'' (demo_one True)) = [0]"
  by code_simp+

lemma demo_issued: "fm_issued demo_model ([], []) = {}"
  by (simp add: demo_model_def)

lemma demo_tokens: "stores_token (demo_batch n) g u \<longleftrightarrow> g = 0 \<and> 2 * int n \<le> u \<and> u < 2 * (int n + 1)"
  by (auto simp: stores_token_def demo_batch_def demo_key_def)

lemma demo_fits:
  "batch_fits demo_model demo_stored (demo_batch 0) demo_start"
  "batch_fits demo_model demo_stored (demo_batch 1) (demo_one True)"
proof -
  have b: "below_end (demo_batch n)" for n
    by (auto simp: below_end_def demo_tokens) (simp add: demo_batch_def)
  have ends: "db_group_ends (demo_batch n) = [(0, 2 * (int n + 1))]" "db_req_id (demo_batch n) = ''req''" for n
    by (simp_all add: demo_batch_def)
  show "batch_fits demo_model demo_stored (demo_batch 0) demo_start"
    by (auto simp: batch_fits_def b ends demo_tokens)
  have "outstanding demo_model (state_of ''req'' (demo_one True)) 0 u" if "0 \<le> u" "u < 2" for u
    using that by (simp add: outstanding_def demo_waits(7) demo_model_def demo_tokens)
  then show "batch_fits demo_model demo_stored (demo_batch 1) (demo_one True)"
    by (auto simp: batch_fits_def b ends demo_tokens)
qed

lemma demo_run: "sound_reachable (demo_env True) demo_model demo_stored ([], []) (demo_three True)"
proof -
  have "sound_reachable (demo_env True) demo_model demo_stored ([], []) demo_start"
    unfolding demo_start_def by (rule sound_start)
  then have "sound_reachable (demo_env True) demo_model demo_stored ([], []) (demo_one True)"
    unfolding demo_one_def by (rule sound_next) (rule sound_tracks [OF demo_fits(1)])
  then have "sound_reachable (demo_env True) demo_model demo_stored ([], []) (demo_two True)"
    unfolding demo_two_def by (rule sound_next) (rule sound_tracks [OF demo_fits(2)])
  then show ?thesis
    by (rule sound_next) (rule sound_waits [of _ "[''req'']" _ "[''req'']"], simp add: demo_three_def demo_waits(1) prod_eq_iff)
qed

section \<open>Published ends are stored\<close>

text \<open>
  C3. Every token below an end that the direct store publishes for a request and group
  (\<open>direct_store_committed_ends\<close>) is stored, in every run of its calls and of the other threads in which the
  calls that wait returned: whatever puts failed, were repaired through the CPU, are still outstanding, or raised.
\<close>

theorem committed_tokens_are_stored:
  assumes "storage_laws env fm P" "future_laws env fm" "fm_issued fm w = {}" "sound_reachable env fm P w s"
    "map_of (committed_ends req s) g = Some e" "0 \<le> u" "u < e"
  shows "P req g u (de_world s)"
proof -
  have "request_ok fm P (de_retry s) (de_world s) req (state_of req s)"
    by (rule all_ok_state [OF sound_reachable_ok [OF assms(1-4)]])
  moreover have "group_end (rs_committed (state_of req s)) g = e"
    using assms(5) by (simp add: committed_ends_def state_of_def group_end_def split: option.splits)
  ultimately show ?thesis using assms(6,7) by (simp add: request_ok_def verified_ok_def)
qed

theorem committed_tokens_are_stored_witness:
  "map_of (committed_ends ''req'' (demo_three True)) 0 = Some 4 \<and> demo_stored ''req'' 0 3 (de_world (demo_three True))"
  using committed_tokens_are_stored [OF demo_storage_laws demo_future_laws demo_issued demo_run, of "''req''" 0 4 3]
  by (simp add: demo_waits)

text \<open>
  C40. Waits that raise are outside the theorem above for a reason.  Two puts of two tokens each, the second of which
  fails, on a storage that keeps every promise: the wait raises when the repair of the failed put raises, its futures
  are forgotten, and the next wait returns and publishes the end 4 although token 3 was never stored.
\<close>

theorem raised_wait_publishes_unstored:
  "storage_laws (demo_env False) demo_model demo_stored \<and> future_laws (demo_env False) demo_model \<and>
   fst (wait_for_direct_stores (demo_env False) [''req''] (demo_two False)) = Inl demo_error \<and>
   fst (wait_for_direct_stores (demo_env False) [''req''] (demo_three False)) = Inr [''req''] \<and>
   committed_ends ''req'' (demo_four False) = [(0, 4)] \<and> \<not> demo_stored ''req'' 0 3 (de_world (demo_four False))"
proof -
  have "\<not> demo_stored ''req'' 0 3 (de_world (demo_four False))"
    unfolding demo_waits by (auto simp: demo_stored_iff demo_tokens nth_Cons split: nat.splits)
  then show ?thesis using demo_storage_laws demo_future_laws demo_waits(3-5) by blast
qed

section \<open>Finished requests are idle\<close>

lemma finished_found:
  assumes "get_finished_stores env finished s = (Inr (Some found), t)"
  shows "set found = {r. (r \<in> set (de_deferred s) \<or> r \<in> set finished \<and> r \<notin> set (de_reported s)) \<and> \<not> is_pending r s} \<and>
    set (de_deferred t) = {r. (r \<in> set (de_deferred s) \<or> r \<in> set finished \<and> r \<notin> set (de_reported s)) \<and> is_pending r s}"
  using assms by (auto simp: get_finished_stores_def retA_def bindA_def readA_def seqA_def writeA_def Let_def is_pending_def split: if_splits)

text \<open>
  C4. In every run of the calls and the other threads, whatever they return or raise, \<open>get_finished_stores\<close> reports
  exactly the requests it was asked for, or had deferred, and has not reported, whose puts are all completed and that have
  no background store queued; no put of a reported request is still running.
\<close>

theorem finished_requests_are_quiescent:
  assumes "future_laws env fm" "fm_issued fm w = {}" "direct_reachable env w s"
    "get_finished_stores env finished s = (Inr (Some found), t)"
  shows "set found = {r. (r \<in> set (de_deferred s) \<or> r \<in> set finished \<and> r \<notin> set (de_reported s)) \<and>
      unfinished fm r s = {} \<and> queued r s = 0} \<and>
    list_all (\<lambda>r. {f \<in> fm_issued fm (de_world s). owner fm f = r \<and> dv_status env f (de_world s) = Running} = {}) found"
proof -
  have b: "balanced env fm (\<lambda>_. 0) s" by (rule reachable_balanced [OF assms(1-3)])
  have found: "set found = {r. (r \<in> set (de_deferred s) \<or> r \<in> set finished \<and> r \<notin> set (de_reported s)) \<and>
      unfinished fm r s = {} \<and> queued r s = 0}"
    using finished_found [OF assms(4)] balanced_idle [OF assms(1) b] by simp
  have "\<forall>f \<in> set (de_completed s). dv_status env f (de_world s) \<noteq> Running" using b by (simp add: balanced_def)
  then show ?thesis using found by (auto simp: list_all_iff unfinished_def)
qed

theorem finished_requests_are_quiescent_witness:
  "unfinished demo_model ''req'' (demo_three True) = {} \<and> queued ''req'' (demo_three True) = 0"
proof -
  have "fst (get_finished_stores (demo_env True) [''req''] (demo_three True)) = Inr (Some [''req''])" by code_simp
  then have run: "get_finished_stores (demo_env True) [''req''] (demo_three True) =
      (Inr (Some [''req'']), snd (get_finished_stores (demo_env True) [''req''] (demo_three True)))" by (simp add: prod_eq_iff)
  have "''req'' \<in> set [''req'']" by simp
  with finished_requests_are_quiescent [OF demo_future_laws demo_issued sound_is_reachable [OF demo_run] run]
  show ?thesis by blast
qed

end
