(* ===== verification/Spec2Isabelle.thy ===== *)
theory Spec2Isabelle
  imports PageOwnership Placement SessionProperties ProducerMetrics DirectStorePlan CoordinatorProperties LayerwisePut CheckpointProperties WritebackProperties PreemptionProperties DmaBinding DirectStoreProperties
begin

text \<open>Root.\<close>

end
